(* ===== verification/Prelude.thy ===== *)
theory Prelude
  imports Complex_Main
begin

text \<open>
  Shared vocabulary of the development: the exceptions of the HTTP layer as values, the
  result type of the operations, keyed tables of rows (what a repository's
  \<^verbatim>\<open>findOne\<close>, \<^verbatim>\<open>save\<close> and \<^verbatim>\<open>remove\<close> do to the list of rows of one entity),
  and two interfaces stated as locales: \<^verbatim>\<open>table\<close> (a component of the database state
  with a key) and \<^verbatim>\<open>transition_system\<close> (a step relation with an invariant).
\<close>

named_theorems table_simps \<open>lookups after writes to a keyed table\<close>

section \<open>Results and errors\<close>

text \<open>
  The exceptions the services raise (\<^verbatim>\<open>@nestjs/common\<close>), each with its message; an
  operation that may raise returns a sum whose left part is the exception.
\<close>

datatype http_error =
    BadRequest string
  | Unauthorized string
  | Forbidden string
  | NotFound string
  | Conflict string
  | Unprocessable string
  | TooManyRequests string
  | InternalError string

type_synonym 'a res = "http_error + 'a"

type_synonym ident = string
type_synonym time = int

fun err_message :: "http_error \<Rightarrow> string" where
  "err_message (BadRequest m) = m"
| "err_message (Unauthorized m) = m"
| "err_message (Forbidden m) = m"
| "err_message (NotFound m) = m"
| "err_message (Conflict m) = m"
| "err_message (Unprocessable m) = m"
| "err_message (TooManyRequests m) = m"
| "err_message (InternalError m) = m"

fun err_is_not_found :: "http_error \<Rightarrow> bool" where
  "err_is_not_found (NotFound _) = True"
| "err_is_not_found _ = False"

definition is_ok :: "'a res \<Rightarrow> bool" where
  "is_ok r = (case r of Inl _ \<Rightarrow> False | Inr _ \<Rightarrow> True)"

lemma is_ok_iff: "is_ok r \<longleftrightarrow> (\<exists>x. r = Inr x)"
  by (cases r) (simp_all add: is_ok_def)

lemma is_ok_simps [simp]: "is_ok (Inr x)" "\<not> is_ok (Inl e)"
  by (simp_all add: is_ok_def)

text \<open>Sequencing of fallible steps and the guard that raises unless a condition holds.\<close>

fun bind_res :: "'e + 'a \<Rightarrow> ('a \<Rightarrow> 'e + 'b) \<Rightarrow> 'e + 'b" where
  "bind_res (Inl e) f = Inl e"
| "bind_res (Inr x) f = f x"

definition require :: "bool \<Rightarrow> 'e \<Rightarrow> 'e + 'a \<Rightarrow> 'e + 'a" where
  "require b e k = (if b then k else Inl e)"

lemma bind_res_Inr_iff: "bind_res m f = Inr y \<longleftrightarrow> (\<exists>x. m = Inr x \<and> f x = Inr y)"
  by (cases m) simp_all

lemma bind_res_Inl_iff: "bind_res m f = Inl e \<longleftrightarrow> m = Inl e \<or> (\<exists>x. m = Inr x \<and> f x = Inl e)"
  by (cases m) simp_all

lemma require_Inr_iff: "require b e k = Inr y \<longleftrightarrow> b \<and> k = Inr y"
  by (simp add: require_def)

lemma require_simps [simp]: "require True e k = k" "require False e k = Inl e"
  by (simp_all add: require_def)

lemma map_sum_Inr_iff: "map_sum id f r = Inr y \<longleftrightarrow> (\<exists>x. r = Inr x \<and> y = f x)"
  by (cases r) auto

lemmas res_iffs = bind_res_Inr_iff bind_res_Inl_iff require_Inr_iff

section \<open>Keyed tables\<close>

definition by_key :: "('r \<Rightarrow> 'k) \<Rightarrow> 'k \<Rightarrow> 'r list \<Rightarrow> 'r option" where
  "by_key key k rs = List.find (\<lambda>r. key r = k) rs"

definition replace_row :: "('r \<Rightarrow> 'k) \<Rightarrow> 'r \<Rightarrow> 'r list \<Rightarrow> 'r list" where
  "replace_row key r rs = map (\<lambda>x. if key x = key r then r else x) rs"

definition remove_key :: "('r \<Rightarrow> 'k) \<Rightarrow> 'k \<Rightarrow> 'r list \<Rightarrow> 'r list" where
  "remove_key key k rs = filter (\<lambda>x. key x \<noteq> k) rs"

lemma find_SomeD: "List.find p xs = Some x \<Longrightarrow> x \<in> set xs \<and> p x"
  by (auto simp: find_Some_iff)

lemma find_eq_NoneD: "List.find p xs = None \<Longrightarrow> x \<in> set xs \<Longrightarrow> \<not> p x"
  by (auto simp: find_None_iff)

lemma find_append: "List.find p (xs @ ys) = (case List.find p xs of None \<Rightarrow> List.find p ys | Some x \<Rightarrow> Some x)"
  by (induction xs) auto

lemma by_key_Nil [simp]: "by_key key k [] = None"
  by (simp add: by_key_def)

lemma by_key_Cons: "by_key key k (r # rs) = (if key r = k then Some r else by_key key k rs)"
  by (simp add: by_key_def)

lemma by_key_SomeD: "by_key key k rs = Some r \<Longrightarrow> r \<in> set rs \<and> key r = k"
  by (auto simp: by_key_def dest: find_SomeD)

lemma by_key_None_iff: "by_key key k rs = None \<longleftrightarrow> k \<notin> key ` set rs"
  by (auto simp: by_key_def find_None_iff)

lemma by_key_append: "by_key key k (rs @ ss) = (case by_key key k rs of None \<Rightarrow> by_key key k ss | Some r \<Rightarrow> Some r)"
  by (simp add: by_key_def find_append split: option.splits)

lemma by_key_member:
  "distinct (map key rs) \<Longrightarrow> r \<in> set rs \<Longrightarrow> by_key key (key r) rs = Some r"
  by (induction rs) (auto simp: by_key_Cons)

lemma by_key_replace_same [table_simps]:
  "key r \<in> key ` set rs \<Longrightarrow> by_key key (key r) (replace_row key r rs) = Some r"
  by (induction rs) (auto simp: replace_row_def by_key_Cons)

lemma by_key_replace_other [table_simps]:
  "k \<noteq> key r \<Longrightarrow> by_key key k (replace_row key r rs) = by_key key k rs"
  by (induction rs) (auto simp: replace_row_def by_key_Cons)

lemma keys_replace_row [table_simps]: "map key (replace_row key r rs) = map key rs"
  by (induction rs) (auto simp: replace_row_def)

lemma length_replace_row [simp]: "length (replace_row key r rs) = length rs"
  by (simp add: replace_row_def)

lemma set_replace_row_subset: "set (replace_row key r rs) \<subseteq> insert r (set rs)"
  by (auto simp: replace_row_def)

lemma in_replace_rowD: "x \<in> set (replace_row key r rs) \<Longrightarrow> x = r \<or> (x \<in> set rs \<and> key x \<noteq> key r)"
  by (auto simp: replace_row_def split: if_splits)

lemma replace_row_absent: "key r \<notin> key ` set rs \<Longrightarrow> replace_row key r rs = rs"
  by (induction rs) (auto simp: replace_row_def)

lemma by_key_remove_same [table_simps]: "by_key key k (remove_key key k rs) = None"
  by (auto simp: by_key_None_iff remove_key_def)

lemma by_key_remove_other [table_simps]:
  "k \<noteq> j \<Longrightarrow> by_key key k (remove_key key j rs) = by_key key k rs"
  by (induction rs) (auto simp: remove_key_def by_key_Cons)

lemma distinct_keys_remove: "distinct (map key rs) \<Longrightarrow> distinct (map key (remove_key key k rs))"
  by (simp add: remove_key_def distinct_map_filter)

lemma by_key_map:
  "(\<And>r. key (f r) = key r) \<Longrightarrow> by_key key k (map f rs) = map_option f (by_key key k rs)"
  by (induction rs) (auto simp: by_key_Cons)

lemma by_key_filter_iff:
  "distinct (map key rs) \<Longrightarrow> by_key key k (filter P rs) = Some r \<longleftrightarrow> by_key key k rs = Some r \<and> P r"
proof (induction rs)
  case (Cons a rs)
  have "key a = k \<Longrightarrow> by_key key k (filter P rs) = None"
    using Cons.prems by (auto simp: by_key_None_iff)
  with Cons show ?case by (auto simp: by_key_Cons)
qed simp

lemma filter_replace_row:
  "(\<And>x. x \<in> set rs \<Longrightarrow> key x = key r \<Longrightarrow> P x = P r) \<Longrightarrow>
   filter P (replace_row key r rs) = replace_row key r (filter P rs)"
  by (induction rs) (auto simp: replace_row_def)

lemma replace_row_filtered_out:
  "(\<And>x. x \<in> set rs \<Longrightarrow> key x = key r \<Longrightarrow> \<not> P x) \<Longrightarrow> \<not> P r \<Longrightarrow> filter P (replace_row key r rs) = filter P rs"
  by (induction rs) (auto simp: replace_row_def)

lemma replace_row_same:
  assumes "\<And>x. x \<in> set rs \<Longrightarrow> key x = key r \<Longrightarrow> r = x"
  shows "replace_row key r rs = rs"
  unfolding replace_row_def by (rule map_idI) (use assms in auto)

lemma distinct_keys_eq:
  "distinct (map key rs) \<Longrightarrow> x \<in> set rs \<Longrightarrow> y \<in> set rs \<Longrightarrow> key x = key y \<Longrightarrow> x = y"
  by (auto simp: distinct_map dest: inj_onD)

lemma replace_row_self: "distinct (map key rs) \<Longrightarrow> r \<in> set rs \<Longrightarrow> replace_row key r rs = rs"
  by (rule replace_row_same) (metis distinct_keys_eq)

section \<open>A component of the state that is a keyed table\<close>

locale table =
  fixes rows :: "'s \<Rightarrow> 'r list"
    and upd :: "('r list \<Rightarrow> 'r list) \<Rightarrow> 's \<Rightarrow> 's"
    and key :: "'r \<Rightarrow> 'k"
  assumes rows_upd: "rows (upd f s) = f (rows s)"
begin

lemma find_after_save:
  assumes "by_key key (key r) (rows s) \<noteq> None"
  shows "by_key key (key r) (rows (upd (replace_row key r) s)) = Some r"
  using assms by (auto simp: rows_upd by_key_None_iff intro: by_key_replace_same)

lemma find_other_after_save:
  "k \<noteq> key r \<Longrightarrow> by_key key k (rows (upd (replace_row key r) s)) = by_key key k (rows s)"
  by (simp add: rows_upd by_key_replace_other)

lemma keys_after_save:
  "map key (rows (upd (replace_row key r) s)) = map key (rows s)"
  by (simp add: rows_upd keys_replace_row)

lemma find_after_insert:
  assumes "by_key key (key r) (rows s) = None"
  shows "by_key key (key r) (rows (upd (\<lambda>rs. rs @ [r]) s)) = Some r"
  using assms by (simp add: rows_upd by_key_append by_key_Cons)

lemma find_other_after_insert:
  "k \<noteq> key r \<Longrightarrow> by_key key k (rows (upd (\<lambda>rs. rs @ [r]) s)) = by_key key k (rows s)"
  by (simp add: rows_upd by_key_append by_key_Cons split: option.splits)

lemma find_after_remove:
  "by_key key k (rows (upd (remove_key key k) s)) = None"
  by (simp add: rows_upd by_key_remove_same)

lemma find_other_after_remove:
  "k \<noteq> j \<Longrightarrow> by_key key k (rows (upd (remove_key key j) s)) = by_key key k (rows s)"
  by (simp add: rows_upd by_key_remove_other)

lemma distinct_after_insert:
  assumes "distinct (map key (rows s))" and "by_key key (key r) (rows s) = None"
  shows "distinct (map key (rows (upd (\<lambda>rs. rs @ [r]) s)))"
  using assms by (auto simp: rows_upd by_key_None_iff)

end

section \<open>Step relations with an invariant\<close>

locale transition_system =
  fixes step :: "'s \<Rightarrow> 's \<Rightarrow> bool" and inv :: "'s \<Rightarrow> bool"
  assumes step_inv: "inv s \<Longrightarrow> step s t \<Longrightarrow> inv t"
begin

lemma reach_inv: "step\<^sup>*\<^sup>* s t \<Longrightarrow> inv s \<Longrightarrow> inv t"
  by (induction rule: rtranclp_induct) (auto intro: step_inv)

end

section \<open>Folding an operation over a list of inputs\<close>

lemma fold_invariant:
  "(\<And>x s. x \<in> set xs \<Longrightarrow> P s \<Longrightarrow> P (f x s)) \<Longrightarrow> P s \<Longrightarrow> P (fold f xs s)"
  by (induction xs arbitrary: s) auto

lemma fold_relation:
  assumes refl: "\<And>s. R s s" and trans: "\<And>s t u. R s t \<Longrightarrow> R t u \<Longrightarrow> R s u"
    and step: "\<And>x s. x \<in> set xs \<Longrightarrow> R s (f x s)"
  shows "R s (fold f xs s)"
  using step
proof (induction xs arbitrary: s)
  case Nil
  show ?case by (simp add: refl)
next
  case (Cons x xs)
  have "R s (f x s)" by (rule Cons.prems) simp
  moreover have "R (f x s) (fold f xs (f x s))" by (rule Cons.IH) (auto intro: Cons.prems)
  ultimately show ?case by (auto intro: trans)
qed

lemma option_case_Some_iff:
  "(case x of None \<Rightarrow> False | Some y \<Rightarrow> P y) \<longleftrightarrow> (\<exists>y. x = Some y \<and> P y)"
  by (cases x) auto

end
