(* ===== verification/JsNumber.thy ===== *)
theory JsNumber
  imports JsString
begin

text \<open>
  \<^verbatim>\<open>Number(s)\<close> of a string that reads as a finite decimal: optional sign, digits,
  optional fraction and exponent, surrounded by white space; the empty string is 0.
  The result is the exact rational (a double rounds it); a string that reads as NaN or an
  infinity gives \<^verbatim>\<open>None\<close>, because every caller rejects both alike. Literals with a radix
  prefix are read as well.
\<close>

definition digit_val :: "char \<Rightarrow> nat" where
  "digit_val c = (let n = code c in
     if 48 \<le> n \<and> n \<le> 57 then n - 48
     else if 97 \<le> n \<and> n \<le> 122 then n - 87
     else if 65 \<le> n \<and> n \<le> 90 then n - 55 else 99)"

definition nat_of_digits :: "nat \<Rightarrow> string \<Rightarrow> nat" where
  "nat_of_digits base ds = foldl (\<lambda>a c. base * a + digit_val c) 0 ds"

definition radix_literal :: "nat \<Rightarrow> string \<Rightarrow> rat option" where
  "radix_literal base ds =
     (if ds \<noteq> [] \<and> list_all (\<lambda>c. digit_val c < base) ds
      then Some (of_nat (nat_of_digits base ds)) else None)"

definition exponent_part :: "string \<Rightarrow> int option" where
  "exponent_part s =
     (case s of
        [] \<Rightarrow> Some 0
      | c # cs \<Rightarrow>
          (if c = CHR ''e'' \<or> c = CHR ''E'' then
             (let neg = (cs \<noteq> [] \<and> hd cs = CHR ''-'');
                  ds = (if cs \<noteq> [] \<and> (hd cs = CHR ''-'' \<or> hd cs = CHR ''+'') then tl cs else cs)
              in if ds \<noteq> [] \<and> list_all is_digit ds
                 then Some (if neg then - int (nat_of_digits 10 ds) else int (nat_of_digits 10 ds))
                 else None)
           else None))"

definition pow10 :: "int \<Rightarrow> rat" where
  "pow10 n = (if 0 \<le> n then 10 ^ nat n else 1 / 10 ^ nat (- n))"

definition unsigned_decimal :: "string \<Rightarrow> rat option" where
  "unsigned_decimal s =
     (let ip = takeWhile is_digit s; r1 = dropWhile is_digit s;
          has_dot = (r1 \<noteq> [] \<and> hd r1 = CHR ''.'');
          fp = (if has_dot then takeWhile is_digit (tl r1) else []);
          r2 = (if has_dot then dropWhile is_digit (tl r1) else r1)
      in if ip = [] \<and> fp = [] then None
         else (case exponent_part r2 of
             None \<Rightarrow> None
           | Some e \<Rightarrow> Some (of_nat (nat_of_digits 10 (ip @ fp)) * pow10 (e - int (length fp)))))"

definition js_number :: "string \<Rightarrow> rat option" where
  "js_number s0 =
     (let s = js_trim s0 in
      if s = [] then Some 0
      else if starts_with ''0x'' s \<or> starts_with ''0X'' s then radix_literal 16 (drop 2 s)
      else if starts_with ''0o'' s \<or> starts_with ''0O'' s then radix_literal 8 (drop 2 s)
      else if starts_with ''0b'' s \<or> starts_with ''0B'' s then radix_literal 2 (drop 2 s)
      else if hd s = CHR ''-'' then map_option uminus (unsigned_decimal (tl s))
      else if hd s = CHR ''+'' then unsigned_decimal (tl s)
      else unsigned_decimal s)"

text \<open>\<^verbatim>\<open>parseInt(s, 10)\<close>: the longest prefix of digits after the sign, none being NaN.\<close>

definition js_parse_int :: "string \<Rightarrow> int option" where
  "js_parse_int s0 =
     (let s = js_trim_start s0;
          neg = (s \<noteq> [] \<and> hd s = CHR ''-'');
          r = (if s \<noteq> [] \<and> (hd s = CHR ''-'' \<or> hd s = CHR ''+'') then tl s else s);
          ds = takeWhile is_digit r
      in if ds = [] then None
         else Some (if neg then - int (nat_of_digits 10 ds) else int (nat_of_digits 10 ds)))"

text \<open>Decimal notation of a natural number, as string interpolation prints it.\<close>

fun show_nat_aux :: "nat \<Rightarrow> nat \<Rightarrow> string \<Rightarrow> string" where
  "show_nat_aux 0 n acc = acc"
| "show_nat_aux (Suc f) n acc =
     (let acc' = char_of (48 + n mod 10) # acc in
      if n < 10 then acc' else show_nat_aux f (n div 10) acc')"

definition show_nat :: "nat \<Rightarrow> string" where
  "show_nat n = show_nat_aux (Suc n) n []"

definition show_int :: "int \<Rightarrow> string" where
  "show_int i = (if i < 0 then CHR ''-'' # show_nat (nat (- i)) else show_nat (nat i))"

end
