(* ===== verification/Config.thy ===== *)
theory Config
  imports JsNumber
begin

text \<open>
  Boot-time configuration: the environment switches (\<^verbatim>\<open>src/common/env-flag.ts\<close>), the
  production check (\<^verbatim>\<open>src/config/is-production.ts\<close>), the validation that aborts an
  unsafe boot (\<^verbatim>\<open>src/config/env.validation.ts\<close>) and the trust-proxy setting of
  \<^verbatim>\<open>src/main.ts\<close>. The decorators of \<^verbatim>\<open>EnvVars\<close> run in class-validator, a
  parameter (\<^verbatim>\<open>schema_errors\<close>).
\<close>

section \<open>Flags\<close>

definition TRUE_VALUES :: "string list" where
  "TRUE_VALUES = [''true'', ''1'', ''yes'', ''on'']"

definition FALSE_VALUES :: "string list" where
  "FALSE_VALUES = [''false'', ''0'', ''no'', ''off'']"

text \<open>The left value of the result is the name of the malformed variable.\<close>

definition parseEnvFlag :: "string \<Rightarrow> string option \<Rightarrow> bool \<Rightarrow> string + bool" where
  "parseEnvFlag name raw fallback =
     (case raw of
        None \<Rightarrow> Inr fallback
      | Some r \<Rightarrow>
          (if js_trim r = '''' then Inr fallback
           else (let v = js_lower (js_trim r) in
             if v \<in> set TRUE_VALUES then Inr True
             else if v \<in> set FALSE_VALUES then Inr False
             else Inl name)))"

definition envFlag :: "(string \<Rightarrow> string option) \<Rightarrow> string \<Rightarrow> bool \<Rightarrow> string + bool" where
  "envFlag penv name fallback = parseEnvFlag name (penv name) fallback"

definition BOOLEAN_ENV_FLAGS :: "string list" where
  "BOOLEAN_ENV_FLAGS = [''SLA_SWEEP_ENABLED'', ''DIGEST_ENABLED'', ''SCAN_RETRY_ENABLED'']"

section \<open>Production check\<close>

definition isProductionEnv :: "string option \<Rightarrow> bool" where
  "isProductionEnv node_env =
     (let v = js_lower (case node_env of None \<Rightarrow> '''' | Some x \<Rightarrow> x)
      in v \<noteq> ''development'' \<and> v \<noteq> ''test'')"

section \<open>Validation\<close>

definition MIN_JWT_SECRET_LENGTH :: nat where
  "MIN_JWT_SECRET_LENGTH = 32"

definition isTrue :: "string option \<Rightarrow> bool" where
  "isTrue v = (js_lower (case v of None \<Rightarrow> '''' | Some x \<Rightarrow> x) = ''true'')"

datatype boot_problem =
    DbSynchronizeOn | CorsWildcard | JwtSecretMissing | JwtSecretShort | ScannerMissing

datatype boot_error =
    SchemaErrors "string list"
  | InvalidFlag string
  | ProductionProblems "boot_problem list"

definition boot_problems :: "bool \<Rightarrow> (string \<Rightarrow> string option) \<Rightarrow> boot_problem list" where
  "boot_problems is_prod cfg =
     (if cfg ''DB_SYNCHRONIZE'' = None \<or> isTrue (cfg ''DB_SYNCHRONIZE'') then [DbSynchronizeOn] else [])
   @ (case cfg ''CORS_ORIGINS'' of
        None \<Rightarrow> [CorsWildcard]
      | Some c \<Rightarrow> (if c = '''' \<or> js_trim c = ''*'' then [CorsWildcard] else []))
   @ (case cfg ''JWT_SECRET'' of
        None \<Rightarrow> [JwtSecretMissing]
      | Some k \<Rightarrow> (if k = '''' then [JwtSecretMissing]
                   else if length k < MIN_JWT_SECRET_LENGTH then [JwtSecretShort] else []))
   @ (if is_prod \<and> cfg ''SCAN_DRIVER'' \<noteq> Some ''clamav'' \<and> \<not> isTrue (cfg ''ALLOW_UNSCANNED_UPLOADS'')
      then [ScannerMissing] else [])"

fun first_bad_flag :: "(string \<Rightarrow> string option) \<Rightarrow> string list \<Rightarrow> string option" where
  "first_bad_flag cfg [] = None"
| "first_bad_flag cfg (n # ns) =
     (case parseEnvFlag n (cfg n) True of Inl b \<Rightarrow> Some b | Inr _ \<Rightarrow> first_bad_flag cfg ns)"

text \<open>
  \<^verbatim>\<open>validate\<close>: \<^verbatim>\<open>fallback_node_env\<close> is \<^verbatim>\<open>process.env.NODE_ENV\<close>, read when the
  configuration object has none. A boot that goes on returns the configuration.
\<close>

definition validate ::
  "((string \<Rightarrow> string option) \<Rightarrow> string list) \<Rightarrow> string option \<Rightarrow> (string \<Rightarrow> string option)
     \<Rightarrow> boot_error + (string \<Rightarrow> string option)" where
  "validate schema_errors fallback_node_env cfg =
     (if schema_errors cfg \<noteq> [] then Inl (SchemaErrors (schema_errors cfg))
      else (case first_bad_flag cfg BOOLEAN_ENV_FLAGS of
          Some b \<Rightarrow> Inl (InvalidFlag b)
        | None \<Rightarrow>
            (let is_prod = isProductionEnv
                   (case cfg ''NODE_ENV'' of Some v \<Rightarrow> Some v | None \<Rightarrow> fallback_node_env);
                 problems = boot_problems is_prod cfg
             in if problems \<noteq> [] \<and> is_prod then Inl (ProductionProblems problems) else Inr cfg)))"

section \<open>Trust proxy\<close>

datatype trust_proxy = TrustAll | TrustHops nat | TrustList string

definition resolveTrustProxy :: "string \<Rightarrow> trust_proxy option" where
  "resolveTrustProxy raw =
     (let value = js_trim raw in
      if value = '''' \<or> value = ''false'' then None
      else if value = ''true'' then Some TrustAll
      else if list_all is_digit value then Some (TrustHops (nat_of_digits 10 value))
      else Some (TrustList value))"

section \<open>Facts\<close>

lemma first_bad_flag_None:
  "first_bad_flag cfg ns = None \<longleftrightarrow> (\<forall>n \<in> set ns. \<exists>b. parseEnvFlag n (cfg n) True = Inr b)"
  by (induction ns) (auto split: sum.splits)

lemma parseEnvFlag_total:
  "parseEnvFlag n raw fb = Inr b \<Longrightarrow>
     (raw = None \<or> (\<exists>r. raw = Some r \<and> js_trim r = '''')) \<and> b = fb
     \<or> (\<exists>r. raw = Some r \<and> js_lower (js_trim r) \<in> set (if b then TRUE_VALUES else FALSE_VALUES))"
  by (auto simp: parseEnvFlag_def Let_def split: option.splits if_splits)

lemma flag_values_disjoint: "v \<in> set TRUE_VALUES \<Longrightarrow> v \<notin> set FALSE_VALUES"
  by (auto simp: TRUE_VALUES_def FALSE_VALUES_def)

section \<open>Properties\<close>

text \<open>
  C17: Boot fails closed. \<^verbatim>\<open>validate\<close> lets a configuration through,
  unchanged, exactly if the declared types hold, in every environment all the kill
  switches are readable as a boolean, and, unless NODE_ENV is development or test (a missing
  one counts as production), synchronisation is off, there is an explicit CORS origin, a
  signing secret of at least 32 units, and a real scanner or the explicit acceptance of
  unscanned uploads.
\<close>

theorem boot_fails_closed:
  "validate schema_errors fb cfg = Inr cfg' \<longleftrightarrow>
     cfg' = cfg \<and> schema_errors cfg = []
   \<and> (\<forall>n \<in> set BOOLEAN_ENV_FLAGS. \<exists>b. parseEnvFlag n (cfg n) True = Inr b)
   \<and> (isProductionEnv (case cfg ''NODE_ENV'' of Some v \<Rightarrow> Some v | None \<Rightarrow> fb) \<longrightarrow>
        cfg ''DB_SYNCHRONIZE'' \<noteq> None \<and> \<not> isTrue (cfg ''DB_SYNCHRONIZE'')
      \<and> (\<exists>c. cfg ''CORS_ORIGINS'' = Some c \<and> c \<noteq> '''' \<and> js_trim c \<noteq> ''*'')
      \<and> (\<exists>k. cfg ''JWT_SECRET'' = Some k \<and> 32 \<le> length k)
      \<and> (cfg ''SCAN_DRIVER'' = Some ''clamav'' \<or> isTrue (cfg ''ALLOW_UNSCANNED_UPLOADS'')))"
proof -
  let ?prod = "isProductionEnv (case cfg ''NODE_ENV'' of Some v \<Rightarrow> Some v | None \<Rightarrow> fb)"
  have problems: "boot_problems True cfg = [] \<longleftrightarrow>
      cfg ''DB_SYNCHRONIZE'' \<noteq> None \<and> \<not> isTrue (cfg ''DB_SYNCHRONIZE'')
      \<and> (\<exists>c. cfg ''CORS_ORIGINS'' = Some c \<and> c \<noteq> '''' \<and> js_trim c \<noteq> ''*'')
      \<and> (\<exists>k. cfg ''JWT_SECRET'' = Some k \<and> 32 \<le> length k)
      \<and> (cfg ''SCAN_DRIVER'' = Some ''clamav'' \<or> isTrue (cfg ''ALLOW_UNSCANNED_UPLOADS''))"
    by (auto simp: boot_problems_def MIN_JWT_SECRET_LENGTH_def not_less split: option.splits if_splits)
  have "validate schema_errors fb cfg = Inr cfg' \<longleftrightarrow>
      cfg' = cfg \<and> schema_errors cfg = [] \<and> first_bad_flag cfg BOOLEAN_ENV_FLAGS = None \<and> (?prod \<longrightarrow> boot_problems True cfg = [])"
    by (cases ?prod) (auto simp: validate_def Let_def split: option.splits)
  then show ?thesis unfolding problems first_bad_flag_None .
qed

definition safe_config :: "string \<Rightarrow> string option" where
  "safe_config = map_of [(''DB_SYNCHRONIZE'', ''false''), (''CORS_ORIGINS'', ''https://cimp.example''),
     (''JWT_SECRET'', ''0123456789abcdef0123456789abcdef''), (''SCAN_DRIVER'', ''clamav'')]"

theorem boot_fails_closed_witness:
  "(\<exists>k. safe_config ''JWT_SECRET'' = Some k \<and> 32 \<le> length k)
   \<and> list_all (\<lambda>n. \<exists>b. parseEnvFlag n (safe_config n) True = Inr b) BOOLEAN_ENV_FLAGS"
proof -
  have v: "validate (\<lambda>_. []) None safe_config = Inr safe_config"
    by (simp add: validate_def first_bad_flag_None BOOLEAN_ENV_FLAGS_def parseEnvFlag_def
        boot_problems_def safe_config_def isTrue_def isProductionEnv_def js_lower_def lower_char_def
        code_def MIN_JWT_SECRET_LENGTH_def js_trim_def js_trim_start_def js_trim_end_def is_ws_def Let_def)
  have p: "isProductionEnv (case safe_config ''NODE_ENV'' of Some v \<Rightarrow> Some v | None \<Rightarrow> None)"
    by (simp add: safe_config_def isProductionEnv_def js_lower_def)
  from v p show ?thesis unfolding boot_fails_closed list_all_iff by blast
qed

end
