(* ===== verification/Enums.thy ===== *)
theory Enums
  imports JsString
begin

text \<open>
  The enumerations of \<^verbatim>\<open>src/common/enums.ts\<close>, the constants built from them in
  \<^verbatim>\<open>src/common/constants.ts\<close> and the wire spelling of the ones that are parsed or
  written to text columns.
\<close>

section \<open>Enumerations\<close>

datatype role = FOCAL_POINT | DEVELOPER | ADMIN | WATCHER

datatype issue_status = NEW | IN_PROGRESS | ON_HOLD | RESOLVED | CLOSED | REOPENED

datatype priority = LOW | MEDIUM | HIGH | CRITICAL

datatype comment_visibility = INTERNAL | REPORTER_VISIBLE

datatype scan_status = SCAN_PENDING | SCAN_CLEAN | SCAN_INFECTED | SCAN_SKIPPED

datatype actor_type = ACTOR_STAFF | ACTOR_SYSTEM | ACTOR_REPORTER

datatype recipient_type = RCPT_STAFF | RCPT_REPORTER

datatype notification_channel = CH_EMAIL | CH_IN_APP

datatype notification_status = NOTIF_PENDING | NOTIF_SENT | NOTIF_FAILED

datatype jira_sync_status = NOT_SYNCED | SYNC_PENDING | SYNCED | SYNC_FAILED

datatype platform_status = PLATFORM_ACTIVE | PLATFORM_DISABLED

datatype account_status = ACCOUNT_ACTIVE | ACCOUNT_DISABLED

datatype issue_link_type = BLOCKS | RELATES | DUPLICATES

datatype automation_trigger = ISSUE_CREATED | STATUS_CHANGED

datatype automation_action = SET_PRIORITY | ASSIGN | ADD_LABEL

datatype component_status = OPERATIONAL | COMP_MAINTENANCE | DEGRADED | PARTIAL_OUTAGE | MAJOR_OUTAGE

datatype incident_status = INVESTIGATING | IDENTIFIED | MONITORING | INC_RESOLVED

datatype incident_impact = IMPACT_MINOR | IMPACT_MAJOR | IMPACT_CRITICAL | IMPACT_MAINTENANCE

section \<open>Wire spelling\<close>

fun status_name :: "issue_status \<Rightarrow> string" where
  "status_name NEW = ''NEW''"
| "status_name IN_PROGRESS = ''IN_PROGRESS''"
| "status_name ON_HOLD = ''ON_HOLD''"
| "status_name RESOLVED = ''RESOLVED''"
| "status_name CLOSED = ''CLOSED''"
| "status_name REOPENED = ''REOPENED''"

definition all_statuses :: "issue_status list" where
  "all_statuses = [NEW, IN_PROGRESS, ON_HOLD, RESOLVED, CLOSED, REOPENED]"

definition status_of_name :: "string \<Rightarrow> issue_status option" where
  "status_of_name s = List.find (\<lambda>x. status_name x = s) all_statuses"

fun priority_name :: "priority \<Rightarrow> string" where
  "priority_name LOW = ''LOW''"
| "priority_name MEDIUM = ''MEDIUM''"
| "priority_name HIGH = ''HIGH''"
| "priority_name CRITICAL = ''CRITICAL''"

definition all_priorities :: "priority list" where
  "all_priorities = [LOW, MEDIUM, HIGH, CRITICAL]"

definition priority_of_name :: "string \<Rightarrow> priority option" where
  "priority_of_name s = List.find (\<lambda>x. priority_name x = s) all_priorities"

fun visibility_name :: "comment_visibility \<Rightarrow> string" where
  "visibility_name INTERNAL = ''INTERNAL''"
| "visibility_name REPORTER_VISIBLE = ''REPORTER_VISIBLE''"

fun role_name :: "role \<Rightarrow> string" where
  "role_name FOCAL_POINT = ''FOCAL_POINT''"
| "role_name DEVELOPER = ''DEVELOPER''"
| "role_name ADMIN = ''ADMIN''"
| "role_name WATCHER = ''WATCHER''"

fun account_status_name :: "account_status \<Rightarrow> string" where
  "account_status_name ACCOUNT_ACTIVE = ''ACTIVE''"
| "account_status_name ACCOUNT_DISABLED = ''DISABLED''"

fun scan_status_name :: "scan_status \<Rightarrow> string" where
  "scan_status_name SCAN_PENDING = ''PENDING''"
| "scan_status_name SCAN_CLEAN = ''CLEAN''"
| "scan_status_name SCAN_INFECTED = ''INFECTED''"
| "scan_status_name SCAN_SKIPPED = ''SKIPPED''"

section \<open>Constants\<close>

definition OPEN_ISSUE_STATUSES :: "issue_status list" where
  "OPEN_ISSUE_STATUSES = [NEW, IN_PROGRESS, ON_HOLD, REOPENED]"

definition MAX_FILES :: nat where
  "MAX_FILES = 5"

definition MAX_FILE_BYTES :: nat where
  "MAX_FILE_BYTES = 10 * 1024 * 1024"

definition ALLOWED_MIME_TYPES :: "string list" where
  "ALLOWED_MIME_TYPES = [''image/png'', ''image/jpeg'', ''image/webp'', ''application/pdf'']"

definition SERVABLE_SCAN_STATUSES :: "scan_status list" where
  "SERVABLE_SCAN_STATUSES = [SCAN_CLEAN, SCAN_SKIPPED]"

definition is_open :: "issue_status \<Rightarrow> bool" where
  "is_open s = (s \<in> set OPEN_ISSUE_STATUSES)"

definition servable :: "scan_status \<Rightarrow> bool" where
  "servable s = (s \<in> set SERVABLE_SCAN_STATUSES)"

section \<open>Facts\<close>

lemma is_open_simps [simp]:
  "is_open NEW" "is_open IN_PROGRESS" "is_open ON_HOLD" "is_open REOPENED"
  "\<not> is_open RESOLVED" "\<not> is_open CLOSED"
  by (simp_all add: is_open_def OPEN_ISSUE_STATUSES_def)

lemma not_open_iff: "\<not> is_open s \<longleftrightarrow> s = RESOLVED \<or> s = CLOSED"
  by (cases s) simp_all

lemma servable_simps [simp]:
  "servable SCAN_CLEAN" "servable SCAN_SKIPPED" "\<not> servable SCAN_PENDING" "\<not> servable SCAN_INFECTED"
  by (simp_all add: servable_def SERVABLE_SCAN_STATUSES_def)

lemma status_of_name_roundtrip [simp]: "status_of_name (status_name s) = Some s"
  by (cases s) (simp_all add: status_of_name_def all_statuses_def)

lemma status_of_name_SomeD: "status_of_name n = Some s \<Longrightarrow> n = status_name s"
  by (auto simp: status_of_name_def dest: find_SomeD)

lemma priority_of_name_roundtrip [simp]: "priority_of_name (priority_name p) = Some p"
  by (cases p) (simp_all add: priority_of_name_def all_priorities_def)

lemma priority_of_name_SomeD: "priority_of_name n = Some p \<Longrightarrow> n = priority_name p"
  by (auto simp: priority_of_name_def dest: find_SomeD)

lemma set_all_statuses: "set all_statuses = UNIV"
  using issue_status.exhaust by (auto simp: all_statuses_def)

text \<open>Component statuses are ordered worst last, by their position in the enumeration.\<close>

fun severity :: "component_status \<Rightarrow> nat" where
  "severity OPERATIONAL = 0"
| "severity COMP_MAINTENANCE = 1"
| "severity DEGRADED = 2"
| "severity PARTIAL_OUTAGE = 3"
| "severity MAJOR_OUTAGE = 4"

lemma severity_inj: "severity a = severity b \<Longrightarrow> a = b"
  by (cases a; cases b) simp_all

instantiation component_status :: linorder
begin
definition less_eq_component_status :: "component_status \<Rightarrow> component_status \<Rightarrow> bool" where
  "less_eq_component_status a b = (severity a \<le> severity b)"
definition less_component_status :: "component_status \<Rightarrow> component_status \<Rightarrow> bool" where
  "less_component_status a b = (severity a < severity b)"
instance
  by standard (auto simp: less_eq_component_status_def less_component_status_def intro: severity_inj)
end

end
