(* ===== verification/Entities.thy ===== *)
theory Entities
  imports Enums
begin

text \<open>
  The rows of the tables (\<^verbatim>\<open>src/entities/*.ts\<close>) and the database state. A many-to-one
  relation is the foreign key it stores; \<^verbatim>\<open>findOne\<close> with \<^verbatim>\<open>relations\<close> is a lookup
  in the related table. The state also holds the events emitted so far and the supply of
  generated uuids, a parameter of the model (\<^verbatim>\<open>uuid_gen\<close> with the number already drawn).
  Timestamps are milliseconds since the epoch. Columns managed by triggers only
  (\<^verbatim>\<open>search_vector\<close>) are left to the queries that use them.
\<close>

section \<open>Rows\<close>

record platform =
  plat_id :: ident
  plat_key :: string
  plat_name :: string
  plat_status :: platform_status
  plat_jira_project_key :: "string option"
  plat_jira_enabled :: bool
  plat_sla_policy :: "(string \<times> json) list option"
  plat_handoff_secret :: string
  plat_created_at :: time

record staff_user =
  su_id :: ident
  su_idp_subject :: string
  su_name :: string
  su_email :: string
  su_password_hash :: "string option"
  su_status :: account_status
  su_token_version :: int
  su_created_at :: time

record user_platform_role =
  upr_id :: ident
  upr_staff_user :: ident
  upr_platform :: "ident option"
  upr_role :: role
  upr_created_at :: time

record reporter =
  rep_id :: ident
  rep_platform :: ident
  rep_portal_user_id :: string
  rep_name :: string
  rep_email :: string
  rep_first_seen_at :: time
  rep_last_seen_at :: time

record issue =
  iss_id :: ident
  iss_reference_no :: string
  iss_platform :: ident
  iss_reporter :: ident
  iss_assignee :: "ident option"
  iss_description :: string
  iss_publicly_visible :: bool
  iss_public_title :: "string option"
  iss_context :: "json option"
  iss_status :: issue_status
  iss_priority :: priority
  iss_duplicate_of :: "ident option"
  iss_jira_issue_key :: "string option"
  iss_jira_sync_status :: jira_sync_status
  iss_version :: int
  iss_created_at :: time
  iss_sla_started_at :: time
  iss_sla_breached_at :: "time option"
  iss_updated_at :: time
  iss_resolved_at :: "time option"
  iss_closed_at :: "time option"

record comment =
  com_id :: ident
  com_issue :: ident
  com_author :: "ident option"
  com_author_type :: actor_type
  com_author_name :: "string option"
  com_body :: string
  com_visibility :: comment_visibility
  com_source_locale :: "string option"
  com_translations :: "(string \<times> string) list option"
  com_created_at :: time
  com_edited_at :: "time option"

record attachment =
  att_id :: ident
  att_issue :: ident
  att_storage_key :: string
  att_filename :: string
  att_content_type :: string
  att_size_bytes :: nat
  att_scan_status :: scan_status
  att_jira_synced :: bool
  att_created_at :: time

record audit_event =
  aud_id :: ident
  aud_issue :: "ident option"
  aud_actor_type :: actor_type
  aud_actor_id :: "ident option"
  aud_action :: string
  aud_field :: "string option"
  aud_old_value :: "string option"
  aud_new_value :: "string option"
  aud_metadata :: "json option"
  aud_created_at :: time

record label =
  lab_id :: ident
  lab_platform :: ident
  lab_name :: string
  lab_color :: string
  lab_created_at :: time

record issue_label =
  il_id :: ident
  il_issue :: ident
  il_label :: ident

record issue_link =
  lnk_id :: ident
  lnk_source :: ident
  lnk_target :: ident
  lnk_type :: issue_link_type
  lnk_created_by :: "ident option"
  lnk_created_at :: time

record issue_watcher =
  wat_id :: ident
  wat_issue :: ident
  wat_staff_user :: ident
  wat_created_at :: time

record automation_rule =
  rule_id :: ident
  rule_platform :: ident
  rule_name :: string
  rule_enabled :: bool
  rule_trigger :: automation_trigger
  rule_trigger_status :: "issue_status option"
  rule_action :: automation_action
  rule_action_value :: string
  rule_created_by :: "ident option"
  rule_created_at :: time

record reporter_issue_view =
  view_id :: ident
  view_reporter :: ident
  view_issue :: ident
  view_last_viewed_at :: time

record csat_response =
  csat_id :: ident
  csat_issue :: ident
  csat_reporter :: ident
  csat_score :: int
  csat_comment :: "string option"
  csat_created_at :: time
  csat_updated_at :: time

record reporter_subscription =
  sub_id :: ident
  sub_issue :: ident
  sub_reporter :: ident
  sub_created_at :: time

record notification_log =
  ntf_id :: ident
  ntf_issue :: ident
  ntf_recipient_type :: recipient_type
  ntf_recipient_ref :: string
  ntf_trigger :: string
  ntf_channel :: notification_channel
  ntf_status :: notification_status
  ntf_read_at :: "time option"
  ntf_created_at :: time

record api_token =
  tok_id :: ident
  tok_platform :: ident
  tok_name :: string
  tok_hash :: string
  tok_last_four :: string
  tok_created_by :: "ident option"
  tok_last_used_at :: "time option"
  tok_revoked_at :: "time option"
  tok_created_at :: time

record webhook_endpoint =
  hook_id :: ident
  hook_platform :: "ident option"
  hook_url :: string
  hook_secret :: string
  hook_events :: "string list"
  hook_enabled :: bool
  hook_created_by :: "ident option"
  hook_created_at :: time

record saved_view =
  sv_id :: ident
  sv_staff_user :: ident
  sv_name :: string
  sv_filters :: json
  sv_created_at :: time
  sv_updated_at :: time

record canned_response =
  can_id :: ident
  can_platform :: ident
  can_title :: string
  can_body :: string
  can_created_by :: "ident option"
  can_created_at :: time
  can_updated_at :: time

record status_component =
  comp_id :: ident
  comp_platform :: ident
  comp_name :: string
  comp_description :: "string option"
  comp_status :: component_status
  comp_position :: nat
  comp_created_at :: time
  comp_updated_at :: time

record status_incident =
  inc_id :: ident
  inc_platform :: ident
  inc_title :: string
  inc_status :: incident_status
  inc_impact :: incident_impact
  inc_components :: "ident list"
  inc_started_at :: time
  inc_resolved_at :: "time option"
  inc_created_by :: "ident option"
  inc_created_at :: time
  inc_updated_at :: time

record status_incident_update =
  upd_id :: ident
  upd_incident :: ident
  upd_status :: incident_status
  upd_body :: string
  upd_created_by :: "ident option"
  upd_created_at :: time

section \<open>Domain events\<close>

datatype domain_event =
    IssueCreated (ev_issue: ident) ident
  | IssueStatusChanged (ev_issue: ident) ident issue_status issue_status ident
  | IssuePriorityChanged (ev_issue: ident) ident priority priority ident
  | IssueAssigned (ev_issue: ident) ident "ident option" ident
  | CommentAdded (ev_issue: ident) ident ident bool ident "ident list"
  | AttachmentsScanned (ev_issue: ident)
  | IssueMerged (ev_issue: ident) ident ident ident
  | CsatReceived (ev_issue: ident) ident int
  | IssueSlaBreached (ev_issue: ident) ident

text \<open>The names events are published under.\<close>

fun event_name :: "domain_event \<Rightarrow> string" where
  "event_name (IssueCreated _ _) = ''issue.created''"
| "event_name (IssueStatusChanged _ _ _ _ _) = ''issue.status_changed''"
| "event_name (IssuePriorityChanged _ _ _ _ _) = ''issue.priority_changed''"
| "event_name (IssueAssigned _ _ _ _) = ''issue.assigned''"
| "event_name (CommentAdded _ _ _ _ _ _) = ''comment.added''"
| "event_name (AttachmentsScanned _) = ''issue.attachments_scanned''"
| "event_name (IssueMerged _ _ _ _) = ''issue.merged''"
| "event_name (CsatReceived _ _ _) = ''csat.received''"
| "event_name (IssueSlaBreached _ _) = ''issue.sla_breached''"

section \<open>The database\<close>

record db =
  t_platforms :: "platform list"
  t_staff :: "staff_user list"
  t_roles :: "user_platform_role list"
  t_reporters :: "reporter list"
  t_issues :: "issue list"
  t_comments :: "comment list"
  t_attachments :: "attachment list"
  t_audit :: "audit_event list"
  t_labels :: "label list"
  t_issue_labels :: "issue_label list"
  t_links :: "issue_link list"
  t_watchers :: "issue_watcher list"
  t_rules :: "automation_rule list"
  t_views :: "reporter_issue_view list"
  t_csat :: "csat_response list"
  t_subs :: "reporter_subscription list"
  t_notifs :: "notification_log list"
  t_tokens :: "api_token list"
  t_hooks :: "webhook_endpoint list"
  t_saved_views :: "saved_view list"
  t_canned :: "canned_response list"
  t_components :: "status_component list"
  t_incidents :: "status_incident list"
  t_updates :: "status_incident_update list"
  outbox :: "domain_event list"
  uuid_gen :: "nat \<Rightarrow> ident"
  uuid_drawn :: nat

definition fresh_id :: "db \<Rightarrow> ident" where
  "fresh_id s = uuid_gen s (uuid_drawn s)"

definition draw_id :: "db \<Rightarrow> db" where
  "draw_id s = s\<lparr>uuid_drawn := Suc (uuid_drawn s)\<rparr>"

definition emit :: "domain_event \<Rightarrow> db \<Rightarrow> db" where
  "emit e s = s\<lparr>outbox := outbox s @ [e]\<rparr>"

definition find_issue :: "ident \<Rightarrow> db \<Rightarrow> issue option" where
  "find_issue i s = by_key iss_id i (t_issues s)"

definition find_platform :: "ident \<Rightarrow> db \<Rightarrow> platform option" where
  "find_platform i s = by_key plat_id i (t_platforms s)"

definition find_platform_by_key :: "string \<Rightarrow> db \<Rightarrow> platform option" where
  "find_platform_by_key k s = by_key plat_key k (t_platforms s)"

definition find_staff :: "ident \<Rightarrow> db \<Rightarrow> staff_user option" where
  "find_staff i s = by_key su_id i (t_staff s)"

text \<open>A database without rows, the starting point of the concrete instances.\<close>

definition empty_db :: db where
  "empty_db = \<lparr>t_platforms = [], t_staff = [], t_roles = [], t_reporters = [], t_issues = [],
     t_comments = [], t_attachments = [], t_audit = [], t_labels = [], t_issue_labels = [],
     t_links = [], t_watchers = [], t_rules = [], t_views = [], t_csat = [], t_subs = [],
     t_notifs = [], t_tokens = [], t_hooks = [], t_saved_views = [], t_canned = [],
     t_components = [], t_incidents = [], t_updates = [], outbox = [],
     uuid_gen = (\<lambda>n. replicate (Suc n) CHR ''u''), uuid_drawn = 0\<rparr>"

definition sample_platform :: "ident \<Rightarrow> string \<Rightarrow> platform" where
  "sample_platform i k = \<lparr>plat_id = i, plat_key = k, plat_name = k, plat_status = PLATFORM_ACTIVE,
     plat_jira_project_key = None, plat_jira_enabled = False, plat_sla_policy = None,
     plat_handoff_secret = ''secret'', plat_created_at = 0\<rparr>"

definition sample_staff :: "ident \<Rightarrow> string \<Rightarrow> staff_user" where
  "sample_staff i m = \<lparr>su_id = i, su_idp_subject = ''local:'' @ m, su_name = i, su_email = m,
     su_password_hash = Some ''hash'', su_status = ACCOUNT_ACTIVE, su_token_version = 1,
     su_created_at = 0\<rparr>"

definition sample_grant :: "ident \<Rightarrow> ident \<Rightarrow> ident option \<Rightarrow> role \<Rightarrow> user_platform_role" where
  "sample_grant i u p r = \<lparr>upr_id = i, upr_staff_user = u, upr_platform = p, upr_role = r,
     upr_created_at = 0\<rparr>"

definition sample_issue :: "ident \<Rightarrow> ident \<Rightarrow> issue_status \<Rightarrow> issue" where
  "sample_issue i p st = \<lparr>iss_id = i, iss_reference_no = ''SUP-'' @ i, iss_platform = p, iss_reporter = ''r1'',
     iss_assignee = None, iss_description = ''It is broken'', iss_publicly_visible = False,
     iss_public_title = None, iss_context = None, iss_status = st, iss_priority = HIGH,
     iss_duplicate_of = None, iss_jira_issue_key = None, iss_jira_sync_status = NOT_SYNCED,
     iss_version = 1, iss_created_at = 0, iss_sla_started_at = 0, iss_sla_breached_at = None,
     iss_updated_at = 0, iss_resolved_at = None, iss_closed_at = None\<rparr>"

lemmas sample_defs = empty_db_def sample_platform_def sample_staff_def sample_grant_def sample_issue_def

interpretation issue_tab: table t_issues t_issues_update iss_id
  by unfold_locales simp

interpretation staff_tab: table t_staff t_staff_update su_id
  by unfold_locales simp

interpretation platform_tab: table t_platforms t_platforms_update plat_id
  by unfold_locales simp

interpretation comment_tab: table t_comments t_comments_update com_id
  by unfold_locales simp

interpretation attachment_tab: table t_attachments t_attachments_update att_id
  by unfold_locales simp

end
