(* ===== verification/Authz.thy ===== *)
theory Authz
  imports Entities
begin

text \<open>
  Authorization of staff: the role sets (\<^verbatim>\<open>src/authz/role-sets.ts\<close>), the pure scope
  service (\<^verbatim>\<open>src/authz/scope.service.ts\<close>), the guard that resolves an issue id to its
  platform (\<^verbatim>\<open>src/authz/platform-access.guard.ts\<close>) and the role-only guard. The locale
  \<^verbatim>\<open>scope_policy\<close> states what the queries rely on: filtering by the scope of a staff
  member is filtering by access.
\<close>

section \<open>Authenticated staff\<close>

record grant =
  gr_role :: role
  gr_platform :: "ident option"

record auth_staff =
  st_id :: ident
  st_idp_subject :: string
  st_name :: string
  st_email :: string
  st_roles :: "grant list"

definition STAFF_READ_ROLES :: "role list" where
  "STAFF_READ_ROLES = [FOCAL_POINT, DEVELOPER, ADMIN, WATCHER]"

definition STAFF_WRITE_ROLES :: "role list" where
  "STAFF_WRITE_ROLES = [FOCAL_POINT, DEVELOPER, ADMIN]"

definition loadRoles :: "ident \<Rightarrow> db \<Rightarrow> grant list" where
  "loadRoles i s = map (\<lambda>g. \<lparr>gr_role = upr_role g, gr_platform = upr_platform g\<rparr>)
     (filter (\<lambda>g. upr_staff_user g = i) (t_roles s))"

definition toAuthenticated :: "staff_user \<Rightarrow> auth_staff" where
  "toAuthenticated u = \<lparr>st_id = su_id u, st_idp_subject = su_idp_subject u,
     st_name = su_name u, st_email = su_email u, st_roles = []\<rparr>"

section \<open>Scope service\<close>

datatype scope = SCOPE_ALL | SCOPE_IDS "ident list"

text \<open>\<^verbatim>\<open>[...new Set(xs)]\<close>: first occurrences, in order.\<close>

definition js_set :: "'a list \<Rightarrow> 'a list" where
  "js_set xs = rev (remdups (rev xs))"

lemma set_js_set [simp]: "set (js_set xs) = set xs"
  by (simp add: js_set_def)

lemma distinct_js_set [simp]: "distinct (js_set xs)"
  by (simp add: js_set_def)

definition scopedPlatformIds :: "auth_staff \<Rightarrow> scope" where
  "scopedPlatformIds st =
     (if list_ex (\<lambda>g. gr_platform g = None) (st_roles st) then SCOPE_ALL
      else SCOPE_IDS (js_set (filter (\<lambda>p. p \<noteq> '''')
             (List.map_filter gr_platform (st_roles st)))))"

definition canAccessPlatform :: "auth_staff \<Rightarrow> ident \<Rightarrow> role list \<Rightarrow> bool" where
  "canAccessPlatform st p required =
     list_ex (\<lambda>g. gr_role g \<in> set required \<and> (gr_platform g = None \<or> gr_platform g = Some p))
       (st_roles st)"

fun scopeAllows :: "scope \<Rightarrow> ident \<Rightarrow> bool" where
  "scopeAllows SCOPE_ALL p = True"
| "scopeAllows (SCOPE_IDS ids) p = (p \<in> set ids)"

fun scope_is_empty :: "scope \<Rightarrow> bool" where
  "scope_is_empty SCOPE_ALL = False"
| "scope_is_empty (SCOPE_IDS ids) = (ids = [])"

section \<open>Guards\<close>

text \<open>
  \<^verbatim>\<open>canActivate\<close> of the platform guard: \<^verbatim>\<open>roles_meta\<close> is the metadata set by
  \<^verbatim>\<open>@Roles\<close> (none: the write set), \<^verbatim>\<open>user\<close> the request's staff member,
  \<^verbatim>\<open>param_id\<close> the route parameter.
\<close>

definition platform_guard ::
  "role list option \<Rightarrow> auth_staff option \<Rightarrow> string option \<Rightarrow> db \<Rightarrow> bool res" where
  "platform_guard roles_meta user param_id s =
     (let required = (case roles_meta of None \<Rightarrow> STAFF_WRITE_ROLES | Some r \<Rightarrow> r) in
      case user of
        None \<Rightarrow> Inl (Forbidden ''Not authenticated'')
      | Some st \<Rightarrow>
         (if param_id \<noteq> None \<and> param_id \<noteq> Some '''' then
            (let iid = the param_id in
             if \<not> is_uuid iid then Inl (NotFound ''Issue not found'')
             else (case find_issue iid s of
                 None \<Rightarrow> Inl (NotFound ''Issue not found'')
               | Some i \<Rightarrow>
                   (if \<not> canAccessPlatform st (iss_platform i) STAFF_READ_ROLES
                    then Inl (NotFound ''Issue not found'')
                    else if \<not> canAccessPlatform st (iss_platform i) required
                    then Inl (Forbidden ''You do not have access to this issue.'')
                    else Inr True)))
          else if \<not> list_ex (\<lambda>g. gr_role g \<in> set required) (st_roles st)
          then Inl (Forbidden ''Insufficient role.'')
          else Inr True))"

definition roles_guard :: "role list option \<Rightarrow> auth_staff option \<Rightarrow> bool res" where
  "roles_guard required user =
     (case required of
        None \<Rightarrow> Inr True
      | Some [] \<Rightarrow> Inr True
      | Some rs \<Rightarrow>
          (case user of
             None \<Rightarrow> Inl (Forbidden ''Insufficient role.'')
           | Some st \<Rightarrow> (if list_ex (\<lambda>g. gr_role g \<in> set rs) (st_roles st) then Inr True
                        else Inl (Forbidden ''Insufficient role.''))))"

section \<open>The contract of the scope service\<close>

locale scope_policy =
  fixes scope_of :: "'a \<Rightarrow> 'sc" and allows :: "'sc \<Rightarrow> ident \<Rightarrow> bool" and can :: "'a \<Rightarrow> ident \<Rightarrow> bool"
  assumes allows_scope: "p \<noteq> '''' \<Longrightarrow> allows (scope_of a) p \<longleftrightarrow> can a p"
begin

lemma filter_by_scope:
  "(\<And>r. r \<in> set rs \<Longrightarrow> plat r \<noteq> '''') \<Longrightarrow>
   filter (\<lambda>r. allows (scope_of a) (plat r)) rs = filter (\<lambda>r. can a (plat r)) rs"
  by (rule filter_cong) (auto simp: allows_scope)

end

lemma in_read_roles [simp]: "r \<in> set STAFF_READ_ROLES"
  by (cases r) (simp_all add: STAFF_READ_ROLES_def)

lemma canAccess_mono: "set rs \<subseteq> set rs' \<Longrightarrow> canAccessPlatform st p rs \<Longrightarrow> canAccessPlatform st p rs'"
  by (auto simp: canAccessPlatform_def list_ex_iff)

lemma write_subset_read: "set STAFF_WRITE_ROLES \<subseteq> set STAFF_READ_ROLES"
  by (simp add: STAFF_WRITE_ROLES_def STAFF_READ_ROLES_def)

lemma set_map_filter: "set (List.map_filter f xs) = {y. \<exists>x \<in> set xs. f x = Some y}"
  by (induction xs) (auto simp: List.map_filter_simps split: option.splits)

interpretation staff_scope: scope_policy scopedPlatformIds scopeAllows
  "\<lambda>st p. canAccessPlatform st p STAFF_READ_ROLES"
  by unfold_locales
    (auto simp: scopedPlatformIds_def canAccessPlatform_def list_ex_iff set_map_filter)

lemma watcher_has_no_write:
  "(\<And>g. g \<in> set (st_roles st) \<Longrightarrow> gr_role g = WATCHER) \<Longrightarrow> \<not> canAccessPlatform st p STAFF_WRITE_ROLES"
  by (fastforce simp: canAccessPlatform_def list_ex_iff STAFF_WRITE_ROLES_def)

section \<open>Properties\<close>

text \<open>
  C7: The platform guard hides other tenants. When the staff member holds no grant on the
  platform of an issue, the guard answers for that issue exactly what it answers in the
  database that does not contain the issue, and exactly what it answers for a malformed id:
  no response depends on whether the issue exists.
\<close>

theorem guard_hides_other_tenants:
  assumes "find_issue iid s = Some i" and "iid \<noteq> ''''"
    and "\<not> canAccessPlatform st (iss_platform i) STAFF_READ_ROLES"
    and "bad \<noteq> ''''" and "\<not> is_uuid bad"
  shows "platform_guard m (Some st) (Some iid) s =
           platform_guard m (Some st) (Some iid) (t_issues_update (remove_key iss_id iid) s)
       \<and> platform_guard m (Some st) (Some iid) s = platform_guard m (Some st) (Some bad) s
       \<and> platform_guard m (Some st) (Some iid) s = Inl (NotFound ''Issue not found'')"
  using assms
  by (simp add: platform_guard_def find_issue_def by_key_remove_same)

theorem guard_hides_other_tenants_witness:
  "platform_guard None
     (Some \<lparr>st_id = ''dev'', st_idp_subject = ''local:d'', st_name = ''d'', st_email = ''d'',
        st_roles = [\<lparr>gr_role = DEVELOPER, gr_platform = Some ''p1''\<rparr>]\<rparr>)
     (Some ''01234567-89ab-cdef-0123-456789abcdef'')
     (empty_db\<lparr>t_issues := [sample_issue ''01234567-89ab-cdef-0123-456789abcdef'' ''p2'' NEW]\<rparr>)
   = Inl (NotFound ''Issue not found'')"
proof -
  let ?id = "''01234567-89ab-cdef-0123-456789abcdef''"
  let ?s = "empty_db\<lparr>t_issues := [sample_issue ?id ''p2'' NEW]\<rparr>"
  let ?st = "\<lparr>st_id = ''dev'', st_idp_subject = ''local:d'', st_name = ''d'', st_email = ''d'',
        st_roles = [\<lparr>gr_role = DEVELOPER, gr_platform = Some ''p1''\<rparr>]\<rparr>"
  have f: "find_issue ?id ?s = Some (sample_issue ?id ''p2'' NEW)"
    by (simp add: find_issue_def sample_defs by_key_Cons)
  have na: "\<not> canAccessPlatform ?st (iss_platform (sample_issue ?id ''p2'' NEW)) STAFF_READ_ROLES"
    by (simp add: canAccessPlatform_def sample_defs)
  have bad: "\<not> is_uuid ''x''" by (simp add: is_uuid_def split_char_def)
  from guard_hides_other_tenants [OF f _ na _ bad, of None] show ?thesis by blast
qed

end
