(* ===== verification/StatusMachine.thy ===== *)
theory StatusMachine
  imports Authz
begin

text \<open>
  The status machine of an issue (\<^verbatim>\<open>src/issues/status-machine.ts\<close>) and the bookkeeping
  that accompanies every status change (\<^verbatim>\<open>src/issues/status-side-effects.ts\<close>), with the
  relation between the status and the timestamps they maintain.
\<close>

section \<open>Transitions\<close>

fun STATUS_TRANSITIONS :: "issue_status \<Rightarrow> issue_status list" where
  "STATUS_TRANSITIONS NEW = [IN_PROGRESS, ON_HOLD, CLOSED]"
| "STATUS_TRANSITIONS IN_PROGRESS = [ON_HOLD, RESOLVED]"
| "STATUS_TRANSITIONS ON_HOLD = [IN_PROGRESS, CLOSED]"
| "STATUS_TRANSITIONS RESOLVED = [CLOSED, REOPENED]"
| "STATUS_TRANSITIONS CLOSED = [REOPENED]"
| "STATUS_TRANSITIONS REOPENED = [IN_PROGRESS]"

definition canTransition :: "issue_status \<Rightarrow> issue_status \<Rightarrow> bool" where
  "canTransition from to = (to \<in> set (STATUS_TRANSITIONS from))"

section \<open>Side effects\<close>

definition applyStatusSideEffects :: "time \<Rightarrow> issue_status \<Rightarrow> issue \<Rightarrow> issue" where
  "applyStatusSideEffects now to i =
     (if to = RESOLVED then i\<lparr>iss_resolved_at := Some now\<rparr>
      else if to = CLOSED then
        i\<lparr>iss_closed_at := (case iss_closed_at i of Some t \<Rightarrow> Some t | None \<Rightarrow> Some now)\<rparr>
      else if to = REOPENED then
        i\<lparr>iss_resolved_at := None, iss_closed_at := None, iss_duplicate_of := None,
          iss_sla_started_at := now, iss_sla_breached_at := None\<rparr>
      else i)"

section \<open>The lifecycle relation\<close>

text \<open>
  What the bookkeeping is for: an open issue carries no completion timestamp and is no
  duplicate, a resolved one has its resolution time, a closed one its closing time.
\<close>

definition lifecycle_ok :: "issue \<Rightarrow> bool" where
  "lifecycle_ok i =
     ((is_open (iss_status i) \<longrightarrow>
         iss_resolved_at i = None \<and> iss_closed_at i = None \<and> iss_duplicate_of i = None)
    \<and> (iss_status i = RESOLVED \<longrightarrow> iss_resolved_at i \<noteq> None)
    \<and> (iss_status i = CLOSED \<longrightarrow> iss_closed_at i \<noteq> None))"

text \<open>The stricter relation that holds as long as only the staff paths change the status.\<close>

definition lifecycle_strict :: "issue \<Rightarrow> bool" where
  "lifecycle_strict i =
     (lifecycle_ok i \<and> (iss_status i = RESOLVED \<longrightarrow> iss_closed_at i = None \<and> iss_duplicate_of i = None))"

lemma side_effects_frame [simp]:
  "iss_id (applyStatusSideEffects now to i) = iss_id i"
  "iss_status (applyStatusSideEffects now to i) = iss_status i"
  "iss_platform (applyStatusSideEffects now to i) = iss_platform i"
  "iss_version (applyStatusSideEffects now to i) = iss_version i"
  "iss_reporter (applyStatusSideEffects now to i) = iss_reporter i"
  "iss_assignee (applyStatusSideEffects now to i) = iss_assignee i"
  "iss_priority (applyStatusSideEffects now to i) = iss_priority i"
  by (simp_all add: applyStatusSideEffects_def)

lemma transition_strict:
  assumes "lifecycle_strict i" and "canTransition (iss_status i) to"
  shows "lifecycle_strict (applyStatusSideEffects now to (i\<lparr>iss_status := to\<rparr>))"
  using assms
  by (cases "iss_status i"; cases to)
    (auto simp: lifecycle_strict_def lifecycle_ok_def canTransition_def applyStatusSideEffects_def
       split: option.splits)

lemma transition_ok:
  assumes "lifecycle_ok i" and "canTransition (iss_status i) to"
  shows "lifecycle_ok (applyStatusSideEffects now to (i\<lparr>iss_status := to\<rparr>))"
  using assms
  by (cases "iss_status i"; cases to)
    (auto simp: lifecycle_ok_def canTransition_def applyStatusSideEffects_def split: option.splits)

text \<open>Any state is left by the machine only through these edges, and every state is reachable.\<close>

lemma canTransition_irrefl [simp]: "\<not> canTransition s s"
  by (cases s) (simp_all add: canTransition_def)

lemma terminal_exit:
  "s = CLOSED \<or> s = RESOLVED \<Longrightarrow> canTransition s to \<Longrightarrow> is_open to \<Longrightarrow> to = REOPENED"
  by (cases to) (auto simp: canTransition_def)

end
