(* ===== verification/Store.thy ===== *)
theory Store
  imports StatusMachine
begin

text \<open>
  Writes to the database as the services make them: \<^verbatim>\<open>save\<close> of an issue by the ORM, the
  query-builder update that bumps \<^verbatim>\<open>updatedAt\<close>, the rows of the audit trail
  (\<^verbatim>\<open>src/audit/audit.service.ts\<close>) and comments. The environment collects the clock, the
  configuration and the one behaviour of the ORM the code has opinions about.
\<close>

section \<open>Environment\<close>

text \<open>
  \<^verbatim>\<open>orm_version_check\<close>: whether \<^verbatim>\<open>save\<close> adds the version it read to the condition of
  its \<^verbatim>\<open>UPDATE\<close> and fails when another writer was first. \<^verbatim>\<open>issues.service.ts\<close> relies
  on it, the ORM is not part of the sources, so both answers are kept. \<^verbatim>\<open>lib_isUUID\<close> is
  the validator library's \<^verbatim>\<open>isUUID\<close>.
\<close>

record env =
  now :: time
  focal_point_can_transition :: bool
  orm_version_check :: bool
  lib_isUUID :: "string \<Rightarrow> bool"
  process_env :: "string \<Rightarrow> string option"

definition plain_env :: env where
  "plain_env = \<lparr>now = 1000 * 3600000, focal_point_can_transition = False, orm_version_check = False,
     lib_isUUID = is_uuid, process_env = (\<lambda>_. None)\<rparr>"

section \<open>Saving an issue\<close>

text \<open>
  \<^verbatim>\<open>save\<close> writes nothing when no column differs from the stored row; otherwise it writes
  the entity, increments the version column and stamps \<^verbatim>\<open>updated_at\<close>.
\<close>

definition same_columns :: "issue \<Rightarrow> issue \<Rightarrow> bool" where
  "same_columns a b = (a\<lparr>iss_version := 0, iss_updated_at := 0\<rparr> = b\<lparr>iss_version := 0, iss_updated_at := 0\<rparr>)"

definition orm_conflict :: http_error where
  "orm_conflict = Conflict ''This issue was changed by someone else. Reload and try again.''"

text \<open>What a client sees of an exception no handler expected (a broken foreign key, a TypeError).\<close>

definition db_error :: http_error where
  "db_error = InternalError ''Internal server error''"

definition save_issue :: "env \<Rightarrow> issue \<Rightarrow> db \<Rightarrow> db res" where
  "save_issue e i s =
     (case find_issue (iss_id i) s of
        None \<Rightarrow> Inr (t_issues_update (\<lambda>rs. rs @ [i]) s)
      | Some old \<Rightarrow>
          (if same_columns i old then Inr s
           else if orm_version_check e \<and> iss_version i \<noteq> iss_version old then Inl orm_conflict
           else Inr (t_issues_update
                  (replace_row iss_id (i\<lparr>iss_version := iss_version old + 1, iss_updated_at := now e\<rparr>)) s)))"

text \<open>
  \<^verbatim>\<open>createQueryBuilder().update(Issue).set(...)\<close>: \<^verbatim>\<open>comments.service.ts\<close> records that
  the ORM increments the version column in this form of update too; the update column is
  stamped as well.
\<close>

definition qb_update :: "env \<Rightarrow> ident \<Rightarrow> (issue \<Rightarrow> issue) \<Rightarrow> db \<Rightarrow> db" where
  "qb_update e iid f s = t_issues_update
     (map (\<lambda>i. if iss_id i = iid then (f i)\<lparr>iss_updated_at := now e, iss_version := iss_version i + 1\<rparr> else i)) s"

definition touch_issue :: "env \<Rightarrow> ident \<Rightarrow> db \<Rightarrow> db" where
  "touch_issue e iid s = qb_update e iid (\<lambda>i. i) s"

section \<open>Audit trail and comments\<close>

definition audit_record ::
  "env \<Rightarrow> ident option \<Rightarrow> actor_type \<Rightarrow> ident option \<Rightarrow> string \<Rightarrow> string option \<Rightarrow> string option
     \<Rightarrow> string option \<Rightarrow> json option \<Rightarrow> db \<Rightarrow> db" where
  "audit_record e iid aty aid act fld old new meta s =
     draw_id (t_audit_update (\<lambda>rs. rs @
       [\<lparr>aud_id = fresh_id s,
         aud_issue = (if iid = Some '''' then None else iid),
         aud_actor_type = aty, aud_actor_id = aid, aud_action = act, aud_field = fld,
         aud_old_value = old, aud_new_value = new, aud_metadata = meta,
         aud_created_at = now e\<rparr>]) s)"

definition add_comment ::
  "env \<Rightarrow> ident \<Rightarrow> ident option \<Rightarrow> actor_type \<Rightarrow> string option \<Rightarrow> string \<Rightarrow> comment_visibility \<Rightarrow> db \<Rightarrow> db" where
  "add_comment e iid author aty aname body vis s =
     draw_id (t_comments_update (\<lambda>rs. rs @
       [\<lparr>com_id = fresh_id s, com_issue = iid, com_author = author, com_author_type = aty,
         com_author_name = aname, com_body = body, com_visibility = vis,
         com_source_locale = None, com_translations = None,
         com_created_at = now e, com_edited_at = None\<rparr>]) s)"

section \<open>Reading the audit trail\<close>

text \<open>
  \<^verbatim>\<open>order: { createdAt: 'DESC' }\<close>: among rows of the same instant the database promises no
  order; the stable order of insertion stands for one it may choose.
\<close>

definition newest_first :: "('r \<Rightarrow> time) \<Rightarrow> 'r list \<Rightarrow> 'r list" where
  "newest_first tm rs = sort_key (\<lambda>r. - tm r) rs"

definition forIssue :: "ident \<Rightarrow> db \<Rightarrow> audit_event list" where
  "forIssue iid s = newest_first aud_created_at (filter (\<lambda>a. aud_issue a = Some iid) (t_audit s))"

record audit_filters =
  flt_actor_type :: "actor_type option"
  flt_action :: "string option"
  flt_issue :: "ident option"
  flt_from :: "time option"
  flt_to :: "time option"
  flt_page :: "int option"
  flt_page_size :: "int option"

definition truthy :: "string option \<Rightarrow> string option" where
  "truthy x = (if x = Some '''' then None else x)"

definition audit_matches :: "audit_filters \<Rightarrow> audit_event \<Rightarrow> bool" where
  "audit_matches f a =
     ((case flt_actor_type f of None \<Rightarrow> True | Some t \<Rightarrow> aud_actor_type a = t)
    \<and> (case truthy (flt_action f) of None \<Rightarrow> True | Some x \<Rightarrow> aud_action a = x)
    \<and> (case truthy (flt_issue f) of None \<Rightarrow> True | Some x \<Rightarrow> aud_issue a = Some x)
    \<and> (case flt_from f of None \<Rightarrow> True | Some t \<Rightarrow> t \<le> aud_created_at a)
    \<and> (case flt_to f of None \<Rightarrow> True | Some t \<Rightarrow> aud_created_at a \<le> t))"

definition page_of :: "nat \<Rightarrow> nat \<Rightarrow> 'r list \<Rightarrow> 'r list" where
  "page_of page n rs = take n (drop ((page - 1) * n) rs)"

definition audit_query :: "audit_filters \<Rightarrow> db \<Rightarrow> audit_event list \<times> nat \<times> int \<times> int" where
  "audit_query f s =
     (let page = max 1 (case flt_page f of None \<Rightarrow> 1 | Some p \<Rightarrow> p);
          psize = min 200 (max 1 (case flt_page_size f of None \<Rightarrow> 50 | Some n \<Rightarrow> n));
          rows = newest_first aud_created_at (filter (audit_matches f) (t_audit s))
      in (page_of (nat page) (nat psize) rows, length rows, page, psize))"

section \<open>Facts\<close>

lemma audit_record_simps [simp]:
  "t_issues (audit_record e iid aty aid act fld old new meta s) = t_issues s"
  "outbox (audit_record e iid aty aid act fld old new meta s) = outbox s"
  "t_platforms (audit_record e iid aty aid act fld old new meta s) = t_platforms s"
  "t_staff (audit_record e iid aty aid act fld old new meta s) = t_staff s"
  "t_roles (audit_record e iid aty aid act fld old new meta s) = t_roles s"
  "t_comments (audit_record e iid aty aid act fld old new meta s) = t_comments s"
  "t_watchers (audit_record e iid aty aid act fld old new meta s) = t_watchers s"
  "t_links (audit_record e iid aty aid act fld old new meta s) = t_links s"
  "t_labels (audit_record e iid aty aid act fld old new meta s) = t_labels s"
  "t_issue_labels (audit_record e iid aty aid act fld old new meta s) = t_issue_labels s"
  "t_rules (audit_record e iid aty aid act fld old new meta s) = t_rules s"
  "t_attachments (audit_record e iid aty aid act fld old new meta s) = t_attachments s"
  "t_reporters (audit_record e iid aty aid act fld old new meta s) = t_reporters s"
  by (simp_all add: audit_record_def draw_id_def)

lemma add_comment_simps [simp]:
  "t_issues (add_comment e iid au aty an body vis s) = t_issues s"
  "outbox (add_comment e iid au aty an body vis s) = outbox s"
  "t_platforms (add_comment e iid au aty an body vis s) = t_platforms s"
  "t_staff (add_comment e iid au aty an body vis s) = t_staff s"
  "t_roles (add_comment e iid au aty an body vis s) = t_roles s"
  "t_watchers (add_comment e iid au aty an body vis s) = t_watchers s"
  "t_links (add_comment e iid au aty an body vis s) = t_links s"
  "t_audit (add_comment e iid au aty an body vis s) = t_audit s"
  by (simp_all add: add_comment_def draw_id_def)

lemma emit_simps [simp]:
  "t_issues (emit ev s) = t_issues s" "t_platforms (emit ev s) = t_platforms s"
  "t_staff (emit ev s) = t_staff s" "t_roles (emit ev s) = t_roles s"
  "t_audit (emit ev s) = t_audit s" "t_comments (emit ev s) = t_comments s"
  "t_watchers (emit ev s) = t_watchers s" "t_links (emit ev s) = t_links s"
  "t_labels (emit ev s) = t_labels s" "t_issue_labels (emit ev s) = t_issue_labels s"
  "t_rules (emit ev s) = t_rules s"
  "outbox (emit ev s) = outbox s @ [ev]"
  by (simp_all add: emit_def)

lemma find_issue_simps [simp]:
  "find_issue i (emit ev s) = find_issue i s"
  "find_issue i (audit_record e iid aty aid act fld old new meta s) = find_issue i s"
  "find_issue i (add_comment e k au aty an body vis s) = find_issue i s"
  by (simp_all add: find_issue_def)

lemma find_issueD: "find_issue iid s = Some i \<Longrightarrow> i \<in> set (t_issues s) \<and> iss_id i = iid"
  by (auto simp: find_issue_def dest: by_key_SomeD)

lemma find_issue_member:
  "distinct (map iss_id (t_issues s)) \<Longrightarrow> i \<in> set (t_issues s) \<Longrightarrow> find_issue (iss_id i) s = Some i"
  by (simp add: find_issue_def by_key_member)

text \<open>What saving an issue read from this very state does: no conflict, at most that row.\<close>

definition saved_row :: "env \<Rightarrow> issue \<Rightarrow> issue" where
  "saved_row e i = i\<lparr>iss_version := iss_version i + 1, iss_updated_at := now e\<rparr>"

definition put_issue :: "issue \<Rightarrow> db \<Rightarrow> db" where
  "put_issue i s = t_issues_update (replace_row iss_id i) s"

lemma save_issue_loaded:
  assumes "find_issue (iss_id i) s = Some old" and "iss_version i = iss_version old"
  shows "save_issue e i s = Inr (if same_columns i old then s else put_issue (saved_row e i) s)"
  using assms by (simp add: save_issue_def saved_row_def put_issue_def)

lemma saved_row_simps [simp]:
  "iss_id (saved_row e i) = iss_id i" "iss_status (saved_row e i) = iss_status i"
  "iss_platform (saved_row e i) = iss_platform i" "iss_assignee (saved_row e i) = iss_assignee i"
  "iss_priority (saved_row e i) = iss_priority i" "iss_version (saved_row e i) = iss_version i + 1"
  "iss_updated_at (saved_row e i) = now e" "iss_resolved_at (saved_row e i) = iss_resolved_at i"
  "iss_closed_at (saved_row e i) = iss_closed_at i" "iss_duplicate_of (saved_row e i) = iss_duplicate_of i"
  "iss_sla_started_at (saved_row e i) = iss_sla_started_at i"
  "iss_sla_breached_at (saved_row e i) = iss_sla_breached_at i"
  "iss_reporter (saved_row e i) = iss_reporter i"
  by (simp_all add: saved_row_def)

lemma put_issue_simps [simp]:
  "t_issues (put_issue i s) = replace_row iss_id i (t_issues s)"
  "t_staff (put_issue i s) = t_staff s" "t_roles (put_issue i s) = t_roles s"
  "t_audit (put_issue i s) = t_audit s" "t_comments (put_issue i s) = t_comments s"
  "t_watchers (put_issue i s) = t_watchers s" "t_links (put_issue i s) = t_links s"
  "t_platforms (put_issue i s) = t_platforms s" "outbox (put_issue i s) = outbox s"
  by (simp_all add: put_issue_def)

lemma find_issue_put:
  assumes "find_issue (iss_id i) s \<noteq> None"
  shows "find_issue k (put_issue i s) = (if k = iss_id i then Some i else find_issue k s)"
  using issue_tab.find_after_save [of i s] issue_tab.find_other_after_save [of k i s] assms
  by (simp add: find_issue_def put_issue_def)

lemma same_columnsD:
  assumes "same_columns a b"
  shows "iss_status a = iss_status b" "iss_priority a = iss_priority b" "iss_assignee a = iss_assignee b"
    "iss_duplicate_of a = iss_duplicate_of b" "iss_id a = iss_id b" "iss_platform a = iss_platform b"
proof -
  have eq: "a\<lparr>iss_version := 0, iss_updated_at := 0\<rparr> = b\<lparr>iss_version := 0, iss_updated_at := 0\<rparr>"
    using assms by (simp add: same_columns_def)
  from arg_cong [OF eq, of iss_status] show "iss_status a = iss_status b" by simp
  from arg_cong [OF eq, of iss_priority] show "iss_priority a = iss_priority b" by simp
  from arg_cong [OF eq, of iss_assignee] show "iss_assignee a = iss_assignee b" by simp
  from arg_cong [OF eq, of iss_duplicate_of] show "iss_duplicate_of a = iss_duplicate_of b" by simp
  from arg_cong [OF eq, of iss_id] show "iss_id a = iss_id b" by simp
  from arg_cong [OF eq, of iss_platform] show "iss_platform a = iss_platform b" by simp
qed

end
