(* ===== verification/Sla.thy ===== *)
theory Sla
  imports Store Config
begin

text \<open>
  The resolution SLA (\<^verbatim>\<open>src/issues/sla.ts\<close>), its SQL twin, the validation of platform
  policies (\<^verbatim>\<open>admin.service.ts\<close>) and the escalation sweep
  (\<^verbatim>\<open>src/issues/sla-escalation.service.ts\<close>). Hours and windows are exact rationals.
\<close>

section \<open>Windows\<close>

definition hoursFromEnv :: "env \<Rightarrow> string \<Rightarrow> rat \<Rightarrow> rat" where
  "hoursFromEnv e key fallback =
     (case process_env e key of
        None \<Rightarrow> fallback
      | Some raw \<Rightarrow> (case js_number raw of
            None \<Rightarrow> fallback
          | Some n \<Rightarrow> (if n > 0 then n else fallback)))"

fun SLA_TARGET_HOURS :: "env \<Rightarrow> priority \<Rightarrow> rat" where
  "SLA_TARGET_HOURS e CRITICAL = hoursFromEnv e ''SLA_HOURS_CRITICAL'' 4"
| "SLA_TARGET_HOURS e HIGH = hoursFromEnv e ''SLA_HOURS_HIGH'' 24"
| "SLA_TARGET_HOURS e MEDIUM = hoursFromEnv e ''SLA_HOURS_MEDIUM'' 72"
| "SLA_TARGET_HOURS e LOW = hoursFromEnv e ''SLA_HOURS_LOW'' 168"

definition SLA_AT_RISK_FRACTION :: "env \<Rightarrow> rat" where
  "SLA_AT_RISK_FRACTION e =
     (case process_env e ''SLA_AT_RISK_FRACTION'' of
        None \<Rightarrow> 4 / 5
      | Some raw \<Rightarrow> (case js_number raw of
            None \<Rightarrow> 4 / 5
          | Some n \<Rightarrow> (if n > 0 \<and> n < 1 then n else 4 / 5)))"

type_synonym sla_policy = "(string \<times> json) list option"

definition slaWindowHours :: "env \<Rightarrow> priority \<Rightarrow> sla_policy \<Rightarrow> rat" where
  "slaWindowHours e p policy =
     (case policy of
        None \<Rightarrow> SLA_TARGET_HOURS e p
      | Some m \<Rightarrow> (case map_of m (priority_name p) of
            Some (JNum h) \<Rightarrow> (if h > 0 then h else SLA_TARGET_HOURS e p)
          | _ \<Rightarrow> SLA_TARGET_HOURS e p))"

section \<open>State of one issue\<close>

datatype sla_state = ON_TRACK | AT_RISK | BREACHED

definition windowMs :: "env \<Rightarrow> issue \<Rightarrow> sla_policy \<Rightarrow> rat" where
  "windowMs e i policy = slaWindowHours e (iss_priority i) policy * 3600000"

text \<open>
  \<^verbatim>\<open>computeSla\<close>: the due time (a \<^verbatim>\<open>Date\<close> truncates to whole milliseconds and its ISO
  form raises a RangeError beyond 8.64e15) and the state, none for an issue no longer open.
\<close>

definition computeSla :: "env \<Rightarrow> issue \<Rightarrow> sla_policy \<Rightarrow> time \<Rightarrow> (time \<times> sla_state option) res" where
  "computeSla e i policy at_time =
     (let baseline = iss_sla_started_at i;
          w = windowMs e i policy;
          due = \<lfloor>rat_of_int baseline + w\<rfloor>;
          elapsed = rat_of_int (at_time - baseline)
      in if \<not> (- 8640000000000000 \<le> due \<and> due \<le> 8640000000000000)
         then Inl (InternalError ''Invalid time value'')
         else Inr (due,
           if \<not> is_open (iss_status i) then None
           else if elapsed \<ge> w then Some BREACHED
           else if elapsed \<ge> w * SLA_AT_RISK_FRACTION e then Some AT_RISK
           else Some ON_TRACK))"

section \<open>The SQL twin\<close>

text \<open>
  \<^verbatim>\<open>sla_policy->>key\<close> is text: a JSON number prints as itself and casts back to its
  value; a string is cast by the database, a parameter (\<^verbatim>\<open>pg_numeric\<close>, none where the
  cast raises); a boolean or a structure raises. \<^verbatim>\<open>None\<close> is a failed query.
\<close>

definition sql_policy_hours ::
  "(string \<Rightarrow> rat option) \<Rightarrow> sla_policy \<Rightarrow> priority \<Rightarrow> rat option option" where
  "sql_policy_hours pg_numeric policy p =
     (case policy of
        None \<Rightarrow> Some None
      | Some m \<Rightarrow> (case map_of m (priority_name p) of
            None \<Rightarrow> Some None
          | Some JNull \<Rightarrow> Some None
          | Some (JNum h) \<Rightarrow> Some (Some h)
          | Some (JStr s) \<Rightarrow> (if s = '''' then Some None else map_option Some (pg_numeric s))
          | Some _ \<Rightarrow> None))"

definition slaDueSql :: "env \<Rightarrow> (string \<Rightarrow> rat option) \<Rightarrow> issue \<Rightarrow> sla_policy \<Rightarrow> rat option" where
  "slaDueSql e pg_numeric i policy =
     map_option
       (\<lambda>h. rat_of_int (iss_sla_started_at i)
          + (case h of
               Some x \<Rightarrow> (if x > 0 then x else SLA_TARGET_HOURS e (iss_priority i))
             | None \<Rightarrow> SLA_TARGET_HOURS e (iss_priority i)) * 3600000)
       (sql_policy_hours pg_numeric policy (iss_priority i))"

section \<open>Validation of a policy\<close>

text \<open>
  \<^verbatim>\<open>validateSlaPolicy\<close> of the admin service; \<^verbatim>\<open>Number(value)\<close> of a string goes through
  the number reader, booleans and null through their numeric values, an array through the text of
  its only element (\<^verbatim>\<open>Number([5])\<close> is 5), everything else is NaN.
\<close>

fun json_number :: "json \<Rightarrow> rat option" where
  "json_number (JNum h) = Some h"
| "json_number (JStr s) = js_number s"
| "json_number JNull = Some 0"
| "json_number (JBool b) = Some (if b then 1 else 0)"
| "json_number (JArr []) = Some 0"
| "json_number (JArr [JNum h]) = Some h"
| "json_number (JArr [JStr s]) = js_number s"
| "json_number (JArr [JNull]) = Some 0"
| "json_number (JArr [JArr xs]) = json_number (JArr xs)"
| "json_number _ = None"

fun validate_entries :: "(string \<times> json) list \<Rightarrow> ((string \<times> json) list) res" where
  "validate_entries [] = Inr []"
| "validate_entries ((k, v) # rest) =
     (if k \<notin> set (map priority_name all_priorities)
      then Inl (BadRequest (''Unknown SLA priority '' @ k @ ''.''))
      else (case json_number v of
          None \<Rightarrow> Inl (BadRequest (''SLA hours for '' @ k @ '' must be between 0 and 8760.''))
        | Some h \<Rightarrow>
            (if h \<le> 0 \<or> h > 8760
             then Inl (BadRequest (''SLA hours for '' @ k @ '' must be between 0 and 8760.''))
             else (case validate_entries rest of Inl err \<Rightarrow> Inl err | Inr out \<Rightarrow> Inr ((k, JNum h) # out)))))"

definition validateSlaPolicy :: "sla_policy \<Rightarrow> sla_policy res" where
  "validateSlaPolicy policy =
     (case policy of
        None \<Rightarrow> Inr None
      | Some m \<Rightarrow> (case validate_entries m of
            Inl err \<Rightarrow> Inl err
          | Inr [] \<Rightarrow> Inr None
          | Inr out \<Rightarrow> Inr (Some out)))"

definition policy_ok :: "sla_policy \<Rightarrow> bool" where
  "policy_ok policy = (case policy of None \<Rightarrow> True | Some m \<Rightarrow>
     list_all (\<lambda>(k, v). case v of JNum h \<Rightarrow> 0 < h \<and> h \<le> 8760 | _ \<Rightarrow> False) m)"

section \<open>The escalation sweep\<close>

text \<open>
  The rows the query selects: open, not escalated this cycle, platform joined, due. A cast
  error in any row the database evaluates fails the query; the model fails it when any
  candidate row fails. \<^verbatim>\<open>None\<close> is a failed query.
\<close>

definition sweep_candidate :: "issue \<Rightarrow> bool" where
  "sweep_candidate i = (is_open (iss_status i) \<and> iss_sla_breached_at i = None)"

definition platform_policy :: "db \<Rightarrow> issue \<Rightarrow> sla_policy" where
  "platform_policy s i =
     (case find_platform (iss_platform i) s of None \<Rightarrow> None | Some p \<Rightarrow> plat_sla_policy p)"

fun sweep_rows :: "env \<Rightarrow> (string \<Rightarrow> rat option) \<Rightarrow> db \<Rightarrow> issue list \<Rightarrow> (ident \<times> ident) list option" where
  "sweep_rows e pg s [] = Some []"
| "sweep_rows e pg s (i # is) =
     (case sweep_rows e pg s is of
        None \<Rightarrow> None
      | Some rest \<Rightarrow>
          (if \<not> sweep_candidate i \<or> find_platform (iss_platform i) s = None then Some rest
           else (case slaDueSql e pg i (platform_policy s i) of
               None \<Rightarrow> None
             | Some due \<Rightarrow> (if due \<le> rat_of_int (now e) then Some ((iss_id i, iss_platform i) # rest)
                            else Some rest))))"

definition mark_breached :: "env \<Rightarrow> ident set \<Rightarrow> issue \<Rightarrow> issue" where
  "mark_breached e ids i =
     (if iss_id i \<in> ids \<and> iss_sla_breached_at i = None
      then i\<lparr>iss_sla_breached_at := Some (now e), iss_updated_at := now e, iss_version := iss_version i + 1\<rparr>
      else i)"

text \<open>
  One row: the conditional update (no row affected: skip), the audit row, the event. The
  query-builder update increments the version column like every update of this form.
\<close>

definition escalate_row :: "env \<Rightarrow> ident \<times> ident \<Rightarrow> nat \<times> db \<Rightarrow> nat \<times> db" where
  "escalate_row e row ns =
     (case row of (iid, pid) \<Rightarrow> (case ns of (n, s) \<Rightarrow>
        (if \<exists>i \<in> set (t_issues s). iss_id i = iid \<and> iss_sla_breached_at i = None then
           (Suc n,
            emit (IssueSlaBreached iid pid)
              (audit_record e (Some iid) ACTOR_SYSTEM None ''SLA_BREACHED'' None None None None
                (t_issues_update
                  (map (mark_breached e {iid})) s)))
         else (n, s))))"

definition sweep :: "env \<Rightarrow> (string \<Rightarrow> rat option) \<Rightarrow> db \<Rightarrow> (string + nat) \<times> db" where
  "sweep e pg s =
     (case envFlag (process_env e) ''SLA_SWEEP_ENABLED'' True of
        Inl bad \<Rightarrow> (Inl bad, s)
      | Inr False \<Rightarrow> (Inr 0, s)
      | Inr True \<Rightarrow>
          (case sweep_rows e pg s (t_issues s) of
             None \<Rightarrow> (Inr 0, s)
           | Some rows \<Rightarrow> (case fold (escalate_row e) rows (0, s) of (n, s') \<Rightarrow> (Inr n, s'))))"

section \<open>Facts\<close>

lemma hoursFromEnv_pos: "0 < d \<Longrightarrow> 0 < hoursFromEnv e k d"
  by (simp add: hoursFromEnv_def split: option.splits)

lemma target_hours_pos [simp]: "0 < SLA_TARGET_HOURS e p"
  by (cases p) (simp_all add: hoursFromEnv_pos)

lemma window_pos: "0 < slaWindowHours e p policy"
  by (auto simp: slaWindowHours_def split: option.splits json.splits)

lemma at_risk_fraction_bounds: "0 < SLA_AT_RISK_FRACTION e \<and> SLA_AT_RISK_FRACTION e < 1"
  by (simp add: SLA_AT_RISK_FRACTION_def split: option.splits)

lemma policy_ok_lookup:
  assumes "policy_ok (Some m)" and "map_of m k = Some v"
  obtains h where "v = JNum h" and "0 < h" and "h \<le> 8760"
proof -
  from assms(2) have "(k, v) \<in> set m" by (rule map_of_SomeD)
  with assms(1) have "case v of JNum h \<Rightarrow> 0 < h \<and> h \<le> 8760 | _ \<Rightarrow> False"
    by (auto simp: policy_ok_def list_all_iff)
  then show thesis by (cases v) (auto intro: that)
qed

lemma sql_hours_of_ok_policy:
  assumes "policy_ok policy"
  shows "slaDueSql e pg i policy = Some (rat_of_int (iss_sla_started_at i) + windowMs e i policy)"
proof (cases policy)
  case None
  then show ?thesis by (simp add: slaDueSql_def sql_policy_hours_def windowMs_def slaWindowHours_def)
next
  case (Some m)
  show ?thesis
  proof (cases "map_of m (priority_name (iss_priority i))")
    case None
    with Some show ?thesis
      by (simp add: slaDueSql_def sql_policy_hours_def windowMs_def slaWindowHours_def)
  next
    case (Some v)
    with \<open>policy = Some m\<close> assms obtain h where "v = JNum h" "0 < h"
      by (auto elim: policy_ok_lookup)
    with \<open>policy = Some m\<close> Some show ?thesis
      by (simp add: slaDueSql_def sql_policy_hours_def windowMs_def slaWindowHours_def)
  qed
qed

lemma validate_entries_ok:
  "validate_entries m = Inr out \<Longrightarrow>
     policy_ok (Some out) \<and> map fst out = map fst m
     \<and> (\<forall>k \<in> set (map fst m). k \<in> set (map priority_name all_priorities))"
proof (induction m arbitrary: out)
  case Nil
  then show ?case by (simp add: policy_ok_def)
next
  case (Cons kv m)
  obtain k v where kv: "kv = (k, v)" by (cases kv)
  from Cons.prems obtain h rest where
    "k \<in> set (map priority_name all_priorities)" "0 < h" "h \<le> 8760"
    "validate_entries m = Inr rest" "out = (k, JNum h) # rest"
    by (auto simp: kv split: if_splits option.splits sum.splits)
  with Cons.IH [of rest] show ?case by (simp add: kv policy_ok_def)
qed

section \<open>The sweep as one pass over the issues\<close>

lemma escalate_row_fresh:
  assumes "\<exists>i \<in> set (t_issues s). iss_id i = iid \<and> iss_sla_breached_at i = None"
  shows "\<exists>s'. escalate_row e (iid, pid) (n, s) = (Suc n, s')
     \<and> t_issues s' = map (mark_breached e {iid}) (t_issues s)
     \<and> t_platforms s' = t_platforms s
     \<and> outbox s' = outbox s @ [IssueSlaBreached iid pid]"
  unfolding escalate_row_def prod.case if_P [OF assms]
  by (rule exI, intro conjI, rule refl) simp_all

lemma mark_breached_compose:
  "mark_breached e B (mark_breached e A i) = mark_breached e (A \<union> B) i"
  by (cases "iss_sla_breached_at i") (simp_all add: mark_breached_def)

lemma fold_escalate:
  assumes "distinct (map fst rows)"
    and "\<forall>r \<in> set rows. \<exists>i \<in> set (t_issues s). iss_id i = fst r \<and> iss_sla_breached_at i = None"
  shows "\<exists>s'. fold (escalate_row e) rows (n, s) = (n + length rows, s')
     \<and> t_issues s' = map (mark_breached e (fst ` set rows)) (t_issues s)
     \<and> t_platforms s' = t_platforms s
     \<and> outbox s' = outbox s @ map (\<lambda>(iid, pid). IssueSlaBreached iid pid) rows"
  using assms
proof (induction rows arbitrary: n s)
  case Nil
  show ?case by (simp add: mark_breached_def)
next
  case (Cons r rows)
  obtain iid pid where r: "r = (iid, pid)" by (cases r)
  from Cons.prems(2) have "\<exists>i \<in> set (t_issues s). iss_id i = iid \<and> iss_sla_breached_at i = None"
    by (simp add: r)
  from escalate_row_fresh [OF this, of e pid n] obtain s1 where s1:
    "escalate_row e r (n, s) = (Suc n, s1)" "t_issues s1 = map (mark_breached e {iid}) (t_issues s)"
    "t_platforms s1 = t_platforms s" "outbox s1 = outbox s @ [IssueSlaBreached iid pid]"
    by (auto simp: r)
  have "\<forall>q \<in> set rows. \<exists>i \<in> set (t_issues s1). iss_id i = fst q \<and> iss_sla_breached_at i = None"
  proof
    fix q assume q: "q \<in> set rows"
    with Cons.prems obtain i where i: "i \<in> set (t_issues s)" "iss_id i = fst q"
      "iss_sla_breached_at i = None" by auto
    from q Cons.prems(1) have "fst q \<noteq> iid" by (auto simp: r)
    with i have "mark_breached e {iid} i = i" by (simp add: mark_breached_def)
    with i show "\<exists>i \<in> set (t_issues s1). iss_id i = fst q \<and> iss_sla_breached_at i = None"
      by (auto simp: s1 image_iff intro!: bexI [of _ i])
  qed
  from Cons.IH [OF _ this, of "Suc n"] Cons.prems(1) obtain s' where
    "fold (escalate_row e) rows (Suc n, s1) = (Suc n + length rows, s')"
    "t_issues s' = map (mark_breached e (fst ` set rows)) (t_issues s1)"
    "t_platforms s' = t_platforms s1"
    "outbox s' = outbox s1 @ map (\<lambda>(iid, pid). IssueSlaBreached iid pid) rows" by auto
  with s1 show ?case
    by (auto simp: r mark_breached_compose)
qed

text \<open>The issues a sweep escalates: open, unmarked, on a platform, past the due time.\<close>

definition sla_overdue :: "env \<Rightarrow> db \<Rightarrow> issue \<Rightarrow> bool" where
  "sla_overdue e s i =
     (sweep_candidate i \<and> find_platform (iss_platform i) s \<noteq> None
      \<and> rat_of_int (iss_sla_started_at i) + windowMs e i (platform_policy s i) \<le> rat_of_int (now e))"

lemma sweep_rows_eq:
  assumes "\<forall>p \<in> set (t_platforms s). policy_ok (plat_sla_policy p)"
  shows "sweep_rows e pg s is = Some (map (\<lambda>i. (iss_id i, iss_platform i)) (filter (sla_overdue e s) is))"
proof (induction "is")
  case (Cons i "is")
  have "policy_ok (platform_policy s i)"
    using assms by (auto simp: platform_policy_def find_platform_def policy_ok_def
        split: option.splits dest!: by_key_SomeD)
  from sql_hours_of_ok_policy [OF this] Cons show ?case
    by (simp add: sla_overdue_def)
qed simp

lemma overdue_not_after_mark:
  "\<not> sla_overdue e s (mark_breached e ids i) \<or> (iss_id i \<notin> ids \<and> mark_breached e ids i = i)"
  by (auto simp: sla_overdue_def sweep_candidate_def mark_breached_def)

section \<open>Properties\<close>

text \<open>
  C15: The two computations of the SLA agree. Whatever policy the admin
  validation accepts for a platform, the SQL due time of an issue exists and the state
  computed in JavaScript is BREACHED exactly when the issue is open and the SQL due time has
  passed, which is the condition of the dashboards and the sweep.
\<close>

theorem sla_twins_agree:
  assumes "validateSlaPolicy raw = Inr policy" and "computeSla e i policy t = Inr (due, st)"
  shows "\<exists>d. slaDueSql e pg i policy = Some d \<and> due = \<lfloor>d\<rfloor>
     \<and> (st = Some BREACHED \<longleftrightarrow> is_open (iss_status i) \<and> d \<le> rat_of_int t)"
proof -
  have "policy_ok policy"
    using assms(1) validate_entries_ok
    by (fastforce simp: validateSlaPolicy_def policy_ok_def split: option.splits sum.splits list.splits)
  from sql_hours_of_ok_policy [OF this] assms(2) show ?thesis
    by (auto simp: computeSla_def Let_def split: if_splits)
qed

theorem sla_twins_agree_witness:
  "\<exists>d. slaDueSql plain_env (\<lambda>_. None) (sample_issue ''i1'' ''p1'' NEW) (Some [(''HIGH'', JNum 12)]) = Some d
     \<and> 43200000 = \<lfloor>d\<rfloor> \<and> (Some BREACHED = Some BREACHED \<longleftrightarrow> is_open NEW \<and> d \<le> rat_of_int 43200000)"
proof -
  have v: "validateSlaPolicy (Some [(''HIGH'', JStr ''12'')]) = Inr (Some [(''HIGH'', JNum 12)])"
    by (simp add: validateSlaPolicy_def all_priorities_def js_number_def js_trim_def js_trim_start_def
        js_trim_end_def is_ws_def code_def starts_with_def unsigned_decimal_def is_digit_def
        exponent_part_def nat_of_digits_def digit_val_def pow10_def Let_def)
  have c: "computeSla plain_env (sample_issue ''i1'' ''p1'' NEW) (Some [(''HIGH'', JNum 12)]) 43200000
      = Inr (43200000, Some BREACHED)"
    by (simp add: computeSla_def windowMs_def slaWindowHours_def sample_issue_def Let_def)
  from sla_twins_agree [OF v c, of "\<lambda>_. None"] show ?thesis
    by (simp add: sample_issue_def)
qed

text \<open>
  C16: The sweep escalates every overdue issue exactly once. With distinct
  issue ids and valid policies, one run of the sweep counts the overdue issues, emits one
  breach event for each of them in order, marks exactly them, and a second run at the same
  instant escalates nothing and changes nothing.
\<close>

theorem sweep_escalates_once:
  assumes "envFlag (process_env e) ''SLA_SWEEP_ENABLED'' True = Inr True"
    and "\<forall>p \<in> set (t_platforms s). policy_ok (plat_sla_policy p)"
    and "distinct (map iss_id (t_issues s))"
    and "sweep e pg s = (r, s')"
  shows "r = Inr (length (filter (sla_overdue e s) (t_issues s)))
     \<and> outbox s' = outbox s @ map (\<lambda>i. IssueSlaBreached (iss_id i) (iss_platform i))
                                (filter (sla_overdue e s) (t_issues s))
     \<and> t_issues s' = map (\<lambda>i. if sla_overdue e s i
                              then i\<lparr>iss_sla_breached_at := Some (now e), iss_updated_at := now e,
                                     iss_version := iss_version i + 1\<rparr> else i) (t_issues s)
     \<and> sweep e pg s' = (Inr 0, s')"
proof -
  let ?due = "filter (sla_overdue e s) (t_issues s)"
  let ?rows = "map (\<lambda>i. (iss_id i, iss_platform i)) ?due"
  have rows: "sweep_rows e pg s (t_issues s) = Some ?rows"
    by (rule sweep_rows_eq [OF assms(2)])
  have fst_rows: "map fst ?rows = map iss_id ?due" by simp
  have "distinct (map fst ?rows)"
    unfolding fst_rows by (rule distinct_map_filter [OF assms(3)])
  moreover have "\<forall>r \<in> set ?rows. \<exists>i \<in> set (t_issues s). iss_id i = fst r \<and> iss_sla_breached_at i = None"
    by (auto simp: sla_overdue_def sweep_candidate_def)
  ultimately obtain s1 where s1: "fold (escalate_row e) ?rows (0, s) = (length ?due, s1)"
    "t_issues s1 = map (mark_breached e (fst ` set ?rows)) (t_issues s)"
    "t_platforms s1 = t_platforms s"
    "outbox s1 = outbox s @ map (\<lambda>(iid, pid). IssueSlaBreached iid pid) ?rows"
    using fold_escalate [of ?rows s e 0] by auto
  with assms(1,4) rows have eq: "s' = s1" "r = Inr (length ?due)"
    by (auto simp: sweep_def)
  have ids: "fst ` set ?rows = iss_id ` set ?due" by (auto simp: image_image)
  have marked: "mark_breached e (fst ` set ?rows) i =
      (if sla_overdue e s i then i\<lparr>iss_sla_breached_at := Some (now e), iss_updated_at := now e,
         iss_version := iss_version i + 1\<rparr> else i)" if "i \<in> set (t_issues s)" for i
  proof -
    have "iss_id i \<in> iss_id ` set ?due \<longleftrightarrow> sla_overdue e s i"
      using that assms(3) by (auto simp: distinct_map dest: inj_onD)
    moreover have "sla_overdue e s i \<Longrightarrow> iss_sla_breached_at i = None"
      by (simp add: sla_overdue_def sweep_candidate_def)
    ultimately show ?thesis
      unfolding mark_breached_def ids by (cases "sla_overdue e s i") simp_all
  qed
  have "sla_overdue e s1 = sla_overdue e s"
    by (rule ext) (simp add: sla_overdue_def platform_policy_def find_platform_def s1(3))
  then have "filter (sla_overdue e s1) (t_issues s1) = []"
    using marked by (auto simp: s1(2) filter_empty_conv sla_overdue_def sweep_candidate_def)
  with assms(1,2) have "sweep e pg s1 = (Inr 0, s1)"
    by (simp add: sweep_def sweep_rows_eq s1(3))
  with eq s1 marked show ?thesis by (simp add: comp_def)
qed

theorem sweep_escalates_once_witness:
  "\<exists>s'. sweep plain_env (\<lambda>_. None)
      (empty_db\<lparr>t_platforms := [sample_platform ''p1'' ''portal''],
         t_issues := [sample_issue ''i1'' ''p1'' NEW, sample_issue ''i2'' ''p1'' RESOLVED]\<rparr>) = (Inr 1, s')
     \<and> outbox s' = [IssueSlaBreached ''i1'' ''p1''] \<and> sweep plain_env (\<lambda>_. None) s' = (Inr 0, s')"
proof -
  let ?s = "empty_db\<lparr>t_platforms := [sample_platform ''p1'' ''portal''],
         t_issues := [sample_issue ''i1'' ''p1'' NEW, sample_issue ''i2'' ''p1'' RESOLVED]\<rparr>"
  obtain r s' where run: "sweep plain_env (\<lambda>_. None) ?s = (r, s')" by fastforce
  have flag: "envFlag (process_env plain_env) ''SLA_SWEEP_ENABLED'' True = Inr True"
    by (simp add: envFlag_def parseEnvFlag_def plain_env_def)
  have "filter (sla_overdue plain_env ?s) (t_issues ?s) = [sample_issue ''i1'' ''p1'' NEW]"
    by (simp add: sla_overdue_def sweep_candidate_def sample_defs find_platform_def by_key_Cons
        windowMs_def slaWindowHours_def platform_policy_def hoursFromEnv_def plain_env_def)
  with sweep_escalates_once [OF flag _ _ run] run show ?thesis
    by (simp add: sample_defs policy_ok_def)
qed

end
