(* ===== verification/Issues.thy ===== *)
theory Issues
  imports Sla
begin

text \<open>
  The mutations of an issue by staff (\<^verbatim>\<open>src/issues/issues.service.ts\<close>): loading with the
  404, the optimistic version check, the role gate of status changes, the three
  \<^verbatim>\<open>apply*\<close> cores with their audit row and event, the single-issue handlers and the bulk
  loop. An operation whose failure leaves the database as it was returns a sum.
\<close>

section \<open>Guards\<close>

definition loadForWrite :: "ident \<Rightarrow> db \<Rightarrow> issue res" where
  "loadForWrite iid s =
     (case find_issue iid s of None \<Rightarrow> Inl (NotFound ''Issue not found'') | Some i \<Rightarrow> Inr i)"

definition assertVersion :: "issue \<Rightarrow> int option \<Rightarrow> unit res" where
  "assertVersion i version =
     (case version of
        None \<Rightarrow> Inr ()
      | Some v \<Rightarrow> require (v = iss_version i)
          (Conflict ''This issue was modified by someone else. Reload and try again.'') (Inr ()))"

definition transition_roles :: "env \<Rightarrow> role list" where
  "transition_roles e = [DEVELOPER, ADMIN] @ (if focal_point_can_transition e then [FOCAL_POINT] else [])"

definition assertCanTransition :: "env \<Rightarrow> auth_staff \<Rightarrow> ident \<Rightarrow> unit res" where
  "assertCanTransition e st p =
     require (canAccessPlatform st p (transition_roles e))
       (Forbidden ''You may not change the status of this issue.'') (Inr ())"

section \<open>The three cores\<close>

definition applyStatus ::
  "env \<Rightarrow> auth_staff \<Rightarrow> issue \<Rightarrow> issue_status \<Rightarrow> int option \<Rightarrow> db \<Rightarrow> db res" where
  "applyStatus e st i to version s =
     bind_res (assertVersion i version) (\<lambda>_.
     bind_res (assertCanTransition e st (iss_platform i)) (\<lambda>_.
     require (iss_status i \<noteq> to) (Unprocessable ''Issue is already in that status.'')
     (require (canTransition (iss_status i) to)
       (Unprocessable (''Cannot transition from '' @ status_name (iss_status i) @ '' to ''
          @ status_name to @ ''.''))
     (bind_res (save_issue e (applyStatusSideEffects (now e) to (i\<lparr>iss_status := to\<rparr>)) s) (\<lambda>s1.
        Inr (emit (IssueStatusChanged (iss_id i) (iss_platform i) (iss_status i) to (st_id st))
          (audit_record e (Some (iss_id i)) ACTOR_STAFF (Some (st_id st)) ''STATUS_CHANGED''
            (Some ''status'') (Some (status_name (iss_status i))) (Some (status_name to)) None s1)))))))"

definition resolve_assignee :: "issue \<Rightarrow> ident option \<Rightarrow> db \<Rightarrow> ident option res" where
  "resolve_assignee i assignee s =
     (case truthy assignee of
        None \<Rightarrow> Inr None
      | Some a \<Rightarrow> (case find_staff a s of
            None \<Rightarrow> Inl (BadRequest ''Assignee not found or inactive.'')
          | Some u \<Rightarrow>
              require (su_status u = ACCOUNT_ACTIVE) (BadRequest ''Assignee not found or inactive.'')
              (require (canAccessPlatform ((toAuthenticated u)\<lparr>st_roles := loadRoles (su_id u) s\<rparr>)
                          (iss_platform i) [DEVELOPER])
                 (BadRequest ''Assignee is not a developer on this platform.'')
                 (Inr (Some (su_id u))))))"

definition applyAssignment ::
  "env \<Rightarrow> auth_staff \<Rightarrow> issue \<Rightarrow> ident option \<Rightarrow> int option \<Rightarrow> db \<Rightarrow> db res" where
  "applyAssignment e st i assignee version s =
     bind_res (assertVersion i version) (\<lambda>_.
     bind_res (resolve_assignee i assignee s) (\<lambda>new.
     bind_res (save_issue e (i\<lparr>iss_assignee := new\<rparr>) s) (\<lambda>s1.
       Inr (emit (IssueAssigned (iss_id i) (iss_platform i) new (st_id st))
         (audit_record e (Some (iss_id i)) ACTOR_STAFF (Some (st_id st)) ''ASSIGNED''
            (Some ''assignee'') (iss_assignee i) new None s1)))))"

definition applyPriority ::
  "env \<Rightarrow> auth_staff \<Rightarrow> issue \<Rightarrow> priority \<Rightarrow> int option \<Rightarrow> db \<Rightarrow> db res" where
  "applyPriority e st i p version s =
     bind_res (assertVersion i version) (\<lambda>_.
     require (iss_priority i \<noteq> p) (Unprocessable ''Issue is already at that priority.'')
     (bind_res (save_issue e (i\<lparr>iss_priority := p\<rparr>) s) (\<lambda>s1.
       Inr (emit (IssuePriorityChanged (iss_id i) (iss_platform i) (iss_priority i) p (st_id st))
         (audit_record e (Some (iss_id i)) ACTOR_STAFF (Some (st_id st)) ''PRIORITY_CHANGED''
            (Some ''priority'') (Some (priority_name (iss_priority i))) (Some (priority_name p)) None s1)))))"

section \<open>Single-issue handlers\<close>

text \<open>The handlers return the refreshed detail; the model returns the new state.\<close>

definition changeStatus :: "env \<Rightarrow> auth_staff \<Rightarrow> ident \<Rightarrow> issue_status \<Rightarrow> int option \<Rightarrow> db \<Rightarrow> db res" where
  "changeStatus e st iid to version s =
     bind_res (loadForWrite iid s) (\<lambda>i. applyStatus e st i to version s)"

definition changeAssignment :: "env \<Rightarrow> auth_staff \<Rightarrow> ident \<Rightarrow> ident option \<Rightarrow> int option \<Rightarrow> db \<Rightarrow> db res" where
  "changeAssignment e st iid a version s =
     bind_res (loadForWrite iid s) (\<lambda>i. applyAssignment e st i a version s)"

definition changePriority :: "env \<Rightarrow> auth_staff \<Rightarrow> ident \<Rightarrow> priority \<Rightarrow> int option \<Rightarrow> db \<Rightarrow> db res" where
  "changePriority e st iid p version s =
     bind_res (loadForWrite iid s) (\<lambda>i. applyPriority e st i p version s)"

section \<open>Bulk update\<close>

datatype bulk_op = OP_STATUS | OP_PRIORITY | OP_ASSIGNEE

record bulk_dto =
  blk_ids :: "ident list"
  blk_op :: bulk_op
  blk_value :: "string option"

definition NOT_VISIBLE_REASON :: string where
  "NOT_VISIBLE_REASON = ''Not found or out of scope''"

definition skip_reason :: "http_error \<Rightarrow> string" where
  "skip_reason err = (if err_is_not_found err then NOT_VISIBLE_REASON else err_message err)"

definition bulk_value_ok :: "env \<Rightarrow> bulk_dto \<Rightarrow> unit res" where
  "bulk_value_ok e dto =
     (case blk_op dto of
        OP_STATUS \<Rightarrow> require (case blk_value dto of None \<Rightarrow> False | Some v \<Rightarrow> status_of_name v \<noteq> None)
          (BadRequest ''Invalid status value.'') (Inr ())
      | OP_PRIORITY \<Rightarrow> require (case blk_value dto of None \<Rightarrow> False | Some v \<Rightarrow> priority_of_name v \<noteq> None)
          (BadRequest ''Invalid priority value.'') (Inr ())
      | OP_ASSIGNEE \<Rightarrow> require (case truthy (blk_value dto) of None \<Rightarrow> True | Some v \<Rightarrow> lib_isUUID e v)
          (BadRequest ''Invalid assignee id.'') (Inr ()))"

text \<open>The body of the loop for one id: the new state, or the reason the id is skipped for.\<close>

definition bulk_apply :: "env \<Rightarrow> auth_staff \<Rightarrow> bulk_dto \<Rightarrow> issue \<Rightarrow> db \<Rightarrow> db res" where
  "bulk_apply e st dto i s =
     (case blk_op dto of
        OP_STATUS \<Rightarrow> applyStatus e st i
          (the (status_of_name (the (blk_value dto)))) (Some (iss_version i)) s
      | OP_PRIORITY \<Rightarrow> applyPriority e st i
          (the (priority_of_name (the (blk_value dto)))) (Some (iss_version i)) s
      | OP_ASSIGNEE \<Rightarrow> applyAssignment e st i (truthy (blk_value dto)) (Some (iss_version i)) s)"

definition bulk_one :: "env \<Rightarrow> auth_staff \<Rightarrow> bulk_dto \<Rightarrow> ident \<Rightarrow> db \<Rightarrow> string + db" where
  "bulk_one e st dto iid s =
     (case loadForWrite iid s of
        Inl err \<Rightarrow> Inl (skip_reason err)
      | Inr i \<Rightarrow>
          (if \<not> canAccessPlatform st (iss_platform i) STAFF_WRITE_ROLES then Inl NOT_VISIBLE_REASON
           else (case bulk_apply e st dto i s of
                   Inl err \<Rightarrow> Inl (skip_reason err)
                 | Inr s' \<Rightarrow> Inr s')))"

fun bulk_loop ::
  "env \<Rightarrow> auth_staff \<Rightarrow> bulk_dto \<Rightarrow> ident list \<Rightarrow> nat \<times> (ident \<times> string) list \<times> db
     \<Rightarrow> nat \<times> (ident \<times> string) list \<times> db" where
  "bulk_loop e st dto [] acc = acc"
| "bulk_loop e st dto (iid # rest) (updated, skipped, s) =
     (case bulk_one e st dto iid s of
        Inl reason \<Rightarrow> bulk_loop e st dto rest (updated, skipped @ [(iid, reason)], s)
      | Inr s' \<Rightarrow> bulk_loop e st dto rest (Suc updated, skipped, s'))"

definition bulkUpdate ::
  "env \<Rightarrow> auth_staff \<Rightarrow> bulk_dto \<Rightarrow> db \<Rightarrow> (nat \<times> (ident \<times> string) list \<times> db) res" where
  "bulkUpdate e st dto s =
     (if scope_is_empty (scopedPlatformIds st)
      then Inr (0, map (\<lambda>i. (i, NOT_VISIBLE_REASON)) (blk_ids dto), s)
      else bind_res (bulk_value_ok e dto) (\<lambda>_. Inr (bulk_loop e st dto (blk_ids dto) (0, [], s))))"

section \<open>Facts about the cores\<close>

text \<open>
  The three cores share one shape: an issue loaded from the current state is saved changed in
  one column group, then one audit row and one event follow. \<^verbatim>\<open>wrote\<close> names it.
\<close>

definition wrote :: "env \<Rightarrow> issue \<Rightarrow> issue \<Rightarrow> domain_event \<Rightarrow> db \<Rightarrow> db \<Rightarrow> bool" where
  "wrote e old new ev s s' =
     (iss_id new = iss_id old \<and> iss_platform new = iss_platform old
      \<and> t_issues s' = (if same_columns new old then t_issues s
                       else replace_row iss_id (saved_row e new) (t_issues s))
      \<and> (\<exists>row. t_audit s' = t_audit s @ [row] \<and> aud_issue row = (if iss_id old = '''' then None else Some (iss_id old)) \<and> aud_created_at row = now e)
      \<and> outbox s' = outbox s @ [ev]
      \<and> t_staff s' = t_staff s \<and> t_roles s' = t_roles s \<and> t_comments s' = t_comments s
      \<and> t_watchers s' = t_watchers s \<and> t_links s' = t_links s \<and> t_platforms s' = t_platforms s)"

lemma assertVersion_Inr_iff [simp]:
  "assertVersion i v = Inr u \<longleftrightarrow> v = None \<or> v = Some (iss_version i)"
  by (auto simp: assertVersion_def require_Inr_iff split: option.splits)

lemma assertVersion_Inl:
  "assertVersion i v = Inl err \<Longrightarrow>
     err = Conflict ''This issue was modified by someone else. Reload and try again.''
     \<and> (\<exists>x. v = Some x \<and> x \<noteq> iss_version i)"
  by (auto simp: assertVersion_def require_def split: option.splits if_splits)

lemma assertCanTransition_Inr_iff [simp]:
  "assertCanTransition e st p = Inr u \<longleftrightarrow> canAccessPlatform st p (transition_roles e)"
  by (simp add: assertCanTransition_def require_Inr_iff)

lemma loadForWrite_Inr_iff: "loadForWrite iid s = Inr i \<longleftrightarrow> find_issue iid s = Some i"
  by (simp add: loadForWrite_def split: option.splits)

lemma audit_appends:
  "\<exists>row. t_audit (audit_record e iid aty aid act fld old new meta s) = t_audit s @ [row]
     \<and> aud_issue row = (if iid = Some '''' then None else iid) \<and> aud_actor_id row = aid \<and> aud_action row = act
     \<and> aud_field row = fld \<and> aud_old_value row = old \<and> aud_new_value row = new
     \<and> aud_created_at row = now e"
  by (simp add: audit_record_def draw_id_def)

lemma save_then_record:
  assumes "find_issue (iss_id old) s = Some old" and "iss_id new = iss_id old"
    and "iss_platform new = iss_platform old"
    and "iss_version new = iss_version old" and "save_issue e new s = Inr s1"
  shows "wrote e old new ev s
     (emit ev (audit_record e (Some (iss_id old)) aty aid act fld ov nv meta s1))"
proof -
  from assms have "s1 = (if same_columns new old then s else put_issue (saved_row e new) s)"
    by (simp add: save_issue_loaded split: if_splits)
  with assms(2,3) show ?thesis
    by (auto simp: wrote_def audit_record_def draw_id_def)
qed

lemma save_loaded_ok:
  assumes "find_issue (iss_id old) s = Some old" and "iss_id new = iss_id old"
    and "iss_version new = iss_version old"
  shows "\<exists>s1. save_issue e new s = Inr s1"
  using assms by (simp add: save_issue_loaded)

lemma applyStatus_wrote:
  assumes "find_issue (iss_id i) s = Some i" and "applyStatus e st i to v s = Inr s'"
  shows "wrote e i (applyStatusSideEffects (now e) to (i\<lparr>iss_status := to\<rparr>))
      (IssueStatusChanged (iss_id i) (iss_platform i) (iss_status i) to (st_id st)) s s'
    \<and> canTransition (iss_status i) to \<and> canAccessPlatform st (iss_platform i) (transition_roles e)
    \<and> (v = None \<or> v = Some (iss_version i))"
  using assms unfolding applyStatus_def res_iffs
  by (auto intro!: save_then_record)

lemma applyPriority_wrote:
  assumes "find_issue (iss_id i) s = Some i" and "applyPriority e st i p v s = Inr s'"
  shows "wrote e i (i\<lparr>iss_priority := p\<rparr>)
      (IssuePriorityChanged (iss_id i) (iss_platform i) (iss_priority i) p (st_id st)) s s'
    \<and> iss_priority i \<noteq> p \<and> (v = None \<or> v = Some (iss_version i))"
  using assms unfolding applyPriority_def res_iffs
  by (auto intro!: save_then_record)

lemma resolve_assignee_ok:
  assumes "resolve_assignee i a s = Inr new"
  shows "(new = None \<and> truthy a = None)
    \<or> (\<exists>u. new = Some (su_id u) \<and> find_staff (su_id u) s = Some u \<and> a = Some (su_id u)
        \<and> su_status u = ACCOUNT_ACTIVE
        \<and> (\<exists>g \<in> set (t_roles s). upr_staff_user g = su_id u \<and> upr_role g = DEVELOPER
             \<and> (upr_platform g = None \<or> upr_platform g = Some (iss_platform i))))"
proof (cases "truthy a")
  case None
  with assms show ?thesis by (simp add: resolve_assignee_def)
next
  case (Some x)
  then have a: "a = Some x" by (auto simp: truthy_def split: if_splits)
  from Some assms obtain u where u: "find_staff x s = Some u" "su_status u = ACCOUNT_ACTIVE"
    "canAccessPlatform ((toAuthenticated u)\<lparr>st_roles := loadRoles (su_id u) s\<rparr>) (iss_platform i) [DEVELOPER]"
    "new = Some (su_id u)"
    by (auto simp: resolve_assignee_def require_Inr_iff split: option.splits)
  from u(1) have "su_id u = x" by (auto simp: find_staff_def dest: by_key_SomeD)
  with u a show ?thesis
    by (auto simp: canAccessPlatform_def list_ex_iff loadRoles_def)
qed

lemma applyAssignment_wrote:
  assumes "find_issue (iss_id i) s = Some i" and "applyAssignment e st i a v s = Inr s'"
  shows "\<exists>new. wrote e i (i\<lparr>iss_assignee := new\<rparr>) (IssueAssigned (iss_id i) (iss_platform i) new (st_id st)) s s'
    \<and> resolve_assignee i a s = Inr new \<and> (v = None \<or> v = Some (iss_version i))"
  using assms unfolding applyAssignment_def res_iffs
  by (auto intro!: save_then_record)

lemma wrote_find:
  assumes "find_issue (iss_id old) s = Some old" and "wrote e old new ev s s'"
  shows "find_issue k s' =
     (if k = iss_id old \<and> \<not> same_columns new old then Some (saved_row e new) else find_issue k s)"
proof -
  have "find_issue k s' = find_issue k (if same_columns new old then s else put_issue (saved_row e new) s)"
    using assms(2) by (simp add: wrote_def find_issue_def)
  with assms show ?thesis
    by (auto simp: find_issue_put wrote_def)
qed

lemma status_column_changes:
  "canTransition (iss_status i) to \<Longrightarrow> \<not> same_columns (applyStatusSideEffects t to (i\<lparr>iss_status := to\<rparr>)) i"
  using same_columnsD(1) [of "applyStatusSideEffects t to (i\<lparr>iss_status := to\<rparr>)" i] by auto

lemma priority_column_changes: "iss_priority i \<noteq> p \<Longrightarrow> \<not> same_columns (i\<lparr>iss_priority := p\<rparr>) i"
  using same_columnsD(2) [of "i\<lparr>iss_priority := p\<rparr>" i] by auto

section \<open>Properties of the single-issue handlers\<close>

text \<open>
  C1: A status change succeeds exactly when the issue exists, the version
  sent is the current one, the caller holds a role that may change its status on the
  platform, and the status machine has the edge.
\<close>

theorem change_status_guards:
  "(\<exists>s'. changeStatus e st iid to v s = Inr s') \<longleftrightarrow>
     (\<exists>i. find_issue iid s = Some i \<and> (v = None \<or> v = Some (iss_version i))
        \<and> canAccessPlatform st (iss_platform i) (transition_roles e)
        \<and> canTransition (iss_status i) to)" (is "?l \<longleftrightarrow> ?r")
proof
  assume ?l
  then obtain s' i where "find_issue iid s = Some i" "applyStatus e st i to v s = Inr s'"
    by (auto simp: changeStatus_def bind_res_Inr_iff loadForWrite_Inr_iff)
  moreover from this have "iss_id i = iid" by (auto dest: find_issueD)
  ultimately show ?r using applyStatus_wrote by blast
next
  assume ?r
  then obtain i where i: "find_issue iid s = Some i" "v = None \<or> v = Some (iss_version i)"
    "canAccessPlatform st (iss_platform i) (transition_roles e)" "canTransition (iss_status i) to"
    by blast
  then have id: "iss_id i = iid" by (auto dest: find_issueD)
  from i(4) have ne: "iss_status i \<noteq> to" by auto
  from i(1) id obtain s1 where
    "save_issue e (applyStatusSideEffects (now e) to (i\<lparr>iss_status := to\<rparr>)) s = Inr s1"
    using save_loaded_ok [of i s "applyStatusSideEffects (now e) to (i\<lparr>iss_status := to\<rparr>)" e] by auto
  with i ne show ?l
    by (auto simp: changeStatus_def loadForWrite_Inr_iff applyStatus_def res_iffs)
qed

text \<open>
  C2: After a status change the row has the new status with its
  bookkeeping and the version moved by one; no other issue, no comment, watcher or account
  changed; one audit row of that issue says who changed the status from what to what, and one
  event says the same.
\<close>

theorem change_status_effects:
  assumes "changeStatus e st iid to v s = Inr s'"
  shows "\<exists>i j row. find_issue iid s = Some i \<and> find_issue iid s' = Some j
       \<and> j = (applyStatusSideEffects (now e) to (i\<lparr>iss_status := to\<rparr>))
               \<lparr>iss_version := iss_version i + 1, iss_updated_at := now e\<rparr>
       \<and> (\<forall>k. k \<noteq> iid \<longrightarrow> find_issue k s' = find_issue k s)
       \<and> t_comments s' = t_comments s \<and> t_watchers s' = t_watchers s \<and> t_staff s' = t_staff s
       \<and> t_audit s' = t_audit s @ [row] \<and> aud_actor_id row = Some (st_id st)
       \<and> aud_issue row = (if iid = '''' then None else Some iid)
       \<and> aud_action row = ''STATUS_CHANGED'' \<and> aud_field row = Some ''status''
       \<and> aud_old_value row = Some (status_name (iss_status i))
       \<and> aud_new_value row = Some (status_name to)
       \<and> outbox s' = outbox s @
           [IssueStatusChanged iid (iss_platform i) (iss_status i) to (st_id st)]"
proof -
  from assms obtain i where i: "find_issue iid s = Some i" and ap: "applyStatus e st i to v s = Inr s'"
    by (auto simp: changeStatus_def bind_res_Inr_iff loadForWrite_Inr_iff)
  then have id: "iss_id i = iid" by (auto dest: find_issueD)
  let ?new = "applyStatusSideEffects (now e) to (i\<lparr>iss_status := to\<rparr>)"
  from i id ap have w: "wrote e i ?new
      (IssueStatusChanged (iss_id i) (iss_platform i) (iss_status i) to (st_id st)) s s'"
    and ct: "canTransition (iss_status i) to"
    using applyStatus_wrote by blast+
  from ct have ch: "\<not> same_columns ?new i" by (rule status_column_changes)
  from i id w have f: "find_issue k s' = (if k = iid then Some (saved_row e ?new) else find_issue k s)" for k
    using wrote_find [of i s e ?new _ s' k] ch by auto
  from ap obtain s1 where "s' = emit (IssueStatusChanged (iss_id i) (iss_platform i) (iss_status i) to (st_id st))
          (audit_record e (Some (iss_id i)) ACTOR_STAFF (Some (st_id st)) ''STATUS_CHANGED''
            (Some ''status'') (Some (status_name (iss_status i))) (Some (status_name to)) None s1)"
    and "save_issue e ?new s = Inr s1"
    unfolding applyStatus_def res_iffs by auto
  moreover from this have "t_audit s1 = t_audit s"
    by (auto simp: save_issue_def split: option.splits if_splits)
  ultimately obtain row where "t_audit s' = t_audit s @ [row]" "aud_actor_id row = Some (st_id st)"
    "aud_issue row = (if iid = '''' then None else Some iid)" "aud_action row = ''STATUS_CHANGED''" "aud_field row = Some ''status''"
    "aud_old_value row = Some (status_name (iss_status i))" "aud_new_value row = Some (status_name to)"
    using audit_appends [of e "Some (iss_id i)" ACTOR_STAFF "Some (st_id st)" "''STATUS_CHANGED''"
        "Some ''status''" "Some (status_name (iss_status i))" "Some (status_name to)" None s1] id by auto
  with i f w id show ?thesis
    by (auto simp: wrote_def saved_row_def)
qed

text \<open>A database with one platform, two developers (one elsewhere), a watcher and two issues.\<close>

definition demo_db :: db where
  "demo_db = empty_db\<lparr>
     t_platforms := [sample_platform ''p1'' ''portal'', sample_platform ''p2'' ''other''],
     t_staff := [sample_staff ''dev'' ''dev@x.org'', sample_staff ''wat'' ''wat@x.org''],
     t_roles := [sample_grant ''g1'' ''dev'' (Some ''p1'') DEVELOPER,
                 sample_grant ''g2'' ''wat'' (Some ''p1'') WATCHER],
     t_issues := [sample_issue ''i1'' ''p1'' NEW, sample_issue ''i2'' ''p2'' NEW]\<rparr>"

definition dev_staff :: auth_staff where
  "dev_staff = \<lparr>st_id = ''dev'', st_idp_subject = ''local:dev@x.org'', st_name = ''dev'',
     st_email = ''dev@x.org'', st_roles = [\<lparr>gr_role = DEVELOPER, gr_platform = Some ''p1''\<rparr>]\<rparr>"

lemmas demo_defs = demo_db_def dev_staff_def sample_defs plain_env_def

theorem change_status_effects_witness:
  "\<exists>s' j. changeStatus plain_env dev_staff ''i1'' IN_PROGRESS (Some 1) demo_db = Inr s'
     \<and> find_issue ''i1'' s' = Some j \<and> iss_status j = IN_PROGRESS \<and> iss_version j = 2
     \<and> outbox s' = [IssueStatusChanged ''i1'' ''p1'' NEW IN_PROGRESS ''dev'']"
proof -
  have "\<exists>s'. changeStatus plain_env dev_staff ''i1'' IN_PROGRESS (Some 1) demo_db = Inr s'"
    by (simp add: change_status_guards find_issue_def demo_defs by_key_Cons canAccessPlatform_def
        transition_roles_def canTransition_def)
  then obtain s' where r: "changeStatus plain_env dev_staff ''i1'' IN_PROGRESS (Some 1) demo_db = Inr s'" ..
  from change_status_effects [OF r] r show ?thesis
    by (auto simp: demo_defs find_issue_def by_key_Cons)
qed

lemma change_status_version:
  assumes "changeStatus e st iid to v s = Inr s'"
  shows "\<exists>i j. find_issue iid s = Some i \<and> find_issue iid s' = Some j \<and> iss_version j = iss_version i + 1
     \<and> (v = None \<or> v = Some (iss_version i))"
proof -
  from assms obtain i where i: "find_issue iid s = Some i" and ap: "applyStatus e st i to v s = Inr s'"
    by (auto simp: changeStatus_def bind_res_Inr_iff loadForWrite_Inr_iff)
  then have id: "iss_id i = iid" by (auto dest: find_issueD)
  with i ap have w: "wrote e i (applyStatusSideEffects (now e) to (i\<lparr>iss_status := to\<rparr>))
      (IssueStatusChanged (iss_id i) (iss_platform i) (iss_status i) to (st_id st)) s s'"
    and "canTransition (iss_status i) to" "v = None \<or> v = Some (iss_version i)"
    using applyStatus_wrote by blast+
  with i id show ?thesis
    using wrote_find [of i s e _ _ s' iid] status_column_changes by auto
qed

lemma demo_change_ok: "\<exists>s'. changeStatus plain_env dev_staff ''i1'' IN_PROGRESS (Some 1) demo_db = Inr s'"
  by (simp add: changeStatus_def loadForWrite_def applyStatus_def assertVersion_def assertCanTransition_def
      find_issue_def demo_defs by_key_Cons canAccessPlatform_def transition_roles_def canTransition_def
      save_issue_def require_def applyStatusSideEffects_def)

lemma changePriority_find:
  assumes "changePriority e st iid p v s = Inr s'"
  shows "\<exists>i j. find_issue iid s = Some i \<and> find_issue iid s' = Some j \<and> iss_version j = iss_version i + 1
     \<and> iss_status j = iss_status i \<and> iss_priority j = p \<and> iss_platform j = iss_platform i
     \<and> (v = None \<or> v = Some (iss_version i))"
proof -
  from assms obtain i where i: "find_issue iid s = Some i" and ap: "applyPriority e st i p v s = Inr s'"
    by (auto simp: changePriority_def bind_res_Inr_iff loadForWrite_Inr_iff)
  then have id: "iss_id i = iid" by (auto dest: find_issueD)
  with i ap have w: "wrote e i (i\<lparr>iss_priority := p\<rparr>)
      (IssuePriorityChanged (iss_id i) (iss_platform i) (iss_priority i) p (st_id st)) s s'"
    "iss_priority i \<noteq> p" "v = None \<or> v = Some (iss_version i)"
    using applyPriority_wrote by blast+
  with i id show ?thesis
    using wrote_find [of i s e _ _ s' iid] priority_column_changes by auto
qed

text \<open>
  C8: No lost update through the version sent by the client. When two
  clients send the version they both read, the one whose status change arrives after another
  client's status or priority change succeeded is answered with a conflict and changes
  nothing.
\<close>

theorem stale_version_rejected:
  assumes "changeStatus e st iid to (Some v) s = Inr s' \<or> changePriority e st iid p (Some v) s = Inr s'"
  shows "changeStatus e2 st2 iid to2 (Some v) s' =
           Inl (Conflict ''This issue was modified by someone else. Reload and try again.'')
       \<and> changePriority e2 st2 iid p2 (Some v) s' =
           Inl (Conflict ''This issue was modified by someone else. Reload and try again.'')
       \<and> changeAssignment e2 st2 iid a2 (Some v) s' =
           Inl (Conflict ''This issue was modified by someone else. Reload and try again.'')"
proof -
  have "\<exists>j. find_issue iid s' = Some j \<and> iss_version j = v + 1"
    using assms
  proof
    assume r: "changeStatus e st iid to (Some v) s = Inr s'"
    from change_status_version [OF r] show ?thesis by auto
  next
    assume "changePriority e st iid p (Some v) s = Inr s'"
    from changePriority_find [OF this] show ?thesis by auto
  qed
  then obtain j where "find_issue iid s' = Some j" "iss_version j = v + 1" by blast
  then show ?thesis
    by (simp add: changeStatus_def changePriority_def changeAssignment_def loadForWrite_def
        applyStatus_def applyPriority_def applyAssignment_def assertVersion_def)
qed

theorem stale_version_rejected_witness:
  "\<exists>s'. changeStatus plain_env dev_staff ''i1'' IN_PROGRESS (Some 1) demo_db = Inr s'
     \<and> changePriority plain_env dev_staff ''i1'' LOW (Some 1) s' =
         Inl (Conflict ''This issue was modified by someone else. Reload and try again.'')"
proof -
  obtain s' where r: "changeStatus plain_env dev_staff ''i1'' IN_PROGRESS (Some 1) demo_db = Inr s'"
    using demo_change_ok by blast
  with stale_version_rejected [OF disjI1 [OF r], of plain_env dev_staff IN_PROGRESS LOW None]
  show ?thesis by blast
qed

text \<open>
  Two requests that both read the same version before either saved: the
  version sent by the client cannot tell them apart, so the second save is refused exactly
  when the ORM adds the version it read to the update. With that check the second writer
  gets the conflict answer; without it the second writer silently puts the old status back.
\<close>

theorem racing_writers:
  assumes "find_issue iid s = Some i" and "applyStatus e st i to (Some v) s = Inr s1"
    and "iss_priority i \<noteq> p"
  shows "(orm_version_check e \<longrightarrow> applyPriority e st2 i p (Some v) s1 = Inl orm_conflict)
     \<and> (\<not> orm_version_check e \<longrightarrow>
         (\<exists>s2 j. applyPriority e st2 i p (Some v) s1 = Inr s2 \<and> find_issue iid s2 = Some j
            \<and> iss_priority j = p \<and> iss_status j = iss_status i \<and> iss_status i \<noteq> to))"
proof -
  from assms(1) have id: "iss_id i = iid" by (auto dest: find_issueD)
  let ?new = "applyStatusSideEffects (now e) to (i\<lparr>iss_status := to\<rparr>)"
  let ?i2 = "i\<lparr>iss_priority := p\<rparr>"
  from assms(1,2) id have w: "wrote e i ?new
      (IssueStatusChanged (iss_id i) (iss_platform i) (iss_status i) to (st_id st)) s s1"
    and ct: "canTransition (iss_status i) to" and v: "v = iss_version i"
    using applyStatus_wrote [of i s e st to "Some v" s1] by auto
  from ct have ne: "iss_status i \<noteq> to" by auto
  have stored: "find_issue iid s1 = Some (saved_row e ?new)"
    using wrote_find [of i s e ?new _ s1 iid] assms(1) id w status_column_changes [OF ct] by auto
  have diff: "\<not> same_columns ?i2 (saved_row e ?new)"
    using same_columnsD(1) [of ?i2 "saved_row e ?new"] ne by auto
  have pre: "applyPriority e st2 i p (Some v) s1 =
      bind_res (save_issue e ?i2 s1) (\<lambda>s2. Inr (emit (IssuePriorityChanged (iss_id i) (iss_platform i)
          (iss_priority i) p (st_id st2))
         (audit_record e (Some (iss_id i)) ACTOR_STAFF (Some (st_id st2)) ''PRIORITY_CHANGED''
            (Some ''priority'') (Some (priority_name (iss_priority i))) (Some (priority_name p)) None s2)))"
    using assms(3) by (simp add: applyPriority_def assertVersion_def v require_def)
  show ?thesis
  proof (intro conjI impI)
    assume "orm_version_check e"
    then have "save_issue e ?i2 s1 = Inl orm_conflict"
      using stored diff by (simp add: save_issue_def id)
    then show "applyPriority e st2 i p (Some v) s1 = Inl orm_conflict" by (simp add: pre)
  next
    assume "\<not> orm_version_check e"
    then have "save_issue e ?i2 s1 = Inr (put_issue
        (?i2\<lparr>iss_version := iss_version (saved_row e ?new) + 1, iss_updated_at := now e\<rparr>) s1)"
      using stored diff by (simp add: save_issue_def id put_issue_def)
    then show "\<exists>s2 j. applyPriority e st2 i p (Some v) s1 = Inr s2 \<and> find_issue iid s2 = Some j
            \<and> iss_priority j = p \<and> iss_status j = iss_status i \<and> iss_status i \<noteq> to"
      using stored ne id by (auto simp: pre find_issue_put)
  qed
qed

theorem racing_writers_witness:
  "\<exists>s1 s2 j. applyStatus plain_env dev_staff (sample_issue ''i1'' ''p1'' NEW) IN_PROGRESS (Some 1) demo_db = Inr s1
     \<and> applyPriority plain_env dev_staff (sample_issue ''i1'' ''p1'' NEW) LOW (Some 1) s1 = Inr s2
     \<and> find_issue ''i1'' s2 = Some j \<and> iss_status j = NEW"
proof -
  let ?i = "sample_issue ''i1'' ''p1'' NEW"
  have f: "find_issue ''i1'' demo_db = Some ?i"
    by (simp add: demo_defs find_issue_def by_key_Cons)
  obtain s1 where r: "applyStatus plain_env dev_staff ?i IN_PROGRESS (Some 1) demo_db = Inr s1"
    using demo_change_ok f by (auto simp: changeStatus_def loadForWrite_def)
  have "iss_priority ?i \<noteq> LOW" by (simp add: sample_issue_def)
  from racing_writers [OF f r this, of dev_staff] r show ?thesis
    by (auto simp: plain_env_def sample_issue_def)
qed

text \<open>
  An assignment never puts an issue in the hands of someone
  who may not work on it: after it succeeds, the assignee is nobody (exactly when none was
  sent) or the active account sent, holding a developer grant on the issue's platform or a
  global one.
\<close>

theorem assignee_is_active_developer:
  assumes "changeAssignment e st iid a v s = Inr s'"
  shows "\<exists>j. find_issue iid s' = Some j
     \<and> (iss_assignee j = None \<and> (a = None \<or> a = Some '''')
        \<or> (\<exists>u g. a = Some (su_id u) \<and> iss_assignee j = Some (su_id u) \<and> find_staff (su_id u) s' = Some u
             \<and> su_status u = ACCOUNT_ACTIVE \<and> g \<in> set (t_roles s') \<and> upr_staff_user g = su_id u
             \<and> upr_role g = DEVELOPER
             \<and> (upr_platform g = None \<or> upr_platform g = Some (iss_platform j))))"
proof -
  from assms obtain i where i: "find_issue iid s = Some i" and ap: "applyAssignment e st i a v s = Inr s'"
    by (auto simp: changeAssignment_def bind_res_Inr_iff loadForWrite_Inr_iff)
  then have id: "iss_id i = iid" by (auto dest: find_issueD)
  with i ap obtain new where w: "wrote e i (i\<lparr>iss_assignee := new\<rparr>)
      (IssueAssigned (iss_id i) (iss_platform i) new (st_id st)) s s'"
    and res: "resolve_assignee i a s = Inr new"
    using applyAssignment_wrote by blast
  obtain j where j: "find_issue iid s' = Some j" "iss_assignee j = new" "iss_platform j = iss_platform i"
    using wrote_find [of i s e _ _ s' iid] i id w same_columnsD(3) [of "i\<lparr>iss_assignee := new\<rparr>" i]
    by (cases "same_columns (i\<lparr>iss_assignee := new\<rparr>) i") auto
  from w have same: "t_staff s' = t_staff s" "t_roles s' = t_roles s" by (auto simp: wrote_def)
  from resolve_assignee_ok [OF res] j same show ?thesis
    by (auto simp: find_staff_def truthy_def split: if_splits)
qed

theorem assignee_is_active_developer_witness:
  "\<exists>s' j. changeAssignment plain_env dev_staff ''i1'' (Some ''dev'') (Some 1) demo_db = Inr s'
     \<and> find_issue ''i1'' s' = Some j \<and> iss_assignee j = Some ''dev''"
proof -
  obtain s' where r: "changeAssignment plain_env dev_staff ''i1'' (Some ''dev'') (Some 1) demo_db = Inr s'"
    by (simp add: changeAssignment_def loadForWrite_def applyAssignment_def assertVersion_def
      find_issue_def demo_defs by_key_Cons canAccessPlatform_def resolve_assignee_def truthy_def
      save_issue_def same_columns_def require_def find_staff_def toAuthenticated_def loadRoles_def)
  from assignee_is_active_developer [OF r] r show ?thesis by auto
qed

section \<open>Facts about the bulk loop\<close>

definition writable :: "auth_staff \<Rightarrow> issue \<Rightarrow> bool" where
  "writable st i = canAccessPlatform st (iss_platform i) STAFF_WRITE_ROLES"

definition same_visible :: "auth_staff \<Rightarrow> db \<Rightarrow> db \<Rightarrow> bool" where
  "same_visible st s1 s2 =
     (filter (writable st) (t_issues s1) = filter (writable st) (t_issues s2)
      \<and> t_staff s1 = t_staff s2 \<and> t_roles s1 = t_roles s2
      \<and> distinct (map iss_id (t_issues s1)) \<and> distinct (map iss_id (t_issues s2)))"

lemma find_writable_iff:
  "distinct (map iss_id (t_issues s)) \<Longrightarrow>
     (find_issue iid s = Some i \<and> writable st i) \<longleftrightarrow>
     by_key iss_id iid (filter (writable st) (t_issues s)) = Some i"
  by (simp add: by_key_filter_iff find_issue_def)

lemma applyStatus_decided:
  assumes "find_issue (iss_id i) s = Some i" and "find_issue (iss_id i) s2 = Some i"
  shows "(\<exists>err. applyStatus e st i to v s = Inl err \<and> applyStatus e st i to v s2 = Inl err)
    \<or> (\<exists>s' s2' new ev. applyStatus e st i to v s = Inr s' \<and> applyStatus e st i to v s2 = Inr s2'
         \<and> wrote e i new ev s s' \<and> wrote e i new ev s2 s2')"
proof -
  let ?n = "applyStatusSideEffects (now e) to (i\<lparr>iss_status := to\<rparr>)"
  obtain a b where sv: "save_issue e ?n s = Inr a" "save_issue e ?n s2 = Inr b"
    using save_loaded_ok [of i s ?n e] save_loaded_ok [of i s2 ?n e] assms by auto
  show ?thesis
  proof (cases "applyStatus e st i to v s")
    case (Inl err)
    with sv show ?thesis unfolding applyStatus_def by (auto simp: bind_res_Inl_iff require_def split: if_splits)
  next
    case (Inr s')
    with sv obtain s2' where "applyStatus e st i to v s2 = Inr s2'"
      by (auto simp: applyStatus_def res_iffs)
    with Inr applyStatus_wrote assms show ?thesis by blast
  qed
qed

lemma applyPriority_decided:
  assumes "find_issue (iss_id i) s = Some i" and "find_issue (iss_id i) s2 = Some i"
  shows "(\<exists>err. applyPriority e st i p v s = Inl err \<and> applyPriority e st i p v s2 = Inl err)
    \<or> (\<exists>s' s2' new ev. applyPriority e st i p v s = Inr s' \<and> applyPriority e st i p v s2 = Inr s2'
         \<and> wrote e i new ev s s' \<and> wrote e i new ev s2 s2')"
proof -
  let ?n = "i\<lparr>iss_priority := p\<rparr>"
  obtain a b where sv: "save_issue e ?n s = Inr a" "save_issue e ?n s2 = Inr b"
    using save_loaded_ok [of i s ?n e] save_loaded_ok [of i s2 ?n e] assms by auto
  show ?thesis
  proof (cases "applyPriority e st i p v s")
    case (Inl err)
    with sv show ?thesis unfolding applyPriority_def by (auto simp: bind_res_Inl_iff require_def split: if_splits)
  next
    case (Inr s')
    with sv obtain s2' where "applyPriority e st i p v s2 = Inr s2'"
      by (auto simp: applyPriority_def res_iffs)
    with Inr applyPriority_wrote assms show ?thesis by blast
  qed
qed

lemma applyAssignment_decided:
  assumes "find_issue (iss_id i) s = Some i" and "find_issue (iss_id i) s2 = Some i"
    and "t_staff s = t_staff s2" and "t_roles s = t_roles s2"
  shows "(\<exists>err. applyAssignment e st i a v s = Inl err \<and> applyAssignment e st i a v s2 = Inl err)
    \<or> (\<exists>s' s2' new ev. applyAssignment e st i a v s = Inr s' \<and> applyAssignment e st i a v s2 = Inr s2'
         \<and> wrote e i new ev s s' \<and> wrote e i new ev s2 s2')"
proof -
  have r: "resolve_assignee i a s2 = resolve_assignee i a s"
    using assms(3,4)
    by (auto simp: resolve_assignee_def find_staff_def loadRoles_def split: option.splits)
  show ?thesis
  proof (cases "applyAssignment e st i a v s")
    case (Inl err)
    have sv: "\<exists>s1. save_issue e (i\<lparr>iss_assignee := new\<rparr>) s = Inr s1" for new
      by (rule save_loaded_ok [OF assms(1)]) simp_all
    from Inl sv consider "assertVersion i v = Inl err" | "resolve_assignee i a s = Inl err" "is_ok (assertVersion i v)"
      unfolding applyAssignment_def bind_res_Inl_iff is_ok_iff by (metis sum.distinct(1) bind_res.simps(2))
    then have "applyAssignment e st i a v s2 = Inl err"
      by cases (auto simp: applyAssignment_def r is_ok_iff assertVersion_def)
    with Inl show ?thesis by blast
  next
    case (Inr s')
    with assms(1) obtain new where new: "resolve_assignee i a s = Inr new" "is_ok (assertVersion i v)"
      and w: "wrote e i (i\<lparr>iss_assignee := new\<rparr>) (IssueAssigned (iss_id i) (iss_platform i) new (st_id st)) s s'"
      using applyAssignment_wrote [OF assms(1) Inr] by (auto simp: is_ok_iff)
    obtain b where "save_issue e (i\<lparr>iss_assignee := new\<rparr>) s2 = Inr b"
      using save_loaded_ok [OF assms(2), of "i\<lparr>iss_assignee := new\<rparr>" e] by auto
    with new obtain s2' where s2': "applyAssignment e st i a v s2 = Inr s2'"
      by (auto simp: applyAssignment_def res_iffs is_ok_iff r)
    with new have "wrote e i (i\<lparr>iss_assignee := new\<rparr>) (IssueAssigned (iss_id i) (iss_platform i) new (st_id st)) s2 s2'"
      using applyAssignment_wrote [OF assms(2) s2'] by (auto simp: r)
    with Inr s2' w show ?thesis by blast
  qed
qed

lemma bulk_apply_decided:
  assumes "find_issue (iss_id i) s = Some i" and "find_issue (iss_id i) s2 = Some i"
    and "t_staff s = t_staff s2" and "t_roles s = t_roles s2"
  shows "(\<exists>err. bulk_apply e st dto i s = Inl err \<and> bulk_apply e st dto i s2 = Inl err)
    \<or> (\<exists>s' s2' new ev. bulk_apply e st dto i s = Inr s' \<and> bulk_apply e st dto i s2 = Inr s2'
         \<and> wrote e i new ev s s' \<and> wrote e i new ev s2 s2')"
  unfolding bulk_apply_def
  by (cases "blk_op dto")
    (simp_all only: bulk_op.case applyStatus_decided [OF assms(1,2)] applyPriority_decided [OF assms(1,2)]
       applyAssignment_decided [OF assms])

lemma wrote_same_visible:
  assumes "same_visible st s s2" and "find_issue (iss_id i) s = Some i" and "find_issue (iss_id i) s2 = Some i"
    and "wrote e i new ev s s'" and "wrote e i new ev s2 s2'"
  shows "same_visible st s' s2'"
proof -
  have eq: "filter (writable st) (replace_row iss_id (saved_row e new) (t_issues d)) =
      replace_row iss_id (saved_row e new) (filter (writable st) (t_issues d))"
    if "find_issue (iss_id i) d = Some i" "distinct (map iss_id (t_issues d))" for d
  proof (rule filter_replace_row)
    fix x assume x: "x \<in> set (t_issues d)" "iss_id x = iss_id (saved_row e new)"
    with assms(4) have "iss_id x = iss_id i" by (simp add: wrote_def)
    with that x(1) find_issue_member [of d x] have "x = i" by simp
    with assms(4) show "writable st x = writable st (saved_row e new)"
      by (simp add: writable_def wrote_def)
  qed
  from assms show ?thesis
    by (auto simp: same_visible_def wrote_def eq keys_replace_row)
qed

definition bulk_reply :: "string + db \<Rightarrow> string option" where
  "bulk_reply r = (case r of Inl reason \<Rightarrow> Some reason | Inr _ \<Rightarrow> None)"

lemma bulk_one_noninterference:
  assumes "same_visible st s s2"
  shows "(\<exists>r. bulk_one e st dto iid s = Inl r \<and> bulk_one e st dto iid s2 = Inl r)
    \<or> (\<exists>s' s2'. bulk_one e st dto iid s = Inr s' \<and> bulk_one e st dto iid s2 = Inr s2'
         \<and> same_visible st s' s2')"
proof (cases "by_key iss_id iid (filter (writable st) (t_issues s))")
  case None
  have "bulk_one e st dto iid d = Inl NOT_VISIBLE_REASON"
    if "same_visible st s d" "same_visible st s s" for d
  proof (cases "find_issue iid d")
    case None
    then show ?thesis by (simp add: bulk_one_def loadForWrite_def skip_reason_def)
  next
    case (Some i)
    with that \<open>by_key iss_id iid (filter (writable st) (t_issues s)) = None\<close>
    have "\<not> writable st i"
      using find_writable_iff [of d iid i st] by (auto simp: same_visible_def)
    with Some show ?thesis by (simp add: bulk_one_def loadForWrite_def writable_def)
  qed
  with assms show ?thesis by (auto simp: same_visible_def)
next
  case (Some i)
  with assms have f: "find_issue iid s = Some i" "find_issue iid s2 = Some i" and w: "writable st i"
    using find_writable_iff [of s iid i st] find_writable_iff [of s2 iid i st]
    by (auto simp: same_visible_def)
  then have id: "iss_id i = iid" by (auto dest: find_issueD)
  from assms have tabs: "t_staff s = t_staff s2" "t_roles s = t_roles s2" by (auto simp: same_visible_def)
  from f id tabs bulk_apply_decided [of i s s2 e st dto]
  consider (err) err where "bulk_apply e st dto i s = Inl err" "bulk_apply e st dto i s2 = Inl err"
    | (ok) s' s2' new ev where "bulk_apply e st dto i s = Inr s'" "bulk_apply e st dto i s2 = Inr s2'"
         "wrote e i new ev s s'" "wrote e i new ev s2 s2'" by auto
  then show ?thesis
  proof cases
    case err
    with f w show ?thesis by (simp add: bulk_one_def loadForWrite_def writable_def)
  next
    case ok
    with f id have "same_visible st s' s2'" by (intro wrote_same_visible [OF assms]) auto
    with ok f w show ?thesis by (simp add: bulk_one_def loadForWrite_def writable_def)
  qed
qed

lemma bulk_loop_noninterference:
  "same_visible st s s2 \<Longrightarrow>
     fst (bulk_loop e st dto ids (n, sk, s)) = fst (bulk_loop e st dto ids (n, sk, s2))
   \<and> fst (snd (bulk_loop e st dto ids (n, sk, s))) = fst (snd (bulk_loop e st dto ids (n, sk, s2)))"
proof (induction ids arbitrary: n sk s s2)
  case (Cons iid ids)
  from bulk_one_noninterference [OF Cons.prems, of e dto iid] show ?case
  proof
    assume "\<exists>r. bulk_one e st dto iid s = Inl r \<and> bulk_one e st dto iid s2 = Inl r"
    then obtain r where "bulk_one e st dto iid s = Inl r" "bulk_one e st dto iid s2 = Inl r" by blast
    with Cons.IH [OF Cons.prems] show ?thesis by simp
  next
    assume "\<exists>s' s2'. bulk_one e st dto iid s = Inr s' \<and> bulk_one e st dto iid s2 = Inr s2'
         \<and> same_visible st s' s2'"
    with Cons.IH show ?thesis by auto
  qed
qed simp

lemma bulk_one_frame:
  assumes "bulk_one e st dto iid s = Inr s'" and "distinct (map iss_id (t_issues s))"
  shows "filter (\<lambda>i. \<not> writable st i) (t_issues s') = filter (\<lambda>i. \<not> writable st i) (t_issues s)
     \<and> map iss_id (t_issues s') = map iss_id (t_issues s)"
proof -
  from assms(1) obtain i where i: "find_issue iid s = Some i" "writable st i"
    and ap: "bulk_apply e st dto i s = Inr s'"
    by (auto simp: bulk_one_def loadForWrite_def writable_def split: option.splits if_splits sum.splits)
  from i(1) have id: "iss_id i = iid" by (auto dest: find_issueD)
  from bulk_apply_decided [of i s s e st dto] ap i(1) id obtain new ev where w: "wrote e i new ev s s'" by auto
  have "filter (\<lambda>i. \<not> writable st i) (replace_row iss_id (saved_row e new) (t_issues s))
      = filter (\<lambda>i. \<not> writable st i) (t_issues s)"
  proof (rule replace_row_filtered_out)
    fix x assume x: "x \<in> set (t_issues s)" "iss_id x = iss_id (saved_row e new)"
    with w have "iss_id x = iss_id i" by (simp add: wrote_def)
    with assms(2) x(1) i(1) id find_issue_member [of s x] have "x = i" by simp
    with i(2) show "\<not> \<not> writable st x" by simp
  next
    from i(2) w show "\<not> \<not> writable st (saved_row e new)" by (simp add: writable_def wrote_def)
  qed
  with w show ?thesis by (simp add: wrote_def keys_replace_row)
qed

lemma bulk_loop_frame:
  "distinct (map iss_id (t_issues s)) \<Longrightarrow> bulk_loop e st dto ids (n, sk, s) = (m, sk', s') \<Longrightarrow>
     filter (\<lambda>i. \<not> writable st i) (t_issues s') = filter (\<lambda>i. \<not> writable st i) (t_issues s)
   \<and> m + length sk' = n + length sk + length ids"
proof (induction ids arbitrary: n sk s)
  case (Cons iid ids)
  show ?case
  proof (cases "bulk_one e st dto iid s")
    case (Inl r)
    with Cons.IH [OF Cons.prems(1), of n "sk @ [(iid, r)]"] Cons.prems(2) show ?thesis by simp
  next
    case (Inr s1)
    from bulk_one_frame [OF this Cons.prems(1)] Cons.prems Inr Cons.IH [of s1 "Suc n" sk]
    show ?thesis by simp
  qed
qed simp

section \<open>Properties of the bulk update\<close>

text \<open>
  The bulk endpoint is no oracle for other tenants. Take two databases
  that agree on the accounts, the grants and the issues on platforms where the caller may
  write, and differ arbitrarily elsewhere: the same call has the same answer in both, with
  the same count, the same skipped ids and the same reasons.
\<close>

theorem bulk_response_blind:
  assumes "same_visible st s s2"
  shows "(case (bulkUpdate e st dto s, bulkUpdate e st dto s2) of
            (Inl err, Inl err2) \<Rightarrow> err = err2
          | (Inr (n, skipped, _), Inr (n2, skipped2, _)) \<Rightarrow> n = n2 \<and> skipped = skipped2
          | _ \<Rightarrow> False)"
proof (cases "scope_is_empty (scopedPlatformIds st)")
  case True
  then show ?thesis by (simp add: bulkUpdate_def)
next
  case False
  obtain n sk t where r1: "bulk_loop e st dto (blk_ids dto) (0, [], s) = (n, sk, t)"
    by (cases "bulk_loop e st dto (blk_ids dto) (0, [], s)")
  obtain n2 sk2 t2 where r2: "bulk_loop e st dto (blk_ids dto) (0, [], s2) = (n2, sk2, t2)"
    by (cases "bulk_loop e st dto (blk_ids dto) (0, [], s2)")
  from bulk_loop_noninterference [OF assms, of e dto "blk_ids dto" 0 "[]"] r1 r2
  have "n = n2" "sk = sk2" by simp_all
  with False r1 r2 show ?thesis
    by (cases "bulk_value_ok e dto") (simp_all add: bulkUpdate_def)
qed

text \<open>
  A bulk update accounts for every id once, as updated or as
  skipped with a reason, and leaves every issue on a platform where the caller has no write
  role exactly as it was.
\<close>

theorem bulk_touches_writable_only:
  assumes "distinct (map iss_id (t_issues s))" and "bulkUpdate e st dto s = Inr (n, skipped, s')"
  shows "n + length skipped = length (blk_ids dto)
     \<and> filter (\<lambda>i. \<not> writable st i) (t_issues s') = filter (\<lambda>i. \<not> writable st i) (t_issues s)"
proof (cases "scope_is_empty (scopedPlatformIds st)")
  case True
  with assms(2) show ?thesis by (auto simp: bulkUpdate_def)
next
  case False
  with assms(2) have "bulk_loop e st dto (blk_ids dto) (0, [], s) = (n, skipped, s')"
    by (auto simp: bulkUpdate_def bind_res_Inr_iff)
  from bulk_loop_frame [OF assms(1) this] show ?thesis by simp
qed

text \<open>
  A staff member whose grants are all WATCHER grants mutates nothing:
  the guard turns the request away on every route that does not opt in for watchers, and
  the bulk endpoint, whatever is sent, updates nothing and leaves the database unchanged.
\<close>

theorem watcher_is_read_only:
  assumes "\<forall>g \<in> set (st_roles st). gr_role g = WATCHER"
  shows "\<not> is_ok (platform_guard None (Some st) pid s)
     \<and> \<not> is_ok (platform_guard (Some STAFF_WRITE_ROLES) (Some st) pid s)
     \<and> (case bulkUpdate e st dto s of Inl _ \<Rightarrow> True
        | Inr (n, skipped, s') \<Rightarrow> n = 0 \<and> s' = s \<and> map fst skipped = blk_ids dto)"
proof -
  have nw: "\<not> canAccessPlatform st p STAFF_WRITE_ROLES" for p
    using assms by (intro watcher_has_no_write) blast
  have nr: "\<not> list_ex (\<lambda>g. gr_role g \<in> set STAFF_WRITE_ROLES) (st_roles st)"
    using assms by (fastforce simp: list_ex_iff STAFF_WRITE_ROLES_def)
  have loop: "\<exists>sk'. bulk_loop e st dto ids (n, sk, s) = (n, sk @ sk', s) \<and> map fst sk' = ids" for ids n sk
  proof (induction ids arbitrary: sk)
    case (Cons iid ids)
    have "\<exists>r. bulk_one e st dto iid s = Inl r"
      by (cases "find_issue iid s") (simp_all add: bulk_one_def loadForWrite_def nw)
    then obtain r where r: "bulk_one e st dto iid s = Inl r" ..
    from Cons.IH [of "sk @ [(iid, r)]"] r show ?case by auto
  qed simp
  from loop [of "blk_ids dto" 0 "[]"] show ?thesis
    by (cases "bulk_value_ok e dto")
      (auto simp: platform_guard_def bulkUpdate_def nw nr comp_def is_ok_iff Let_def split: option.splits)
qed

definition demo_bulk :: bulk_dto where
  "demo_bulk = \<lparr>blk_ids = [''i1'', ''i2'', ''none''], blk_op = OP_STATUS, blk_value = Some ''IN_PROGRESS''\<rparr>"

lemma demo_db_distinct: "distinct (map iss_id (t_issues demo_db))"
  by (simp add: demo_defs)

lemma demo_bulk_run:
  "\<exists>s'. bulkUpdate plain_env dev_staff demo_bulk demo_db =
     Inr (1, [(''i2'', NOT_VISIBLE_REASON), (''none'', NOT_VISIBLE_REASON)], s')"
proof -
  let ?i = "sample_issue ''i1'' ''p1'' NEW"
  have i1: "find_issue ''i1'' demo_db = Some ?i" and i2: "find_issue ''i2'' demo_db = Some (sample_issue ''i2'' ''p2'' NEW)"
    and none: "find_issue ''none'' demo_db = None"
    by (simp_all add: demo_defs find_issue_def by_key_Cons)
  obtain s1 where ap: "applyStatus plain_env dev_staff ?i IN_PROGRESS (Some 1) demo_db = Inr s1"
    using demo_change_ok i1 by (auto simp: changeStatus_def loadForWrite_def)
  have id: "iss_id ?i = ''i1''" and ver: "iss_version ?i = 1" and pl: "iss_platform ?i = ''p1''"
    by (simp_all add: sample_issue_def)
  have frame: "find_issue k s1 = find_issue k demo_db" if "k \<noteq> ''i1''" for k
    using applyStatus_wrote [of ?i demo_db, OF _ ap] wrote_find [of ?i demo_db] i1 id that by auto
  have acc: "canAccessPlatform dev_staff ''p1'' STAFF_WRITE_ROLES" "\<not> canAccessPlatform dev_staff ''p2'' STAFF_WRITE_ROLES"
    by (simp_all add: canAccessPlatform_def dev_staff_def STAFF_WRITE_ROLES_def)
  have ip: "status_of_name ''IN_PROGRESS'' = Some IN_PROGRESS"
    by (simp add: status_of_name_def all_statuses_def)
  have dto: "blk_op demo_bulk = OP_STATUS" "blk_value demo_bulk = Some ''IN_PROGRESS''"
    "blk_ids demo_bulk = [''i1'', ''i2'', ''none'']" by (simp_all add: demo_bulk_def)
  have o1: "bulk_one plain_env dev_staff demo_bulk ''i1'' demo_db = Inr s1"
    by (simp add: bulk_one_def loadForWrite_def i1 pl acc bulk_apply_def dto ip ver ap)
  have o2: "bulk_one plain_env dev_staff demo_bulk ''i2'' s1 = Inl NOT_VISIBLE_REASON"
    by (simp add: bulk_one_def loadForWrite_def frame i2 acc sample_issue_def)
  have o3: "bulk_one plain_env dev_staff demo_bulk ''none'' s1 = Inl NOT_VISIBLE_REASON"
    by (simp add: bulk_one_def loadForWrite_def frame none skip_reason_def)
  have sc: "\<not> scope_is_empty (scopedPlatformIds dev_staff)"
    by (simp add: scopedPlatformIds_def dev_staff_def List.map_filter_def js_set_def)
  show ?thesis
    by (simp add: bulkUpdate_def sc bulk_value_ok_def dto ip o1 o2 o3)
qed

theorem bulk_response_blind_witness:
  "\<exists>n skipped s' s2'. bulkUpdate plain_env dev_staff demo_bulk demo_db = Inr (n, skipped, s')
     \<and> bulkUpdate plain_env dev_staff demo_bulk
         (demo_db\<lparr>t_issues := [sample_issue ''i1'' ''p1'' NEW, sample_issue ''none'' ''p2'' NEW]\<rparr>)
       = Inr (n, skipped, s2')"
proof -
  let ?s2 = "demo_db\<lparr>t_issues := [sample_issue ''i1'' ''p1'' NEW, sample_issue ''none'' ''p2'' NEW]\<rparr>"
  have v: "same_visible dev_staff demo_db ?s2"
    by (simp add: same_visible_def demo_defs writable_def canAccessPlatform_def STAFF_WRITE_ROLES_def)
  from bulk_response_blind [OF v, where e = plain_env and dto = demo_bulk] demo_bulk_run show ?thesis
    by (auto split: sum.splits)
qed

theorem bulk_touches_writable_only_witness:
  "\<exists>s'. bulkUpdate plain_env dev_staff demo_bulk demo_db =
     Inr (1, [(''i2'', NOT_VISIBLE_REASON), (''none'', NOT_VISIBLE_REASON)], s')
     \<and> sample_issue ''i2'' ''p2'' NEW \<in> set (t_issues s')"
proof -
  obtain s' where r: "bulkUpdate plain_env dev_staff demo_bulk demo_db =
     Inr (1, [(''i2'', NOT_VISIBLE_REASON), (''none'', NOT_VISIBLE_REASON)], s')"
    using demo_bulk_run ..
  have "sample_issue ''i2'' ''p2'' NEW \<in> set (filter (\<lambda>i. \<not> writable dev_staff i) (t_issues demo_db))"
    by (simp add: demo_defs writable_def canAccessPlatform_def)
  also have "filter (\<lambda>i. \<not> writable dev_staff i) (t_issues demo_db) = filter (\<lambda>i. \<not> writable dev_staff i) (t_issues s')"
    using bulk_touches_writable_only [OF demo_db_distinct r] by simp
  finally have "sample_issue ''i2'' ''p2'' NEW \<in> set (t_issues s')" by simp
  with r show ?thesis by blast
qed

definition watcher_staff :: auth_staff where
  "watcher_staff = \<lparr>st_id = ''wat'', st_idp_subject = ''local:wat@x.org'', st_name = ''wat'',
     st_email = ''wat@x.org'', st_roles = [\<lparr>gr_role = WATCHER, gr_platform = Some ''p1''\<rparr>]\<rparr>"

theorem watcher_is_read_only_witness:
  "\<not> is_ok (platform_guard None (Some watcher_staff) (Some ''i1'') demo_db)"
proof -
  have "\<forall>g \<in> set (st_roles watcher_staff). gr_role g = WATCHER" by (simp add: watcher_staff_def)
  from watcher_is_read_only [OF this, where pid = "Some ''i1''" and s = demo_db] show ?thesis by blast
qed

end
