(* ===== verification/SearchTerms.thy ===== *)
theory SearchTerms
  imports JsString
begin

text \<open>
  Text search: the prefix query built for the full-text engine
  (\<^verbatim>\<open>src/issues/search-terms.ts\<close>), SQL pattern matching with its escape character, and
  the escaping that makes user input match literally (\<^verbatim>\<open>searchParams\<close> of
  \<^verbatim>\<open>src/issues/issues.service.ts\<close>). The full-text engine itself is a parameter where it
  is used.
\<close>

section \<open>Prefix queries\<close>

definition is_term_char :: "char \<Rightarrow> bool" where
  "is_term_char c = (is_lower c \<or> is_digit c)"

definition prefix_terms :: "string \<Rightarrow> string list" where
  "prefix_terms q = filter (\<lambda>t. t \<noteq> []) (map (filter is_term_char) (split_ws (js_lower (js_trim q))))"

definition buildPrefixTsQuery :: "string \<Rightarrow> string" where
  "buildPrefixTsQuery q = join_with '' & '' (map (\<lambda>t. t @ '':*'') (prefix_terms q))"

section \<open>LIKE and ILIKE\<close>

function (sequential) like_match :: "string \<Rightarrow> string \<Rightarrow> bool" where
  "like_match [] s = (s = [])"
| "like_match (p # ps) s =
     (if p = CHR ''%'' then
        (case s of [] \<Rightarrow> like_match ps [] | c # cs \<Rightarrow> like_match ps s \<or> like_match (p # ps) cs)
      else if p = CHR 0x5C then
        (case ps of [] \<Rightarrow> False
         | q # qs \<Rightarrow> (case s of [] \<Rightarrow> False | c # cs \<Rightarrow> c = q \<and> like_match qs cs))
      else if p = CHR ''_'' then (case s of [] \<Rightarrow> False | c # cs \<Rightarrow> like_match ps cs)
      else (case s of [] \<Rightarrow> False | c # cs \<Rightarrow> c = p \<and> like_match ps cs))"
  by pat_completeness auto
termination
  by (relation "measure (\<lambda>(p, s). length p + length s)") auto

definition ilike :: "string \<Rightarrow> string \<Rightarrow> bool" where
  "ilike p s = like_match (js_lower p) (js_lower s)"

definition is_like_meta :: "char \<Rightarrow> bool" where
  "is_like_meta c = (c = CHR 0x5C \<or> c = CHR ''%'' \<or> c = CHR ''_'')"

definition like_escape :: "string \<Rightarrow> string" where
  "like_escape q = concat (map (\<lambda>c. if is_like_meta c then [CHR 0x5C, c] else [c]) q)"

definition like_contains :: "string \<Rightarrow> string" where
  "like_contains q = CHR ''%'' # like_escape q @ ''%''"

text \<open>\<^verbatim>\<open>searchParams\<close>: the full-text query and the pattern on the reference number.\<close>

definition searchParams :: "string \<Rightarrow> string \<times> string" where
  "searchParams q = (let raw = js_trim q in (buildPrefixTsQuery raw, like_contains raw))"

section \<open>Facts\<close>

lemma like_percent: "like_match (CHR ''%'' # ps) s \<longleftrightarrow> (\<exists>u t. s = u @ t \<and> like_match ps t)"
proof (induction s)
  case Nil
  show ?case by simp
next
  case (Cons c cs)
  have "like_match (CHR ''%'' # ps) (c # cs) \<longleftrightarrow> like_match ps (c # cs) \<or> like_match (CHR ''%'' # ps) cs"
    by simp
  also have "\<dots> \<longleftrightarrow> (\<exists>u t. c # cs = u @ t \<and> like_match ps t)"
  proof
    assume "like_match ps (c # cs) \<or> like_match (CHR ''%'' # ps) cs"
    then show "\<exists>u t. c # cs = u @ t \<and> like_match ps t"
    proof
      assume "like_match ps (c # cs)"
      then show ?thesis by (metis append_Nil)
    next
      assume "like_match (CHR ''%'' # ps) cs"
      with Cons obtain u t where "cs = u @ t" "like_match ps t" by auto
      then show ?thesis by (metis append_Cons)
    qed
  next
    assume "\<exists>u t. c # cs = u @ t \<and> like_match ps t"
    then obtain u t where ut: "c # cs = u @ t" "like_match ps t" by blast
    show "like_match ps (c # cs) \<or> like_match (CHR ''%'' # ps) cs"
    proof (cases u)
      case Nil
      with ut show ?thesis by simp
    next
      case (Cons d ds)
      with ut Cons.IH show ?thesis by auto
    qed
  qed
  finally show ?case .
qed

lemma like_escape_literal:
  "like_match (like_escape q @ ps) s \<longleftrightarrow> (\<exists>t. s = q @ t \<and> like_match ps t)"
proof (induction q arbitrary: s)
  case Nil
  show ?case by (simp add: like_escape_def)
next
  case (Cons c q)
  have step: "like_match (like_escape (c # q) @ ps) s \<longleftrightarrow>
      (\<exists>cs. s = c # cs \<and> like_match (like_escape q @ ps) cs)"
    by (cases s) (auto simp: like_escape_def is_like_meta_def)
  show ?case unfolding step Cons.IH by auto
qed

lemma like_all [simp]: "like_match ''%'' s"
  using like_percent [of "[]" s] by (auto intro: exI [of _ s])

lemma has_sub_iff: "has_sub p s \<longleftrightarrow> (\<exists>u t. s = u @ p @ t)"
proof (induction s)
  case Nil
  show ?case by auto
next
  case (Cons c cs)
  show ?case
  proof
    assume "has_sub p (c # cs)"
    then show "\<exists>u t. c # cs = u @ p @ t"
    proof (simp, elim disjE)
      assume "starts_with p (c # cs)"
      then obtain t where "c # cs = p @ t" by (auto dest: starts_withD)
      then show ?thesis by (metis append_Nil)
    next
      assume "has_sub p cs"
      with Cons obtain u t where "cs = u @ p @ t" by auto
      then show ?thesis by (metis append_Cons)
    qed
  next
    assume "\<exists>u t. c # cs = u @ p @ t"
    then obtain u t where ut: "c # cs = u @ p @ t" by blast
    show "has_sub p (c # cs)"
    proof (cases u)
      case Nil
      with ut have "take (length p) (c # cs) = p" by simp
      then show ?thesis by (simp add: starts_with_def)
    next
      case (Cons d ds)
      with ut Cons.IH show ?thesis by auto
    qed
  qed
qed

lemma lower_char_meta: "is_like_meta (lower_char c) \<longleftrightarrow> is_like_meta c"
proof -
  have m: "is_like_meta d \<longleftrightarrow> code d \<in> {92, 37, 95}" for d
    by (simp add: is_like_meta_def char_eq_code code_def)
  show ?thesis unfolding m code_lower_char by auto
qed

lemma lower_like_escape: "js_lower (like_escape q) = like_escape (js_lower q)"
proof (induction q)
  case (Cons c q)
  have "lower_char CHR 0x5C = CHR 0x5C" by (simp add: lower_char_def code_def)
  with Cons show ?case by (simp add: js_lower_def like_escape_def lower_char_meta)
qed (simp add: js_lower_def like_escape_def)

section \<open>Properties\<close>

text \<open>
  The reference-number search matches the typed text literally.
  Whatever the query contains (per cent signs, underscores, backslashes included), the
  pattern built from it matches a reference number exactly when the trimmed query occurs in
  it, up to case: nobody scans the whole number space by searching for a wildcard.
\<close>

theorem reference_search_literal:
  "ilike (snd (searchParams q)) ref = has_sub (js_lower (js_trim q)) (js_lower ref)"
proof -
  have "lower_char CHR ''%'' = CHR ''%''" by (simp add: lower_char_def code_def)
  then have "ilike (snd (searchParams q)) ref =
      like_match (CHR ''%'' # like_escape (js_lower (js_trim q)) @ ''%'') (js_lower ref)"
    using lower_like_escape [of "js_trim q"]
    by (simp add: ilike_def searchParams_def like_contains_def js_lower_def Let_def)
  also have "\<dots> = (\<exists>u t. js_lower ref = u @ js_lower (js_trim q) @ t)"
    unfolding like_percent like_escape_literal by auto
  finally show ?thesis unfolding has_sub_iff .
qed

end
