(* ===== verification/Jql.thy ===== *)
theory Jql
  imports Entities SearchTerms "HOL-Library.Sublist"
begin

text \<open>
  The filter language of saved views (\<^verbatim>\<open>src/issues/jql.ts\<close>): tokenizer, parser with its
  field table and messages, and the meaning of a filter as a predicate on an issue joined
  with its platform, assignee, reporter and labels. \<^verbatim>\<open>Date.parse\<close>, the date reader of the
  database and the full-text engine are parameters. U+2014 in one message is written as the
  unit 0x97.
\<close>

section \<open>Tokens\<close>

datatype jql_op = OpEq | OpNe | OpLike | OpGe | OpLe | OpIn

fun op_text :: "jql_op \<Rightarrow> string" where
  "op_text OpEq = ''=''"
| "op_text OpNe = ''!=''"
| "op_text OpLike = ''~''"
| "op_text OpGe = ''>=''"
| "op_text OpLe = ''<=''"
| "op_text OpIn = ''IN''"

datatype jql_token = TWord string | TString string | TOp jql_op | TLparen | TRparen | TComma

fun tok_value :: "jql_token \<Rightarrow> string" where
  "tok_value (TWord w) = w"
| "tok_value (TString w) = w"
| "tok_value (TOp p) = op_text p"
| "tok_value TLparen = ''(''"
| "tok_value TRparen = '')''"
| "tok_value TComma = '',''"

definition DQ :: char where
  "DQ = CHR 0x22"

definition word_char :: "char \<Rightarrow> bool" where
  "word_char c = (\<not> is_ws c \<and> c \<noteq> CHR ''('' \<and> c \<noteq> CHR '')'' \<and> c \<noteq> CHR '','' \<and> c \<noteq> DQ)"

text \<open>
  The alternatives of the regular expression in order at each position: a quoted string, an
  operator, a parenthesis, a comma, a word; a character none of them starts at (white space,
  a quote never closed) is skipped by the global search.
\<close>

function (sequential) tokenize :: "string \<Rightarrow> jql_token list" where
  "tokenize [] = []"
| "tokenize (c # cs) =
     (if c = DQ then
        (if DQ \<in> set cs
         then TString (takeWhile (\<lambda>x. x \<noteq> DQ) cs) # tokenize (tl (dropWhile (\<lambda>x. x \<noteq> DQ) cs))
         else tokenize cs)
      else if c = CHR ''!'' \<and> take 1 cs = ''='' then TOp OpNe # tokenize (tl cs)
      else if c = CHR ''>'' \<and> take 1 cs = ''='' then TOp OpGe # tokenize (tl cs)
      else if c = CHR ''<'' \<and> take 1 cs = ''='' then TOp OpLe # tokenize (tl cs)
      else if c = CHR ''='' then TOp OpEq # tokenize cs
      else if c = CHR ''~'' then TOp OpLike # tokenize cs
      else if c = CHR ''('' then TLparen # tokenize cs
      else if c = CHR '')'' then TRparen # tokenize cs
      else if c = CHR '','' then TComma # tokenize cs
      else if word_char c then TWord (c # takeWhile word_char cs) # tokenize (dropWhile word_char cs)
      else tokenize cs)"
  by pat_completeness auto
termination
  by (relation "measure length")
    (auto simp: less_Suc_eq_le length_dropWhile_le intro: le_trans [OF diff_le_self length_dropWhile_le])

section \<open>Fields\<close>

record jql_spec =
  sp_ops :: "jql_op list"
  sp_enum :: "string list option"
  sp_date :: bool

definition spec_of :: "jql_op list \<Rightarrow> string list option \<Rightarrow> bool \<Rightarrow> jql_spec" where
  "spec_of ops en dt = \<lparr>sp_ops = ops, sp_enum = en, sp_date = dt\<rparr>"

definition FIELDS :: "(string \<times> jql_spec) list" where
  "FIELDS =
    [(''status'', spec_of [OpEq, OpNe, OpIn] (Some (map status_name all_statuses)) False),
     (''priority'', spec_of [OpEq, OpNe, OpIn] (Some (map priority_name all_priorities)) False),
     (''platform'', spec_of [OpEq, OpNe, OpIn] None False),
     (''assignee'', spec_of [OpEq, OpNe, OpLike, OpIn] None False),
     (''reporter'', spec_of [OpEq, OpNe, OpLike] None False),
     (''label'', spec_of [OpEq, OpNe, OpIn] None False),
     (''created'', spec_of [OpGe, OpLe] None True),
     (''updated'', spec_of [OpGe, OpLe] None True),
     (''text'', spec_of [OpLike] None False)]"

text \<open>
  \<^verbatim>\<open>FIELDS[field]\<close> also finds the members every object inherits: they are truthy values
  without \<^verbatim>\<open>ops\<close>, and reading \<^verbatim>\<open>spec.ops.includes\<close> raises a TypeError.
\<close>

definition inherited_member :: "string \<Rightarrow> bool" where
  "inherited_member f = (f \<in> set OBJECT_MEMBERS)"

record jql_filter =
  jf_field :: string
  jf_op :: jql_op
  jf_values :: "string list"

section \<open>Parser\<close>

definition bad :: "string \<Rightarrow> 'a res" where
  "bad m = Inl (BadRequest (''JQL: '' @ m))"

definition in_quotes :: "string \<Rightarrow> string" where
  "in_quotes s = [DQ] @ s @ [DQ]"

text \<open>\<^verbatim>\<open>/^\d{4}-\d{2}-\d{2}([T ].*)?$/\<close>; the dot matches no line terminator.\<close>

definition iso_shape :: "string \<Rightarrow> bool" where
  "iso_shape s =
     (length s \<ge> 10 \<and> list_all is_digit (take 4 s) \<and> s ! 4 = CHR ''-''
      \<and> list_all is_digit (take 2 (drop 5 s)) \<and> s ! 7 = CHR ''-''
      \<and> list_all is_digit (take 2 (drop 8 s))
      \<and> (case drop 10 s of [] \<Rightarrow> True
         | c # cs \<Rightarrow> (c = CHR ''T'' \<or> c = CHR '' '') \<and> list_all (\<lambda>x. code x \<noteq> 10 \<and> code x \<noteq> 13) cs))"

definition normalizeValue :: "(string \<Rightarrow> time option) \<Rightarrow> string \<Rightarrow> jql_spec \<Rightarrow> string \<Rightarrow> string res" where
  "normalizeValue date_parse field spec raw =
     (case sp_enum spec of
        Some vals \<Rightarrow>
          (if js_upper raw \<notin> set vals
           then bad (in_quotes raw @ '' is not a valid '' @ field @ ''. Valid values: ''
                     @ join_with '', '' vals @ ''.'')
           else Inr (js_upper raw))
      | None \<Rightarrow>
          (if sp_date spec \<and> (\<not> iso_shape raw \<or> date_parse raw = None)
           then bad (field @ '' expects an ISO date (YYYY-MM-DD), got '' @ in_quotes raw @ ''.'')
           else Inr raw))"

fun value_token :: "jql_token \<Rightarrow> string option" where
  "value_token (TWord w) = Some w"
| "value_token (TString w) = Some w"
| "value_token _ = None"

fun parse_in_list ::
  "(string \<Rightarrow> time option) \<Rightarrow> string \<Rightarrow> jql_spec \<Rightarrow> jql_token list \<Rightarrow> (string list \<times> jql_token list) res" where
  "parse_in_list dp field spec [] = bad (''expected a value in the '' @ field @ '' IN list.'')"
| "parse_in_list dp field spec (t # ts) =
     (case value_token t of
        None \<Rightarrow> bad (''expected a value in the '' @ field @ '' IN list.'')
      | Some raw \<Rightarrow>
          bind_res (normalizeValue dp field spec raw) (\<lambda>v.
            (case ts of
               TRparen # rest \<Rightarrow> Inr ([v], rest)
             | TComma # rest \<Rightarrow>
                 bind_res (parse_in_list dp field spec rest) (\<lambda>(vs, rest'). Inr (v # vs, rest'))
             | _ \<Rightarrow> bad (''expected '' @ in_quotes '','' @ '' or '' @ in_quotes '')''
                        @ '' in the '' @ field @ '' IN list.''))))"

definition op_of_token :: "jql_token \<Rightarrow> jql_op option" where
  "op_of_token t =
     (case t of TOp p \<Rightarrow> Some p
      | TWord w \<Rightarrow> (if js_lower w = ''in'' then Some OpIn else None)
      | _ \<Rightarrow> None)"

definition parse_values ::
  "(string \<Rightarrow> time option) \<Rightarrow> string \<Rightarrow> jql_spec \<Rightarrow> jql_op \<Rightarrow> jql_token list
     \<Rightarrow> (string list \<times> jql_token list) res" where
  "parse_values dp field spec p ts =
     (if p = OpIn then
        (case ts of
           TLparen # rest \<Rightarrow> parse_in_list dp field spec rest
         | _ \<Rightarrow> bad (''IN for '' @ field @ '' expects a parenthesized list, e.g. '' @ field @ '' IN (a, b).''))
      else
        (case ts of
           [] \<Rightarrow> bad (''expected a value after '' @ in_quotes (field @ '' '' @ op_text p)
                     @ ''. Quote values containing spaces.'')
         | t # rest \<Rightarrow>
             (case value_token t of
                None \<Rightarrow> bad (''expected a value after '' @ in_quotes (field @ '' '' @ op_text p)
                     @ ''. Quote values containing spaces.'')
              | Some raw \<Rightarrow> bind_res (normalizeValue dp field spec raw) (\<lambda>v. Inr ([v], rest)))))"

definition parse_clause ::
  "(string \<Rightarrow> time option) \<Rightarrow> jql_token list \<Rightarrow> (jql_filter \<times> jql_token list) res" where
  "parse_clause dp ts =
     (case ts of
        [] \<Rightarrow> bad ''expected a field name at end of query.''
      | TWord w # ts1 \<Rightarrow>
          (let field = js_lower w in
           (if map_of FIELDS field = None \<and> \<not> inherited_member field
            then bad (''Unknown field '' @ in_quotes w @ ''. Fields: '' @ join_with '', '' (map fst FIELDS) @ ''.'')
            else (case ts1 of
              [] \<Rightarrow> bad (''expected an operator after '' @ in_quotes field @ ''.'')
            | t2 # ts2 \<Rightarrow>
               (case op_of_token t2 of
                  None \<Rightarrow> bad (''expected an operator after '' @ in_quotes field @ '', got ''
                              @ in_quotes (tok_value t2) @ ''.'')
                | Some p \<Rightarrow>
                    (case map_of FIELDS field of
                       None \<Rightarrow> Inl (InternalError ''Internal server error'')
                     | Some spec \<Rightarrow>
                         (if p \<notin> set (sp_ops spec)
                          then bad (''Operator '' @ in_quotes (op_text p) @ '' is not valid for '' @ field
                             @ ''. Allowed: '' @ join_with '' '' (map op_text (sp_ops spec)) @ ''.'')
                          else bind_res (parse_values dp field spec p ts2) (\<lambda>(vs, rest).
                             Inr (\<lparr>jf_field = field, jf_op = p, jf_values = vs\<rparr>, rest))))))))
      | t # _ \<Rightarrow> bad (''expected a field name near '' @ in_quotes (tok_value t) @ ''.''))"

lemma parse_in_list_step:
  assumes "parse_in_list dp field spec ts = Inr (vs, rest)"
  shows "\<exists>t raw v. value_token t = Some raw \<and> normalizeValue dp field spec raw = Inr v
    \<and> (ts = t # TRparen # rest \<and> vs = [v]
       \<or> (\<exists>r vs1. ts = t # TComma # r \<and> parse_in_list dp field spec r = Inr (vs1, rest) \<and> vs = v # vs1))"
proof (cases ts)
  case Nil
  with assms show ?thesis by (simp add: bad_def)
next
  case (Cons t ts')
  with assms obtain raw v where tv: "value_token t = Some raw" "normalizeValue dp field spec raw = Inr v"
    and k: "(case ts' of
               TRparen # rest \<Rightarrow> Inr ([v], rest)
             | TComma # rest \<Rightarrow>
                 bind_res (parse_in_list dp field spec rest) (\<lambda>(vs, rest'). Inr (v # vs, rest'))
             | _ \<Rightarrow> bad (''expected '' @ in_quotes '','' @ '' or '' @ in_quotes '')''
                        @ '' in the '' @ field @ '' IN list.'')) = Inr (vs, rest)"
    by (auto simp: bad_def bind_res_Inr_iff split: option.splits)
  from k Cons have "(ts = t # TRparen # rest \<and> vs = [v])
       \<or> (\<exists>r vs1. ts = t # TComma # r \<and> parse_in_list dp field spec r = Inr (vs1, rest) \<and> vs = v # vs1)"
    by (cases ts'; cases "hd ts'") (auto simp: bad_def bind_res_Inr_iff)
  with tv show ?thesis by blast
qed

lemma parse_in_list_shorter:
  "parse_in_list dp field spec ts = Inr (vs, rest) \<Longrightarrow> length rest < length ts"
proof (induction ts arbitrary: vs rest rule: length_induct)
  case (1 ts)
  from parse_in_list_step [OF 1(2)] show ?case
  proof (elim exE conjE disjE)
    fix t raw v r vs1
    assume "ts = t # TComma # r" "parse_in_list dp field spec r = Inr (vs1, rest)"
    with 1(1) show ?thesis by (metis length_Cons less_SucI lessI less_trans)
  qed simp_all
qed

lemma parse_clause_shorter: "parse_clause dp ts = Inr (f, rest) \<Longrightarrow> length rest < length ts"
  by (auto simp: parse_clause_def parse_values_def bad_def Let_def bind_res_Inr_iff
      dest: parse_in_list_shorter split: list.splits jql_token.splits option.splits if_splits)

lemma bind_res_cong [fundef_cong]:
  "m = m' \<Longrightarrow> (\<And>x. m' = Inr x \<Longrightarrow> f x = g x) \<Longrightarrow> bind_res m f = bind_res m' g"
  by (cases m') auto

function parse_clauses :: "(string \<Rightarrow> time option) \<Rightarrow> jql_token list \<Rightarrow> (jql_filter list) res" where
  "parse_clauses dp ts =
     bind_res (parse_clause dp ts) (\<lambda>(f, rest).
       (case rest of
          [] \<Rightarrow> Inr [f]
        | TWord w # rest' \<Rightarrow>
            (if js_lower w = ''and'' then
               (if rest' = [] then bad ''dangling AND at end of query.''
                else bind_res (parse_clauses dp rest') (\<lambda>fs. Inr (f # fs)))
             else if js_lower w = ''or'' then bad ''OR is not supported (filters are AND-only for now).''
             else bad (''unexpected '' @ in_quotes w @ '' '' @ [char_of (151::nat)] @ '' clauses are joined with AND.''))
        | t # _ \<Rightarrow> bad (''unexpected '' @ in_quotes (tok_value t) @ '' '' @ [char_of (151::nat)]
                       @ '' clauses are joined with AND.'')))"
  by pat_completeness auto
termination
  by (relation "measure (length \<circ> snd)") (auto dest!: parse_clause_shorter)

declare parse_clauses.simps [simp del]

definition parseJql :: "(string \<Rightarrow> time option) \<Rightarrow> string \<Rightarrow> (jql_filter list) res" where
  "parseJql dp input =
     (if js_trim input = '''' then bad ''empty query.'' else parse_clauses dp (tokenize input))"

lemma parse_in_list_rest: "parse_in_list dp field spec ts = Inr (vs, rest) \<Longrightarrow> suffix rest ts"
proof (induction ts arbitrary: vs rest rule: length_induct)
  case (1 ts)
  from parse_in_list_step [OF 1(2)] show ?case
  proof (elim exE conjE disjE)
    fix t raw v r vs1
    assume s: "ts = t # TComma # r" "parse_in_list dp field spec r = Inr (vs1, rest)"
    then have "length r < length ts" by simp
    with 1(1) s(2) have "suffix rest r" by blast
    with s(1) show ?thesis by (simp add: suffix_ConsI)
  qed (simp add: suffix_ConsI)
qed

lemma parse_clause_rest: "parse_clause dp ts = Inr (f, rest) \<Longrightarrow> suffix rest ts"
  by (auto simp: parse_clause_def parse_values_def bad_def Let_def bind_res_Inr_iff
      intro: suffix_ConsI dest!: parse_in_list_rest split: list.splits jql_token.splits option.splits if_splits)

section \<open>Well-formed filters\<close>

definition filter_ok :: "(string \<Rightarrow> time option) \<Rightarrow> jql_filter \<Rightarrow> bool" where
  "filter_ok dp f =
     (case map_of FIELDS (jf_field f) of
        None \<Rightarrow> False
      | Some spec \<Rightarrow> jf_op f \<in> set (sp_ops spec) \<and> jf_values f \<noteq> []
          \<and> (jf_op f \<noteq> OpIn \<longrightarrow> length (jf_values f) = 1)
          \<and> list_all (\<lambda>v. case sp_enum spec of
               Some vals \<Rightarrow> v \<in> set vals
             | None \<Rightarrow> sp_date spec \<longrightarrow> iso_shape v \<and> dp v \<noteq> None) (jf_values f))"

lemma normalizeValue_ok:
  "normalizeValue dp field spec raw = Inr v \<Longrightarrow>
     (case sp_enum spec of Some vals \<Rightarrow> v \<in> set vals | None \<Rightarrow> sp_date spec \<longrightarrow> iso_shape v \<and> dp v \<noteq> None)"
  by (auto simp: normalizeValue_def bad_def split: option.splits if_splits)

lemma parse_in_list_ok:
  "parse_in_list dp field spec ts = Inr (vs, rest) \<Longrightarrow> vs \<noteq> [] \<and>
     list_all (\<lambda>v. case sp_enum spec of
               Some vals \<Rightarrow> v \<in> set vals
             | None \<Rightarrow> sp_date spec \<longrightarrow> iso_shape v \<and> dp v \<noteq> None) vs"
proof (induction ts arbitrary: vs rest rule: length_induct)
  case (1 ts)
  from parse_in_list_step [OF 1(2)] show ?case
  proof (elim exE conjE disjE)
    fix t raw v r vs1
    assume s: "ts = t # TComma # r" "parse_in_list dp field spec r = Inr (vs1, rest)" "vs = v # vs1"
      and n: "normalizeValue dp field spec raw = Inr v"
    from s(1) have "length r < length ts" by simp
    with 1(1) s(2) have "list_all (\<lambda>v. case sp_enum spec of
               Some vals \<Rightarrow> v \<in> set vals
             | None \<Rightarrow> sp_date spec \<longrightarrow> iso_shape v \<and> dp v \<noteq> None) vs1" by blast
    with s(3) normalizeValue_ok [OF n] show ?thesis by simp
  next
    fix t raw v
    assume "normalizeValue dp field spec raw = Inr v" and v: "vs = [v]"
    from normalizeValue_ok [OF this(1)] v show ?thesis by simp
  qed
qed

lemma parse_clause_ok:
  assumes "parse_clause dp ts = Inr (f, rest)"
  shows "filter_ok dp f"
proof -
  from assms obtain field p spec ts2 vs where
    f: "map_of FIELDS field = Some spec" "p \<in> set (sp_ops spec)"
      "parse_values dp field spec p ts2 = Inr (vs, rest)" "f = \<lparr>jf_field = field, jf_op = p, jf_values = vs\<rparr>"
    by (auto simp: parse_clause_def bad_def Let_def bind_res_Inr_iff
        split: list.splits jql_token.splits option.splits if_splits)
  show ?thesis
  proof (cases "p = OpIn")
    case True
    with f(3) obtain r where "parse_in_list dp field spec r = Inr (vs, rest)"
      by (auto simp: parse_values_def bad_def split: list.splits jql_token.splits)
    from parse_in_list_ok [OF this] f True show ?thesis by (simp add: filter_ok_def)
  next
    case False
    with f(3) obtain raw v where "normalizeValue dp field spec raw = Inr v" "vs = [v]"
      by (auto simp: parse_values_def bad_def bind_res_Inr_iff split: list.splits option.splits)
    from normalizeValue_ok [OF this(1)] this(2) f False show ?thesis by (simp add: filter_ok_def)
  qed
qed

lemma parse_clauses_ok:
  "parse_clauses dp ts = Inr fs \<Longrightarrow> fs \<noteq> [] \<and> list_all (filter_ok dp) fs"
proof (induction dp ts arbitrary: fs rule: parse_clauses.induct)
  case (1 dp ts)
  from 1(2) obtain f rest where c: "parse_clause dp ts = Inr (f, rest)"
    by (subst (asm) parse_clauses.simps) (auto simp: bind_res_Inr_iff)
  from 1(2) c consider "fs = [f]" | w rest' fs' where "rest = TWord w # rest'" "js_lower w = ''and''" "rest' \<noteq> []"
      "parse_clauses dp rest' = Inr fs'" "fs = f # fs'"
    by (subst (asm) parse_clauses.simps)
      (auto simp: bind_res_Inr_iff bad_def split: list.splits jql_token.splits if_splits)
  then show ?case
  proof cases
    case 1
    with parse_clause_ok [OF c] show ?thesis by simp
  next
    case 2
    with 1(1) [OF c refl 2(1) refl 2(2,3)] parse_clause_ok [OF c] show ?thesis by simp
  qed
qed

text \<open>Every failure of the parser that is not a 400 comes from an inherited member.\<close>

lemma parse_in_list_errors:
  "parse_in_list dp field spec ts = Inl err \<Longrightarrow> \<exists>m. err = BadRequest m"
proof (induction ts arbitrary: err rule: length_induct)
  case (1 ts)
  show ?case
  proof (cases ts)
    case Nil
    with 1(2) show ?thesis by (auto simp: bad_def)
  next
    case (Cons t ts')
    with 1(2) consider m where "err = BadRequest m" | r where "ts' = TComma # r" "parse_in_list dp field spec r = Inl err"
      by (cases ts'; cases "hd ts'")
        (auto simp: bad_def bind_res_Inl_iff normalizeValue_def split: option.splits if_splits)
    then show ?thesis
    proof cases
      case 2
      with Cons 1(1) show ?thesis by (metis length_Cons less_SucI lessI)
    qed blast
  qed
qed

lemma parse_clause_errors:
  assumes "parse_clause dp ts = Inl err"
  shows "(\<exists>m. err = BadRequest m)
    \<or> (\<exists>w ts'. ts = TWord w # ts' \<and> inherited_member (js_lower w) \<and> err = InternalError ''Internal server error'')"
  using assms
  by (auto simp: parse_clause_def parse_values_def bad_def Let_def bind_res_Inl_iff normalizeValue_def
      dest: parse_in_list_errors split: list.splits jql_token.splits option.splits if_splits)
lemma parse_clauses_errors:
  "parse_clauses dp ts = Inl err \<Longrightarrow>
     (\<exists>m. err = BadRequest m)
   \<or> (err = InternalError ''Internal server error'' \<and> (\<exists>w. TWord w \<in> set ts \<and> inherited_member (js_lower w)))"
proof (induction dp ts arbitrary: err rule: parse_clauses.induct)
  case (1 dp ts)
  show ?case
  proof (cases "parse_clause dp ts")
    case (Inl err')
    with 1(2) have "err' = err" by (subst (asm) parse_clauses.simps) simp
    with parse_clause_errors [OF Inl] show ?thesis by auto
  next
    case (Inr p)
    obtain f rest where p: "p = (f, rest)" by (cases p)
    note c = Inr [unfolded p]
    from 1(2) c consider m where "err = BadRequest m" | w rest' where "rest = TWord w # rest'" "js_lower w = ''and''"
        "rest' \<noteq> []" "parse_clauses dp rest' = Inl err"
      by (subst (asm) parse_clauses.simps)
        (auto simp: bind_res_Inl_iff bad_def split: list.splits jql_token.splits if_splits)
    then show ?thesis
    proof cases
      case 2
      from parse_clause_rest [OF c] 2(1) have "suffix (TWord w # rest') ts" by simp
      from set_mono_suffix [OF this] have "set rest' \<subseteq> set ts" by simp
      with 1(1) [OF c refl 2(1) refl 2(2,3) 2(4)] show ?thesis by blast
    qed blast
  qed
qed

section \<open>Printing\<close>

text \<open>A query text for a list of filters: every value quoted, clauses joined with AND.\<close>

definition op_token :: "jql_op \<Rightarrow> jql_token" where
  "op_token p = (if p = OpIn then TWord ''IN'' else TOp p)"

fun value_tokens :: "string list \<Rightarrow> jql_token list" where
  "value_tokens [] = [TRparen]"
| "value_tokens [v] = [TString v, TRparen]"
| "value_tokens (v # w # vs) = TString v # TComma # value_tokens (w # vs)"

fun render_values :: "string list \<Rightarrow> string" where
  "render_values [] = '')''"
| "render_values [v] = in_quotes v @ '')''"
| "render_values (v # w # vs) = in_quotes v @ '','' @ render_values (w # vs)"

definition render_filter :: "jql_filter \<Rightarrow> string" where
  "render_filter f = jf_field f @ '' '' @ op_text (jf_op f) @ '' '' @
     (if jf_op f = OpIn then ''('' @ render_values (jf_values f) else in_quotes (hd (jf_values f)))"

fun render_jql :: "jql_filter list \<Rightarrow> string" where
  "render_jql [] = []"
| "render_jql [f] = render_filter f"
| "render_jql (f # g # fs) = render_filter f @ '' AND '' @ render_jql (g # fs)"

definition filter_tokens :: "jql_filter \<Rightarrow> jql_token list" where
  "filter_tokens f = TWord (jf_field f) # op_token (jf_op f) #
     (if jf_op f = OpIn then TLparen # value_tokens (jf_values f) else [TString (hd (jf_values f))])"

lemma takeWhile_until: "list_all P w \<Longrightarrow> \<not> P c \<Longrightarrow> takeWhile P (w @ c # s) = w \<and> dropWhile P (w @ c # s) = c # s"
  by (induction w) auto

definition plain_word :: "string \<Rightarrow> bool" where
  "plain_word w = (w \<noteq> [] \<and> list_all word_char w \<and> hd w \<notin> {CHR ''!'', CHR ''>'', CHR ''<'', CHR ''='', CHR ''~''})"

lemma word_char_specials [simp]:
  "\<not> word_char DQ" "\<not> word_char CHR ''(''" "\<not> word_char CHR '')''" "\<not> word_char CHR '',''" "\<not> word_char CHR '' ''"
  by (simp_all add: word_char_def DQ_def is_ws_def code_def Let_def)

lemma specials_distinct [simp]:
  "CHR ''('' \<noteq> DQ" "CHR '')'' \<noteq> DQ" "CHR '','' \<noteq> DQ" "CHR '' '' \<noteq> DQ" "CHR ''='' \<noteq> DQ" "CHR ''~'' \<noteq> DQ"
  "CHR ''!'' \<noteq> DQ" "CHR ''>'' \<noteq> DQ" "CHR ''<'' \<noteq> DQ"
  by (simp_all add: DQ_def)

lemma tokenize_space [simp]: "tokenize (CHR '' '' # s) = tokenize s"
  by simp

lemma tokenize_word:
  assumes "plain_word w"
  shows "tokenize (w @ CHR '' '' # s) = TWord w # tokenize s"
proof -
  obtain c cs where w: "w = c # cs" using assms by (cases w) (auto simp: plain_word_def)
  with assms have c: "word_char c" "list_all word_char cs"
    "c \<notin> {CHR ''!'', CHR ''>'', CHR ''<'', CHR ''='', CHR ''~''}" by (auto simp: plain_word_def)
  from c(1) have "c \<noteq> DQ" "c \<noteq> CHR ''(''" "c \<noteq> CHR '')''" "c \<noteq> CHR '',''" by (auto simp: word_char_def)
  with c takeWhile_until [OF c(2), of "CHR '' ''" s] show ?thesis
    by (simp add: w)
qed

lemma tokenize_quoted:
  assumes "DQ \<notin> set v"
  shows "tokenize (in_quotes v @ s) = TString v # tokenize s"
proof -
  have "takeWhile (\<lambda>x. x \<noteq> DQ) (v @ DQ # s) = v \<and> dropWhile (\<lambda>x. x \<noteq> DQ) (v @ DQ # s) = DQ # s"
    using assms by (intro takeWhile_until) (auto simp: list_all_iff)
  then show ?thesis by (simp add: in_quotes_def)
qed

lemma tokenize_op: "tokenize (op_text p @ CHR '' '' # s) = op_token p # tokenize s"
proof (cases "p = OpIn")
  case True
  have "plain_word ''IN''" by (simp add: plain_word_def word_char_def is_ws_def code_def DQ_def Let_def)
  from tokenize_word [OF this, of s] True show ?thesis by (simp add: op_token_def del: tokenize.simps)
next
  case False
  then show ?thesis by (cases p) (simp_all add: op_token_def)
qed

lemma tokenize_values:
  "vs \<noteq> [] \<Longrightarrow> list_all (\<lambda>v. DQ \<notin> set v) vs \<Longrightarrow> tokenize (render_values vs @ s) = value_tokens vs @ tokenize s"
  by (induction vs rule: render_values.induct) (simp_all add: tokenize_quoted [simplified append.assoc])

lemma field_words: "map_of FIELDS f = Some spec \<Longrightarrow> plain_word f"
  by (auto simp: FIELDS_def plain_word_def word_char_def is_ws_def code_def DQ_def Let_def split: if_splits)

lemma field_lower: "map_of FIELDS f = Some spec \<Longrightarrow> js_lower f = f"
  by (auto simp: FIELDS_def js_lower_def lower_char_def code_def Let_def split: if_splits)

lemma tokenize_filter:
  assumes "filter_ok dp f" and "list_all (\<lambda>v. DQ \<notin> set v) (jf_values f)"
  shows "tokenize (render_filter f @ s) = filter_tokens f @ tokenize s"
proof -
  from assms(1) obtain spec where sp: "map_of FIELDS (jf_field f) = Some spec" and ne: "jf_values f \<noteq> []"
    by (auto simp: filter_ok_def split: option.splits)
  from ne assms(2) have hd: "DQ \<notin> set (hd (jf_values f))" by (cases "jf_values f") auto
  have "tokenize (render_filter f @ s) = TWord (jf_field f) # op_token (jf_op f) #
     tokenize ((if jf_op f = OpIn then ''('' @ render_values (jf_values f) else in_quotes (hd (jf_values f))) @ s)"
    unfolding render_filter_def
    by (simp only: append.assoc append_Cons append_Nil tokenize_word [OF field_words [OF sp]] tokenize_op)
  also have "\<dots> = filter_tokens f @ tokenize s"
    using tokenize_values [OF ne assms(2), of s] tokenize_quoted [OF hd, of s]
    by (cases "jf_op f = OpIn") (simp_all add: filter_tokens_def)
  finally show ?thesis .
qed

lemma enum_upper: "map_of FIELDS f = Some spec \<Longrightarrow> sp_enum spec = Some vals \<Longrightarrow> v \<in> set vals \<Longrightarrow> js_upper v = v"
  by (auto simp: FIELDS_def spec_of_def all_statuses_def all_priorities_def js_upper_def upper_char_def code_def Let_def
      split: if_splits)

definition value_ok :: "(string \<Rightarrow> time option) \<Rightarrow> jql_spec \<Rightarrow> string \<Rightarrow> bool" where
  "value_ok dp spec v = (case sp_enum spec of Some vals \<Rightarrow> v \<in> set vals | None \<Rightarrow> sp_date spec \<longrightarrow> iso_shape v \<and> dp v \<noteq> None)"

lemma filter_ok_values:
  "filter_ok dp f = (case map_of FIELDS (jf_field f) of
        None \<Rightarrow> False
      | Some spec \<Rightarrow> jf_op f \<in> set (sp_ops spec) \<and> jf_values f \<noteq> []
          \<and> (jf_op f \<noteq> OpIn \<longrightarrow> length (jf_values f) = 1) \<and> list_all (value_ok dp spec) (jf_values f))"
  unfolding filter_ok_def value_ok_def [abs_def] by (rule refl)

lemma normalize_fixed:
  "map_of FIELDS field = Some spec \<Longrightarrow> value_ok dp spec v \<Longrightarrow> normalizeValue dp field spec v = Inr v"
  by (auto simp: value_ok_def normalizeValue_def dest: enum_upper split: option.splits)

lemma parse_value_tokens:
  assumes "map_of FIELDS field = Some spec"
  shows "vs \<noteq> [] \<Longrightarrow> list_all (value_ok dp spec) vs \<Longrightarrow>
     parse_in_list dp field spec (value_tokens vs @ rest) = Inr (vs, rest)"
  by (induction vs rule: value_tokens.induct) (simp_all add: normalize_fixed [OF assms])

lemma in_lower: "js_lower ''IN'' = ''in''"
  by code_simp

lemma parse_filter_tokens:
  assumes "filter_ok dp f"
  shows "parse_clause dp (filter_tokens f @ rest) = Inr (f, rest)"
proof -
  from assms obtain spec where sp: "map_of FIELDS (jf_field f) = Some spec"
    and ok: "jf_op f \<in> set (sp_ops spec)" "jf_values f \<noteq> []"
      "jf_op f \<noteq> OpIn \<longrightarrow> length (jf_values f) = 1" "list_all (value_ok dp spec) (jf_values f)"
    by (auto simp: filter_ok_values split: option.splits)
  note low = field_lower [OF sp]
  have opt: "op_of_token (op_token (jf_op f)) = Some (jf_op f)"
    by (simp add: op_of_token_def op_token_def in_lower)
  have vals: "parse_values dp (jf_field f) spec (jf_op f)
      ((if jf_op f = OpIn then TLparen # value_tokens (jf_values f) else [TString (hd (jf_values f))]) @ rest)
      = Inr (jf_values f, rest)"
  proof (cases "jf_op f = OpIn")
    case True
    with ok show ?thesis by (simp add: parse_values_def parse_value_tokens [OF sp])
  next
    case False
    with ok(3) obtain v where "jf_values f = [v]" by (cases "jf_values f") auto
    with ok False show ?thesis by (simp add: parse_values_def normalize_fixed [OF sp])
  qed
  show ?thesis
    using ok(1) vals by (simp add: filter_tokens_def parse_clause_def low sp opt Let_def)
qed

lemma tokenize_render:
  "fs \<noteq> [] \<Longrightarrow> list_all (filter_ok dp) fs \<Longrightarrow> list_all (\<lambda>f. list_all (\<lambda>v. DQ \<notin> set v) (jf_values f)) fs \<Longrightarrow>
     tokenize (render_jql fs) = concat (map (\<lambda>f. filter_tokens f @ [TWord ''AND'']) (butlast fs)) @ filter_tokens (last fs)"
proof (induction fs rule: render_jql.induct)
  case (2 f)
  then show ?case using tokenize_filter [of dp f "[]"] by simp
next
  case (3 f g fs)
  have aw: "plain_word ''AND''"
    by (simp add: plain_word_def word_char_def is_ws_def code_def DQ_def Let_def)
  have "tokenize ('' AND '' @ render_jql (g # fs)) = TWord ''AND'' # tokenize (render_jql (g # fs))"
    using tokenize_word [OF aw, of "render_jql (g # fs)"] by (simp del: tokenize.simps add: tokenize_space)
  with 3 tokenize_filter [of dp f "'' AND '' @ render_jql (g # fs)"] show ?case
    by (simp del: tokenize.simps)
qed simp

lemma filter_tokens_ne [simp]: "filter_tokens f \<noteq> []"
  by (simp add: filter_tokens_def)

lemma parse_rendered_tokens:
  "fs \<noteq> [] \<Longrightarrow> list_all (filter_ok dp) fs \<Longrightarrow>
     parse_clauses dp (concat (map (\<lambda>f. filter_tokens f @ [TWord ''AND'']) (butlast fs)) @ filter_tokens (last fs)) = Inr fs"
proof (induction fs rule: render_jql.induct)
  case (2 f)
  then show ?case using parse_filter_tokens [of dp f "[]"] by (subst parse_clauses.simps) simp
next
  case (3 f g fs)
  have lw: "js_lower ''AND'' = ''and''" by code_simp
  have ne: "concat (map (\<lambda>f. filter_tokens f @ [TWord ''AND'']) (butlast (g # fs))) @ filter_tokens (last (g # fs)) \<noteq> []"
    by simp
  from 3 show ?case
    using parse_filter_tokens [of dp f] lw ne by (subst parse_clauses.simps) simp
qed simp

lemma js_trim_nonempty: "c \<in> set s \<Longrightarrow> \<not> is_ws c \<Longrightarrow> js_trim s \<noteq> []"
proof -
  assume c: "c \<in> set s" "\<not> is_ws c"
  then have d: "c \<in> set (dropWhile is_ws s)" using set_takeWhileD [of c is_ws s] takeWhile_dropWhile_id [of is_ws s]
    by (metis Un_iff set_append)
  then have "c \<in> set (dropWhile is_ws (rev (dropWhile is_ws s)))"
    using c(2) set_takeWhileD [of c is_ws "rev (dropWhile is_ws s)"] takeWhile_dropWhile_id [of is_ws "rev (dropWhile is_ws s)"]
    by (metis Un_iff set_append set_rev)
  then have "dropWhile is_ws (rev (dropWhile is_ws s)) \<noteq> []" by (metis empty_iff list.set(1))
  then show ?thesis unfolding js_trim_def js_trim_end_def js_trim_start_def by simp
qed

lemma render_jql_nonblank:
  assumes "fs \<noteq> []" and "list_all (filter_ok dp) fs"
  shows "js_trim (render_jql fs) \<noteq> []"
proof -
  obtain f gs where fs: "fs = f # gs" using assms(1) by (cases fs) auto
  with assms(2) obtain spec where "map_of FIELDS (jf_field f) = Some spec"
    by (auto simp: filter_ok_def split: option.splits)
  then have w: "plain_word (jf_field f)" by (rule field_words)
  then obtain c cs where c: "jf_field f = c # cs" by (cases "jf_field f") (auto simp: plain_word_def)
  with w have "\<not> is_ws c" by (auto simp: plain_word_def word_char_def)
  moreover have "c \<in> set (render_jql fs)"
    by (cases gs) (simp_all add: fs render_filter_def c)
  ultimately show ?thesis by (rule js_trim_nonempty [rotated])
qed

section \<open>Properties\<close>

text \<open>
  C19: What the parser accepts is well formed: at least one clause,
  each on a known field with an operator of that field, one value unless the operator is
  IN (then at least one), statuses and priorities spelled like the enumerations, dates of
  the ISO shape. The translation to SQL therefore never meets a field it does not know.
\<close>

theorem jql_parses_to_well_formed:
  assumes "parseJql dp input = Inr fs"
  shows "fs \<noteq> [] \<and> list_all (filter_ok dp) fs"
  using assms parse_clauses_ok by (auto simp: parseJql_def bad_def split: if_splits)

text \<open>
  C20: Every well-formed list of filters can be written down: printing it (values
  quoted, clauses joined with AND) and parsing the text gives the list back, as long as no
  value contains the quote character, which the grammar cannot express.
\<close>

theorem jql_roundtrip:
  assumes "fs \<noteq> []" and "list_all (filter_ok dp) fs"
    and "list_all (\<lambda>f. list_all (\<lambda>v. DQ \<notin> set v) (jf_values f)) fs"
  shows "parseJql dp (render_jql fs) = Inr fs"
  using render_jql_nonblank [OF assms(1,2)] tokenize_render [OF assms] parse_rendered_tokens [OF assms(1,2)]
  by (simp add: parseJql_def)

text \<open>
  A query the parser refuses is answered with a 400 unless one of its
  words is the name of a member every object inherits; with such a word in field position it
  is answered with an internal error, because the field table is an object literal.
\<close>

theorem jql_errors_are_400s:
  assumes "parseJql dp input = Inl err"
  shows "(\<exists>m. err = BadRequest m)
     \<or> (err = InternalError ''Internal server error''
        \<and> (\<exists>w. TWord w \<in> set (tokenize input) \<and> inherited_member (js_lower w)))"
  using assms parse_clauses_errors by (auto simp: parseJql_def bad_def split: if_splits)

theorem jql_errors_are_400s_witness:
  "\<exists>err. parseJql (\<lambda>_. None) ''constructor = x'' = Inl err \<and> \<not> (\<exists>m. err = BadRequest m)
     \<and> err = InternalError ''Internal server error''"
proof -
  have t: "tokenize ''constructor = x'' = [TWord ''constructor'', TOp OpEq, TWord ''x'']"
    by (simp add: DQ_def word_char_def is_ws_def code_def Let_def)
  have r: "parseJql (\<lambda>_. None) ''constructor = x'' = Inl (InternalError ''Internal server error'')"
    unfolding parseJql_def t
    by (subst parse_clauses.simps)
      (simp add: js_trim_def js_trim_start_def js_trim_end_def is_ws_def code_def parse_clause_def js_lower_def
        lower_char_def FIELDS_def inherited_member_def OBJECT_MEMBERS_def op_of_token_def Let_def)
  from jql_errors_are_400s [OF r] r show ?thesis by auto
qed

definition demo_filters :: "jql_filter list" where
  "demo_filters =
     [\<lparr>jf_field = ''status'', jf_op = OpIn, jf_values = [''NEW'', ''REOPENED'']\<rparr>,
      \<lparr>jf_field = ''text'', jf_op = OpLike, jf_values = [''login error'']\<rparr>]"

lemma demo_filters_ok: "list_all (filter_ok (\<lambda>_. None)) demo_filters"
  by (simp add: demo_filters_def filter_ok_def FIELDS_def spec_of_def all_statuses_def)

theorem jql_roundtrip_witness: "parseJql (\<lambda>_. None) (render_jql demo_filters) = Inr demo_filters"
  by (rule jql_roundtrip) (simp_all add: demo_filters_ok, simp_all add: demo_filters_def DQ_def)

theorem jql_parses_to_well_formed_witness:
  "\<exists>fs. parseJql (\<lambda>_. None) ''priority != low'' = Inr fs \<and> fs \<noteq> [] \<and> list_all (filter_ok (\<lambda>_. None)) fs"
proof -
  have t: "tokenize ''priority != low'' = [TWord ''priority'', TOp OpNe, TWord ''low'']"
    by (simp add: DQ_def word_char_def is_ws_def code_def Let_def)
  have u: "js_upper ''low'' = ''LOW''" by code_simp
  have r: "parseJql (\<lambda>_. None) ''priority != low'' = Inr [\<lparr>jf_field = ''priority'', jf_op = OpNe, jf_values = [''LOW'']\<rparr>]"
    unfolding parseJql_def t
    by (subst parse_clauses.simps)
      (simp add: js_trim_def js_trim_start_def js_trim_end_def is_ws_def code_def parse_clause_def js_lower_def
        lower_char_def FIELDS_def op_of_token_def Let_def spec_of_def parse_values_def normalizeValue_def
        all_priorities_def u)
  from jql_parses_to_well_formed [OF r] r show ?thesis by blast
qed

end
