(* ===== verification/IssuesQuery.thy ===== *)
theory IssuesQuery
  imports Issues Jql "HOL-Library.List_Lexorder" "HOL-Library.Char_ord" "HOL-Library.Product_Lexorder" "HOL-Library.Multiset"
begin

text \<open>
  The read side of \<^verbatim>\<open>src/issues/issues.service.ts\<close>: the scoped list query with its
  filters, search and paging, the export, the assignee and member pickers, and the meaning
  of JQL filters (\<^verbatim>\<open>applyJqlFilters\<close> of \<^verbatim>\<open>src/issues/jql.ts\<close>). The full-text engine and the order in which
  the database returns rows are parameters: of the latter only what ORDER BY promises is used.
\<close>

section \<open>Joined rows\<close>

record joined =
  j_issue :: issue
  j_platform :: "platform option"
  j_reporter :: "reporter option"
  j_assignee :: "staff_user option"
  j_labels :: "string list"

definition join_issue :: "db \<Rightarrow> issue \<Rightarrow> joined" where
  "join_issue s i =
     \<lparr>j_issue = i,
      j_platform = find_platform (iss_platform i) s,
      j_reporter = by_key rep_id (iss_reporter i) (t_reporters s),
      j_assignee = (case iss_assignee i of None \<Rightarrow> None | Some a \<Rightarrow> find_staff a s),
      j_labels = List.map_filter (\<lambda>il. if il_issue il = iss_id i
          then map_option lab_name (by_key lab_id (il_label il) (t_labels s)) else None) (t_issue_labels s)\<rparr>"

text \<open>The parts of the database engine the queries use.\<close>

record engine =
  fts_match :: "string \<Rightarrow> issue \<Rightarrow> bool"
  fts_has_vector :: "issue \<Rightarrow> bool"
  fts_rank :: "string \<Rightarrow> issue \<Rightarrow> rat"
  pg_time :: "string \<Rightarrow> time option"
  pg_order :: "(issue \<Rightarrow> rat \<times> int \<times> string) \<Rightarrow> issue list \<Rightarrow> issue list"
  js_date_parse :: "string \<Rightarrow> time option"

section \<open>JQL filters as predicates\<close>

text \<open>A comparison with NULL is not true: it selects nothing.\<close>

definition assignee_filter :: "ident \<Rightarrow> jql_op \<Rightarrow> string list \<Rightarrow> staff_user option \<Rightarrow> bool" where
  "assignee_filter me p vals a =
     (let v = js_lower (hd vals) in
      if p = OpLike then
        (case a of None \<Rightarrow> False | Some u \<Rightarrow> ilike (''%'' @ hd vals @ ''%'') (su_name u))
      else if p = OpIn then
        (case a of None \<Rightarrow> False | Some u \<Rightarrow> js_lower (su_name u) \<in> set (map js_lower vals))
      else if v = ''me'' then
        (if p = OpEq then (case a of None \<Rightarrow> False | Some u \<Rightarrow> su_id u = me)
         else (case a of None \<Rightarrow> True | Some u \<Rightarrow> su_id u \<noteq> me))
      else if v = ''unassigned'' then (if p = OpEq then a = None else a \<noteq> None)
      else (if p = OpEq then (case a of None \<Rightarrow> False | Some u \<Rightarrow> js_lower (su_name u) = v)
            else (case a of None \<Rightarrow> True | Some u \<Rightarrow> js_lower (su_name u) \<noteq> v)))"

definition reporter_filter :: "jql_op \<Rightarrow> string list \<Rightarrow> reporter option \<Rightarrow> bool" where
  "reporter_filter p vals r =
     (case r of None \<Rightarrow> False
      | Some u \<Rightarrow>
         (if p = OpLike then ilike (''%'' @ hd vals @ ''%'') (rep_name u) \<or> ilike (''%'' @ hd vals @ ''%'') (rep_email u)
          else if p = OpEq then js_lower (rep_name u) = js_lower (hd vals) \<or> js_lower (rep_email u) = js_lower (hd vals)
          else js_lower (rep_name u) \<noteq> js_lower (hd vals) \<and> js_lower (rep_email u) \<noteq> js_lower (hd vals)))"

definition text_filter :: "engine \<Rightarrow> string \<Rightarrow> issue \<Rightarrow> bool" where
  "text_filter eng v i =
     (let tsq = buildPrefixTsQuery v; like = like_contains v in
      if tsq \<noteq> '''' then
        ilike like (iss_reference_no i) \<or> (fts_has_vector eng i \<and> fts_match eng tsq i)
        \<or> (\<not> fts_has_vector eng i \<and> ilike like (iss_description i))
      else ilike like (iss_reference_no i) \<or> ilike like (iss_description i))"

definition enum_filter :: "jql_op \<Rightarrow> string list \<Rightarrow> string \<Rightarrow> bool" where
  "enum_filter p vals v =
     (if p = OpIn then v \<in> set vals else if p = OpEq then v = hd vals else v \<noteq> hd vals)"

definition date_filter :: "engine \<Rightarrow> jql_op \<Rightarrow> string \<Rightarrow> time \<Rightarrow> bool" where
  "date_filter eng p v t =
     (case pg_time eng v of None \<Rightarrow> False | Some d \<Rightarrow> (if p = OpGe then d \<le> t else t \<le> d))"

definition jql_matches :: "engine \<Rightarrow> ident \<Rightarrow> jql_filter \<Rightarrow> joined \<Rightarrow> bool" where
  "jql_matches eng me f j =
     (let p = jf_op f; vals = jf_values f; fld = jf_field f; i = j_issue j in
      if fld = ''status'' then enum_filter p vals (status_name (iss_status i))
      else if fld = ''priority'' then enum_filter p vals (priority_name (iss_priority i))
      else if fld = ''platform'' then
        (case j_platform j of None \<Rightarrow> False | Some q \<Rightarrow> enum_filter p (map js_lower vals) (plat_key q))
      else if fld = ''assignee'' then assignee_filter me p vals (j_assignee j)
      else if fld = ''reporter'' then reporter_filter p vals (j_reporter j)
      else if fld = ''label'' then
        (let hit = list_ex (\<lambda>l. js_lower l \<in> set (map js_lower vals)) (j_labels j)
         in if p = OpNe then \<not> hit else hit)
      else if fld = ''created'' then date_filter eng p (hd vals) (iss_created_at i)
      else if fld = ''updated'' then date_filter eng p (hd vals) (iss_updated_at i)
      else text_filter eng (hd vals) i)"

text \<open>
  \<^verbatim>\<open>applyJqlFilters\<close>: one condition per filter, the default branch raising for a field it
  does not know.
\<close>

definition applyJqlFilters :: "engine \<Rightarrow> ident \<Rightarrow> jql_filter list \<Rightarrow> (joined \<Rightarrow> bool) res" where
  "applyJqlFilters eng me fs =
     (case List.find (\<lambda>f. map_of FIELDS (jf_field f) = None) fs of
        Some f \<Rightarrow> bad (''Unknown field '' @ in_quotes (jf_field f) @ ''.'')
      | None \<Rightarrow> Inr (\<lambda>j. list_all (\<lambda>f. jql_matches eng me f j) fs))"

section \<open>The list query\<close>

datatype sort_field = SORT_CREATED | SORT_UPDATED | SORT_PRIORITY | SORT_STATUS
datatype sort_order = ORDER_ASC | ORDER_DESC

record list_dto =
  ld_platform :: "ident option"
  ld_status :: "issue_status option"
  ld_priority :: "priority option"
  ld_assignee :: "ident option"
  ld_q :: "string option"
  ld_jql :: "string option"
  ld_from :: "time option"
  ld_to :: "time option"
  ld_page :: nat
  ld_page_size :: nat
  ld_sort :: sort_field
  ld_order :: sort_order

definition search_condition :: "engine \<Rightarrow> string \<Rightarrow> issue \<Rightarrow> bool" where
  "search_condition eng q i =
     (case searchParams q of (tsq, likeRef) \<Rightarrow>
        ilike likeRef (iss_reference_no i) \<or> (tsq \<noteq> '''' \<and> fts_match eng tsq i))"

definition plain_conditions :: "engine \<Rightarrow> list_dto \<Rightarrow> joined \<Rightarrow> bool" where
  "plain_conditions eng dto j =
     (let i = j_issue j in
      (case truthy (ld_platform dto) of None \<Rightarrow> True | Some p \<Rightarrow> iss_platform i = p)
    \<and> (case ld_status dto of None \<Rightarrow> True | Some x \<Rightarrow> iss_status i = x)
    \<and> (case ld_priority dto of None \<Rightarrow> True | Some x \<Rightarrow> iss_priority i = x)
    \<and> (case truthy (ld_assignee dto) of None \<Rightarrow> True
       | Some a \<Rightarrow> (case j_assignee j of None \<Rightarrow> False | Some u \<Rightarrow> su_id u = a))
    \<and> (case ld_from dto of None \<Rightarrow> True | Some t \<Rightarrow> t \<le> iss_created_at i)
    \<and> (case ld_to dto of None \<Rightarrow> True | Some t \<Rightarrow> iss_created_at i \<le> t)
    \<and> (case truthy (ld_q dto) of None \<Rightarrow> True | Some q \<Rightarrow> search_condition eng q i))"

definition buildListQuery :: "engine \<Rightarrow> auth_staff \<Rightarrow> list_dto \<Rightarrow> scope \<Rightarrow> (joined \<Rightarrow> bool) res" where
  "buildListQuery eng st dto sc =
     bind_res
       (case truthy (ld_jql dto) of
          None \<Rightarrow> Inr (\<lambda>_. True)
        | Some q \<Rightarrow> bind_res (parseJql (js_date_parse eng) q) (\<lambda>fs. applyJqlFilters eng (st_id st) fs))
       (\<lambda>jql_cond. Inr (\<lambda>j. scopeAllows sc (iss_platform (j_issue j)) \<and> plain_conditions eng dto j \<and> jql_cond j))"

definition matching_issues :: "(joined \<Rightarrow> bool) \<Rightarrow> db \<Rightarrow> issue list" where
  "matching_issues cond s = filter (\<lambda>i. cond (join_issue s i)) (t_issues s)"

fun index_of :: "'a \<Rightarrow> 'a list \<Rightarrow> nat" where
  "index_of x [] = 0"
| "index_of x (y # ys) = (if x = y then 0 else Suc (index_of x ys))"

definition sort_value :: "sort_field \<Rightarrow> issue \<Rightarrow> int" where
  "sort_value f i =
     (case f of
        SORT_CREATED \<Rightarrow> iss_created_at i
      | SORT_UPDATED \<Rightarrow> iss_updated_at i
      | SORT_PRIORITY \<Rightarrow> int (index_of (iss_priority i) all_priorities)
      | SORT_STATUS \<Rightarrow> int (index_of (iss_status i) all_statuses))"

definition directed :: "sort_order \<Rightarrow> int \<Rightarrow> int" where
  "directed ord v = (if ord = ORDER_ASC then v else - v)"

text \<open>ORDER BY of the list: relevance when there are search terms, the requested field, the id.\<close>

definition list_key :: "engine \<Rightarrow> list_dto \<Rightarrow> issue \<Rightarrow> rat \<times> int \<times> string" where
  "list_key eng dto i =
     (let tsq = (case truthy (ld_q dto) of None \<Rightarrow> '''' | Some q \<Rightarrow> fst (searchParams q)) in
      (if tsq \<noteq> '''' then - fts_rank eng tsq i else 0, directed (ld_order dto) (sort_value (ld_sort dto) i), iss_id i))"

text \<open>ORDER BY of the export: the requested field only.\<close>

definition export_key :: "list_dto \<Rightarrow> issue \<Rightarrow> rat \<times> int \<times> string" where
  "export_key dto i = (0, directed (ld_order dto) (sort_value (ld_sort dto) i), '''')"

definition EXPORT_MAX_ROWS :: nat where
  "EXPORT_MAX_ROWS = 50000"

definition preview :: "nat \<Rightarrow> string \<Rightarrow> string" where
  "preview n text =
     (let oneLine = js_trim (collapse_ws text) in
      if length oneLine > n then js_trim_end (take n oneLine) @ ellipsis else oneLine)"

record list_item =
  li_id :: ident
  li_reference_no :: string
  li_status :: issue_status
  li_priority :: priority
  li_version :: int
  li_preview :: string
  li_created_at :: time
  li_updated_at :: time
  li_sla :: "time \<times> sla_state option"
  li_platform :: "(ident \<times> string \<times> string) option"
  li_reporter :: "(ident \<times> string) option"
  li_assignee :: "(ident \<times> string) option"

definition toListItem :: "env \<Rightarrow> db \<Rightarrow> issue \<Rightarrow> list_item res" where
  "toListItem e s i =
     (let j = join_issue s i in
      bind_res (computeSla e i (platform_policy s i) (now e)) (\<lambda>sla.
        Inr \<lparr>li_id = iss_id i, li_reference_no = iss_reference_no i, li_status = iss_status i,
          li_priority = iss_priority i, li_version = iss_version i, li_preview = preview 140 (iss_description i),
          li_created_at = iss_created_at i, li_updated_at = iss_updated_at i, li_sla = sla,
          li_platform = map_option (\<lambda>p. (plat_id p, plat_key p, plat_name p)) (j_platform j),
          li_reporter = map_option (\<lambda>r. (rep_id r, rep_name r)) (j_reporter j),
          li_assignee = map_option (\<lambda>u. (su_id u, su_name u)) (j_assignee j)\<rparr>))"

fun map_res :: "('a \<Rightarrow> 'b res) \<Rightarrow> 'a list \<Rightarrow> 'b list res" where
  "map_res f [] = Inr []"
| "map_res f (x # xs) = bind_res (f x) (\<lambda>y. bind_res (map_res f xs) (\<lambda>ys. Inr (y # ys)))"

text \<open>\<^verbatim>\<open>list_rows\<close> is the page of rows and the total \<^verbatim>\<open>getManyAndCount\<close> returns.\<close>

definition list_rows :: "engine \<Rightarrow> auth_staff \<Rightarrow> list_dto \<Rightarrow> db \<Rightarrow> (issue list \<times> nat) res" where
  "list_rows eng st dto s =
     (let sc = scopedPlatformIds st in
      if scope_is_empty sc then Inr ([], 0)
      else bind_res (buildListQuery eng st dto sc) (\<lambda>cond.
        (let rows = matching_issues cond s in
         Inr (page_of (ld_page dto) (ld_page_size dto) (pg_order eng (list_key eng dto) rows), length rows))))"

definition list_issues ::
  "env \<Rightarrow> engine \<Rightarrow> auth_staff \<Rightarrow> list_dto \<Rightarrow> db \<Rightarrow> (list_item list \<times> nat \<times> nat \<times> nat) res" where
  "list_issues e eng st dto s =
     bind_res (list_rows eng st dto s) (\<lambda>(rows, total).
     bind_res (map_res (toListItem e s) rows) (\<lambda>items.
       Inr (items, total, ld_page dto, ld_page_size dto)))"

definition listAllForExport :: "engine \<Rightarrow> auth_staff \<Rightarrow> list_dto \<Rightarrow> db \<Rightarrow> issue list res" where
  "listAllForExport eng st dto s =
     (let sc = scopedPlatformIds st in
      if scope_is_empty sc then Inr []
      else bind_res (buildListQuery eng st dto sc) (\<lambda>cond.
        Inr (take EXPORT_MAX_ROWS (pg_order eng (export_key dto) (matching_issues cond s)))))"

section \<open>Pickers\<close>

definition listScopedPlatforms :: "auth_staff \<Rightarrow> db \<Rightarrow> (ident \<times> string \<times> string) list" where
  "listScopedPlatforms st s =
     map (\<lambda>p. (plat_id p, plat_key p, plat_name p))
       (sort_key plat_name (filter (\<lambda>p. scopeAllows (scopedPlatformIds st) (plat_id p)) (t_platforms s)))"

text \<open>
  The two pickers join grants with accounts, keep the first row per account and sort by
  name; \<^verbatim>\<open>collate\<close> stands for the collation of \<^verbatim>\<open>localeCompare\<close>.
\<close>

fun first_per_user :: "ident list \<Rightarrow> staff_user list \<Rightarrow> staff_user list" where
  "first_per_user seen [] = []"
| "first_per_user seen (u # us) =
     (if su_id u \<in> set seen then first_per_user seen us else u # first_per_user (su_id u # seen) us)"

definition picker ::
  "(string \<Rightarrow> nat) \<Rightarrow> (user_platform_role \<Rightarrow> bool) \<Rightarrow> ident \<Rightarrow> db \<Rightarrow> (ident \<times> string \<times> string) list res" where
  "picker collate wanted iid s =
     (case find_issue iid s of
        None \<Rightarrow> Inl (NotFound ''Issue not found'')
      | Some i \<Rightarrow> Inr (sort_key (\<lambda>(_, n, _). collate n)
          (map (\<lambda>u. (su_id u, su_name u, su_email u))
            (first_per_user []
              (List.map_filter (\<lambda>g.
                 if wanted g \<and> (upr_platform g = Some (iss_platform i) \<or> upr_platform g = None)
                 then (case find_staff (upr_staff_user g) s of
                         None \<Rightarrow> None
                       | Some u \<Rightarrow> (if su_status u = ACCOUNT_ACTIVE then Some u else None))
                 else None) (t_roles s))))))"

definition listAssignees :: "(string \<Rightarrow> nat) \<Rightarrow> ident \<Rightarrow> db \<Rightarrow> (ident \<times> string \<times> string) list res" where
  "listAssignees collate iid s = picker collate (\<lambda>g. upr_role g = DEVELOPER) iid s"

definition listPlatformMembers :: "(string \<Rightarrow> nat) \<Rightarrow> ident \<Rightarrow> db \<Rightarrow> (ident \<times> string \<times> string) list res" where
  "listPlatformMembers collate iid s = picker collate (\<lambda>g. upr_role g \<noteq> WATCHER) iid s"

section \<open>Facts\<close>

text \<open>What ORDER BY promises: a permutation of the rows, sorted by the key, nothing on ties.\<close>

definition pg_order_ok :: "engine \<Rightarrow> bool" where
  "pg_order_ok eng =
     (\<forall>key rs. mset (pg_order eng key rs) = mset rs \<and> sorted (map key (pg_order eng key rs)))"

lemma pg_order_ok_set: "pg_order_ok eng \<Longrightarrow> set (pg_order eng key rs) = set rs"
  by (metis pg_order_ok_def mset_eq_setD)

lemma sorted_permutation_unique:
  assumes "mset xs = mset ys" and "sorted (map f xs)" and "sorted (map f ys)" and "inj_on f (set xs)"
  shows "xs = ys"
proof -
  from assms(1) have st: "set xs = set ys" by (rule mset_eq_setD)
  from assms(1) have m: "mset (map f xs) = mset (map f ys)" by simp
  have "sort (map f ys) = map f xs" by (rule properties_for_sort [OF m assms(2)])
  moreover have "sort (map f ys) = map f ys" using assms(3) by (rule sorted_sort_id)
  ultimately have "map f xs = map f ys" by simp
  with st assms(4) show ?thesis by (metis Un_absorb map_inj_on)
qed

lemma inj_list_key: "distinct (map iss_id rs) \<Longrightarrow> inj_on (list_key eng dto) (set rs)"
  by (auto simp: inj_on_def list_key_def Let_def distinct_map split: if_splits)

lemma pages_concat: "concat (map (\<lambda>p. page_of p n rs) [1..<Suc k]) = take (k * n) rs"
proof (induction k)
  case (Suc k)
  have "concat (map (\<lambda>p. page_of p n rs) [1..<Suc (Suc k)]) = take (k * n) rs @ page_of (Suc k) n rs"
    using Suc by simp
  also have "\<dots> = take (k * n + n) rs"
    by (simp add: page_of_def take_add)
  finally show ?case by (simp add: add.commute)
qed simp

lemma scope_read:
  "p \<noteq> '''' \<Longrightarrow> scopeAllows (scopedPlatformIds st) p \<Longrightarrow> canAccessPlatform st p STAFF_READ_ROLES"
  by (simp add: staff_scope.allows_scope)

lemma page_subset: "set (page_of p n rs) \<subseteq> set rs"
  by (auto simp: page_of_def dest: in_set_takeD in_set_dropD)

lemma query_condition:
  assumes "buildListQuery eng st dto sc = Inr cond"
  shows "\<exists>extra. cond = (\<lambda>j. scopeAllows sc (iss_platform (j_issue j)) \<and> plain_conditions eng dto j \<and> extra j)"
  using assms by (auto simp: buildListQuery_def bind_res_Inr_iff split: option.splits)

lemma plain_conditions_jql [simp]: "plain_conditions eng (dto\<lparr>ld_jql := q\<rparr>) j = plain_conditions eng dto j"
  by (simp add: plain_conditions_def)

lemma join_issue_issue [simp]: "j_issue (join_issue s i) = i"
  by (simp add: join_issue_def)

section \<open>Properties\<close>

text \<open>What a JQL text asks of a row: that it parses, and that every filter of the parse matches.\<close>

definition jql_satisfied :: "engine \<Rightarrow> ident \<Rightarrow> list_dto \<Rightarrow> joined \<Rightarrow> bool" where
  "jql_satisfied eng me dto j =
     (case truthy (ld_jql dto) of
        None \<Rightarrow> True
      | Some q \<Rightarrow> (case parseJql (js_date_parse eng) q of
                     Inl _ \<Rightarrow> False
                   | Inr fs \<Rightarrow> list_all (\<lambda>f. jql_matches eng me f j) fs))"

lemma query_is_conjunction:
  assumes "buildListQuery eng st dto sc = Inr cond"
  shows "cond j = (scopeAllows sc (iss_platform (j_issue j)) \<and> plain_conditions eng dto j \<and> jql_satisfied eng (st_id st) dto j)"
proof (cases "truthy (ld_jql dto)")
  case None
  with assms show ?thesis by (auto simp: buildListQuery_def jql_satisfied_def)
next
  case (Some q)
  with assms obtain fs where fs: "parseJql (js_date_parse eng) q = Inr fs" and f: "applyJqlFilters eng (st_id st) fs = Inr (\<lambda>j. list_all (\<lambda>f. jql_matches eng (st_id st) f j) fs)"
    and c: "cond = (\<lambda>j. scopeAllows sc (iss_platform (j_issue j)) \<and> plain_conditions eng dto j
       \<and> list_all (\<lambda>f. jql_matches eng (st_id st) f j) fs)"
    by (auto simp: buildListQuery_def bind_res_Inr_iff applyJqlFilters_def bad_def split: option.splits)
  then show ?thesis by (simp add: jql_satisfied_def Some)
qed

lemma length_page: "length (page_of p n rs) = min n (length rs - (p - 1) * n)"
  by (simp add: page_of_def)

text \<open>
  C10: A list request, whatever it filters, searches or queries in JQL,
  returns only stored issues on platforms the caller has a role on, each satisfying every
  plain filter and every filter its JQL text parses to; its total counts all the stored
  issues of which that holds, and the page is as full as that total allows. Without the JQL
  part the same request succeeds with a total at least as large.
\<close>

theorem list_never_leaves_scope:
  assumes "pg_order_ok eng" and "\<forall>i \<in> set (t_issues s). iss_platform i \<noteq> ''''"
    and "list_rows eng st dto s = Inr (rows, tot)"
  shows "(\<forall>i \<in> set rows. i \<in> set (t_issues s) \<and> canAccessPlatform st (iss_platform i) STAFF_READ_ROLES
            \<and> plain_conditions eng dto (join_issue s i) \<and> jql_satisfied eng (st_id st) dto (join_issue s i))
     \<and> tot = length (filter (\<lambda>i. canAccessPlatform st (iss_platform i) STAFF_READ_ROLES
            \<and> plain_conditions eng dto (join_issue s i) \<and> jql_satisfied eng (st_id st) dto (join_issue s i)) (t_issues s))
     \<and> length rows = min (ld_page_size dto) (tot - (ld_page dto - 1) * ld_page_size dto)
     \<and> (\<exists>rows0 tot0. list_rows eng st (dto\<lparr>ld_jql := None\<rparr>) s = Inr (rows0, tot0) \<and> tot \<le> tot0)"
proof (cases "scope_is_empty (scopedPlatformIds st)")
  case True
  have "\<not> canAccessPlatform st (iss_platform i) STAFF_READ_ROLES" if "i \<in> set (t_issues s)" for i
    using True assms(2) that staff_scope.allows_scope [of "iss_platform i" st]
    by (cases "scopedPlatformIds st") auto
  then have "filter (\<lambda>i. canAccessPlatform st (iss_platform i) STAFF_READ_ROLES
            \<and> plain_conditions eng dto (join_issue s i) \<and> jql_satisfied eng (st_id st) dto (join_issue s i)) (t_issues s) = []"
    by (auto simp: filter_empty_conv)
  with True assms(3) show ?thesis by (simp add: list_rows_def)
next
  case False
  from assms(3) False obtain cond where c: "buildListQuery eng st dto (scopedPlatformIds st) = Inr cond"
    and rows: "rows = page_of (ld_page dto) (ld_page_size dto)
        (pg_order eng (list_key eng dto) (matching_issues cond s))"
    and tot: "tot = length (matching_issues cond s)"
    by (auto simp: list_rows_def Let_def bind_res_Inr_iff)
  let ?all = "pg_order eng (list_key eng dto) (matching_issues cond s)"
  let ?hit = "\<lambda>i. canAccessPlatform st (iss_platform i) STAFF_READ_ROLES
            \<and> plain_conditions eng dto (join_issue s i) \<and> jql_satisfied eng (st_id st) dto (join_issue s i)"
  have m: "matching_issues cond s = filter ?hit (t_issues s)"
    unfolding matching_issues_def
    by (rule filter_cong) (use assms(2) staff_scope.allows_scope query_is_conjunction [OF c] in auto)
  have sub: "set rows \<subseteq> set (matching_issues cond s)"
    using page_subset [of "ld_page dto" "ld_page_size dto" ?all] by (simp add: rows pg_order_ok_set [OF assms(1)])
  have "mset ?all = mset (matching_issues cond s)" using assms(1) by (simp add: pg_order_ok_def)
  from mset_eq_length [OF this] have len: "length ?all = tot" by (simp only: tot)
  let ?cond0 = "\<lambda>j. scopeAllows (scopedPlatformIds st) (iss_platform (j_issue j)) \<and> plain_conditions eng dto j"
  have "list_rows eng st (dto\<lparr>ld_jql := None\<rparr>) s =
      Inr (page_of (ld_page dto) (ld_page_size dto)
             (pg_order eng (list_key eng (dto\<lparr>ld_jql := None\<rparr>)) (matching_issues ?cond0 s)),
           length (matching_issues ?cond0 s))"
    using False by (simp add: list_rows_def buildListQuery_def truthy_def Let_def)
  moreover have "tot \<le> length (matching_issues ?cond0 s)"
  proof -
    have "matching_issues cond s = filter (\<lambda>i. jql_satisfied eng (st_id st) dto (join_issue s i)) (matching_issues ?cond0 s)"
      by (auto simp: matching_issues_def query_is_conjunction [OF c] intro: filter_cong)
    then show ?thesis by (simp add: tot)
  qed
  moreover have "length rows = min (ld_page_size dto) (tot - (ld_page dto - 1) * ld_page_size dto)"
    by (simp add: rows length_page len)
  moreover have "\<forall>i \<in> set rows. i \<in> set (t_issues s) \<and> ?hit i" using sub by (auto simp: m)
  moreover have "tot = length (filter ?hit (t_issues s))" by (simp add: tot m)
  ultimately show ?thesis by blast
qed

text \<open>
  C12: Paging neither repeats nor skips. Each page may be answered by the
  database with its own arrangement of equal sort keys; still the pages 1 to n, as soon as
  they have room for the total, list every matching issue exactly once.
\<close>

theorem list_pages_partition:
  assumes "\<forall>p. pg_order_ok (eng\<lparr>pg_order := ord p\<rparr>)" and "distinct (map iss_id (t_issues s))"
    and "buildListQuery eng st dto (scopedPlatformIds st) = Inr cond"
    and "\<forall>p. list_rows (eng\<lparr>pg_order := ord p\<rparr>) st (dto\<lparr>ld_page := p\<rparr>) s = Inr (rows p, tot)"
    and "tot \<le> n * ld_page_size dto"
  shows "distinct (concat (map rows [1..<Suc n]))
     \<and> set (concat (map rows [1..<Suc n])) = set (matching_issues cond s)
     \<and> tot = length (matching_issues cond s)"
proof (cases "scope_is_empty (scopedPlatformIds st)")
  case True
  then have "scopedPlatformIds st = SCOPE_IDS []" by (cases "scopedPlatformIds st") auto
  then have m: "matching_issues cond s = []"
    using query_condition [OF assms(3)] by (auto simp: matching_issues_def)
  from True assms(4) have "rows p = []" "tot = 0" for p by (simp_all add: list_rows_def)
  then have "concat (map rows [1..<Suc n]) = []" unfolding concat_eq_Nil_conv by auto
  with \<open>tot = 0\<close> m show ?thesis by (simp only: list.set(1) distinct.simps list.size(3) simp_thms)
next
  case False
  let ?m = "matching_issues cond s"
  let ?key = "list_key eng dto"
  let ?all = "ord 1 ?key ?m"
  have same: "buildListQuery (eng\<lparr>pg_order := o1\<rparr>) st (dto\<lparr>ld_page := p\<rparr>) sc = buildListQuery eng st dto sc" for o1 p sc
    by (simp add: buildListQuery_def applyJqlFilters_def jql_matches_def [abs_def] text_filter_def date_filter_def
        plain_conditions_def [abs_def] search_condition_def cong: option.case_cong)
  have key: "list_key (eng\<lparr>pg_order := o1\<rparr>) (dto\<lparr>ld_page := p\<rparr>) = ?key" for o1 p
    by (rule ext) (simp add: list_key_def Let_def)
  have ok: "mset (ord p ?key ?m) = mset ?m \<and> sorted (map ?key (ord p ?key ?m))" for p
    using assms(1) by (simp add: pg_order_ok_def)
  have dm: "distinct (map iss_id ?m)" using assms(2) by (simp add: matching_issues_def distinct_map_filter)
  have uniq: "ord p ?key ?m = ?all" for p
  proof (rule sorted_permutation_unique)
    show "mset (ord p ?key ?m) = mset ?all" using ok by simp
    show "sorted (map ?key (ord p ?key ?m))" "sorted (map ?key ?all)" using ok by auto
    have "set (ord p ?key ?m) = set ?m" using ok by (metis mset_eq_setD)
    with inj_list_key [OF dm] show "inj_on ?key (set (ord p ?key ?m))" by simp
  qed
  have rp: "rows p = page_of p (ld_page_size dto) ?all" "tot = length ?m" for p
    using assms(3) spec [OF assms(4), of p] False same [of "ord p" p] key [of "ord p" p] uniq [of p]
    by (auto simp: list_rows_def Let_def)
  have "length ?all = length ?m" using ok mset_eq_length by blast
  then have "concat (map rows [1..<Suc n]) = ?all"
    using pages_concat [of "ld_page_size dto" ?all n] assms(5) rp(2)
    by (simp add: rp(1) [abs_def] cong: map_cong)
  moreover have "distinct ?all" using ok dm by (metis distinct_map mset_eq_imp_distinct_iff)
  moreover have "set ?all = set ?m" using ok by (metis mset_eq_setD)
  ultimately show ?thesis using rp(2) by simp
qed

definition demo_engine :: engine where
  "demo_engine = \<lparr>fts_match = (\<lambda>_ _. False), fts_has_vector = (\<lambda>_. True), fts_rank = (\<lambda>_ _. 0),
     pg_time = (\<lambda>_. None), pg_order = sort_key, js_date_parse = (\<lambda>_. None)\<rparr>"

definition demo_list :: list_dto where
  "demo_list = \<lparr>ld_platform = None, ld_status = None, ld_priority = None, ld_assignee = None, ld_q = None,
     ld_jql = None, ld_from = None, ld_to = None, ld_page = 1, ld_page_size = 1,
     ld_sort = SORT_STATUS, ld_order = ORDER_ASC\<rparr>"

lemma demo_engine_order: "pg_order_ok (demo_engine\<lparr>pg_order := sort_key\<rparr>)" "pg_order_ok demo_engine"
  by (simp_all add: pg_order_ok_def demo_engine_def)

lemma dev_scope: "scopedPlatformIds dev_staff = SCOPE_IDS [''p1'']"
  by (simp add: scopedPlatformIds_def dev_staff_def List.map_filter_def js_set_def)

theorem list_never_leaves_scope_witness:
  "\<exists>rows tot. list_rows demo_engine dev_staff demo_list demo_db = Inr (rows, tot)
     \<and> (\<forall>i \<in> set rows. canAccessPlatform dev_staff (iss_platform i) STAFF_READ_ROLES)"
proof -
  obtain rows tot where r: "list_rows demo_engine dev_staff demo_list demo_db = Inr (rows, tot)"
    by (simp add: list_rows_def dev_scope buildListQuery_def demo_list_def truthy_def Let_def)
  have ne: "\<forall>i \<in> set (t_issues demo_db). iss_platform i \<noteq> ''''" by (simp add: demo_defs)
  from list_never_leaves_scope [OF demo_engine_order(2) ne r] r show ?thesis by blast
qed

theorem list_pages_partition_witness:
  "\<exists>rows cond. (\<forall>p. list_rows demo_engine dev_staff (demo_list\<lparr>ld_page := p\<rparr>) demo_db = Inr (rows p, 1))
     \<and> buildListQuery demo_engine dev_staff demo_list (scopedPlatformIds dev_staff) = Inr cond
     \<and> distinct (concat (map rows [1..<Suc 1]))
     \<and> set (concat (map rows [1..<Suc 1])) = set (matching_issues cond demo_db)"
proof -
  let ?cond = "\<lambda>j. scopeAllows (SCOPE_IDS [''p1'']) (iss_platform (j_issue j)) \<and> plain_conditions demo_engine demo_list j"
  let ?key = "list_key demo_engine demo_list"
  let ?rows = "\<lambda>p. page_of p 1 (sort_key ?key (matching_issues ?cond demo_db))"
  have eng: "demo_engine\<lparr>pg_order := sort_key\<rparr> = demo_engine" by (simp add: demo_engine_def)
  have b: "buildListQuery demo_engine dev_staff (demo_list\<lparr>ld_page := p\<rparr>) (SCOPE_IDS [''p1'']) = Inr ?cond" for p
    by (simp add: buildListQuery_def demo_list_def truthy_def plain_conditions_def)
  have b0: "buildListQuery demo_engine dev_staff demo_list (scopedPlatformIds dev_staff) = Inr ?cond"
    by (simp add: buildListQuery_def demo_list_def truthy_def dev_scope)
  have k: "list_key demo_engine (demo_list\<lparr>ld_page := p\<rparr>) = ?key" for p
    by (rule ext) (simp add: list_key_def demo_list_def)
  have m: "matching_issues ?cond demo_db = [sample_issue ''i1'' ''p1'' NEW]"
    by (simp add: matching_issues_def demo_defs plain_conditions_def demo_list_def truthy_def)
  have r: "\<forall>p. list_rows (demo_engine\<lparr>pg_order := sort_key\<rparr>) dev_staff (demo_list\<lparr>ld_page := p\<rparr>) demo_db = Inr (?rows p, 1)"
  proof
    fix p
    have "ld_page_size (demo_list\<lparr>ld_page := p\<rparr>) = 1" "ld_page (demo_list\<lparr>ld_page := p\<rparr>) = p"
      "pg_order demo_engine = sort_key" by (simp_all add: demo_list_def demo_engine_def)
    then show "list_rows (demo_engine\<lparr>pg_order := sort_key\<rparr>) dev_staff (demo_list\<lparr>ld_page := p\<rparr>) demo_db = Inr (?rows p, 1)"
      unfolding eng list_rows_def dev_scope using m by (simp add: b k Let_def)
  qed
  have o: "\<forall>p. pg_order_ok (demo_engine\<lparr>pg_order := sort_key\<rparr>)" using demo_engine_order by blast
  have sz: "1 \<le> 1 * ld_page_size demo_list" by (simp add: demo_list_def)
  note part = list_pages_partition [OF o demo_db_distinct b0 r sz]
  show ?thesis
  proof (rule exI [where x = ?rows], rule exI [where x = ?cond], intro conjI)
    from r show "\<forall>p. list_rows demo_engine dev_staff (demo_list\<lparr>ld_page := p\<rparr>) demo_db = Inr (?rows p, 1)"
      unfolding eng .
  qed (rule b0, rule conjunct1 [OF part], rule conjunct1 [OF conjunct2 [OF part]])
qed

end
