(* ===== verification/Annotations.thy ===== *)
theory Annotations
  imports Issues
begin

text \<open>
  Watchers (\<^verbatim>\<open>src/issues/watchers.service.ts\<close>) and links between issues
  (\<^verbatim>\<open>src/issues/issue-links.service.ts\<close>). Both tables carry a unique constraint; the
  inserts that ignore or report its violation are shared with the merge.
\<close>

section \<open>Watchers\<close>

definition is_watching :: "ident \<Rightarrow> ident \<Rightarrow> db \<Rightarrow> bool" where
  "is_watching iid u s = list_ex (\<lambda>w. wat_issue w = iid \<and> wat_staff_user w = u) (t_watchers s)"

text \<open>The insert of a watcher row, a duplicate pair being ignored.\<close>

definition add_watcher :: "env \<Rightarrow> ident \<Rightarrow> ident \<Rightarrow> db \<Rightarrow> db" where
  "add_watcher e iid u s =
     (if is_watching iid u s then s
      else draw_id (t_watchers_update (\<lambda>ws. ws @
        [\<lparr>wat_id = fresh_id s, wat_issue = iid, wat_staff_user = u, wat_created_at = now e\<rparr>]) s))"

definition listWatchers :: "auth_staff \<Rightarrow> ident \<Rightarrow> db \<Rightarrow> bool \<times> (ident \<times> string) list" where
  "listWatchers st iid s =
     (let rows = sort_key wat_created_at (filter (\<lambda>w. wat_issue w = iid) (t_watchers s)) in
      (list_ex (\<lambda>w. wat_staff_user w = st_id st) rows,
       List.map_filter (\<lambda>w. map_option (\<lambda>u. (su_id u, su_name u)) (find_staff (wat_staff_user w) s)) rows))"

definition watch :: "env \<Rightarrow> auth_staff \<Rightarrow> ident \<Rightarrow> db \<Rightarrow> db res" where
  "watch e st iid s =
     (case find_issue iid s of
        None \<Rightarrow> Inl (NotFound ''Issue not found.'')
      | Some _ \<Rightarrow> Inr (add_watcher e iid (st_id st) s))"

definition unwatch :: "auth_staff \<Rightarrow> ident \<Rightarrow> db \<Rightarrow> db" where
  "unwatch st iid s =
     (case List.find (\<lambda>w. wat_issue w = iid \<and> wat_staff_user w = st_id st) (t_watchers s) of
        None \<Rightarrow> s
      | Some row \<Rightarrow> t_watchers_update (remove_key wat_id (wat_id row)) s)"

section \<open>Links\<close>

definition has_link :: "ident \<Rightarrow> ident \<Rightarrow> issue_link_type \<Rightarrow> db \<Rightarrow> bool" where
  "has_link a b ty s = list_ex (\<lambda>l. lnk_source l = a \<and> lnk_target l = b \<and> lnk_type l = ty) (t_links s)"

definition add_link_row :: "env \<Rightarrow> ident \<Rightarrow> ident \<Rightarrow> issue_link_type \<Rightarrow> ident \<Rightarrow> db \<Rightarrow> db" where
  "add_link_row e a b ty u s = draw_id (t_links_update (\<lambda>ls. ls @
     [\<lparr>lnk_id = fresh_id s, lnk_source = a, lnk_target = b, lnk_type = ty, lnk_created_by = Some u,
       lnk_created_at = now e\<rparr>]) s)"

definition createLink :: "env \<Rightarrow> auth_staff \<Rightarrow> ident \<Rightarrow> ident \<Rightarrow> issue_link_type \<Rightarrow> db \<Rightarrow> db res" where
  "createLink e st a b ty s =
     require (a \<noteq> b) (BadRequest ''An issue cannot be linked to itself.'')
     (case (find_issue a s, find_issue b s) of
        (Some x, Some y) \<Rightarrow>
          require (iss_platform x = iss_platform y)
            (BadRequest ''Issues can only be linked within the same platform.'')
          (require (\<not> has_link a b ty s) (Conflict ''That link already exists.'')
            (Inr (add_link_row e a b ty (st_id st) s)))
      | _ \<Rightarrow> Inl (NotFound ''Issue not found.''))"

definition removeLink :: "ident \<Rightarrow> ident \<Rightarrow> db \<Rightarrow> db res" where
  "removeLink iid lid s =
     (case by_key lnk_id lid (t_links s) of
        None \<Rightarrow> Inl (NotFound ''Link not found.'')
      | Some l \<Rightarrow> require (lnk_source l = iid \<or> lnk_target l = iid) (NotFound ''Link not found.'')
          (Inr (t_links_update (remove_key lnk_id lid) s)))"

text \<open>A link as seen from one of its ends: outward or inward, the other issue, its status.\<close>

definition link_view :: "ident \<Rightarrow> db \<Rightarrow> issue_link \<Rightarrow> (ident \<times> issue_link_type \<times> bool \<times> ident \<times> string \<times> issue_status) option" where
  "link_view iid s l =
     (let outward = (lnk_source l = iid);
          other = (if outward then lnk_target l else lnk_source l)
      in map_option (\<lambda>o1. (lnk_id l, lnk_type l, outward, iss_id o1, iss_reference_no o1, iss_status o1))
           (find_issue other s))"

definition listLinks ::
  "ident \<Rightarrow> db \<Rightarrow> (ident \<times> issue_link_type \<times> bool \<times> ident \<times> string \<times> issue_status) list" where
  "listLinks iid s =
     List.map_filter (link_view iid s)
       (sort_key lnk_created_at (filter (\<lambda>l. lnk_source l = iid \<or> lnk_target l = iid) (t_links s)))"

section \<open>Facts\<close>

lemma add_watcher_issues [simp]:
  "t_issues (add_watcher e iid u s) = t_issues s" "t_comments (add_watcher e iid u s) = t_comments s"
  "t_audit (add_watcher e iid u s) = t_audit s" "outbox (add_watcher e iid u s) = outbox s"
  "t_links (add_watcher e iid u s) = t_links s" "t_staff (add_watcher e iid u s) = t_staff s"
  "t_platforms (add_watcher e iid u s) = t_platforms s"
  by (simp_all add: add_watcher_def draw_id_def)

lemma is_watching_add: "is_watching i v (add_watcher e iid u s) \<longleftrightarrow> is_watching i v s \<or> (i = iid \<and> v = u)"
  by (auto simp: add_watcher_def is_watching_def draw_id_def)

definition watchers_unique :: "db \<Rightarrow> bool" where
  "watchers_unique s = distinct (map (\<lambda>w. (wat_issue w, wat_staff_user w)) (t_watchers s))"

lemma add_watcher_unique: "watchers_unique s \<Longrightarrow> watchers_unique (add_watcher e iid u s)"
  by (auto simp: watchers_unique_def add_watcher_def is_watching_def draw_id_def list_ex_iff)

definition links_local :: "db \<Rightarrow> bool" where
  "links_local s = (\<forall>l \<in> set (t_links s). lnk_source l \<noteq> lnk_target l \<and>
     (\<exists>x y. find_issue (lnk_source l) s = Some x \<and> find_issue (lnk_target l) s = Some y
        \<and> iss_platform x = iss_platform y))"

lemma createLink_local: "links_local s \<Longrightarrow> createLink e st a b ty s = Inr s' \<Longrightarrow> links_local s'"
  by (auto simp: links_local_def createLink_def res_iffs add_link_row_def draw_id_def find_issue_def
      split: option.splits)

lemma removeLink_local: "links_local s \<Longrightarrow> removeLink iid lid s = Inr s' \<Longrightarrow> links_local s'"
  by (auto simp: links_local_def removeLink_def res_iffs find_issue_def remove_key_def split: option.splits)

end
