(* ===== verification/Merge.thy ===== *)
theory Merge
  imports Annotations
begin

text \<open>
  Merging a duplicate into its canonical issue and the listener that tells the reporters of
  the duplicates when the canonical one is resolved (\<^verbatim>\<open>src/issues/merge.service.ts\<close>).
\<close>

section \<open>Merge\<close>

text \<open>Flattening: a chosen canonical that is itself a duplicate stands for its own canonical.\<close>

definition resolve_canonical :: "issue \<Rightarrow> issue \<Rightarrow> db \<Rightarrow> issue res" where
  "resolve_canonical dup can s =
     (case iss_duplicate_of can of
        None \<Rightarrow> Inr can
      | Some k \<Rightarrow>
          (case find_issue k s of
             None \<Rightarrow> Inl (Conflict ''The chosen canonical issue is itself an unresolvable duplicate.'')
           | Some c \<Rightarrow>
               require (iss_duplicate_of c = None)
                 (Conflict ''The chosen canonical issue is itself an unresolvable duplicate.'')
               (require (iss_id c \<noteq> iss_id dup) (Unprocessable ''An issue cannot be merged into itself.'')
                 (Inr c))))"

definition MERGED_NOTICE :: string where
  "MERGED_NOTICE = ''This issue was identified as a duplicate of an already-tracked problem. ''
     @ ''It has been closed here, and you'' @ [CHR 0x27]
     @ ''ll be notified on this issue when the underlying problem is resolved.''"

definition closed_duplicate :: "env \<Rightarrow> issue \<Rightarrow> ident \<Rightarrow> issue" where
  "closed_duplicate e dup cid = dup\<lparr>iss_duplicate_of := Some cid, iss_status := CLOSED,
     iss_closed_at := (case iss_closed_at dup of Some t \<Rightarrow> Some t | None \<Rightarrow> Some (now e))\<rparr>"

definition copy_watchers :: "env \<Rightarrow> ident \<Rightarrow> ident \<Rightarrow> db \<Rightarrow> db" where
  "copy_watchers e from to s =
     fold (add_watcher e to) (map wat_staff_user (filter (\<lambda>w. wat_issue w = from) (t_watchers s))) s"

text \<open>The transaction after the duplicate was saved: link, watchers, two comments, two audit rows.\<close>

definition merge_records :: "env \<Rightarrow> auth_staff \<Rightarrow> issue \<Rightarrow> issue \<Rightarrow> db \<Rightarrow> db" where
  "merge_records e st dup can s =
     (let did = iss_id dup; cid = iss_id can;
          s1 = (if has_link did cid DUPLICATES s then s else add_link_row e did cid DUPLICATES (st_id st) s);
          s2 = copy_watchers e did cid s1;
          s3 = add_comment e did (Some (st_id st)) ACTOR_STAFF None MERGED_NOTICE REPORTER_VISIBLE s2;
          s4 = add_comment e cid (Some (st_id st)) ACTOR_STAFF None
                 (iss_reference_no dup @ '' was merged into this issue as a duplicate.'') INTERNAL s3;
          s5 = audit_record e (Some did) ACTOR_STAFF (Some (st_id st)) ''MERGED'' (Some ''duplicateOf'')
                 None (Some cid) (Some (JObj [(''canonicalReferenceNo'', JStr (iss_reference_no can))])) s4
      in audit_record e (Some did) ACTOR_STAFF (Some (st_id st)) ''STATUS_CHANGED'' (Some ''status'')
           (Some (status_name (iss_status dup))) (Some ''CLOSED'')
           (Some (JObj [(''reason'', JStr ''merged-as-duplicate''),
                        (''canonicalReferenceNo'', JStr (iss_reference_no can))])) s5)"

definition merge :: "env \<Rightarrow> auth_staff \<Rightarrow> ident \<Rightarrow> ident \<Rightarrow> int \<Rightarrow> db \<Rightarrow> (ident \<times> db) res" where
  "merge e st iid cid version s =
     require (iid \<noteq> cid) (Unprocessable ''An issue cannot be merged into itself.'')
     (case (find_issue iid s, find_issue cid s) of
        (Some dup, Some can0) \<Rightarrow>
          require (iss_platform dup = iss_platform can0)
            (Unprocessable ''Issues can only be merged within the same platform.'')
         (require (iss_duplicate_of dup = None)
            (Conflict ''This issue is already merged into another issue.'')
         (require (iss_status dup \<noteq> CLOSED) (Unprocessable ''A closed issue cannot be merged.'')
         (require (version = iss_version dup)
            (Conflict ''This issue was modified by someone else. Reload and try again.'')
         (bind_res (resolve_canonical dup can0 s) (\<lambda>can.
          require (iss_status can \<noteq> CLOSED) (Unprocessable ''Cannot merge into a closed issue.'')
         (bind_res (save_issue e (closed_duplicate e dup (iss_id can)) s) (\<lambda>s1.
           Inr (iss_id can,
                emit (IssueMerged (iss_id dup) (iss_id can) (iss_platform dup) (st_id st))
                  (merge_records e st dup can s1)))))))))
      | _ \<Rightarrow> Inl (NotFound ''Issue not found''))"

section \<open>Closing the loop\<close>

definition RESOLVED_NOTICE :: string where
  "RESOLVED_NOTICE = ''The underlying problem this issue duplicated has been resolved.''"

definition notify_duplicate :: "env \<Rightarrow> ident \<Rightarrow> db \<Rightarrow> db" where
  "notify_duplicate e did s =
     touch_issue e did (add_comment e did None ACTOR_SYSTEM None RESOLVED_NOTICE REPORTER_VISIBLE s)"

definition duplicates_of :: "ident \<Rightarrow> db \<Rightarrow> ident list" where
  "duplicates_of iid s = map iss_id (filter (\<lambda>i. iss_duplicate_of i = Some iid) (t_issues s))"

definition onCanonicalStatusChanged :: "env \<Rightarrow> ident \<Rightarrow> issue_status \<Rightarrow> db \<Rightarrow> db" where
  "onCanonicalStatusChanged e iid to s =
     (if to \<noteq> RESOLVED then s else fold (notify_duplicate e) (duplicates_of iid s) s)"

section \<open>Facts\<close>

lemma copy_watchers_frame [simp]:
  "t_issues (copy_watchers e a b s) = t_issues s" "t_comments (copy_watchers e a b s) = t_comments s"
  "t_audit (copy_watchers e a b s) = t_audit s" "outbox (copy_watchers e a b s) = outbox s"
  "t_links (copy_watchers e a b s) = t_links s"
proof -
  have "t_issues (fold (add_watcher e b) us s) = t_issues s \<and> t_comments (fold (add_watcher e b) us s) = t_comments s
     \<and> t_audit (fold (add_watcher e b) us s) = t_audit s \<and> outbox (fold (add_watcher e b) us s) = outbox s
     \<and> t_links (fold (add_watcher e b) us s) = t_links s" for us
    by (induction us arbitrary: s) auto
  then show "t_issues (copy_watchers e a b s) = t_issues s" "t_comments (copy_watchers e a b s) = t_comments s"
    "t_audit (copy_watchers e a b s) = t_audit s" "outbox (copy_watchers e a b s) = outbox s"
    "t_links (copy_watchers e a b s) = t_links s"
    by (auto simp: copy_watchers_def)
qed

lemma is_watching_fold:
  "is_watching i v (fold (add_watcher e b) us s) \<longleftrightarrow> is_watching i v s \<or> (i = b \<and> v \<in> set us)"
  by (induction us arbitrary: s) (auto simp: is_watching_add)

lemma is_watching_copy:
  "is_watching i v (copy_watchers e a b s) \<longleftrightarrow> is_watching i v s \<or> (i = b \<and> is_watching a v s)"
  unfolding copy_watchers_def is_watching_fold by (auto simp: is_watching_def list_ex_iff)

lemma add_link_row_simps [simp]:
  "t_issues (add_link_row e a b ty u s) = t_issues s" "t_comments (add_link_row e a b ty u s) = t_comments s"
  "t_audit (add_link_row e a b ty u s) = t_audit s" "outbox (add_link_row e a b ty u s) = outbox s"
  "t_watchers (add_link_row e a b ty u s) = t_watchers s"
  by (simp_all add: add_link_row_def draw_id_def)

lemma merge_records_frame [simp]:
  "t_issues (merge_records e st dup can s) = t_issues s" "outbox (merge_records e st dup can s) = outbox s"
  by (simp_all add: merge_records_def Let_def)

lemma resolve_canonicalD:
  assumes "resolve_canonical dup can0 s = Inr can" and "find_issue (iss_id can0) s = Some can0"
    and "iss_id can0 \<noteq> iss_id dup"
  shows "find_issue (iss_id can) s = Some can" "iss_duplicate_of can = None" "iss_id can \<noteq> iss_id dup"
proof -
  from assms(1) consider "can = can0" "iss_duplicate_of can = None"
    | k where "find_issue k s = Some can" "iss_duplicate_of can = None" "iss_id can \<noteq> iss_id dup"
    by (auto simp: resolve_canonical_def res_iffs split: option.splits)
  then have "find_issue (iss_id can) s = Some can \<and> iss_duplicate_of can = None \<and> iss_id can \<noteq> iss_id dup"
    using assms(2,3) by cases (auto dest: find_issueD)
  then show "find_issue (iss_id can) s = Some can" "iss_duplicate_of can = None" "iss_id can \<noteq> iss_id dup"
    by auto
qed

lemma merge_cases:
  assumes "merge e st iid cid v s = Inr (c, s')"
  obtains dup can where "find_issue iid s = Some dup" "find_issue c s = Some can" "iss_id dup = iid"
    "iss_id can = c" "c \<noteq> iid" "iss_duplicate_of dup = None" "iss_status dup \<noteq> CLOSED" "v = iss_version dup"
    "iss_duplicate_of can = None" "iss_status can \<noteq> CLOSED"
    "s' = emit (IssueMerged iid c (iss_platform dup) (st_id st))
        (merge_records e st dup can (put_issue (saved_row e (closed_duplicate e dup c)) s))"
proof -
  from assms obtain dup can0 can s1 where d: "iid \<noteq> cid" "find_issue iid s = Some dup" "find_issue cid s = Some can0"
    "iss_duplicate_of dup = None" "iss_status dup \<noteq> CLOSED" "v = iss_version dup"
    and r: "resolve_canonical dup can0 s = Inr can" "iss_status can \<noteq> CLOSED" "c = iss_id can"
    and s1: "save_issue e (closed_duplicate e dup (iss_id can)) s = Inr s1"
    and s': "s' = emit (IssueMerged (iss_id dup) (iss_id can) (iss_platform dup) (st_id st))
                  (merge_records e st dup can s1)"
    by (auto simp: merge_def res_iffs split: option.splits prod.splits)
  from d have id: "iss_id dup = iid" "iss_id can0 = cid" by (auto dest: find_issueD)
  note c = resolve_canonicalD [OF r(1)]
  have "\<not> same_columns (closed_duplicate e dup (iss_id can)) dup"
    using same_columnsD(1) [of "closed_duplicate e dup (iss_id can)" dup] d(5) by (auto simp: closed_duplicate_def)
  moreover have "iss_id (closed_duplicate e dup (iss_id can)) = iid"
    "iss_version (closed_duplicate e dup (iss_id can)) = iss_version dup"
    by (simp_all add: closed_duplicate_def id)
  ultimately have "s1 = put_issue (saved_row e (closed_duplicate e dup c)) s"
    using s1 save_issue_loaded [of "closed_duplicate e dup (iss_id can)" s dup e] d(2) r(3) by auto
  with d r id c s' that show thesis by auto
qed

section \<open>Properties\<close>

text \<open>
  C13: A merge closes the duplicate and redirects it. Afterwards the duplicate is
  CLOSED with a closing time and points to a canonical issue that is another existing issue,
  neither closed nor itself a duplicate; only the duplicate's row changed; everyone who
  watched the duplicate watches the canonical issue; a reporter-visible notice was added to
  the duplicate and an internal one to the canonical issue; the close and the merge are both
  audited; and one event is emitted.
\<close>

theorem merge_effects:
  assumes "merge e st iid cid v s = Inr (c, s')"
  shows "\<exists>dup can dup'. find_issue iid s = Some dup \<and> find_issue c s = Some can \<and> c \<noteq> iid
     \<and> v = iss_version dup \<and> iss_status can \<noteq> CLOSED \<and> iss_duplicate_of can = None
     \<and> find_issue iid s' = Some dup' \<and> iss_status dup' = CLOSED \<and> iss_closed_at dup' \<noteq> None
     \<and> iss_duplicate_of dup' = Some c \<and> iss_version dup' = v + 1
     \<and> (\<forall>k. k \<noteq> iid \<longrightarrow> find_issue k s' = find_issue k s)
     \<and> (\<forall>u. is_watching iid u s \<longrightarrow> is_watching c u s')
     \<and> (\<exists>x y. t_comments s' = t_comments s @ [x, y] \<and> com_issue x = iid \<and> com_visibility x = REPORTER_VISIBLE
           \<and> com_issue y = c \<and> com_visibility y = INTERNAL)
     \<and> (\<exists>x y. t_audit s' = t_audit s @ [x, y] \<and> aud_action x = ''MERGED'' \<and> aud_new_value x = Some c
           \<and> aud_action y = ''STATUS_CHANGED'' \<and> aud_old_value y = Some (status_name (iss_status dup))
           \<and> aud_new_value y = Some ''CLOSED'')
     \<and> outbox s' = outbox s @ [IssueMerged iid c (iss_platform dup) (st_id st)]"
proof -
  from merge_cases [OF assms] obtain dup can where d: "find_issue iid s = Some dup" "find_issue c s = Some can"
    "iss_id dup = iid" "iss_id can = c" "c \<noteq> iid" "v = iss_version dup" "iss_duplicate_of can = None"
    "iss_status can \<noteq> CLOSED"
    and s': "s' = emit (IssueMerged iid c (iss_platform dup) (st_id st))
        (merge_records e st dup can (put_issue (saved_row e (closed_duplicate e dup c)) s))"
    by metis
  let ?row = "saved_row e (closed_duplicate e dup c)"
  have row: "iss_id ?row = iid" "iss_status ?row = CLOSED" "iss_closed_at ?row \<noteq> None"
    "iss_duplicate_of ?row = Some c" "iss_version ?row = v + 1"
    using d by (auto simp: closed_duplicate_def split: option.splits)
  have f: "find_issue k s' = (if k = iid then Some ?row else find_issue k s)" for k
  proof -
    have "find_issue k s' = find_issue k (put_issue ?row s)" by (simp add: s' find_issue_def)
    with find_issue_put [of ?row s k] row(1) d(1) show ?thesis by simp
  qed
  have w: "is_watching c u s'" if "is_watching iid u s" for u
  proof -
    have "is_watching c u s' = is_watching c u (copy_watchers e iid c
        (if has_link iid c DUPLICATES (put_issue ?row s) then put_issue ?row s
         else add_link_row e iid c DUPLICATES (st_id st) (put_issue ?row s)))"
      by (simp add: s' merge_records_def Let_def d is_watching_def [of c u "emit _ _"]
          is_watching_def [of c u "copy_watchers _ _ _ _"])
    moreover have "is_watching iid u (if has_link iid c DUPLICATES (put_issue ?row s) then put_issue ?row s
         else add_link_row e iid c DUPLICATES (st_id st) (put_issue ?row s))"
      using that by (simp add: is_watching_def)
    ultimately show ?thesis by (simp add: is_watching_copy)
  qed
  have com: "\<exists>x y. t_comments s' = t_comments s @ [x, y] \<and> com_issue x = iid \<and> com_visibility x = REPORTER_VISIBLE
           \<and> com_issue y = c \<and> com_visibility y = INTERNAL"
    by (simp add: s' merge_records_def Let_def add_comment_def draw_id_def d)
  have aud: "\<exists>x y. t_audit s' = t_audit s @ [x, y] \<and> aud_action x = ''MERGED'' \<and> aud_new_value x = Some c
           \<and> aud_action y = ''STATUS_CHANGED'' \<and> aud_old_value y = Some (status_name (iss_status dup))
           \<and> aud_new_value y = Some ''CLOSED''"
    by (simp add: s' merge_records_def Let_def audit_record_def draw_id_def d)
  have out: "outbox s' = outbox s @ [IssueMerged iid c (iss_platform dup) (st_id st)]" by (simp add: s')
  from f row(1) have "find_issue iid s' = Some ?row" "\<forall>k. k \<noteq> iid \<longrightarrow> find_issue k s' = find_issue k s" by simp_all
  with d row w com aud out show ?thesis by blast
qed

definition demo_issues :: db where
  "demo_issues = empty_db\<lparr>t_platforms := [sample_platform ''p1'' ''portal''],
     t_issues := [sample_issue ''a'' ''p1'' NEW, sample_issue ''b'' ''p1'' NEW, sample_issue ''c'' ''p1'' IN_PROGRESS],
     t_watchers := [\<lparr>wat_id = ''w1'', wat_issue = ''a'', wat_staff_user = ''wat'', wat_created_at = 0\<rparr>]\<rparr>"

lemma demo_merge_ok: "\<exists>s'. merge plain_env dev_staff ''a'' ''b'' 1 demo_issues = Inr (''b'', s')"
  by (simp add: merge_def demo_issues_def sample_defs find_issue_def by_key_Cons resolve_canonical_def
      save_issue_def closed_duplicate_def same_columns_def plain_env_def)

theorem merge_effects_witness:
  "\<exists>s'. merge plain_env dev_staff ''a'' ''b'' 1 demo_issues = Inr (''b'', s')
     \<and> is_watching ''b'' ''wat'' s'
     \<and> outbox s' = [IssueMerged ''a'' ''b'' ''p1'' ''dev'']"
proof -
  obtain s' where r: "merge plain_env dev_staff ''a'' ''b'' 1 demo_issues = Inr (''b'', s')"
    using demo_merge_ok by blast
  have w: "is_watching ''a'' ''wat'' demo_issues" by (simp add: demo_issues_def is_watching_def)
  have p: "find_issue ''a'' demo_issues = Some (sample_issue ''a'' ''p1'' NEW)" "outbox demo_issues = []"
    by (simp_all add: demo_issues_def find_issue_def by_key_Cons sample_defs)
  from merge_effects [OF r] p w r show ?thesis
    by (auto simp: sample_issue_def dev_staff_def)
qed

lemma closed_duplicate_simps [simp]:
  "iss_id (closed_duplicate e d c) = iss_id d" "iss_status (closed_duplicate e d c) = CLOSED"
  "iss_duplicate_of (closed_duplicate e d c) = Some c" "iss_platform (closed_duplicate e d c) = iss_platform d"
  "iss_closed_at (closed_duplicate e d c) \<noteq> None"
  by (simp_all add: closed_duplicate_def split: option.splits)

lemma sample_issue_simps [simp]:
  "iss_id (sample_issue i p st) = i" "iss_status (sample_issue i p st) = st"
  "iss_platform (sample_issue i p st) = p" "iss_duplicate_of (sample_issue i p st) = None"
  "iss_version (sample_issue i p st) = 1"
  by (simp_all add: sample_issue_def)

lemma merge_issues:
  assumes "merge e st iid cid v s = Inr (c, s')"
  shows "\<exists>dup. find_issue iid s = Some dup \<and>
     t_issues s' = replace_row iss_id (saved_row e (closed_duplicate e dup c)) (t_issues s)"
  using merge_cases [OF assms] by (metis emit_simps(1) merge_records_frame(1) put_issue_simps(1))

text \<open>
  Pointers to canonical issues are not always one hop deep. Merging A
  into B and then B into C leaves A pointing to B and B pointing to C; when C is resolved,
  the fan-out adds a comment to B and none to A, whose reporter was promised one.
\<close>

theorem merge_chain_not_flat:
  "\<exists>s1 s2 x y. merge plain_env dev_staff ''a'' ''b'' 1 demo_issues = Inr (''b'', s1)
     \<and> merge plain_env dev_staff ''b'' ''c'' 1 s1 = Inr (''c'', s2)
     \<and> find_issue ''a'' s2 = Some x \<and> iss_duplicate_of x = Some ''b''
     \<and> find_issue ''b'' s2 = Some y \<and> iss_duplicate_of y = Some ''c''
     \<and> filter (\<lambda>k. com_issue k = ''a'') (t_comments (onCanonicalStatusChanged plain_env ''c'' RESOLVED s2))
         = filter (\<lambda>k. com_issue k = ''a'') (t_comments s2)
     \<and> length (t_comments (onCanonicalStatusChanged plain_env ''c'' RESOLVED s2)) = length (t_comments s2) + 1"
proof -
  obtain s1 where m1: "merge plain_env dev_staff ''a'' ''b'' 1 demo_issues = Inr (''b'', s1)"
    using demo_merge_ok by blast
  let ?a = "saved_row plain_env (closed_duplicate plain_env (sample_issue ''a'' ''p1'' NEW) ''b'')"
  let ?b = "sample_issue ''b'' ''p1'' NEW" and ?c = "sample_issue ''c'' ''p1'' IN_PROGRESS"
  have i1: "t_issues s1 = [?a, ?b, ?c]"
    using merge_issues [OF m1]
    by (auto simp: demo_issues_def find_issue_def by_key_Cons sample_defs replace_row_def closed_duplicate_def saved_row_def)
  have ids: "iss_id ?a = ''a''" "iss_id ?b = ''b''" "iss_id ?c = ''c''"
    by (simp_all add: sample_issue_def closed_duplicate_def)
  have "\<exists>s2. merge plain_env dev_staff ''b'' ''c'' 1 s1 = Inr (''c'', s2)"
    by (simp add: merge_def find_issue_def i1 by_key_Cons ids)
      (simp add: sample_issue_def resolve_canonical_def save_issue_def closed_duplicate_def same_columns_def
        plain_env_def find_issue_def i1 by_key_Cons saved_row_def)
  then obtain s2 where m2: "merge plain_env dev_staff ''b'' ''c'' 1 s1 = Inr (''c'', s2)" ..
  let ?b2 = "saved_row plain_env (closed_duplicate plain_env ?b ''c'')"
  have "find_issue ''b'' s1 = Some ?b" by (simp add: find_issue_def i1 by_key_Cons ids)
  with merge_issues [OF m2] have i2: "t_issues s2 = [?a, ?b2, ?c]"
    by (auto simp: i1 replace_row_def ids)
  have ids2: "iss_id ?b2 = ''b''" by (simp add: sample_issue_def closed_duplicate_def)
  have dups: "iss_duplicate_of ?a = Some ''b''" "iss_duplicate_of ?b2 = Some ''c''" "iss_duplicate_of ?c = None"
    by (simp_all add: sample_issue_def closed_duplicate_def)
  have "duplicates_of ''c'' s2 = [''b'']" by (simp add: duplicates_of_def i2 dups ids2)
  then have f: "t_comments (onCanonicalStatusChanged plain_env ''c'' RESOLVED s2) =
      t_comments (add_comment plain_env ''b'' None ACTOR_SYSTEM None RESOLVED_NOTICE REPORTER_VISIBLE s2)"
    by (simp add: onCanonicalStatusChanged_def notify_duplicate_def touch_issue_def qb_update_def)
  have x: "find_issue ''a'' s2 = Some ?a" "find_issue ''b'' s2 = Some ?b2"
    by (simp_all add: find_issue_def i2 by_key_Cons ids ids2)
  have g: "filter (\<lambda>k. com_issue k = ''a'') (t_comments (onCanonicalStatusChanged plain_env ''c'' RESOLVED s2))
         = filter (\<lambda>k. com_issue k = ''a'') (t_comments s2)"
    "length (t_comments (onCanonicalStatusChanged plain_env ''c'' RESOLVED s2)) = length (t_comments s2) + 1"
    by (simp_all add: f add_comment_def draw_id_def)
  from m1 m2 x dups(1,2) g show ?thesis by blast
qed

end
