(* ===== verification/Catalog.thy ===== *)
theory Catalog
  imports Store "HOL-Library.List_Lexorder" "HOL-Library.Char_ord"
begin

text \<open>
  Per-platform catalogs: labels (\<^verbatim>\<open>src/issues/labels.service.ts\<close>) and canned responses
  (\<^verbatim>\<open>src/canned-responses/canned-responses.service.ts\<close>). Both share one contract, the
  locale \<^verbatim>\<open>tenant_catalog\<close>: names are unique within a platform, and an operation on one
  platform leaves the rows of every other platform alone.
\<close>

section \<open>The contract\<close>

locale tenant_catalog =
  fixes rows :: "'s \<Rightarrow> 'r list"
    and key :: "'r \<Rightarrow> ident" and plat :: "'r \<Rightarrow> ident" and name :: "'r \<Rightarrow> string"
    and step :: "ident \<Rightarrow> 's \<Rightarrow> 's \<Rightarrow> bool"
  assumes step_cases: "distinct (map key (rows s)) \<Longrightarrow> step p s s' \<Longrightarrow>
      (\<exists>r. rows s' = rows s @ [r] \<and> plat r = p \<and> key r \<notin> key ` set (rows s)
           \<and> (\<forall>x \<in> set (rows s). plat x = p \<longrightarrow> name x \<noteq> name r))
    \<or> (\<exists>r0 r. r0 \<in> set (rows s) \<and> key r = key r0 \<and> plat r0 = p \<and> plat r = p
           \<and> rows s' = replace_row key r (rows s)
           \<and> (\<forall>x \<in> set (rows s). plat x = p \<and> key x \<noteq> key r \<longrightarrow> name x \<noteq> name r))
    \<or> (\<exists>r0. r0 \<in> set (rows s) \<and> plat r0 = p \<and> rows s' = remove_key key (key r0) (rows s))"
begin

definition catalog_inv :: "'s \<Rightarrow> bool" where
  "catalog_inv s = (distinct (map key (rows s))
     \<and> (\<forall>x \<in> set (rows s). \<forall>y \<in> set (rows s). plat x = plat y \<and> name x = name y \<longrightarrow> key x = key y))"

lemma catalog_invI:
  assumes "distinct (map key (rows s))"
    and "\<And>x y. x \<in> set (rows s) \<Longrightarrow> y \<in> set (rows s) \<Longrightarrow> plat x = plat y \<Longrightarrow> name x = name y \<Longrightarrow> key x = key y"
  shows "catalog_inv s"
  unfolding catalog_inv_def using assms by blast

lemma catalog_invD: "catalog_inv s \<Longrightarrow> distinct (map key (rows s))"
  unfolding catalog_inv_def by blast

lemma step_catalog_inv:
  assumes inv: "catalog_inv s" and st: "step p s s'"
  shows "catalog_inv s'"
  using step_cases [OF catalog_invD [OF inv] st]
proof (elim disjE exE conjE)
  fix r
  assume r: "rows s' = rows s @ [r]" "plat r = p" "key r \<notin> key ` set (rows s)"
    "\<forall>x \<in> set (rows s). plat x = p \<longrightarrow> name x \<noteq> name r"
  have k: "key x = key y" if "x \<in> set (rows s')" "y \<in> set (rows s')" "plat x = plat y" "name x = name y" for x y
  proof -
    from that(1,2) r(1) have "x = r \<or> x \<in> set (rows s)" "y = r \<or> y \<in> set (rows s)" by auto
    with inv r(2,4) that(3,4) show ?thesis unfolding catalog_inv_def by metis
  qed
  from catalog_invD [OF inv] r(1,3) have "distinct (map key (rows s'))" by simp
  from catalog_invI [OF this k] show ?thesis .
next
  fix r0 r
  assume r: "r0 \<in> set (rows s)" "key r = key r0" "plat r = p" "rows s' = replace_row key r (rows s)"
    "\<forall>x \<in> set (rows s). plat x = p \<and> key x \<noteq> key r \<longrightarrow> name x \<noteq> name r"
  have k: "key x = key y" if "x \<in> set (rows s')" "y \<in> set (rows s')" "plat x = plat y" "name x = name y" for x y
  proof -
    from that(1,2) r(4) have "x = r \<or> (x \<in> set (rows s) \<and> key x \<noteq> key r)" "y = r \<or> (y \<in> set (rows s) \<and> key y \<noteq> key r)"
      by (auto dest: in_replace_rowD)
    with inv r(3,5) that(3,4) show ?thesis unfolding catalog_inv_def by metis
  qed
  from catalog_invD [OF inv] r(4) have "distinct (map key (rows s'))" by (simp add: keys_replace_row)
  from catalog_invI [OF this k] show ?thesis .
next
  fix r0
  assume r: "rows s' = remove_key key (key r0) (rows s)"
  from catalog_invD [OF inv] r have "distinct (map key (rows s'))" by (simp add: distinct_keys_remove)
  moreover have "key x = key y" if "x \<in> set (rows s')" "y \<in> set (rows s')" "plat x = plat y" "name x = name y" for x y
  proof -
    from that(1,2) have "x \<in> set (rows s)" "y \<in> set (rows s)" by (simp_all add: r remove_key_def)
    with inv that(3,4) show ?thesis unfolding catalog_inv_def by blast
  qed
  ultimately show ?thesis by (rule catalog_invI)
qed

lemma step_other_platforms:
  assumes inv: "catalog_inv s" and st: "step p s s'" and q: "q \<noteq> p"
  shows "filter (\<lambda>r. plat r = q) (rows s') = filter (\<lambda>r. plat r = q) (rows s)"
  using step_cases [OF catalog_invD [OF inv] st]
proof (elim disjE exE conjE)
  fix r
  assume "rows s' = rows s @ [r]" "plat r = p"
  with q show ?thesis by simp
next
  fix r0 r
  assume r: "r0 \<in> set (rows s)" "key r = key r0" "plat r0 = p" "plat r = p"
    "rows s' = replace_row key r (rows s)"
  have "plat x \<noteq> q" if "x \<in> set (rows s)" "key x = key r" for x
  proof -
    from inv have "distinct (map key (rows s))" by (rule catalog_invD)
    from distinct_keys_eq [OF this that(1) r(1)] that(2) r(2) have "x = r0" by simp
    with r(3) q show ?thesis by simp
  qed
  then show ?thesis unfolding r(5) using r(4) q by (intro replace_row_filtered_out) auto
next
  fix r0
  assume r: "r0 \<in> set (rows s)" "plat r0 = p" "rows s' = remove_key key (key r0) (rows s)"
  have "plat x \<noteq> q" if "x \<in> set (rows s)" "key x = key r0" for x
  proof -
    from inv have "distinct (map key (rows s))" by (rule catalog_invD)
    from distinct_keys_eq [OF this that(1) r(1)] that(2) have "x = r0" by simp
    with r(2) q show ?thesis by simp
  qed
  then show ?thesis unfolding r(3) by (auto simp: remove_key_def intro!: filter_cong)
qed

end

sublocale tenant_catalog \<subseteq> catalog_ts: transition_system "\<lambda>s t. \<exists>p. step p s t" catalog_inv
  by unfold_locales (auto intro: step_catalog_inv)

section \<open>Labels\<close>

definition assertPlatformAccess :: "auth_staff \<Rightarrow> ident \<Rightarrow> role list \<Rightarrow> unit res" where
  "assertPlatformAccess st p roles =
     require (canAccessPlatform st p roles) (Forbidden ''You do not have access to this platform.'') (Inr ())"

text \<open>An insert fails on a duplicate primary key or pair, and on a platform that does not exist.\<close>

definition label_clash :: "label \<Rightarrow> db \<Rightarrow> bool" where
  "label_clash l s = list_ex (\<lambda>x. lab_id x = lab_id l \<or> (lab_platform x = lab_platform l \<and> lab_name x = lab_name l)) (t_labels s)"

definition createLabel :: "env \<Rightarrow> auth_staff \<Rightarrow> ident \<Rightarrow> string \<Rightarrow> string option \<Rightarrow> db \<Rightarrow> db res" where
  "createLabel e st p nm color s =
     bind_res (assertPlatformAccess st p STAFF_WRITE_ROLES) (\<lambda>_.
       (let l = \<lparr>lab_id = fresh_id s, lab_platform = p, lab_name = js_trim nm,
                 lab_color = (case color of None \<Rightarrow> ''#6b7280'' | Some c \<Rightarrow> c), lab_created_at = now e\<rparr> in
        require (\<not> label_clash l s) (Conflict ''A label with that name already exists on this platform.'')
        (require (find_platform p s \<noteq> None) db_error
          (Inr (draw_id (t_labels_update (\<lambda>ls. ls @ [l]) s))))))"

definition listLabels :: "auth_staff \<Rightarrow> ident \<Rightarrow> db \<Rightarrow> (ident \<times> string \<times> string) list res" where
  "listLabels st p s =
     bind_res (assertPlatformAccess st p STAFF_READ_ROLES) (\<lambda>_.
       Inr (map (\<lambda>l. (lab_id l, lab_name l, lab_color l))
              (sort_key lab_name (filter (\<lambda>l. lab_platform l = p) (t_labels s)))))"

text \<open>Removing a label removes its assignments (the foreign key cascades).\<close>

definition deleteLabel :: "auth_staff \<Rightarrow> ident \<Rightarrow> ident \<Rightarrow> db \<Rightarrow> db res" where
  "deleteLabel st p lid s =
     bind_res (assertPlatformAccess st p STAFF_WRITE_ROLES) (\<lambda>_.
       (case by_key lab_id lid (t_labels s) of
          None \<Rightarrow> Inl (NotFound ''Label not found.'')
        | Some l \<Rightarrow>
            require (lab_platform l = p) (NotFound ''Label not found.'')
              (Inr (t_issue_labels_update (filter (\<lambda>il. il_label il \<noteq> lid))
                     (t_labels_update (remove_key lab_id lid) s)))))"

section \<open>Labels of an issue\<close>

definition addLabelToIssue :: "ident \<Rightarrow> ident \<Rightarrow> db \<Rightarrow> db res" where
  "addLabelToIssue iid lid s =
     (case find_issue iid s of
        None \<Rightarrow> Inl (NotFound ''Issue not found.'')
      | Some i \<Rightarrow> (case by_key lab_id lid (t_labels s) of
            None \<Rightarrow> Inl (NotFound ''Label not found.'')
          | Some l \<Rightarrow>
              require (lab_platform l = iss_platform i) (BadRequest ''Label belongs to a different platform.'')
                (Inr (if list_ex (\<lambda>il. il_issue il = iid \<and> il_label il = lid) (t_issue_labels s) then s
                      else draw_id (t_issue_labels_update
                             (\<lambda>ls. ls @ [\<lparr>il_id = fresh_id s, il_issue = iid, il_label = lab_id l\<rparr>]) s)))))"

definition removeLabelFromIssue :: "ident \<Rightarrow> ident \<Rightarrow> db \<Rightarrow> db" where
  "removeLabelFromIssue iid lid s =
     (case List.find (\<lambda>il. il_issue il = iid \<and> il_label il = lid) (t_issue_labels s) of
        None \<Rightarrow> s
      | Some row \<Rightarrow> t_issue_labels_update (remove_key il_id (il_id row)) s)"

definition listLabelsForIssue :: "ident \<Rightarrow> db \<Rightarrow> (ident \<times> string \<times> string) list" where
  "listLabelsForIssue iid s =
     List.map_filter (\<lambda>il. if il_issue il = iid
        then map_option (\<lambda>l. (lab_id l, lab_name l, lab_color l)) (by_key lab_id (il_label il) (t_labels s))
        else None) (t_issue_labels s)"

section \<open>Canned responses\<close>

definition canned_clash :: "ident \<Rightarrow> ident \<Rightarrow> string \<Rightarrow> db \<Rightarrow> bool" where
  "canned_clash i p title s = list_ex (\<lambda>x. can_id x \<noteq> i \<and> can_platform x = p \<and> can_title x = title) (t_canned s)"

definition createCanned :: "env \<Rightarrow> auth_staff \<Rightarrow> ident \<Rightarrow> string \<Rightarrow> string \<Rightarrow> db \<Rightarrow> db res" where
  "createCanned e st p title body s =
     bind_res (assertPlatformAccess st p STAFF_WRITE_ROLES) (\<lambda>_.
       (let r = \<lparr>can_id = fresh_id s, can_platform = p, can_title = js_trim title, can_body = body,
                 can_created_by = Some (st_id st), can_created_at = now e, can_updated_at = now e\<rparr> in
        require (\<not> (list_ex (\<lambda>x. can_id x = can_id r) (t_canned s) \<or> canned_clash (can_id r) p (js_trim title) s))
          (Conflict ''A canned response with that title already exists on this platform.'')
        (require (find_platform p s \<noteq> None) db_error
          (Inr (draw_id (t_canned_update (\<lambda>rs. rs @ [r]) s))))))"

definition updateCanned ::
  "env \<Rightarrow> auth_staff \<Rightarrow> ident \<Rightarrow> ident \<Rightarrow> string option \<Rightarrow> string option \<Rightarrow> db \<Rightarrow> db res" where
  "updateCanned e st p i title body s =
     bind_res (assertPlatformAccess st p STAFF_WRITE_ROLES) (\<lambda>_.
       (case by_key can_id i (t_canned s) of
          None \<Rightarrow> Inl (NotFound ''Canned response not found.'')
        | Some r0 \<Rightarrow>
            require (can_platform r0 = p) (NotFound ''Canned response not found.'')
            (let r1 = (case title of None \<Rightarrow> r0 | Some t \<Rightarrow> r0\<lparr>can_title := js_trim t\<rparr>);
                 r2 = (case body of None \<Rightarrow> r1 | Some b \<Rightarrow> r1\<lparr>can_body := b\<rparr>)
             in require (\<not> canned_clash i p (can_title r2) s)
                  (Conflict ''A canned response with that title already exists on this platform.'')
                  (Inr (if r2 = r0 then s
                        else t_canned_update (replace_row can_id (r2\<lparr>can_updated_at := now e\<rparr>)) s)))))"

definition removeCanned :: "auth_staff \<Rightarrow> ident \<Rightarrow> ident \<Rightarrow> db \<Rightarrow> db res" where
  "removeCanned st p i s =
     bind_res (assertPlatformAccess st p STAFF_WRITE_ROLES) (\<lambda>_.
       (case by_key can_id i (t_canned s) of
          None \<Rightarrow> Inl (NotFound ''Canned response not found.'')
        | Some r0 \<Rightarrow>
            require (can_platform r0 = p) (NotFound ''Canned response not found.'')
              (Inr (t_canned_update (remove_key can_id i) s))))"

definition listCanned :: "auth_staff \<Rightarrow> ident \<Rightarrow> db \<Rightarrow> canned_response list res" where
  "listCanned st p s =
     bind_res (assertPlatformAccess st p STAFF_WRITE_ROLES) (\<lambda>_.
       Inr (sort_key can_title (filter (\<lambda>r. can_platform r = p) (t_canned s))))"

section \<open>The catalogs meet the contract\<close>

text \<open>The successful operations on the catalog of one platform, by anyone, at any time.\<close>

definition label_step :: "ident \<Rightarrow> db \<Rightarrow> db \<Rightarrow> bool" where
  "label_step p s s' = ((\<exists>e st nm color. createLabel e st p nm color s = Inr s')
     \<or> (\<exists>st lid. deleteLabel st p lid s = Inr s'))"

definition canned_step :: "ident \<Rightarrow> db \<Rightarrow> db \<Rightarrow> bool" where
  "canned_step p s s' = ((\<exists>e st t b. createCanned e st p t b s = Inr s')
     \<or> (\<exists>e st i t b. updateCanned e st p i t b s = Inr s') \<or> (\<exists>st i. removeCanned st p i s = Inr s'))"

interpretation label_catalog: tenant_catalog t_labels lab_id lab_platform lab_name label_step
proof
  fix p s s'
  assume "label_step p s s'"
  then show "(\<exists>r. t_labels s' = t_labels s @ [r] \<and> lab_platform r = p \<and> lab_id r \<notin> lab_id ` set (t_labels s)
           \<and> (\<forall>x \<in> set (t_labels s). lab_platform x = p \<longrightarrow> lab_name x \<noteq> lab_name r))
    \<or> (\<exists>r0 r. r0 \<in> set (t_labels s) \<and> lab_id r = lab_id r0 \<and> lab_platform r0 = p \<and> lab_platform r = p
           \<and> t_labels s' = replace_row lab_id r (t_labels s)
           \<and> (\<forall>x \<in> set (t_labels s). lab_platform x = p \<and> lab_id x \<noteq> lab_id r \<longrightarrow> lab_name x \<noteq> lab_name r))
    \<or> (\<exists>r0. r0 \<in> set (t_labels s) \<and> lab_platform r0 = p \<and> t_labels s' = remove_key lab_id (lab_id r0) (t_labels s))"
    unfolding label_step_def
  proof (elim disjE exE)
    fix e st nm color
    assume "createLabel e st p nm color s = Inr s'"
    then show ?thesis
      by (intro disjI1)
        (fastforce simp: createLabel_def Let_def res_iffs draw_id_def label_clash_def list_ex_iff image_iff)
  next
    fix st lid
    assume "deleteLabel st p lid s = Inr s'"
    then show ?thesis
      by (intro disjI2)
        (auto simp: deleteLabel_def res_iffs split: option.splits dest!: by_key_SomeD)
  qed
qed

lemma updateCanned_cases:
  assumes "updateCanned e st p i t b s = Inr s'" and "distinct (map can_id (t_canned s))"
  shows "\<exists>r0 r. r0 \<in> set (t_canned s) \<and> can_id r = can_id r0 \<and> can_platform r0 = p \<and> can_platform r = p
           \<and> t_canned s' = replace_row can_id r (t_canned s)
           \<and> (\<forall>x \<in> set (t_canned s). can_platform x = p \<and> can_id x \<noteq> can_id r \<longrightarrow> can_title x \<noteq> can_title r)"
proof -
  from assms(1) obtain r0 r2 where r0: "by_key can_id i (t_canned s) = Some r0" "can_platform r0 = p"
    and r2: "r2 = (let r1 = (case t of None \<Rightarrow> r0 | Some t \<Rightarrow> r0\<lparr>can_title := js_trim t\<rparr>)
                   in case b of None \<Rightarrow> r1 | Some b \<Rightarrow> r1\<lparr>can_body := b\<rparr>)"
    and cl: "\<not> canned_clash i p (can_title r2) s"
    and s': "s' = (if r2 = r0 then s else t_canned_update (replace_row can_id (r2\<lparr>can_updated_at := now e\<rparr>)) s)"
    by (auto simp: updateCanned_def Let_def res_iffs split: option.splits)
  from r0(1) have m: "r0 \<in> set (t_canned s)" "can_id r0 = i" by (auto dest: by_key_SomeD)
  have f: "can_id r2 = i" "can_platform r2 = p"
    using r0(2) m(2) by (auto simp: r2 Let_def split: option.splits)
  have un: "\<forall>x \<in> set (t_canned s). can_platform x = p \<and> can_id x \<noteq> i \<longrightarrow> can_title x \<noteq> can_title r2"
    using cl by (auto simp: canned_clash_def list_ex_iff)
  show ?thesis
  proof (cases "r2 = r0")
    case True
    with s' m replace_row_self [OF assms(2) m(1)] un r0(2) show ?thesis
      by (intro exI [of _ r0]) auto
  next
    case False
    with s' m r0(2) f un show ?thesis
      by (intro exI [of _ r0] exI [of _ "r2\<lparr>can_updated_at := now e\<rparr>"]) auto
  qed
qed

interpretation canned_catalog: tenant_catalog t_canned can_id can_platform can_title canned_step
proof
  fix p s s'
  assume d: "distinct (map can_id (t_canned s))" and "canned_step p s s'"
  then show "(\<exists>r. t_canned s' = t_canned s @ [r] \<and> can_platform r = p \<and> can_id r \<notin> can_id ` set (t_canned s)
           \<and> (\<forall>x \<in> set (t_canned s). can_platform x = p \<longrightarrow> can_title x \<noteq> can_title r))
    \<or> (\<exists>r0 r. r0 \<in> set (t_canned s) \<and> can_id r = can_id r0 \<and> can_platform r0 = p \<and> can_platform r = p
           \<and> t_canned s' = replace_row can_id r (t_canned s)
           \<and> (\<forall>x \<in> set (t_canned s). can_platform x = p \<and> can_id x \<noteq> can_id r \<longrightarrow> can_title x \<noteq> can_title r))
    \<or> (\<exists>r0. r0 \<in> set (t_canned s) \<and> can_platform r0 = p \<and> t_canned s' = remove_key can_id (can_id r0) (t_canned s))"
    unfolding canned_step_def
  proof (elim disjE exE)
    fix e st t b
    assume "createCanned e st p t b s = Inr s'"
    then show ?thesis
      by (intro disjI1)
        (fastforce simp: createCanned_def Let_def res_iffs draw_id_def canned_clash_def list_ex_iff image_iff)
  next
    fix e st i t b
    assume "updateCanned e st p i t b s = Inr s'"
    from updateCanned_cases [OF this d] show ?thesis by blast
  next
    fix st i
    assume "removeCanned st p i s = Inr s'"
    then show ?thesis
      by (intro disjI2)
        (auto simp: removeCanned_def res_iffs split: option.splits dest!: by_key_SomeD)
  qed
qed

section \<open>Tenancy of label assignments\<close>

definition labels_local :: "db \<Rightarrow> bool" where
  "labels_local s =
     (\<forall>il \<in> set (t_issue_labels s). \<exists>i l. find_issue (il_issue il) s = Some i
        \<and> by_key lab_id (il_label il) (t_labels s) = Some l \<and> lab_platform l = iss_platform i)"

datatype label_op =
    CreateLabel env auth_staff ident string "string option"
  | DeleteLabel auth_staff ident ident
  | AddLabelTo ident ident
  | RemoveLabelFrom ident ident

fun run_label_op :: "label_op \<Rightarrow> db \<Rightarrow> db res" where
  "run_label_op (CreateLabel e st p nm c) s = createLabel e st p nm c s"
| "run_label_op (DeleteLabel st p lid) s = deleteLabel st p lid s"
| "run_label_op (AddLabelTo iid lid) s = addLabelToIssue iid lid s"
| "run_label_op (RemoveLabelFrom iid lid) s = Inr (removeLabelFromIssue iid lid s)"

text \<open>A request that fails leaves the state; a sequence of requests goes on after it.\<close>

definition label_request :: "label_op \<Rightarrow> db \<Rightarrow> db" where
  "label_request r s = (case run_label_op r s of Inl _ \<Rightarrow> s | Inr s' \<Rightarrow> s')"

lemma labels_local_create:
  assumes "labels_local s" and "createLabel e st p nm c s = Inr s'"
  shows "labels_local s'"
proof -
  from assms(2) obtain l where t: "t_labels s' = t_labels s @ [l]" "t_issue_labels s' = t_issue_labels s"
    "t_issues s' = t_issues s"
    by (auto simp: createLabel_def Let_def res_iffs draw_id_def)
  with assms(1) show ?thesis
    by (fastforce simp: labels_local_def find_issue_def by_key_append)
qed

lemma labels_local_delete:
  assumes "labels_local s" and "deleteLabel st p lid s = Inr s'"
  shows "labels_local s'"
proof -
  from assms(2) have "t_labels s' = remove_key lab_id lid (t_labels s)" "t_issues s' = t_issues s"
    "t_issue_labels s' = filter (\<lambda>il. il_label il \<noteq> lid) (t_issue_labels s)"
    by (auto simp: deleteLabel_def res_iffs split: option.splits)
  with assms(1) show ?thesis
    by (auto simp: labels_local_def find_issue_def by_key_remove_other)
qed

lemma labels_local_add:
  assumes "labels_local s" and "addLabelToIssue iid lid s = Inr s'"
  shows "labels_local s'"
proof -
  from assms(2) obtain i l where il: "find_issue iid s = Some i" "by_key lab_id lid (t_labels s) = Some l"
    "lab_platform l = iss_platform i"
    and t: "s' = s \<or> t_issue_labels s' = t_issue_labels s @ [\<lparr>il_id = fresh_id s, il_issue = iid, il_label = lab_id l\<rparr>]"
    and f: "t_labels s' = t_labels s" "t_issues s' = t_issues s"
    by (auto simp: addLabelToIssue_def res_iffs draw_id_def split: option.splits if_splits)
  from il(2) have "lab_id l = lid" by (auto dest: by_key_SomeD)
  with assms(1) il t f show ?thesis by (auto simp: labels_local_def find_issue_def)
qed

lemma labels_local_remove: "labels_local s \<Longrightarrow> labels_local (removeLabelFromIssue iid lid s)"
  by (auto simp: labels_local_def removeLabelFromIssue_def find_issue_def remove_key_def split: option.splits)

lemma labels_local_request: "labels_local s \<Longrightarrow> labels_local (label_request r s)"
  by (cases r)
    (auto simp: label_request_def labels_local_remove
      intro: labels_local_create labels_local_delete labels_local_add split: sum.splits)

section \<open>Properties\<close>

text \<open>
  However the label and canned-response catalogs are used, by anyone
  on any platform and in any order, starting from empty catalogs no two labels of a platform
  have the same name and no two canned responses of a platform the same title.
\<close>

theorem catalog_names_unique:
  assumes "(\<lambda>s s'. \<exists>p. label_step p s s')\<^sup>*\<^sup>* s s1" and "(\<lambda>s s'. \<exists>p. canned_step p s s')\<^sup>*\<^sup>* s s2"
    and "t_labels s = []" and "t_canned s = []"
  shows "(\<forall>x \<in> set (t_labels s1). \<forall>y \<in> set (t_labels s1).
            lab_platform x = lab_platform y \<and> lab_name x = lab_name y \<longrightarrow> x = y)
       \<and> (\<forall>x \<in> set (t_canned s2). \<forall>y \<in> set (t_canned s2).
            can_platform x = can_platform y \<and> can_title x = can_title y \<longrightarrow> x = y)"
proof -
  have i: "label_catalog.catalog_inv s" "canned_catalog.catalog_inv s"
    by (rule label_catalog.catalog_invI canned_catalog.catalog_invI; simp add: assms)+
  note l = label_catalog.catalog_ts.reach_inv [OF assms(1) i(1)]
  note c = canned_catalog.catalog_ts.reach_inv [OF assms(2) i(2)]
  have "x = y" if "x \<in> set (t_labels s1)" "y \<in> set (t_labels s1)"
    "lab_platform x = lab_platform y" "lab_name x = lab_name y" for x y
    using l that label_catalog.catalog_invD [OF l] unfolding label_catalog.catalog_inv_def
    by (metis distinct_keys_eq)
  moreover have "x = y" if "x \<in> set (t_canned s2)" "y \<in> set (t_canned s2)"
    "can_platform x = can_platform y" "can_title x = can_title y" for x y
    using c that canned_catalog.catalog_invD [OF c] unfolding canned_catalog.catalog_inv_def
    by (metis distinct_keys_eq)
  ultimately show ?thesis by blast
qed

text \<open>
  A label never crosses a tenant boundary. Whatever sequence of
  label requests runs (creating, deleting, attaching, detaching, refused ones included),
  every label attached to an issue exists and belongs to the platform of that issue.
\<close>

theorem labels_stay_on_platform:
  assumes "labels_local s"
  shows "labels_local (fold label_request rs s)"
  by (rule fold_invariant) (simp_all add: labels_local_request assms)

theorem labels_stay_on_platform_witness:
  "labels_local (fold label_request [AddLabelTo ''i1'' ''l1'', AddLabelTo ''i1'' ''l2'']
     (empty_db\<lparr>t_issues := [sample_issue ''i1'' ''p1'' NEW],
        t_labels := [\<lparr>lab_id = ''l1'', lab_platform = ''p1'', lab_name = ''bug'', lab_color = ''#fff'', lab_created_at = 0\<rparr>,
                     \<lparr>lab_id = ''l2'', lab_platform = ''p2'', lab_name = ''bug'', lab_color = ''#fff'', lab_created_at = 0\<rparr>]\<rparr>))"
  by (rule labels_stay_on_platform) (simp add: labels_local_def sample_defs)

theorem catalog_names_unique_witness:
  "\<exists>s1. (\<lambda>s s'. \<exists>p. label_step p s s')\<^sup>*\<^sup>*
       (empty_db\<lparr>t_platforms := [sample_platform ''p1'' ''portal'']\<rparr>) s1 \<and> length (t_labels s1) = 1
     \<and> (\<forall>x \<in> set (t_labels s1). \<forall>y \<in> set (t_labels s1).
            lab_platform x = lab_platform y \<and> lab_name x = lab_name y \<longrightarrow> x = y)"
proof -
  let ?s = "empty_db\<lparr>t_platforms := [sample_platform ''p1'' ''portal'']\<rparr>"
  let ?st = "\<lparr>st_id = ''a'', st_idp_subject = ''local:a'', st_name = ''a'', st_email = ''a'',
     st_roles = [\<lparr>gr_role = ADMIN, gr_platform = None\<rparr>]\<rparr>"
  obtain s1 where c: "createLabel plain_env ?st ''p1'' ''bug'' None ?s = Inr s1" and one: "length (t_labels s1) = 1"
    by (simp add: createLabel_def assertPlatformAccess_def canAccessPlatform_def STAFF_WRITE_ROLES_def
        label_clash_def sample_defs find_platform_def by_key_Cons draw_id_def Let_def)
  from c have "label_step ''p1'' ?s s1" unfolding label_step_def by blast
  then have r: "(\<lambda>s s'. \<exists>p. label_step p s s')\<^sup>*\<^sup>* ?s s1" by (intro r_into_rtranclp) blast
  have "t_labels ?s = []" "t_canned ?s = []" by (simp_all add: empty_db_def)
  from catalog_names_unique [OF r rtranclp.rtrancl_refl this] r one show ?thesis by blast
qed

end
