(* ===== verification/Automation.thy ===== *)
theory Automation
  imports Issues Catalog
begin

text \<open>
  Automation rules of a platform (\<^verbatim>\<open>src/issues/automation.service.ts\<close>): their
  maintenance with the validation of the pair action and value, and the engine the listener
  runs when an issue is created or changes status.
\<close>

section \<open>Validation of the action value\<close>

definition assertAssignable :: "env \<Rightarrow> ident \<Rightarrow> ident \<Rightarrow> db \<Rightarrow> unit res" where
  "assertAssignable e uid p s =
     require (lib_isUUID e uid) (BadRequest ''actionValue for ASSIGN must be a staff id.'')
     (case find_staff uid s of
        None \<Rightarrow> Inl (BadRequest ''Assignee not found or inactive.'')
      | Some u \<Rightarrow>
          require (su_status u = ACCOUNT_ACTIVE) (BadRequest ''Assignee not found or inactive.'')
          (require (canAccessPlatform ((toAuthenticated u)\<lparr>st_roles := loadRoles (su_id u) s\<rparr>) p [DEVELOPER])
             (BadRequest ''Assignee is not a developer on this platform.'') (Inr ())))"

definition assertActionValue :: "env \<Rightarrow> ident \<Rightarrow> automation_action \<Rightarrow> string \<Rightarrow> db \<Rightarrow> unit res" where
  "assertActionValue e p a v s =
     (case a of
        SET_PRIORITY \<Rightarrow> require (priority_of_name v \<noteq> None)
          (BadRequest (''actionValue for SET_PRIORITY must be one of: ''
             @ join_with '', '' (map priority_name all_priorities) @ ''.'')) (Inr ())
      | ASSIGN \<Rightarrow> assertAssignable e v p s
      | ADD_LABEL \<Rightarrow>
          require (lib_isUUID e v) (BadRequest ''actionValue for ADD_LABEL must be a label id.'')
          (require (list_ex (\<lambda>l. lab_id l = v \<and> lab_platform l = p) (t_labels s))
             (BadRequest ''Label not found on this platform.'') (Inr ())))"

section \<open>Maintenance of the rules\<close>

record rule_dto =
  rd_name :: string
  rd_trigger :: automation_trigger
  rd_trigger_status :: "issue_status option"
  rd_action :: automation_action
  rd_action_value :: string
  rd_enabled :: "bool option"

text \<open>A field left out is \<^verbatim>\<open>None\<close>; \<^verbatim>\<open>triggerStatus\<close> may be set to null, hence two options.\<close>

record rule_patch =
  rp_name :: "string option"
  rp_enabled :: "bool option"
  rp_trigger :: "automation_trigger option"
  rp_trigger_status :: "issue_status option option"
  rp_action :: "automation_action option"
  rp_action_value :: "string option"

definition or_else :: "'a option \<Rightarrow> 'a \<Rightarrow> 'a" where
  "or_else x d = (case x of None \<Rightarrow> d | Some y \<Rightarrow> y)"

definition listRules :: "auth_staff \<Rightarrow> ident \<Rightarrow> db \<Rightarrow> automation_rule list res" where
  "listRules st p s =
     bind_res (assertPlatformAccess st p STAFF_WRITE_ROLES) (\<lambda>_.
       Inr (sort_key rule_created_at (filter (\<lambda>r. rule_platform r = p) (t_rules s))))"

definition createRule :: "env \<Rightarrow> auth_staff \<Rightarrow> ident \<Rightarrow> rule_dto \<Rightarrow> db \<Rightarrow> (automation_rule \<times> db) res" where
  "createRule e st p dto s =
     bind_res (assertPlatformAccess st p STAFF_WRITE_ROLES) (\<lambda>_.
     bind_res (assertActionValue e p (rd_action dto) (rd_action_value dto) s) (\<lambda>_.
     require (find_platform p s \<noteq> None \<and> by_key rule_id (fresh_id s) (t_rules s) = None) db_error
       (let r = \<lparr>rule_id = fresh_id s, rule_platform = p, rule_name = rd_name dto,
                 rule_enabled = or_else (rd_enabled dto) True, rule_trigger = rd_trigger dto,
                 rule_trigger_status = rd_trigger_status dto, rule_action = rd_action dto,
                 rule_action_value = rd_action_value dto, rule_created_by = Some (st_id st),
                 rule_created_at = now e\<rparr>
        in Inr (r, draw_id (t_rules_update (\<lambda>rs. rs @ [r]) s)))))"

definition find_rule :: "ident \<Rightarrow> ident \<Rightarrow> db \<Rightarrow> automation_rule res" where
  "find_rule p rid s =
     (case by_key rule_id rid (t_rules s) of
        None \<Rightarrow> Inl (NotFound ''Rule not found.'')
      | Some r \<Rightarrow> require (rule_platform r = p) (NotFound ''Rule not found.'') (Inr r))"

definition patch_rule :: "rule_patch \<Rightarrow> automation_rule \<Rightarrow> automation_rule" where
  "patch_rule d r = r\<lparr>rule_name := or_else (rp_name d) (rule_name r),
     rule_enabled := or_else (rp_enabled d) (rule_enabled r),
     rule_trigger := or_else (rp_trigger d) (rule_trigger r),
     rule_trigger_status := or_else (rp_trigger_status d) (rule_trigger_status r),
     rule_action := or_else (rp_action d) (rule_action r),
     rule_action_value := or_else (rp_action_value d) (rule_action_value r)\<rparr>"

definition updateRule ::
  "env \<Rightarrow> auth_staff \<Rightarrow> ident \<Rightarrow> ident \<Rightarrow> rule_patch \<Rightarrow> db \<Rightarrow> (automation_rule \<times> db) res" where
  "updateRule e st p rid d s =
     bind_res (assertPlatformAccess st p STAFF_WRITE_ROLES) (\<lambda>_.
     bind_res (find_rule p rid s) (\<lambda>r.
     bind_res (if rp_action d \<noteq> None \<or> rp_action_value d \<noteq> None
               then assertActionValue e p (rule_action (patch_rule d r)) (rule_action_value (patch_rule d r)) s
               else Inr ()) (\<lambda>_.
       Inr (patch_rule d r, t_rules_update (replace_row rule_id (patch_rule d r)) s))))"

definition removeRule :: "auth_staff \<Rightarrow> ident \<Rightarrow> ident \<Rightarrow> db \<Rightarrow> db res" where
  "removeRule st p rid s =
     bind_res (assertPlatformAccess st p STAFF_WRITE_ROLES) (\<lambda>_.
     bind_res (find_rule p rid s) (\<lambda>r. Inr (t_rules_update (remove_key rule_id rid) s)))"

section \<open>Engine\<close>

text \<open>The actor of automation writes: the empty string, equal to no recipient's id.\<close>

definition SYSTEM_ACTOR :: ident where
  "SYSTEM_ACTOR = ''''"

definition rule_meta :: "automation_rule \<Rightarrow> json option" where
  "rule_meta r = Some (JObj [(''automationRuleId'', JStr (rule_id r))])"

definition insert_issue_label :: "ident \<Rightarrow> ident \<Rightarrow> db \<Rightarrow> db" where
  "insert_issue_label iid lid s =
     (if list_ex (\<lambda>il. il_issue il = iid \<and> il_label il = lid) (t_issue_labels s) then s
      else draw_id (t_issue_labels_update (\<lambda>ls. ls @ [\<lparr>il_id = fresh_id s, il_issue = iid, il_label = lid\<rparr>]) s))"

text \<open>
  \<^verbatim>\<open>applyAction\<close>: the issue as held in memory, kept in step with the writes. An unknown
  priority or label fails in the database, inside the transaction.
\<close>

definition applyAction :: "env \<Rightarrow> automation_rule \<Rightarrow> issue \<Rightarrow> db \<Rightarrow> (issue \<times> db) res" where
  "applyAction e r i s =
     (let v = rule_action_value r; iid = iss_id i; p = iss_platform i in
      case rule_action r of
        SET_PRIORITY \<Rightarrow>
          (if priority_name (iss_priority i) = v then Inr (i, s)
           else (case priority_of_name v of
               None \<Rightarrow> Inl db_error
             | Some to \<Rightarrow>
                 Inr (i\<lparr>iss_priority := to\<rparr>,
                   emit (IssuePriorityChanged iid p (iss_priority i) to SYSTEM_ACTOR)
                     (audit_record e (Some iid) ACTOR_SYSTEM None ''PRIORITY_CHANGED'' (Some ''priority'')
                        (Some (priority_name (iss_priority i))) (Some v) (rule_meta r)
                        (qb_update e iid (\<lambda>x. x\<lparr>iss_priority := to\<rparr>) s)))))
      | ASSIGN \<Rightarrow>
          (if iss_assignee i = Some v then Inr (i, s)
           else bind_res (assertAssignable e v p s) (\<lambda>_.
             Inr (i\<lparr>iss_assignee := Some v\<rparr>,
               emit (IssueAssigned iid p (Some v) SYSTEM_ACTOR)
                 (audit_record e (Some iid) ACTOR_SYSTEM None ''ASSIGNED'' (Some ''assignee'')
                    (iss_assignee i) (Some v) (rule_meta r)
                    (qb_update e iid (\<lambda>x. x\<lparr>iss_assignee := Some v\<rparr>) s)))))
      | ADD_LABEL \<Rightarrow>
          (if by_key lab_id v (t_labels s) = None then Inl db_error
           else Inr (i,
             audit_record e (Some iid) ACTOR_SYSTEM None ''LABEL_ADDED'' (Some ''label'') None (Some v) (rule_meta r)
               (insert_issue_label iid v s))))"

fun run_rules :: "env \<Rightarrow> automation_rule list \<Rightarrow> issue \<Rightarrow> db \<Rightarrow> db" where
  "run_rules e [] i s = s"
| "run_rules e (r # rs) i s =
     (case applyAction e r i s of
        Inl _ \<Rightarrow> run_rules e rs i s
      | Inr (i', s') \<Rightarrow> run_rules e rs i' s')"

definition applyRules :: "env \<Rightarrow> ident \<Rightarrow> automation_rule list \<Rightarrow> db \<Rightarrow> db" where
  "applyRules e iid rules s =
     (if rules = [] then s
      else (case find_issue iid s of None \<Rightarrow> s | Some i \<Rightarrow> run_rules e rules i s))"

definition applyForCreated :: "env \<Rightarrow> ident \<Rightarrow> ident \<Rightarrow> db \<Rightarrow> db" where
  "applyForCreated e iid p s =
     applyRules e iid (filter (\<lambda>r. rule_platform r = p \<and> rule_enabled r \<and> rule_trigger r = ISSUE_CREATED) (t_rules s)) s"

definition applyForStatusChanged :: "env \<Rightarrow> ident \<Rightarrow> ident \<Rightarrow> issue_status \<Rightarrow> db \<Rightarrow> db" where
  "applyForStatusChanged e iid p to s =
     applyRules e iid (filter (\<lambda>r. rule_trigger_status r = None \<or> rule_trigger_status r = Some to)
       (filter (\<lambda>r. rule_platform r = p \<and> rule_enabled r \<and> rule_trigger r = STATUS_CHANGED) (t_rules s))) s"

lemma list_all2_mem2: "list_all2 R xs ys \<Longrightarrow> y \<in> set ys \<Longrightarrow> \<exists>x \<in> set xs. R x y"
  by (induction rule: list_all2_induct) auto

section \<open>Facts\<close>

text \<open>Who may be assigned work on a platform, read off the tables.\<close>

definition may_develop :: "db \<Rightarrow> ident \<Rightarrow> ident \<Rightarrow> bool" where
  "may_develop s p uid =
     (case find_staff uid s of
        None \<Rightarrow> False
      | Some u \<Rightarrow> su_status u = ACCOUNT_ACTIVE
          \<and> list_ex (\<lambda>g. upr_staff_user g = uid \<and> upr_role g = DEVELOPER
               \<and> (upr_platform g = None \<or> upr_platform g = Some p)) (t_roles s))"

lemma assertAssignable_may_develop: "assertAssignable e uid p s = Inr u \<Longrightarrow> may_develop s p uid"
proof -
  assume "assertAssignable e uid p s = Inr u"
  then obtain x where x: "find_staff uid s = Some x" "su_status x = ACCOUNT_ACTIVE"
    "canAccessPlatform ((toAuthenticated x)\<lparr>st_roles := loadRoles (su_id x) s\<rparr>) p [DEVELOPER]"
    by (auto simp: assertAssignable_def res_iffs split: option.splits)
  from x(1) have "su_id x = uid" by (auto simp: find_staff_def dest: by_key_SomeD)
  with x show ?thesis
    by (auto simp: may_develop_def canAccessPlatform_def list_ex_iff loadRoles_def)
qed

text \<open>
  How a run of the engine may change a row: only the issue it runs for, only priority and
  assignee (the assignee to someone who may develop), besides the columns every update moves.
\<close>

definition core_columns :: "issue \<Rightarrow> issue" where
  "core_columns i = i\<lparr>iss_priority := LOW, iss_assignee := None, iss_version := 0, iss_updated_at := 0\<rparr>"

definition auto_row :: "db \<Rightarrow> ident \<Rightarrow> issue \<Rightarrow> issue \<Rightarrow> bool" where
  "auto_row s iid i j =
     (j = i \<or> (iss_id i = iid \<and> core_columns j = core_columns i \<and> iss_version i \<le> iss_version j
        \<and> (iss_assignee j = iss_assignee i
           \<or> (\<exists>x. iss_assignee j = Some x \<and> may_develop s (iss_platform i) x))))"

lemma core_columnsD:
  assumes "core_columns a = core_columns b"
  shows "iss_status a = iss_status b" "iss_id a = iss_id b" "iss_platform a = iss_platform b"
    "iss_duplicate_of a = iss_duplicate_of b" "iss_resolved_at a = iss_resolved_at b"
    "iss_closed_at a = iss_closed_at b"
proof -
  from arg_cong [OF assms, of iss_status] show "iss_status a = iss_status b" by (simp add: core_columns_def)
  from arg_cong [OF assms, of iss_id] show "iss_id a = iss_id b" by (simp add: core_columns_def)
  from arg_cong [OF assms, of iss_platform] show "iss_platform a = iss_platform b" by (simp add: core_columns_def)
  from arg_cong [OF assms, of iss_duplicate_of] show "iss_duplicate_of a = iss_duplicate_of b" by (simp add: core_columns_def)
  from arg_cong [OF assms, of iss_resolved_at] show "iss_resolved_at a = iss_resolved_at b" by (simp add: core_columns_def)
  from arg_cong [OF assms, of iss_closed_at] show "iss_closed_at a = iss_closed_at b" by (simp add: core_columns_def)
qed

lemma auto_row_priority:
  "iss_id i = iid \<Longrightarrow> auto_row s iid i (i\<lparr>iss_priority := pr, iss_updated_at := t, iss_version := iss_version i + 1\<rparr>)"
  by (cases i) (simp add: auto_row_def core_columns_def)

lemma auto_row_assignee:
  "iss_id i = iid \<Longrightarrow> may_develop s (iss_platform i) x \<Longrightarrow>
     auto_row s iid i (i\<lparr>iss_assignee := Some x, iss_updated_at := t, iss_version := iss_version i + 1\<rparr>)"
  by (cases i) (simp add: auto_row_def core_columns_def)

lemma auto_row_refl [simp]: "auto_row s iid i i"
  by (simp add: auto_row_def)

lemma auto_row_platform: "auto_row s iid i j \<Longrightarrow> iss_platform j = iss_platform i \<and> iss_id j = iss_id i"
  unfolding auto_row_def by (elim disjE conjE) (auto dest: core_columnsD)

lemma auto_row_trans:
  assumes ij: "auto_row s iid i j" and jk: "auto_row s iid j k"
  shows "auto_row s iid i k"
proof (cases "j = i \<or> k = j")
  case True
  with assms show ?thesis by metis
next
  case False
  note p = auto_row_platform [OF ij]
  from False ij jk have "core_columns k = core_columns i" "iss_version i \<le> iss_version k"
    unfolding auto_row_def by (metis, linarith)
  moreover from False ij jk p have "iss_assignee k = iss_assignee i
      \<or> (\<exists>x. iss_assignee k = Some x \<and> may_develop s (iss_platform i) x)"
    unfolding auto_row_def by metis
  moreover from False ij have "iss_id i = iid" unfolding auto_row_def by metis
  ultimately show ?thesis unfolding auto_row_def by metis
qed

fun auto_event :: "ident \<Rightarrow> domain_event \<Rightarrow> bool" where
  "auto_event iid (IssuePriorityChanged i p a b u) = (i = iid \<and> u = '''')"
| "auto_event iid (IssueAssigned i p a u) = (i = iid \<and> u = '''')"
| "auto_event iid _ = False"

definition auto_frame :: "ident \<Rightarrow> db \<Rightarrow> db \<Rightarrow> bool" where
  "auto_frame iid s s' =
     (list_all2 (auto_row s iid) (t_issues s) (t_issues s')
      \<and> (\<exists>evs. outbox s' = outbox s @ evs \<and> list_all (auto_event iid) evs)
      \<and> t_staff s' = t_staff s \<and> t_roles s' = t_roles s \<and> t_labels s' = t_labels s
      \<and> t_comments s' = t_comments s \<and> t_rules s' = t_rules s)"

lemma auto_frame_refl: "auto_frame iid s s"
  by (simp add: auto_frame_def list.rel_refl)

lemma auto_row_cong: "t_staff s = t_staff s' \<Longrightarrow> t_roles s = t_roles s' \<Longrightarrow> auto_row s = auto_row s'"
proof -
  assume "t_staff s = t_staff s'" "t_roles s = t_roles s'"
  then have "may_develop s = may_develop s'"
    by (intro ext) (simp add: may_develop_def find_staff_def split: option.splits)
  then show ?thesis by (intro ext) (simp only: auto_row_def)
qed

lemma auto_frame_trans:
  assumes st: "auto_frame iid s t" and tu: "auto_frame iid t u"
  shows "auto_frame iid s u"
proof -
  have eq: "auto_row t = auto_row s"
    using st by (intro auto_row_cong) (simp_all add: auto_frame_def)
  from st have 1: "list_all2 (auto_row s iid) (t_issues s) (t_issues t)" by (simp add: auto_frame_def)
  from tu eq have 2: "list_all2 (auto_row s iid) (t_issues t) (t_issues u)" by (simp add: auto_frame_def)
  have rows: "list_all2 (auto_row s iid) (t_issues s) (t_issues u)"
    by (rule list_all2_trans [OF _ 1 2]) (rule auto_row_trans)
  obtain e1 where e1: "outbox t = outbox s @ e1" "list_all (auto_event iid) e1"
    using st unfolding auto_frame_def by blast
  obtain e2 where e2: "outbox u = outbox t @ e2" "list_all (auto_event iid) e2"
    using tu unfolding auto_frame_def by blast
  have "outbox u = outbox s @ (e1 @ e2) \<and> list_all (auto_event iid) (e1 @ e2)"
    using e1 e2 by simp
  with rows st tu show ?thesis unfolding auto_frame_def by metis
qed

lemma qb_update_simps [simp]:
  "t_staff (qb_update e iid f s) = t_staff s" "t_roles (qb_update e iid f s) = t_roles s"
  "t_labels (qb_update e iid f s) = t_labels s" "t_comments (qb_update e iid f s) = t_comments s"
  "t_rules (qb_update e iid f s) = t_rules s" "outbox (qb_update e iid f s) = outbox s"
  "t_issue_labels (qb_update e iid f s) = t_issue_labels s"
  by (simp_all add: qb_update_def)

lemma insert_issue_label_simps [simp]:
  "t_issues (insert_issue_label iid lid s) = t_issues s" "outbox (insert_issue_label iid lid s) = outbox s"
  "t_staff (insert_issue_label iid lid s) = t_staff s" "t_roles (insert_issue_label iid lid s) = t_roles s"
  "t_labels (insert_issue_label iid lid s) = t_labels s" "t_comments (insert_issue_label iid lid s) = t_comments s"
  "t_rules (insert_issue_label iid lid s) = t_rules s"
  by (simp_all add: insert_issue_label_def draw_id_def)

lemma auto_frame_qb:
  assumes "\<And>i. i \<in> set (t_issues s) \<Longrightarrow> iss_id i = iid \<Longrightarrow>
      auto_row s iid i ((f i)\<lparr>iss_updated_at := now e, iss_version := iss_version i + 1\<rparr>)"
    and "auto_event iid ev"
  shows "auto_frame iid s (emit ev (audit_record e a aty aid act fld ov nv m (qb_update e iid f s)))"
  using assms by (simp add: auto_frame_def qb_update_def list_all2_map2 list_all2_same)

lemma applyAction_frame:
  assumes "applyAction e r i s = Inr (i', s')"
    and "\<forall>x \<in> set (t_issues s). iss_id x = iss_id i \<longrightarrow> iss_platform x = iss_platform i"
  shows "auto_frame (iss_id i) s s' \<and> iss_id i' = iss_id i \<and> iss_platform i' = iss_platform i"
proof (cases "rule_action r")
  case SET_PRIORITY
  show ?thesis
  proof (cases "priority_name (iss_priority i) = rule_action_value r")
    case True
    with assms(1) SET_PRIORITY show ?thesis by (simp add: applyAction_def auto_frame_refl)
  next
    case False
    with assms(1) SET_PRIORITY obtain to where "i' = i\<lparr>iss_priority := to\<rparr>" and
      s': "s' = emit (IssuePriorityChanged (iss_id i) (iss_platform i) (iss_priority i) to SYSTEM_ACTOR)
           (audit_record e (Some (iss_id i)) ACTOR_SYSTEM None ''PRIORITY_CHANGED'' (Some ''priority'')
              (Some (priority_name (iss_priority i))) (Some (rule_action_value r)) (rule_meta r)
              (qb_update e (iss_id i) (\<lambda>x. x\<lparr>iss_priority := to\<rparr>) s))"
      by (auto simp: applyAction_def Let_def split: option.splits)
    moreover have "auto_frame (iss_id i) s s'"
      unfolding s' by (rule auto_frame_qb) (simp_all add: auto_row_priority SYSTEM_ACTOR_def)
    ultimately show ?thesis by simp
  qed
next
  case ASSIGN
  show ?thesis
  proof (cases "iss_assignee i = Some (rule_action_value r)")
    case True
    with assms(1) ASSIGN show ?thesis by (simp add: applyAction_def auto_frame_refl)
  next
    case False
    with assms(1) ASSIGN have ok: "may_develop s (iss_platform i) (rule_action_value r)"
      and i': "i' = i\<lparr>iss_assignee := Some (rule_action_value r)\<rparr>" and
      s': "s' = emit (IssueAssigned (iss_id i) (iss_platform i) (Some (rule_action_value r)) SYSTEM_ACTOR)
           (audit_record e (Some (iss_id i)) ACTOR_SYSTEM None ''ASSIGNED'' (Some ''assignee'')
              (iss_assignee i) (Some (rule_action_value r)) (rule_meta r)
              (qb_update e (iss_id i) (\<lambda>x. x\<lparr>iss_assignee := Some (rule_action_value r)\<rparr>) s))"
      by (auto simp: applyAction_def Let_def bind_res_Inr_iff dest: assertAssignable_may_develop)
    have "auto_frame (iss_id i) s s'"
      unfolding s'
    proof (rule auto_frame_qb)
      fix x assume "x \<in> set (t_issues s)" "iss_id x = iss_id i"
      with assms(2) ok have "may_develop s (iss_platform x) (rule_action_value r)" by simp
      with \<open>iss_id x = iss_id i\<close> show "auto_row s (iss_id i) x
          (x\<lparr>iss_assignee := Some (rule_action_value r), iss_updated_at := now e, iss_version := iss_version x + 1\<rparr>)"
        by (simp add: auto_row_assignee)
    qed (simp add: SYSTEM_ACTOR_def)
    with i' show ?thesis by simp
  qed
next
  case ADD_LABEL
  with assms(1) have "i' = i" "s' = audit_record e (Some (iss_id i)) ACTOR_SYSTEM None ''LABEL_ADDED'' (Some ''label'')
      None (Some (rule_action_value r)) (rule_meta r) (insert_issue_label (iss_id i) (rule_action_value r) s)"
    by (auto simp: applyAction_def Let_def split: if_splits)
  then show ?thesis by (simp add: auto_frame_def list.rel_refl)
qed

lemma run_rules_frame:
  "(\<forall>x \<in> set (t_issues s). iss_id x = iss_id i \<longrightarrow> iss_platform x = iss_platform i) \<Longrightarrow>
     auto_frame (iss_id i) s (run_rules e rs i s)"
proof (induction rs arbitrary: i s)
  case Nil
  show ?case by (simp add: auto_frame_refl)
next
  case (Cons r rs)
  show ?case
  proof (cases "applyAction e r i s")
    case (Inl err)
    with Cons show ?thesis by simp
  next
    case (Inr p)
    obtain i' s' where p: "p = (i', s')" by (cases p)
    from applyAction_frame [OF Inr [unfolded p] Cons.prems]
    have f: "auto_frame (iss_id i) s s'" and i': "iss_id i' = iss_id i" "iss_platform i' = iss_platform i" by auto
    have "\<forall>x \<in> set (t_issues s'). iss_id x = iss_id i' \<longrightarrow> iss_platform x = iss_platform i'"
    proof (intro ballI impI)
      fix x assume "x \<in> set (t_issues s')" "iss_id x = iss_id i'"
      with f obtain y where "y \<in> set (t_issues s)" "auto_row s (iss_id i) y x"
        unfolding auto_frame_def by (metis list_all2_mem2)
      with Cons.prems \<open>iss_id x = iss_id i'\<close> i' show "iss_platform x = iss_platform i'"
        by (auto dest!: auto_row_platform)
    qed
    from Cons.IH [OF this] i' f p Inr show ?thesis by (auto intro: auto_frame_trans)
  qed
qed

lemma applyRules_frame:
  assumes "distinct (map iss_id (t_issues s))"
  shows "auto_frame iid s (applyRules e iid rs s)"
proof (cases "find_issue iid s")
  case None
  then show ?thesis by (simp add: applyRules_def auto_frame_refl)
next
  case (Some i)
  then have id: "iss_id i = iid" "i \<in> set (t_issues s)" by (auto dest: find_issueD)
  have "\<forall>x \<in> set (t_issues s). iss_id x = iss_id i \<longrightarrow> iss_platform x = iss_platform i"
    using distinct_keys_eq [OF assms _ id(2)] by blast
  from run_rules_frame [OF this] Some id show ?thesis by (auto simp: applyRules_def auto_frame_refl)
qed

section \<open>Properties of the engine\<close>

lemma auto_row_facts:
  assumes "auto_row s iid i j"
  shows "iss_id j = iss_id i" "iss_status j = iss_status i" "iss_resolved_at j = iss_resolved_at i"
    "iss_closed_at j = iss_closed_at i" "iss_duplicate_of j = iss_duplicate_of i"
    "iss_platform j = iss_platform i" "iss_id i \<noteq> iid \<Longrightarrow> j = i"
    "iss_assignee j \<noteq> iss_assignee i \<Longrightarrow> \<exists>x. iss_assignee j = Some x \<and> may_develop s (iss_platform i) x"
proof -
  from assms have d: "j = i \<or> core_columns j = core_columns i" unfolding auto_row_def by blast
  from d show "iss_id j = iss_id i" "iss_status j = iss_status i" "iss_resolved_at j = iss_resolved_at i"
    "iss_closed_at j = iss_closed_at i" "iss_duplicate_of j = iss_duplicate_of i"
    "iss_platform j = iss_platform i"
    by (metis core_columnsD)+
  from assms show "iss_id i \<noteq> iid \<Longrightarrow> j = i" unfolding auto_row_def by metis
  from assms show "iss_assignee j \<noteq> iss_assignee i \<Longrightarrow> \<exists>x. iss_assignee j = Some x \<and> may_develop s (iss_platform i) x"
    unfolding auto_row_def by metis
qed

lemma applyForStatusChanged_frame:
  "distinct (map iss_id (t_issues s)) \<Longrightarrow> auto_frame iid s (applyForStatusChanged e iid p to s)"
  unfolding applyForStatusChanged_def by (rule applyRules_frame)

lemma applyForCreated_frame:
  "distinct (map iss_id (t_issues s)) \<Longrightarrow> auto_frame iid s (applyForCreated e iid p s)"
  unfolding applyForCreated_def by (rule applyRules_frame)

lemma auto_frame_rowD:
  assumes "auto_frame iid s s'" and "j \<in> set (t_issues s')"
  obtains i where "i \<in> set (t_issues s)" "auto_row s iid i j"
  using assms unfolding auto_frame_def by (metis list_all2_mem2)

lemma auto_event_not_status: "auto_event iid ev \<Longrightarrow> ev \<noteq> IssueStatusChanged a b c d u \<and> ev \<noteq> IssueCreated a b"
  by auto

text \<open>
  C18: Whatever rules are stored, a run of the automation engine for
  an issue that was created or changed status moves no lifecycle column of any issue and no
  column at all of any other issue; it hands the issue only to an active developer of the
  issue's platform; it announces only its own assignments and priority changes, with the empty
  actor, and never a status change or a creation, so the engine cannot trigger itself.
\<close>

theorem automation_stays_in_its_lane:
  assumes keys: "distinct (map iss_id (t_issues s))"
    and run: "s' = applyForStatusChanged e iid p to s \<or> s' = applyForCreated e iid p s"
    and j: "j \<in> set (t_issues s')"
  shows "\<exists>i \<in> set (t_issues s). iss_id j = iss_id i \<and> iss_status j = iss_status i
      \<and> iss_resolved_at j = iss_resolved_at i \<and> iss_closed_at j = iss_closed_at i
      \<and> iss_duplicate_of j = iss_duplicate_of i \<and> iss_platform j = iss_platform i
      \<and> (iss_id i \<noteq> iid \<longrightarrow> j = i)
      \<and> (iss_assignee j \<noteq> iss_assignee i \<longrightarrow>
           (\<exists>x. iss_assignee j = Some x \<and> may_develop s (iss_platform i) x))
      \<and> (\<exists>evs. outbox s' = outbox s @ evs
           \<and> (\<forall>ev \<in> set evs. (\<exists>q a b. ev = IssuePriorityChanged iid q a b '''')
                \<or> (\<exists>q a. ev = IssueAssigned iid q a '''')))"
proof -
  from run have f: "auto_frame iid s s'"
    using applyForStatusChanged_frame [OF keys] applyForCreated_frame [OF keys] by metis
  obtain i where i: "i \<in> set (t_issues s)" "auto_row s iid i j" by (rule auto_frame_rowD [OF f j])
  note r = auto_row_facts [OF i(2)]
  obtain evs where evs: "outbox s' = outbox s @ evs" "list_all (auto_event iid) evs"
    using f unfolding auto_frame_def by blast
  have "(\<exists>q a b. ev = IssuePriorityChanged iid q a b '''') \<or> (\<exists>q a. ev = IssueAssigned iid q a '''')"
    if "ev \<in> set evs" for ev
  proof -
    from that evs(2) have "auto_event iid ev" by (simp add: list_all_iff)
    then show ?thesis by (cases ev) auto
  qed
  with r i(1) evs(1) show ?thesis by blast
qed

definition demo_rule :: "automation_action \<Rightarrow> string \<Rightarrow> automation_rule" where
  "demo_rule a v = \<lparr>rule_id = ''k'' @ v, rule_platform = ''p1'', rule_name = ''rule'', rule_enabled = True,
     rule_trigger = ISSUE_CREATED, rule_trigger_status = None, rule_action = a, rule_action_value = v,
     rule_created_by = None, rule_created_at = 0\<rparr>"

lemma demo_distinct: "distinct (map iss_id (t_issues demo_db))"
  by (simp add: demo_defs)

theorem automation_stays_in_its_lane_witness:
  "\<exists>j i. j \<in> set (t_issues (applyForCreated plain_env ''i1'' ''p1''
            (demo_db\<lparr>t_rules := [demo_rule SET_PRIORITY ''LOW'']\<rparr>)))
     \<and> i \<in> set (t_issues demo_db) \<and> iss_id i = ''i1'' \<and> iss_priority j = LOW \<and> iss_priority i = HIGH
     \<and> iss_status j = iss_status i"
proof -
  let ?s = "demo_db\<lparr>t_rules := [demo_rule SET_PRIORITY ''LOW'']\<rparr>"
  let ?i = "sample_issue ''i1'' ''p1'' NEW"
  let ?j = "?i\<lparr>iss_priority := LOW, iss_updated_at := now plain_env, iss_version := 2\<rparr>"
  have j: "?j \<in> set (t_issues (applyForCreated plain_env ''i1'' ''p1'' ?s))"
    by (simp add: applyForCreated_def applyRules_def demo_rule_def applyAction_def Let_def demo_defs
        find_issue_def by_key_Cons priority_of_name_def all_priorities_def qb_update_def)
  have k: "distinct (map iss_id (t_issues ?s))" using demo_distinct by simp
  have "\<exists>i \<in> set (t_issues ?s). iss_id ?j = iss_id i \<and> iss_status ?j = iss_status i"
    using automation_stays_in_its_lane [OF k disjI2 [OF refl] j] by blast
  then have "iss_status ?j = iss_status ?i" by (simp add: sample_issue_def)
  with j show ?thesis
    by (intro exI [of _ ?j] exI [of _ ?i]) (simp add: demo_defs)
qed

section \<open>Validity of the stored rules\<close>

text \<open>
  A rule the engine can act on: the value of a priority rule is a priority, the label of a
  labelling rule belongs to the platform of the rule.
\<close>

definition rule_ok :: "db \<Rightarrow> automation_rule \<Rightarrow> bool" where
  "rule_ok s r =
     (case rule_action r of
        SET_PRIORITY \<Rightarrow> priority_of_name (rule_action_value r) \<noteq> None
      | ASSIGN \<Rightarrow> True
      | ADD_LABEL \<Rightarrow> list_ex (\<lambda>l. lab_id l = rule_action_value r \<and> lab_platform l = rule_platform r) (t_labels s))"

definition rules_ok :: "db \<Rightarrow> bool" where
  "rules_ok s = list_all (rule_ok s) (t_rules s)"

lemma assertActionValue_ok:
  "assertActionValue e (rule_platform r) (rule_action r) (rule_action_value r) s = Inr u \<Longrightarrow> rule_ok s r"
  by (auto simp: assertActionValue_def rule_ok_def res_iffs split: automation_action.splits)

lemma rule_ok_cong: "t_labels s' = t_labels s \<Longrightarrow> rule_ok s' = rule_ok s"
  by (intro ext) (simp add: rule_ok_def split: automation_action.split)

lemma create_keeps_rules:
  assumes "rules_ok s" and "createRule e st p dto s = Inr (r, s')"
  shows "rules_ok s'"
proof -
  from assms(2) have v: "assertActionValue e p (rd_action dto) (rd_action_value dto) s = Inr ()"
    and r: "rule_platform r = p" "rule_action r = rd_action dto" "rule_action_value r = rd_action_value dto"
    and s': "s' = draw_id (t_rules_update (\<lambda>rs. rs @ [r]) s)"
    by (auto simp: createRule_def res_iffs Let_def)
  from v r have "rule_ok s r" using assertActionValue_ok by metis
  moreover have "rule_ok s' = rule_ok s" by (rule rule_ok_cong) (simp add: s' draw_id_def)
  ultimately show ?thesis using assms(1) by (simp add: rules_ok_def s' draw_id_def)
qed

lemma update_keeps_rules:
  assumes "rules_ok s" and "updateRule e st p rid d s = Inr (r', s')"
  shows "rules_ok s'"
proof -
  from assms(2) obtain r where f: "find_rule p rid s = Inr r" and r': "r' = patch_rule d r"
    and s': "s' = t_rules_update (replace_row rule_id r') s"
    and v: "rp_action d \<noteq> None \<or> rp_action_value d \<noteq> None \<longrightarrow>
        assertActionValue e p (rule_action r') (rule_action_value r') s = Inr ()"
    by (auto simp: updateRule_def res_iffs split: if_splits)
  from f have r: "r \<in> set (t_rules s)" "rule_platform r = p"
    by (auto simp: find_rule_def res_iffs dest: by_key_SomeD split: option.splits)
  have "rule_ok s r'"
  proof (cases "rp_action d \<noteq> None \<or> rp_action_value d \<noteq> None")
    case True
    have "rule_platform r' = p" using r r' by (simp add: patch_rule_def)
    with True v show ?thesis using assertActionValue_ok [of e r' s] by blast
  next
    case False
    with assms(1) r r' show ?thesis
      by (auto simp: rules_ok_def list_all_iff rule_ok_def patch_rule_def or_else_def split: automation_action.splits)
  qed
  moreover have "rule_ok s' = rule_ok s" by (rule rule_ok_cong) (simp add: s')
  ultimately show ?thesis
    using assms(1) by (auto simp: rules_ok_def s' list_all_iff dest!: in_replace_rowD)
qed

lemma remove_keeps_rules: "rules_ok s \<Longrightarrow> removeRule st p rid s = Inr s' \<Longrightarrow> rules_ok s'"
  by (auto simp: removeRule_def res_iffs rules_ok_def remove_key_def list_all_iff rule_ok_def
      split: automation_action.splits)

datatype rule_op =
    CreateRule env auth_staff ident rule_dto
  | UpdateRule env auth_staff ident ident rule_patch
  | RemoveRule auth_staff ident ident
  | RunRules env ident ident issue_status

text \<open>One request or one run of the engine; a refused request leaves the tables alone.\<close>

fun rule_request :: "rule_op \<Rightarrow> db \<Rightarrow> db" where
  "rule_request (CreateRule e st p d) s = (case createRule e st p d s of Inl _ \<Rightarrow> s | Inr (_, s') \<Rightarrow> s')"
| "rule_request (UpdateRule e st p i d) s = (case updateRule e st p i d s of Inl _ \<Rightarrow> s | Inr (_, s') \<Rightarrow> s')"
| "rule_request (RemoveRule st p i) s = (case removeRule st p i s of Inl _ \<Rightarrow> s | Inr s' \<Rightarrow> s')"
| "rule_request (RunRules e iid p to) s = applyForStatusChanged e iid p to s"

lemma applyRules_tables:
  "t_rules (applyRules e iid rs s) = t_rules s \<and> t_labels (applyRules e iid rs s) = t_labels s"
proof -
  have a: "t_rules s' = t_rules s \<and> t_labels s' = t_labels s" if "applyAction e r i s = Inr (i', s')" for r i i' s s'
    using that by (auto simp: applyAction_def Let_def bind_res_Inr_iff
        split: automation_action.splits if_splits option.splits)
  have "t_rules (run_rules e rs i s) = t_rules s \<and> t_labels (run_rules e rs i s) = t_labels s" for i s
    by (induction rs arbitrary: i s) (auto split: sum.splits dest: a)
  then show ?thesis by (simp add: applyRules_def split: option.splits)
qed

lemma rule_request_keeps:
  assumes ok: "rules_ok s"
  shows "rules_ok (rule_request op s)"
proof (cases op)
  case (CreateRule e st p d)
  show ?thesis
  proof (cases "createRule e st p d s")
    case (Inr x)
    then show ?thesis using CreateRule create_keeps_rules [OF ok, of e st p d "fst x" "snd x"]
      by (cases x) simp
  qed (simp add: CreateRule ok)
next
  case (UpdateRule e st p i d)
  show ?thesis
  proof (cases "updateRule e st p i d s")
    case (Inr x)
    then show ?thesis using UpdateRule update_keeps_rules [OF ok, of e st p i d "fst x" "snd x"]
      by (cases x) simp
  qed (simp add: UpdateRule ok)
next
  case (RemoveRule st p i)
  show ?thesis
  proof (cases "removeRule st p i s")
    case (Inr x)
    then show ?thesis using RemoveRule remove_keeps_rules [OF ok] by simp
  qed (simp add: RemoveRule ok)
next
  case (RunRules e iid p to)
  let ?s = "applyForStatusChanged e iid p to s"
  have "t_rules ?s = t_rules s" "t_labels ?s = t_labels s"
    by (simp_all add: applyForStatusChanged_def applyRules_tables)
  then show ?thesis using ok rule_ok_cong [of ?s s] by (simp add: RunRules rules_ok_def)
qed

interpretation rule_system: transition_system "\<lambda>s t. \<exists>op. t = rule_request op s" rules_ok
  by unfold_locales (auto intro: rule_request_keeps)

text \<open>
  As long as no label is deleted, however rules are created, edited (only the value, only the
  action, or neither) and removed, and however often the engine runs in between, every stored
  priority rule carries the name of a priority and every stored labelling rule a label of the
  rule's own platform; the engine's attempt at either never fails.
\<close>

theorem stored_rules_stay_actionable:
  assumes "rules_ok s" and "s' = fold rule_request ops s" and "r \<in> set (t_rules s')"
    and "rule_action r \<noteq> ASSIGN"
  shows "rule_ok s' r \<and> (\<exists>res. applyAction e r i s' = Inr res)"
proof -
  have "(\<lambda>s t. \<exists>op. t = rule_request op s)\<^sup>*\<^sup>* s s'"
    unfolding assms(2)
  proof (induction ops arbitrary: s)
    case (Cons a ops)
    have "(\<lambda>s t. \<exists>op. t = rule_request op s)\<^sup>*\<^sup>* s (rule_request a s)" by (rule r_into_rtranclp) blast
    with Cons.IH [of "rule_request a s"] show ?case by (simp add: rtranclp_trans)
  qed simp
  from rule_system.reach_inv [OF this assms(1)] have "rules_ok s'" .
  with assms(3) have ok: "rule_ok s' r" by (simp add: rules_ok_def list_all_iff)
  moreover have "\<exists>res. applyAction e r i s' = Inr res"
    using ok assms(4) by (cases "rule_action r")
      (auto simp: rule_ok_def applyAction_def Let_def by_key_None_iff list_ex_iff split: option.splits, force)
  ultimately show ?thesis by blast
qed

theorem stored_rules_stay_actionable_witness:
  "\<exists>s' r. t_rules s' = [r] \<and> rule_action_value r = ''LOW'' \<and> rule_ok s' r
     \<and> s' = rule_request (UpdateRule plain_env dev_staff ''p1'' ''kHIGH''
         \<lparr>rp_name = None, rp_enabled = None, rp_trigger = None, rp_trigger_status = None,
            rp_action = None, rp_action_value = Some ''LOW''\<rparr>)
         (demo_db\<lparr>t_rules := [demo_rule SET_PRIORITY ''HIGH'']\<rparr>)"
proof -
  let ?d = "\<lparr>rp_name = None, rp_enabled = None, rp_trigger = None, rp_trigger_status = None,
            rp_action = None, rp_action_value = Some ''LOW''\<rparr>"
  let ?s = "demo_db\<lparr>t_rules := [demo_rule SET_PRIORITY ''HIGH'']\<rparr>"
  let ?op = "UpdateRule plain_env dev_staff ''p1'' ''kHIGH'' ?d"
  let ?r = "(demo_rule SET_PRIORITY ''HIGH'')\<lparr>rule_action_value := ''LOW''\<rparr>"
  have ok: "rules_ok ?s"
    by (simp add: rules_ok_def rule_ok_def demo_rule_def priority_of_name_def all_priorities_def)
  have rules: "t_rules (rule_request ?op ?s) = [?r]"
    by (simp add: updateRule_def assertPlatformAccess_def canAccessPlatform_def STAFF_WRITE_ROLES_def
        dev_staff_def find_rule_def by_key_Cons demo_rule_def patch_rule_def or_else_def
        assertActionValue_def priority_of_name_def all_priorities_def replace_row_def)
  have "rule_ok (rule_request ?op ?s) ?r"
    using stored_rules_stay_actionable [OF ok, of "rule_request ?op ?s" "[?op]" ?r plain_env "sample_issue ''i1'' ''p1'' NEW"] rules
    by (simp add: demo_rule_def)
  with rules show ?thesis by (intro exI [of _ "rule_request ?op ?s"] exI [of _ ?r]) (simp add: demo_rule_def)
qed

end
