(* ===== verification/JiraInbound.thy ===== *)
theory JiraInbound
  imports Issues
begin

text \<open>
  Status changes arriving from Jira: the shared-secret gate of the controller
  (\<^verbatim>\<open>src/jira/jira-webhook.controller.ts\<close>) and their application to the linked issue
  (\<^verbatim>\<open>src/jira/jira-inbound.service.ts\<close>).
\<close>

section \<open>The category table\<close>

text \<open>
  \<^verbatim>\<open>CATEGORY_TO_STATUS[categoryKey]\<close> on an object literal: one of its own entries, a member
  every object inherits (truthy, and no status), or undefined.
\<close>

datatype category_lookup = MAPPED issue_status | INHERITED_MEMBER | NO_CATEGORY

definition category_to_status :: "string \<Rightarrow> category_lookup" where
  "category_to_status k =
     (if k = ''new'' then MAPPED NEW
      else if k = ''indeterminate'' then MAPPED IN_PROGRESS
      else if k = ''done'' then MAPPED RESOLVED
      else if k \<in> set OBJECT_MEMBERS then INHERITED_MEMBER
      else NO_CATEGORY)"

definition TERMINAL_STATUSES :: "issue_status list" where
  "TERMINAL_STATUSES = [RESOLVED, CLOSED]"

text \<open>\<^verbatim>\<open>resolveTarget\<close>; a member that is no status stays what it is unless the issue is terminal.\<close>

definition resolveTarget :: "issue_status \<Rightarrow> category_lookup \<Rightarrow> category_lookup" where
  "resolveTarget from mapped =
     (if mapped \<noteq> MAPPED RESOLVED \<and> from \<in> set TERMINAL_STATUSES then MAPPED REOPENED else mapped)"

section \<open>The webhook\<close>

text \<open>
  The payload, reduced to the two strings the handler reads with optional chaining
  (\<^verbatim>\<open>issue.key\<close> and \<^verbatim>\<open>issue.fields.status.statusCategory.key\<close>, both declared
  \<^verbatim>\<open>string | undefined\<close>).
\<close>

record jira_payload =
  jp_key :: "string option"
  jp_category :: "string option"

definition jira_meta :: "string \<Rightarrow> json option" where
  "jira_meta k = Some (JObj [(''source'', JStr ''jira-webhook''), (''jiraKey'', JStr k)])"

definition apply_inbound :: "env \<Rightarrow> string \<Rightarrow> issue \<Rightarrow> issue_status \<Rightarrow> db \<Rightarrow> db res" where
  "apply_inbound e k i target s =
     bind_res (save_issue e (applyStatusSideEffects (now e) target (i\<lparr>iss_status := target\<rparr>)) s) (\<lambda>s1.
       Inr (audit_record e (Some (iss_id i)) ACTOR_SYSTEM None ''STATUS_CHANGED'' (Some ''status'')
              (Some (status_name (iss_status i))) (Some (status_name target)) (jira_meta k) s1))"

definition applyWebhook :: "env \<Rightarrow> jira_payload \<Rightarrow> db \<Rightarrow> (bool \<times> db) res" where
  "applyWebhook e payload s =
     (case (truthy (jp_key payload), truthy (jp_category payload)) of
        (Some k, Some cat) \<Rightarrow>
          (case category_to_status cat of
             NO_CATEGORY \<Rightarrow> Inr (False, s)
           | mapped \<Rightarrow>
               (case List.find (\<lambda>i. iss_jira_issue_key i = Some k) (t_issues s) of
                  None \<Rightarrow> Inr (False, s)
                | Some i \<Rightarrow>
                    (case resolveTarget (iss_status i) mapped of
                       MAPPED target \<Rightarrow>
                         (if iss_status i = target then Inr (False, s)
                          else bind_res (apply_inbound e k i target s) (\<lambda>s'. Inr (True, s')))
                     | _ \<Rightarrow> Inl db_error)))
      | _ \<Rightarrow> Inr (False, s))"

text \<open>The gate: a configured secret and a token of the same digest, compared in constant time.\<close>

definition secretsMatch :: "(string \<Rightarrow> string) \<Rightarrow> string \<Rightarrow> string \<Rightarrow> bool" where
  "secretsMatch sha256 a b = (sha256 a = sha256 b)"

definition webhook :: "(string \<Rightarrow> string) \<Rightarrow> env \<Rightarrow> string option \<Rightarrow> string option \<Rightarrow> jira_payload \<Rightarrow> db \<Rightarrow> (bool \<times> db) res" where
  "webhook sha256 e secret token payload s =
     (case (truthy secret, truthy token) of
        (Some sec, Some tok) \<Rightarrow>
          require (secretsMatch sha256 tok sec) (Forbidden ''Invalid or missing webhook token.'')
            (applyWebhook e payload s)
      | _ \<Rightarrow> Inl (Forbidden ''Invalid or missing webhook token.''))"

section \<open>Facts\<close>

lemma resolveTarget_ok:
  assumes "resolveTarget from m = MAPPED to" and "m = category_to_status cat"
  shows "to = RESOLVED \<or> (to = REOPENED \<and> \<not> is_open from) \<or> (is_open from \<and> to \<in> {NEW, IN_PROGRESS})"
  using assms
  by (auto simp: resolveTarget_def category_to_status_def TERMINAL_STATUSES_def split: if_splits)
    (cases "from"; simp)+

lemma inbound_lifecycle:
  assumes "lifecycle_ok i"
    and "to = RESOLVED \<or> (to = REOPENED \<and> \<not> is_open (iss_status i)) \<or> (is_open (iss_status i) \<and> to \<in> {NEW, IN_PROGRESS})"
  shows "lifecycle_ok (applyStatusSideEffects t to (i\<lparr>iss_status := to\<rparr>))"
  using assms by (auto simp: lifecycle_ok_def applyStatusSideEffects_def)

lemma applyWebhook_cases:
  assumes "applyWebhook e payload s = Inr (b, s')"
  obtains "\<not> b" "s' = s"
  | i k to cat where "b" "jp_key payload = Some k" "i \<in> set (t_issues s)" "iss_jira_issue_key i = Some k"
      "jp_category payload = Some cat" "resolveTarget (iss_status i) (category_to_status cat) = MAPPED to"
      "iss_status i \<noteq> to" "apply_inbound e k i to s = Inr s'"
proof -
  from assms consider "\<not> b \<and> s' = s"
    | k cat i to where "b" "truthy (jp_key payload) = Some k" "truthy (jp_category payload) = Some cat"
       "List.find (\<lambda>i. iss_jira_issue_key i = Some k) (t_issues s) = Some i"
       "resolveTarget (iss_status i) (category_to_status cat) = MAPPED to"
      "iss_status i \<noteq> to" "apply_inbound e k i to s = Inr s'"
    unfolding applyWebhook_def
    by (auto simp: bind_res_Inr_iff split: option.splits category_lookup.splits if_splits)
  then show thesis
  proof cases
    case 1
    then show thesis using that(1) by blast
  next
    case (2 k cat i to)
    then show thesis using that(2) [of k i cat to] by (auto simp: truthy_def dest: find_SomeD split: if_splits)
  qed
qed

section \<open>Properties\<close>

text \<open>
  An inbound change that is applied moves one issue, linked to the Jira
  key, runs the same bookkeeping as a staff change (coming out of a terminal status is a
  reopen, which clears both completion times, the duplicate pointer and the SLA marker, and
  restarts the SLA clock), keeps the row consistent, records one system audit row and emits no
  event, so nothing is echoed to Jira. An applied change always changes the status.
\<close>

theorem jira_status_is_bookkept:
  assumes "applyWebhook e payload s = Inr (True, s')" and "distinct (map iss_id (t_issues s))"
  shows "\<exists>i to. i \<in> set (t_issues s) \<and> jp_key payload = iss_jira_issue_key i \<and> iss_status i \<noteq> to
      \<and> find_issue (iss_id i) s' = Some (saved_row e (applyStatusSideEffects (now e) to (i\<lparr>iss_status := to\<rparr>)))
      \<and> (lifecycle_ok i \<longrightarrow> lifecycle_ok (applyStatusSideEffects (now e) to (i\<lparr>iss_status := to\<rparr>)))
      \<and> (iss_status i \<in> {RESOLVED, CLOSED} \<longrightarrow> to \<in> {RESOLVED, REOPENED})
      \<and> (\<forall>k. k \<noteq> iss_id i \<longrightarrow> find_issue k s' = find_issue k s)
      \<and> outbox s' = outbox s \<and> t_comments s' = t_comments s
      \<and> (\<exists>row. t_audit s' = t_audit s @ [row] \<and> aud_actor_id row = None
            \<and> aud_old_value row = Some (status_name (iss_status i)) \<and> aud_new_value row = Some (status_name to))"
  using assms(1)
proof (cases rule: applyWebhook_cases)
  case (2 i k to cat)
  let ?new = "applyStatusSideEffects (now e) to (i\<lparr>iss_status := to\<rparr>)"
  note t = resolveTarget_ok [OF 2(6) refl]
  have f: "find_issue (iss_id ?new) s = Some i" using find_issue_member [OF assms(2) 2(3)] by simp
  have ch: "\<not> same_columns ?new i" using 2(7) same_columnsD(1) [of ?new i] by auto
  from 2(8) obtain s1 where "save_issue e ?new s = Inr s1"
    and s': "s' = audit_record e (Some (iss_id i)) ACTOR_SYSTEM None ''STATUS_CHANGED'' (Some ''status'')
              (Some (status_name (iss_status i))) (Some (status_name to)) (jira_meta k) s1"
    by (auto simp: apply_inbound_def bind_res_Inr_iff)
  then have s1: "s1 = put_issue (saved_row e ?new) s"
    using save_issue_loaded [OF f] ch by simp
  have fi: "find_issue k s' = (if k = iss_id i then Some (saved_row e ?new) else find_issue k s)" for k
    using find_issue_put [of "saved_row e ?new" s k] f by (simp add: s' s1)
  obtain row where row: "t_audit s' = t_audit s @ [row]" "aud_actor_id row = None"
    "aud_old_value row = Some (status_name (iss_status i))" "aud_new_value row = Some (status_name to)"
    using audit_appends [of e "Some (iss_id i)" ACTOR_SYSTEM None "''STATUS_CHANGED''" "Some ''status''"
        "Some (status_name (iss_status i))" "Some (status_name to)" "jira_meta k" s1]
    by (auto simp: s' s1)
  have "iss_status i \<in> {RESOLVED, CLOSED} \<longrightarrow> to \<in> {RESOLVED, REOPENED}" using t by auto
  moreover have "outbox s' = outbox s" "t_comments s' = t_comments s" by (simp_all add: s' s1)
  ultimately show ?thesis
    using 2 fi row inbound_lifecycle [OF _ t] by (intro exI [of _ i] exI [of _ to]) auto
qed simp

definition jira_demo :: "issue_status \<Rightarrow> db" where
  "jira_demo st = empty_db\<lparr>t_issues := [(sample_issue ''i1'' ''p1'' st)\<lparr>iss_jira_issue_key := Some ''J-1'',
      iss_closed_at := (if st = CLOSED then Some 5 else None)\<rparr>]\<rparr>"

definition jira_done :: jira_payload where
  "jira_done = \<lparr>jp_key = Some ''J-1'', jp_category = Some ''done''\<rparr>"

lemma jira_demo_applies:
  "st \<in> {IN_PROGRESS, CLOSED} \<Longrightarrow> \<exists>s'. applyWebhook plain_env jira_done (jira_demo st) = Inr (True, s')"
  by (auto simp: applyWebhook_def jira_done_def jira_demo_def truthy_def category_to_status_def resolveTarget_def
      sample_defs apply_inbound_def save_issue_def find_issue_def by_key_Cons plain_env_def bind_res_Inr_iff
      applyStatusSideEffects_def)

theorem jira_status_is_bookkept_witness:
  "\<exists>s' j. applyWebhook plain_env jira_done (jira_demo IN_PROGRESS) = Inr (True, s')
     \<and> find_issue ''i1'' s' = Some j \<and> iss_status j \<noteq> IN_PROGRESS \<and> outbox s' = []"
proof -
  obtain s' where r: "applyWebhook plain_env jira_done (jira_demo IN_PROGRESS) = Inr (True, s')"
    using jira_demo_applies by blast
  have d: "distinct (map iss_id (t_issues (jira_demo IN_PROGRESS)))" by (simp add: jira_demo_def)
  obtain i to where i: "i \<in> set (t_issues (jira_demo IN_PROGRESS))" "iss_status i \<noteq> to"
    "find_issue (iss_id i) s' = Some (saved_row plain_env (applyStatusSideEffects (now plain_env) to (i\<lparr>iss_status := to\<rparr>)))"
    "outbox s' = outbox (jira_demo IN_PROGRESS)"
    using jira_status_is_bookkept [OF r d] by blast
  from i(1) have "iss_id i = ''i1''" "iss_status i = IN_PROGRESS" by (simp_all add: jira_demo_def sample_issue_def)
  with i r show ?thesis by (auto simp: jira_demo_def empty_db_def)
qed

text \<open>
  The bookkeeping does not keep the two terminal statuses apart. When Jira
  reports ``done'' for an issue that is CLOSED here, the issue becomes RESOLVED with the
  closing time still set: resolved and closed at once, the very state the shared side effects
  are documented to exclude.
\<close>

theorem jira_done_on_closed:
  "\<exists>s' j. applyWebhook plain_env jira_done (jira_demo CLOSED) = Inr (True, s')
     \<and> find_issue ''i1'' s' = Some j \<and> iss_status j = RESOLVED
     \<and> iss_resolved_at j = Some (now plain_env) \<and> iss_closed_at j = Some 5 \<and> \<not> lifecycle_strict j"
  by (simp add: applyWebhook_def jira_done_def jira_demo_def truthy_def category_to_status_def resolveTarget_def
      sample_defs apply_inbound_def save_issue_def find_issue_def by_key_Cons plain_env_def bind_res_Inr_iff
      applyStatusSideEffects_def same_columns_def replace_row_def audit_record_def draw_id_def lifecycle_strict_def)

end
