(* ===== verification/Uploads.thy ===== *)
theory Uploads
  imports Issues
begin

text \<open>
  Files on their way in and out: the signature table that decides the content type of an
  upload (\<^verbatim>\<open>src/common/magic-bytes.ts\<close>), the limits of the intake
  (\<^verbatim>\<open>validateFiles\<close> of \<^verbatim>\<open>src/reporter/reporter.service.ts\<close>), the header of a
  download (\<^verbatim>\<open>src/common/content-disposition.ts\<close>) and the reader of that header in the
  browser (\<^verbatim>\<open>frontend/src/lib/download.ts\<close>). A buffer is a list of bytes, as naturals.
\<close>

section \<open>Signatures\<close>

definition startsWith :: "nat list \<Rightarrow> nat list \<Rightarrow> nat \<Rightarrow> bool" where
  "startsWith buf bytes offset =
     (offset + length bytes \<le> length buf \<and> take (length bytes) (drop offset buf) = bytes)"

definition SIGNATURES :: "(string \<times> (nat list \<Rightarrow> bool)) list" where
  "SIGNATURES =
     [(''image/png'', \<lambda>b. startsWith b [0x89, 0x50, 0x4e, 0x47, 0x0d, 0x0a, 0x1a, 0x0a] 0),
      (''image/jpeg'', \<lambda>b. startsWith b [0xff, 0xd8, 0xff] 0),
      (''application/pdf'', \<lambda>b. startsWith b [0x25, 0x50, 0x44, 0x46, 0x2d] 0),
      (''image/webp'', \<lambda>b. startsWith b [0x52, 0x49, 0x46, 0x46] 0
           \<and> startsWith b [0x57, 0x45, 0x42, 0x50] 8)]"

definition MAGIC_SNIFFABLE_MIME_TYPES :: "string list" where
  "MAGIC_SNIFFABLE_MIME_TYPES = map fst SIGNATURES"

definition sniffAllowedMime :: "nat list \<Rightarrow> string option" where
  "sniffAllowedMime b =
     (if b = [] then None else map_option fst (List.find (\<lambda>sig. snd sig b) SIGNATURES))"

definition missingSignatures :: "string list" where
  "missingSignatures = filter (\<lambda>m. m \<notin> set MAGIC_SNIFFABLE_MIME_TYPES) ALLOWED_MIME_TYPES"

section \<open>Validation of the uploaded files\<close>

text \<open>\<^verbatim>\<open>up_mimetype\<close> is the type the client declared; nothing reads it.\<close>

record upload =
  up_name :: string
  up_size :: nat
  up_buffer :: "nat list"
  up_mimetype :: string

fun validate_each :: "upload list \<Rightarrow> string list res" where
  "validate_each [] = Inr []"
| "validate_each (f # fs) =
     (if MAX_FILE_BYTES < up_size f
      then Inl (BadRequest ([CHR 0x22] @ up_name f @ [CHR 0x22] @ '' exceeds the 10 MB limit.''))
      else (case sniffAllowedMime (up_buffer f) of
          None \<Rightarrow> Inl (BadRequest ([CHR 0x22] @ up_name f @ [CHR 0x22]
                    @ '' content is not a supported file type (PNG, JPEG, WEBP, PDF).''))
        | Some t \<Rightarrow>
            (if t \<notin> set ALLOWED_MIME_TYPES
             then Inl (BadRequest ([CHR 0x22] @ up_name f @ [CHR 0x22]
                    @ '' content is not a supported file type (PNG, JPEG, WEBP, PDF).''))
             else bind_res (validate_each fs) (\<lambda>ts. Inr (t # ts)))))"

definition validateFiles :: "upload list \<Rightarrow> string list res" where
  "validateFiles fs =
     (if MAX_FILES < length fs then Inl (BadRequest ''At most 5 files may be attached.'')
      else validate_each fs)"

section \<open>The download header\<close>

definition hex_digit :: "nat \<Rightarrow> char" where
  "hex_digit n = (if n < 10 then char_of (48 + n) else char_of (55 + n))"

definition percent :: "nat \<Rightarrow> string" where
  "percent n = [CHR ''%'', hex_digit (n div 16), hex_digit (n mod 16)]"

definition uri_unreserved :: "char \<Rightarrow> bool" where
  "uri_unreserved c = (is_digit c \<or> is_lower c \<or> is_upper c \<or> c \<in> set ''-_.!~*'' \<or> c = CHR 0x27 \<or> c = CHR ''('' \<or> c = CHR '')'')"

definition encode_char :: "char \<Rightarrow> string" where
  "encode_char c =
     (if uri_unreserved c then [c]
      else if code c < 128 then percent (code c)
      else percent (192 + code c div 64) @ percent (128 + code c mod 64))"

definition encodeURIComponent :: "string \<Rightarrow> string" where
  "encodeURIComponent s = concat (map encode_char s)"

definition ascii_char :: "char \<Rightarrow> char" where
  "ascii_char c = (if code c < 32 \<or> 126 < code c \<or> c = CHR 0x22 \<or> c = CHR 0x5C then CHR ''_'' else c)"

definition ascii_fallback :: "string \<Rightarrow> string" where
  "ascii_fallback s = map ascii_char s"

definition utf8_mark :: string where
  "utf8_mark = ''filename*=UTF-8'' @ [CHR 0x27, CHR 0x27]"

definition contentDisposition :: "string \<Rightarrow> string" where
  "contentDisposition f =
     ''attachment; filename='' @ [CHR 0x22] @ ascii_fallback f @ [CHR 0x22] @ ''; '' @ utf8_mark
       @ encodeURIComponent f"

section \<open>Reading the header back\<close>

text \<open>
  \<^verbatim>\<open>decodeURIComponent\<close>: first the escapes become octets (\<^verbatim>\<open>Inr\<close>; every other unit is
  kept, \<^verbatim>\<open>Inl\<close>), then the runs of octets are read as UTF-8. The result is a list of
  UTF-16 code units; \<^verbatim>\<open>None\<close> is the \<^verbatim>\<open>URIError\<close>.
\<close>

definition hex_value :: "char \<Rightarrow> nat option" where
  "hex_value c =
     (if is_digit c then Some (code c - 48)
      else if 97 \<le> code c \<and> code c \<le> 102 then Some (code c - 87)
      else if 65 \<le> code c \<and> code c \<le> 70 then Some (code c - 55)
      else None)"

fun unescape :: "string \<Rightarrow> (nat + nat) list option" where
  "unescape [] = Some []"
| "unescape (c # cs) =
     (if c = CHR ''%'' then
        (case cs of
           a # b # rest \<Rightarrow>
             (case (hex_value a, hex_value b) of
                (Some x, Some y) \<Rightarrow> map_option (\<lambda>t. Inr (16 * x + y) # t) (unescape rest)
              | _ \<Rightarrow> None)
         | _ \<Rightarrow> None)
      else map_option (\<lambda>t. Inl (code c) # t) (unescape cs))"

definition continuation :: "nat \<Rightarrow> bool" where
  "continuation b = (128 \<le> b \<and> b < 192)"

definition utf16_of :: "nat \<Rightarrow> nat list" where
  "utf16_of p = (if p < 65536 then [p]
     else [55296 + (p - 65536) div 1024, 56320 + (p - 65536) mod 1024])"

fun utf8_units :: "(nat + nat) list \<Rightarrow> nat list option" where
  "utf8_units [] = Some []"
| "utf8_units (Inl u # r) = map_option (\<lambda>t. u # t) (utf8_units r)"
| "utf8_units (Inr a # r) =
     (if a < 128 then map_option (\<lambda>t. a # t) (utf8_units r)
      else if 194 \<le> a \<and> a < 224 then
        (case r of
           Inr b # r1 \<Rightarrow>
             (if continuation b then map_option (\<lambda>t. ((a - 192) * 64 + (b - 128)) # t) (utf8_units r1) else None)
         | _ \<Rightarrow> None)
      else if 224 \<le> a \<and> a < 240 then
        (case r of
           Inr b # Inr c # r1 \<Rightarrow>
             (let p = (a - 224) * 4096 + (b - 128) * 64 + (c - 128) in
              if continuation b \<and> continuation c \<and> 2048 \<le> p \<and> \<not> (55296 \<le> p \<and> p < 57344)
              then map_option (\<lambda>t. p # t) (utf8_units r1) else None)
         | _ \<Rightarrow> None)
      else if 240 \<le> a \<and> a < 248 then
        (case r of
           Inr b # Inr c # Inr d # r1 \<Rightarrow>
             (let p = (a - 240) * 262144 + (b - 128) * 4096 + (c - 128) * 64 + (d - 128) in
              if continuation b \<and> continuation c \<and> continuation d \<and> 65536 \<le> p \<and> p < 1114112
              then map_option (\<lambda>t. utf16_of p @ t) (utf8_units r1) else None)
         | _ \<Rightarrow> None)
      else None)"

definition decodeURIComponent :: "string \<Rightarrow> nat list option" where
  "decodeURIComponent s = (case unescape s of None \<Rightarrow> None | Some t \<Rightarrow> utf8_units t)"

definition decodeFilename :: "string \<Rightarrow> nat list" where
  "decodeFilename raw = (case decodeURIComponent raw of None \<Rightarrow> map code raw | Some u \<Rightarrow> u)"

text \<open>
  The two patterns: the leftmost place where the mark matches, upper and lower case alike,
  followed by at least one unit other than the closing one. \<^verbatim>\<open>stop\<close> ends the captured
  group; the second pattern also asks for the closing quote.
\<close>

definition ci_prefix :: "string \<Rightarrow> string \<Rightarrow> bool" where
  "ci_prefix p s = (length p \<le> length s \<and> js_lower (take (length p) s) = js_lower p)"

fun match_utf8 :: "string \<Rightarrow> string option" where
  "match_utf8 [] = None"
| "match_utf8 (c # cs) =
     (let g = takeWhile (\<lambda>x. x \<noteq> CHR '';'') (drop (length utf8_mark) (c # cs)) in
      if ci_prefix utf8_mark (c # cs) \<and> g \<noteq> [] then Some g else match_utf8 cs)"

definition plain_mark :: string where
  "plain_mark = ''filename='' @ [CHR 0x22]"

fun match_plain :: "string \<Rightarrow> string option" where
  "match_plain [] = None"
| "match_plain (c # cs) =
     (let r = drop (length plain_mark) (c # cs);
          g = takeWhile (\<lambda>x. x \<noteq> CHR 0x22) r in
      if ci_prefix plain_mark (c # cs) \<and> g \<noteq> [] \<and> length g < length r then Some g else match_plain cs)"

definition filenameFromDisposition :: "string option \<Rightarrow> nat list option" where
  "filenameFromDisposition disp =
     (case truthy disp of
        None \<Rightarrow> None
      | Some d \<Rightarrow>
          (case match_utf8 d of
             Some raw \<Rightarrow> Some (decodeFilename (js_trim raw))
           | None \<Rightarrow> map_option (map code) (match_plain d)))"

section \<open>Facts about the header\<close>

lemma hex_value_digit: "n < 16 \<Longrightarrow> hex_value (hex_digit n) = Some n"
  by (auto simp: hex_value_def hex_digit_def is_digit_def)

lemma code_mod_div: "code c div 64 < 4"
  using code_lt [of c] by linarith

lemma percent_unescape:
  "n < 256 \<Longrightarrow> unescape (percent n @ s) = map_option (\<lambda>t. Inr n # t) (unescape s)"
proof -
  assume n: "n < 256"
  then have "n div 16 < 16" "n mod 16 < 16" "16 * (n div 16) + n mod 16 = n" by auto
  then show ?thesis by (simp add: percent_def hex_value_digit)
qed

definition char_tokens :: "char \<Rightarrow> (nat + nat) list" where
  "char_tokens c =
     (if uri_unreserved c then [Inl (code c)]
      else if code c < 128 then [Inr (code c)]
      else [Inr (192 + code c div 64), Inr (128 + code c mod 64)])"

lemma unreserved_not_percent: "uri_unreserved c \<Longrightarrow> c \<noteq> CHR ''%''"
  by (auto simp: uri_unreserved_def is_digit_def is_lower_def is_upper_def char_eq_code code_def)

lemma encode_char_unescape:
  "unescape (encode_char c @ s) = map_option (\<lambda>t. char_tokens c @ t) (unescape s)"
proof -
  have "192 + code c div 64 < 256" using code_mod_div [of c] by linarith
  moreover have "128 + code c mod 64 < 256" by (simp add: mod_less_divisor trans_less_add1 less_le_trans [of _ 64])
  ultimately show ?thesis
    using unreserved_not_percent [of c]
    by (cases "unescape s") (auto simp: encode_char_def char_tokens_def percent_unescape option.map_comp comp_def)
qed

lemma char_tokens_units: "utf8_units (char_tokens c @ t) = map_option (\<lambda>u. code c # u) (utf8_units t)"
proof -
  have "128 \<le> code c \<Longrightarrow> 2 \<le> code c div 64" by simp
  then show ?thesis
    using code_mod_div [of c] by (auto simp: char_tokens_def continuation_def)
qed

lemma decode_encode: "decodeURIComponent (encodeURIComponent s) = Some (map code s)"
proof -
  have "unescape (encodeURIComponent s) = Some (concat (map char_tokens s))"
    by (induction s) (simp_all add: encodeURIComponent_def encode_char_unescape)
  moreover have "utf8_units (concat (map char_tokens s)) = Some (map code s)"
    by (induction s) (simp_all add: char_tokens_units)
  ultimately show ?thesis by (simp add: decodeURIComponent_def)
qed

lemma hex_digit_code: "n < 16 \<Longrightarrow> (48 \<le> code (hex_digit n) \<and> code (hex_digit n) \<le> 57) \<or> (65 \<le> code (hex_digit n) \<and> code (hex_digit n) \<le> 70)"
  by (auto simp: hex_digit_def)

definition uri_char :: "char \<Rightarrow> bool" where
  "uri_char c = (uri_unreserved c \<or> c = CHR ''%'')"

lemma uri_char_hex: "n < 16 \<Longrightarrow> uri_char (hex_digit n)"
  using hex_digit_code [of n] by (auto simp: uri_char_def uri_unreserved_def is_digit_def is_upper_def)

lemma percent_chars: "n < 256 \<Longrightarrow> x \<in> set (percent n) \<Longrightarrow> uri_char x"
  using uri_char_hex [of "n div 16"] uri_char_hex [of "n mod 16"] by (auto simp: percent_def uri_char_def)

lemma encode_chars: "x \<in> set (encodeURIComponent s) \<Longrightarrow> uri_char x"
proof -
  have "uri_char x" if "x \<in> set (encode_char c)" for c
  proof -
    have "192 + code c div 64 < 256" using code_mod_div [of c] by linarith
    moreover have "128 + code c mod 64 < 256" by (simp add: mod_less_divisor trans_less_add1 less_le_trans [of _ 64])
    moreover have "code c < 256" by simp
    ultimately show ?thesis
      using that percent_chars [of "code c" x] percent_chars [of "192 + code c div 64" x]
        percent_chars [of "128 + code c mod 64" x]
      by (auto simp: encode_char_def uri_char_def split: if_splits)
  qed
  then show "x \<in> set (encodeURIComponent s) \<Longrightarrow> uri_char x" by (auto simp: encodeURIComponent_def)
qed

lemma uri_char_range: "uri_char c \<Longrightarrow> 33 \<le> code c \<and> code c \<le> 126"
  by (auto simp: uri_char_def uri_unreserved_def is_digit_def is_upper_def is_lower_def code_def)

lemma uri_char_plain: "uri_char c \<Longrightarrow> c \<noteq> CHR 0x22 \<and> c \<noteq> CHR 0x5C \<and> c \<noteq> CHR '';'' \<and> c \<noteq> CHR '','' \<and> c \<noteq> CHR '' ''"
  by (auto simp: uri_char_def uri_unreserved_def is_digit_def is_upper_def is_lower_def char_eq_code code_def)

lemma ascii_char_range: "32 \<le> code (ascii_char c) \<and> code (ascii_char c) \<le> 126
    \<and> ascii_char c \<noteq> CHR 0x22 \<and> ascii_char c \<noteq> CHR 0x5C"
  by (auto simp: ascii_char_def code_def char_eq_code)

text \<open>
  Whatever the reporter named the file, the header of its download holds only
  printable ASCII (no line break can be smuggled in), the quoted fallback has the length of
  the name and contains neither a quote nor a backslash, and the encoded form contains no
  character that ends a parameter.
\<close>

theorem download_header_is_safe:
  "list_all (\<lambda>c. 32 \<le> code c \<and> code c \<le> 126) (contentDisposition f)
   \<and> contentDisposition f = ''attachment; filename='' @ [CHR 0x22] @ ascii_fallback f @ [CHR 0x22] @ ''; ''
        @ utf8_mark @ encodeURIComponent f
   \<and> length (ascii_fallback f) = length f
   \<and> CHR 0x22 \<notin> set (ascii_fallback f) \<and> CHR 0x5C \<notin> set (ascii_fallback f)
   \<and> set (encodeURIComponent f) \<inter> {CHR 0x22, CHR 0x5C, CHR '';'', CHR '','', CHR '' ''} = {}"
proof -
  have "32 \<le> code c \<and> code c \<le> 126" if "c \<in> set (ascii_fallback f)" for c
    using that ascii_char_range by (auto simp: ascii_fallback_def)
  moreover have "32 \<le> code c \<and> code c \<le> 126" if "c \<in> set (encodeURIComponent f)" for c
    using uri_char_range [OF encode_chars [OF that]] by simp
  ultimately have "\<forall>c \<in> set (contentDisposition f). 32 \<le> code c \<and> code c \<le> 126"
    unfolding contentDisposition_def utf8_mark_def by (simp add: ball_Un) (simp add: code_def)
  moreover have "CHR 0x22 \<notin> set (ascii_fallback f)" "CHR 0x5C \<notin> set (ascii_fallback f)"
    using ascii_char_range by (auto simp: ascii_fallback_def) metis+
  moreover have "set (encodeURIComponent f) \<inter> {CHR 0x22, CHR 0x5C, CHR '';'', CHR '','', CHR '' ''} = {}"
    using encode_chars uri_char_plain by blast
  ultimately show ?thesis by (simp add: list_all_iff) (simp add: contentDisposition_def ascii_fallback_def)
qed

lemma mark_lower: "js_lower utf8_mark = ''filename*=utf-8'' @ [CHR 0x27, CHR 0x27]"
  by code_simp

lemma mark_chars: "CHR 0x22 \<notin> set (js_lower utf8_mark)" "length utf8_mark = 17"
  by (simp_all add: mark_lower) (simp add: utf8_mark_def)

fun ci_occurs :: "string \<Rightarrow> string \<Rightarrow> bool" where
  "ci_occurs p [] = False"
| "ci_occurs p (c # cs) = (ci_prefix p (c # cs) \<or> ci_occurs p cs)"

lemma ci_prefix_through_quote:
  assumes "ci_prefix utf8_mark (a @ CHR 0x22 # r)"
  shows "length utf8_mark \<le> length a"
proof (rule ccontr)
  assume n: "\<not> length utf8_mark \<le> length a"
  have "CHR 0x22 \<in> set (take (length utf8_mark) (a @ CHR 0x22 # r))"
    using n by (cases "length utf8_mark - length a") auto
  then have "lower_char (CHR 0x22) \<in> set (js_lower (take (length utf8_mark) (a @ CHR 0x22 # r)))"
    by (auto simp: js_lower_def)
  then have "CHR 0x22 \<in> set (js_lower utf8_mark)"
    using assms by (simp add: ci_prefix_def lower_char_def code_def Let_def)
  with mark_chars show False by simp
qed

lemma match_skips_fallback:
  "\<not> ci_occurs utf8_mark a \<Longrightarrow> match_utf8 (a @ CHR 0x22 # r) = match_utf8 (CHR 0x22 # r)"
proof (induction a)
  case (Cons c a)
  have "\<not> ci_prefix utf8_mark ((c # a) @ CHR 0x22 # r)"
  proof
    assume p: "ci_prefix utf8_mark ((c # a) @ CHR 0x22 # r)"
    note le = ci_prefix_through_quote [OF p]
    have "take (length utf8_mark) ((c # a) @ CHR 0x22 # r) = take (length utf8_mark) (c # a)"
      using le by (simp only: take_append) simp
    with le p have "ci_prefix utf8_mark (c # a)" unfolding ci_prefix_def by metis
    with Cons.prems show False by simp
  qed
  with Cons show ?case by (simp add: Let_def)
qed simp

lemma ci_prefix_head: "ci_prefix utf8_mark (c # cs) \<Longrightarrow> lower_char c = CHR ''f'' \<and> lower_char (cs ! 7) = CHR ''*''"
proof -
  assume p: "ci_prefix utf8_mark (c # cs)"
  from p have "js_lower (take 17 (c # cs)) = ''filename*=utf-8'' @ [CHR 0x27, CHR 0x27]" "16 \<le> length cs"
    by (simp_all add: ci_prefix_def mark_chars mark_lower)
  then have "lower_char c # map lower_char (take 16 cs) = ''filename*=utf-8'' @ [CHR 0x27, CHR 0x27]"
    by (simp add: js_lower_def)
  then have "lower_char c = CHR ''f''" "map lower_char (take 16 cs) ! 7 = CHR ''*''" by auto
  then show ?thesis using \<open>16 \<le> length cs\<close> by simp
qed

lemma match_step: "lower_char c \<noteq> CHR ''f'' \<Longrightarrow> match_utf8 (c # cs) = match_utf8 cs"
  using ci_prefix_head [of c cs] by (auto simp: Let_def)

lemma match_step_f: "lower_char (cs ! 7) \<noteq> CHR ''*'' \<Longrightarrow> match_utf8 (c # cs) = match_utf8 cs"
  using ci_prefix_head [of c cs] by (auto simp: Let_def)

lemma match_skips_literal:
  "match_utf8 (''attachment; filename='' @ [CHR 0x22] @ r) = match_utf8 r"
  by (simp add: match_step lower_char_def code_def Let_def del: match_utf8.simps)
    (simp add: match_step match_step_f lower_char_def code_def Let_def del: match_utf8.simps)

lemma match_at_mark:
  assumes "g \<noteq> []" and "CHR '';'' \<notin> set g"
  shows "match_utf8 (utf8_mark @ g) = Some g"
proof -
  have "takeWhile (\<lambda>x. x \<noteq> CHR '';'') g = g" using assms(2) by (induction g) auto
  moreover have "takeWhile (\<lambda>x. x \<noteq> CHR '';'') g \<noteq> []" using assms by (cases g) auto
  moreover obtain c cs where m: "utf8_mark = c # cs" by (cases utf8_mark) (simp_all add: utf8_mark_def)
  ultimately show ?thesis using assms(1) by (simp add: m ci_prefix_def Let_def)
qed

lemma match_at_mark_cut:
  assumes "g \<noteq> []" and "CHR '';'' \<notin> set g"
  shows "match_utf8 (utf8_mark @ g @ CHR '';'' # r) = Some g"
proof -
  have t: "takeWhile (\<lambda>x. x \<noteq> CHR '';'') (g @ CHR '';'' # r) = g" using assms(2) by (induction g) auto
  obtain c cs where m: "utf8_mark = c # cs" by (cases utf8_mark) (simp_all add: utf8_mark_def)
  show ?thesis using assms(1) t by (simp add: m ci_prefix_def Let_def)
qed

lemma trim_no_ws: "list_all (\<lambda>c. \<not> is_ws c) s \<Longrightarrow> js_trim s = s"
proof -
  assume "list_all (\<lambda>c. \<not> is_ws c) s"
  then have n: "\<forall>c \<in> set s. \<not> is_ws c" by (simp add: list_all_iff)
  have "dropWhile is_ws t = t" if "\<forall>c \<in> set t. \<not> is_ws c" for t
    using that by (cases t) auto
  from this [OF n] this [of "rev s"] n show ?thesis
    by (simp add: js_trim_def js_trim_start_def js_trim_end_def)
qed

lemma encode_no_ws: "js_trim (encodeURIComponent f) = encodeURIComponent f"
proof (rule trim_no_ws, unfold list_all_iff, rule ballI)
  fix c assume "c \<in> set (encodeURIComponent f)"
  from uri_char_range [OF encode_chars [OF this]] show "\<not> is_ws c" by (auto simp: is_ws_def Let_def)
qed

lemma encode_nonempty: "f \<noteq> [] \<Longrightarrow> encodeURIComponent f \<noteq> []"
  by (cases f) (auto simp: encodeURIComponent_def encode_char_def percent_def)

text \<open>
  The browser recovers the name the reporter gave: for every
  non-empty name whose ASCII fallback does not itself contain the mark of the encoded
  parameter, reading the header gives back the name, unit by unit, accents included.
\<close>

theorem download_name_roundtrip:
  assumes "f \<noteq> []" and "\<not> ci_occurs utf8_mark (ascii_fallback f)"
  shows "filenameFromDisposition (Some (contentDisposition f)) = Some (map code f)"
proof -
  have "CHR '';'' \<notin> set (encodeURIComponent f)" using encode_chars uri_char_plain by blast
  with encode_nonempty [OF assms(1)] have m: "match_utf8 (utf8_mark @ encodeURIComponent f) = Some (encodeURIComponent f)"
    by (rule match_at_mark)
  have q: "match_utf8 (CHR 0x22 # CHR '';'' # CHR '' '' # r) = match_utf8 r" for r
    by (simp add: match_step lower_char_def code_def Let_def del: match_utf8.simps)
  have "match_utf8 (contentDisposition f)
      = match_utf8 (ascii_fallback f @ CHR 0x22 # CHR '';'' # CHR '' '' # utf8_mark @ encodeURIComponent f)"
    using match_skips_literal [of "ascii_fallback f @ CHR 0x22 # CHR '';'' # CHR '' '' # utf8_mark @ encodeURIComponent f"]
    by (simp add: contentDisposition_def del: match_utf8.simps)
  also have "\<dots> = Some (encodeURIComponent f)"
    by (simp only: match_skips_fallback [OF assms(2)] q m)
  finally have r: "match_utf8 (contentDisposition f) = Some (encodeURIComponent f)" .
  have "truthy (Some (contentDisposition f)) = Some (contentDisposition f)"
    by (simp add: truthy_def contentDisposition_def)
  then show ?thesis
    by (simp add: filenameFromDisposition_def r encode_no_ws decodeFilename_def decode_encode)
qed

theorem download_name_roundtrip_witness:
  "filenameFromDisposition (Some (contentDisposition (''caf'' @ [char_of (233::nat)] @ ''.pdf'')))
     = Some [99, 97, 102, 233, 46, 112, 100, 102]"
proof -
  let ?f = "''caf'' @ [char_of (233::nat)] @ ''.pdf''"
  have "\<not> ci_occurs utf8_mark (ascii_fallback ?f)" by code_simp
  moreover have "map code ?f = [99, 97, 102, 233, 46, 112, 100, 102]" by code_simp
  ultimately show ?thesis using download_name_roundtrip [of ?f] by simp
qed

text \<open>
  Without the condition the reporter chooses another name: the pattern looks for the leftmost
  mark, and the fallback comes first in the header.
\<close>

lemma fallback_can_spoof_name:
  "filenameFromDisposition (Some (contentDisposition (utf8_mark @ ''b.pdf;a.png''))) = Some (map code ''b.pdf'')"
proof -
  let ?f = "utf8_mark @ ''b.pdf;a.png''"
  have fb: "ascii_fallback ?f = utf8_mark @ ''b.pdf'' @ CHR '';'' # ''a.png''" by code_simp
  have "match_utf8 (contentDisposition ?f) = match_utf8 (ascii_fallback ?f @ [CHR 0x22] @ ''; '' @ utf8_mark @ encodeURIComponent ?f)"
    unfolding contentDisposition_def by (rule match_skips_literal)
  also have "\<dots> = match_utf8 (utf8_mark @ ''b.pdf'' @ CHR '';'' # (''a.png'' @ [CHR 0x22] @ ''; '' @ utf8_mark @ encodeURIComponent ?f))"
    unfolding fb by (simp only: append_assoc append_Cons)
  also have "\<dots> = Some ''b.pdf''"
    by (rule match_at_mark_cut) simp_all
  finally have m: "match_utf8 (contentDisposition ?f) = Some ''b.pdf''" .
  have "truthy (Some (contentDisposition ?f)) = Some (contentDisposition ?f)"
    by (simp add: truthy_def contentDisposition_def)
  moreover have "decodeFilename (js_trim ''b.pdf'') = map code ''b.pdf''" by code_simp
  ultimately show ?thesis by (simp only: filenameFromDisposition_def m option.case)
qed

section \<open>Properties of the intake\<close>

lemma sniff_cases:
  "sniffAllowedMime b = Some t \<Longrightarrow> t \<in> set ALLOWED_MIME_TYPES \<and> (\<exists>test. (t, test) \<in> set SIGNATURES \<and> test b)"
  by (auto simp: sniffAllowedMime_def SIGNATURES_def ALLOWED_MIME_TYPES_def split: if_splits)

lemma signatures_first_byte:
  assumes "(t, test) \<in> set SIGNATURES" and "test b"
  shows "b \<noteq> [] \<and> t = (if hd b = 0x89 then ''image/png'' else if hd b = 0xff then ''image/jpeg''
     else if hd b = 0x25 then ''application/pdf'' else ''image/webp'')"
  using assms by (cases b) (auto simp: SIGNATURES_def startsWith_def)

lemma validate_each_ok:
  "validate_each fs = Inr ts \<Longrightarrow> length ts = length fs \<and>
     (\<forall>i < length fs. up_size (fs ! i) \<le> MAX_FILE_BYTES \<and> sniffAllowedMime (up_buffer (fs ! i)) = Some (ts ! i))"
proof (induction fs arbitrary: ts)
  case (Cons f fs)
  from Cons.prems obtain t ts' where t: "up_size f \<le> MAX_FILE_BYTES" "sniffAllowedMime (up_buffer f) = Some t"
    "ts = t # ts'" "validate_each fs = Inr ts'"
    by (auto simp: bind_res_Inr_iff split: if_splits option.splits)
  from Cons.IH [OF t(4)] t(1-3) show ?case by (auto simp: less_Suc_eq_0_disj)
qed simp

text \<open>
  Uploads that pass the intake are at most five, none larger than ten
  megabytes, and each is recorded with a type of the accepted list whose signature its bytes
  really open with; no other signature matches the same bytes. The type the client declared
  has no influence, and every accepted type has a signature.
\<close>

theorem upload_types_are_sniffed:
  assumes "validateFiles fs = Inr ts" and "i < length fs"
  shows "length ts = length fs \<and> length fs \<le> 5 \<and> up_size (fs ! i) \<le> 10485760
     \<and> ts ! i \<in> set ALLOWED_MIME_TYPES
     \<and> (\<exists>test. (ts ! i, test) \<in> set SIGNATURES \<and> test (up_buffer (fs ! i)))
     \<and> (\<forall>u test. (u, test) \<in> set SIGNATURES \<and> test (up_buffer (fs ! i)) \<longrightarrow> u = ts ! i)
     \<and> validateFiles (map (\<lambda>f. f\<lparr>up_mimetype := m\<rparr>) fs) = Inr ts
     \<and> missingSignatures = []"
proof -
  from assms(1) have n: "length fs \<le> 5" and v: "validate_each fs = Inr ts"
    by (auto simp: validateFiles_def MAX_FILES_def split: if_splits)
  note e = validate_each_ok [OF v]
  from e assms(2) have s: "sniffAllowedMime (up_buffer (fs ! i)) = Some (ts ! i)" and z: "up_size (fs ! i) \<le> MAX_FILE_BYTES"
    by auto
  from sniff_cases [OF s] obtain test where t: "ts ! i \<in> set ALLOWED_MIME_TYPES" "(ts ! i, test) \<in> set SIGNATURES"
    "test (up_buffer (fs ! i))" by blast
  have u: "u = ts ! i" if "(u, test') \<in> set SIGNATURES" "test' (up_buffer (fs ! i))" for u test'
    using signatures_first_byte [OF that] signatures_first_byte [OF t(2,3)] by metis
  have "validate_each (map (\<lambda>f. f\<lparr>up_mimetype := m\<rparr>) fs) = validate_each fs"
    by (induction fs) (simp_all split: option.split)
  with n v have "validateFiles (map (\<lambda>f. f\<lparr>up_mimetype := m\<rparr>) fs) = Inr ts"
    by (simp add: validateFiles_def MAX_FILES_def)
  moreover have "missingSignatures = []"
    by (simp add: missingSignatures_def ALLOWED_MIME_TYPES_def MAGIC_SNIFFABLE_MIME_TYPES_def SIGNATURES_def)
  moreover have "up_size (fs ! i) \<le> 10485760" using z by (simp add: MAX_FILE_BYTES_def)
  ultimately show ?thesis using e n t u by blast
qed

theorem upload_types_are_sniffed_witness:
  "\<exists>t. validateFiles [\<lparr>up_name = ''a.png'', up_size = 5, up_buffer = [0x25, 0x50, 0x44, 0x46, 0x2d],
      up_mimetype = ''image/png''\<rparr>] = Inr [t] \<and> t \<in> set ALLOWED_MIME_TYPES \<and> t = ''application/pdf''"
proof -
  let ?f = "\<lparr>up_name = ''a.png'', up_size = 5, up_buffer = [0x25, 0x50, 0x44, 0x46, 0x2d], up_mimetype = ''image/png''\<rparr>"
  have v: "validateFiles [?f] = Inr [''application/pdf'']"
    by (simp add: validateFiles_def MAX_FILES_def MAX_FILE_BYTES_def sniffAllowedMime_def SIGNATURES_def
        startsWith_def ALLOWED_MIME_TYPES_def)
  from upload_types_are_sniffed [OF v, of 0] show ?thesis using v by auto
qed

end
