(* ===== verification/Scanning.thy ===== *)
theory Scanning
  imports Uploads
begin

text \<open>
  Virus scanning of attachments: the verdict read off the daemon's reply
  (\<^verbatim>\<open>src/scanning/clamav-scan.service.ts\<close>), the scan after intake
  (\<^verbatim>\<open>scanning.listener.ts\<close>), the retry sweep (\<^verbatim>\<open>scan-retry.service.ts\<close>) and the gated
  download by staff (\<^verbatim>\<open>src/issues/attachments.service.ts\<close>). A scanner is a parameter: for an
  attachment it answers a status, or \<^verbatim>\<open>None\<close> where reading the object or scanning raised.
\<close>

section \<open>The verdict of the daemon\<close>

text \<open>\<^verbatim>\<open>/\bOK\b/\<close>: the two letters between word boundaries.\<close>

definition word_unit :: "char \<Rightarrow> bool" where
  "word_unit c = (is_digit c \<or> is_lower c \<or> is_upper c \<or> c = CHR ''_'')"

fun ok_word :: "bool \<Rightarrow> string \<Rightarrow> bool" where
  "ok_word prev [] = False"
| "ok_word prev (c # cs) =
     ((\<not> prev \<and> take 2 (c # cs) = ''OK'' \<and> (drop 2 (c # cs) = [] \<or> \<not> word_unit (hd (drop 2 (c # cs)))))
      \<or> ok_word (word_unit c) cs)"

text \<open>\<^verbatim>\<open>None\<close> stands for a connection error or a timeout.\<close>

definition clamav_scan :: "string option \<Rightarrow> scan_status" where
  "clamav_scan reply =
     (case reply of
        None \<Rightarrow> SCAN_PENDING
      | Some r \<Rightarrow>
          (if ok_word False r \<and> \<not> has_sub ''FOUND'' r then SCAN_CLEAN
           else if has_sub ''FOUND'' r then SCAN_INFECTED
           else SCAN_PENDING))"

definition noop_scan :: scan_status where
  "noop_scan = SCAN_SKIPPED"

section \<open>Scanning\<close>

type_synonym scanner = "attachment \<Rightarrow> scan_status option"

definition scan_result :: "scanner \<Rightarrow> attachment \<Rightarrow> scan_status" where
  "scan_result scan a = (case scan a of None \<Rightarrow> SCAN_PENDING | Some r \<Rightarrow> r)"

definition scanAndPersist :: "scanner \<Rightarrow> attachment \<Rightarrow> db \<Rightarrow> scan_status \<times> db" where
  "scanAndPersist scan a s =
     (let st = scan_result scan a
      in (st, t_attachments_update (replace_row att_id (a\<lparr>att_scan_status := st\<rparr>)) s))"

definition onIssueCreated :: "scanner \<Rightarrow> ident \<Rightarrow> db \<Rightarrow> db" where
  "onIssueCreated scan iid s =
     (let pending = filter (\<lambda>a. att_issue a = iid \<and> att_scan_status a = SCAN_PENDING) (t_attachments s)
      in if pending = [] then s
         else emit (AttachmentsScanned iid) (fold (\<lambda>a s. snd (scanAndPersist scan a s)) pending s))"

definition PENDING_GRACE_MS :: time where
  "PENDING_GRACE_MS = 15 * 60 * 1000"

definition BATCH_SIZE :: nat where
  "BATCH_SIZE = 25"

definition stuck_attachments :: "env \<Rightarrow> db \<Rightarrow> attachment list" where
  "stuck_attachments e s =
     take BATCH_SIZE (newest_first att_created_at
       (filter (\<lambda>a. att_scan_status a = SCAN_PENDING \<and> att_created_at a < now e - PENDING_GRACE_MS)
          (t_attachments s)))"

text \<open>The loop: the issues that gained a servable file and the number of rescued files.\<close>

fun retry_loop :: "scanner \<Rightarrow> attachment list \<Rightarrow> ident list \<times> nat \<times> db \<Rightarrow> ident list \<times> nat \<times> db" where
  "retry_loop scan [] acc = acc"
| "retry_loop scan (a # rest) (rescanned, rescued, s) =
     (let (st, s1) = scanAndPersist scan a s in
      if st \<noteq> SCAN_PENDING \<and> st \<noteq> SCAN_INFECTED
      then retry_loop scan rest (rescanned @ [att_issue a], Suc rescued, s1)
      else retry_loop scan rest (rescanned, rescued, s1))"

definition retry_sweep :: "env \<Rightarrow> scanner \<Rightarrow> db \<Rightarrow> (string + nat) \<times> db" where
  "retry_sweep e scan s =
     (case envFlag (process_env e) ''SCAN_RETRY_ENABLED'' True of
        Inl err \<Rightarrow> (Inl err, s)
      | Inr False \<Rightarrow> (Inr 0, s)
      | Inr True \<Rightarrow>
          (let (rescanned, rescued, s1) = retry_loop scan (stuck_attachments e s) ([], 0, s)
           in (Inr rescued, fold (\<lambda>i. emit (AttachmentsScanned i)) (js_set rescanned) s1)))"

section \<open>Download by staff\<close>

definition find_attachment :: "ident \<Rightarrow> db \<Rightarrow> attachment option" where
  "find_attachment aid s = by_key att_id aid (t_attachments s)"

record servable_file =
  sf_buffer :: "nat list"
  sf_filename :: string
  sf_content_type :: string

definition not_available :: "scan_status \<Rightarrow> http_error" where
  "not_available st = Forbidden (''Attachment is not available (scan status: '' @ scan_status_name st @ '').'')"

text \<open>\<^verbatim>\<open>read\<close> is the object store; \<^verbatim>\<open>None\<close> where reading the key raises.\<close>

definition serve :: "(string \<Rightarrow> nat list option) \<Rightarrow> attachment \<Rightarrow> servable_file res" where
  "serve read a =
     (if \<not> servable (att_scan_status a) then Inl (not_available (att_scan_status a))
      else (case read (att_storage_key a) of
              None \<Rightarrow> Inl db_error
            | Some b \<Rightarrow> Inr \<lparr>sf_buffer = b, sf_filename = att_filename a, sf_content_type = att_content_type a\<rparr>))"

definition getForStaff :: "(string \<Rightarrow> nat list option) \<Rightarrow> auth_staff \<Rightarrow> ident \<Rightarrow> db \<Rightarrow> servable_file res" where
  "getForStaff read st aid s =
     (case find_attachment aid s of
        None \<Rightarrow> Inl (NotFound ''Attachment not found'')
      | Some a \<Rightarrow>
          (case find_issue (att_issue a) s of
             None \<Rightarrow> Inl (NotFound ''Attachment not found'')
           | Some i \<Rightarrow>
               (if \<not> canAccessPlatform st (iss_platform i) STAFF_READ_ROLES
                then Inl (NotFound ''Attachment not found'')
                else serve read a)))"

section \<open>Facts\<close>

datatype scan_op =
    ScanIntake scanner ident
  | ScanRetry env scanner

fun op_scanner :: "scan_op \<Rightarrow> scanner" where
  "op_scanner (ScanIntake scan _) = scan"
| "op_scanner (ScanRetry _ scan) = scan"

fun run_scan :: "scan_op \<Rightarrow> db \<Rightarrow> db" where
  "run_scan (ScanIntake scan iid) s = onIssueCreated scan iid s"
| "run_scan (ScanRetry e scan) s = snd (retry_sweep e scan s)"

text \<open>
  What one run may do to the table: rows keep their place and key, a row that is not pending
  is kept, and a pending one only changes its status, to what the scanner of the run said.
\<close>

definition scan_row :: "scanner \<Rightarrow> attachment \<Rightarrow> attachment \<Rightarrow> bool" where
  "scan_row scan a b =
     (b = a \<or> (att_scan_status a = SCAN_PENDING \<and> b = a\<lparr>att_scan_status := scan_result scan a\<rparr>))"

definition scan_rows :: "scanner \<Rightarrow> attachment list \<Rightarrow> attachment list \<Rightarrow> bool" where
  "scan_rows scan xs ys = list_all2 (scan_row scan) xs ys"

lemma scan_row_key: "scan_row scan a b \<Longrightarrow> att_id b = att_id a"
  by (auto simp: scan_row_def)

lemma scan_rows_keys: "scan_rows scan xs ys \<Longrightarrow> map att_id ys = map att_id xs"
  unfolding scan_rows_def by (induction rule: list_all2_induct) (auto dest: scan_row_key)

lemma scan_rows_refl: "scan_rows scan xs xs"
  by (simp add: scan_rows_def scan_row_def list.rel_refl)

lemma emit_attachments [simp]: "t_attachments (emit ev s) = t_attachments s"
  by (simp add: emit_def)

lemma fold_emit_attachments [simp]:
  "t_attachments (fold (\<lambda>i. emit (f i)) xs s) = t_attachments s"
  by (induction xs arbitrary: s) simp_all

text \<open>A step of the loop on a row that is still the original one.\<close>

lemma scan_rows_step:
  assumes rel: "scan_rows scan xs ys" and d: "distinct (map att_id xs)"
    and a: "a \<in> set xs" "att_scan_status a = SCAN_PENDING"
  shows "scan_rows scan xs (replace_row att_id (a\<lparr>att_scan_status := scan_result scan a\<rparr>) ys)"
proof -
  have "list_all2 (scan_row scan) xs (map (\<lambda>x. if att_id x = att_id a then a\<lparr>att_scan_status := scan_result scan a\<rparr> else x) ys)"
    unfolding list_all2_conv_all_nth
  proof (intro conjI allI impI)
    show "length xs = length (map (\<lambda>x. if att_id x = att_id a then a\<lparr>att_scan_status := scan_result scan a\<rparr> else x) ys)"
      using rel by (simp add: scan_rows_def list_all2_lengthD)
    fix n assume n: "n < length xs"
    with rel have r: "scan_row scan (xs ! n) (ys ! n)" and ny: "n < length ys"
      by (simp_all add: scan_rows_def list_all2_conv_all_nth)
    show "scan_row scan (xs ! n) (map (\<lambda>x. if att_id x = att_id a then a\<lparr>att_scan_status := scan_result scan a\<rparr> else x) ys ! n)"
    proof (cases "att_id (ys ! n) = att_id a")
      case True
      then have "att_id (xs ! n) = att_id a" using scan_row_key [OF r] by simp
      then have "xs ! n = a" using distinct_keys_eq [OF d _ a(1)] n by auto
      with True ny a(2) show ?thesis by (simp add: scan_row_def)
    qed (use r ny in simp)
  qed
  then show ?thesis by (simp add: scan_rows_def replace_row_def)
qed

lemma scan_fold_rows:
  assumes "distinct (map att_id xs)" and "\<forall>a \<in> set as. a \<in> set xs \<and> att_scan_status a = SCAN_PENDING"
    and "scan_rows scan xs (t_attachments s)"
  shows "scan_rows scan xs (t_attachments (fold (\<lambda>a s. snd (scanAndPersist scan a s)) as s))"
  using assms(2,3)
proof (induction as arbitrary: s)
  case (Cons a as)
  have "scan_rows scan xs (t_attachments (snd (scanAndPersist scan a s)))"
    using scan_rows_step [OF Cons.prems(2) assms(1)] Cons.prems(1) by (simp add: scanAndPersist_def Let_def)
  with Cons show ?case by simp
qed simp

lemma retry_loop_state:
  "snd (snd (retry_loop scan as (rs, n, s))) = fold (\<lambda>a s. snd (scanAndPersist scan a s)) as s"
  by (induction as arbitrary: rs n s) (simp_all add: scanAndPersist_def Let_def)

lemma run_scan_rows:
  assumes "distinct (map att_id (t_attachments s))"
  shows "scan_rows (op_scanner op) (t_attachments s) (t_attachments (run_scan op s))"
proof (cases op)
  case (ScanIntake scan iid)
  let ?p = "filter (\<lambda>a. att_issue a = iid \<and> att_scan_status a = SCAN_PENDING) (t_attachments s)"
  have "scan_rows scan (t_attachments s) (t_attachments (fold (\<lambda>a s. snd (scanAndPersist scan a s)) ?p s))"
    by (rule scan_fold_rows [OF assms _ scan_rows_refl]) simp
  then show ?thesis by (simp add: ScanIntake onIssueCreated_def Let_def scan_rows_refl)
next
  case (ScanRetry e scan)
  have "set (stuck_attachments e s) \<subseteq> {a \<in> set (t_attachments s). att_scan_status a = SCAN_PENDING}"
    by (auto simp: stuck_attachments_def newest_first_def dest!: in_set_takeD)
  then have "scan_rows scan (t_attachments s)
      (t_attachments (fold (\<lambda>a s. snd (scanAndPersist scan a s)) (stuck_attachments e s) s))"
    by (intro scan_fold_rows [OF assms _ scan_rows_refl]) blast
  then have "scan_rows scan (t_attachments s) (t_attachments (snd (snd (retry_loop scan (stuck_attachments e s) ([], 0, s)))))"
    by (simp add: retry_loop_state)
  then show ?thesis
    by (auto simp: ScanRetry retry_sweep_def scan_rows_refl Let_def split: sum.split bool.split prod.split)
qed

lemma scan_ops_rows:
  assumes "distinct (map att_id (t_attachments s))"
  shows "list_all2 (\<lambda>a b. att_id b = att_id a \<and> (b = a \<or>
        (att_scan_status a = SCAN_PENDING
         \<and> (att_scan_status b = SCAN_PENDING \<or> (\<exists>op \<in> set ops. \<exists>x. att_id x = att_id a \<and> op_scanner op x = Some (att_scan_status b))))))
      (t_attachments s) (t_attachments (fold run_scan ops s))" (is "list_all2 (?R ops) _ _")
  using assms
proof (induction ops arbitrary: s)
  case Nil
  show ?case by (simp add: list.rel_refl)
next
  case (Cons op ops)
  note r = run_scan_rows [OF Cons.prems, of op]
  from scan_rows_keys [OF r] Cons.prems have d: "distinct (map att_id (t_attachments (run_scan op s)))" by simp
  have one: "list_all2 (scan_row (op_scanner op)) (t_attachments s) (t_attachments (run_scan op s))"
    using r by (simp add: scan_rows_def)
  have "list_all2 (?R (op # ops)) (t_attachments s) (t_attachments (fold run_scan ops (run_scan op s)))"
  proof (rule list_all2_trans [OF _ one Cons.IH [OF d]])
    fix a b c
    assume ab: "scan_row (op_scanner op) a b" and bc: "?R ops b c"
    show "?R (op # ops) a c"
    proof (cases "b = a")
      case True
      with bc show ?thesis by auto
    next
      case False
      with ab have a: "att_scan_status a = SCAN_PENDING" and b: "b = a\<lparr>att_scan_status := scan_result (op_scanner op) a\<rparr>"
        by (auto simp: scan_row_def)
      show ?thesis
      proof (cases "c = b")
        case True
        with a b show ?thesis
          by (cases "op_scanner op a") (auto simp: scan_result_def)
      next
        case False
        with bc a b show ?thesis by auto
      qed
    qed
  qed
  then show ?case by simp
qed

section \<open>Property\<close>

text \<open>
  C21: Through any sequence of intake scans and retry sweeps, with any scanner and any
  failure of it, an attachment that was found infected stays infected and no staff member
  ever downloads it; and whatever can be downloaded at the end was servable from the start or
  was declared clean (or skipped) for that very attachment by the scanner of one of the runs.
\<close>

theorem scan_gate_holds:
  assumes "distinct (map att_id (t_attachments s))" and "find_attachment aid s = Some a"
    and "s' = fold run_scan ops s"
  shows "(att_scan_status a = SCAN_INFECTED \<longrightarrow>
            find_attachment aid s' = Some a \<and> (\<forall>read st f. getForStaff read st aid s' \<noteq> Inr f))
     \<and> (\<forall>read st f. getForStaff read st aid s' = Inr f \<longrightarrow>
            servable (att_scan_status a)
            \<or> (\<exists>op \<in> set ops. \<exists>x r. att_id x = aid \<and> op_scanner op x = Some r \<and> servable r))"
proof -
  have id: "att_id a = aid" "a \<in> set (t_attachments s)"
    using assms(2) by (auto simp: find_attachment_def dest: by_key_SomeD)
  note rel = scan_ops_rows [OF assms(1), of ops]
  have keys: "map att_id (t_attachments s') = map att_id (t_attachments s)"
    unfolding assms(3) using rel by (induction rule: list_all2_induct) auto
  obtain b where b: "b \<in> set (t_attachments s')" "att_id b = aid"
    "b = a \<or> (att_scan_status a = SCAN_PENDING \<and> (att_scan_status b = SCAN_PENDING
       \<or> (\<exists>op \<in> set ops. \<exists>x. att_id x = aid \<and> op_scanner op x = Some (att_scan_status b))))"
    using list_all2_nthD [OF rel] id list_all2_lengthD [OF rel] unfolding assms(3) by (metis in_set_conv_nth)
  have f: "find_attachment aid s' = Some b"
    using by_key_member [of att_id "t_attachments s'" b] b(1,2) keys assms(1) by (simp add: find_attachment_def)
  have gate: "servable (att_scan_status b)" if "getForStaff read st aid s' = Inr g" for read st g
    using that f by (auto simp: getForStaff_def serve_def split: option.splits if_splits)
  show ?thesis
  proof (intro conjI impI allI)
    assume inf: "att_scan_status a = SCAN_INFECTED"
    then have "b = a" using b(3) by auto
    with f show "find_attachment aid s' = Some a" by simp
    show "getForStaff read st aid s' \<noteq> Inr g" for read st g
      using gate [of read st g] inf \<open>b = a\<close> by auto
  next
    fix read st g assume "getForStaff read st aid s' = Inr g"
    from gate [OF this] b(3) show "servable (att_scan_status a)
        \<or> (\<exists>op \<in> set ops. \<exists>x r. att_id x = aid \<and> op_scanner op x = Some r \<and> servable r)"
      by auto
  qed
qed

definition demo_attachment :: "scan_status \<Rightarrow> attachment" where
  "demo_attachment st = \<lparr>att_id = ''f1'', att_issue = ''i1'', att_storage_key = ''k1'', att_filename = ''a.pdf'',
     att_content_type = ''application/pdf'', att_size_bytes = 5, att_scan_status = st,
     att_jira_synced = False, att_created_at = 0\<rparr>"

theorem scan_gate_holds_witness:
  "\<forall>st. \<not> is_ok (getForStaff (\<lambda>_. Some []) st ''f1''
     (run_scan (ScanRetry plain_env (\<lambda>_. Some SCAN_CLEAN)) (demo_db\<lparr>t_attachments := [demo_attachment SCAN_INFECTED]\<rparr>)))"
proof -
  let ?s = "demo_db\<lparr>t_attachments := [demo_attachment SCAN_INFECTED]\<rparr>"
  have d: "distinct (map att_id (t_attachments ?s))" by simp
  have f: "find_attachment ''f1'' ?s = Some (demo_attachment SCAN_INFECTED)"
    by (simp add: find_attachment_def by_key_Cons demo_attachment_def)
  have "getForStaff (\<lambda>_. Some []) st ''f1'' (run_scan (ScanRetry plain_env (\<lambda>_. Some SCAN_CLEAN)) ?s) \<noteq> Inr g" for st g
    using scan_gate_holds [OF d f refl, of "[ScanRetry plain_env (\<lambda>_. Some SCAN_CLEAN)]"]
    by (simp add: demo_attachment_def)
  then show ?thesis by (simp add: is_ok_iff)
qed

text \<open>Only a reply with the word OK and without FOUND clears a file; an error never does.\<close>

lemma clean_needs_ok: "clamav_scan r = SCAN_CLEAN \<Longrightarrow> \<exists>t. r = Some t \<and> ok_word False t \<and> \<not> has_sub ''FOUND'' t"
  by (auto simp: clamav_scan_def split: option.splits if_splits)

end
