(* ===== verification/Sanitizer.thy ===== *)
theory Sanitizer
  imports JsString
begin

text \<open>
  The diagnostics a reporter's browser sends (\<^verbatim>\<open>src/reporter/context-sanitizer.ts\<close>):
  parsed, clamped in every dimension, dropped when still too large. \<^verbatim>\<open>JSON.parse\<close> (none
  where it raises) and the UTF-8 length of \<^verbatim>\<open>JSON.stringify\<close> are parameters.
\<close>

section \<open>Clamping\<close>

definition MAX_TOTAL_BYTES :: nat where
  "MAX_TOTAL_BYTES = 64 * 1024"

definition MAX_STRING :: nat where
  "MAX_STRING = 1000"

definition MAX_ARRAY_ITEMS :: nat where
  "MAX_ARRAY_ITEMS = 25"

definition MAX_OBJECT_KEYS :: nat where
  "MAX_OBJECT_KEYS = 40"

definition MAX_DEPTH :: nat where
  "MAX_DEPTH = 5"

definition DANGEROUS_KEYS :: "string list" where
  "DANGEROUS_KEYS = [''__proto__'', ''constructor'', ''prototype'']"

text \<open>\<^verbatim>\<open>out[key] = v\<close>: an existing key keeps its place.\<close>

fun put_key :: "string \<Rightarrow> json \<Rightarrow> (string \<times> json) list \<Rightarrow> (string \<times> json) list" where
  "put_key k v [] = [(k, v)]"
| "put_key k v ((k', v') # r) = (if k' = k then (k, v) # r else (k', v') # put_key k v r)"

text \<open>\<^verbatim>\<open>None\<close> is \<^verbatim>\<open>undefined\<close>.\<close>

function clampValue :: "json \<Rightarrow> nat \<Rightarrow> json option" where
  "clampValue value depth =
     (if MAX_DEPTH < depth then None
      else case value of
        JStr s \<Rightarrow> Some (JStr (if MAX_STRING < length s then take MAX_STRING s @ ellipsis else s))
      | JNum n \<Rightarrow> Some (JNum n)
      | JBool b \<Rightarrow> Some (JBool b)
      | JNull \<Rightarrow> Some JNull
      | JArr vs \<Rightarrow> Some (JArr (List.map_filter (\<lambda>v. clampValue v (depth + 1)) (take MAX_ARRAY_ITEMS vs)))
      | JObj kvs \<Rightarrow>
          Some (JObj (fold
            (\<lambda>kv out. case clampValue (snd kv) (depth + 1) of
                None \<Rightarrow> out
              | Some c \<Rightarrow> put_key (take 100 (fst kv)) c out)
            (take MAX_OBJECT_KEYS (filter (\<lambda>kv. fst kv \<notin> set DANGEROUS_KEYS) kvs)) [])))"
  by pat_completeness auto
termination
  by (relation "measure (\<lambda>(v, d). MAX_DEPTH + 1 - d)") (auto simp: MAX_DEPTH_def)

declare clampValue.simps [simp del]

definition sanitizeContext ::
  "(string \<Rightarrow> json option) \<Rightarrow> (json \<Rightarrow> nat) \<Rightarrow> string option \<Rightarrow> json option" where
  "sanitizeContext json_parse json_bytes raw =
     (case raw of
        None \<Rightarrow> None
      | Some r \<Rightarrow>
          (if r = '''' then None
           else (case json_parse r of
             Some (JObj kvs) \<Rightarrow>
               (case clampValue (JObj kvs) 0 of
                  Some (JObj out) \<Rightarrow>
                    (if out = [] then None
                     else if MAX_TOTAL_BYTES < json_bytes (JObj out) then None
                     else Some (JObj out))
                | _ \<Rightarrow> None)
           | _ \<Rightarrow> None)))"

section \<open>The bounds\<close>

text \<open>
  A value within the bounds at a depth, with strings of at most \<^verbatim>\<open>n\<close> units; the keys of an
  object are pairwise different, short and harmless.
\<close>

function bounded :: "nat \<Rightarrow> json \<Rightarrow> nat \<Rightarrow> bool" where
  "bounded n value depth =
     (if MAX_DEPTH < depth then False
      else (case value of
        JStr s \<Rightarrow> length s \<le> n
      | JArr vs \<Rightarrow> length vs \<le> MAX_ARRAY_ITEMS \<and> (\<forall>v \<in> set vs. bounded n v (depth + 1))
      | JObj kvs \<Rightarrow> length kvs \<le> MAX_OBJECT_KEYS \<and> distinct (map fst kvs)
          \<and> (\<forall>kv \<in> set kvs. length (fst kv) \<le> 100 \<and> fst kv \<notin> set DANGEROUS_KEYS \<and> bounded n (snd kv) (depth + 1))
      | _ \<Rightarrow> True))"
  by pat_completeness auto
termination
  by (relation "measure (\<lambda>(n, v, d). MAX_DEPTH + 1 - d)") (auto simp: MAX_DEPTH_def)

declare bounded.simps [simp del]

lemma put_key_keys: "fst ` set (put_key k v kvs) = insert k (fst ` set kvs)"
  by (induction k v kvs rule: put_key.induct) auto

lemma put_key_distinct: "distinct (map fst kvs) \<Longrightarrow> distinct (map fst (put_key k v kvs))"
proof (induction k v kvs rule: put_key.induct)
  case (2 k v k' v' r)
  have "set (map fst (put_key k v r)) = insert k (fst ` set r)" by (simp add: put_key_keys)
  with 2 show ?case by auto
qed simp

lemma put_key_members: "x \<in> set (put_key k v kvs) \<Longrightarrow> x = (k, v) \<or> x \<in> set kvs"
  by (induction k v kvs rule: put_key.induct) (auto split: if_splits)

lemma put_key_length: "length (put_key k v kvs) \<le> Suc (length kvs)"
  by (induction k v kvs rule: put_key.induct) auto

lemma put_key_new: "k \<notin> fst ` set kvs \<Longrightarrow> put_key k v kvs = kvs @ [(k, v)]"
  by (induction k v kvs rule: put_key.induct) auto

lemma short_key_harmless: "k \<notin> set DANGEROUS_KEYS \<Longrightarrow> take 100 k \<notin> set DANGEROUS_KEYS"
proof
  assume k: "k \<notin> set DANGEROUS_KEYS" and t: "take 100 k \<in> set DANGEROUS_KEYS"
  then have "length (take 100 k) < 100"
    by (simp only: DANGEROUS_KEYS_def list.set insert_iff empty_iff) (elim disjE; simp)
  then have "take 100 k = k" by simp
  with k t show False by simp
qed

text \<open>The entries an object accumulates stay within the bounds.\<close>

definition entries_ok :: "(json \<Rightarrow> bool) \<Rightarrow> (string \<times> json) list \<Rightarrow> bool" where
  "entries_ok P out = (distinct (map fst out)
     \<and> (\<forall>kv \<in> set out. length (fst kv) \<le> 100 \<and> fst kv \<notin> set DANGEROUS_KEYS \<and> P (snd kv)))"

lemma fold_entries_ok:
  assumes "\<forall>kv \<in> set kvs. fst kv \<notin> set DANGEROUS_KEYS \<and> (\<forall>c. f (snd kv) = Some c \<longrightarrow> P c)"
    and "entries_ok P out"
  shows "entries_ok P (fold (\<lambda>kv out. case f (snd kv) of None \<Rightarrow> out | Some c \<Rightarrow> put_key (take 100 (fst kv)) c out) kvs out)
    \<and> length (fold (\<lambda>kv out. case f (snd kv) of None \<Rightarrow> out | Some c \<Rightarrow> put_key (take 100 (fst kv)) c out) kvs out)
        \<le> length out + length kvs"
  using assms
proof (induction kvs arbitrary: out)
  case (Cons kv kvs)
  show ?case
  proof (cases "f (snd kv)")
    case None
    with Cons show ?thesis by fastforce
  next
    case (Some c)
    let ?out = "put_key (take 100 (fst kv)) c out"
    have "take 100 (fst kv) \<notin> set DANGEROUS_KEYS" "P c"
      using Cons.prems(1) Some short_key_harmless by auto
    then have "length (fst x) \<le> 100 \<and> fst x \<notin> set DANGEROUS_KEYS \<and> P (snd x)" if "x \<in> set ?out" for x
      using put_key_members [OF that] Cons.prems(2) by (elim disjE) (auto simp: entries_ok_def)
    then have ok: "entries_ok P ?out"
      using Cons.prems(2) by (simp add: entries_ok_def put_key_distinct)
    have le: "length ?out \<le> Suc (length out)" by (rule put_key_length)
    from Cons.IH [OF _ ok] Cons.prems(1) Some le show ?thesis by fastforce
  qed
qed simp

lemma bounded_JObjI:
  "d \<le> MAX_DEPTH \<Longrightarrow> length kvs \<le> MAX_OBJECT_KEYS \<Longrightarrow> entries_ok (\<lambda>c. bounded n c (d + 1)) kvs \<Longrightarrow> bounded n (JObj kvs) d"
  by (simp add: bounded.simps [of _ "JObj _"] entries_ok_def)

lemma clamp_bounded: "clampValue v d = Some c \<Longrightarrow> bounded 1001 c d"
proof (induction v d arbitrary: c rule: clampValue.induct)
  case (1 val depth)
  from "1.prems" have d: "\<not> MAX_DEPTH < depth" by (auto simp: clampValue.simps [of val] split: if_splits)
  show ?case
  proof (cases val)
    case (JStr s)
    with 1 d show ?thesis
      by (auto simp: clampValue.simps [of "JStr _"] bounded.simps [of _ "JStr _"] MAX_STRING_def ellipsis_def)
  next
    case (JArr vs)
    let ?f = "\<lambda>v. clampValue v (depth + 1)"
    from "1.prems" JArr d have c: "c = JArr (List.map_filter ?f (take MAX_ARRAY_ITEMS vs))"
      by (simp add: clampValue.simps [of "JArr _"])
    have "length (List.map_filter ?f (take MAX_ARRAY_ITEMS vs)) \<le> MAX_ARRAY_ITEMS"
      by (simp add: map_filter_def) (metis length_filter_le length_take min.bounded_iff order.trans)
    moreover have "bounded 1001 x (depth + 1)" if "x \<in> set (List.map_filter ?f (take MAX_ARRAY_ITEMS vs))" for x
    proof -
      from that obtain v where "?f v = Some x" by (auto simp: map_filter_def)
      then show ?thesis using "1.IH"(1) [OF d JArr] by blast
    qed
    ultimately show ?thesis using d by (simp add: c bounded.simps [of _ "JArr _"])
  next
    case (JObj kvs)
    let ?f = "\<lambda>v. clampValue v (depth + 1)"
    let ?es = "take MAX_OBJECT_KEYS (filter (\<lambda>kv. fst kv \<notin> set DANGEROUS_KEYS) kvs)"
    let ?out = "fold (\<lambda>kv out. case ?f (snd kv) of None \<Rightarrow> out | Some c \<Rightarrow> put_key (take 100 (fst kv)) c out) ?es []"
    from "1.prems" JObj d have c: "c = JObj ?out" by (simp add: clampValue.simps [of "JObj _"])
    have es: "\<forall>kv \<in> set ?es. fst kv \<notin> set DANGEROUS_KEYS \<and> (\<forall>c. ?f (snd kv) = Some c \<longrightarrow> bounded 1001 c (depth + 1))"
    proof (intro ballI conjI allI impI)
      fix kv assume kv: "kv \<in> set ?es"
      from in_set_takeD [OF this] show "fst kv \<notin> set DANGEROUS_KEYS" by simp
      show "bounded 1001 c (depth + 1)" if "?f (snd kv) = Some c" for c
        by (rule "1.IH"(2) [OF d JObj kv that])
    qed
    have "entries_ok (\<lambda>c. bounded 1001 c (depth + 1)) []" by (simp add: entries_ok_def)
    note ok = fold_entries_ok [where f = ?f and P = "\<lambda>c. bounded 1001 c (depth + 1)" and kvs = ?es and out = "[]", OF es this]
    have "length ([] :: (string \<times> json) list) + length ?es \<le> MAX_OBJECT_KEYS" by simp
    with ok have "length ?out \<le> MAX_OBJECT_KEYS" "entries_ok (\<lambda>c. bounded 1001 c (depth + 1)) ?out"
      by (meson order.trans)+
    with d show ?thesis unfolding c by (intro bounded_JObjI) (simp only: not_less, assumption+)
  qed (use 1 d in \<open>auto simp: clampValue.simps [of JNull] clampValue.simps [of "JBool _"] clampValue.simps [of "JNum _"]
      bounded.simps [of _ JNull] bounded.simps [of _ "JBool _"] bounded.simps [of _ "JNum _"]\<close>)
qed

text \<open>What is within the bounds already is kept as it is.\<close>

lemma map_filter_same: "(\<forall>v \<in> set vs. f v = Some v) \<Longrightarrow> List.map_filter f vs = vs"
  by (induction vs) (simp_all add: map_filter_def)

lemma fold_entries_same:
  assumes "\<forall>kv \<in> set kvs. f (snd kv) = Some (snd kv) \<and> length (fst kv) \<le> 100"
    and "distinct (map fst (out @ kvs))"
  shows "fold (\<lambda>kv out. case f (snd kv) of None \<Rightarrow> out | Some c \<Rightarrow> put_key (take 100 (fst kv)) c out) kvs out = out @ kvs"
  using assms
proof (induction kvs arbitrary: out)
  case (Cons kv kvs)
  have "take 100 (fst kv) = fst kv" "f (snd kv) = Some (snd kv)" using Cons.prems(1) by auto
  moreover have "put_key (fst kv) (snd kv) out = out @ [kv]" using Cons.prems(2) put_key_new [of "fst kv" out "snd kv"] by auto
  ultimately show ?case using Cons by auto
qed simp

lemma clamp_keeps: "bounded 1000 v d \<Longrightarrow> clampValue v d = Some v"
proof (induction v d rule: clampValue.induct)
  case (1 val depth)
  from "1.prems" have d: "\<not> MAX_DEPTH < depth" by (simp add: bounded.simps [of _ val] split: if_splits)
  show ?case
  proof (cases val)
    case (JStr s)
    with 1 d show ?thesis by (simp add: clampValue.simps [of "JStr _"] bounded.simps [of _ "JStr _"] MAX_STRING_def)
  next
    case (JArr vs)
    with "1.prems" have "length vs \<le> MAX_ARRAY_ITEMS" "\<forall>v \<in> set vs. bounded 1000 v (depth + 1)"
      using d by (simp_all add: bounded.simps [of _ "JArr _"])
    with "1.IH"(1) [OF d JArr] show ?thesis
      by (simp add: clampValue.simps [of "JArr _"] d JArr map_filter_same)
  next
    case (JObj kvs)
    with "1.prems" have b: "length kvs \<le> MAX_OBJECT_KEYS" "distinct (map fst kvs)"
      "\<forall>kv \<in> set kvs. length (fst kv) \<le> 100 \<and> fst kv \<notin> set DANGEROUS_KEYS \<and> bounded 1000 (snd kv) (depth + 1)"
      using d by (simp_all add: bounded.simps [of _ "JObj _"])
    have "filter (\<lambda>kv. fst kv \<notin> set DANGEROUS_KEYS) kvs = kvs" using b(3) by (simp add: filter_id_conv)
    moreover have "\<forall>kv \<in> set kvs. clampValue (snd kv) (depth + 1) = Some (snd kv) \<and> length (fst kv) \<le> 100"
    proof
      fix kv assume kv: "kv \<in> set kvs"
      have "set (take MAX_OBJECT_KEYS (filter (\<lambda>kv. fst kv \<notin> set DANGEROUS_KEYS) kvs)) = set kvs"
        using b(1) \<open>filter (\<lambda>kv. fst kv \<notin> set DANGEROUS_KEYS) kvs = kvs\<close> by simp
      with kv have "kv \<in> set (take MAX_OBJECT_KEYS (filter (\<lambda>kv. fst kv \<notin> set DANGEROUS_KEYS) kvs))" by blast
      from "1.IH"(2) [OF d JObj this] b(3) kv
      show "clampValue (snd kv) (depth + 1) = Some (snd kv) \<and> length (fst kv) \<le> 100" by blast
    qed
    ultimately show ?thesis
      using b(1,2) fold_entries_same [of kvs "\<lambda>v. clampValue v (depth + 1)" "[]"]
      by (simp add: clampValue.simps [of "JObj _"] d JObj)
  qed (use d in \<open>simp_all add: clampValue.simps [of JNull] clampValue.simps [of "JBool _"] clampValue.simps [of "JNum _"]\<close>)
qed

section \<open>Property\<close>

text \<open>
  Whatever the browser sends, a context that is kept is a non-empty object of
  at most 64 KiB whose nesting, array lengths, key counts and string lengths are within the
  limits at every depth, whose keys are pairwise different and none of them
  \<^verbatim>\<open>__proto__\<close>, \<^verbatim>\<open>constructor\<close> or \<^verbatim>\<open>prototype\<close>; and a context that
  is within the limits already is kept exactly as it was sent.
\<close>

theorem sanitizer_bounds:
  "(sanitizeContext json_parse json_bytes raw = Some v \<longrightarrow>
      bounded 1001 v 0 \<and> (\<exists>kvs. v = JObj kvs \<and> kvs \<noteq> []) \<and> json_bytes v \<le> 65536)
   \<and> (raw = Some (c # r) \<and> json_parse (c # r) = Some (JObj (kv # kvs)) \<and> bounded 1000 (JObj (kv # kvs)) 0
        \<and> json_bytes (JObj (kv # kvs)) \<le> 65536 \<longrightarrow>
      sanitizeContext json_parse json_bytes raw = Some (JObj (kv # kvs)))"
proof (intro conjI impI)
  assume s: "sanitizeContext json_parse json_bytes raw = Some v"
  then obtain kvs out where c: "clampValue (JObj kvs) 0 = Some (JObj out)" "out \<noteq> []" "v = JObj out"
    "\<not> MAX_TOTAL_BYTES < json_bytes v"
    by (auto simp: sanitizeContext_def split: option.splits if_splits json.splits)
  from clamp_bounded [OF c(1)] c(3) show "bounded 1001 v 0" by simp
  from c show "\<exists>kvs. v = JObj kvs \<and> kvs \<noteq> []" by blast
  from c(4) show "json_bytes v \<le> 65536" by (simp add: MAX_TOTAL_BYTES_def)
next
  assume "raw = Some (c # r) \<and> json_parse (c # r) = Some (JObj (kv # kvs)) \<and> bounded 1000 (JObj (kv # kvs)) 0
        \<and> json_bytes (JObj (kv # kvs)) \<le> 65536"
  then show "sanitizeContext json_parse json_bytes raw = Some (JObj (kv # kvs))"
    using clamp_keeps [of "JObj (kv # kvs)" 0] by (simp add: sanitizeContext_def MAX_TOTAL_BYTES_def)
qed

theorem sanitizer_bounds_witness:
  "sanitizeContext (\<lambda>_. Some (JObj [(''url'', JStr ''/home'')])) (\<lambda>_. 15) (Some ''{}'')
     = Some (JObj [(''url'', JStr ''/home'')])"
proof -
  have "bounded 1000 (JObj [(''url'', JStr ''/home'')]) 0"
    by (simp add: bounded.simps MAX_DEPTH_def MAX_OBJECT_KEYS_def DANGEROUS_KEYS_def)
  then show ?thesis
    using sanitizer_bounds [of "\<lambda>_. Some (JObj [(''url'', JStr ''/home'')])" "\<lambda>_. 15" "Some ''{}''"] by simp
qed

end
