(* ===== verification/Comments.thy ===== *)
theory Comments
  imports Issues
begin

text \<open>
  Comments by staff (\<^verbatim>\<open>src/comments/comments.service.ts\<close>): adding one, with the mentions
  reduced to the people of the issue's platform, and editing one's own.
\<close>

section \<open>Operations\<close>

record comment_dto =
  cd_body :: string
  cd_visibility :: comment_visibility
  cd_mentions :: "ident list option"

record comment_view =
  cv_id :: ident
  cv_body :: string
  cv_visibility :: comment_visibility
  cv_author :: "(ident \<times> string) option"
  cv_created_at :: time
  cv_edited_at :: "time option"

definition platformMemberIds :: "ident list \<Rightarrow> ident \<Rightarrow> db \<Rightarrow> ident list" where
  "platformMemberIds ids p s =
     (if ids = [] then []
      else js_set (map upr_staff_user (filter (\<lambda>g. upr_staff_user g \<in> set ids
             \<and> upr_role g \<in> set STAFF_WRITE_ROLES
             \<and> (upr_platform g = Some p \<or> upr_platform g = None)) (t_roles s))))"

definition find_comment :: "ident \<Rightarrow> db \<Rightarrow> comment option" where
  "find_comment c s = by_key com_id c (t_comments s)"

definition getOne :: "ident \<Rightarrow> db \<Rightarrow> comment_view res" where
  "getOne cid s =
     (case find_comment cid s of
        None \<Rightarrow> Inl (NotFound ''Comment not found'')
      | Some c \<Rightarrow> Inr \<lparr>cv_id = com_id c, cv_body = com_body c, cv_visibility = com_visibility c,
          cv_author = (case com_author c of None \<Rightarrow> None | Some a \<Rightarrow>
             (case find_staff a s of None \<Rightarrow> None | Some u \<Rightarrow> Some (su_id u, su_name u))),
          cv_created_at = com_created_at c, cv_edited_at = com_edited_at c\<rparr>)"

definition kept_mentions :: "auth_staff \<Rightarrow> comment_dto \<Rightarrow> ident \<Rightarrow> db \<Rightarrow> ident list" where
  "kept_mentions st dto p s =
     (let requested = filter (\<lambda>i. i \<noteq> st_id st)
            (js_set (case cd_mentions dto of None \<Rightarrow> [] | Some ms \<Rightarrow> ms))
      in filter (\<lambda>i. i \<in> set (platformMemberIds requested p s)) requested)"

text \<open>The transaction: the comment row, the touch of a reporter-visible one, the audit row.\<close>

definition comment_rows :: "env \<Rightarrow> auth_staff \<Rightarrow> ident \<Rightarrow> comment_dto \<Rightarrow> db \<Rightarrow> db" where
  "comment_rows e st iid dto s =
     (let cid = fresh_id s;
          s1 = add_comment e iid (Some (st_id st)) ACTOR_STAFF None (cd_body dto) (cd_visibility dto) s;
          s2 = (if cd_visibility dto = REPORTER_VISIBLE then touch_issue e iid s1 else s1)
      in audit_record e (Some iid) ACTOR_STAFF (Some (st_id st)) ''COMMENT_ADDED'' (Some ''visibility'')
           None (Some (visibility_name (cd_visibility dto))) (Some (JObj [(''commentId'', JStr cid)])) s2)"

definition addComment :: "env \<Rightarrow> auth_staff \<Rightarrow> ident \<Rightarrow> comment_dto \<Rightarrow> db \<Rightarrow> (comment_view \<times> db) res" where
  "addComment e st iid dto s =
     (case find_issue iid s of
        None \<Rightarrow> Inl (NotFound ''Issue not found'')
      | Some i \<Rightarrow>
          require (find_staff (st_id st) s \<noteq> None \<and> find_comment (fresh_id s) s = None) db_error
          (let s1 = comment_rows e st iid dto s;
               s2 = emit (CommentAdded iid (iss_platform i) (fresh_id s)
                      (cd_visibility dto = REPORTER_VISIBLE) (st_id st)
                      (kept_mentions st dto (iss_platform i) s1)) s1
           in bind_res (getOne (fresh_id s) s2) (\<lambda>v. Inr (v, s2))))"

definition editComment :: "env \<Rightarrow> auth_staff \<Rightarrow> ident \<Rightarrow> string \<Rightarrow> db \<Rightarrow> (comment_view \<times> db) res" where
  "editComment e st cid body s =
     (case find_comment cid s of
        None \<Rightarrow> Inl (NotFound ''Comment not found'')
      | Some c \<Rightarrow>
          require (com_author c = Some (st_id st)) (Forbidden ''You can only edit your own comments.'')
          (require (case find_issue (com_issue c) s of None \<Rightarrow> True
                    | Some i \<Rightarrow> iss_platform i = '''' \<or> canAccessPlatform st (iss_platform i) STAFF_WRITE_ROLES)
             (Forbidden ''You no longer have write access to this platform.'')
          (let c' = c\<lparr>com_body := body, com_edited_at := Some (now e),
                      com_translations := None, com_source_locale := None\<rparr>;
               s1 = audit_record e (map_option iss_id (find_issue (com_issue c) s)) ACTOR_STAFF (Some (st_id st))
                      ''COMMENT_EDITED'' (Some ''body'') (Some (take 255 (com_body c))) (Some (take 255 body))
                      (Some (JObj [(''commentId'', JStr cid)]))
                      (t_comments_update (replace_row com_id c') s)
           in bind_res (getOne cid s1) (\<lambda>v. Inr (v, s1)))))"

section \<open>Facts\<close>

lemma touch_issue_simps [simp]:
  "t_staff (touch_issue e iid s) = t_staff s" "t_roles (touch_issue e iid s) = t_roles s"
  "t_comments (touch_issue e iid s) = t_comments s" "outbox (touch_issue e iid s) = outbox s"
  by (simp_all add: touch_issue_def qb_update_def)

lemma find_issue_touch:
  "find_issue k (touch_issue e iid s) =
     (if k = iid then map_option (\<lambda>i. i\<lparr>iss_updated_at := now e, iss_version := iss_version i + 1\<rparr>) (find_issue k s)
      else find_issue k s)"
proof -
  let ?f = "\<lambda>i. if iss_id i = iid then i\<lparr>iss_updated_at := now e, iss_version := iss_version i + 1\<rparr> else i"
  have "by_key iss_id k (map ?f is) = map_option ?f (by_key iss_id k is)" for "is" :: "issue list"
    by (rule by_key_map) simp
  then show ?thesis
    by (cases "find_issue k s")
      (auto simp: touch_issue_def qb_update_def find_issue_def dest: by_key_SomeD)
qed

lemma comment_rows_simps [simp]:
  "t_staff (comment_rows e st iid dto s) = t_staff s" "t_roles (comment_rows e st iid dto s) = t_roles s"
  "outbox (comment_rows e st iid dto s) = outbox s"
  "t_comments (comment_rows e st iid dto s) = t_comments s @
       [\<lparr>com_id = fresh_id s, com_issue = iid, com_author = Some (st_id st), com_author_type = ACTOR_STAFF,
         com_author_name = None, com_body = cd_body dto, com_visibility = cd_visibility dto,
         com_source_locale = None, com_translations = None,
         com_created_at = now e, com_edited_at = None\<rparr>]"
  "find_issue k (comment_rows e st iid dto s) =
     (if k = iid \<and> cd_visibility dto = REPORTER_VISIBLE
      then map_option (\<lambda>i. i\<lparr>iss_updated_at := now e, iss_version := iss_version i + 1\<rparr>) (find_issue k s)
      else find_issue k s)"
  by (simp_all add: comment_rows_def Let_def find_issue_touch)
    (simp_all add: add_comment_def draw_id_def)

definition writes_on :: "db \<Rightarrow> ident \<Rightarrow> ident \<Rightarrow> bool" where
  "writes_on s p m = (\<exists>g \<in> set (t_roles s). upr_staff_user g = m \<and> upr_role g \<in> {FOCAL_POINT, DEVELOPER, ADMIN}
      \<and> (upr_platform g = Some p \<or> upr_platform g = None))"

lemma set_platformMemberIds:
  "m \<in> set (platformMemberIds ids p s) \<longleftrightarrow> m \<in> set ids \<and> writes_on s p m"
  by (auto simp: platformMemberIds_def writes_on_def STAFF_WRITE_ROLES_def)

lemma kept_mentions_iff:
  "m \<in> set (kept_mentions st dto p s) \<longleftrightarrow>
     m \<noteq> st_id st \<and> (\<exists>ms. cd_mentions dto = Some ms \<and> m \<in> set ms) \<and> writes_on s p m"
  by (cases "cd_mentions dto") (auto simp: kept_mentions_def Let_def set_platformMemberIds)

lemma getOne_ok: "find_comment cid s = Some c \<Longrightarrow> \<exists>v. getOne cid s = Inr v \<and> cv_id v = cid \<and> cv_body v = com_body c"
  by (auto simp: getOne_def find_comment_def dest: by_key_SomeD)

lemma addComment_ok:
  assumes "find_issue iid s = Some i" and "find_staff (st_id st) s \<noteq> None"
    and "find_comment (fresh_id s) s = None"
  shows "\<exists>v s'. addComment e st iid dto s = Inr (v, s')"
proof -
  have "\<exists>c. find_comment (fresh_id s) (emit ev (comment_rows e st iid dto s)) = Some c" for ev
    using assms(3) by (simp add: find_comment_def by_key_append by_key_Cons)
  with assms show ?thesis
    unfolding addComment_def by (simp add: Let_def bind_res_Inr_iff) (metis getOne_ok)
qed

section \<open>Properties\<close>

text \<open>
  A comment announces as mentioned exactly the people the client
  named, other than the author, who hold a writing role on the platform of the issue (or
  everywhere): a client-supplied id of another tenant's staff reaches neither the bell nor the
  stream. The row of the issue moves (its version too) exactly when the reporter can see the
  comment, and no other issue moves.
\<close>

theorem comment_mentions_stay_in_tenant:
  assumes "addComment e st iid dto s = Inr (v, s')"
  shows "\<exists>i ms. find_issue iid s = Some i
      \<and> outbox s' = outbox s @ [CommentAdded iid (iss_platform i) (cv_id v)
           (cd_visibility dto = REPORTER_VISIBLE) (st_id st) ms]
      \<and> distinct ms
      \<and> (\<forall>m. m \<in> set ms \<longleftrightarrow> m \<noteq> st_id st \<and> (\<exists>req. cd_mentions dto = Some req \<and> m \<in> set req)
              \<and> writes_on s (iss_platform i) m)
      \<and> find_issue iid s' = Some (if cd_visibility dto = REPORTER_VISIBLE
           then i\<lparr>iss_updated_at := now e, iss_version := iss_version i + 1\<rparr> else i)
      \<and> (\<forall>k. k \<noteq> iid \<longrightarrow> find_issue k s' = find_issue k s)"
proof -
  let ?c = "fresh_id s"
  let ?s1 = "comment_rows e st iid dto s"
  from assms obtain i where i: "find_issue iid s = Some i" by (auto simp: addComment_def split: option.splits)
  let ?ms = "kept_mentions st dto (iss_platform i) ?s1"
  let ?ev = "CommentAdded iid (iss_platform i) ?c (cd_visibility dto = REPORTER_VISIBLE) (st_id st) ?ms"
  from assms i have f: "find_comment ?c s = None" and g: "getOne ?c (emit ?ev ?s1) = Inr v"
    and s': "s' = emit ?ev ?s1"
    by (auto simp: addComment_def require_Inr_iff Let_def bind_res_Inr_iff)
  have "find_comment ?c (emit ?ev ?s1) \<noteq> None"
    using f by (simp add: find_comment_def by_key_append by_key_Cons)
  with g have v: "cv_id v = ?c" using getOne_ok by fastforce
  have ms: "m \<in> set ?ms \<longleftrightarrow> m \<noteq> st_id st \<and> (\<exists>req. cd_mentions dto = Some req \<and> m \<in> set req)
              \<and> writes_on s (iss_platform i) m" for m
    by (simp add: kept_mentions_iff writes_on_def)
  have d: "distinct ?ms" by (simp add: kept_mentions_def Let_def)
  show ?thesis
    using i v ms d by (intro exI [of _ i] exI [of _ ?ms]) (simp add: s')
qed

theorem comment_mentions_stay_in_tenant_witness:
  "\<exists>v s' ms. addComment plain_env dev_staff ''i1''
       \<lparr>cd_body = ''hello'', cd_visibility = INTERNAL, cd_mentions = Some [''dev'', ''wat'', ''boss'', ''boss'']\<rparr>
       (demo_db\<lparr>t_roles := [sample_grant ''g3'' ''boss'' None ADMIN, sample_grant ''g2'' ''wat'' (Some ''p1'') WATCHER]\<rparr>) = Inr (v, s')
     \<and> outbox s' = [CommentAdded ''i1'' ''p1'' (cv_id v) False ''dev'' ms] \<and> set ms = {''boss''}"
proof -
  let ?d = "\<lparr>cd_body = ''hello'', cd_visibility = INTERNAL, cd_mentions = Some [''dev'', ''wat'', ''boss'', ''boss'']\<rparr>"
  let ?s = "demo_db\<lparr>t_roles := [sample_grant ''g3'' ''boss'' None ADMIN, sample_grant ''g2'' ''wat'' (Some ''p1'') WATCHER]\<rparr>"
  have i: "find_issue ''i1'' ?s = Some (sample_issue ''i1'' ''p1'' NEW)"
    by (simp add: find_issue_def demo_defs by_key_Cons)
  have "\<exists>v s'. addComment plain_env dev_staff ''i1'' ?d ?s = Inr (v, s')"
    by (rule addComment_ok [OF i]) (simp_all add: find_staff_def find_comment_def demo_defs by_key_Cons)
  then obtain v s' where r: "addComment plain_env dev_staff ''i1'' ?d ?s = Inr (v, s')" by blast
  from comment_mentions_stay_in_tenant [OF r] i obtain ms where
    o: "outbox s' = outbox ?s @ [CommentAdded ''i1'' (iss_platform (sample_issue ''i1'' ''p1'' NEW)) (cv_id v) False (st_id dev_staff) ms]"
    and m: "\<forall>m. m \<in> set ms \<longleftrightarrow> m \<noteq> st_id dev_staff \<and> (\<exists>req. Some [''dev'', ''wat'', ''boss'', ''boss''] = Some req \<and> m \<in> set req)
              \<and> writes_on ?s (iss_platform (sample_issue ''i1'' ''p1'' NEW)) m" by auto
  have w: "writes_on ?s (iss_platform (sample_issue ''i1'' ''p1'' NEW)) x \<longleftrightarrow> x = ''boss''" for x
    by (simp add: writes_on_def sample_grant_def sample_issue_def) blast
  have "m \<in> set ms \<longleftrightarrow> m = ''boss''" for m
    unfolding m[rule_format] w by (simp add: dev_staff_def) blast
  then have "set ms = {''boss''}" by blast
  moreover from o have "outbox s' = [CommentAdded ''i1'' ''p1'' (cv_id v) False ''dev'' ms]"
    by (simp add: demo_defs)
  ultimately show ?thesis using r by blast
qed

text \<open>
  A comment is edited only by its author, and only while the author
  still holds a writing role on the platform; the edit replaces the body, drops the cached
  translations and marks the time, leaves every other comment, every issue and the outbox as
  they are, and never makes an internal note visible to the reporter.
\<close>

theorem comment_edit_is_owner_only:
  assumes "editComment e st cid body s = Inr (v, s')"
  shows "\<exists>c. find_comment cid s = Some c \<and> com_author c = Some (st_id st)
      \<and> (\<forall>i. find_issue (com_issue c) s = Some i \<and> iss_platform i \<noteq> '''' \<longrightarrow> canAccessPlatform st (iss_platform i) STAFF_WRITE_ROLES)
      \<and> find_comment cid s' = Some (c\<lparr>com_body := body, com_edited_at := Some (now e),
           com_translations := None, com_source_locale := None\<rparr>)
      \<and> (\<forall>k. k \<noteq> cid \<longrightarrow> find_comment k s' = find_comment k s)
      \<and> t_issues s' = t_issues s \<and> outbox s' = outbox s
      \<and> (\<exists>row. t_audit s' = t_audit s @ [row] \<and> aud_actor_id row = Some (st_id st)
           \<and> aud_old_value row = Some (take 255 (com_body c)))"
proof -
  from assms obtain c where c: "find_comment cid s = Some c"
    and au: "com_author c = Some (st_id st)"
    and acc: "case find_issue (com_issue c) s of None \<Rightarrow> True
        | Some i \<Rightarrow> iss_platform i = '''' \<or> canAccessPlatform st (iss_platform i) STAFF_WRITE_ROLES"
    by (auto simp: editComment_def require_Inr_iff split: option.splits)
  let ?c = "c\<lparr>com_body := body, com_edited_at := Some (now e), com_translations := None, com_source_locale := None\<rparr>"
  let ?s1 = "t_comments_update (replace_row com_id ?c) s"
  from assms c have s': "s' = audit_record e (map_option iss_id (find_issue (com_issue c) s)) ACTOR_STAFF (Some (st_id st))
      ''COMMENT_EDITED'' (Some ''body'') (Some (take 255 (com_body c))) (Some (take 255 body))
      (Some (JObj [(''commentId'', JStr cid)])) ?s1"
    by (auto simp: editComment_def Let_def require_Inr_iff bind_res_Inr_iff)
  from c have id: "com_id ?c = cid" and mem: "com_id ?c \<in> com_id ` set (t_comments s)"
    by (auto simp: find_comment_def dest: by_key_SomeD)
  have 1: "find_comment cid s' = Some ?c"
    using by_key_replace_same [OF mem] id by (simp add: s' find_comment_def)
  have 2: "find_comment k s' = find_comment k s" if "k \<noteq> cid" for k
    using that id by_key_replace_other [of k com_id ?c "t_comments s"] by (simp add: s' find_comment_def)
  have "\<exists>row. t_audit s' = t_audit s @ [row] \<and> aud_actor_id row = Some (st_id st)
           \<and> aud_old_value row = Some (take 255 (com_body c))"
    unfolding s' by (simp add: audit_record_def draw_id_def)
  moreover have "t_issues s' = t_issues s" "outbox s' = outbox s" by (simp_all add: s')
  ultimately show ?thesis using c au acc 1 2 by (auto split: option.splits)
qed

definition demo_comment :: comment where
  "demo_comment = \<lparr>com_id = ''c1'', com_issue = ''i1'', com_author = Some ''dev'', com_author_type = ACTOR_STAFF,
     com_author_name = None, com_body = ''helo'', com_visibility = INTERNAL, com_source_locale = Some ''en'',
     com_translations = Some [(''fr'', ''bonjur'')], com_created_at = 0, com_edited_at = None\<rparr>"

theorem comment_edit_is_owner_only_witness:
  "\<exists>v s' c. editComment plain_env dev_staff ''c1'' ''hello'' (demo_db\<lparr>t_comments := [demo_comment]\<rparr>) = Inr (v, s')
     \<and> find_comment ''c1'' s' = Some c \<and> com_body c = ''hello'' \<and> com_translations c = None
     \<and> com_visibility c = INTERNAL"
proof -
  let ?s = "demo_db\<lparr>t_comments := [demo_comment]\<rparr>"
  have "\<exists>v s'. editComment plain_env dev_staff ''c1'' ''hello'' ?s = Inr (v, s')"
    by (simp add: editComment_def demo_comment_def find_comment_def by_key_Cons require_def Let_def
        bind_res_Inr_iff getOne_def find_issue_def demo_defs canAccessPlatform_def STAFF_WRITE_ROLES_def
        replace_row_def)
  then obtain v s' where r: "editComment plain_env dev_staff ''c1'' ''hello'' ?s = Inr (v, s')" by blast
  from comment_edit_is_owner_only [OF r] have "find_comment ''c1'' s' = Some (demo_comment\<lparr>com_body := ''hello'',
      com_edited_at := Some (now plain_env), com_translations := None, com_source_locale := None\<rparr>)"
    by (auto simp: find_comment_def by_key_Cons demo_comment_def)
  with r show ?thesis by (auto simp: demo_comment_def)
qed

end
