(* ===== verification/Reporter.thy ===== *)
theory Reporter
  imports Scanning Sanitizer Comments
begin

text \<open>
  The reporter portal: verification of the hand-off token (\<^verbatim>\<open>src/handoff/handoff.service.ts\<close>),
  the identity it provisions (\<^verbatim>\<open>src/reporter/reporter-upsert.ts\<close>), and the intake and the
  reporter's own issues (\<^verbatim>\<open>src/reporter/reporter.service.ts\<close>).
\<close>

section \<open>Hand-off\<close>

record handoff_claims =
  hc_platform_key :: "string option"
  hc_portal_user_id :: "string option"
  hc_name :: "string option"
  hc_email :: "string option"
  hc_locale :: "string option"
  hc_exp :: "json option"

record handoff =
  ho_platform_id :: ident
  ho_platform_key :: string
  ho_portal_user_id :: string
  ho_name :: string
  ho_email :: string
  ho_locale :: "string option"

text \<open>\<^verbatim>\<open>baseLocale\<close>: the part before the first hyphen (the first underscore counts as one).\<close>

fun replace_first :: "char \<Rightarrow> char \<Rightarrow> string \<Rightarrow> string" where
  "replace_first a b [] = []"
| "replace_first a b (c # cs) = (if c = a then b # cs else c # replace_first a b cs)"

definition baseLocale :: "string option \<Rightarrow> string option" where
  "baseLocale locale =
     (case truthy locale of
        None \<Rightarrow> None
      | Some l \<Rightarrow>
          (let base = hd (split_char (CHR ''-'') (replace_first (CHR ''_'') (CHR ''-'') (js_lower (js_trim l))))
           in if 2 \<le> length base \<and> length base \<le> 3 \<and> list_all is_lower base then Some base else None))"

text \<open>
  \<^verbatim>\<open>jwt_decode\<close> reads a token without checking it, \<^verbatim>\<open>jwt_verify\<close> checks signature,
  algorithm, expiry and maximal age against a secret (none where it raises).
\<close>

definition verify ::
  "(string \<Rightarrow> handoff_claims option) \<Rightarrow> (string \<Rightarrow> string \<Rightarrow> handoff_claims option) \<Rightarrow> string \<Rightarrow> db \<Rightarrow> handoff res" where
  "verify jwt_decode jwt_verify token s =
     (if token = '''' then Inl (Unauthorized ''Missing hand-off token'')
      else case jwt_decode token of
        None \<Rightarrow> Inl (Unauthorized ''Token missing platformKey claim'')
      | Some d \<Rightarrow>
       (case truthy (hc_platform_key d) of
          None \<Rightarrow> Inl (Unauthorized ''Token missing platformKey claim'')
        | Some k \<Rightarrow>
         (case find_platform_by_key k s of
            None \<Rightarrow> Inl (Unauthorized ''Unknown or inactive platform'')
          | Some p \<Rightarrow>
            require (plat_status p = PLATFORM_ACTIVE) (Unauthorized ''Unknown or inactive platform'')
            (case jwt_verify token (plat_handoff_secret p) of
               None \<Rightarrow> Inl (Unauthorized ''Invalid or expired hand-off token'')
             | Some c \<Rightarrow>
               require (\<exists>n. hc_exp c = Some (JNum n)) (Unauthorized ''Hand-off token must have an expiry (exp).'')
               (case (truthy (hc_portal_user_id c), truthy (hc_email c), truthy (hc_name c)) of
                  (Some u, Some m, Some nm) \<Rightarrow>
                    Inr \<lparr>ho_platform_id = plat_id p, ho_platform_key = plat_key p, ho_portal_user_id = u,
                         ho_name = nm, ho_email = m, ho_locale = baseLocale (hc_locale c)\<rparr>
                | _ \<Rightarrow> Inl (Unauthorized ''Token missing required reporter claims''))))))"

section \<open>Identity\<close>

definition findReporter :: "handoff \<Rightarrow> db \<Rightarrow> reporter option" where
  "findReporter ctx s =
     List.find (\<lambda>r. rep_platform r = ho_platform_id ctx \<and> rep_portal_user_id r = ho_portal_user_id ctx) (t_reporters s)"

text \<open>
  \<^verbatim>\<open>upsertReporter\<close>: an unchanged identity is not written. The unique violation of a
  concurrent first contact ends in the same row and does not arise in one run; a platform that
  is gone is a broken foreign key.
\<close>

definition upsertReporter :: "env \<Rightarrow> handoff \<Rightarrow> db \<Rightarrow> (reporter \<times> db) res" where
  "upsertReporter e ctx s =
     (case findReporter ctx s of
        Some r \<Rightarrow>
          (let r' = r\<lparr>rep_name := ho_name ctx, rep_email := ho_email ctx\<rparr>
           in if r' = r then Inr (r, s)
              else Inr (r'\<lparr>rep_last_seen_at := now e\<rparr>,
                        t_reporters_update (replace_row rep_id (r'\<lparr>rep_last_seen_at := now e\<rparr>)) s))
      | None \<Rightarrow>
          require (find_platform (ho_platform_id ctx) s \<noteq> None
                   \<and> by_key rep_id (fresh_id s) (t_reporters s) = None) db_error
            (let r = \<lparr>rep_id = fresh_id s, rep_platform = ho_platform_id ctx,
                      rep_portal_user_id = ho_portal_user_id ctx, rep_name = ho_name ctx,
                      rep_email = ho_email ctx, rep_first_seen_at = now e, rep_last_seen_at = now e\<rparr>
             in Inr (r, draw_id (t_reporters_update (\<lambda>rs. rs @ [r]) s))))"

section \<open>Reading\<close>

definition own_issue :: "handoff \<Rightarrow> ident \<Rightarrow> db \<Rightarrow> (reporter \<times> issue) option" where
  "own_issue ctx iid s =
     (case findReporter ctx s of
        None \<Rightarrow> None
      | Some r \<Rightarrow>
          (case find_issue iid s of
             None \<Rightarrow> None
           | Some i \<Rightarrow> (if iss_reporter i = rep_id r then Some (r, i) else None)))"

record update_view =
  uv_body :: string
  uv_original :: "string option"
  uv_translated :: bool
  uv_created_at :: time
  uv_from_reporter :: bool
  uv_author :: string

record reporter_view =
  rv_id :: ident
  rv_reference_no :: string
  rv_status :: issue_status
  rv_priority :: priority
  rv_description :: string
  rv_context :: "json option"
  rv_csat :: "(int \<times> string option) option"
  rv_created_at :: time
  rv_updated_at :: time
  rv_attachments :: "(ident \<times> string \<times> string \<times> nat \<times> bool) list"
  rv_updates :: "update_view list"

definition comment_update :: "string option \<Rightarrow> comment \<Rightarrow> update_view" where
  "comment_update locale c =
     (let translated = (case truthy locale of
            None \<Rightarrow> None
          | Some l \<Rightarrow> (case com_translations c of None \<Rightarrow> None | Some m \<Rightarrow> map_of m l))
      in \<lparr>uv_body = (case translated of None \<Rightarrow> com_body c | Some t \<Rightarrow> t),
          uv_original = (if truthy translated \<noteq> None then Some (com_body c) else None),
          uv_translated = (truthy translated \<noteq> None),
          uv_created_at = com_created_at c,
          uv_from_reporter = (com_author_type c = ACTOR_REPORTER),
          uv_author = (if com_author_type c = ACTOR_REPORTER
             then (case com_author_name c of None \<Rightarrow> ''You'' | Some n \<Rightarrow> n) else ''Support'')\<rparr>)"

definition visible_comments :: "ident \<Rightarrow> db \<Rightarrow> comment list" where
  "visible_comments iid s =
     sort_key com_created_at (filter (\<lambda>c. com_issue c = iid \<and> com_visibility c = REPORTER_VISIBLE) (t_comments s))"

definition getIssueForReporter :: "handoff \<Rightarrow> ident \<Rightarrow> db \<Rightarrow> reporter_view res" where
  "getIssueForReporter ctx iid s =
     (case own_issue ctx iid s of
        None \<Rightarrow> Inl (NotFound ''Issue not found'')
      | Some (r, i) \<Rightarrow> Inr
          \<lparr>rv_id = iss_id i, rv_reference_no = iss_reference_no i, rv_status = iss_status i,
           rv_priority = iss_priority i, rv_description = iss_description i, rv_context = iss_context i,
           rv_csat = map_option (\<lambda>c. (csat_score c, csat_comment c)) (List.find (\<lambda>c. csat_issue c = iid) (t_csat s)),
           rv_created_at = iss_created_at i, rv_updated_at = iss_updated_at i,
           rv_attachments = map (\<lambda>a. (att_id a, att_filename a, att_content_type a, att_size_bytes a, servable (att_scan_status a)))
             (filter (\<lambda>a. att_issue a = iid) (t_attachments s)),
           rv_updates = map (comment_update (ho_locale ctx)) (visible_comments iid s)\<rparr>)"

record reporter_list_item =
  rl_id :: ident
  rl_reference_no :: string
  rl_status :: issue_status
  rl_priority :: priority
  rl_created_at :: time
  rl_updated_at :: time
  rl_has_updates :: bool

definition has_updates :: "ident \<Rightarrow> issue \<Rightarrow> db \<Rightarrow> bool" where
  "has_updates rid i s =
     (case List.find (\<lambda>v. view_reporter v = rid \<and> view_issue v = iss_id i) (t_views s) of
        None \<Rightarrow> True
      | Some v \<Rightarrow> view_last_viewed_at v < iss_updated_at i)"

definition listForReporter :: "handoff \<Rightarrow> db \<Rightarrow> reporter_list_item list" where
  "listForReporter ctx s =
     (case findReporter ctx s of
        None \<Rightarrow> []
      | Some r \<Rightarrow>
          map (\<lambda>i. \<lparr>rl_id = iss_id i, rl_reference_no = iss_reference_no i, rl_status = iss_status i,
                    rl_priority = iss_priority i, rl_created_at = iss_created_at i,
                    rl_updated_at = iss_updated_at i, rl_has_updates = has_updates (rep_id r) i s\<rparr>)
            (newest_first iss_created_at (filter (\<lambda>i. iss_reporter i = rep_id r) (t_issues s))))"

definition getAttachmentForReporter ::
  "(string \<Rightarrow> nat list option) \<Rightarrow> handoff \<Rightarrow> ident \<Rightarrow> ident \<Rightarrow> db \<Rightarrow> servable_file res" where
  "getAttachmentForReporter read ctx iid aid s =
     (case own_issue ctx iid s of
        None \<Rightarrow> Inl (NotFound ''Attachment not found'')
      | Some _ \<Rightarrow>
          (case find_attachment aid s of
             None \<Rightarrow> Inl (NotFound ''Attachment not found'')
           | Some a \<Rightarrow>
               (if att_issue a \<noteq> iid then Inl (NotFound ''Attachment not found'') else serve read a)))"

section \<open>Writing\<close>

definition reporterComment :: "env \<Rightarrow> handoff \<Rightarrow> ident \<Rightarrow> string \<Rightarrow> db \<Rightarrow> db res" where
  "reporterComment e ctx iid body s =
     (case own_issue ctx iid s of
        None \<Rightarrow> Inl (NotFound ''Issue not found'')
      | Some (r, i) \<Rightarrow>
          require (find_comment (fresh_id s) s = None) db_error
          (let cid = fresh_id s;
               row = \<lparr>com_id = cid, com_issue = iid, com_author = None, com_author_type = ACTOR_REPORTER,
                      com_author_name = Some (rep_name r), com_body = body, com_visibility = REPORTER_VISIBLE,
                      com_source_locale = ho_locale ctx, com_translations = None,
                      com_created_at = now e, com_edited_at = None\<rparr>;
               s1 = draw_id (t_comments_update (\<lambda>cs. cs @ [row]) s);
               s2 = touch_issue e iid s1;
               s3 = audit_record e (Some iid) ACTOR_REPORTER (Some (rep_id r)) ''COMMENT_ADDED'' (Some ''visibility'')
                      None (Some ''REPORTER_VISIBLE'')
                      (Some (JObj [(''commentId'', JStr cid), (''fromReporter'', JBool True)])) s2
           in Inr (emit (CommentAdded iid (iss_platform i) cid True '''' []) s3)))"

definition markSeen :: "env \<Rightarrow> handoff \<Rightarrow> ident \<Rightarrow> db \<Rightarrow> db res" where
  "markSeen e ctx iid s =
     (case own_issue ctx iid s of
        None \<Rightarrow> Inl (NotFound ''Issue not found'')
      | Some (r, i) \<Rightarrow>
          (case List.find (\<lambda>v. view_reporter v = rep_id r \<and> view_issue v = iss_id i) (t_views s) of
             Some v \<Rightarrow> Inr (t_views_update (replace_row view_id (v\<lparr>view_last_viewed_at := now e\<rparr>)) s)
           | None \<Rightarrow> Inr (draw_id (t_views_update (\<lambda>vs. vs @
               [\<lparr>view_id = fresh_id s, view_reporter = rep_id r, view_issue = iss_id i,
                 view_last_viewed_at = now e\<rparr>]) s))))"

section \<open>Intake\<close>

text \<open>
  The object store: \<^verbatim>\<open>put i\<close> is the key under which the i-th file was written, none where
  the write failed; \<^verbatim>\<open>del k\<close> says whether deleting a key succeeds. The state of the store
  is the list of its keys.
\<close>

record stored_file =
  sto_key :: string
  sto_filename :: string
  sto_content_type :: string
  sto_size :: nat

fun settle :: "(nat \<Rightarrow> string option) \<Rightarrow> nat \<Rightarrow> (upload \<times> string) list \<Rightarrow> stored_file option list" where
  "settle put i [] = []"
| "settle put i ((f, t) # fs) =
     (case put i of
        None \<Rightarrow> None
      | Some k \<Rightarrow> Some \<lparr>sto_key = k, sto_filename = up_name f, sto_content_type = t, sto_size = up_size f\<rparr>)
     # settle put (Suc i) fs"

definition delete_keys :: "(string \<Rightarrow> bool) \<Rightarrow> string list \<Rightarrow> string list \<Rightarrow> string list" where
  "delete_keys del ks blobs = filter (\<lambda>k. \<not> (k \<in> set ks \<and> del k)) blobs"

definition generateReference :: "string \<Rightarrow> string" where
  "generateReference uuid = ''SUP-'' @ js_upper (hd (split_char (CHR ''-'') uuid))"

definition attachment_row :: "env \<Rightarrow> ident \<Rightarrow> stored_file \<Rightarrow> db \<Rightarrow> db" where
  "attachment_row e iid f s =
     draw_id (t_attachments_update (\<lambda>as. as @
       [\<lparr>att_id = fresh_id s, att_issue = iid, att_storage_key = sto_key f, att_filename = sto_filename f,
         att_content_type = sto_content_type f, att_size_bytes = sto_size f, att_scan_status = SCAN_PENDING,
         att_jira_synced = False, att_created_at = now e\<rparr>]) s)"

definition new_issue :: "env \<Rightarrow> handoff \<Rightarrow> string \<Rightarrow> json option \<Rightarrow> ident \<Rightarrow> string \<Rightarrow> ident \<Rightarrow> issue" where
  "new_issue e ctx description context rid ref iid =
     \<lparr>iss_id = iid, iss_reference_no = ref, iss_platform = ho_platform_id ctx, iss_reporter = rid,
      iss_assignee = None, iss_description = description, iss_publicly_visible = False,
      iss_public_title = None, iss_context = context, iss_status = NEW, iss_priority = MEDIUM,
      iss_duplicate_of = None, iss_jira_issue_key = None, iss_jira_sync_status = NOT_SYNCED,
      iss_version = 1, iss_created_at = now e, iss_sla_started_at = now e, iss_sla_breached_at = None,
      iss_updated_at = now e, iss_resolved_at = None, iss_closed_at = None\<rparr>"

text \<open>
  One transaction. \<^verbatim>\<open>Inl True\<close> is a unique violation (the reference or the id is taken),
  \<^verbatim>\<open>Inl False\<close> any other failure. Two uuids are drawn first, one for the reference and
  one for the row.
\<close>

definition persistIssue ::
  "env \<Rightarrow> handoff \<Rightarrow> string \<Rightarrow> json option \<Rightarrow> reporter \<Rightarrow> stored_file list \<Rightarrow> db \<Rightarrow> bool + ident \<times> db" where
  "persistIssue e ctx description context r stored s =
     (let ref = generateReference (fresh_id s);
          s0 = draw_id s;
          iid = fresh_id s0
      in if find_platform (ho_platform_id ctx) s = None then Inl False
         else if list_ex (\<lambda>i. iss_reference_no i = ref) (t_issues s) \<or> find_issue iid s \<noteq> None then Inl True
         else
           (let s1 = draw_id (t_issues_update (\<lambda>is. is @ [new_issue e ctx description context (rep_id r) ref iid]) s0);
                s2 = fold (attachment_row e iid) stored s1
            in Inr (iid, audit_record e (Some iid) ACTOR_REPORTER (Some (rep_id r)) ''ISSUE_CREATED'' None None None None s2)))"

definition MAX_ATTEMPTS :: nat where
  "MAX_ATTEMPTS = 5"

text \<open>The retry loop, with the attempts left; a failed attempt has used up its two uuids.\<close>

fun createIssueWithUniqueReference ::
  "nat \<Rightarrow> env \<Rightarrow> handoff \<Rightarrow> string \<Rightarrow> json option \<Rightarrow> reporter \<Rightarrow> stored_file list \<Rightarrow> db \<Rightarrow> ident option \<times> db" where
  "createIssueWithUniqueReference 0 e ctx description context r stored s = (None, s)"
| "createIssueWithUniqueReference (Suc n) e ctx description context r stored s =
     (case persistIssue e ctx description context r stored s of
        Inr (iid, s') \<Rightarrow> (Some iid, s')
      | Inl False \<Rightarrow> (None, draw_id (draw_id s))
      | Inl True \<Rightarrow> createIssueWithUniqueReference n e ctx description context r stored (draw_id (draw_id s)))"

definition createIssue ::
  "env \<Rightarrow> (string option \<Rightarrow> json option) \<Rightarrow> (nat \<Rightarrow> string option) \<Rightarrow> (string \<Rightarrow> bool)
     \<Rightarrow> handoff \<Rightarrow> string \<Rightarrow> string option \<Rightarrow> upload list \<Rightarrow> db \<Rightarrow> string list
     \<Rightarrow> reporter_view res \<times> db \<times> string list" where
  "createIssue e sanitize put del ctx description context files s blobs =
     (case validateFiles files of
        Inl err \<Rightarrow> (Inl err, s, blobs)
      | Inr types \<Rightarrow>
       (case upsertReporter e ctx s of
          Inl err \<Rightarrow> (Inl err, s, blobs)
        | Inr (r, s1) \<Rightarrow>
           (let results = settle put 0 (zip files types);
                stored = List.map_filter id results;
                keys = map sto_key stored;
                blobs1 = blobs @ keys
            in if None \<in> set results then (Inl db_error, s1, delete_keys del keys blobs1)
               else case createIssueWithUniqueReference MAX_ATTEMPTS e ctx description (sanitize context) r stored s1 of
                 (None, s2) \<Rightarrow> (Inl db_error, s2, delete_keys del keys blobs1)
               | (Some iid, s2) \<Rightarrow>
                   (let s3 = emit (IssueCreated iid (ho_platform_id ctx)) s2
                    in (getIssueForReporter ctx iid s3, s3, blobs1)))))"

section \<open>Facts\<close>

lemma attachment_row_frame [simp]:
  "t_issues (attachment_row e iid f s) = t_issues s" "outbox (attachment_row e iid f s) = outbox s"
  "t_reporters (attachment_row e iid f s) = t_reporters s"
  by (simp_all add: attachment_row_def draw_id_def)

lemma fold_attachment_rows:
  "\<exists>rows. t_attachments (fold (attachment_row e iid) fs s) = t_attachments s @ rows
     \<and> map att_storage_key rows = map sto_key fs \<and> map att_content_type rows = map sto_content_type fs
     \<and> (\<forall>a \<in> set rows. att_scan_status a = SCAN_PENDING \<and> att_issue a = iid)
     \<and> t_issues (fold (attachment_row e iid) fs s) = t_issues s
     \<and> outbox (fold (attachment_row e iid) fs s) = outbox s
     \<and> t_reporters (fold (attachment_row e iid) fs s) = t_reporters s"
proof (induction fs arbitrary: s)
  case (Cons f fs)
  let ?row = "\<lparr>att_id = fresh_id s, att_issue = iid, att_storage_key = sto_key f, att_filename = sto_filename f,
      att_content_type = sto_content_type f, att_size_bytes = sto_size f, att_scan_status = SCAN_PENDING,
      att_jira_synced = False, att_created_at = now e\<rparr>"
  have a: "t_attachments (attachment_row e iid f s) = t_attachments s @ [?row]"
    by (simp add: attachment_row_def draw_id_def)
  from Cons.IH [of "attachment_row e iid f s"] obtain rows where
    "t_attachments (fold (attachment_row e iid) fs (attachment_row e iid f s)) = t_attachments s @ ?row # rows"
    "map att_storage_key rows = map sto_key fs" "map att_content_type rows = map sto_content_type fs"
    "\<forall>a \<in> set rows. att_scan_status a = SCAN_PENDING \<and> att_issue a = iid"
    "t_issues (fold (attachment_row e iid) fs (attachment_row e iid f s)) = t_issues s"
    "outbox (fold (attachment_row e iid) fs (attachment_row e iid f s)) = outbox s"
    "t_reporters (fold (attachment_row e iid) fs (attachment_row e iid f s)) = t_reporters s"
    unfolding a by auto
  then show ?case by (intro exI [of _ "?row # rows"]) simp
qed simp

lemma find_replace_match:
  assumes "List.find P rs = Some r" and "P r'" and "key r' = key r"
  shows "List.find P (replace_row key r' rs) = Some r'"
  using assms by (induction rs) (auto simp: replace_row_def split: if_splits)

lemma upsertReporter_ok:
  assumes "upsertReporter e ctx s = Inr (r, s1)"
  shows "findReporter ctx s1 = Some r \<and> rep_name r = ho_name ctx \<and> rep_email r = ho_email ctx
     \<and> t_issues s1 = t_issues s \<and> t_attachments s1 = t_attachments s \<and> outbox s1 = outbox s
     \<and> t_platforms s1 = t_platforms s \<and> t_comments s1 = t_comments s"
proof (cases "findReporter ctx s")
  case None
  with assms show ?thesis
    by (auto simp: upsertReporter_def require_Inr_iff Let_def findReporter_def find_append draw_id_def)
next
  case (Some r0)
  let ?P = "\<lambda>r. rep_platform r = ho_platform_id ctx \<and> rep_portal_user_id r = ho_portal_user_id ctx"
  let ?r = "r0\<lparr>rep_name := ho_name ctx, rep_email := ho_email ctx\<rparr>"
  from Some have f: "List.find ?P (t_reporters s) = Some r0" by (simp add: findReporter_def)
  then have p: "?P r0" by (blast dest: find_SomeD)
  show ?thesis
  proof (cases "?r = r0")
    case True
    have "rep_name r0 = ho_name ctx" using arg_cong [OF True, of rep_name] by simp
    moreover have "rep_email r0 = ho_email ctx" using arg_cong [OF True, of rep_email] by simp
    moreover note True
    moreover have "r = r0 \<and> s1 = s" using assms Some True by (simp add: upsertReporter_def)
    ultimately show ?thesis using Some by blast
  next
    case False
    have "List.find ?P (replace_row rep_id (?r\<lparr>rep_last_seen_at := now e\<rparr>) (t_reporters s)) = Some (?r\<lparr>rep_last_seen_at := now e\<rparr>)"
      by (rule find_replace_match [OF f]) (use p in simp_all)
    with False assms Some show ?thesis by (auto simp: upsertReporter_def Let_def findReporter_def)
  qed
qed

lemma retry_outcome:
  "createIssueWithUniqueReference n e ctx d c r stored s = (res, s') \<Longrightarrow>
     (case res of None \<Rightarrow> \<exists>m. s' = s\<lparr>uuid_drawn := m\<rparr>
      | Some iid \<Rightarrow> \<exists>m. persistIssue e ctx d c r stored (s\<lparr>uuid_drawn := m\<rparr>) = Inr (iid, s'))"
proof (induction n arbitrary: s)
  case 0
  then have "res = None" "s' = s\<lparr>uuid_drawn := uuid_drawn s\<rparr>" by simp_all
  then show ?case by (simp only: option.case) (rule exI [of _ "uuid_drawn s"], rule refl)
next
  case (Suc n)
  have draws: "draw_id (draw_id s) = s\<lparr>uuid_drawn := Suc (Suc (uuid_drawn s))\<rparr>" by (simp add: draw_id_def)
  show ?case
  proof (cases "persistIssue e ctx d c r stored s")
    case (Inl b)
    show ?thesis
    proof (cases b)
      case True
      with Inl Suc.prems have "createIssueWithUniqueReference n e ctx d c r stored (s\<lparr>uuid_drawn := Suc (Suc (uuid_drawn s))\<rparr>) = (res, s')"
        by (simp add: draws)
      from Suc.IH [OF this] show ?thesis by (auto split: option.splits)
    next
      case False
      with Inl Suc.prems have "res = None" "s' = s\<lparr>uuid_drawn := Suc (Suc (uuid_drawn s))\<rparr>" by (simp_all add: draws)
      then show ?thesis by (simp only: option.case) (rule exI [of _ "Suc (Suc (uuid_drawn s))"], rule refl)
    qed
  next
    case (Inr p)
    obtain iid t where p: "p = (iid, t)" by (cases p)
    with Inr Suc.prems have "res = Some iid" "s' = t" by simp_all
    moreover have "persistIssue e ctx d c r stored (s\<lparr>uuid_drawn := uuid_drawn s\<rparr>) = Inr (iid, t)" using Inr p by simp
    ultimately show ?thesis by (simp only: option.case) (rule exI)
  qed
qed

lemma persistIssue_ok:
  assumes "persistIssue e ctx d c r stored s = Inr (iid, s')"
  shows "\<exists>ref rows. t_issues s' = t_issues s @ [new_issue e ctx d c (rep_id r) ref iid]
     \<and> find_issue iid s = None \<and> (\<forall>j \<in> set (t_issues s). iss_reference_no j \<noteq> ref)
     \<and> t_attachments s' = t_attachments s @ rows
     \<and> map att_storage_key rows = map sto_key stored \<and> map att_content_type rows = map sto_content_type stored
     \<and> (\<forall>a \<in> set rows. att_scan_status a = SCAN_PENDING \<and> att_issue a = iid)
     \<and> outbox s' = outbox s \<and> t_reporters s' = t_reporters s"
proof -
  let ?ref = "generateReference (fresh_id s)"
  let ?s1 = "draw_id (t_issues_update (\<lambda>is. is @ [new_issue e ctx d c (rep_id r) ?ref iid]) (draw_id s))"
  from assms have k: "iid = fresh_id (draw_id s)" "find_issue iid s = None" "\<forall>j \<in> set (t_issues s). iss_reference_no j \<noteq> ?ref"
    "s' = audit_record e (Some iid) ACTOR_REPORTER (Some (rep_id r)) ''ISSUE_CREATED'' None None None None
       (fold (attachment_row e iid) stored ?s1)"
    by (auto simp: persistIssue_def Let_def list_ex_iff split: if_splits)
  have s1: "t_issues ?s1 = t_issues s @ [new_issue e ctx d c (rep_id r) ?ref iid]" "t_attachments ?s1 = t_attachments s"
    "outbox ?s1 = outbox s" "t_reporters ?s1 = t_reporters s" by (simp_all add: draw_id_def)
  from fold_attachment_rows [of e iid stored ?s1] obtain rows where
    "t_attachments (fold (attachment_row e iid) stored ?s1) = t_attachments s @ rows"
    "map att_storage_key rows = map sto_key stored" "map att_content_type rows = map sto_content_type stored"
    "\<forall>a \<in> set rows. att_scan_status a = SCAN_PENDING \<and> att_issue a = iid"
    "t_issues (fold (attachment_row e iid) stored ?s1) = t_issues s @ [new_issue e ctx d c (rep_id r) ?ref iid]"
    "outbox (fold (attachment_row e iid) stored ?s1) = outbox s"
    "t_reporters (fold (attachment_row e iid) stored ?s1) = t_reporters s"
    unfolding s1 by blast
  then show ?thesis using k(2,3) by (intro exI [of _ ?ref] exI [of _ rows]) (simp add: k(4))
qed

lemma settle_facts:
  assumes "f \<in> set (List.map_filter id (settle put i fts))"
  shows "(\<exists>j. put j = Some (sto_key f)) \<and> sto_content_type f \<in> snd ` set fts"
  using assms
proof (induction put i fts rule: settle.induct)
  case (2 put i f' t fs)
  then show ?case by (cases "put i") (auto simp: map_filter_def)
qed (simp add: map_filter_def)

text \<open>If no write failed, one stored object per file, in their order, each under its own key.\<close>

lemma settle_complete:
  assumes "None \<notin> set (settle put i fts)"
  shows "map (Some \<circ> sto_key) (List.map_filter id (settle put i fts)) = map put [i..<i + length fts]
     \<and> map sto_filename (List.map_filter id (settle put i fts)) = map (up_name \<circ> fst) fts
     \<and> map sto_content_type (List.map_filter id (settle put i fts)) = map snd fts
     \<and> map sto_size (List.map_filter id (settle put i fts)) = map (up_size \<circ> fst) fts"
  using assms
proof (induction put i fts rule: settle.induct)
  case (2 put i f t fs)
  then obtain k where "put i = Some k" by (cases "put i") auto
  moreover have "[i..<i + length ((f, t) # fs)] = i # [Suc i..<Suc i + length fs]"
    by (simp add: upt_rec [of i] del: upt_Suc)
  ultimately show ?case using 2 by (simp add: map_filter_def del: upt_Suc)
qed (simp add: map_filter_def)

definition file_row :: "attachment \<Rightarrow> string \<times> string \<times> string \<times> nat" where
  "file_row a = (att_storage_key a, att_filename a, att_content_type a, att_size_bytes a)"

definition stored_row :: "stored_file \<Rightarrow> string \<times> string \<times> string \<times> nat" where
  "stored_row f = (sto_key f, sto_filename f, sto_content_type f, sto_size f)"

lemma fold_attachment_files:
  "map file_row (t_attachments (fold (attachment_row e iid) fs s)) = map file_row (t_attachments s) @ map stored_row fs"
  by (induction fs arbitrary: s) (simp_all add: attachment_row_def draw_id_def file_row_def stored_row_def)

lemma persist_files:
  assumes "persistIssue e ctx d c r stored s = Inr (iid, s')"
  shows "map file_row (t_attachments s') = map file_row (t_attachments s) @ map stored_row stored"
  using assms fold_attachment_files [of e iid stored]
  by (auto simp: persistIssue_def Let_def draw_id_def audit_record_def split: if_splits)

lemma validateFiles_types: "validateFiles fs = Inr ts \<Longrightarrow> length ts = length fs \<and> set ts \<subseteq> set ALLOWED_MIME_TYPES"
proof -
  assume "validateFiles fs = Inr ts"
  then have v: "validate_each fs = Inr ts" by (simp add: validateFiles_def split: if_splits)
  note e = validate_each_ok [OF this]
  have "t \<in> set ALLOWED_MIME_TYPES" if "t \<in> set ts" for t
  proof -
    from that obtain i where "i < length ts" "ts ! i = t" by (metis in_set_conv_nth)
    with e have "sniffAllowedMime (up_buffer (fs ! i)) = Some t" by metis
    then show ?thesis using sniff_cases by blast
  qed
  with e show ?thesis by blast
qed

lemma delete_fresh_keys:
  "\<forall>k. del k \<Longrightarrow> set ks \<inter> set blobs = {} \<Longrightarrow> delete_keys del ks (blobs @ ks) = blobs"
  by (auto simp: delete_keys_def filter_empty_conv intro!: filter_True)

lemma find_new_issue:
  "find_issue (iss_id i) s = None \<Longrightarrow> t_issues s' = t_issues s @ [i] \<Longrightarrow> find_issue (iss_id i) s' = Some i"
  by (simp add: find_issue_def by_key_append by_key_Cons)

definition stored_of :: "(nat \<Rightarrow> string option) \<Rightarrow> upload list \<Rightarrow> string list \<Rightarrow> stored_file list" where
  "stored_of put files types = List.map_filter id (settle put 0 (zip files types))"

lemma createIssue_cases:
  assumes "createIssue e sanitize put del ctx d c files s blobs = (res, s', blobs')"
  obtains err where "res = Inl err" "t_issues s' = t_issues s" "t_attachments s' = t_attachments s"
      "outbox s' = outbox s" "blobs' = blobs"
  | err types where "res = Inl err" "t_issues s' = t_issues s" "t_attachments s' = t_attachments s"
      "outbox s' = outbox s"
      "blobs' = delete_keys del (map sto_key (stored_of put files types)) (blobs @ map sto_key (stored_of put files types))"
  | types r s1 m iid s2 where "validateFiles files = Inr types" "upsertReporter e ctx s = Inr (r, s1)"
      "persistIssue e ctx d (sanitize c) r (stored_of put files types) (s1\<lparr>uuid_drawn := m\<rparr>) = Inr (iid, s2)"
      "s' = emit (IssueCreated iid (ho_platform_id ctx)) s2" "res = getIssueForReporter ctx iid s'"
      "blobs' = blobs @ map sto_key (stored_of put files types)" "None \<notin> set (settle put 0 (zip files types))"
proof (cases "validateFiles files")
  case (Inl err)
  with assms have "res = Inl err" "s' = s" "blobs' = blobs" by (simp_all add: createIssue_def)
  then show thesis by (intro that(1) [of err]) simp_all
next
  case (Inr types)
  note v = this
  show thesis
  proof (cases "upsertReporter e ctx s")
    case (Inl err)
    with v assms have "res = Inl err" "s' = s" "blobs' = blobs" by (simp_all add: createIssue_def)
    then show thesis by (intro that(1) [of err]) simp_all
  next
    case (Inr p)
    obtain r s1 where p: "p = (r, s1)" by (cases p)
    note up = upsertReporter_ok [OF Inr [unfolded p]]
    obtain o2 s2 where q: "createIssueWithUniqueReference MAX_ATTEMPTS e ctx d (sanitize c) r (stored_of put files types) s1 = (o2, s2)"
      by fastforce
    from assms have run: "(if None \<in> set (settle put 0 (zip files types))
        then (Inl db_error, s1, delete_keys del (map sto_key (stored_of put files types)) (blobs @ map sto_key (stored_of put files types)))
        else case o2 of
          None \<Rightarrow> (Inl db_error, s2, delete_keys del (map sto_key (stored_of put files types)) (blobs @ map sto_key (stored_of put files types)))
        | Some iid \<Rightarrow> (getIssueForReporter ctx iid (emit (IssueCreated iid (ho_platform_id ctx)) s2),
             emit (IssueCreated iid (ho_platform_id ctx)) s2, blobs @ map sto_key (stored_of put files types)))
        = (res, s', blobs')"
      unfolding createIssue_def v Inr p Let_def sum.case prod.case stored_of_def [symmetric] q
      by (cases o2) (simp_all add: Let_def)
    show thesis
    proof (cases "None \<in> set (settle put 0 (zip files types))")
      case True
      with run have "res = Inl db_error" "s' = s1"
        "blobs' = delete_keys del (map sto_key (stored_of put files types)) (blobs @ map sto_key (stored_of put files types))"
        by simp_all
      with up show thesis by (intro that(2) [of db_error types]) simp_all
    next
      case False
      note ro = retry_outcome [OF q]
      show thesis
      proof (cases o2)
        case None
        with ro obtain m where "s2 = s1\<lparr>uuid_drawn := m\<rparr>" by auto
        moreover from None False run have "res = Inl db_error" "s' = s2"
          "blobs' = delete_keys del (map sto_key (stored_of put files types)) (blobs @ map sto_key (stored_of put files types))"
          by simp_all
        ultimately show thesis using up by (intro that(2) [of db_error types]) simp_all
      next
        case (Some iid)
        with ro obtain m where "persistIssue e ctx d (sanitize c) r (stored_of put files types) (s1\<lparr>uuid_drawn := m\<rparr>) = Inr (iid, s2)"
          by auto
        moreover from Some False run have "s' = emit (IssueCreated iid (ho_platform_id ctx)) s2"
          "res = getIssueForReporter ctx iid s'" "blobs' = blobs @ map sto_key (stored_of put files types)"
          by auto
        ultimately show thesis using v Inr p False by (intro that(3) [of types r s1 m iid s2]) simp_all
      qed
    qed
  qed
qed

lemma stored_of_facts:
  assumes "f \<in> set (stored_of put files types)"
  shows "(\<exists>j. put j = Some (sto_key f)) \<and> sto_content_type f \<in> set types"
proof -
  from settle_facts [of f put 0 "zip files types"] assms
  have "(\<exists>j. put j = Some (sto_key f)) \<and> sto_content_type f \<in> snd ` set (zip files types)"
    by (simp add: stored_of_def)
  then show ?thesis by (auto dest: set_zip_rightD)
qed

section \<open>Properties\<close>

text \<open>
  C22: A report either happens completely or not at all. If intake fails
  at any point (a file too large, one write of the object store, the database, the reference
  numbers) no issue, attachment or event appears and, as deleting works, the object store
  holds exactly the keys it held before. If it succeeds every file was accepted and written:
  there is exactly one new issue, NEW, with the description, on the platform of the token,
  with an id and a reference no issue had; one attachment per file, in their order, with the
  name, the size, the detected type and the key of that file, each PENDING; and one event.
\<close>

theorem intake_leaves_no_orphans:
  assumes run: "createIssue e sanitize put del ctx d c files s blobs = (res, s', blobs')"
    and del: "\<forall>k. del k" and fresh: "\<forall>i k. put i = Some k \<longrightarrow> k \<notin> set blobs"
  shows "case res of
      Inl err \<Rightarrow> t_issues s' = t_issues s \<and> t_attachments s' = t_attachments s \<and> outbox s' = outbox s \<and> blobs' = blobs
    | Inr v \<Rightarrow> \<exists>i rows. t_issues s' = t_issues s @ [i] \<and> iss_id i = rv_id v \<and> iss_status i = NEW
        \<and> iss_platform i = ho_platform_id ctx \<and> iss_description i = d \<and> find_issue (iss_id i) s = None
        \<and> (\<forall>j \<in> set (t_issues s). iss_reference_no j \<noteq> iss_reference_no i)
        \<and> t_attachments s' = t_attachments s @ rows \<and> blobs' = blobs @ map att_storage_key rows
        \<and> (\<forall>a \<in> set rows. att_scan_status a = SCAN_PENDING \<and> att_issue a = iss_id i
             \<and> att_content_type a \<in> set ALLOWED_MIME_TYPES)
        \<and> map (Some \<circ> att_storage_key) rows = map put [0..<length files]
        \<and> map att_filename rows = map up_name files \<and> map att_size_bytes rows = map up_size files
        \<and> validateFiles files = Inr (map att_content_type rows)
        \<and> outbox s' = outbox s @ [IssueCreated (iss_id i) (ho_platform_id ctx)]"
  using run
proof (cases rule: createIssue_cases)
  case (1 err)
  then show ?thesis by simp
next
  case (2 err types)
  have "set (map sto_key (stored_of put files types)) \<inter> set blobs = {}"
    using stored_of_facts [of _ put files types] fresh by fastforce
  from delete_fresh_keys [OF del this] 2 show ?thesis by simp
next
  case (3 types r s1 m iid s2)
  note up = upsertReporter_ok [OF 3(2)]
  let ?i = "\<lambda>ref. new_issue e ctx d (sanitize c) (rep_id r) ref iid"
  obtain ref rows where
    i: "t_issues s2 = t_issues s @ [?i ref]" "find_issue iid s = None" "\<forall>j \<in> set (t_issues s). iss_reference_no j \<noteq> ref"
    and a: "t_attachments s2 = t_attachments s @ rows" "map att_storage_key rows = map sto_key (stored_of put files types)"
      "map att_content_type rows = map sto_content_type (stored_of put files types)"
      "\<forall>a \<in> set rows. att_scan_status a = SCAN_PENDING \<and> att_issue a = iid"
    and o: "outbox s2 = outbox s" "t_reporters s2 = t_reporters s1"
    using persistIssue_ok [OF 3(3)] up by (auto simp: find_issue_def)
  have n: "length types = length files" using validateFiles_types [OF 3(1)] by blast
  have "map file_row rows = map stored_row (stored_of put files types)"
    using persist_files [OF 3(3)] a(1) up by simp
  then have "map (fst \<circ> snd) (map file_row rows) = map (fst \<circ> snd) (map stored_row (stored_of put files types))"
    "map (snd \<circ> snd \<circ> snd) (map file_row rows) = map (snd \<circ> snd \<circ> snd) (map stored_row (stored_of put files types))"
    by (simp_all only:)
  then have named: "map att_filename rows = map sto_filename (stored_of put files types)"
    "map att_size_bytes rows = map sto_size (stored_of put files types)"
    by (simp_all add: file_row_def stored_row_def comp_def)
  have "map (Some \<circ> att_storage_key) rows = map Some (map sto_key (stored_of put files types))"
    using a(2) by (metis list.map_comp)
  with named a(3) settle_complete [OF 3(7)] n have files:
    "map (Some \<circ> att_storage_key) rows = map put [0..<length files]"
    "map att_filename rows = map up_name files" "map att_size_bytes rows = map up_size files"
    "map att_content_type rows = types"
    by (simp_all add: stored_of_def map_map [symmetric] del: map_map)
  have types: "att_content_type x \<in> set ALLOWED_MIME_TYPES" if "x \<in> set rows" for x
  proof -
    from that have "att_content_type x \<in> set types" unfolding files(4) [symmetric] by simp
    then show ?thesis using validateFiles_types [OF 3(1)] by blast
  qed
  have "find_issue iid s' = Some (?i ref)"
    using find_new_issue [of "?i ref" s s2] i by (simp add: new_issue_def 3(4))
  moreover have "findReporter ctx s' = Some r" using up o(2) by (simp add: findReporter_def emit_def 3(4))
  ultimately obtain v where v: "res = Inr v" "rv_id v = iid"
    by (auto simp: getIssueForReporter_def own_issue_def new_issue_def 3(5))
  have "iss_id (?i ref) = iid" "iss_status (?i ref) = NEW" "iss_platform (?i ref) = ho_platform_id ctx"
    "iss_reference_no (?i ref) = ref" "iss_description (?i ref) = d" by (simp_all add: new_issue_def)
  moreover have "t_issues s' = t_issues s @ [?i ref]" "t_attachments s' = t_attachments s @ rows"
    "outbox s' = outbox s @ [IssueCreated iid (ho_platform_id ctx)]" "blobs' = blobs @ map att_storage_key rows"
    using i(1) a(1,2) o(1) 3(4,6) by simp_all
  moreover have "\<forall>x \<in> set rows. att_scan_status x = SCAN_PENDING \<and> att_issue x = iid \<and> att_content_type x \<in> set ALLOWED_MIME_TYPES"
    using a(4) types by blast
  moreover have "validateFiles files = Inr (map att_content_type rows)" using files(4) 3(1) by simp
  ultimately show ?thesis
    unfolding v(1) sum.case using i(2,3) v(2) files(1-3) by metis
qed

definition demo_handoff :: handoff where
  "demo_handoff = \<lparr>ho_platform_id = ''p1'', ho_platform_key = ''portal'', ho_portal_user_id = ''u7'',
     ho_name = ''Rae'', ho_email = ''rae@x.org'', ho_locale = None\<rparr>"

definition demo_jpeg :: upload where
  "demo_jpeg = \<lparr>up_name = ''a.jpg'', up_size = 4, up_buffer = [255, 216, 255, 224], up_mimetype = ''text/html''\<rparr>"

theorem intake_leaves_no_orphans_witness:
  "\<exists>v s' i a. createIssue plain_env (\<lambda>_. None) (\<lambda>_. Some ''k2'') (\<lambda>_. True) demo_handoff ''It is broken'' None [demo_jpeg] demo_db [''k1'']
       = (Inr v, s', [''k1'', ''k2'']) \<and> t_issues s' = t_issues demo_db @ [i] \<and> att_storage_key a = ''k2''
       \<and> t_attachments s' = [a] \<and> att_scan_status a = SCAN_PENDING"
proof -
  obtain res s' blobs' where run: "createIssue plain_env (\<lambda>_. None) (\<lambda>_. Some ''k2'') (\<lambda>_. True) demo_handoff ''It is broken'' None
      [demo_jpeg] demo_db [''k1''] = (res, s', blobs')" by (metis prod_cases3)
  have val: "validateFiles [demo_jpeg] = Inr [''image/jpeg'']"
    by (simp add: validateFiles_def demo_jpeg_def MAX_FILES_def MAX_FILE_BYTES_def sniffAllowedMime_def SIGNATURES_def
        startsWith_def ALLOWED_MIME_TYPES_def)
  have "(case createIssue plain_env (\<lambda>_. None) (\<lambda>_. Some ''k2'') (\<lambda>_. True) demo_handoff ''It is broken'' None
      [demo_jpeg] demo_db [''k1''] of (r, s, b) \<Rightarrow> is_ok r \<and> b = [''k1'', ''k2''])"
    unfolding createIssue_def val sum.case by code_simp
  then obtain v where v: "res = Inr v" and b: "blobs' = [''k1'', ''k2'']" by (auto simp: is_ok_iff run)
  have "t_attachments demo_db = []" by (simp add: demo_defs)
  with intake_leaves_no_orphans [OF run, unfolded v] b obtain i rows where
    i: "t_issues s' = t_issues demo_db @ [i]" and r: "t_attachments s' = rows" "map att_storage_key rows = [''k2'']"
      "\<forall>a \<in> set rows. att_scan_status a = SCAN_PENDING" by auto
  from r obtain a where "rows = [a]" "att_storage_key a = ''k2''" by (cases rows) auto
  with run v b i r show ?thesis by auto
qed

text \<open>The reference and the id the k-th attempt from here would draw are both unused.\<close>

definition fresh_pair :: "nat \<Rightarrow> db \<Rightarrow> bool" where
  "fresh_pair k s =
     (find_issue (uuid_gen s (uuid_drawn s + 2 * k + 1)) s = None
    \<and> list_all (\<lambda>j. iss_reference_no j \<noteq> generateReference (uuid_gen s (uuid_drawn s + 2 * k))) (t_issues s))"

lemma fresh_pair_later: "fresh_pair k (draw_id (draw_id s)) = fresh_pair (Suc k) s"
  by (simp add: fresh_pair_def draw_id_def find_issue_def)

lemma persist_outcome:
  "persistIssue e ctx d c r stored s =
     (if find_platform (ho_platform_id ctx) s = None then Inl False
      else if fresh_pair 0 s then
        Inr (case persistIssue e ctx d c r stored s of Inr p \<Rightarrow> p | _ \<Rightarrow> undefined) else Inl True)"
  by (simp add: persistIssue_def Let_def fresh_pair_def fresh_id_def draw_id_def find_issue_def list_ex_iff list_all_iff)

lemma retry_iff:
  "fst (createIssueWithUniqueReference n e ctx d c r stored s) \<noteq> None
     \<longleftrightarrow> find_platform (ho_platform_id ctx) s \<noteq> None \<and> (\<exists>k < n. fresh_pair k s)"
proof (induction n arbitrary: s)
  case (Suc n)
  have step: "(\<exists>k < Suc n. fresh_pair k s) \<longleftrightarrow> fresh_pair 0 s \<or> (\<exists>k < n. fresh_pair k (draw_id (draw_id s)))"
    unfolding fresh_pair_later by (metis Suc_less_eq gr0_conv_Suc not_gr_zero zero_less_Suc)
  have plat: "find_platform (ho_platform_id ctx) (draw_id (draw_id s)) = find_platform (ho_platform_id ctx) s"
    by (simp add: find_platform_def draw_id_def)
  consider "find_platform (ho_platform_id ctx) s = None" | "find_platform (ho_platform_id ctx) s \<noteq> None" "fresh_pair 0 s"
    | "find_platform (ho_platform_id ctx) s \<noteq> None" "\<not> fresh_pair 0 s" by blast
  then show ?case
  proof cases
    case 1
    then have "persistIssue e ctx d c r stored s = Inl False" by (subst persist_outcome) simp
    with 1 show ?thesis by simp
  next
    case 2
    then obtain p where "persistIssue e ctx d c r stored s = Inr p" by (subst (asm) persist_outcome) auto
    with 2 show ?thesis by (cases p) auto
  next
    case 3
    then have "persistIssue e ctx d c r stored s = Inl True" by (subst persist_outcome) simp
    with 3 Suc.IH [of "draw_id (draw_id s)"] step plat show ?thesis by simp
  qed
qed simp

text \<open>
  On a platform that exists, the retry loop of intake finds a reference
  exactly when one of its first five pairs of a reference and an id is unused; it stops
  after five, and a platform that is gone ends it at once.
\<close>

theorem reference_retry_succeeds:
  "fst (createIssueWithUniqueReference MAX_ATTEMPTS e ctx d c r stored s) \<noteq> None
     \<longleftrightarrow> find_platform (ho_platform_id ctx) s \<noteq> None \<and> (\<exists>k < 5. fresh_pair k s)"
  unfolding MAX_ATTEMPTS_def by (rule retry_iff)

section \<open>Isolation\<close>

text \<open>
  C23: An issue another reporter filed is, to the holder of a token, an issue that
  does not exist: reading it, replying to it, marking it seen and downloading a file through
  it all answer 404 and write nothing, and it is not in the list.
\<close>

theorem reporter_isolation:
  assumes "find_issue iid s = Some i" and "\<forall>r. findReporter ctx s = Some r \<longrightarrow> rep_id r \<noteq> iss_reporter i"
    and "distinct (map iss_id (t_issues s))"
  shows "getIssueForReporter ctx iid s = Inl (NotFound ''Issue not found'')
     \<and> reporterComment e ctx iid body s = Inl (NotFound ''Issue not found'')
     \<and> markSeen e ctx iid s = Inl (NotFound ''Issue not found'')
     \<and> getAttachmentForReporter read ctx iid aid s = Inl (NotFound ''Attachment not found'')
     \<and> iid \<notin> set (map rl_id (listForReporter ctx s))"
proof -
  have none: "own_issue ctx iid s = None" using assms(1,2) by (auto simp: own_issue_def split: option.splits)
  have "iid \<notin> set (map rl_id (listForReporter ctx s))"
  proof
    assume "iid \<in> set (map rl_id (listForReporter ctx s))"
    then obtain r j where r: "findReporter ctx s = Some r" and j: "j \<in> set (t_issues s)" "iss_id j = iid" "iss_reporter j = rep_id r"
      by (cases "findReporter ctx s") (auto simp: listForReporter_def newest_first_def)
    from find_issue_member [OF assms(3) j(1)] j(2) assms(1) have "j = i" by simp
    with r j(3) assms(2) show False by simp
  qed
  with none show ?thesis
    by (simp add: getIssueForReporter_def reporterComment_def markSeen_def getAttachmentForReporter_def)
qed

theorem reporter_isolation_witness:
  "getIssueForReporter demo_handoff ''i1'' demo_db = Inl (NotFound ''Issue not found'')
   \<and> listForReporter demo_handoff (demo_db\<lparr>t_reporters := [\<lparr>rep_id = ''r2'', rep_platform = ''p1'',
        rep_portal_user_id = ''u7'', rep_name = ''Rae'', rep_email = ''rae@x.org'',
        rep_first_seen_at = 0, rep_last_seen_at = 0\<rparr>]\<rparr>) = []"
proof -
  have "find_issue ''i1'' demo_db = Some (sample_issue ''i1'' ''p1'' NEW)"
    "\<forall>r. findReporter demo_handoff demo_db = Some r \<longrightarrow> rep_id r \<noteq> iss_reporter (sample_issue ''i1'' ''p1'' NEW)"
    "distinct (map iss_id (t_issues demo_db))"
    by (simp_all add: find_issue_def findReporter_def demo_defs by_key_Cons)
  from reporter_isolation [OF this] show ?thesis
    by (simp add: listForReporter_def findReporter_def demo_handoff_def demo_defs newest_first_def)
qed

text \<open>What only staff may see: internal notes, the staff side of an issue, the trail, the labels.\<close>

definition without_staff_side :: "db \<Rightarrow> db" where
  "without_staff_side s = s\<lparr>
     t_comments := filter (\<lambda>c. com_visibility c = REPORTER_VISIBLE) (t_comments s),
     t_issues := map (\<lambda>i. i\<lparr>iss_assignee := None, iss_duplicate_of := None, iss_jira_issue_key := None,
        iss_jira_sync_status := NOT_SYNCED, iss_sla_breached_at := None\<rparr>) (t_issues s),
     t_audit := [], t_labels := [], t_issue_labels := [], t_links := [], t_watchers := [], t_roles := []\<rparr>"

text \<open>
  C24: What a reporter reads of an issue does not depend on the staff side: with
  every internal note, assignee, duplicate pointer, Jira key, breach, audit row, label, link
  and watcher taken out of the database the answer is the same, byte for byte.
\<close>

theorem reporter_never_sees_notes:
  "getIssueForReporter ctx iid (without_staff_side s) = getIssueForReporter ctx iid s"
proof -
  let ?f = "\<lambda>i. i\<lparr>iss_assignee := None, iss_duplicate_of := None, iss_jira_issue_key := None,
        iss_jira_sync_status := NOT_SYNCED, iss_sla_breached_at := None\<rparr>"
  have find: "find_issue iid (without_staff_side s) = map_option ?f (find_issue iid s)"
    by (simp add: find_issue_def without_staff_side_def by_key_map)
  have rep: "findReporter ctx (without_staff_side s) = findReporter ctx s"
    by (simp add: findReporter_def without_staff_side_def)
  have com: "visible_comments iid (without_staff_side s) = visible_comments iid s"
    by (simp add: visible_comments_def without_staff_side_def conj_commute cong: conj_cong)
  have own: "own_issue ctx iid (without_staff_side s) = map_option (\<lambda>(r, i). (r, ?f i)) (own_issue ctx iid s)"
    by (auto simp: own_issue_def find rep split: option.splits)
  have rest: "t_csat (without_staff_side s) = t_csat s" "t_attachments (without_staff_side s) = t_attachments s"
    by (simp_all add: without_staff_side_def)
  show ?thesis
    by (cases "own_issue ctx iid s") (auto simp: getIssueForReporter_def own com rest)
qed

end
