(* ===== verification/Csat.thy ===== *)
theory Csat
  imports Reporter
begin

text \<open>
  Ratings of a resolution by its reporter (\<^verbatim>\<open>src/csat/csat.service.ts\<close>): one response per
  issue, overwritten by a second rating, with an internal flag for the team.
\<close>

section \<open>Operations\<close>

record submit_csat_dto =
  sc_up :: bool
  sc_comment :: "string option"

definition find_csat :: "ident \<Rightarrow> db \<Rightarrow> csat_response option" where
  "find_csat iid s = List.find (\<lambda>c. csat_issue c = iid) (t_csat s)"

text \<open>\<^verbatim>\<open>dto.comment?.trim() || null\<close>.\<close>

definition trimmed :: "string option \<Rightarrow> string option" where
  "trimmed x = (case x of None \<Rightarrow> None | Some t \<Rightarrow> truthy (Some (js_trim t)))"

definition negative_note :: "string option \<Rightarrow> string" where
  "negative_note c = ''Reporter rated the resolution negatively''
     @ (case trimmed c of None \<Rightarrow> ''.'' | Some t \<Rightarrow> '': '' @ [CHR 0x22] @ t @ [CHR 0x22])"

text \<open>
  \<^verbatim>\<open>save\<close> of an existing row with changed columns stamps its update time; the row keeps its
  creation time.
\<close>

definition save_response ::
  "env \<Rightarrow> ident \<Rightarrow> ident \<Rightarrow> int \<Rightarrow> string option \<Rightarrow> db \<Rightarrow> db" where
  "save_response e iid rid score comment s =
     (case find_csat iid s of
        Some old \<Rightarrow>
          (let c = old\<lparr>csat_reporter := rid, csat_score := score, csat_comment := comment\<rparr>
           in if c = old then s
              else t_csat_update (replace_row csat_id (c\<lparr>csat_updated_at := now e\<rparr>)) s)
      | None \<Rightarrow>
          draw_id (t_csat_update (\<lambda>cs. cs @
            [\<lparr>csat_id = fresh_id s, csat_issue = iid, csat_reporter = rid, csat_score = score,
              csat_comment = comment, csat_created_at = now e, csat_updated_at = now e\<rparr>]) s))"

definition submit :: "env \<Rightarrow> handoff \<Rightarrow> ident \<Rightarrow> submit_csat_dto \<Rightarrow> db \<Rightarrow> ((int \<times> string option) \<times> db) res" where
  "submit e ctx iid dto s =
     (case own_issue ctx iid s of
        None \<Rightarrow> Inl (NotFound ''Issue not found'')
      | Some (r, i) \<Rightarrow>
          require (iss_status i = RESOLVED \<or> iss_status i = CLOSED)
            (Conflict ''You can rate an issue once it has been resolved.'')
          (require (find_csat iid s \<noteq> None \<or> by_key csat_id (fresh_id s) (t_csat s) = None) db_error
            (let score = (if sc_up dto then 1 else 0);
                 comment = trimmed (sc_comment dto);
                 existing = find_csat iid s;
                 s1 = save_response e iid (rep_id r) score comment s;
                 s2 = (if score = 0 \<and> (case existing of None \<Rightarrow> True | Some c \<Rightarrow> csat_score c \<noteq> 0)
                       then add_comment e iid None ACTOR_SYSTEM None (negative_note (sc_comment dto)) INTERNAL s1
                       else s1)
             in Inr ((score, comment), emit (CsatReceived iid (iss_platform i) score) s2))))"

section \<open>Facts\<close>

definition one_response :: "db \<Rightarrow> bool" where
  "one_response s = (distinct (map csat_id (t_csat s)) \<and> distinct (map csat_issue (t_csat s)))"

lemma find_csatD: "find_csat iid s = Some c \<Longrightarrow> c \<in> set (t_csat s) \<and> csat_issue c = iid"
  by (auto simp: find_csat_def dest: find_SomeD)

lemma find_csat_by_key: "find_csat iid s = by_key csat_issue iid (t_csat s)"
  by (simp add: find_csat_def by_key_def)

lemma replace_row_keeps_other:
  assumes "distinct (map key rs)" and "old \<in> set rs" and "key r = key old" and "other r = other old"
  shows "map other (replace_row key r rs) = map other rs"
proof -
  have "other (if key x = key r then r else x) = other x" if "x \<in> set rs" for x
    using distinct_keys_eq [OF assms(1) that assms(2)] assms(3,4) by auto
  then show ?thesis by (simp add: replace_row_def)
qed

text \<open>What saving a response does to the table, in both branches.\<close>

lemma save_response_row:
  assumes one: "one_response s" and fresh: "find_csat iid s \<noteq> None \<or> by_key csat_id (fresh_id s) (t_csat s) = None"
  shows "\<exists>c. find_csat iid (save_response e iid rid sc cm s) = Some c \<and> csat_score c = sc \<and> csat_comment c = cm
           \<and> csat_reporter c = rid"
    and "j \<noteq> iid \<Longrightarrow> find_csat j (save_response e iid rid sc cm s) = find_csat j s"
    and "one_response (save_response e iid rid sc cm s)"
    and "t_comments (save_response e iid rid sc cm s) = t_comments s"
    and "t_issues (save_response e iid rid sc cm s) = t_issues s"
    and "outbox (save_response e iid rid sc cm s) = outbox s"
proof -
  have d: "distinct (map csat_id (t_csat s))" "distinct (map csat_issue (t_csat s))" using one by (simp_all add: one_response_def)
  show "t_comments (save_response e iid rid sc cm s) = t_comments s"
    "t_issues (save_response e iid rid sc cm s) = t_issues s" "outbox (save_response e iid rid sc cm s) = outbox s"
    by (auto simp: save_response_def Let_def draw_id_def split: option.splits)
  show "\<exists>c. find_csat iid (save_response e iid rid sc cm s) = Some c \<and> csat_score c = sc \<and> csat_comment c = cm
           \<and> csat_reporter c = rid"
    "j \<noteq> iid \<Longrightarrow> find_csat j (save_response e iid rid sc cm s) = find_csat j s"
    "one_response (save_response e iid rid sc cm s)"
  proof (atomize (full), cases "find_csat iid s")
    case None
    let ?c = "\<lparr>csat_id = fresh_id s, csat_issue = iid, csat_reporter = rid, csat_score = sc,
              csat_comment = cm, csat_created_at = now e, csat_updated_at = now e\<rparr>"
    have t: "t_csat (save_response e iid rid sc cm s) = t_csat s @ [?c]"
      using None by (simp add: save_response_def draw_id_def)
    show "(\<exists>c. find_csat iid (save_response e iid rid sc cm s) = Some c \<and> csat_score c = sc \<and> csat_comment c = cm
           \<and> csat_reporter c = rid) \<and> (j \<noteq> iid \<longrightarrow> find_csat j (save_response e iid rid sc cm s) = find_csat j s)
        \<and> one_response (save_response e iid rid sc cm s)"
    proof (intro conjI impI)
      have n: "by_key csat_issue iid (t_csat s) = None" using None by (simp add: find_csat_by_key)
      show "\<exists>c. find_csat iid (save_response e iid rid sc cm s) = Some c \<and> csat_score c = sc \<and> csat_comment c = cm
           \<and> csat_reporter c = rid"
        by (simp add: t find_csat_by_key by_key_append by_key_Cons n)
      show "find_csat j (save_response e iid rid sc cm s) = find_csat j s" if "j \<noteq> iid"
        using that by (simp add: t find_csat_by_key by_key_append by_key_Cons split: option.splits)
      show "one_response (save_response e iid rid sc cm s)"
        using d fresh n None by (auto simp: t one_response_def by_key_None_iff)
    qed
  next
    case (Some old)
    note o = find_csatD [OF Some]
    let ?c0 = "old\<lparr>csat_reporter := rid, csat_score := sc, csat_comment := cm\<rparr>"
    show "(\<exists>c. find_csat iid (save_response e iid rid sc cm s) = Some c \<and> csat_score c = sc \<and> csat_comment c = cm
           \<and> csat_reporter c = rid) \<and> (j \<noteq> iid \<longrightarrow> find_csat j (save_response e iid rid sc cm s) = find_csat j s)
        \<and> one_response (save_response e iid rid sc cm s)"
    proof (cases "?c0 = old")
      case True
      have "save_response e iid rid sc cm s = s" using Some True by (simp add: save_response_def)
      moreover have "csat_reporter old = rid" "csat_score old = sc" "csat_comment old = cm"
        using arg_cong [OF True, of csat_reporter] arg_cong [OF True, of csat_score] arg_cong [OF True, of csat_comment]
        by simp_all
      ultimately show ?thesis using Some one by auto
    next
      case False
      let ?c = "?c0\<lparr>csat_updated_at := now e\<rparr>"
      have t: "t_csat (save_response e iid rid sc cm s) = replace_row csat_id ?c (t_csat s)"
        using Some False by (simp add: save_response_def)
      have keys: "map csat_issue (replace_row csat_id ?c (t_csat s)) = map csat_issue (t_csat s)"
        "map csat_id (replace_row csat_id ?c (t_csat s)) = map csat_id (t_csat s)"
        by (rule replace_row_keeps_other [OF d(1), of old]; use o in simp)+
      have in_t: "?c \<in> set (replace_row csat_id ?c (t_csat s))" using o by (auto simp: replace_row_def)
      have "find_csat iid (save_response e iid rid sc cm s) = Some ?c"
        unfolding find_csat_by_key t using by_key_member [of csat_issue _ ?c] keys(1) d(2) in_t o by simp
      moreover have "find_csat j (save_response e iid rid sc cm s) = find_csat j s" if "j \<noteq> iid"
      proof -
        have "by_key csat_issue j (replace_row csat_id ?c rs) = by_key csat_issue j rs"
          if "\<forall>x \<in> set rs. csat_id x = csat_id ?c \<longrightarrow> csat_issue x = iid" for rs
          using that \<open>j \<noteq> iid\<close> o by (induction rs) (auto simp: replace_row_def by_key_Cons)
        moreover have "\<forall>x \<in> set (t_csat s). csat_id x = csat_id ?c \<longrightarrow> csat_issue x = iid"
          using distinct_keys_eq [OF d(1), of _ old] o by auto
        ultimately show ?thesis by (simp add: find_csat_by_key t)
      qed
      moreover have "one_response (save_response e iid rid sc cm s)"
        using d keys by (simp add: one_response_def t)
      ultimately show ?thesis by auto
    qed
  qed
qed

section \<open>Property\<close>

text \<open>
  A rating is accepted only from the reporter of a resolved or closed issue. It leaves
  exactly one response for the issue, that of the latest rating, touches no other issue's
  response and no issue, and adds one internal system note exactly when the rating turns
  negative, so rating negatively twice does not flag the issue twice.
\<close>

theorem rating_effects:
  assumes "one_response s" and "submit e ctx iid dto s = Inr (v, t)"
  shows "\<exists>r i c flags. own_issue ctx iid s = Some (r, i) \<and> (iss_status i = RESOLVED \<or> iss_status i = CLOSED)
     \<and> find_csat iid t = Some c \<and> csat_reporter c = rep_id r \<and> csat_score c = (if sc_up dto then 1 else 0)
     \<and> csat_comment c = trimmed (sc_comment dto) \<and> one_response t
     \<and> (j = iid \<or> find_csat j t = find_csat j s) \<and> t_issues t = t_issues s
     \<and> t_comments t = t_comments s @ flags
     \<and> map (\<lambda>n. (com_issue n, com_author_type n, com_visibility n)) flags
         = (if \<not> sc_up dto \<and> (case find_csat iid s of None \<Rightarrow> True | Some c \<Rightarrow> csat_score c \<noteq> 0)
            then [(iid, ACTOR_SYSTEM, INTERNAL)] else [])"
proof -
  let ?score = "if sc_up dto then 1 else (0 :: int)"
  let ?flag = "\<not> sc_up dto \<and> (case find_csat iid s of None \<Rightarrow> True | Some c \<Rightarrow> csat_score c \<noteq> 0)"
  from assms(2) obtain r i where o: "own_issue ctx iid s = Some (r, i)" "iss_status i = RESOLVED \<or> iss_status i = CLOSED"
    and f: "find_csat iid s \<noteq> None \<or> by_key csat_id (fresh_id s) (t_csat s) = None"
    and t: "t = emit (CsatReceived iid (iss_platform i) ?score)
       (if ?flag then add_comment e iid None ACTOR_SYSTEM None (negative_note (sc_comment dto)) INTERNAL
            (save_response e iid (rep_id r) ?score (trimmed (sc_comment dto)) s)
        else save_response e iid (rep_id r) ?score (trimmed (sc_comment dto)) s)"
    by (auto simp: submit_def require_Inr_iff Let_def split: option.splits if_splits)
  let ?s1 = "save_response e iid (rep_id r) ?score (trimmed (sc_comment dto)) s"
  note w = save_response_row [OF assms(1) f, where e = e and rid = "rep_id r" and sc = ?score and cm = "trimmed (sc_comment dto)"]
  obtain c where c: "find_csat iid ?s1 = Some c" "csat_score c = ?score" "csat_comment c = trimmed (sc_comment dto)"
    "csat_reporter c = rep_id r"
    using w(1) by blast
  have csat: "t_csat t = t_csat ?s1" "t_issues t = t_issues ?s1" unfolding t by (cases ?flag; simp add: emit_def add_comment_def draw_id_def)+
  have find: "find_csat k t = find_csat k ?s1" for k by (simp add: find_csat_def csat)
  have one: "one_response t" using w(3) by (simp add: one_response_def csat)
  have other: "j = iid \<or> find_csat j t = find_csat j s" by (cases "j = iid") (simp_all add: w(2) find)
  have ft: "find_csat iid t = Some c" using find c(1) by simp
  have issues: "t_issues t = t_issues s" using csat(2) w(5) by simp
  show ?thesis
  proof (cases ?flag)
    case True
    have "\<exists>n. t_comments t = t_comments s @ [n] \<and> com_issue n = iid \<and> com_author_type n = ACTOR_SYSTEM \<and> com_visibility n = INTERNAL"
      unfolding t if_P [OF True] using w(4) by (simp add: add_comment_def draw_id_def)
    then obtain n where "t_comments t = t_comments s @ [n]" "com_issue n = iid" "com_author_type n = ACTOR_SYSTEM" "com_visibility n = INTERNAL"
      by blast
    moreover from this(2-4) have "map (\<lambda>n. (com_issue n, com_author_type n, com_visibility n)) [n]
         = (if ?flag then [(iid, ACTOR_SYSTEM, INTERNAL)] else [])" unfolding if_P [OF True] by simp
    ultimately show ?thesis using o c ft one other issues by blast
  next
    case False
    have "t_comments t = t_comments s @ []" unfolding t if_not_P [OF False] using w(4) by simp
    moreover have "map (\<lambda>n. (com_issue n, com_author_type n, com_visibility n)) []
         = (if ?flag then [(iid, ACTOR_SYSTEM, INTERNAL)] else [])" unfolding if_not_P [OF False] by simp
    ultimately show ?thesis using o c ft one other issues by blast
  qed
qed

definition rated_db :: db where
  "rated_db = demo_db\<lparr>t_issues := [sample_issue ''i1'' ''p1'' RESOLVED],
     t_reporters := [\<lparr>rep_id = ''r1'', rep_platform = ''p1'', rep_portal_user_id = ''u7'', rep_name = ''Rae'',
        rep_email = ''rae@x.org'', rep_first_seen_at = 0, rep_last_seen_at = 0\<rparr>]\<rparr>"

theorem rating_effects_witness:
  "\<exists>t n. submit plain_env demo_handoff ''i1'' \<lparr>sc_up = False, sc_comment = None\<rparr> rated_db = Inr ((0, None), t)
     \<and> t_comments t = [n] \<and> com_visibility n = INTERNAL"
proof -
  have one: "one_response rated_db" by (simp add: one_response_def rated_db_def demo_defs)
  have c: "t_comments rated_db = []" "t_csat rated_db = []" by (simp_all add: rated_db_def demo_defs)
  have "(case submit plain_env demo_handoff ''i1'' \<lparr>sc_up = False, sc_comment = None\<rparr> rated_db of Inr (v, t) \<Rightarrow> v = (0, None) | _ \<Rightarrow> False)"
    by code_simp
  then obtain t where t: "submit plain_env demo_handoff ''i1'' \<lparr>sc_up = False, sc_comment = None\<rparr> rated_db = Inr ((0, None), t)"
    by (auto split: sum.splits prod.splits)
  from rating_effects [OF one t, of "''i1''"] c obtain flags where
    n: "t_comments t = flags" "map (\<lambda>n. (com_issue n, com_author_type n, com_visibility n)) flags = [(''i1'', ACTOR_SYSTEM, INTERNAL)]"
    by (auto simp: find_csat_def)
  then obtain n where "flags = [n]" "com_visibility n = INTERNAL" by (cases flags) auto
  with t n show ?thesis by auto
qed

end
