(* ===== verification/Accounts.thy ===== *)
theory Accounts
  imports Sla
begin

text \<open>
  Accounts of staff: who a token stands for (\<^verbatim>\<open>src/auth/auth.service.ts\<close>), password login
  and the tokens it issues (\<^verbatim>\<open>src/auth/local-auth.service.ts\<close>), and the administration of
  platforms, staff and role grants (\<^verbatim>\<open>src/admin/admin.service.ts\<close>). Signing, verifying and
  hashing are parameters. An operation of the administration is split where the code awaits
  between its check and its write, so that two of them can be interleaved.
\<close>

section \<open>Tokens and identity\<close>

definition LOCAL_SUBJECT_PREFIX :: string where
  "LOCAL_SUBJECT_PREFIX = ''local:''"

definition localSubject :: "string \<Rightarrow> string" where
  "localSubject email = LOCAL_SUBJECT_PREFIX @ js_lower email"

record token_claims =
  tc_sub :: string
  tc_name :: "string option"
  tc_email :: "string option"
  tc_tv :: "int option"

text \<open>
  Saving a staff row: the password hash is not selected by ordinary reads, so a save keeps the
  stored one unless the entity was given a new one; subject and email are unique columns.
\<close>

definition staff_clash :: "staff_user \<Rightarrow> db \<Rightarrow> bool" where
  "staff_clash u s = list_ex (\<lambda>v. su_id v \<noteq> su_id u \<and> (su_idp_subject v = su_idp_subject u \<or> su_email v = su_email u)) (t_staff s)"

definition save_staff :: "staff_user \<Rightarrow> string option \<Rightarrow> db \<Rightarrow> db res" where
  "save_staff u hash s =
     require (\<not> staff_clash u s) db_error
       (Inr (t_staff_update (map (\<lambda>v. if su_id v = su_id u
          then u\<lparr>su_password_hash := (case hash of None \<Rightarrow> su_password_hash v | Some h \<Rightarrow> Some h)\<rparr> else v)) s))"

definition insert_staff :: "env \<Rightarrow> string \<Rightarrow> string \<Rightarrow> string \<Rightarrow> string option \<Rightarrow> db \<Rightarrow> (staff_user \<times> db) res" where
  "insert_staff e subject nm email hash s =
     (let u = \<lparr>su_id = fresh_id s, su_idp_subject = subject, su_name = nm, su_email = email,
               su_password_hash = hash, su_status = ACCOUNT_ACTIVE, su_token_version = 1, su_created_at = now e\<rparr>
      in require (\<not> staff_clash u s \<and> find_staff (su_id u) s = None) db_error
           (Inr (u, draw_id (t_staff_update (\<lambda>us. us @ [u]) s))))"

definition find_subject :: "string \<Rightarrow> db \<Rightarrow> staff_user option" where
  "find_subject sub s = by_key su_idp_subject sub (t_staff s)"

definition authenticated :: "staff_user \<Rightarrow> db \<Rightarrow> auth_staff" where
  "authenticated u s = (toAuthenticated u)\<lparr>st_roles := loadRoles (su_id u) s\<rparr>"

text \<open>
  \<^verbatim>\<open>upsertFromClaims\<close>: \<^verbatim>\<open>None\<close> is the answer null (a 401). A unique violation of the
  insert is answered by looking the subject up again; when it was the email that clashed there
  is nothing to find.
\<close>

definition upsertFromClaims :: "env \<Rightarrow> token_claims \<Rightarrow> db \<Rightarrow> (auth_staff option \<times> db) res" where
  "upsertFromClaims e c s =
     (if tc_sub c = '''' then Inr (None, s)
      else case find_subject (tc_sub c) s of
        Some u \<Rightarrow>
          (if su_status u \<noteq> ACCOUNT_ACTIVE \<or> tc_tv c \<noteq> Some (su_token_version u) then Inr (None, s)
           else
             (let nm = (case tc_name c of None \<Rightarrow> su_name u | Some n \<Rightarrow> n);
                  email = (case tc_email c of None \<Rightarrow> su_email u | Some m \<Rightarrow> m);
                  u' = u\<lparr>su_name := nm, su_email := email\<rparr>
              in if su_name u \<noteq> nm \<or> su_email u \<noteq> email
                 then bind_res (save_staff u' None s) (\<lambda>s'. Inr (Some (authenticated u' s'), s'))
                 else Inr (Some (authenticated u s), s)))
      | None \<Rightarrow>
          (if starts_with LOCAL_SUBJECT_PREFIX (tc_sub c) then Inr (None, s)
           else
             (case insert_staff e (tc_sub c) (case tc_name c of None \<Rightarrow> tc_sub c | Some n \<Rightarrow> n)
                     (case tc_email c of None \<Rightarrow> '''' | Some m \<Rightarrow> m) None s of
                Inr (u, s') \<Rightarrow> Inr (Some (authenticated u s'), s')
              | Inl _ \<Rightarrow> Inr (None, s))))"

definition refreshAuthenticated :: "ident \<Rightarrow> db \<Rightarrow> (auth_staff \<times> int) option" where
  "refreshAuthenticated i s =
     (case find_staff i s of
        None \<Rightarrow> None
      | Some u \<Rightarrow> (if su_status u \<noteq> ACCOUNT_ACTIVE then None else Some (authenticated u s, su_token_version u)))"

section \<open>Login and verification\<close>

text \<open>
  The payload of a token as it is signed; \<^verbatim>\<open>sign\<close> and \<^verbatim>\<open>check\<close> stand for the library's
  sign and verify with the secret of the deployment (\<^verbatim>\<open>check\<close> also applies the expiry and
  answers \<^verbatim>\<open>None\<close> where it raises).
\<close>

record jwt_payload =
  jp_sub :: "string option"
  jp_name :: "string option"
  jp_email :: "string option"
  jp_tv :: "int option"
  jp_aud :: "string option"

definition DUMMY_PASSWORD_HASH :: string where
  "DUMMY_PASSWORD_HASH = ''$2b$10$82wMrkjV.nAre/g4lc5ShO17AgB93b/683kSzby9t8SxeyAmEtgaa''"

definition login ::
  "(jwt_payload \<Rightarrow> string) \<Rightarrow> (string \<Rightarrow> string \<Rightarrow> bool) \<Rightarrow> string option \<Rightarrow> string \<Rightarrow> string \<Rightarrow> db \<Rightarrow> string res" where
  "login sign compare jwt_secret email password s =
     (if truthy jwt_secret = None then Inl (Unauthorized ''Password login is not enabled.'')
      else
       (let user = List.find (\<lambda>u. js_lower (su_email u) = js_lower email) (t_staff s);
            stored = (case user of None \<Rightarrow> None | Some u \<Rightarrow> su_password_hash u);
            hash = (case stored of None \<Rightarrow> DUMMY_PASSWORD_HASH | Some h \<Rightarrow> h);
            ok = compare password hash
        in case user of
             None \<Rightarrow> Inl (Unauthorized ''Invalid email or password.'')
           | Some u \<Rightarrow>
             (if truthy stored = None \<or> \<not> ok then Inl (Unauthorized ''Invalid email or password.'')
              else if su_status u \<noteq> ACCOUNT_ACTIVE then Inl (Unauthorized ''This account is disabled.'')
              else Inr (sign \<lparr>jp_sub = Some (su_idp_subject u), jp_name = Some (su_name u), jp_email = Some (su_email u),
                              jp_tv = Some (su_token_version u), jp_aud = None\<rparr>))))"

text \<open>Any exception on the way is caught and answered with null.\<close>

definition verifyToken ::
  "env \<Rightarrow> (string \<Rightarrow> jwt_payload option) \<Rightarrow> string option \<Rightarrow> string \<Rightarrow> db \<Rightarrow> auth_staff option \<times> db" where
  "verifyToken e check jwt_secret token s =
     (if truthy jwt_secret = None then (None, s)
      else case check token of
        None \<Rightarrow> (None, s)
      | Some p \<Rightarrow>
          (if jp_aud p \<noteq> None then (None, s)
           else case truthy (jp_sub p) of
             None \<Rightarrow> (None, s)
           | Some sub \<Rightarrow>
               (case upsertFromClaims e \<lparr>tc_sub = sub, tc_name = jp_name p, tc_email = jp_email p, tc_tv = jp_tv p\<rparr> s of
                  Inl _ \<Rightarrow> (None, s)
                | Inr r \<Rightarrow> r)))"

definition signSseTicket :: "(jwt_payload \<Rightarrow> string) \<Rightarrow> string option \<Rightarrow> string \<Rightarrow> db \<Rightarrow> string option" where
  "signSseTicket sign jwt_secret subject s =
     (if truthy jwt_secret = None then None
      else case find_subject subject s of
        None \<Rightarrow> None
      | Some u \<Rightarrow>
          (if su_status u \<noteq> ACCOUNT_ACTIVE then None
           else Some (sign \<lparr>jp_sub = Some subject, jp_name = None, jp_email = None,
                            jp_tv = Some (su_token_version u), jp_aud = Some ''sse''\<rparr>)))"

text \<open>The library refuses a ticket whose audience is not the required one.\<close>

definition verifySseTicket ::
  "env \<Rightarrow> (string \<Rightarrow> jwt_payload option) \<Rightarrow> string option \<Rightarrow> string \<Rightarrow> db \<Rightarrow> auth_staff option \<times> db" where
  "verifySseTicket e check jwt_secret ticket s =
     (if truthy jwt_secret = None then (None, s)
      else case check ticket of
        None \<Rightarrow> (None, s)
      | Some p \<Rightarrow>
          (if jp_aud p \<noteq> Some ''sse'' then (None, s)
           else
             (case upsertFromClaims e \<lparr>tc_sub = (case jp_sub p of None \<Rightarrow> '''' | Some x \<Rightarrow> x), tc_name = None,
                                       tc_email = None, tc_tv = jp_tv p\<rparr> s of
                Inl _ \<Rightarrow> (None, s)
              | Inr r \<Rightarrow> r)))"

definition bearer_token :: "string option \<Rightarrow> string" where
  "bearer_token header =
     (case header of None \<Rightarrow> '''' | Some h \<Rightarrow> (if starts_with ''Bearer '' h then drop 7 h else ''''))"

definition jwt_guard ::
  "env \<Rightarrow> (string \<Rightarrow> jwt_payload option) \<Rightarrow> string option \<Rightarrow> string option \<Rightarrow> db \<Rightarrow> auth_staff res \<times> db" where
  "jwt_guard e check jwt_secret header s =
     (let token = bearer_token header;
          (staff, s') = (if token \<noteq> '''' then verifyToken e check jwt_secret token s else (None, s))
      in (case staff of None \<Rightarrow> Inl (Unauthorized ''Unauthorized'') | Some st \<Rightarrow> Inr st, s'))"

section \<open>Platforms\<close>

record platform_dto =
  pd_key :: string
  pd_name :: string
  pd_status :: "platform_status option"
  pd_jira_project_key :: "string option"
  pd_jira_enabled :: "bool option"
  pd_handoff_secret :: "string option"

text \<open>An optional column may be absent (\<^verbatim>\<open>None\<close>) or null (\<^verbatim>\<open>Some None\<close>).\<close>

record update_platform_dto =
  up_name_d :: "string option"
  up_status_d :: "platform_status option"
  up_jira_project_key_d :: "string option option"
  up_jira_enabled_d :: "bool option"
  up_sla_policy_d :: "sla_policy option"

record platform_view =
  pv_id :: ident
  pv_key :: string
  pv_name :: string
  pv_status :: platform_status
  pv_jira_project_key :: "string option"
  pv_jira_enabled :: bool
  pv_sla_policy :: "(string \<times> json) list option"
  pv_created_at :: time

definition toPlatform :: "platform \<Rightarrow> platform_view" where
  "toPlatform p = \<lparr>pv_id = plat_id p, pv_key = plat_key p, pv_name = plat_name p, pv_status = plat_status p,
     pv_jira_project_key = plat_jira_project_key p, pv_jira_enabled = plat_jira_enabled p,
     pv_sla_policy = plat_sla_policy p, pv_created_at = plat_created_at p\<rparr>"

definition listPlatforms :: "db \<Rightarrow> platform_view list" where
  "listPlatforms s = map toPlatform (sort_key plat_created_at (t_platforms s))"

definition audit_admin ::
  "env \<Rightarrow> auth_staff \<Rightarrow> string \<Rightarrow> string option \<Rightarrow> string option \<Rightarrow> (string \<times> json) list \<Rightarrow> db \<Rightarrow> db" where
  "audit_admin e admin act old new meta s =
     audit_record e None ACTOR_STAFF (Some (st_id admin)) act None old new (Some (JObj meta)) s"

text \<open>\<^verbatim>\<open>secret\<close> is the fresh random secret of the call.\<close>

definition createPlatform :: "env \<Rightarrow> auth_staff \<Rightarrow> string \<Rightarrow> platform_dto \<Rightarrow> db \<Rightarrow> (platform_view \<times> db) res" where
  "createPlatform e admin secret dto s =
     require (find_platform_by_key (pd_key dto) s = None)
       (Conflict (''Platform key '' @ [CHR 0x22] @ pd_key dto @ [CHR 0x22] @ '' already exists.''))
     (require (find_platform (fresh_id s) s = None) db_error
       (let p = \<lparr>plat_id = fresh_id s, plat_key = pd_key dto, plat_name = pd_name dto,
                 plat_status = (case pd_status dto of None \<Rightarrow> PLATFORM_ACTIVE | Some x \<Rightarrow> x),
                 plat_jira_project_key = pd_jira_project_key dto,
                 plat_jira_enabled = (case pd_jira_enabled dto of None \<Rightarrow> False | Some b \<Rightarrow> b),
                 plat_sla_policy = None,
                 plat_handoff_secret = (case pd_handoff_secret dto of None \<Rightarrow> secret | Some x \<Rightarrow> x),
                 plat_created_at = now e\<rparr>
        in Inr (toPlatform p, audit_admin e admin ''PLATFORM_CREATED'' None (Some (plat_key p))
                 [(''platformId'', JStr (plat_id p))]
                 (draw_id (t_platforms_update (\<lambda>ps. ps @ [p]) s)))))"

definition set_if :: "'v option \<Rightarrow> ('v \<Rightarrow> 'r \<Rightarrow> 'r) \<Rightarrow> 'r \<Rightarrow> 'r" where
  "set_if x f r = (case x of None \<Rightarrow> r | Some v \<Rightarrow> f v r)"

definition updatePlatform :: "env \<Rightarrow> auth_staff \<Rightarrow> ident \<Rightarrow> update_platform_dto \<Rightarrow> db \<Rightarrow> (platform_view \<times> db) res" where
  "updatePlatform e admin pid dto s =
     (case find_platform pid s of
        None \<Rightarrow> Inl (NotFound ''Platform not found'')
      | Some p \<Rightarrow>
          (let p1 = set_if (up_jira_enabled_d dto) (\<lambda>v. plat_jira_enabled_update (\<lambda>_. v))
                     (set_if (up_jira_project_key_d dto) (\<lambda>v. plat_jira_project_key_update (\<lambda>_. v))
                     (set_if (up_status_d dto) (\<lambda>v. plat_status_update (\<lambda>_. v))
                     (set_if (up_name_d dto) (\<lambda>v. plat_name_update (\<lambda>_. v)) p)))
           in bind_res (case up_sla_policy_d dto of
                  None \<Rightarrow> Inr p1
                | Some pol \<Rightarrow> bind_res (validateSlaPolicy pol) (\<lambda>v. Inr (p1\<lparr>plat_sla_policy := v\<rparr>)))
                (\<lambda>p2. Inr (toPlatform p2, audit_admin e admin ''PLATFORM_UPDATED'' None None [(''platformId'', JStr pid)]
                  (t_platforms_update (replace_row plat_id p2) s)))))"

text \<open>
  Removing a platform takes along everything that refers to it; an issue anywhere that was
  reported by one of its reporters makes the database refuse.
\<close>

definition cascade_platform :: "ident \<Rightarrow> db \<Rightarrow> db" where
  "cascade_platform pid s =
     (let reps = map rep_id (filter (\<lambda>r. rep_platform r = pid) (t_reporters s));
          labs = map lab_id (filter (\<lambda>l. lab_platform l = pid) (t_labels s));
          incs = map inc_id (filter (\<lambda>i. inc_platform i = pid) (t_incidents s))
      in s\<lparr>t_platforms := remove_key plat_id pid (t_platforms s),
           t_roles := filter (\<lambda>g. upr_platform g \<noteq> Some pid) (t_roles s),
           t_reporters := filter (\<lambda>r. rep_platform r \<noteq> pid) (t_reporters s),
           t_labels := filter (\<lambda>l. lab_platform l \<noteq> pid) (t_labels s),
           t_issue_labels := filter (\<lambda>x. il_label x \<notin> set labs) (t_issue_labels s),
           t_rules := filter (\<lambda>r. rule_platform r \<noteq> pid) (t_rules s),
           t_views := filter (\<lambda>v. view_reporter v \<notin> set reps) (t_views s),
           t_csat := filter (\<lambda>c. csat_reporter c \<notin> set reps) (t_csat s),
           t_subs := filter (\<lambda>x. sub_reporter x \<notin> set reps) (t_subs s),
           t_tokens := filter (\<lambda>t. tok_platform t \<noteq> pid) (t_tokens s),
           t_hooks := filter (\<lambda>h. hook_platform h \<noteq> Some pid) (t_hooks s),
           t_canned := filter (\<lambda>c. can_platform c \<noteq> pid) (t_canned s),
           t_components := filter (\<lambda>c. comp_platform c \<noteq> pid) (t_components s),
           t_incidents := filter (\<lambda>i. inc_platform i \<noteq> pid) (t_incidents s),
           t_updates := filter (\<lambda>u. upd_incident u \<notin> set incs) (t_updates s)\<rparr>)"

definition deletePlatform :: "env \<Rightarrow> auth_staff \<Rightarrow> ident \<Rightarrow> db \<Rightarrow> db res" where
  "deletePlatform e admin pid s =
     (case find_platform pid s of
        None \<Rightarrow> Inl (NotFound ''Platform not found'')
      | Some p \<Rightarrow>
          (let n = length (filter (\<lambda>i. iss_platform i = pid) (t_issues s))
           in if 0 < n
              then Inl (Conflict ([CHR 0x22] @ plat_key p @ [CHR 0x22] @ '' still has '' @ show_nat n
                     @ '' issue(s) and cannot be deleted. Set its status to DISABLED to retire it while keeping the history.''))
              else require (\<not> list_ex (\<lambda>i. list_ex (\<lambda>r. rep_id r = iss_reporter i \<and> rep_platform r = pid) (t_reporters s)) (t_issues s))
                     db_error
                     (Inr (audit_admin e admin ''PLATFORM_DELETED'' (Some (plat_key p)) None [(''platformId'', JStr pid)]
                        (cascade_platform pid s)))))"

definition rotateSecret :: "env \<Rightarrow> auth_staff \<Rightarrow> string \<Rightarrow> ident \<Rightarrow> db \<Rightarrow> ((ident \<times> string \<times> string) \<times> db) res" where
  "rotateSecret e admin secret pid s =
     (case find_platform pid s of
        None \<Rightarrow> Inl (NotFound ''Platform not found'')
      | Some p \<Rightarrow>
          Inr ((plat_id p, plat_key p, secret),
               audit_admin e admin ''PLATFORM_SECRET_ROTATED'' None None [(''platformId'', JStr pid)]
                 (t_platforms_update (replace_row plat_id (p\<lparr>plat_handoff_secret := secret\<rparr>)) s)))"

section \<open>Staff and roles\<close>

record staff_row_view =
  sr_id :: ident
  sr_name :: string
  sr_email :: string
  sr_status :: account_status
  sr_roles :: "(ident \<times> role \<times> ident option \<times> string option) list"

definition listStaff :: "db \<Rightarrow> staff_row_view list" where
  "listStaff s = map (\<lambda>u.
     \<lparr>sr_id = su_id u, sr_name = su_name u, sr_email = su_email u, sr_status = su_status u,
      sr_roles = map (\<lambda>g. (upr_id g, upr_role g, upr_platform g,
          (case upr_platform g of None \<Rightarrow> None | Some p \<Rightarrow> map_option plat_key (find_platform p s))))
        (filter (\<lambda>g. upr_staff_user g = su_id u) (t_roles s))\<rparr>)
     (sort_key su_created_at (t_staff s))"

definition STAFF_CONFLICT :: http_error where
  "STAFF_CONFLICT = Conflict ''A staff user with that email already exists.''"

definition find_email_or_subject :: "string \<Rightarrow> db \<Rightarrow> staff_user option" where
  "find_email_or_subject email s =
     List.find (\<lambda>v. su_email v = email \<or> su_idp_subject v = localSubject email) (t_staff s)"

definition createStaff :: "env \<Rightarrow> (string \<Rightarrow> string) \<Rightarrow> auth_staff \<Rightarrow> string \<Rightarrow> string \<Rightarrow> string \<Rightarrow> db \<Rightarrow> (staff_user \<times> db) res" where
  "createStaff e hashPassword admin nm email0 password s =
     (let email = js_lower email0
      in require (find_email_or_subject email s = None) STAFF_CONFLICT
           (bind_res (insert_staff e (localSubject email) nm email (Some (hashPassword password)) s)
              (\<lambda>(u, s1). Inr (u, audit_admin e admin ''STAFF_CREATED'' None (Some email) [(''staffUserId'', JStr (su_id u))] s1))))"

text \<open>
  \<^verbatim>\<open>assertNotLastAdmin\<close>: the other people with an ADMIN grant and an active account, as the
  join counts them.
\<close>

definition active_admin_grant :: "user_platform_role \<Rightarrow> db \<Rightarrow> bool" where
  "active_admin_grant g s =
     (upr_role g = ADMIN \<and> (case find_staff (upr_staff_user g) s of None \<Rightarrow> False | Some u \<Rightarrow> su_status u = ACCOUNT_ACTIVE))"

definition assertNotLastAdmin :: "ident \<Rightarrow> string \<Rightarrow> db \<Rightarrow> unit res" where
  "assertNotLastAdmin uid action s =
     require (filter (\<lambda>g. active_admin_grant g s \<and> upr_staff_user g \<noteq> uid) (t_roles s) \<noteq> [])
       (Conflict (''Cannot '' @ action @ '' the last active administrator. Grant ADMIN to another staff member first.''))
       (Inr ())"

record update_staff_dto =
  us_name :: "string option"
  us_email :: "string option"
  us_status :: "account_status option"
  us_fields :: "string list"

definition bump :: "staff_user \<Rightarrow> staff_user" where
  "bump u = u\<lparr>su_token_version := su_token_version u + 1\<rparr>"

text \<open>The checks of \<^verbatim>\<open>updateStaff\<close> and the entity they end with; nothing is written yet.\<close>

definition rekey_staff :: "string option \<Rightarrow> staff_user \<Rightarrow> db \<Rightarrow> staff_user res" where
  "rekey_staff email0 u s =
     (case email0 of
        None \<Rightarrow> Inr u
      | Some m \<Rightarrow>
          (let email = js_lower m
           in if email = su_email u then Inr u
              else require (case find_email_or_subject email s of None \<Rightarrow> True | Some v \<Rightarrow> su_id v = su_id u) STAFF_CONFLICT
                     (Inr (bump (u\<lparr>su_email := email, su_idp_subject := localSubject email\<rparr>)))))"

definition prepareUpdateStaff :: "auth_staff \<Rightarrow> ident \<Rightarrow> update_staff_dto \<Rightarrow> db \<Rightarrow> staff_user res" where
  "prepareUpdateStaff admin uid dto s =
     (case find_staff uid s of
        None \<Rightarrow> Inl (NotFound ''Staff user not found'')
      | Some u \<Rightarrow>
          bind_res
            (if us_status dto = Some ACCOUNT_DISABLED \<and> su_status u \<noteq> ACCOUNT_DISABLED
             then require (su_id u \<noteq> st_id admin) (BadRequest ''You cannot disable your own account.'')
                    (assertNotLastAdmin (su_id u) ''disable'' s)
             else Inr ())
            (\<lambda>_. bind_res (rekey_staff (us_email dto) (set_if (us_name dto) (\<lambda>n. su_name_update (\<lambda>_. n)) u) s)
              (\<lambda>u1. Inr (case us_status dto of
                  None \<Rightarrow> u1
                | Some st \<Rightarrow>
                    (if st = su_status u1 then u1
                     else if st = ACCOUNT_DISABLED then bump (u1\<lparr>su_status := st\<rparr>)
                     else u1\<lparr>su_status := st\<rparr>)))))"

definition commitUpdateStaff :: "env \<Rightarrow> auth_staff \<Rightarrow> ident \<Rightarrow> update_staff_dto \<Rightarrow> staff_user \<Rightarrow> db \<Rightarrow> db res" where
  "commitUpdateStaff e admin uid dto u s =
     bind_res (save_staff u None s)
       (\<lambda>s1. Inr (audit_admin e admin ''STAFF_UPDATED'' None (map_option account_status_name (us_status dto))
          [(''staffUserId'', JStr uid), (''fields'', JArr (map JStr (us_fields dto)))] s1))"

definition updateStaff :: "env \<Rightarrow> auth_staff \<Rightarrow> ident \<Rightarrow> update_staff_dto \<Rightarrow> db \<Rightarrow> db res" where
  "updateStaff e admin uid dto s =
     bind_res (prepareUpdateStaff admin uid dto s) (\<lambda>u. commitUpdateStaff e admin uid dto u s)"

text \<open>What removing a staff row takes along, and the references that fall back to null.\<close>

definition cascade_staff :: "ident \<Rightarrow> db \<Rightarrow> db" where
  "cascade_staff uid s = s\<lparr>
     t_staff := remove_key su_id uid (t_staff s),
     t_roles := filter (\<lambda>g. upr_staff_user g \<noteq> uid) (t_roles s),
     t_watchers := filter (\<lambda>w. wat_staff_user w \<noteq> uid) (t_watchers s),
     t_saved_views := filter (\<lambda>v. sv_staff_user v \<noteq> uid) (t_saved_views s),
     t_issues := map (\<lambda>i. if iss_assignee i = Some uid then i\<lparr>iss_assignee := None\<rparr> else i) (t_issues s),
     t_comments := map (\<lambda>c. if com_author c = Some uid then c\<lparr>com_author := None\<rparr> else c) (t_comments s)\<rparr>"

definition deleteStaff :: "env \<Rightarrow> auth_staff \<Rightarrow> ident \<Rightarrow> db \<Rightarrow> db res" where
  "deleteStaff e admin uid s =
     (case find_staff uid s of
        None \<Rightarrow> Inl (NotFound ''Staff user not found'')
      | Some u \<Rightarrow>
          require (su_id u \<noteq> st_id admin) (BadRequest ''You cannot delete your own account.'')
            (bind_res (assertNotLastAdmin (su_id u) ''delete'' s)
               (\<lambda>_. Inr (audit_admin e admin ''STAFF_DELETED'' (Some (su_email u)) None [(''staffUserId'', JStr uid)]
                  (cascade_staff uid s)))))"

definition setStaffPassword :: "env \<Rightarrow> (string \<Rightarrow> string) \<Rightarrow> auth_staff \<Rightarrow> ident \<Rightarrow> string \<Rightarrow> db \<Rightarrow> db res" where
  "setStaffPassword e hashPassword admin uid password s =
     (case find_staff uid s of
        None \<Rightarrow> Inl (NotFound ''Staff user not found'')
      | Some u \<Rightarrow>
          bind_res (save_staff (bump u) (Some (hashPassword password)) s)
            (\<lambda>s1. Inr (audit_admin e admin ''STAFF_PASSWORD_SET'' None None [(''staffUserId'', JStr uid)] s1)))"

definition opt_str :: "string option \<Rightarrow> json" where
  "opt_str x = (case x of None \<Rightarrow> JNull | Some v \<Rightarrow> JStr v)"

definition assignRole :: "env \<Rightarrow> auth_staff \<Rightarrow> ident \<Rightarrow> role \<Rightarrow> ident option \<Rightarrow> db \<Rightarrow> (user_platform_role \<times> db) res" where
  "assignRole e admin uid r pid s =
     require (\<not> (r = FOCAL_POINT \<and> truthy pid = None)) (BadRequest ''Focal points must be scoped to a platform.'')
    (require (\<not> (r = ADMIN \<and> truthy pid \<noteq> None)) (BadRequest ''Admins are global; do not set a platform.'')
    (case find_staff uid s of
       None \<Rightarrow> Inl (NotFound ''Staff user not found'')
     | Some u \<Rightarrow>
       require (case truthy pid of None \<Rightarrow> True | Some p \<Rightarrow> find_platform p s \<noteq> None) (NotFound ''Platform not found'')
       (require (\<not> list_ex (\<lambda>g. upr_staff_user g = su_id u \<and> upr_role g = r \<and> upr_platform g = truthy pid) (t_roles s))
          (Conflict ''That role assignment already exists.'')
       (require (by_key upr_id (fresh_id s) (t_roles s) = None) db_error
         (let g = \<lparr>upr_id = fresh_id s, upr_staff_user = su_id u, upr_platform = truthy pid, upr_role = r,
                   upr_created_at = now e\<rparr>
          in Inr (g, audit_admin e admin ''ROLE_ASSIGNED'' None (Some (role_name r))
                [(''staffUserId'', JStr (su_id u)), (''platformId'', opt_str pid), (''grantId'', JStr (upr_id g))]
                (draw_id (t_roles_update (\<lambda>gs. gs @ [g]) s))))))))"

definition revokeRole :: "env \<Rightarrow> auth_staff \<Rightarrow> ident \<Rightarrow> db \<Rightarrow> db res" where
  "revokeRole e admin gid s =
     (case by_key upr_id gid (t_roles s) of
        None \<Rightarrow> Inl (NotFound ''Role assignment not found'')
      | Some g \<Rightarrow>
          (let owner = find_staff (upr_staff_user g) s
           in bind_res (if upr_role g = ADMIN \<and> owner \<noteq> None
                        then assertNotLastAdmin (upr_staff_user g) ''revoke ADMIN from'' s else Inr ())
                (\<lambda>_. Inr (audit_admin e admin ''ROLE_REVOKED'' (Some (role_name (upr_role g))) None
                    ((case owner of None \<Rightarrow> [] | Some u \<Rightarrow> [(''staffUserId'', JStr (su_id u))])
                     @ [(''platformId'', opt_str (upr_platform g))])
                    (t_roles_update (remove_key upr_id gid) s)))))"

section \<open>Requests and steps\<close>

datatype account_op =
    CreatePlatform env auth_staff string platform_dto
  | UpdatePlatform env auth_staff ident update_platform_dto
  | DeletePlatform env auth_staff ident
  | RotateSecret env auth_staff string ident
  | CreateStaff env "string \<Rightarrow> string" auth_staff string string string
  | UpdateStaff env auth_staff ident update_staff_dto
  | DeleteStaff env auth_staff ident
  | SetPassword env "string \<Rightarrow> string" auth_staff ident string
  | AssignRole env auth_staff ident role "ident option"
  | RevokeRole env auth_staff ident
  | FirstSight env token_claims

fun run_account_op :: "account_op \<Rightarrow> db \<Rightarrow> db res" where
  "run_account_op (CreatePlatform e a sec d) s = map_sum id snd (createPlatform e a sec d s)"
| "run_account_op (UpdatePlatform e a p d) s = map_sum id snd (updatePlatform e a p d s)"
| "run_account_op (DeletePlatform e a p) s = deletePlatform e a p s"
| "run_account_op (RotateSecret e a sec p) s = map_sum id snd (rotateSecret e a sec p s)"
| "run_account_op (CreateStaff e h a n m pw) s = map_sum id snd (createStaff e h a n m pw s)"
| "run_account_op (UpdateStaff e a i d) s = updateStaff e a i d s"
| "run_account_op (DeleteStaff e a i) s = deleteStaff e a i s"
| "run_account_op (SetPassword e h a i pw) s = setStaffPassword e h a i pw s"
| "run_account_op (AssignRole e a i r p) s = map_sum id snd (assignRole e a i r p s)"
| "run_account_op (RevokeRole e a g) s = revokeRole e a g s"
| "run_account_op (FirstSight e c) s = map_sum id snd (upsertFromClaims e c s)"

definition account_request :: "account_op \<Rightarrow> db \<Rightarrow> db" where
  "account_request r s = (case run_account_op r s of Inl _ \<Rightarrow> s | Inr t \<Rightarrow> t)"

inductive account_step :: "db \<Rightarrow> db \<Rightarrow> bool" where
  request: "run_account_op r s = Inr t \<Longrightarrow> account_step s t"

inductive_cases account_stepE: "account_step s t"

section \<open>What the writes do\<close>

lemma audit_admin_simps [simp]:
  "t_staff (audit_admin e a act old new m s) = t_staff s" "t_roles (audit_admin e a act old new m s) = t_roles s"
  "find_staff k (audit_admin e a act old new m s) = find_staff k s"
  by (simp_all add: audit_admin_def find_staff_def)

lemma draw_id_frame [simp]:
  "t_staff (draw_id s) = t_staff s" "t_roles (draw_id s) = t_roles s" "find_staff k (draw_id s) = find_staff k s"
  by (simp_all add: draw_id_def find_staff_def)

lemma save_staff_ok:
  assumes "save_staff u hash s = Inr t"
  shows "t_roles t = t_roles s"
    and "\<exists>h. \<forall>k. find_staff k t = map_option (\<lambda>v. if su_id v = su_id u then u\<lparr>su_password_hash := h v\<rparr> else v) (find_staff k s)"
    and "w \<in> set (t_staff t) \<Longrightarrow> w \<in> set (t_staff s) \<and> su_id w \<noteq> su_id u
       \<or> su_idp_subject w = su_idp_subject u \<and> su_token_version w = su_token_version u"
proof -
  from assms have t: "t = t_staff_update (map (\<lambda>v. if su_id v = su_id u
      then u\<lparr>su_password_hash := (case hash of None \<Rightarrow> su_password_hash v | Some h \<Rightarrow> Some h)\<rparr> else v)) s"
    by (simp add: save_staff_def require_Inr_iff)
  show "t_roles t = t_roles s" by (simp add: t)
  show "\<exists>h. \<forall>k. find_staff k t = map_option (\<lambda>v. if su_id v = su_id u then u\<lparr>su_password_hash := h v\<rparr> else v) (find_staff k s)"
    by (intro exI [of _ "\<lambda>v. case hash of None \<Rightarrow> su_password_hash v | Some h \<Rightarrow> Some h"] allI)
      (simp add: t find_staff_def by_key_map)
  show "w \<in> set (t_staff t) \<Longrightarrow> w \<in> set (t_staff s) \<and> su_id w \<noteq> su_id u
       \<or> su_idp_subject w = su_idp_subject u \<and> su_token_version w = su_token_version u"
    by (auto simp: t)
qed

lemma insert_staff_ok:
  assumes "insert_staff e sub nm m h s = Inr (u, t)"
  shows "t_roles t = t_roles s" "t_staff t = t_staff s @ [u]" "su_idp_subject u = sub" "su_status u = ACCOUNT_ACTIVE"
    "su_token_version u = 1" "find_staff k s = Some v \<Longrightarrow> find_staff k t = Some v"
  using assms by (auto simp: insert_staff_def require_Inr_iff Let_def find_staff_def by_key_append)

text \<open>Every write to the staff table is one of four: nothing, one row saved, one added, one removed.\<close>

lemma upsert_cases:
  assumes "upsertFromClaims e c s = Inr (r, t)"
  obtains "t = s" "\<forall>st. r = Some st \<longrightarrow> (\<exists>u. find_subject (tc_sub c) s = Some u \<and> su_status u = ACCOUNT_ACTIVE
        \<and> tc_tv c = Some (su_token_version u) \<and> st = authenticated u s)"
  | u nm m where "find_subject (tc_sub c) s = Some u" "su_status u = ACCOUNT_ACTIVE" "tc_tv c = Some (su_token_version u)"
      "save_staff (u\<lparr>su_name := nm, su_email := m\<rparr>) None s = Inr t"
  | nm m u where "\<not> starts_with LOCAL_SUBJECT_PREFIX (tc_sub c)" "insert_staff e (tc_sub c) nm m None s = Inr (u, t)"
proof (cases "tc_sub c = ''''")
  case True
  with assms that(1) show thesis by (simp add: upsertFromClaims_def)
next
  case False
  note ne = this
  show thesis
  proof (cases "find_subject (tc_sub c) s")
    case None
    show thesis
    proof (cases "starts_with LOCAL_SUBJECT_PREFIX (tc_sub c)")
      case True
      with None ne assms that(1) show thesis by (simp add: upsertFromClaims_def)
    next
      case False
      with None ne assms that(1) that(3) [OF False] show thesis
        by (auto simp: upsertFromClaims_def split: sum.splits)
    qed
  next
    case (Some u)
    show thesis
    proof (cases "su_status u \<noteq> ACCOUNT_ACTIVE \<or> tc_tv c \<noteq> Some (su_token_version u)")
      case True
      with Some ne assms that(1) show thesis by (simp add: upsertFromClaims_def)
    next
      case False
      let ?nm = "case tc_name c of None \<Rightarrow> su_name u | Some n \<Rightarrow> n"
      let ?m = "case tc_email c of None \<Rightarrow> su_email u | Some m \<Rightarrow> m"
      show thesis
      proof (cases "su_name u \<noteq> ?nm \<or> su_email u \<noteq> ?m")
        case True
        with Some ne False assms have "save_staff (u\<lparr>su_name := ?nm, su_email := ?m\<rparr>) None s = Inr t"
          by (auto simp: upsertFromClaims_def Let_def bind_res_Inr_iff)
        with Some False that(2) show thesis by blast
      next
        case same: False
        with Some ne False assms that(1) show thesis by (auto simp: upsertFromClaims_def)
      qed
    qed
  qed
qed

lemma rekey_ok:
  assumes "rekey_staff m u s = Inr u'"
  shows "su_id u' = su_id u" "su_status u' = su_status u" "su_token_version u \<le> su_token_version u'"
    "su_idp_subject u' = su_idp_subject u \<and> u' = u \<or>
       (\<exists>x. m = Some x \<and> su_idp_subject u' = localSubject (js_lower x) \<and> su_token_version u' = su_token_version u + 1
         \<and> js_lower x \<noteq> su_email u)"
    "m = Some x \<Longrightarrow> js_lower x \<noteq> su_email u \<Longrightarrow> su_token_version u' = su_token_version u + 1"
  using assms by (auto simp: rekey_staff_def require_Inr_iff Let_def bump_def split: option.splits if_splits)

lemma set_if_name: "su_id (set_if x (\<lambda>n. su_name_update (\<lambda>_. n)) u) = su_id u"
  "su_status (set_if x (\<lambda>n. su_name_update (\<lambda>_. n)) u) = su_status u"
  "su_email (set_if x (\<lambda>n. su_name_update (\<lambda>_. n)) u) = su_email u"
  "su_idp_subject (set_if x (\<lambda>n. su_name_update (\<lambda>_. n)) u) = su_idp_subject u"
  "su_token_version (set_if x (\<lambda>n. su_name_update (\<lambda>_. n)) u) = su_token_version u"
  by (cases x; simp add: set_if_def)+

lemma prepare_ok:
  assumes "prepareUpdateStaff admin uid dto s = Inr u'"
  obtains u where "find_staff uid s = Some u" "su_id u' = su_id u"
    "su_token_version u \<le> su_token_version u'"
    "su_idp_subject u' = su_idp_subject u \<or> (\<exists>x. us_email dto = Some x \<and> su_idp_subject u' = localSubject (js_lower x))"
    "us_status dto = Some ACCOUNT_DISABLED \<and> su_status u = ACCOUNT_ACTIVE \<Longrightarrow>
       su_token_version u < su_token_version u' \<and> assertNotLastAdmin (su_id u) ''disable'' s = Inr ()"
    "\<forall>x. us_email dto = Some x \<and> js_lower x \<noteq> su_email u \<longrightarrow> su_token_version u < su_token_version u'"
    "su_status u = ACCOUNT_ACTIVE \<and> us_status dto \<noteq> Some ACCOUNT_DISABLED \<Longrightarrow> su_status u' = ACCOUNT_ACTIVE"
proof -
  from assms obtain u u1 where u: "find_staff uid s = Some u"
    and r: "rekey_staff (us_email dto) (set_if (us_name dto) (\<lambda>n. su_name_update (\<lambda>_. n)) u) s = Inr u1"
    and g: "(if us_status dto = Some ACCOUNT_DISABLED \<and> su_status u \<noteq> ACCOUNT_DISABLED
             then require (su_id u \<noteq> st_id admin) (BadRequest ''You cannot disable your own account.'')
                    (assertNotLastAdmin (su_id u) ''disable'' s) else Inr ()) = Inr ()"
    and u': "u' = (case us_status dto of None \<Rightarrow> u1 | Some st \<Rightarrow>
        (if st = su_status u1 then u1 else if st = ACCOUNT_DISABLED then bump (u1\<lparr>su_status := st\<rparr>) else u1\<lparr>su_status := st\<rparr>))"
    by (auto simp: prepareUpdateStaff_def bind_res_Inr_iff split: option.splits)
  note k = rekey_ok [OF r, unfolded set_if_name]
  have v: "su_token_version u1 \<le> su_token_version u'" "su_id u' = su_id u1" "su_idp_subject u' = su_idp_subject u1"
    by (auto simp: u' bump_def split: option.splits)
  show thesis
  proof (rule that [OF u])
    show "su_id u' = su_id u" using k(1) v by simp
    show "su_token_version u \<le> su_token_version u'" using k(3) v by simp
    show "su_idp_subject u' = su_idp_subject u \<or> (\<exists>x. us_email dto = Some x \<and> su_idp_subject u' = localSubject (js_lower x))"
      using k(4) v(3) by auto
    show "su_token_version u < su_token_version u' \<and> assertNotLastAdmin (su_id u) ''disable'' s = Inr ()"
      if "us_status dto = Some ACCOUNT_DISABLED \<and> su_status u = ACCOUNT_ACTIVE"
      using that k(2,3) g by (auto simp: u' bump_def require_Inr_iff)
    show "\<forall>x. us_email dto = Some x \<and> js_lower x \<noteq> su_email u \<longrightarrow> su_token_version u < su_token_version u'"
      using k(5) v(1) by fastforce
    show "su_status u' = ACCOUNT_ACTIVE" if "su_status u = ACCOUNT_ACTIVE \<and> us_status dto \<noteq> Some ACCOUNT_DISABLED"
      using that k(2) by (auto simp: u' split: option.splits) (metis account_status.exhaust)
  qed
qed

section \<open>Someone can administer\<close>

definition admin_inv :: "db \<Rightarrow> bool" where
  "admin_inv s =
     (distinct (map upr_id (t_roles s))
    \<and> list_all (\<lambda>g. upr_role g = ADMIN \<longrightarrow> upr_platform g = None) (t_roles s)
    \<and> list_ex (\<lambda>g. active_admin_grant g s) (t_roles s))"

text \<open>A witness that survives: a grant that is kept, of a person whose account stays active.\<close>

lemma admin_inv_survives:
  assumes inv: "admin_inv s" and t: "t_roles t = filter P (t_roles s)"
    and g: "g \<in> set (t_roles s)" "P g" "active_admin_grant g s"
    and keep: "\<And>v. find_staff (upr_staff_user g) s = Some v \<Longrightarrow> su_status v = ACCOUNT_ACTIVE
      \<Longrightarrow> \<exists>w. find_staff (upr_staff_user g) t = Some w \<and> su_status w = ACCOUNT_ACTIVE"
  shows "admin_inv t"
proof -
  from g(3) obtain v where "find_staff (upr_staff_user g) s = Some v" "su_status v = ACCOUNT_ACTIVE" "upr_role g = ADMIN"
    by (auto simp: active_admin_grant_def split: option.splits)
  with keep have "active_admin_grant g t" by (auto simp: active_admin_grant_def)
  then show ?thesis using inv g(1,2) by (auto simp: admin_inv_def t list_ex_iff list_all_iff distinct_map_filter)
qed

lemma admin_inv_same_roles:
  assumes inv: "admin_inv s" and t: "t_roles t = t_roles s"
    and keep: "\<And>k v. find_staff k s = Some v \<Longrightarrow> su_status v = ACCOUNT_ACTIVE
      \<Longrightarrow> \<exists>w. find_staff k t = Some w \<and> su_status w = ACCOUNT_ACTIVE"
  shows "admin_inv t"
proof -
  from inv obtain g where "g \<in> set (t_roles s)" "active_admin_grant g s" by (auto simp: admin_inv_def list_ex_iff)
  then show ?thesis using admin_inv_survives [OF inv, of t "\<lambda>_. True" g] t keep by simp
qed

lemma assert_not_last:
  "assertNotLastAdmin uid a s = Inr () \<longleftrightarrow> (\<exists>g \<in> set (t_roles s). active_admin_grant g s \<and> upr_staff_user g \<noteq> uid)"
  by (auto simp: assertNotLastAdmin_def require_def filter_empty_conv)

lemma admin_inv_save:
  assumes inv: "admin_inv s" and sv: "save_staff u h s = Inr t"
    and ok: "su_status u = ACCOUNT_ACTIVE \<or> assertNotLastAdmin (su_id u) a s = Inr ()
      \<or> (\<forall>v. find_staff (su_id u) s = Some v \<longrightarrow> su_status v \<noteq> ACCOUNT_ACTIVE)"
  shows "admin_inv t"
proof -
  note r = save_staff_ok(1) [OF sv]
  from save_staff_ok(2) [OF sv] obtain hh where
    f: "find_staff k t = map_option (\<lambda>v. if su_id v = su_id u then u\<lparr>su_password_hash := hh v\<rparr> else v) (find_staff k s)" for k
    by blast
  have id: "find_staff k s = Some v \<Longrightarrow> su_id v = k" for k v by (auto simp: find_staff_def dest: by_key_SomeD)
  consider "su_status u = ACCOUNT_ACTIVE" | "\<forall>v. find_staff (su_id u) s = Some v \<longrightarrow> su_status v \<noteq> ACCOUNT_ACTIVE"
    | g where "g \<in> set (t_roles s)" "active_admin_grant g s" "upr_staff_user g \<noteq> su_id u"
    using ok assert_not_last by blast
  then show ?thesis
  proof cases
    case 1
    show ?thesis by (rule admin_inv_same_roles [OF inv r]) (use f 1 in auto)
  next
    case 2
    show ?thesis by (rule admin_inv_same_roles [OF inv r]) (use f 2 id in fastforce)
  next
    case (3 g)
    show ?thesis
      by (rule admin_inv_survives [OF inv, of t "\<lambda>_. True" g]) (use r f 3 id in auto)
  qed
qed

lemma admin_inv_insert:
  "admin_inv s \<Longrightarrow> insert_staff e sub nm m h s = Inr (u, t) \<Longrightarrow> admin_inv t"
  by (rule admin_inv_same_roles [of s], assumption, erule insert_staff_ok(1), blast dest: insert_staff_ok(6))

lemma admin_inv_audit [simp]: "admin_inv (audit_admin e a act old new m s) = admin_inv s"
  by (simp add: admin_inv_def active_admin_grant_def)

lemma admin_inv_platforms: "admin_inv (t_platforms_update f s) = admin_inv s"
  by (simp add: admin_inv_def active_admin_grant_def find_staff_def)

lemma admin_inv_draw [simp]: "admin_inv (draw_id s) = admin_inv s"
  by (simp add: admin_inv_def active_admin_grant_def)

lemma admin_inv_delete_platform:
  assumes inv: "admin_inv s" shows "admin_inv (cascade_platform p s)"
proof -
  from inv obtain g where g: "g \<in> set (t_roles s)" "active_admin_grant g s" by (auto simp: admin_inv_def list_ex_iff)
  then have "upr_platform g \<noteq> Some p" using inv by (auto simp: admin_inv_def active_admin_grant_def list_all_iff)
  with g show ?thesis
    by (intro admin_inv_survives [OF inv, of _ "\<lambda>g. upr_platform g \<noteq> Some p" g])
      (simp_all add: cascade_platform_def Let_def find_staff_def)
qed

lemma admin_inv_delete_staff:
  assumes inv: "admin_inv s" and "assertNotLastAdmin i a s = Inr ()" shows "admin_inv (cascade_staff i s)"
proof -
  from assms(2) obtain g where g: "g \<in> set (t_roles s)" "active_admin_grant g s" "upr_staff_user g \<noteq> i"
    by (auto simp: assert_not_last)
  then show ?thesis
    by (intro admin_inv_survives [OF inv, of _ "\<lambda>g. upr_staff_user g \<noteq> i" g])
      (simp_all add: cascade_staff_def find_staff_def by_key_remove_other)
qed

lemma admin_inv_revoke:
  assumes inv: "admin_inv s" and "revokeRole e a gid s = Inr t" shows "admin_inv t"
proof -
  from assms(2) obtain g where g: "by_key upr_id gid (t_roles s) = Some g"
    and ok: "upr_role g = ADMIN \<and> find_staff (upr_staff_user g) s \<noteq> None
       \<Longrightarrow> assertNotLastAdmin (upr_staff_user g) ''revoke ADMIN from'' s = Inr ()"
    and t: "t_roles t = remove_key upr_id gid (t_roles s)" "t_staff t = t_staff s"
    by (auto simp: revokeRole_def bind_res_Inr_iff Let_def split: option.splits if_splits)
  from g have gs: "g \<in> set (t_roles s)" "upr_id g = gid" by (auto dest: by_key_SomeD)
  have d: "distinct (map upr_id (t_roles s))" using inv by (simp add: admin_inv_def)
  obtain h where h: "h \<in> set (t_roles s)" "active_admin_grant h s" "h \<noteq> g"
  proof (cases "active_admin_grant g s")
    case True
    then have "assertNotLastAdmin (upr_staff_user g) ''revoke ADMIN from'' s = Inr ()"
      by (intro ok) (auto simp: active_admin_grant_def split: option.splits)
    with that show thesis by (auto simp: assert_not_last)
  next
    case False
    with inv that show thesis by (auto simp: admin_inv_def list_ex_iff)
  qed
  have "upr_id h \<noteq> gid" using distinct_keys_eq [OF d h(1) gs(1)] h(3) gs(2) by auto
  with h show ?thesis
    by (intro admin_inv_survives [OF inv, of t "\<lambda>g. upr_id g \<noteq> gid" h])
      (simp_all add: t remove_key_def find_staff_def)
qed

lemma admin_inv_assign:
  assumes inv: "admin_inv s" and "assignRole e a i r p s = Inr (g, t)" shows "admin_inv t"
proof -
  from assms(2) have t: "t_roles t = t_roles s @ [g]" "t_staff t = t_staff s"
    "by_key upr_id (upr_id g) (t_roles s) = None" "upr_role g = ADMIN \<longrightarrow> upr_platform g = None"
    by (auto simp: assignRole_def require_Inr_iff Let_def split: option.splits)
  have "active_admin_grant x t = active_admin_grant x s" for x by (simp add: active_admin_grant_def find_staff_def t)
  with inv t show ?thesis by (auto simp: admin_inv_def by_key_None_iff)
qed

lemma admin_inv_update:
  assumes inv: "admin_inv s" and p: "prepareUpdateStaff a i d s = Inr u'" and c: "commitUpdateStaff e a i d u' s = Inr t"
  shows "admin_inv t"
proof -
  from c obtain s1 where sv: "save_staff u' None s = Inr s1" and t: "admin_inv t = admin_inv s1"
    by (auto simp: commitUpdateStaff_def bind_res_Inr_iff)
  from p show ?thesis unfolding t
  proof (rule prepare_ok)
    fix u assume u: "find_staff i s = Some u" "su_id u' = su_id u"
      and dis: "us_status d = Some ACCOUNT_DISABLED \<and> su_status u = ACCOUNT_ACTIVE \<Longrightarrow>
         su_token_version u < su_token_version u' \<and> assertNotLastAdmin (su_id u) ''disable'' s = Inr ()"
      and act: "su_status u = ACCOUNT_ACTIVE \<and> us_status d \<noteq> Some ACCOUNT_DISABLED \<Longrightarrow> su_status u' = ACCOUNT_ACTIVE"
    have "su_id u = i" using u(1) by (auto simp: find_staff_def dest: by_key_SomeD)
    then show "admin_inv s1"
      using u dis act by (intro admin_inv_save [OF inv sv, of "''disable''"]) auto
  qed
qed

lemma admin_inv_request: "admin_inv s \<Longrightarrow> run_account_op r s = Inr t \<Longrightarrow> admin_inv t"
proof (cases r)
  case (CreatePlatform e a sec d)
  assume "admin_inv s" "run_account_op r s = Inr t"
  with CreatePlatform show ?thesis
    by (auto simp: map_sum_Inr_iff createPlatform_def require_Inr_iff Let_def admin_inv_platforms)
next
  case (UpdatePlatform e a p d)
  assume "admin_inv s" "run_account_op r s = Inr t"
  with UpdatePlatform show ?thesis
    by (auto simp: map_sum_Inr_iff updatePlatform_def bind_res_Inr_iff Let_def admin_inv_platforms split: option.splits)
next
  case (DeletePlatform e a p)
  assume "admin_inv s" "run_account_op r s = Inr t"
  with DeletePlatform admin_inv_delete_platform [of s p] show ?thesis
    by (auto simp: deletePlatform_def require_Inr_iff Let_def split: option.splits if_splits)
next
  case (RotateSecret e a sec p)
  assume "admin_inv s" "run_account_op r s = Inr t"
  with RotateSecret show ?thesis
    by (auto simp: map_sum_Inr_iff rotateSecret_def admin_inv_platforms split: option.splits)
next
  case (CreateStaff e h a n m pw)
  assume "admin_inv s" "run_account_op r s = Inr t"
  with CreateStaff show ?thesis
    by (auto simp: map_sum_Inr_iff createStaff_def require_Inr_iff bind_res_Inr_iff Let_def dest: admin_inv_insert)
next
  case (UpdateStaff e a i d)
  assume "admin_inv s" "run_account_op r s = Inr t"
  with UpdateStaff show ?thesis by (auto simp: updateStaff_def bind_res_Inr_iff intro: admin_inv_update)
next
  case (DeleteStaff e a i)
  assume "admin_inv s" "run_account_op r s = Inr t"
  with DeleteStaff show ?thesis
    by (auto simp: deleteStaff_def require_Inr_iff bind_res_Inr_iff find_staff_def split: option.splits
        dest!: by_key_SomeD intro: admin_inv_delete_staff)
next
  case (SetPassword e h a i pw)
  assume inv: "admin_inv s" and "run_account_op r s = Inr t"
  with SetPassword obtain u s1 where u: "find_staff i s = Some u" "save_staff (bump u) (Some (h pw)) s = Inr s1" "admin_inv t = admin_inv s1"
    by (auto simp: setStaffPassword_def bind_res_Inr_iff split: option.splits)
  have "su_id u = i" using u(1) by (auto simp: find_staff_def dest: by_key_SomeD)
  then show ?thesis unfolding u(3) using u(1)
    by (intro admin_inv_save [OF inv u(2)]) (cases "su_status u", auto simp: bump_def)
next
  case (AssignRole e a i ro p)
  assume "admin_inv s" "run_account_op r s = Inr t"
  with AssignRole show ?thesis by (auto simp: map_sum_Inr_iff intro: admin_inv_assign)
next
  case (RevokeRole e a g)
  assume "admin_inv s" "run_account_op r s = Inr t"
  with RevokeRole show ?thesis by (auto intro: admin_inv_revoke)
next
  case (FirstSight e c)
  assume inv: "admin_inv s" and "run_account_op r s = Inr t"
  with FirstSight obtain x where "upsertFromClaims e c s = Inr (x, t)" by (auto simp: map_sum_Inr_iff)
  then show ?thesis
  proof (cases rule: upsert_cases)
    case 1
    with inv show ?thesis by simp
  next
    case (2 u nm m)
    show ?thesis by (rule admin_inv_save [OF inv 2(4)]) (use 2(2) in simp)
  next
    case (3 nm m u)
    then show ?thesis using inv by (blast intro: admin_inv_insert)
  qed
qed

interpretation admins: transition_system account_step admin_inv
  by unfold_locales (auto elim: account_stepE intro: admin_inv_request)

text \<open>
  C25: From a database with a reachable administrator, whatever sequence of
  requests to the administration and of first logins is made, by whomever and in whatever
  order, there is a person with an ADMIN grant and an active account at every moment.
\<close>

theorem always_an_administrator:
  assumes "admin_inv s" and "account_step\<^sup>*\<^sup>* s t"
  shows "\<exists>g \<in> set (t_roles t). upr_role g = ADMIN \<and> upr_platform g = None
     \<and> (\<exists>u. find_staff (upr_staff_user g) t = Some u \<and> su_status u = ACCOUNT_ACTIVE)"
proof -
  have "admin_inv t" using admins.reach_inv assms by blast
  then show ?thesis
    by (auto simp: admin_inv_def list_ex_iff list_all_iff active_admin_grant_def split: option.splits)
qed

definition admin_staff :: "ident \<Rightarrow> auth_staff" where
  "admin_staff i = \<lparr>st_id = i, st_idp_subject = ''local:'' @ i, st_name = i, st_email = i,
     st_roles = [\<lparr>gr_role = ADMIN, gr_platform = None\<rparr>]\<rparr>"

definition two_admins :: db where
  "two_admins = empty_db\<lparr>
     t_staff := [sample_staff ''ann'' ''ann'', sample_staff ''bob'' ''bob''],
     t_roles := [sample_grant ''g1'' ''ann'' None ADMIN, sample_grant ''g2'' ''bob'' None ADMIN]\<rparr>"

theorem always_an_administrator_witness:
  "\<exists>t. deleteStaff plain_env (admin_staff ''ann'') ''bob'' two_admins = Inr t
     \<and> (\<exists>g \<in> set (t_roles t). upr_role g = ADMIN)"
proof -
  have inv: "admin_inv two_admins"
    by (simp add: admin_inv_def two_admins_def sample_defs active_admin_grant_def find_staff_def by_key_Cons)
  have "is_ok (deleteStaff plain_env (admin_staff ''ann'') ''bob'' two_admins)" by code_simp
  then obtain t where t: "deleteStaff plain_env (admin_staff ''ann'') ''bob'' two_admins = Inr t"
    by (auto simp: is_ok_iff)
  then have "run_account_op (DeleteStaff plain_env (admin_staff ''ann'') ''bob'') two_admins = Inr t" by simp
  then have "account_step\<^sup>*\<^sup>* two_admins t" by (blast intro: account_step.request r_into_rtranclp)
  from always_an_administrator [OF inv this] t show ?thesis by blast
qed

text \<open>
  The check and the write of \<^verbatim>\<open>updateStaff\<close> are separate awaits:
  when two administrators disable each other at the same time, both checks pass before either
  write, and nobody is left who can administer.
\<close>

theorem admins_can_lock_each_other_out:
  "\<exists>ua ub s1 s2. prepareUpdateStaff (admin_staff ''ann'') ''bob'' \<lparr>us_name = None, us_email = None,
          us_status = Some ACCOUNT_DISABLED, us_fields = [''status'']\<rparr> two_admins = Inr ub
     \<and> prepareUpdateStaff (admin_staff ''bob'') ''ann'' \<lparr>us_name = None, us_email = None,
          us_status = Some ACCOUNT_DISABLED, us_fields = [''status'']\<rparr> two_admins = Inr ua
     \<and> commitUpdateStaff plain_env (admin_staff ''ann'') ''bob'' \<lparr>us_name = None, us_email = None,
          us_status = Some ACCOUNT_DISABLED, us_fields = [''status'']\<rparr> ub two_admins = Inr s1
     \<and> commitUpdateStaff plain_env (admin_staff ''bob'') ''ann'' \<lparr>us_name = None, us_email = None,
          us_status = Some ACCOUNT_DISABLED, us_fields = [''status'']\<rparr> ua s1 = Inr s2
     \<and> list_all (\<lambda>g. \<not> active_admin_grant g s2) (t_roles s2)"
proof -
  let ?d = "\<lparr>us_name = None, us_email = None, us_status = Some ACCOUNT_DISABLED, us_fields = [''status'']\<rparr>"
  have "(case prepareUpdateStaff (admin_staff ''ann'') ''bob'' ?d two_admins of Inl _ \<Rightarrow> False
     | Inr ub \<Rightarrow> case prepareUpdateStaff (admin_staff ''bob'') ''ann'' ?d two_admins of Inl _ \<Rightarrow> False
     | Inr ua \<Rightarrow> case commitUpdateStaff plain_env (admin_staff ''ann'') ''bob'' ?d ub two_admins of Inl _ \<Rightarrow> False
     | Inr s1 \<Rightarrow> case commitUpdateStaff plain_env (admin_staff ''bob'') ''ann'' ?d ua s1 of Inl _ \<Rightarrow> False
     | Inr s2 \<Rightarrow> list_all (\<lambda>g. \<not> active_admin_grant g s2) (t_roles s2))"
    by code_simp
  then show ?thesis by (auto split: sum.splits)
qed

section \<open>Sessions end\<close>

text \<open>The rows a subject names after a request: each stems from one it named before, never with a lower version.\<close>

fun provisions :: "string \<Rightarrow> account_op \<Rightarrow> bool" where
  "provisions sub (CreateStaff _ _ _ _ m _) = (localSubject (js_lower m) = sub)"
| "provisions sub (UpdateStaff _ _ _ d) = (case us_email d of None \<Rightarrow> False | Some m \<Rightarrow> localSubject (js_lower m) = sub)"
| "provisions _ _ = False"

definition older_rows :: "string \<Rightarrow> db \<Rightarrow> db \<Rightarrow> bool" where
  "older_rows sub s t = (\<forall>w \<in> set (t_staff t). su_idp_subject w = sub \<longrightarrow>
     (\<exists>v \<in> set (t_staff s). su_idp_subject v = sub \<and> su_token_version v \<le> su_token_version w))"

lemma older_rows_same: "t_staff t = t_staff s \<Longrightarrow> older_rows sub s t"
  by (auto simp: older_rows_def)

lemma older_rows_save:
  assumes "save_staff u h s = Inr t" and "v \<in> set (t_staff s)"
    and "su_idp_subject u = sub \<Longrightarrow> su_idp_subject v = sub \<and> su_token_version v \<le> su_token_version u"
  shows "older_rows sub s t"
  using save_staff_ok(3) [OF assms(1)] assms(2,3) unfolding older_rows_def by fastforce

lemma find_staffD: "find_staff i s = Some u \<Longrightarrow> u \<in> set (t_staff s) \<and> su_id u = i"
  by (auto simp: find_staff_def dest: by_key_SomeD)

lemma find_subjectD: "find_subject i s = Some u \<Longrightarrow> u \<in> set (t_staff s) \<and> su_idp_subject u = i"
  by (auto simp: find_subject_def dest: by_key_SomeD)

lemma older_rows_request:
  assumes loc: "starts_with LOCAL_SUBJECT_PREFIX sub" and run: "run_account_op r s = Inr t" and np: "\<not> provisions sub r"
  shows "older_rows sub s t"
proof (cases r)
  case (UpdateStaff e a i d)
  with run obtain u' s1 where p: "prepareUpdateStaff a i d s = Inr u'" and sv: "save_staff u' None s = Inr s1"
    and t: "t_staff t = t_staff s1"
    by (auto simp: updateStaff_def commitUpdateStaff_def bind_res_Inr_iff)
  have "older_rows sub s s1" using p
  proof (rule prepare_ok)
    fix u assume u: "find_staff i s = Some u" "su_token_version u \<le> su_token_version u'"
      "su_idp_subject u' = su_idp_subject u \<or> (\<exists>x. us_email d = Some x \<and> su_idp_subject u' = localSubject (js_lower x))"
    show ?thesis
      by (rule older_rows_save [OF sv, of u]) (use u np UpdateStaff in \<open>auto dest: find_staffD\<close>)
  qed
  then show ?thesis by (simp add: older_rows_def t)
next
  case (SetPassword e h a i pw)
  with run obtain u s1 where u: "find_staff i s = Some u" and sv: "save_staff (bump u) (Some (h pw)) s = Inr s1"
    and t: "t_staff t = t_staff s1"
    by (auto simp: setStaffPassword_def bind_res_Inr_iff split: option.splits)
  have "older_rows sub s s1"
    by (rule older_rows_save [OF sv, of u]) (use u in \<open>auto simp: bump_def dest: find_staffD\<close>)
  then show ?thesis by (simp add: older_rows_def t)
next
  case (FirstSight e c)
  with run obtain x where "upsertFromClaims e c s = Inr (x, t)" by (auto simp: map_sum_Inr_iff)
  then show ?thesis
  proof (cases rule: upsert_cases)
    case 1
    then show ?thesis by (simp add: older_rows_same)
  next
    case (2 u nm m)
    show ?thesis by (rule older_rows_save [OF 2(4), of u]) (use find_subjectD [OF 2(1)] in auto)
  next
    case (3 nm m u)
    then show ?thesis using loc insert_staff_ok(2,3) [OF 3(2)] by (auto simp: older_rows_def)
  qed
next
  case (CreateStaff e h a n m pw)
  with run obtain u s1 where i: "insert_staff e (localSubject (js_lower m)) n (js_lower m) (Some (h pw)) s = Inr (u, s1)"
    and t: "t_staff t = t_staff s1"
    by (auto simp: map_sum_Inr_iff createStaff_def require_Inr_iff bind_res_Inr_iff Let_def)
  from np CreateStaff insert_staff_ok(2,3) [OF i] show ?thesis by (auto simp: older_rows_def t)
next
  case (DeleteStaff e a i)
  with run show ?thesis
    by (auto simp: deleteStaff_def require_Inr_iff bind_res_Inr_iff cascade_staff_def older_rows_def remove_key_def
        split: option.splits)
qed (use run in \<open>auto intro!: older_rows_same simp: map_sum_Inr_iff createPlatform_def updatePlatform_def deletePlatform_def
      rotateSecret_def assignRole_def revokeRole_def require_Inr_iff bind_res_Inr_iff Let_def cascade_platform_def
      split: option.splits if_splits\<close>)

text \<open>The requests that end the sessions of an account as it stands.\<close>

fun ends_sessions :: "staff_user \<Rightarrow> account_op \<Rightarrow> bool" where
  "ends_sessions u (SetPassword _ _ _ i _) = (i = su_id u)"
| "ends_sessions u (DeleteStaff _ _ i) = (i = su_id u)"
| "ends_sessions u (UpdateStaff _ _ i d) =
     (i = su_id u \<and> (us_status d = Some ACCOUNT_DISABLED \<and> su_status u = ACCOUNT_ACTIVE
        \<or> (case us_email d of None \<Rightarrow> False | Some m \<Rightarrow> js_lower m \<noteq> su_email u)))"
| "ends_sessions _ _ = False"

definition outdated :: "string \<Rightarrow> int \<Rightarrow> db \<Rightarrow> bool" where
  "outdated sub tv s = (\<forall>w \<in> set (t_staff s). su_idp_subject w = sub \<longrightarrow> tv < su_token_version w)"

lemma outdated_older: "outdated sub tv s \<Longrightarrow> older_rows sub s t \<Longrightarrow> outdated sub tv t"
  unfolding outdated_def older_rows_def by fastforce

lemma outdated_requests:
  assumes "starts_with LOCAL_SUBJECT_PREFIX sub" and "outdated sub tv s" and "list_all (\<lambda>r. \<not> provisions sub r) rs"
  shows "outdated sub tv (fold account_request rs s)"
  using assms(2,3)
proof (induction rs arbitrary: s)
  case (Cons r rs)
  have "outdated sub tv (account_request r s)"
    using Cons.prems older_rows_request [OF assms(1)] outdated_older
    by (auto simp: account_request_def split: sum.splits)
  with Cons show ?case by simp
qed simp

lemma outdated_refused:
  assumes "starts_with LOCAL_SUBJECT_PREFIX sub" and "outdated sub tv s"
  shows "upsertFromClaims e \<lparr>tc_sub = sub, tc_name = n, tc_email = m, tc_tv = Some tv\<rparr> s = Inr (None, s)"
proof (cases "find_subject sub s")
  case None
  with assms show ?thesis by (simp add: upsertFromClaims_def)
next
  case (Some u)
  with assms(2) have "su_token_version u \<noteq> tv" by (fastforce simp: outdated_def dest: find_subjectD)
  with Some show ?thesis by (simp add: upsertFromClaims_def)
qed

lemma outdated_after_save:
  assumes sv: "save_staff u' h s = Inr t" and u: "u \<in> set (t_staff s)" "su_id u' = su_id u" "su_token_version u < su_token_version u'"
    and d: "distinct (map su_idp_subject (t_staff s))" and tv: "tv \<le> su_token_version u"
  shows "outdated (su_idp_subject u) tv t"
  unfolding outdated_def
proof (intro ballI impI)
  fix w assume w: "w \<in> set (t_staff t)" "su_idp_subject w = su_idp_subject u"
  from save_staff_ok(3) [OF sv w(1)] show "tv < su_token_version w"
  proof
    assume "w \<in> set (t_staff s) \<and> su_id w \<noteq> su_id u'"
    then have "w = u" using distinct_keys_eq [OF d _ u(1) w(2)] by blast
    with \<open>w \<in> set (t_staff s) \<and> su_id w \<noteq> su_id u'\<close> u(2) show ?thesis by simp
  qed (use u tv in auto)
qed

lemma ends_sessions_outdated:
  assumes u: "find_staff (su_id u) s = Some u" and end_: "ends_sessions u r" and run: "run_account_op r s = Inr t"
    and d: "distinct (map su_idp_subject (t_staff s))" and tv: "tv \<le> su_token_version u"
  shows "outdated (su_idp_subject u) tv t"
proof (cases r)
  case (SetPassword e h a i pw)
  with run end_ u obtain s1 where sv: "save_staff (bump u) (Some (h pw)) s = Inr s1" and t: "t_staff t = t_staff s1"
    by (auto simp: setStaffPassword_def bind_res_Inr_iff)
  have "outdated (su_idp_subject u) tv s1"
    by (rule outdated_after_save [OF sv _ _ _ d tv]) (use u in \<open>auto simp: bump_def dest: find_staffD\<close>)
  then show ?thesis by (simp add: outdated_def t)
next
  case (DeleteStaff e a i)
  with run end_ u have t: "t_staff t = remove_key su_id (su_id u) (t_staff s)"
    by (auto simp: deleteStaff_def require_Inr_iff bind_res_Inr_iff cascade_staff_def)
  then show ?thesis
    using distinct_keys_eq [OF d] find_staffD [OF u] by (fastforce simp: outdated_def remove_key_def)
next
  case (UpdateStaff e a i dto)
  with run end_ obtain u' s1 where p: "prepareUpdateStaff a (su_id u) dto s = Inr u'" and sv: "save_staff u' None s = Inr s1"
    and t: "t_staff t = t_staff s1"
    by (auto simp: updateStaff_def commitUpdateStaff_def bind_res_Inr_iff)
  have "outdated (su_idp_subject u) tv s1" using p
  proof (rule prepare_ok)
    fix v assume v: "find_staff (su_id u) s = Some v" "su_id u' = su_id v"
      "us_status dto = Some ACCOUNT_DISABLED \<and> su_status v = ACCOUNT_ACTIVE \<Longrightarrow>
         su_token_version v < su_token_version u' \<and> assertNotLastAdmin (su_id v) ''disable'' s = Inr ()"
      "\<forall>x. us_email dto = Some x \<and> js_lower x \<noteq> su_email v \<longrightarrow> su_token_version v < su_token_version u'"
    from v(1) u have "v = u" by simp
    with v end_ UpdateStaff have "su_token_version u < su_token_version u'" by (auto split: option.splits)
    with \<open>v = u\<close> v(2) show ?thesis
      by (intro outdated_after_save [OF sv _ _ _ d tv]) (use u in \<open>auto dest: find_staffD\<close>)
  qed
  then show ?thesis by (simp add: outdated_def t)
qed (use end_ in simp_all)

text \<open>
  C26: For an account with a local login (its subject starts with
  \<^verbatim>\<open>local:\<close>, as all accounts the administration creates): resetting its password,
  disabling it, changing its email or deleting it ends every session token issued to it
  before, at once and for good: no later request revives one, unless the same login name is
  provisioned anew. Accounts of an external provider are excluded: they provision themselves.
\<close>

theorem sessions_end_for_good:
  assumes "find_staff (su_id u) s = Some u" and "starts_with LOCAL_SUBJECT_PREFIX (su_idp_subject u)"
    and "distinct (map su_idp_subject (t_staff s))"
    and "ends_sessions u r" and "run_account_op r s = Inr t"
    and "list_all (\<lambda>r. \<not> provisions (su_idp_subject u) r) later"
    and "check token = Some p" and "jp_sub p = Some (su_idp_subject u)" and "jp_tv p = Some tv" and "tv \<le> su_token_version u"
  shows "fst (verifyToken e check jwt_secret token (fold account_request later t)) = None"
proof -
  have "outdated (su_idp_subject u) tv (fold account_request later t)"
    using outdated_requests [OF assms(2) ends_sessions_outdated [OF assms(1,4,5,3,10)] assms(6)] .
  note r = outdated_refused [OF assms(2) this]
  show ?thesis
    by (simp add: verifyToken_def assms(7-9) r truthy_def split: option.splits)
qed

theorem sessions_end_for_good_witness:
  "\<exists>t. setStaffPassword plain_env (\<lambda>p. p) (admin_staff ''ann'') ''bob'' ''secret'' two_admins = Inr t
     \<and> fst (verifyToken plain_env
         (\<lambda>_. Some \<lparr>jp_sub = Some ''local:bob'', jp_name = None, jp_email = None, jp_tv = Some 1, jp_aud = None\<rparr>)
         (Some ''k'') ''t'' (account_request (RevokeRole plain_env (admin_staff ''ann'') ''g2'') t)) = None"
proof -
  let ?r = "SetPassword plain_env (\<lambda>p. p) (admin_staff ''ann'') ''bob'' ''secret''"
  let ?u = "sample_staff ''bob'' ''bob''"
  have "is_ok (run_account_op ?r two_admins)" by code_simp
  then obtain t where t: "run_account_op ?r two_admins = Inr t" by (auto simp: is_ok_iff)
  have u: "find_staff (su_id ?u) two_admins = Some ?u" "starts_with LOCAL_SUBJECT_PREFIX (su_idp_subject ?u)"
    "distinct (map su_idp_subject (t_staff two_admins))" "ends_sessions ?u ?r"
    by (simp_all add: two_admins_def sample_defs find_staff_def by_key_Cons starts_with_def LOCAL_SUBJECT_PREFIX_def)
  show ?thesis
    using sessions_end_for_good [OF u t, of "[RevokeRole plain_env (admin_staff ''ann'') ''g2'']"
       "\<lambda>_. Some \<lparr>jp_sub = Some ''local:bob'', jp_name = None, jp_email = None, jp_tv = Some 1, jp_aud = None\<rparr>" "''t''" _ 1 plain_env "Some ''k''"] t
    by (auto simp: sample_staff_def)
qed

text \<open>
  The restriction to local logins is needed: a token of a deleted account with an external
  subject makes the account again, without any grant.
\<close>

lemma external_subject_provisions_itself:
  "let s = two_admins\<lparr>t_staff := t_staff two_admins @ [(sample_staff ''eve'' ''eve'')\<lparr>su_idp_subject := ''oidc|eve''\<rparr>]\<rparr>;
       t = account_request (DeleteStaff plain_env (admin_staff ''ann'') ''eve'') s;
       (r, t') = verifyToken plain_env (\<lambda>_. Some \<lparr>jp_sub = Some ''oidc|eve'', jp_name = Some ''Eve'', jp_email = Some ''eve'',
                    jp_tv = Some 1, jp_aud = None\<rparr>) (Some ''k'') ''t'' t
   in map su_idp_subject (t_staff t) = [''local:ann'', ''local:bob'']
      \<and> map_option st_roles r = Some [] \<and> map su_idp_subject (t_staff t') = [''local:ann'', ''local:bob'', ''oidc|eve'']"
  by code_simp

text \<open>
  The exception is real: the version of a row starts at 1, so after
  deleting an account and creating one for the same email a token issued to the deleted one
  opens a session of the new one, and writes the deleted person's name over it.
\<close>

theorem recreated_account_revives_tokens:
  "case fold account_request
      [DeleteStaff plain_env (admin_staff ''ann'') ''bob'',
       CreateStaff plain_env (\<lambda>p. p) (admin_staff ''ann'') ''Bea'' ''bob'' ''another secret''] two_admins of
     s \<Rightarrow> map su_name (t_staff s) = [''ann'', ''Bea'']
       \<and> (case verifyToken plain_env
           (\<lambda>_. Some \<lparr>jp_sub = Some ''local:bob'', jp_name = Some ''bob'', jp_email = Some ''bob'', jp_tv = Some 1, jp_aud = None\<rparr>)
           (Some ''k'') ''t'' s of
             (Some st, s') \<Rightarrow> map su_id (t_staff s') = [''ann'', st_id st] \<and> map su_name (t_staff s') = [''ann'', ''bob'']
           | _ \<Rightarrow> False)"
  by code_simp

section \<open>Login and back\<close>

text \<open>
  A successful login checked the password against the stored hash of an
  active account, and its token brings back that account with its current grants and changes
  nothing; it does not open the event stream. A ticket for the stream opens the stream as that
  account and is no session token.
\<close>

theorem tokens_are_single_purpose:
  assumes d: "distinct (map su_idp_subject (t_staff s))" and ne: "list_all (\<lambda>u. su_idp_subject u \<noteq> '''') (t_staff s)"
    and chk: "\<forall>p. sign p = tok \<or> sign p = ticket \<longrightarrow> check (sign p) = Some p"
    and login: "login sign compare jwt_secret email password s = Inr tok"
  shows "\<exists>u h. u \<in> set (t_staff s) \<and> js_lower (su_email u) = js_lower email \<and> su_status u = ACCOUNT_ACTIVE
     \<and> su_password_hash u = Some h \<and> compare password h
     \<and> verifyToken e check jwt_secret tok s = (Some (authenticated u s), s)
     \<and> verifySseTicket e check jwt_secret tok s = (None, s)
     \<and> (signSseTicket sign jwt_secret (su_idp_subject u) s = Some ticket \<longrightarrow>
          verifySseTicket e check jwt_secret ticket s = (Some (authenticated u s), s)
        \<and> verifyToken e check jwt_secret ticket s = (None, s))"
proof -
  from login obtain u h where u: "List.find (\<lambda>u. js_lower (su_email u) = js_lower email) (t_staff s) = Some u"
    and h: "su_password_hash u = Some h" "compare password h" and a: "su_status u = ACCOUNT_ACTIVE" and k: "truthy jwt_secret \<noteq> None"
    and tok: "tok = sign \<lparr>jp_sub = Some (su_idp_subject u), jp_name = Some (su_name u), jp_email = Some (su_email u),
                        jp_tv = Some (su_token_version u), jp_aud = None\<rparr>" (is "_ = sign ?p")
    by (auto simp: login_def Let_def truthy_def split: option.splits if_splits)
  from u have um: "u \<in> set (t_staff s)" "js_lower (su_email u) = js_lower email" by (auto dest: find_SomeD)
  have f: "find_subject (su_idp_subject u) s = Some u"
    unfolding find_subject_def by (rule by_key_member [OF d um(1)])
  have sub: "su_idp_subject u \<noteq> ''''" using ne um(1) by (auto simp: list_all_iff)
  have ct: "check tok = Some ?p" using chk tok by auto
  have up: "upsertFromClaims e \<lparr>tc_sub = su_idp_subject u, tc_name = n, tc_email = m, tc_tv = Some (su_token_version u)\<rparr> s
      = Inr (Some (authenticated u s), s)"
    if "n = None \<or> n = Some (su_name u)" "m = None \<or> m = Some (su_email u)" for n m
    using that f a sub by (auto simp: upsertFromClaims_def)
  have v1: "verifyToken e check jwt_secret tok s = (Some (authenticated u s), s)"
    "verifySseTicket e check jwt_secret tok s = (None, s)"
    using k sub by (auto simp: verifyToken_def verifySseTicket_def ct truthy_def up)
  have v2: "verifySseTicket e check jwt_secret ticket s = (Some (authenticated u s), s)
      \<and> verifyToken e check jwt_secret ticket s = (None, s)"
    if "signSseTicket sign jwt_secret (su_idp_subject u) s = Some ticket"
  proof -
    from that have "ticket = sign \<lparr>jp_sub = Some (su_idp_subject u), jp_name = None, jp_email = None,
        jp_tv = Some (su_token_version u), jp_aud = Some ''sse''\<rparr>" (is "_ = sign ?q")
      using f a by (auto simp: signSseTicket_def split: if_splits)
    with chk have "check ticket = Some ?q" by auto
    with k show ?thesis by (auto simp: verifyToken_def verifySseTicket_def up)
  qed
  show ?thesis using um a h v1 v2 by blast
qed

theorem tokens_are_single_purpose_witness:
  "\<exists>sign check ticket. login sign (\<lambda>p h. h = ''hash'') (Some ''k'') ''BOB'' ''pw'' two_admins = Inr ''t''
     \<and> fst (verifyToken plain_env check (Some ''k'') ''t'' two_admins) \<noteq> None
     \<and> signSseTicket sign (Some ''k'') ''local:bob'' two_admins = Some ticket
     \<and> fst (verifyToken plain_env check (Some ''k'') ticket two_admins) = None"
proof -
  let ?p = "\<lparr>jp_sub = Some ''local:bob'', jp_name = Some ''bob'', jp_email = Some ''bob'', jp_tv = Some 1, jp_aud = None\<rparr>"
  let ?q = "\<lparr>jp_sub = Some ''local:bob'', jp_name = None, jp_email = None, jp_tv = Some 1, jp_aud = Some ''sse''\<rparr>"
  let ?sign = "\<lambda>p. if p = ?p then ''t'' else if p = ?q then ''v'' else ''''"
  let ?check = "\<lambda>t. if t = ''t'' then Some ?p else if t = ''v'' then Some ?q else None"
  have d: "distinct (map su_idp_subject (t_staff two_admins))" "list_all (\<lambda>u. su_idp_subject u \<noteq> '''') (t_staff two_admins)"
    by (simp_all add: two_admins_def sample_defs)
  have l: "login ?sign (\<lambda>p h. h = ''hash'') (Some ''k'') ''BOB'' ''pw'' two_admins = Inr ''t''" by code_simp
  have t: "signSseTicket ?sign (Some ''k'') ''local:bob'' two_admins = Some ''v''" by code_simp
  have c: "\<forall>p. ?sign p = ''t'' \<or> ?sign p = ''v'' \<longrightarrow> ?check (?sign p) = Some p" by simp
  from tokens_are_single_purpose [OF d c l, of plain_env] obtain u where
    u: "u \<in> set (t_staff two_admins)" "js_lower (su_email u) = js_lower ''BOB''"
    "verifyToken plain_env ?check (Some ''k'') ''t'' two_admins = (Some (authenticated u two_admins), two_admins)"
    "signSseTicket ?sign (Some ''k'') (su_idp_subject u) two_admins = Some ''v'' \<longrightarrow>
          verifyToken plain_env ?check (Some ''k'') ''v'' two_admins = (None, two_admins)"
    by auto
  have "js_lower ''BOB'' = ''bob''" "js_lower ''ann'' = ''ann''" by code_simp+
  with u(1,2) have "su_idp_subject u = ''local:bob''"
    by (auto simp: two_admins_def sample_defs)
  with u(3,4) t l show ?thesis
    by (intro exI [of _ ?sign] exI [of _ ?check] exI [of _ "''v''"]) simp
qed

end
