(* ===== verification/Notifications.thy ===== *)
theory Notifications
  imports Merge JsNumber
begin

text \<open>
  What staff are told: the listeners that mail and log (\<^verbatim>\<open>src/notifications/notifications.listener.ts\<close>,
  \<^verbatim>\<open>notifications.service.ts\<close>), the bell, and the weekly digest
  (\<^verbatim>\<open>digest.service.ts\<close>). Whether the mail server takes a message is a parameter
  (\<^verbatim>\<open>mail_ok\<close>); an operation returns the database and the messages handed to the server.
\<close>

record mail_message =
  ml_to :: string
  ml_subject :: string
  ml_text :: string

definition newline :: string where
  "newline = [CHR 0x0A]"

definition appUrl :: "string option \<Rightarrow> string" where
  "appUrl configured = (case configured of None \<Rightarrow> ''http://localhost:5173'' | Some u \<Rightarrow> u)"

definition issue_url :: "string option \<Rightarrow> ident \<Rightarrow> string" where
  "issue_url app iid = appUrl app @ ''/staff/issues/'' @ iid"

section \<open>Recipients\<close>

definition focalPointsFor :: "ident \<Rightarrow> db \<Rightarrow> staff_user list" where
  "focalPointsFor p s =
     filter (\<lambda>u. su_status u = ACCOUNT_ACTIVE)
       (List.map_filter (\<lambda>g. find_staff (upr_staff_user g) s)
         (filter (\<lambda>g. upr_role g = FOCAL_POINT \<and> upr_platform g = Some p) (t_roles s)))"

definition watchersOf :: "ident \<Rightarrow> db \<Rightarrow> staff_user list" where
  "watchersOf iid s =
     List.map_filter (\<lambda>w. find_staff (wat_staff_user w) s) (filter (\<lambda>w. wat_issue w = iid) (t_watchers s))"

definition assignee_of :: "issue \<Rightarrow> db \<Rightarrow> staff_user list" where
  "assignee_of i s = (case iss_assignee i of None \<Rightarrow> [] | Some a \<Rightarrow> (case find_staff a s of None \<Rightarrow> [] | Some u \<Rightarrow> [u]))"

fun activeRecipients_from :: "ident set \<Rightarrow> staff_user list \<Rightarrow> staff_user list" where
  "activeRecipients_from seen [] = []"
| "activeRecipients_from seen (u # us) =
     (if su_email u \<noteq> '''' \<and> su_status u = ACCOUNT_ACTIVE \<and> su_id u \<notin> seen
      then u # activeRecipients_from (insert (su_id u) seen) us
      else activeRecipients_from seen us)"

definition activeRecipients :: "staff_user list \<Rightarrow> staff_user list" where
  "activeRecipients us = activeRecipients_from {} us"

section \<open>Sending\<close>

type_synonym outgoing = "db \<times> mail_message list"

definition dispatch ::
  "env \<Rightarrow> (mail_message \<Rightarrow> bool) \<Rightarrow> ident \<Rightarrow> string \<Rightarrow> string \<Rightarrow> string \<Rightarrow> staff_user \<Rightarrow> outgoing \<Rightarrow> outgoing" where
  "dispatch e mail_ok iid trigger subject text u sm =
     (case sm of (s, mails) \<Rightarrow>
        (let m = \<lparr>ml_to = su_email u, ml_subject = subject, ml_text = text\<rparr>
         in (draw_id (t_notifs_update (\<lambda>ns. ns @
               [\<lparr>ntf_id = fresh_id s, ntf_issue = iid, ntf_recipient_type = RCPT_STAFF, ntf_recipient_ref = su_id u,
                 ntf_trigger = trigger, ntf_channel = CH_EMAIL,
                 ntf_status = (if mail_ok m then NOTIF_SENT else NOTIF_FAILED),
                 ntf_read_at = None, ntf_created_at = now e\<rparr>]) s),
             mails @ [m])))"

definition dispatch_all ::
  "env \<Rightarrow> (mail_message \<Rightarrow> bool) \<Rightarrow> ident \<Rightarrow> string \<Rightarrow> string \<Rightarrow> string \<Rightarrow> staff_user list \<Rightarrow> db \<Rightarrow> outgoing" where
  "dispatch_all e mail_ok iid trigger subject text us s = fold (dispatch e mail_ok iid trigger subject text) us (s, [])"

text \<open>An issue is loaded with its platform; without one there is nobody to tell.\<close>

definition with_issue :: "ident \<Rightarrow> db \<Rightarrow> (issue \<Rightarrow> platform \<Rightarrow> outgoing) \<Rightarrow> outgoing" where
  "with_issue iid s f =
     (case find_issue iid s of
        None \<Rightarrow> (s, [])
      | Some i \<Rightarrow> (case find_platform (iss_platform i) s of None \<Rightarrow> (s, []) | Some p \<Rightarrow> f i p))"

definition bracketed :: "platform \<Rightarrow> string" where
  "bracketed p = ''['' @ plat_key p @ ''] ''"

definition notifyFocalPointsOfNewIssue ::
  "env \<Rightarrow> (mail_message \<Rightarrow> bool) \<Rightarrow> string option \<Rightarrow> ident \<Rightarrow> ident \<Rightarrow> db \<Rightarrow> outgoing" where
  "notifyFocalPointsOfNewIssue e mail_ok app iid pid s =
     with_issue iid s (\<lambda>i p.
       dispatch_all e mail_ok iid ''issue.created''
         (bracketed p @ ''New issue '' @ iss_reference_no i)
         (''A new issue was reported on '' @ plat_name p @ ''.'' @ newline @ newline @ ''Reference: '' @ iss_reference_no i
           @ newline @ ''Priority: '' @ priority_name (iss_priority i) @ newline @ newline
           @ take 500 (iss_description i) @ newline @ newline @ ''Open it: '' @ issue_url app iid)
         (activeRecipients (focalPointsFor pid s)) s)"

definition notifyAssignee ::
  "env \<Rightarrow> (mail_message \<Rightarrow> bool) \<Rightarrow> string option \<Rightarrow> ident \<Rightarrow> ident option \<Rightarrow> db \<Rightarrow> outgoing" where
  "notifyAssignee e mail_ok app iid assignee s =
     (case truthy assignee of
        None \<Rightarrow> (s, [])
      | Some a \<Rightarrow>
          with_issue iid s (\<lambda>i p.
            dispatch_all e mail_ok iid ''issue.assigned''
              (bracketed p @ ''Assigned to you: '' @ iss_reference_no i)
              (''Issue '' @ iss_reference_no i @ '' on '' @ plat_name p @ '' was assigned to you.'' @ newline @ newline
                @ ''Priority: '' @ priority_name (iss_priority i) @ newline @ ''Status: '' @ status_name (iss_status i)
                @ newline @ newline @ ''Open it: '' @ issue_url app iid)
              (take 1 (activeRecipients (case find_staff a s of None \<Rightarrow> [] | Some u \<Rightarrow> [u]))) s))"

definition audience :: "issue \<Rightarrow> db \<Rightarrow> staff_user list" where
  "audience i s = assignee_of i s @ focalPointsFor (iss_platform i) s @ watchersOf (iss_id i) s"

definition notifyStatusChange ::
  "env \<Rightarrow> (mail_message \<Rightarrow> bool) \<Rightarrow> string option \<Rightarrow> ident \<Rightarrow> issue_status \<Rightarrow> issue_status \<Rightarrow> ident \<Rightarrow> db \<Rightarrow> outgoing" where
  "notifyStatusChange e mail_ok app iid from to actor s =
     with_issue iid s (\<lambda>i p.
       dispatch_all e mail_ok iid ''issue.status_changed''
         (bracketed p @ iss_reference_no i @ '' '' @ arrow @ '' '' @ status_name to)
         (''Issue '' @ iss_reference_no i @ '' on '' @ plat_name p @ '' moved from '' @ status_name from @ '' to ''
           @ status_name to @ ''.'' @ newline @ newline @ ''Open it: '' @ issue_url app iid)
         (filter (\<lambda>u. su_id u \<noteq> actor) (activeRecipients (audience i s))) s)"

definition notifySlaBreach ::
  "env \<Rightarrow> (mail_message \<Rightarrow> bool) \<Rightarrow> string option \<Rightarrow> ident \<Rightarrow> db \<Rightarrow> outgoing" where
  "notifySlaBreach e mail_ok app iid s =
     with_issue iid s (\<lambda>i p.
       dispatch_all e mail_ok iid ''issue.sla_breached''
         (bracketed p @ ''SLA BREACHED: '' @ iss_reference_no i)
         (''Issue '' @ iss_reference_no i @ '' on '' @ plat_name p @ '' has exceeded its '' @ priority_name (iss_priority i)
           @ '' SLA window and needs attention.'' @ newline @ newline @ ''Status: '' @ status_name (iss_status i) @ newline
           @ ''Assignee: '' @ (case assignee_of i s of [] \<Rightarrow> ''Unassigned'' | u # _ \<Rightarrow> su_name u) @ newline @ newline
           @ ''Open it: '' @ issue_url app iid)
         (activeRecipients (audience i s)) s)"

definition notifyReporterReply ::
  "env \<Rightarrow> (mail_message \<Rightarrow> bool) \<Rightarrow> string option \<Rightarrow> ident \<Rightarrow> db \<Rightarrow> outgoing" where
  "notifyReporterReply e mail_ok app iid s =
     with_issue iid s (\<lambda>i p.
       dispatch_all e mail_ok iid ''comment.reporter_reply''
         (bracketed p @ ''Reporter replied on '' @ iss_reference_no i)
         (''The reporter added a reply on '' @ iss_reference_no i @ '' ('' @ plat_name p @ '').'' @ newline @ newline
           @ ''Open it: '' @ issue_url app iid)
         (activeRecipients (assignee_of i s @ focalPointsFor (iss_platform i) s)) s)"

text \<open>
  Mentions are logged for the bell and not mailed; the rows are saved together and need the
  issue to exist (a failure is logged by the listener and leaves nothing).
\<close>

definition mention_row :: "env \<Rightarrow> ident \<Rightarrow> staff_user \<Rightarrow> db \<Rightarrow> db" where
  "mention_row e iid u s =
     draw_id (t_notifs_update (\<lambda>ns. ns @
       [\<lparr>ntf_id = fresh_id s, ntf_issue = iid, ntf_recipient_type = RCPT_STAFF, ntf_recipient_ref = su_id u,
         ntf_trigger = ''comment.mention'', ntf_channel = CH_IN_APP, ntf_status = NOTIF_SENT,
         ntf_read_at = None, ntf_created_at = now e\<rparr>]) s)"

definition notifyMentions :: "env \<Rightarrow> ident \<Rightarrow> ident list \<Rightarrow> ident \<Rightarrow> db \<Rightarrow> db" where
  "notifyMentions e iid ids actor s =
     (let targets = filter (\<lambda>i. i \<noteq> '''' \<and> i \<noteq> actor) (js_set ids);
          rows = filter (\<lambda>u. su_id u \<in> set targets \<and> su_status u = ACCOUNT_ACTIVE) (t_staff s)
      in if targets = [] \<or> rows = [] \<or> find_issue iid s = None then s else fold (mention_row e iid) rows s)"

section \<open>The listeners\<close>

text \<open>A reporter's own comment carries no staff actor.\<close>

fun on_event :: "env \<Rightarrow> (mail_message \<Rightarrow> bool) \<Rightarrow> string option \<Rightarrow> domain_event \<Rightarrow> db \<Rightarrow> outgoing" where
  "on_event e mail_ok app (IssueCreated iid p) s = notifyFocalPointsOfNewIssue e mail_ok app iid p s"
| "on_event e mail_ok app (IssueAssigned iid p a _) s = notifyAssignee e mail_ok app iid a s"
| "on_event e mail_ok app (IssueStatusChanged iid p a b actor) s = notifyStatusChange e mail_ok app iid a b actor s"
| "on_event e mail_ok app (IssueSlaBreached iid p) s = notifySlaBreach e mail_ok app iid s"
| "on_event e mail_ok app (CommentAdded iid p c visible actor ids) s =
     (if visible \<and> actor = '''' then notifyReporterReply e mail_ok app iid s
      else (notifyMentions e iid ids actor s, []))"
| "on_event e mail_ok app _ s = (s, [])"

section \<open>The bell\<close>

record bell_item =
  bi_id :: ident
  bi_trigger :: string
  bi_created_at :: time
  bi_read_at :: "time option"
  bi_issue :: "(ident \<times> string \<times> string option) option"

definition mine :: "ident \<Rightarrow> notification_log \<Rightarrow> bool" where
  "mine u n = (ntf_recipient_type n = RCPT_STAFF \<and> ntf_recipient_ref n = u)"

definition bell_view :: "db \<Rightarrow> notification_log \<Rightarrow> bell_item" where
  "bell_view s n =
     \<lparr>bi_id = ntf_id n, bi_trigger = ntf_trigger n, bi_created_at = ntf_created_at n, bi_read_at = ntf_read_at n,
       bi_issue = (case find_issue (ntf_issue n) s of None \<Rightarrow> None
          | Some i \<Rightarrow> Some (iss_id i, iss_reference_no i, map_option plat_key (find_platform (iss_platform i) s)))\<rparr>"

definition listForStaff :: "ident \<Rightarrow> nat \<Rightarrow> db \<Rightarrow> nat \<times> bell_item list" where
  "listForStaff u limit s =
     (length (filter (\<lambda>n. mine u n \<and> ntf_read_at n = None) (t_notifs s)),
      map (bell_view s) (take limit (newest_first ntf_created_at (filter (mine u) (t_notifs s)))))"

definition markAllRead :: "env \<Rightarrow> ident \<Rightarrow> db \<Rightarrow> db" where
  "markAllRead e u s = t_notifs_update
     (map (\<lambda>n. if mine u n \<and> ntf_read_at n = None then n\<lparr>ntf_read_at := Some (now e)\<rparr> else n)) s"

section \<open>The weekly digest\<close>

definition week_ms :: int where
  "week_ms = 7 * 24 * 3600 * 1000"

record digest_stats =
  dg_created :: nat
  dg_resolved :: nat
  dg_open :: nat
  dg_breached :: nat
  dg_ratings :: "int list"

definition digest_stats_of :: "env \<Rightarrow> ident \<Rightarrow> db \<Rightarrow> digest_stats" where
  "digest_stats_of e p s =
     (let mine = filter (\<lambda>i. iss_platform i = p) (t_issues s); since = now e - week_ms
      in \<lparr>dg_created = length (filter (\<lambda>i. since \<le> iss_created_at i) mine),
          dg_resolved = length (filter (\<lambda>i. case iss_resolved_at i of None \<Rightarrow> False | Some t \<Rightarrow> since \<le> t) mine),
          dg_open = length (filter (\<lambda>i. is_open (iss_status i)) mine),
          dg_breached = length (filter (\<lambda>i. is_open (iss_status i) \<and> iss_sla_breached_at i \<noteq> None) mine),
          dg_ratings = map csat_score (filter (\<lambda>c. csat_issue c \<in> iss_id ` set mine \<and> since \<le> csat_created_at c) (t_csat s))\<rparr>)"

text \<open>\<^verbatim>\<open>Math.round(rate * 100)\<close>: half up.\<close>

definition csat_line :: "int list \<Rightarrow> string" where
  "csat_line scores =
     (let n = length scores
      in if 0 < n
         then ''CSAT: '' @ show_nat (nat \<lfloor>rat_of_int (sum_list scores) / rat_of_nat n * 100 + 1 / 2\<rfloor>) @ ''% positive (''
                @ show_nat n @ '' rating'' @ (if n = 1 then '''' else ''s'') @ '')''
         else ''CSAT: no ratings this week'')"

definition digest_recipients :: "ident \<Rightarrow> db \<Rightarrow> staff_user list" where
  "digest_recipients p s =
     (let grants = filter (\<lambda>g. (upr_role g = FOCAL_POINT \<and> upr_platform g = Some p)
                            \<or> (upr_role g = WATCHER \<and> (upr_platform g = Some p \<or> upr_platform g = None))) (t_roles s)
      in activeRecipients (List.map_filter (\<lambda>g. find_staff (upr_staff_user g) s) grants))"

definition digest_mail :: "string option \<Rightarrow> platform \<Rightarrow> digest_stats \<Rightarrow> staff_user \<Rightarrow> mail_message" where
  "digest_mail app p d u =
     \<lparr>ml_to = su_email u,
       ml_subject = bracketed p @ ''Weekly support digest '' @ long_dash @ '' '' @ show_nat (dg_created d) @ '' new, ''
         @ show_nat (dg_resolved d) @ '' resolved''
         @ (if 0 < dg_breached d then '', '' @ show_nat (dg_breached d) @ '' past SLA'' else ''''),
       ml_text = ''Weekly support digest for '' @ plat_name p @ '':'' @ newline @ newline
         @ ''  New issues:      '' @ show_nat (dg_created d) @ newline
         @ ''  Resolved:        '' @ show_nat (dg_resolved d) @ newline
         @ ''  Open now:        '' @ show_nat (dg_open d)
         @ (if 0 < dg_breached d then ''  ('' @ show_nat (dg_breached d) @ '' past SLA!)'' else '''') @ newline
         @ ''  '' @ csat_line (dg_ratings d) @ newline @ newline
         @ ''Dashboard: '' @ appUrl app @ ''/staff/dashboard''\<rparr>"

text \<open>
  The messages of one platform and the number it counts for: a message the server refuses ends
  the platform's digest, which then counts for nothing though earlier messages went out.
\<close>

fun send_until_failure :: "(mail_message \<Rightarrow> bool) \<Rightarrow> mail_message list \<Rightarrow> bool \<times> mail_message list" where
  "send_until_failure mail_ok [] = (True, [])"
| "send_until_failure mail_ok (m # ms) =
     (if mail_ok m then (let (ok, sent) = send_until_failure mail_ok ms in (ok, m # sent)) else (False, []))"

definition digestForPlatform ::
  "env \<Rightarrow> (mail_message \<Rightarrow> bool) \<Rightarrow> string option \<Rightarrow> platform \<Rightarrow> db \<Rightarrow> nat \<times> mail_message list" where
  "digestForPlatform e mail_ok app p s =
     (let d = digest_stats_of e (plat_id p) s; us = digest_recipients (plat_id p) s
      in if dg_created d = 0 \<and> dg_resolved d = 0 \<and> dg_open d = 0 then (0, [])
         else if us = [] then (0, [])
         else (case send_until_failure mail_ok (map (digest_mail app p d) us) of
                 (ok, sent) \<Rightarrow> (if ok then length us else 0, sent)))"

definition sendWeeklyDigests ::
  "env \<Rightarrow> (mail_message \<Rightarrow> bool) \<Rightarrow> string option \<Rightarrow> db \<Rightarrow> string + nat \<times> mail_message list" where
  "sendWeeklyDigests e mail_ok app s =
     (case envFlag (process_env e) ''DIGEST_ENABLED'' True of
        Inl bad \<Rightarrow> Inl bad
      | Inr False \<Rightarrow> Inr (0, [])
      | Inr True \<Rightarrow>
          (let rs = map (\<lambda>p. digestForPlatform e mail_ok app p s)
                      (filter (\<lambda>p. plat_status p = PLATFORM_ACTIVE) (t_platforms s))
           in Inr (sum_list (map fst rs), concat (map snd rs))))"

section \<open>Facts\<close>

lemma activeRecipients_from_facts:
  "distinct (map su_id (activeRecipients_from seen us)) \<and> su_id ` set (activeRecipients_from seen us) \<inter> seen = {}
   \<and> set (activeRecipients_from seen us) \<subseteq> {u \<in> set us. su_email u \<noteq> '''' \<and> su_status u = ACCOUNT_ACTIVE}"
proof (induction us arbitrary: seen)
  case (Cons u us)
  show ?case
  proof (cases "su_email u \<noteq> '''' \<and> su_status u = ACCOUNT_ACTIVE \<and> su_id u \<notin> seen")
    case True
    then have "activeRecipients_from seen (u # us) = u # activeRecipients_from (insert (su_id u) seen) us" by simp
    with Cons.IH [of "insert (su_id u) seen"] True show ?thesis by (simp only:) auto
  next
    case False
    then have "activeRecipients_from seen (u # us) = activeRecipients_from seen us" by auto
    with Cons.IH [of seen] show ?thesis by (simp only:) auto
  qed
qed simp

lemma activeRecipients_from_complete:
  assumes "\<And>x y. x \<in> set us \<Longrightarrow> y \<in> set us \<Longrightarrow> su_id x = su_id y \<Longrightarrow> x = y"
  shows "{u \<in> set us. su_email u \<noteq> '''' \<and> su_status u = ACCOUNT_ACTIVE \<and> su_id u \<notin> seen} \<subseteq> set (activeRecipients_from seen us)"
  using assms
proof (induction us arbitrary: seen)
  case (Cons u us)
  have unique: "x = y" if "x \<in> set us" "y \<in> set us" "su_id x = su_id y" for x y
    by (rule Cons.prems) (use that in simp_all)
  show ?case
  proof
    fix x assume "x \<in> {x \<in> set (u # us). su_email x \<noteq> '''' \<and> su_status x = ACCOUNT_ACTIVE \<and> su_id x \<notin> seen}"
    then have x: "x = u \<or> x \<in> set us" "su_email x \<noteq> ''''" "su_status x = ACCOUNT_ACTIVE" "su_id x \<notin> seen" by auto
    show "x \<in> set (activeRecipients_from seen (u # us))"
    proof (cases "x = u")
      case True
      with x show ?thesis by simp
    next
      case False
      have "su_id x \<noteq> su_id u"
      proof
        assume "su_id x = su_id u"
        then have "x = u" by (intro Cons.prems) (use x(1) in auto)
        with False show False ..
      qed
      with x False have "x \<in> {u \<in> set us. su_email u \<noteq> '''' \<and> su_status u = ACCOUNT_ACTIVE \<and> su_id u \<notin> seen}"
        "x \<in> {v \<in> set us. su_email v \<noteq> '''' \<and> su_status v = ACCOUNT_ACTIVE \<and> su_id v \<notin> insert (su_id u) seen}" by auto
      with Cons.IH [OF unique, of seen] Cons.IH [OF unique, of "insert (su_id u) seen"]
      have "x \<in> set (activeRecipients_from seen us)" "x \<in> set (activeRecipients_from (insert (su_id u) seen) us)" by blast+
      then show ?thesis by simp
    qed
  qed
qed simp

lemma set_activeRecipients:
  assumes "\<And>u. u \<in> set us \<Longrightarrow> find_staff (su_id u) s = Some u"
  shows "set (activeRecipients us) = {u \<in> set us. su_email u \<noteq> '''' \<and> su_status u = ACCOUNT_ACTIVE}"
proof
  show "set (activeRecipients us) \<subseteq> {u \<in> set us. su_email u \<noteq> '''' \<and> su_status u = ACCOUNT_ACTIVE}"
    using activeRecipients_from_facts [of "{}" us] by (simp add: activeRecipients_def)
  have "x = y" if "x \<in> set us" "y \<in> set us" "su_id x = su_id y" for x y
    using assms [OF that(1)] assms [OF that(2)] that(3) by (metis option.inject)
  then have "{u \<in> set us. su_email u \<noteq> '''' \<and> su_status u = ACCOUNT_ACTIVE \<and> su_id u \<notin> {}} \<subseteq> set (activeRecipients us)"
    unfolding activeRecipients_def by (rule activeRecipients_from_complete)
  then show "{u \<in> set us. su_email u \<noteq> '''' \<and> su_status u = ACCOUNT_ACTIVE} \<subseteq> set (activeRecipients us)" by blast
qed

lemma distinct_activeRecipients: "distinct (map su_id (activeRecipients us))"
  using activeRecipients_from_facts [of "{}" us] by (simp add: activeRecipients_def)

lemma activeRecipientsD: "u \<in> set (activeRecipients us) \<Longrightarrow> u \<in> set us \<and> su_email u \<noteq> '''' \<and> su_status u = ACCOUNT_ACTIVE"
  using activeRecipients_from_facts [of "{}" us] by (auto simp: activeRecipients_def)

lemma find_staff_self: "find_staff i s = Some u \<Longrightarrow> find_staff (su_id u) s = Some u \<and> su_id u = i \<and> u \<in> set (t_staff s)"
  by (auto simp: find_staff_def dest: by_key_SomeD)

lemma find_staff_id: "find_staff i s = Some u \<Longrightarrow> i = su_id u"
  by (auto simp: find_staff_def dest: by_key_SomeD)

lemma focalPointsFor_iff:
  "u \<in> set (focalPointsFor p s) \<longleftrightarrow> find_staff (su_id u) s = Some u \<and> su_status u = ACCOUNT_ACTIVE
     \<and> (\<exists>g \<in> set (t_roles s). upr_staff_user g = su_id u \<and> upr_role g = FOCAL_POINT \<and> upr_platform g = Some p)"
proof -
  have "find_staff (upr_staff_user g) s = Some u \<longleftrightarrow> upr_staff_user g = su_id u \<and> find_staff (su_id u) s = Some u" for g
    using find_staff_id [of "upr_staff_user g" s u] by auto
  then show ?thesis by (auto simp: focalPointsFor_def set_map_filter)
qed

lemma watchersOf_iff:
  "u \<in> set (watchersOf iid s) \<longleftrightarrow> find_staff (su_id u) s = Some u \<and> is_watching iid (su_id u) s"
proof -
  have "find_staff (wat_staff_user w) s = Some u \<longleftrightarrow> wat_staff_user w = su_id u \<and> find_staff (su_id u) s = Some u" for w
    using find_staff_id [of "wat_staff_user w" s u] by auto
  then show ?thesis by (auto simp: watchersOf_def set_map_filter is_watching_def list_ex_iff)
qed

lemma assignee_of_iff:
  "u \<in> set (assignee_of i s) \<longleftrightarrow> find_staff (su_id u) s = Some u \<and> iss_assignee i = Some (su_id u)"
proof (cases "iss_assignee i")
  case (Some a)
  have "find_staff a s = Some u \<longleftrightarrow> a = su_id u \<and> find_staff (su_id u) s = Some u"
    using find_staff_id [of a s u] by auto
  moreover have "u \<in> set (assignee_of i s) \<longleftrightarrow> find_staff a s = Some u"
    by (cases "find_staff a s") (auto simp: assignee_of_def Some)
  ultimately show ?thesis using Some by auto
qed (simp add: assignee_of_def)

text \<open>What is left by a round of messages: one row and one message per recipient, in order.\<close>

definition told ::
  "env \<Rightarrow> (mail_message \<Rightarrow> bool) \<Rightarrow> ident \<Rightarrow> staff_user list \<Rightarrow> db \<Rightarrow> db \<Rightarrow> mail_message list \<Rightarrow> bool" where
  "told e mail_ok iid us s s' mails =
     (s' = s\<lparr>t_notifs := t_notifs s', uuid_drawn := uuid_drawn s'\<rparr>
    \<and> t_issues s' = t_issues s \<and> t_staff s' = t_staff s \<and> outbox s' = outbox s \<and> map ml_to mails = map su_email us
    \<and> (\<exists>rows. t_notifs s' = t_notifs s @ rows \<and> map ntf_recipient_ref rows = map su_id us
         \<and> list_all (\<lambda>n. ntf_issue n = iid \<and> ntf_read_at n = None) rows
         \<and> map ntf_status rows = map (\<lambda>m. if mail_ok m then NOTIF_SENT else NOTIF_FAILED) mails))"

lemma told_nobody: "told e mail_ok iid [] s s []"
  by (simp add: told_def)

lemma dispatch_fold:
  "fold (dispatch e mail_ok iid trigger subject text) us (s, mails) = (s', mails') \<Longrightarrow>
     \<exists>new. mails' = mails @ new \<and> told e mail_ok iid us s s' new"
proof (induction us arbitrary: s mails)
  case (Cons u us)
  obtain s1 m where d: "dispatch e mail_ok iid trigger subject text u (s, mails) = (s1, mails @ [m])"
    and m: "ml_to m = su_email u" and frame: "s1 = s\<lparr>t_notifs := t_notifs s1, uuid_drawn := uuid_drawn s1\<rparr>" and s1: "t_issues s1 = t_issues s" "t_staff s1 = t_staff s" "outbox s1 = outbox s"
    and row: "\<exists>row. t_notifs s1 = t_notifs s @ [row] \<and> ntf_recipient_ref row = su_id u \<and> ntf_issue row = iid
         \<and> ntf_read_at row = None \<and> ntf_status row = (if mail_ok m then NOTIF_SENT else NOTIF_FAILED)"
    by (simp add: dispatch_def Let_def draw_id_def)
  from Cons.prems d have "fold (dispatch e mail_ok iid trigger subject text) us (s1, mails @ [m]) = (s', mails')" by simp
  from Cons.IH [OF this] obtain new where new: "mails' = (mails @ [m]) @ new" "told e mail_ok iid us s1 s' new" by blast
  from new(2) row obtain rows r where "t_notifs s' = (t_notifs s @ [r]) @ rows" "map ntf_recipient_ref (r # rows) = map su_id (u # us)"
    "list_all (\<lambda>n. ntf_issue n = iid \<and> ntf_read_at n = None) (r # rows)"
    "map ntf_status (r # rows) = map (\<lambda>m. if mail_ok m then NOTIF_SENT else NOTIF_FAILED) (m # new)"
    by (auto simp: told_def)
  then have "\<exists>rows. t_notifs s' = t_notifs s @ rows \<and> map ntf_recipient_ref rows = map su_id (u # us)
         \<and> list_all (\<lambda>n. ntf_issue n = iid \<and> ntf_read_at n = None) rows
         \<and> map ntf_status rows = map (\<lambda>m. if mail_ok m then NOTIF_SENT else NOTIF_FAILED) (m # new)"
    by (intro exI [of _ "r # rows"]) simp
  moreover from new(2) have "s' = s1\<lparr>t_notifs := t_notifs s', uuid_drawn := uuid_drawn s'\<rparr>" by (simp add: told_def)
  with frame have "s' = s\<lparr>t_notifs := t_notifs s', uuid_drawn := uuid_drawn s'\<rparr>" by (cases s, cases s1, cases s') simp
  ultimately have "told e mail_ok iid (u # us) s s' (m # new)" using new s1 m by (simp add: told_def)
  with new(1) show ?case by simp
qed (simp add: told_nobody)

lemma dispatch_all_told:
  assumes "dispatch_all e mail_ok iid trigger subject text us s = (s', mails)"
  shows "told e mail_ok iid us s s' mails"
  using dispatch_fold [of e mail_ok iid trigger subject "text" us s "[]" s' mails] assms by (auto simp: dispatch_all_def)

section \<open>Properties\<close>

text \<open>
  C34: A status change is told to exactly the assignee, the focal points of the issue's
  platform and the watchers of the issue, as far as they are active, have an address and did
  not make the change themselves: each gets one message and one row in the log, which says
  whether the server took the message. Nothing else in the database changes and a failing server
  stops nobody.
\<close>

theorem status_change_is_told_to:
  assumes run: "on_event e mail_ok app (IssueStatusChanged iid q a b actor) s = (s', mails)"
    and i: "find_issue iid s = Some i" and p: "find_platform (iss_platform i) s = Some p"
  shows "\<exists>us. told e mail_ok iid us s s' mails \<and> distinct (map su_id us)
     \<and> (\<forall>u. u \<in> set us \<longleftrightarrow> find_staff (su_id u) s = Some u \<and> su_status u = ACCOUNT_ACTIVE \<and> su_email u \<noteq> '''' \<and> su_id u \<noteq> actor
          \<and> (iss_assignee i = Some (su_id u) \<or> is_watching iid (su_id u) s
             \<or> (\<exists>g \<in> set (t_roles s). upr_staff_user g = su_id u \<and> upr_role g = FOCAL_POINT \<and> upr_platform g = Some (iss_platform i))))"
proof -
  from i have id: "iss_id i = iid" by (auto dest: find_issueD)
  let ?us = "filter (\<lambda>u. su_id u \<noteq> actor) (activeRecipients (audience i s))"
  have "told e mail_ok iid ?us s s' mails"
    using run by (auto simp: notifyStatusChange_def with_issue_def i p intro: dispatch_all_told)
  moreover have "distinct (map su_id ?us)" by (rule distinct_map_filter [OF distinct_activeRecipients])
  moreover have "set (activeRecipients (audience i s)) = {u \<in> set (audience i s). su_email u \<noteq> '''' \<and> su_status u = ACCOUNT_ACTIVE}"
    by (rule set_activeRecipients [of _ s]) (auto simp: audience_def assignee_of_iff focalPointsFor_iff watchersOf_iff)
  then have "u \<in> set ?us \<longleftrightarrow> find_staff (su_id u) s = Some u \<and> su_status u = ACCOUNT_ACTIVE \<and> su_email u \<noteq> '''' \<and> su_id u \<noteq> actor
          \<and> (iss_assignee i = Some (su_id u) \<or> is_watching iid (su_id u) s
             \<or> (\<exists>g \<in> set (t_roles s). upr_staff_user g = su_id u \<and> upr_role g = FOCAL_POINT \<and> upr_platform g = Some (iss_platform i)))" for u
    by (auto simp: audience_def assignee_of_iff focalPointsFor_iff watchersOf_iff id)
  ultimately show ?thesis by blast
qed

lemma mention_rows:
  "\<exists>rows. t_notifs (fold (mention_row e iid) us s) = t_notifs s @ rows \<and> map ntf_recipient_ref rows = map su_id us"
proof (induction us arbitrary: s)
  case (Cons u us)
  from Cons.IH [of "mention_row e iid u s"] show ?case
    by (fastforce simp: mention_row_def draw_id_def)
qed simp

lemma active_among:
  "us' = activeRecipients us \<Longrightarrow> (\<And>u. u \<in> set us \<Longrightarrow> u \<in> set (t_staff s)) \<Longrightarrow>
     distinct (map su_id us') \<and> set us' \<subseteq> {u \<in> set (t_staff s). su_status u = ACCOUNT_ACTIVE}"
  using distinct_activeRecipients [of us] activeRecipientsD [of _ us] by auto

text \<open>
  Whatever event the listeners handle, every new row of the log and every
  message goes to an account that is active at that moment, at most once per account; the
  issues stay as they are.
\<close>

theorem offboarded_are_never_told:
  assumes run: "on_event e mail_ok app ev s = (s', mails)" and ids: "distinct (map su_id (t_staff s))"
  shows "\<exists>us. distinct (map su_id us) \<and> set us \<subseteq> {u \<in> set (t_staff s). su_status u = ACCOUNT_ACTIVE}
     \<and> (\<exists>rows. t_notifs s' = t_notifs s @ rows \<and> map ntf_recipient_ref rows = map su_id us)
     \<and> set (map ml_to mails) \<subseteq> su_email ` set us"
proof -
  have nobody: ?thesis if "s' = s" "mails = []"
    using that by (intro exI [of _ "[]"]) simp
  have round: ?thesis if "told e mail_ok iid us s s' mails" "distinct (map su_id us)"
      "set us \<subseteq> {u \<in> set (t_staff s). su_status u = ACCOUNT_ACTIVE}" for iid us
    using that by (intro exI [of _ us]) (auto simp: told_def)
  have sent: ?thesis if r: "with_issue iid s (\<lambda>i p. dispatch_all e mail_ok iid tr (su i p) (tx i p) (us i) s) = (s', mails)"
      and us: "\<And>i. find_issue iid s = Some i \<Longrightarrow> distinct (map su_id (us i)) \<and> set (us i) \<subseteq> {u \<in> set (t_staff s). su_status u = ACCOUNT_ACTIVE}"
      for iid tr su tx us
  proof (cases "\<exists>i p. find_issue iid s = Some i \<and> find_platform (iss_platform i) s = Some p")
    case True
    then obtain i p where "find_issue iid s = Some i" "find_platform (iss_platform i) s = Some p" by blast
    with r us [of i] show ?thesis by (intro round [OF dispatch_all_told]) (auto simp: with_issue_def)
  next
    case False
    with r show ?thesis by (intro nobody) (auto simp: with_issue_def split: option.splits)
  qed
  have staff: "u \<in> set (t_staff s)" if "u \<in> set (audience i s) \<or> u \<in> set (focalPointsFor p s) \<or> u \<in> set (assignee_of i s)" for u i p
    using that by (auto simp: audience_def assignee_of_iff focalPointsFor_iff watchersOf_iff dest: find_staff_self)
  show ?thesis
  proof (cases ev)
    case (IssueCreated iid p)
    with run show ?thesis
      by (intro sent) (auto simp: notifyFocalPointsOfNewIssue_def intro!: active_among [OF refl] staff)
  next
    case (IssueStatusChanged iid p a b actor)
    have "distinct (map su_id (filter (\<lambda>u. su_id u \<noteq> actor) (activeRecipients (audience i s))))
       \<and> set (filter (\<lambda>u. su_id u \<noteq> actor) (activeRecipients (audience i s))) \<subseteq> {u \<in> set (t_staff s). su_status u = ACCOUNT_ACTIVE}" for i
    proof -
      have "distinct (map su_id (activeRecipients (audience i s))) \<and> set (activeRecipients (audience i s)) \<subseteq> {u \<in> set (t_staff s). su_status u = ACCOUNT_ACTIVE}"
        by (rule active_among [OF refl]) (rule staff, blast)
      then show ?thesis by (auto intro: distinct_map_filter)
    qed
    then show ?thesis
      using run unfolding IssueStatusChanged on_event.simps notifyStatusChange_def by (intro sent) assumption+
  next
    case (IssueAssigned iid p a actor)
    show ?thesis
    proof (cases "truthy a")
      case (Some x)
      let ?us = "activeRecipients (case find_staff x s of None \<Rightarrow> [] | Some u \<Rightarrow> [u])"
      have "distinct (map su_id ?us) \<and> set ?us \<subseteq> {u \<in> set (t_staff s). su_status u = ACCOUNT_ACTIVE}"
        by (rule active_among [OF refl]) (use find_staff_self [of x s] in \<open>simp split: option.splits\<close>)
      then have "distinct (map su_id (take 1 ?us)) \<and> set (take 1 ?us) \<subseteq> {u \<in> set (t_staff s). su_status u = ACCOUNT_ACTIVE}"
        by (auto simp: take_map [symmetric] dest: in_set_takeD)
      with run Some show ?thesis unfolding IssueAssigned by (intro sent) (auto simp: notifyAssignee_def)
    qed (use run in \<open>auto simp: IssueAssigned notifyAssignee_def intro: nobody\<close>)
  next
    case (IssueSlaBreached iid p)
    with run show ?thesis
      by (intro sent) (auto simp: notifySlaBreach_def intro!: active_among [OF refl] staff)
  next
    case (CommentAdded iid p c visible actor ids')
    show ?thesis
    proof (cases "visible \<and> actor = ''''")
      case True
      with run show ?thesis unfolding CommentAdded
        by (intro sent) (auto simp: notifyReporterReply_def intro!: active_among [OF refl] staff)
    next
      case False
      let ?us = "filter (\<lambda>u. su_id u \<in> set (filter (\<lambda>i. i \<noteq> '''' \<and> i \<noteq> actor) (js_set ids')) \<and> su_status u = ACCOUNT_ACTIVE) (t_staff s)"
      from False run have s': "s' = notifyMentions e iid ids' actor s" "mails = []" by (auto simp: CommentAdded)
      have "s' = s \<or> s' = fold (mention_row e iid) ?us s" unfolding s'(1) notifyMentions_def Let_def by auto
      then show ?thesis
      proof
        assume "s' = fold (mention_row e iid) ?us s"
        with mention_rows [of e iid ?us s] s'(2) distinct_map_filter [OF ids] show ?thesis by (intro exI [of _ ?us]) auto
      qed (use s'(2) nobody in blast)
    qed
  qed (use run nobody in auto)
qed

definition notify_db :: db where
  "notify_db = demo_db\<lparr>t_watchers := [\<lparr>wat_id = ''w1'', wat_issue = ''i1'', wat_staff_user = ''wat'', wat_created_at = 0\<rparr>,
      \<lparr>wat_id = ''w2'', wat_issue = ''i1'', wat_staff_user = ''dev'', wat_created_at = 0\<rparr>]\<rparr>"

lemma notify_lookups:
  "find_issue ''i1'' notify_db = Some (sample_issue ''i1'' ''p1'' NEW)"
  "find_platform ''p1'' notify_db = Some (sample_platform ''p1'' ''portal'')"
  "find_staff ''wat'' notify_db = Some (sample_staff ''wat'' ''wat@x.org'')"
  "iss_platform (sample_issue ''i1'' ''p1'' NEW) = ''p1''" "is_watching ''i1'' ''wat'' notify_db"
  "distinct (map su_id (t_staff notify_db))"
  by (simp_all add: notify_db_def demo_db_def find_issue_def find_platform_def find_staff_def is_watching_def sample_defs by_key_Cons)

theorem status_change_is_told_to_witness:
  "\<exists>s' mails. on_event plain_env (\<lambda>_. False) None (IssueStatusChanged ''i1'' ''p1'' NEW IN_PROGRESS ''dev'') notify_db = (s', mails)
     \<and> (\<exists>us. told plain_env (\<lambda>_. False) ''i1'' us notify_db s' mails \<and> map su_id us = [''wat''])"
proof -
  let ?ev = "IssueStatusChanged ''i1'' ''p1'' NEW IN_PROGRESS ''dev''"
  obtain s' mails where r: "on_event plain_env (\<lambda>_. False) None ?ev notify_db = (s', mails)" by fastforce
  from notify_lookups have i: "find_issue ''i1'' notify_db = Some (sample_issue ''i1'' ''p1'' NEW)"
    and p: "find_platform (iss_platform (sample_issue ''i1'' ''p1'' NEW)) notify_db = Some (sample_platform ''p1'' ''portal'')" by simp_all
  from status_change_is_told_to [OF r i p] obtain us where us: "told plain_env (\<lambda>_. False) ''i1'' us notify_db s' mails"
    "distinct (map su_id us)" and m: "\<And>u. u \<in> set us \<longleftrightarrow> find_staff (su_id u) notify_db = Some u \<and> su_status u = ACCOUNT_ACTIVE
       \<and> su_email u \<noteq> '''' \<and> su_id u \<noteq> ''dev'' \<and> (iss_assignee (sample_issue ''i1'' ''p1'' NEW) = Some (su_id u)
          \<or> is_watching ''i1'' (su_id u) notify_db \<or> (\<exists>g \<in> set (t_roles notify_db). upr_staff_user g = su_id u
               \<and> upr_role g = FOCAL_POINT \<and> upr_platform g = Some (iss_platform (sample_issue ''i1'' ''p1'' NEW))))" by blast
  let ?w = "sample_staff ''wat'' ''wat@x.org''"
  have w: "su_id ?w = ''wat''" "su_status ?w = ACCOUNT_ACTIVE" "su_email ?w \<noteq> ''''" by (simp_all add: sample_staff_def)
  then have "?w \<in> set us" unfolding m using notify_lookups by simp
  moreover have "su_id u = ''wat''" if "u \<in> set us" for u
    using that unfolding m by (auto simp: notify_db_def demo_db_def sample_defs is_watching_def)
  ultimately have "set (map su_id us) = {''wat''}" using w(1) by force
  then have "map su_id us = [''wat'']"
    using us(2) by (metis distinct_card card.empty card_insert_disjoint empty_iff finite.emptyI length_0_conv length_Suc_conv list.set(1) list.set_intros(1) singletonD)
  then show ?thesis by (intro exI conjI) (rule r, rule us(1))
qed

theorem offboarded_are_never_told_witness:
  "\<exists>s' mails. on_event plain_env (\<lambda>_. True) None (IssueStatusChanged ''i1'' ''p1'' NEW IN_PROGRESS ''dev'')
       (t_staff_update (map (\<lambda>u. u\<lparr>su_status := ACCOUNT_DISABLED\<rparr>)) notify_db) = (s', mails) \<and> mails = []"
proof -
  let ?s = "t_staff_update (map (\<lambda>u. u\<lparr>su_status := ACCOUNT_DISABLED\<rparr>)) notify_db"
  obtain s' mails where r: "on_event plain_env (\<lambda>_. True) None (IssueStatusChanged ''i1'' ''p1'' NEW IN_PROGRESS ''dev'') ?s = (s', mails)"
    by fastforce
  have d: "distinct (map su_id (t_staff ?s))" using notify_lookups(6) by (simp add: comp_def)
  have "u \<notin> set (t_staff ?s)" if "su_status u = ACCOUNT_ACTIVE" for u using that by auto
  with offboarded_are_never_told [OF r d] have "mails = []" by (cases mails) auto
  with r show ?thesis by blast
qed

lemma send_until_failure_sent:
  "send_until_failure mail_ok ms = (ok, sent) \<Longrightarrow> set sent \<subseteq> set ms \<and> list_all mail_ok sent \<and> (ok \<longrightarrow> sent = ms)"
  by (induction ms arbitrary: ok sent) (auto split: if_splits prod.splits)

text \<open>The database as one platform sees it: its own issues and their ratings.\<close>

definition own_view :: "ident \<Rightarrow> db \<Rightarrow> db" where
  "own_view p s = s\<lparr>t_issues := filter (\<lambda>i. iss_platform i = p) (t_issues s),
     t_csat := filter (\<lambda>c. csat_issue c \<in> iss_id ` {i \<in> set (t_issues s). iss_platform i = p}) (t_csat s)\<rparr>"

lemma digest_stats_local: "digest_stats_of e p (own_view p s) = digest_stats_of e p s"
proof -
  have f: "filter (\<lambda>c. csat_issue c \<in> iss_id ` {i \<in> set (t_issues s). iss_platform i = p} \<and> x \<le> csat_created_at c)
      (filter (\<lambda>c. csat_issue c \<in> iss_id ` {i \<in> set (t_issues s). iss_platform i = p}) (t_csat s))
    = filter (\<lambda>c. csat_issue c \<in> iss_id ` {i \<in> set (t_issues s). iss_platform i = p} \<and> x \<le> csat_created_at c) (t_csat s)" for x
    unfolding filter_filter by (rule filter_cong [OF refl]) blast
  show ?thesis by (simp add: digest_stats_of_def own_view_def Let_def f)
qed

text \<open>
  Every message of the weekly digest reports on one active platform, with numbers
  that depend on nothing but that platform's issues and their ratings, and goes to an active
  account that is a focal point of the platform or a watcher of it or of all; the count the
  job returns never exceeds the messages the server took.
\<close>

theorem digest_stays_in_tenant:
  assumes "sendWeeklyDigests e mail_ok app s = Inr (n, mails)"
  shows "n \<le> length (filter mail_ok mails)
     \<and> (\<forall>m \<in> set mails. \<exists>p u g. p \<in> set (t_platforms s) \<and> plat_status p = PLATFORM_ACTIVE
          \<and> m = digest_mail app p (digest_stats_of e (plat_id p) (own_view (plat_id p) s)) u
          \<and> u \<in> set (t_staff s) \<and> su_status u = ACCOUNT_ACTIVE \<and> g \<in> set (t_roles s) \<and> upr_staff_user g = su_id u
          \<and> (upr_role g = FOCAL_POINT \<and> upr_platform g = Some (plat_id p)
             \<or> upr_role g = WATCHER \<and> (upr_platform g = Some (plat_id p) \<or> upr_platform g = None)))"
proof -
  have one: "fst (digestForPlatform e mail_ok app p s) \<le> length (snd (digestForPlatform e mail_ok app p s))
      \<and> list_all mail_ok (snd (digestForPlatform e mail_ok app p s))
      \<and> set (snd (digestForPlatform e mail_ok app p s))
          \<subseteq> digest_mail app p (digest_stats_of e (plat_id p) s) ` set (digest_recipients (plat_id p) s)" for p
  proof -
    let ?ms = "map (digest_mail app p (digest_stats_of e (plat_id p) s)) (digest_recipients (plat_id p) s)"
    obtain ok sent where s: "send_until_failure mail_ok ?ms = (ok, sent)" by fastforce
    from send_until_failure_sent [OF s] show ?thesis
      by (auto simp: digestForPlatform_def Let_def s)
  qed
  have rec: "\<exists>g. u \<in> set (t_staff s) \<and> su_status u = ACCOUNT_ACTIVE \<and> g \<in> set (t_roles s) \<and> upr_staff_user g = su_id u
          \<and> (upr_role g = FOCAL_POINT \<and> upr_platform g = Some p
             \<or> upr_role g = WATCHER \<and> (upr_platform g = Some p \<or> upr_platform g = None))"
    if "u \<in> set (digest_recipients p s)" for u p
  proof -
    from that obtain g where "g \<in> set (t_roles s)" "find_staff (upr_staff_user g) s = Some u" "su_status u = ACCOUNT_ACTIVE"
      "upr_role g = FOCAL_POINT \<and> upr_platform g = Some p \<or> upr_role g = WATCHER \<and> (upr_platform g = Some p \<or> upr_platform g = None)"
      unfolding digest_recipients_def Let_def by (auto dest!: activeRecipientsD simp: set_map_filter)
    with find_staff_self [of "upr_staff_user g" s u] show ?thesis by auto
  qed
  let ?ps = "filter (\<lambda>p. plat_status p = PLATFORM_ACTIVE) (t_platforms s)"
  have "\<exists>ps. set ps \<subseteq> set ?ps \<and> n = sum_list (map (\<lambda>p. fst (digestForPlatform e mail_ok app p s)) ps)
      \<and> mails = concat (map (\<lambda>p. snd (digestForPlatform e mail_ok app p s)) ps)"
  proof (cases "envFlag (process_env e) ''DIGEST_ENABLED'' True")
    case (Inr flag)
    show ?thesis
    proof (cases flag)
      case True
      with assms Inr show ?thesis
        by (intro exI [of _ ?ps]) (simp add: sendWeeklyDigests_def Let_def comp_def)
    next
      case False
      with assms Inr show ?thesis by (intro exI [of _ "[]"]) (simp add: sendWeeklyDigests_def)
    qed
  qed (use assms in \<open>simp add: sendWeeklyDigests_def\<close>)
  then obtain ps where ps: "set ps \<subseteq> set ?ps" and n: "n = sum_list (map (\<lambda>p. fst (digestForPlatform e mail_ok app p s)) ps)"
    and mails: "mails = concat (map (\<lambda>p. snd (digestForPlatform e mail_ok app p s)) ps)" by blast
  have "sum_list (map (\<lambda>p. fst (digestForPlatform e mail_ok app p s)) ps)
      \<le> length (concat (map (\<lambda>p. snd (digestForPlatform e mail_ok app p s)) ps))" for ps
    by (induction ps) (use one in \<open>auto intro: add_mono\<close>)
  then have le: "n \<le> length mails" unfolding n mails .
  have member: "\<exists>p \<in> set ?ps. m \<in> set (snd (digestForPlatform e mail_ok app p s))" if "m \<in> set mails" for m
    using that ps unfolding mails by auto
  then have "list_all mail_ok mails" using one unfolding list_all_iff by blast
  then have "filter mail_ok mails = mails" by (simp add: list_all_iff)
  moreover have "\<exists>p u g. p \<in> set (t_platforms s) \<and> plat_status p = PLATFORM_ACTIVE
          \<and> m = digest_mail app p (digest_stats_of e (plat_id p) (own_view (plat_id p) s)) u
          \<and> u \<in> set (t_staff s) \<and> su_status u = ACCOUNT_ACTIVE \<and> g \<in> set (t_roles s) \<and> upr_staff_user g = su_id u
          \<and> (upr_role g = FOCAL_POINT \<and> upr_platform g = Some (plat_id p)
             \<or> upr_role g = WATCHER \<and> (upr_platform g = Some (plat_id p) \<or> upr_platform g = None))" if "m \<in> set mails" for m
  proof -
    from member [OF that] obtain p where p: "p \<in> set ?ps" "m \<in> set (snd (digestForPlatform e mail_ok app p s))" by blast
    with one [of p] obtain u where u: "u \<in> set (digest_recipients (plat_id p) s)"
      "m = digest_mail app p (digest_stats_of e (plat_id p) s) u" by blast
    from rec [OF u(1)] p(1) u(2) show ?thesis unfolding digest_stats_local by (intro exI [of _ p] exI [of _ u]) auto
  qed
  ultimately show ?thesis using le by simp
qed

theorem digest_stays_in_tenant_witness:
  "\<exists>n mails. sendWeeklyDigests plain_env (\<lambda>_. True) None notify_db = Inr (n, mails) \<and> n \<le> length mails
     \<and> (\<exists>m \<in> set mails. ml_to m = ''wat@x.org'')"
proof -
  have "(case sendWeeklyDigests plain_env (\<lambda>_. True) None notify_db of Inr (n, mails) \<Rightarrow> map ml_to mails = [''wat@x.org''] | _ \<Rightarrow> False)"
    by code_simp
  then obtain n mails where r: "sendWeeklyDigests plain_env (\<lambda>_. True) None notify_db = Inr (n, mails)"
    and m: "map ml_to mails = [''wat@x.org'']" by (auto split: sum.splits)
  from digest_stays_in_tenant [OF r] have "n \<le> length mails" by simp
  moreover from m have "\<exists>m \<in> set mails. ml_to m = ''wat@x.org''" by (cases mails) auto
  ultimately show ?thesis using r by blast
qed

end
