(* ===== verification/Deflection.thy ===== *)
theory Deflection
  imports Reporter IssuesQuery Notifications
begin

text \<open>
  Deflection (\<^verbatim>\<open>src/deflection/deflection.service.ts\<close>, \<^verbatim>\<open>deflection.listener.ts\<close>,
  \<^verbatim>\<open>deflection.controllers.ts\<close>): suggestions for a draft report, following an issue instead
  of reporting it again, and the public list of known issues. The search vector is the one the
  migration \<^verbatim>\<open>1718600000000-AddIssueSearchVector.ts\<close> maintains. Matching a vector, ranking it
  and signing a token are parameters.
\<close>

section \<open>The search vector\<close>

text \<open>
  \<^verbatim>\<open>issues_refresh_search_vector\<close>: the description with weight A and, with weight B, the
  bodies of all comments of the issue. A database made by \<^verbatim>\<open>synchronize\<close> has no vectors.
\<close>

definition search_vector :: "db \<Rightarrow> issue \<Rightarrow> string \<times> string" where
  "search_vector s i =
     (iss_description i, join_with '' '' (map com_body (filter (\<lambda>c. com_issue c = iss_id i) (t_comments s))))"

record search_engine =
  se_migrated :: bool
  se_match :: "string \<Rightarrow> string \<times> string \<Rightarrow> bool"
  se_rank :: "string \<Rightarrow> string \<times> string \<Rightarrow> rat"

section \<open>Suggestions\<close>

record subscribe_claims =
  sc_purpose :: "string option"
  sc_issue_id :: "ident option"
  sc_platform_id :: "ident option"

record suggestion =
  sg_title :: "string option"
  sg_status :: issue_status
  sg_first_reported_at :: time
  sg_report_count :: nat
  sg_token :: string

text \<open>The words tried one by one where there is no vector: the five longest of four letters or more.\<close>

definition fallback_terms :: "string \<Rightarrow> string list" where
  "fallback_terms q =
     take 5 (sort_key (\<lambda>t. - int (length t))
       (filter (\<lambda>t. 4 \<le> length t) (map (filter is_term_char) (split_ws (js_lower q)))))"

definition similar_match :: "search_engine \<Rightarrow> ident \<Rightarrow> string \<Rightarrow> db \<Rightarrow> issue \<Rightarrow> bool" where
  "similar_match eng pid q s i =
     (iss_platform i = pid \<and> is_open (iss_status i) \<and> iss_duplicate_of i = None
      \<and> (if se_migrated eng then se_match eng (buildPrefixTsQuery q) (search_vector s i)
         else list_ex (\<lambda>t. ilike (''%'' @ t @ ''%'') (iss_description i)) (fallback_terms q)))"

text \<open>By rank, then the newest; the stable order stands for the one the database chooses on ties.\<close>

definition similar_rank :: "search_engine \<Rightarrow> string \<Rightarrow> db \<Rightarrow> issue \<Rightarrow> rat \<times> int" where
  "similar_rank eng q s i =
     (- (if se_migrated eng then se_rank eng (buildPrefixTsQuery q) (search_vector s i) else 0), - iss_created_at i)"

definition similar_rows :: "search_engine \<Rightarrow> ident \<Rightarrow> string \<Rightarrow> db \<Rightarrow> issue list" where
  "similar_rows eng pid q s =
     take 3 (sort_key (similar_rank eng q s) (filter (similar_match eng pid q s) (t_issues s)))"

definition subscribe_claims_for :: "ident \<Rightarrow> ident \<Rightarrow> subscribe_claims" where
  "subscribe_claims_for iid pid =
     \<lparr>sc_purpose = Some ''subscribe'', sc_issue_id = Some iid, sc_platform_id = Some pid\<rparr>"

definition suggestion_of :: "(subscribe_claims \<Rightarrow> string) \<Rightarrow> ident \<Rightarrow> db \<Rightarrow> issue \<Rightarrow> suggestion" where
  "suggestion_of sign pid s i =
     \<lparr>sg_title = (if iss_publicly_visible i then iss_public_title i else None),
      sg_status = iss_status i, sg_first_reported_at = iss_created_at i,
      sg_report_count = 1 + length (filter (\<lambda>d. iss_duplicate_of d = Some (iss_id i)) (t_issues s)),
      sg_token = sign (subscribe_claims_for (iss_id i) pid)\<rparr>"

definition findSimilar ::
  "(subscribe_claims \<Rightarrow> string) \<Rightarrow> search_engine \<Rightarrow> handoff \<Rightarrow> string \<Rightarrow> db \<Rightarrow> suggestion list" where
  "findSimilar sign eng ctx q s =
     (if buildPrefixTsQuery q = '''' then []
      else map (suggestion_of sign (ho_platform_id ctx) s) (similar_rows eng (ho_platform_id ctx) q s))"

section \<open>Following an issue\<close>

definition insert_subscription :: "env \<Rightarrow> ident \<Rightarrow> ident \<Rightarrow> db \<Rightarrow> db" where
  "insert_subscription e iid rid s =
     (if list_ex (\<lambda>x. sub_issue x = iid \<and> sub_reporter x = rid) (t_subs s) then s
      else draw_id (t_subs_update (\<lambda>xs. xs @
             [\<lparr>sub_id = fresh_id s, sub_issue = iid, sub_reporter = rid, sub_created_at = now e\<rparr>]) s))"

text \<open>\<^verbatim>\<open>check\<close>: the claims of a token with a good signature that has not expired.\<close>

definition subscribe ::
  "(string \<Rightarrow> subscribe_claims option) \<Rightarrow> env \<Rightarrow> handoff \<Rightarrow> string \<Rightarrow> db \<Rightarrow> db res" where
  "subscribe check e ctx token s =
     (case check token of
        None \<Rightarrow> Inl (Unauthorized ''Invalid or expired subscribe token.'')
      | Some c \<Rightarrow>
          (case truthy (sc_issue_id c) of
             None \<Rightarrow> Inl (Unauthorized ''Invalid subscribe token.'')
           | Some iid \<Rightarrow>
               require (sc_purpose c = Some ''subscribe'') (Unauthorized ''Invalid subscribe token.'')
               (require (sc_platform_id c = Some (ho_platform_id ctx)) (NotFound ''Issue not found'')
               (case find_issue iid s of
                  None \<Rightarrow> Inl (NotFound ''Issue not found'')
                | Some i \<Rightarrow>
                    require (iss_platform i = ho_platform_id ctx) (NotFound ''Issue not found'')
                    (bind_res (upsertReporter e ctx s) (\<lambda>(r, s1).
                       Inr (insert_subscription e (iss_id i) (rep_id r) s1)))))))"

section \<open>Publishing\<close>

record publish_dto =
  pb_visible :: bool
  pb_title :: "string option"

definition set_published :: "publish_dto \<Rightarrow> issue \<Rightarrow> issue" where
  "set_published dto i =
     (let title = map_option js_trim (pb_title dto);
          i1 = i\<lparr>iss_publicly_visible := pb_visible dto\<rparr>
      in (case title of
            None \<Rightarrow> i1
          | Some t \<Rightarrow> (if t = '''' then i1 else i1\<lparr>iss_public_title := Some t\<rparr>)))"

definition publish_issue :: "env \<Rightarrow> auth_staff \<Rightarrow> ident \<Rightarrow> publish_dto \<Rightarrow> db \<Rightarrow> db res" where
  "publish_issue e st iid dto s =
     (case find_issue iid s of
        None \<Rightarrow> Inl (NotFound ''Issue not found'')
      | Some i \<Rightarrow>
          require (\<not> (pb_visible dto \<and> truthy (map_option js_trim (pb_title dto)) = None
                        \<and> truthy (iss_public_title i) = None))
            (BadRequest ''A public title is required to publish a known issue.'')
          (bind_res (save_issue e (set_published dto i) s) (\<lambda>s1.
             Inr (audit_record e (Some iid) ACTOR_STAFF (Some (st_id st)) ''PUBLISH_CHANGED'' (Some ''publiclyVisible'')
                    None (Some (if pb_visible dto then ''true'' else ''false'')) None s1))))"

definition publish_request :: "env \<Rightarrow> auth_staff \<Rightarrow> ident \<Rightarrow> publish_dto \<Rightarrow> db \<Rightarrow> db res" where
  "publish_request e st iid dto s =
     bind_res (platform_guard (Some STAFF_WRITE_ROLES) (Some st) (Some iid) s) (\<lambda>_. publish_issue e st iid dto s)"

record known_issue =
  ki_title :: string
  ki_status :: issue_status
  ki_updated_at :: time

definition publicKnownIssues :: "string \<Rightarrow> db \<Rightarrow> known_issue list res" where
  "publicKnownIssues key s =
     (case find_platform_by_key key s of
        None \<Rightarrow> Inl (NotFound ''Unknown platform'')
      | Some p \<Rightarrow>
          require (plat_status p = PLATFORM_ACTIVE) (NotFound ''Unknown platform'')
            (Inr (map (\<lambda>i. \<lparr>ki_title = (case iss_public_title i of None \<Rightarrow> ''Known issue'' | Some t \<Rightarrow> t),
                            ki_status = iss_status i, ki_updated_at = iss_updated_at i\<rparr>)
               (take 10 (newest_first iss_updated_at
                  (filter (\<lambda>i. iss_platform i = plat_id p \<and> iss_publicly_visible i) (t_issues s)))))))"

section \<open>Telling the followers\<close>

definition follower_mail :: "platform \<Rightarrow> reporter \<Rightarrow> mail_message" where
  "follower_mail p r =
     \<lparr>ml_to = rep_email r,
      ml_subject = ''['' @ plat_name p @ ''] An issue you follow has been resolved'',
      ml_text = ''Good news '' @ long_dash @ '' the issue you asked to be notified about on '' @ plat_name p
        @ '' has been resolved.'' @ newline @ newline
        @ ''If you still see the problem, please raise a new report from the app.''\<rparr>"

definition follower :: "db \<Rightarrow> reporter_subscription \<Rightarrow> reporter option" where
  "follower s x =
     (case by_key rep_id (sub_reporter x) (t_reporters s) of
        None \<Rightarrow> None
      | Some r \<Rightarrow> (if rep_email r = '''' then None else Some r))"

text \<open>
  \<^verbatim>\<open>onStatusChanged\<close>: the database and the messages handed to the server, which may refuse
  any of them without consequence.
\<close>

definition tell_followers :: "ident \<Rightarrow> issue_status \<Rightarrow> db \<Rightarrow> db \<times> mail_message list" where
  "tell_followers iid to s =
     (let subs = filter (\<lambda>x. sub_issue x = iid) (t_subs s) in
      if to \<noteq> RESOLVED \<or> subs = [] then (s, [])
      else
        (case find_issue iid s of
           None \<Rightarrow> (s, [])
         | Some i \<Rightarrow>
             (case find_platform (iss_platform i) s of
                None \<Rightarrow> (s, [])
              | Some p \<Rightarrow>
                  (t_subs_update (filter (\<lambda>x. sub_id x \<notin> set (map sub_id subs))) s,
                   map (follower_mail p) (List.map_filter (follower s) subs)))))"

section \<open>Facts\<close>

lemma sort_key_map: "sort_key k (map f xs) = map f (sort_key (k \<circ> f) xs)"
proof -
  have "insort_key k (f x) (map f ys) = map f (insort_key (k \<circ> f) x ys)" for x ys
    by (induction ys) simp_all
  then show ?thesis by (induction xs) simp_all
qed

text \<open>
  What a suggestion may depend on: nothing of who reported the issue or of how staff handle it.
  The time of the report stays: it is shown as the first report.
\<close>

definition public_face :: "issue \<Rightarrow> issue" where
  "public_face i = i\<lparr>iss_reference_no := '''', iss_reporter := '''', iss_assignee := None,
     iss_public_title := (if iss_publicly_visible i then iss_public_title i else None), iss_context := None,
     iss_priority := LOW, iss_jira_issue_key := None, iss_jira_sync_status := NOT_SYNCED, iss_version := 0,
     iss_sla_started_at := 0, iss_sla_breached_at := None, iss_updated_at := 0, iss_resolved_at := None,
     iss_closed_at := None\<rparr>"

lemma public_face_simps [simp]:
  "iss_id (public_face i) = iss_id i" "iss_platform (public_face i) = iss_platform i"
  "iss_description (public_face i) = iss_description i" "iss_publicly_visible (public_face i) = iss_publicly_visible i"
  "iss_status (public_face i) = iss_status i" "iss_duplicate_of (public_face i) = iss_duplicate_of i"
  "iss_created_at (public_face i) = iss_created_at i"
  by (simp_all add: public_face_def)

lemma search_vector_face: "search_vector s (public_face i) = search_vector s i"
  by (simp add: search_vector_def)

lemma similar_rows_face:
  "map public_face (similar_rows eng pid q s)
     = take 3 (sort_key (similar_rank eng q s) (filter (similar_match eng pid q s) (map public_face (t_issues s))))"
proof -
  have m: "similar_match eng pid q s \<circ> public_face = similar_match eng pid q s"
    by (rule ext) (simp add: similar_match_def search_vector_face)
  have r: "similar_rank eng q s \<circ> public_face = similar_rank eng q s"
    by (rule ext) (simp add: similar_rank_def search_vector_face)
  show ?thesis by (simp add: similar_rows_def sort_key_map filter_map m r take_map)
qed

lemma dup_count_face:
  "length (filter (\<lambda>d. iss_duplicate_of d = x) T) = length (filter (\<lambda>d. iss_duplicate_of d = x) (map public_face T))"
  by (induction T) auto

lemma suggestion_face: "suggestion_of sign pid s (public_face i) = suggestion_of sign pid s i"
  by (simp add: suggestion_of_def) (simp add: public_face_def)

text \<open>A search by substring over one issue with an internal note.\<close>

definition plain_search :: search_engine where
  "plain_search = \<lparr>se_migrated = True,
     se_match = (\<lambda>q (a, b). has_sub (takeWhile (\<lambda>c. c \<noteq> CHR '':'') q) (js_lower (a @ '' '' @ b))),
     se_rank = (\<lambda>_ _. 0)\<rparr>"

definition staff_note :: "string \<Rightarrow> comment" where
  "staff_note txt = \<lparr>com_id = ''c1'', com_issue = ''i1'', com_author = Some ''dev'', com_author_type = ACTOR_STAFF,
     com_author_name = None, com_body = txt, com_visibility = INTERNAL, com_source_locale = None,
     com_translations = None, com_created_at = 0, com_edited_at = None\<rparr>"

definition noted_db :: "string \<Rightarrow> db" where
  "noted_db txt = empty_db\<lparr>t_platforms := [sample_platform ''p1'' ''portal''],
     t_issues := [sample_issue ''i1'' ''p1'' NEW], t_comments := [staff_note txt]\<rparr>"

text \<open>
  C36: the suggestions are the same for any two databases that differ
  only in who reported the issues, their reference numbers, versions, priority, assignee,
  context, Jira link, the times of their update, resolution, closing and SLA clock, and the
  titles of unpublished issues: none of these reaches a reporter of another issue (the time of
  the report does, the suggestion shows it). There are three at most, all from open issues of
  the reporter's own platform.
\<close>

theorem similar_shows_no_identity:
  assumes "map public_face (t_issues s) = map public_face (t_issues t)" and "t_comments s = t_comments t"
  shows "findSimilar sign eng ctx q s = findSimilar sign eng ctx q t
    \<and> length (findSimilar sign eng ctx q s) \<le> 3
    \<and> (\<forall>g \<in> set (findSimilar sign eng ctx q s). \<exists>i \<in> set (t_issues s).
         g = suggestion_of sign (ho_platform_id ctx) s i \<and> iss_platform i = ho_platform_id ctx \<and> is_open (iss_status i))"
proof -
  let ?pid = "ho_platform_id ctx"
  have vec: "search_vector s = search_vector t" by (rule ext) (simp add: search_vector_def assms(2))
  have rank: "similar_rank eng q s = similar_rank eng q t" by (rule ext) (simp add: similar_rank_def vec)
  have mat: "similar_match eng ?pid q s = similar_match eng ?pid q t" by (rule ext) (simp add: similar_match_def vec)
  have sugg: "suggestion_of sign ?pid s = suggestion_of sign ?pid t"
  proof (rule ext)
    fix i
    show "suggestion_of sign ?pid s i = suggestion_of sign ?pid t i"
      unfolding suggestion_of_def dup_count_face [of _ "t_issues s"] dup_count_face [of _ "t_issues t"] assms(1) ..
  qed
  have rows: "map (suggestion_of sign ?pid u) (similar_rows eng ?pid q u) = map (suggestion_of sign ?pid u)
      (take 3 (sort_key (similar_rank eng q u) (filter (similar_match eng ?pid q u) (map public_face (t_issues u)))))" for u
    unfolding similar_rows_face [symmetric] by (simp add: suggestion_face)
  have "findSimilar sign eng ctx q s = findSimilar sign eng ctx q t"
    using rows [of s] rows [of t] by (simp add: findSimilar_def assms(1) rank mat sugg)
  moreover have "length (findSimilar sign eng ctx q s) \<le> 3" by (simp add: findSimilar_def similar_rows_def)
  moreover have "\<forall>i \<in> set (similar_rows eng ?pid q s). i \<in> set (t_issues s) \<and> similar_match eng ?pid q s i"
    by (auto simp: similar_rows_def dest: in_set_takeD)
  then have "\<forall>g \<in> set (findSimilar sign eng ctx q s). \<exists>i \<in> set (t_issues s).
         g = suggestion_of sign ?pid s i \<and> iss_platform i = ?pid \<and> is_open (iss_status i)"
    by (auto simp: findSimilar_def similar_match_def)
  ultimately show ?thesis by blast
qed

text \<open>Another reporter, another reference, another assignee: the same suggestion.\<close>

theorem similar_shows_no_identity_witness:
  "\<exists>s t. t_issues s \<noteq> t_issues t \<and> findSimilar (\<lambda>_. ''t'') plain_search demo_handoff ''broken'' s \<noteq> []
     \<and> findSimilar (\<lambda>_. ''t'') plain_search demo_handoff ''broken'' s = findSimilar (\<lambda>_. ''t'') plain_search demo_handoff ''broken'' t"
proof -
  let ?t = "t_issues_update (map (\<lambda>i. i\<lparr>iss_reporter := ''r9'', iss_reference_no := ''X'', iss_assignee := Some ''dev''\<rparr>)) (noted_db ''a'')"
  have "map public_face (t_issues (noted_db ''a'')) = map public_face (t_issues ?t)"
    by (simp add: noted_db_def public_face_def)
  from similar_shows_no_identity [OF this, of "\<lambda>_. ''t''" plain_search demo_handoff "''broken''"]
  have "findSimilar (\<lambda>_. ''t'') plain_search demo_handoff ''broken'' (noted_db ''a'')
      = findSimilar (\<lambda>_. ''t'') plain_search demo_handoff ''broken'' ?t" by simp
  moreover have "findSimilar (\<lambda>_. ''t'') plain_search demo_handoff ''broken'' (noted_db ''a'') \<noteq> []" by code_simp
  moreover have "t_issues (noted_db ''a'') \<noteq> t_issues ?t" by (simp add: noted_db_def sample_issue_def)
  ultimately show ?thesis by blast
qed

text \<open>
  the vector also covers internal notes, so two databases that
  differ only in the text of an internal note give a reporter different suggestions: a
  reporter can find out, word by word, what staff wrote among themselves about an open issue.
\<close>

theorem internal_notes_steer_similar:
  "t_issues (noted_db ''known breach'') = t_issues (noted_db ''please wait'')
   \<and> visible_comments ''i1'' (noted_db ''known breach'') = visible_comments ''i1'' (noted_db ''please wait'')
   \<and> findSimilar (\<lambda>_. ''t'') plain_search demo_handoff ''breach'' (noted_db ''known breach'') \<noteq> []
   \<and> findSimilar (\<lambda>_. ''t'') plain_search demo_handoff ''breach'' (noted_db ''please wait'') = []"
proof -
  have "t_issues (noted_db ''known breach'') = t_issues (noted_db ''please wait'')" by (simp add: noted_db_def)
  moreover have "visible_comments ''i1'' (noted_db w) = []" for w
    by (simp add: visible_comments_def noted_db_def staff_note_def newest_first_def)
  moreover have "findSimilar (\<lambda>_. ''t'') plain_search demo_handoff ''breach'' (noted_db ''known breach'') \<noteq> []"
    by code_simp
  moreover have "findSimilar (\<lambda>_. ''t'') plain_search demo_handoff ''breach'' (noted_db ''please wait'') = []"
    by code_simp
  ultimately show ?thesis by simp
qed

lemma upsertReporter_row:
  assumes "upsertReporter e ctx s = Inr (r, s1)" and "distinct (map rep_id (t_reporters s))"
  shows "by_key rep_id (rep_id r) (t_reporters s1) = Some r \<and> t_subs s1 = t_subs s"
proof (cases "findReporter ctx s")
  case None
  with assms show ?thesis
    by (auto simp: upsertReporter_def require_Inr_iff Let_def draw_id_def by_key_append by_key_Cons)
next
  case (Some r0)
  then have r0: "r0 \<in> set (t_reporters s)" by (auto simp: findReporter_def dest: find_SomeD)
  show ?thesis
  proof (cases "r0\<lparr>rep_name := ho_name ctx, rep_email := ho_email ctx\<rparr> = r0")
    case True
    with assms Some by_key_member [OF assms(2) r0] show ?thesis by (auto simp: upsertReporter_def Let_def)
  next
    case False
    let ?r = "r0\<lparr>rep_name := ho_name ctx, rep_email := ho_email ctx, rep_last_seen_at := now e\<rparr>"
    from False assms Some have r: "r = ?r" "s1 = t_reporters_update (replace_row rep_id ?r) s"
      by (auto simp: upsertReporter_def Let_def)
    have "rep_id ?r \<in> rep_id ` set (t_reporters s)" using r0 by force
    from by_key_replace_same [OF this] show ?thesis unfolding r by simp
  qed
qed

definition subs_distinct :: "db \<Rightarrow> bool" where
  "subs_distinct s = distinct (map (\<lambda>x. (sub_issue x, sub_reporter x)) (t_subs s))"

lemma one_subscription:
  assumes "subs_distinct s"
  shows "subs_distinct (insert_subscription e iid rid s)
     \<and> length (filter (\<lambda>x. sub_issue x = iid \<and> sub_reporter x = rid) (t_subs (insert_subscription e iid rid s))) = 1"
proof -
  have pairs: "length (filter (\<lambda>x. sub_issue x = iid \<and> sub_reporter x = rid) xs) = 1"
    if "distinct (map (\<lambda>x. (sub_issue x, sub_reporter x)) xs)" "\<exists>x \<in> set xs. sub_issue x = iid \<and> sub_reporter x = rid"
    for xs :: "reporter_subscription list"
    using that by (induction xs) (auto simp: filter_empty_conv image_iff)
  show ?thesis
  proof (cases "list_ex (\<lambda>x. sub_issue x = iid \<and> sub_reporter x = rid) (t_subs s)")
    case True
    with assms pairs [of "t_subs s"] show ?thesis by (simp add: insert_subscription_def subs_distinct_def list_ex_iff)
  next
    case False
    then show ?thesis using assms
      by (force simp: insert_subscription_def subs_distinct_def list_ex_iff draw_id_def filter_empty_conv)
  qed
qed

lemma subscribe_ok:
  assumes "subscribe check e ctx token s = Inr s'"
  obtains c i r s1 where "check token = Some c" "sc_issue_id c = Some (iss_id i)" "sc_platform_id c = Some (ho_platform_id ctx)"
    "find_issue (iss_id i) s = Some i" "iss_platform i = ho_platform_id ctx"
    "upsertReporter e ctx s = Inr (r, s1)" "s' = insert_subscription e (iss_id i) (rep_id r) s1"
proof -
  from assms obtain c iid i r s1 where "check token = Some c" "truthy (sc_issue_id c) = Some iid"
    "sc_platform_id c = Some (ho_platform_id ctx)" "find_issue iid s = Some i" "iss_platform i = ho_platform_id ctx"
    "upsertReporter e ctx s = Inr (r, s1)" "s' = insert_subscription e (iss_id i) (rep_id r) s1"
    by (auto simp: subscribe_def require_Inr_iff bind_res_Inr_iff split: option.splits)
  moreover from this have "iss_id i = iid" by (auto dest: find_issueD)
  moreover have "sc_issue_id c = Some iid" using calculation(2) by (auto simp: truthy_def split: if_splits)
  ultimately show thesis using that by blast
qed

text \<open>
  C37: a token handed out with a suggestion is accepted from reporters of
  the same platform only; following twice leaves one subscription; when the issue is resolved
  the follower is mailed at the address of the hand-off and the subscription is gone, so that
  a later resolution tells nobody again.
\<close>

theorem follower_is_told_once:
  assumes sg: "g \<in> set (findSimilar sign eng ctx q s)" and tok: "\<forall>c. sign c = sg_token g \<longrightarrow> check (sg_token g) = Some c"
    and sub: "subscribe check e ctx' (sg_token g) s = Inr s1"
    and mail: "ho_email ctx' \<noteq> ''''" and plat: "find_platform (ho_platform_id ctx) s = Some p"
    and keys: "distinct (map rep_id (t_reporters s))" "subs_distinct s"
  shows "ho_platform_id ctx' = ho_platform_id ctx
    \<and> (\<exists>i r s2 mails. find_issue (iss_id i) s = Some i \<and> findReporter ctx' s1 = Some r
         \<and> length (filter (\<lambda>x. sub_issue x = iss_id i \<and> sub_reporter x = rep_id r) (t_subs s1)) = 1
         \<and> tell_followers (iss_id i) RESOLVED s1 = (s2, mails)
         \<and> follower_mail p r \<in> set mails \<and> ml_to (follower_mail p r) = ho_email ctx'
         \<and> tell_followers (iss_id i) RESOLVED s2 = (s2, []))"
proof -
  obtain c i r sr where c: "check (sg_token g) = Some c" "sc_issue_id c = Some (iss_id i)"
      "sc_platform_id c = Some (ho_platform_id ctx')"
    and i: "find_issue (iss_id i) s = Some i" "iss_platform i = ho_platform_id ctx'"
    and r: "upsertReporter e ctx' s = Inr (r, sr)" "s1 = insert_subscription e (iss_id i) (rep_id r) sr"
    by (rule subscribe_ok [OF sub])
  from sg obtain j where "g = suggestion_of sign (ho_platform_id ctx) s j"
    by (auto simp: findSimilar_def split: if_splits)
  then have "sg_token g = sign (subscribe_claims_for (iss_id j) (ho_platform_id ctx))"
    by (simp add: suggestion_of_def)
  with tok c have same: "ho_platform_id ctx' = ho_platform_id ctx" by (auto simp: subscribe_claims_for_def)
  note up = upsertReporter_ok [OF r(1)] and row = upsertReporter_row [OF r(1) keys(1)]
  have frame: "t_issues s1 = t_issues s" "t_platforms s1 = t_platforms s" "t_reporters s1 = t_reporters sr"
    using up by (simp_all add: r(2) insert_subscription_def draw_id_def)
  have one: "length (filter (\<lambda>x. sub_issue x = iss_id i \<and> sub_reporter x = rep_id r) (t_subs s1)) = 1"
    using one_subscription [of sr e "iss_id i" "rep_id r"] row keys(2) by (simp add: r(2) subs_distinct_def)
  then obtain x where x: "x \<in> set (t_subs s1)" "sub_issue x = iss_id i" "sub_reporter x = rep_id r"
    by (metis (mono_tags, lifting) filter_empty_conv list.size(3) zero_neq_one)
  have fol: "follower s1 x = Some r"
    using row up mail by (simp add: follower_def frame x(3))
  let ?subs = "filter (\<lambda>x. sub_issue x = iss_id i) (t_subs s1)"
  let ?s2 = "t_subs_update (filter (\<lambda>x. sub_id x \<notin> set (map sub_id ?subs))) s1"
  let ?mails = "map (follower_mail p) (List.map_filter (follower s1) ?subs)"
  have ne: "?subs \<noteq> []" using x by (auto simp: filter_empty_conv)
  have "find_issue (iss_id i) s1 = Some i" "find_platform (iss_platform i) s1 = Some p"
    using i plat same by (simp_all add: find_issue_def find_platform_def frame)
  with ne have tell: "tell_followers (iss_id i) RESOLVED s1 = (?s2, ?mails)" by (simp add: tell_followers_def)
  have "filter (\<lambda>x. sub_issue x = iss_id i) (t_subs ?s2) = []" by (auto simp: filter_empty_conv)
  then have again: "tell_followers (iss_id i) RESOLVED ?s2 = (?s2, [])" by (simp add: tell_followers_def)
  have "r \<in> set (List.map_filter (follower s1) ?subs)"
    using x fol by (auto simp: List.map_filter_def intro!: image_eqI [of _ _ x])
  then have told: "follower_mail p r \<in> set ?mails" by simp
  have "findReporter ctx' s1 = Some r" "ml_to (follower_mail p r) = ho_email ctx'"
    using up by (simp_all add: findReporter_def frame follower_mail_def)
  with same i one tell told again show ?thesis by blast
qed

theorem follower_is_told_once_witness:
  "\<exists>check g s1 (i :: issue) s2 mails. g \<in> set (findSimilar (\<lambda>c. if c = subscribe_claims_for ''i1'' ''p1'' then ''t'' else ''u'') plain_search
        demo_handoff ''broken'' (noted_db ''a''))
     \<and> subscribe check plain_env demo_handoff (sg_token g) (noted_db ''a'') = Inr s1
     \<and> tell_followers (iss_id i) RESOLVED s1 = (s2, mails)
     \<and> ''rae@x.org'' \<in> ml_to ` set mails \<and> tell_followers (iss_id i) RESOLVED s2 = (s2, [])"
proof -
  let ?sign = "\<lambda>c. if c = subscribe_claims_for ''i1'' ''p1'' then ''t'' else ''u''"
  let ?check = "\<lambda>(_ :: string). Some (subscribe_claims_for ''i1'' ''p1'')"
  let ?s = "noted_db ''a''"
  let ?g = "suggestion_of ?sign ''p1'' ?s (sample_issue ''i1'' ''p1'' NEW)"
  have g: "?g \<in> set (findSimilar ?sign plain_search demo_handoff ''broken'' ?s)" by code_simp
  have t: "\<forall>c. ?sign c = sg_token ?g \<longrightarrow> ?check (sg_token ?g) = Some c"
    by (simp add: suggestion_of_def sample_issue_def)
  have "is_ok (subscribe ?check plain_env demo_handoff (sg_token ?g) ?s)" by code_simp
  then obtain s1 where s1: "subscribe ?check plain_env demo_handoff (sg_token ?g) ?s = Inr s1" by (auto simp: is_ok_iff)
  have h: "ho_email demo_handoff \<noteq> ''''" "find_platform (ho_platform_id demo_handoff) ?s = Some (sample_platform ''p1'' ''portal'')"
    "distinct (map rep_id (t_reporters ?s))" "subs_distinct ?s" "ho_email demo_handoff = ''rae@x.org''"
    by code_simp+
  from follower_is_told_once [OF g t s1 h(1,2,3,4)] obtain i :: issue and r :: reporter and s2 mails where
    "tell_followers (iss_id i) RESOLVED s1 = (s2, mails)"
    "follower_mail (sample_platform ''p1'' ''portal'') r \<in> set mails"
    "ml_to (follower_mail (sample_platform ''p1'' ''portal'') r) = ho_email demo_handoff"
    "tell_followers (iss_id i) RESOLVED s2 = (s2, [])" by blast
  note found = this
  have to: "''rae@x.org'' \<in> ml_to ` set mails"
    using imageI [OF found(2), of ml_to] unfolding found(3) h(5) .
  show ?thesis
    by (rule exI [of _ ?check], rule exI [of _ ?g], rule exI [of _ s1], rule exI [of _ i], rule exI [of _ s2], rule exI [of _ mails])
      (intro conjI g s1 found(1) to found(4))
qed

text \<open>
  as long as publishing goes through this service, the public list
  of an active platform holds at most ten entries, each the title staff wrote for an issue of
  that platform they published (never the description, and never the fallback), and an
  unknown or inactive platform has no list.
\<close>

definition titled :: "db \<Rightarrow> bool" where
  "titled s = (\<forall>i \<in> set (t_issues s). iss_publicly_visible i \<longrightarrow> truthy (iss_public_title i) \<noteq> None)"

lemma publish_keeps_titled:
  assumes "titled s" and "publish_issue e st iid dto s = Inr s'"
  shows "titled s'"
proof -
  from assms(2) obtain i s1 where i: "find_issue iid s = Some i"
    and g: "\<not> (pb_visible dto \<and> truthy (map_option js_trim (pb_title dto)) = None \<and> truthy (iss_public_title i) = None)"
    and s1: "save_issue e (set_published dto i) s = Inr s1" and s': "t_issues s' = t_issues s1"
    by (auto simp: publish_issue_def require_Inr_iff bind_res_Inr_iff audit_record_def draw_id_def split: option.splits)
  let ?j = "set_published dto i"
  have j: "iss_publicly_visible ?j \<longrightarrow> truthy (iss_public_title ?j) \<noteq> None"
    using g by (auto simp: set_published_def truthy_def Let_def split: option.splits if_splits)
  have "iss_publicly_visible x \<longrightarrow> truthy (iss_public_title x) \<noteq> None" if "x \<in> set (t_issues s1)" for x
    using that s1 assms(1) j
    by (auto simp: save_issue_def titled_def split: option.splits if_splits dest!: in_replace_rowD)
  with s' show ?thesis by (simp add: titled_def)
qed

theorem known_issues_are_curated:
  assumes "titled s" and "fold (\<lambda>(e, st, iid, dto) s. case publish_request e st iid dto s of Inl _ \<Rightarrow> s | Inr s' \<Rightarrow> s') requests s = s'"
  shows "(case publicKnownIssues key s' of
      Inl err \<Rightarrow> err = NotFound ''Unknown platform''
        \<and> (\<forall>p. find_platform_by_key key s' = Some p \<longrightarrow> plat_status p \<noteq> PLATFORM_ACTIVE)
    | Inr ks \<Rightarrow> length ks \<le> 10 \<and> (\<exists>p. find_platform_by_key key s' = Some p \<and> plat_status p = PLATFORM_ACTIVE
        \<and> (\<forall>k \<in> set ks. \<exists>i \<in> set (t_issues s'). iss_platform i = plat_id p \<and> iss_publicly_visible i
             \<and> iss_public_title i = Some (ki_title k) \<and> ki_title k \<noteq> '''' \<and> ki_status k = iss_status i)))"
proof -
  have "titled (fold (\<lambda>(e, st, iid, dto) s. case publish_request e st iid dto s of Inl _ \<Rightarrow> s | Inr s' \<Rightarrow> s') rs s)"
    if "titled s" for rs s
    using that
  proof (induction rs arbitrary: s)
    case (Cons r rs)
    obtain e st iid dto where r: "r = (e, st, iid, dto)" by (cases r) auto
    have "titled (case publish_request e st iid dto s of Inl _ \<Rightarrow> s | Inr s' \<Rightarrow> s')"
      using Cons.prems publish_keeps_titled by (auto simp: publish_request_def bind_res_Inr_iff split: sum.split)
    from Cons.IH [OF this] show ?case by (simp add: r)
  qed simp
  with assms have t: "titled s'" by blast
  show ?thesis
  proof (cases "find_platform_by_key key s'")
    case None
    then show ?thesis by (simp add: publicKnownIssues_def)
  next
    case (Some p)
    show ?thesis
    proof (cases "plat_status p = PLATFORM_ACTIVE")
      case False
      with Some show ?thesis by (simp add: publicKnownIssues_def require_def)
    next
      case True
      let ?pub = "filter (\<lambda>i. iss_platform i = plat_id p \<and> iss_publicly_visible i) (t_issues s')"
      have sub: "set (take 10 (newest_first iss_updated_at ?pub)) \<subseteq> set ?pub"
        using set_take_subset by (fastforce simp: newest_first_def)
      have "\<exists>k. iss_public_title i = Some k \<and> k \<noteq> ''''" if "i \<in> set ?pub" for i
        using t that by (auto simp: titled_def truthy_def split: if_splits)
      with sub Some True show ?thesis
        by (fastforce simp: publicKnownIssues_def require_def)
    qed
  qed
qed

definition board_issue :: ident where
  "board_issue = ''00000000-0000-0000-0000-000000000001''"

definition board_db :: db where
  "board_db = empty_db\<lparr>t_platforms := [sample_platform ''p1'' ''portal''], t_issues := [sample_issue board_issue ''p1'' NEW]\<rparr>"

theorem known_issues_are_curated_witness:
  "\<exists>ks k. publicKnownIssues ''portal'' (fold (\<lambda>(e, st, iid, dto) s. case publish_request e st iid dto s of Inl _ \<Rightarrow> s | Inr s' \<Rightarrow> s')
       [(plain_env, dev_staff, board_issue, \<lparr>pb_visible = True, pb_title = Some '' Slow search ''\<rparr>)] board_db) = Inr ks
     \<and> k \<in> set ks \<and> ki_title k = ''Slow search'' \<and> length ks \<le> 10"
proof -
  let ?s = "fold (\<lambda>(e, st, iid, dto) s. case publish_request e st iid dto s of Inl _ \<Rightarrow> s | Inr s' \<Rightarrow> s')
       [(plain_env, dev_staff, board_issue, \<lparr>pb_visible = True, pb_title = Some '' Slow search ''\<rparr>)] board_db"
  have titled: "titled board_db" by (simp add: titled_def board_db_def sample_issue_def)
  have "(case publicKnownIssues ''portal'' ?s of Inl _ \<Rightarrow> False | Inr ks \<Rightarrow> map ki_title ks = [''Slow search''])"
    by code_simp
  then obtain ks where ks: "publicKnownIssues ''portal'' ?s = Inr ks" "map ki_title ks = [''Slow search'']"
    by (cases "publicKnownIssues ''portal'' ?s") auto
  from known_issues_are_curated [OF titled refl, of "''portal''"
      "[(plain_env, dev_staff, board_issue, \<lparr>pb_visible = True, pb_title = Some '' Slow search ''\<rparr>)]"] ks(1)
  have "length ks \<le> 10" by simp
  moreover from ks(2) obtain k where "k \<in> set ks" "ki_title k = ''Slow search''" by (cases ks) auto
  ultimately show ?thesis using ks(1) by blast
qed

end
