(* ===== verification/Lifecycle.thy ===== *)
theory Lifecycle
  imports Merge Automation JiraInbound Csat Accounts Deflection
begin

text \<open>
  Every writer of the issues table at once: staff handlers, the bulk update, merge, the engine of
  the rules, Jira in both directions, comments, the SLA sweep, the fan-out to duplicates, the
  portal, publishing as a known issue and the removal of an account, as one step relation. What
  holds of the rows whatever the order in which these run is proved here.
\<close>

section \<open>How a writer may change the rows\<close>

definition row_moves :: "issue \<Rightarrow> issue \<Rightarrow> bool" where
  "row_moves i j =
     (iss_id j = iss_id i \<and> iss_platform j = iss_platform i \<and> iss_reporter j = iss_reporter i
    \<and> iss_reference_no j = iss_reference_no i \<and> iss_version i \<le> iss_version j
    \<and> (lifecycle_ok i \<longrightarrow> lifecycle_ok j)
    \<and> (iss_duplicate_of j = iss_duplicate_of i \<or> iss_duplicate_of j = None))"

definition rows_move :: "db \<Rightarrow> db \<Rightarrow> bool" where
  "rows_move s t = list_all2 row_moves (t_issues s) (t_issues t)"

lemma row_moves_refl [simp]: "row_moves i i"
  by (simp add: row_moves_def)

lemma row_moves_trans: "row_moves i j \<Longrightarrow> row_moves j k \<Longrightarrow> row_moves i k"
  by (auto simp: row_moves_def)

lemma rows_move_refl [simp]: "rows_move s s"
  by (simp add: rows_move_def list.rel_refl)

lemma rows_move_trans: "rows_move s t \<Longrightarrow> rows_move t u \<Longrightarrow> rows_move s u"
  unfolding rows_move_def by (rule list_all2_trans [OF row_moves_trans])

lemma rows_move_same: "t_issues t = t_issues s \<Longrightarrow> rows_move s t"
  by (simp add: rows_move_def list.rel_refl)

lemma rows_move_map:
  assumes "t_issues t = map f (t_issues s)" and "\<And>i. row_moves i (f i)"
  shows "rows_move s t"
  unfolding rows_move_def assms(1) by (simp add: list_all2_conv_all_nth assms(2))

lemma rows_move_put:
  assumes "distinct (map iss_id (t_issues s))" and "find_issue (iss_id old) s = Some old"
    and "row_moves old new" and "t_issues t = replace_row iss_id new (t_issues s)"
  shows "rows_move s t"
proof -
  let ?f = "\<lambda>i. if iss_id i = iss_id new then new else i"
  have "row_moves i (?f i)" if "i \<in> set (t_issues s)" for i
  proof (cases "iss_id i = iss_id new")
    case True
    then have "iss_id i = iss_id old" using assms(3) by (simp add: row_moves_def)
    then have "i = old" using find_issue_member [OF assms(1) that] assms(2) by (metis option.inject)
    with True assms(3) show ?thesis by simp
  qed simp
  then have "list_all2 row_moves (t_issues s) (map ?f (t_issues s))"
    unfolding list.rel_map(2) by (rule list.rel_refl_strong)
  then show ?thesis by (simp only: rows_move_def assms(4) replace_row_def)
qed

lemma rows_move_keys: "rows_move s t \<Longrightarrow> map iss_id (t_issues t) = map iss_id (t_issues s)"
  unfolding rows_move_def by (induction rule: list_all2_induct) (auto simp: row_moves_def)

lemma rows_moveD: "rows_move s t \<Longrightarrow> i \<in> set (t_issues s) \<Longrightarrow> \<exists>j \<in> set (t_issues t). row_moves i j"
  unfolding rows_move_def by (metis list_all2_conv_all_nth in_set_conv_nth)

lemma rows_move_backD: "rows_move s t \<Longrightarrow> j \<in> set (t_issues t) \<Longrightarrow> \<exists>i \<in> set (t_issues s). row_moves i j"
  unfolding rows_move_def by (metis list_all2_conv_all_nth in_set_conv_nth)

lemma rows_move_fold:
  "(\<And>x s. rows_move s (f x s)) \<Longrightarrow> rows_move s (fold f xs s)"
  by (rule fold_relation [of rows_move]) (auto intro: rows_move_trans)

section \<open>Each writer moves the rows\<close>

lemma wrote_moves:
  assumes "distinct (map iss_id (t_issues s))" and "find_issue (iss_id old) s = Some old"
    and "wrote e old new ev s t" and "row_moves old (saved_row e new)"
  shows "rows_move s t"
proof (cases "same_columns new old")
  case True
  with assms(3) show ?thesis by (intro rows_move_same) (simp add: wrote_def)
next
  case False
  with assms(3) have "t_issues t = replace_row iss_id (saved_row e new) (t_issues s)" by (simp add: wrote_def)
  then show ?thesis by (rule rows_move_put [OF assms(1,2,4)])
qed

lemma side_effects_more [simp]:
  "iss_reference_no (applyStatusSideEffects t to i) = iss_reference_no i"
  "iss_duplicate_of (applyStatusSideEffects t to i) = iss_duplicate_of i \<or> iss_duplicate_of (applyStatusSideEffects t to i) = None"
  by (simp_all add: applyStatusSideEffects_def)

lemma lifecycle_saved [simp]: "lifecycle_ok (saved_row e i) = lifecycle_ok i"
  by (simp add: lifecycle_ok_def)

lemma saved_reference [simp]: "iss_reference_no (saved_row e i) = iss_reference_no i"
  by (simp add: saved_row_def)

lemma status_row_moves:
  assumes "lifecycle_ok i \<Longrightarrow> lifecycle_ok (applyStatusSideEffects t to (i\<lparr>iss_status := to\<rparr>))"
  shows "row_moves i (saved_row e (applyStatusSideEffects t to (i\<lparr>iss_status := to\<rparr>)))"
  using assms side_effects_more(2) [of t to "i\<lparr>iss_status := to\<rparr>"] by (simp add: row_moves_def)

lemma applyStatus_moves:
  assumes "distinct (map iss_id (t_issues s))" and "find_issue (iss_id i) s = Some i"
    and "applyStatus e st i to v s = Inr t"
  shows "rows_move s t"
  using applyStatus_wrote [OF assms(2,3)] wrote_moves [OF assms(1,2)] status_row_moves transition_ok by blast

lemma other_row_moves:
  "row_moves i (saved_row e (i\<lparr>iss_priority := p\<rparr>))" "row_moves i (saved_row e (i\<lparr>iss_assignee := a\<rparr>))"
  by (simp_all add: row_moves_def lifecycle_ok_def)

lemma applyPriority_moves:
  assumes "distinct (map iss_id (t_issues s))" and "find_issue (iss_id i) s = Some i"
    and "applyPriority e st i p v s = Inr t"
  shows "rows_move s t"
  using applyPriority_wrote [OF assms(2,3)] wrote_moves [OF assms(1,2)] other_row_moves by blast

lemma applyAssignment_moves:
  assumes "distinct (map iss_id (t_issues s))" and "find_issue (iss_id i) s = Some i"
    and "applyAssignment e st i a v s = Inr t"
  shows "rows_move s t"
  using applyAssignment_wrote [OF assms(2,3)] wrote_moves [OF assms(1,2)] other_row_moves by blast

lemmas apply_moves = applyStatus_moves applyPriority_moves applyAssignment_moves

lemma handlers_move:
  assumes "distinct (map iss_id (t_issues s))"
  shows "changeStatus e st iid to v s = Inr t \<Longrightarrow> rows_move s t"
    and "changePriority e st iid p v s = Inr t \<Longrightarrow> rows_move s t"
    and "changeAssignment e st iid a v s = Inr t \<Longrightarrow> rows_move s t"
  by (auto simp: changeStatus_def changePriority_def changeAssignment_def bind_res_Inr_iff loadForWrite_Inr_iff
      dest!: find_issueD intro: apply_moves [OF assms(1)] find_issue_member [OF assms(1)])

lemma bulk_one_moves:
  assumes "distinct (map iss_id (t_issues s))" and "bulk_one e st dto iid s = Inr t"
  shows "rows_move s t"
proof -
  from assms(2) obtain i where "find_issue iid s = Some i" "bulk_apply e st dto i s = Inr t"
    by (auto simp: bulk_one_def loadForWrite_def split: option.splits if_splits sum.splits)
  moreover from this have "find_issue (iss_id i) s = Some i" by (auto dest: find_issueD)
  ultimately show ?thesis
    using apply_moves [OF assms(1)] unfolding bulk_apply_def by (cases "blk_op dto") auto
qed

lemma bulk_loop_moves:
  "bulk_loop e st dto ids (n, sk, s) = (m, sk', t) \<Longrightarrow> distinct (map iss_id (t_issues s)) \<Longrightarrow> rows_move s t"
proof (induction ids arbitrary: n sk s)
  case (Cons iid ids)
  show ?case
  proof (cases "bulk_one e st dto iid s")
    case (Inl r)
    with Cons.prems Cons.IH [of n "sk @ [(iid, r)]" s] show ?thesis by simp
  next
    case (Inr s1)
    note mv = bulk_one_moves [OF Cons.prems(2) Inr]
    have "distinct (map iss_id (t_issues s1))" using Cons.prems(2) rows_move_keys [OF mv] by simp
    with Cons.prems Inr Cons.IH [of "Suc n" sk s1] have "rows_move s1 t" by simp
    then show ?thesis by (rule rows_move_trans [OF mv])
  qed
qed simp

lemma bulk_moves:
  assumes "distinct (map iss_id (t_issues s))" and "bulkUpdate e st dto s = Inr (n, sk, t)"
  shows "rows_move s t"
  using assms bulk_loop_moves [of e st dto "blk_ids dto" 0 "[]" s n sk t]
  by (auto simp: bulkUpdate_def bind_res_Inr_iff split: if_splits)

lemma inbound_moves:
  assumes "distinct (map iss_id (t_issues s))" and "applyWebhook e p s = Inr (b, t)"
  shows "rows_move s t"
  using assms(2)
proof (cases rule: applyWebhook_cases)
  case (2 i k to cat)
  let ?new = "applyStatusSideEffects (now e) to (i\<lparr>iss_status := to\<rparr>)"
  have f: "find_issue (iss_id i) s = Some i" by (rule find_issue_member [OF assms(1) 2(3)])
  from 2(8) obtain s1 where s1: "save_issue e ?new s = Inr s1" "t_issues t = t_issues s1"
    by (auto simp: apply_inbound_def bind_res_Inr_iff)
  have ok: "lifecycle_ok i \<Longrightarrow> lifecycle_ok ?new" by (intro inbound_lifecycle resolveTarget_ok [OF 2(6) refl])
  from s1(1) f have "s1 = (if same_columns ?new i then s else put_issue (saved_row e ?new) s)"
    by (simp add: save_issue_loaded)
  then show ?thesis
    using s1(2) rows_move_put [OF assms(1) f status_row_moves [OF ok], of t]
    by (cases "same_columns ?new i") (auto intro: rows_move_same)
qed simp

lemma auto_moves:
  assumes "distinct (map iss_id (t_issues s))"
  shows "rows_move s (applyForCreated e iid p s)" "rows_move s (applyForStatusChanged e iid p to s)"
proof -
  have "row_moves i j" if "auto_row s iid i j" for i j
  proof (cases "j = i")
    case False
    with that have c: "core_columns j = core_columns i" "iss_version i \<le> iss_version j" by (auto simp: auto_row_def)
    from arg_cong [OF c(1), of iss_reporter] have "iss_reporter j = iss_reporter i" by (simp add: core_columns_def)
    moreover from arg_cong [OF c(1), of iss_reference_no] have "iss_reference_no j = iss_reference_no i"
      by (simp add: core_columns_def)
    ultimately show ?thesis using c(2) core_columnsD [OF c(1)] by (simp add: row_moves_def lifecycle_ok_def)
  qed simp
  then have mv: "auto_frame iid s t \<Longrightarrow> rows_move s t" for t
    by (auto simp: auto_frame_def rows_move_def elim: list_all2_mono)
  show "rows_move s (applyForCreated e iid p s)" by (rule mv [OF applyForCreated_frame [OF assms]])
  show "rows_move s (applyForStatusChanged e iid p to s)" by (rule mv [OF applyForStatusChanged_frame [OF assms]])
qed

lemma touch_moves: "rows_move s (touch_issue e iid s)"
  by (rule rows_move_map [where f = "\<lambda>i. if iss_id i = iid
        then i\<lparr>iss_updated_at := now e, iss_version := iss_version i + 1\<rparr> else i"])
    (simp_all add: touch_issue_def qb_update_def row_moves_def lifecycle_ok_def)

lemma rows_move_via: "rows_move s t \<Longrightarrow> t_issues t2 = t_issues t \<Longrightarrow> rows_move s t2"
  by (simp add: rows_move_def)

lemma comments_move:
  "addComment e st iid dto s = Inr (v, t) \<Longrightarrow> rows_move s t"
  "editComment e st cid body s = Inr (v2, t) \<Longrightarrow> rows_move s t"
  "reporterComment e ctx iid body s = Inr t \<Longrightarrow> rows_move s t"
proof -
  assume "addComment e st iid dto s = Inr (v, t)"
  then have t: "t_issues t = t_issues (comment_rows e st iid dto s)"
    by (auto simp: addComment_def Let_def bind_res_Inr_iff require_Inr_iff split: option.splits)
  let ?s1 = "add_comment e iid (Some (st_id st)) ACTOR_STAFF None (cd_body dto) (cd_visibility dto) s"
  have "rows_move s (touch_issue e iid ?s1)"
    by (rule rows_move_trans [OF rows_move_same touch_moves]) simp
  then show "rows_move s t"
    using t by (cases "cd_visibility dto = REPORTER_VISIBLE") (auto simp: comment_rows_def Let_def rows_move_def
        list.rel_refl)
next
  assume "editComment e st cid body s = Inr (v2, t)"
  then show "rows_move s t"
    by (intro rows_move_same) (auto simp: editComment_def Let_def bind_res_Inr_iff require_Inr_iff split: option.splits)
next
  assume "reporterComment e ctx iid body s = Inr t"
  then obtain s1 where "t_issues s1 = t_issues s" "t_issues t = t_issues (touch_issue e iid s1)"
    by (auto simp: reporterComment_def Let_def bind_res_Inr_iff require_Inr_iff touch_issue_def qb_update_def draw_id_def
        split: option.splits)
  then show "rows_move s t"
    by (intro rows_move_via [OF rows_move_trans [OF rows_move_same touch_moves]])
qed

lemma sweep_moves:
  assumes "sweep e pg s = (r, t)"
  shows "rows_move s t"
proof -
  have mk: "row_moves i (mark_breached e ids i)" for i ids
    by (simp add: mark_breached_def row_moves_def lifecycle_ok_def)
  have one: "rows_move u (snd (escalate_row e row (n, u)))" for row n u
  proof (cases row)
    case (Pair iid pid)
    show ?thesis
      by (auto simp: Pair escalate_row_def intro: rows_move_map [OF _ mk])
  qed
  have "rows_move u (snd (fold (escalate_row e) rows (n, u)))" for rows n u
  proof (induction rows arbitrary: n u)
    case (Cons row rows)
    obtain m w where mw: "escalate_row e row (n, u) = (m, w)" by (cases "escalate_row e row (n, u)")
    with one [of u row n] have "rows_move u w" by simp
    moreover have "rows_move w (snd (fold (escalate_row e) rows (m, w)))" by (rule Cons.IH)
    ultimately show ?case by (auto simp: mw intro: rows_move_trans)
  qed simp
  from this [of s _ 0] assms show ?thesis
    by (auto simp: sweep_def split: sum.splits bool.splits option.splits prod.splits)
      (metis snd_conv)+
qed

lemma fan_out_moves: "rows_move s (onCanonicalStatusChanged e iid to s)"
proof -
  have "rows_move s (notify_duplicate e d s)" for d s
    unfolding notify_duplicate_def by (rule rows_move_trans [OF rows_move_same touch_moves]) simp
  then show ?thesis by (simp add: onCanonicalStatusChanged_def rows_move_fold)
qed

section \<open>The step relation\<close>

lemma publish_moves:
  assumes d: "distinct (map iss_id (t_issues s))" and p: "publish_request e st iid dto s = Inr t"
  shows "rows_move s t"
proof -
  from p obtain i s1 where i: "find_issue iid s = Some i" and save: "save_issue e (set_published dto i) s = Inr s1"
    and t: "t_issues t = t_issues s1"
    by (auto simp: publish_request_def publish_issue_def require_Inr_iff bind_res_Inr_iff split: option.splits)
  have f: "find_issue (iss_id i) s = Some i" using i find_issueD [OF i] by simp
  let ?new = "(set_published dto i)\<lparr>iss_version := iss_version i + 1, iss_updated_at := now e\<rparr>"
  have id: "iss_id (set_published dto i) = iss_id i" and moves: "row_moves i ?new"
    by (simp_all add: set_published_def Let_def row_moves_def lifecycle_ok_def split: option.split)
  from save consider "t_issues s1 = t_issues s" | "t_issues s1 = replace_row iss_id ?new (t_issues s)"
    by (auto simp: save_issue_def id f split: if_splits)
  then show ?thesis
  proof cases
    case 1
    then show ?thesis by (intro rows_move_same) (simp add: t)
  next
    case 2
    then show ?thesis by (intro rows_move_put [OF d f moves]) (simp add: t)
  qed
qed

lemma delete_moves:
  assumes "deleteStaff e admin uid s = Inr t"
  shows "rows_move s t"
proof (rule rows_move_map [where f = "\<lambda>i. if iss_assignee i = Some uid then i\<lparr>iss_assignee := None\<rparr> else i"])
  show "t_issues t = map (\<lambda>i. if iss_assignee i = Some uid then i\<lparr>iss_assignee := None\<rparr> else i) (t_issues s)"
    using assms by (auto simp: deleteStaff_def require_Inr_iff bind_res_Inr_iff cascade_staff_def audit_admin_def
        audit_record_def draw_id_def Let_def split: option.splits prod.splits)
qed (simp add: row_moves_def lifecycle_ok_def)

lemma ticket_moves: "rows_move s (qb_update e iid (\<lambda>i. i\<lparr>iss_jira_issue_key := k i, iss_jira_sync_status := y\<rparr>) s)"
  by (rule rows_move_map [where f = "\<lambda>i. if iss_id i = iid
        then i\<lparr>iss_jira_issue_key := k i, iss_jira_sync_status := y, iss_updated_at := now e, iss_version := iss_version i + 1\<rparr>
        else i"])
    (simp_all add: qb_update_def row_moves_def lifecycle_ok_def)

text \<open>
  One writer at a time. \<^verbatim>\<open>ticket\<close> is a single row update of the listener that opens a ticket
  (\<^verbatim>\<open>JiraOutbound\<close>): its claim, which keeps the key, or the outcome it writes after the call.
\<close>

inductive issue_step :: "db \<Rightarrow> db \<Rightarrow> bool" where
  status: "changeStatus e st iid to v s = Inr t \<Longrightarrow> issue_step s t"
| prio: "changePriority e st iid p v s = Inr t \<Longrightarrow> issue_step s t"
| assign: "changeAssignment e st iid a v s = Inr t \<Longrightarrow> issue_step s t"
| bulk: "bulkUpdate e st dto s = Inr (n, sk, t) \<Longrightarrow> issue_step s t"
| merging: "merge e st iid cid v s = Inr (c, t) \<Longrightarrow> issue_step s t"
| fan_out: "issue_step s (onCanonicalStatusChanged e iid to s)"
| rules_created: "issue_step s (applyForCreated e iid p s)"
| rules_status: "issue_step s (applyForStatusChanged e iid p to s)"
| jira: "webhook sha256 e secret tok payload s = Inr (b, t) \<Longrightarrow> issue_step s t"
| staff_comment: "addComment e st iid cdto s = Inr (cv, t) \<Longrightarrow> issue_step s t"
| comment_edit: "editComment e st cid body s = Inr (cv, t) \<Longrightarrow> issue_step s t"
| portal_comment: "reporterComment e ctx iid body s = Inr t \<Longrightarrow> issue_step s t"
| rating: "submit e ctx iid sdto s = Inr (rv, t) \<Longrightarrow> issue_step s t"
| publishing: "publish_request e st iid pdto s = Inr t \<Longrightarrow> issue_step s t"
| account_removed: "deleteStaff e admin uid s = Inr t \<Longrightarrow> issue_step s t"
| ticket: "issue_step s (qb_update e iid (\<lambda>i. i\<lparr>iss_jira_issue_key := k i, iss_jira_sync_status := y\<rparr>) s)"
| sla: "sweep e pg s = (swept, t) \<Longrightarrow> issue_step s t"
| intake: "createIssue e sanitize put del ctx d c files s blobs = (res, t, blobs') \<Longrightarrow> issue_step s t"

section \<open>The invariant\<close>

text \<open>
  The ids are unique, every row is consistent, and the pointers from duplicates to canonical
  issues never form a cycle, so following them ends.
\<close>

definition duplicate_edges :: "db \<Rightarrow> (ident \<times> ident) set" where
  "duplicate_edges s = {(iss_id i, c) | i c. i \<in> set (t_issues s) \<and> iss_duplicate_of i = Some c}"

definition issues_inv :: "db \<Rightarrow> bool" where
  "issues_inv s =
     (distinct (map iss_id (t_issues s)) \<and> list_all lifecycle_ok (t_issues s) \<and> acyclic (duplicate_edges s))"

lemma rows_move_edges: "rows_move s t \<Longrightarrow> duplicate_edges t \<subseteq> duplicate_edges s"
  using rows_move_backD by (fastforce simp: duplicate_edges_def row_moves_def)

lemma rows_move_inv:
  assumes "issues_inv s" and "rows_move s t"
  shows "issues_inv t"
  unfolding issues_inv_def
proof (intro conjI)
  show "distinct (map iss_id (t_issues t))" using assms rows_move_keys by (simp add: issues_inv_def)
  show "list_all lifecycle_ok (t_issues t)"
    using assms(1) rows_move_backD [OF assms(2)] by (fastforce simp: issues_inv_def list_all_iff row_moves_def)
  show "acyclic (duplicate_edges t)"
    using assms rows_move_edges by (auto simp: issues_inv_def intro: acyclic_subset)
qed

text \<open>A merge adds one edge, to an issue that has none of its own.\<close>

lemma merge_inv:
  assumes inv: "issues_inv s" and m: "merge e st iid cid v s = Inr (c, t)"
  shows "issues_inv t"
  using m
proof (cases rule: merge_cases)
  case (1 dup can)
  let ?new = "saved_row e (closed_duplicate e dup c)"
  have t: "t_issues t = replace_row iss_id ?new (t_issues s)" by (simp add: 1(11))
  have d: "distinct (map iss_id (t_issues s))" using inv by (simp add: issues_inv_def)
  have row: "j = ?new \<or> j \<in> set (t_issues s)" if "j \<in> set (t_issues t)" for j
    using that by (auto simp: t replace_row_def)
  have dead: "(c, x) \<notin> duplicate_edges s" for x
  proof
    assume "(c, x) \<in> duplicate_edges s"
    then obtain i where "i \<in> set (t_issues s)" "iss_id i = c" "iss_duplicate_of i = Some x"
      by (auto simp: duplicate_edges_def)
    with find_issue_member [OF d] 1(2,9) show False by fastforce
  qed
  have "(c, iid) \<notin> (duplicate_edges s)\<^sup>*"
    using dead 1(5) by (auto elim: converse_rtranclE)
  then have "acyclic (insert (iid, c) (duplicate_edges s))"
    using inv by (simp add: issues_inv_def acyclic_insert)
  moreover have "duplicate_edges t \<subseteq> insert (iid, c) (duplicate_edges s)"
    using row 1(3) by (fastforce simp: duplicate_edges_def)
  ultimately have "acyclic (duplicate_edges t)" by (rule acyclic_subset)
  moreover have "lifecycle_ok ?new" by (simp add: lifecycle_ok_def closed_duplicate_def split: option.splits)
  ultimately show ?thesis
    using inv row unfolding issues_inv_def list_all_iff by (metis keys_replace_row t lifecycle_saved)
qed

lemma new_issue_simps [simp]:
  "iss_id (new_issue e ctx d c r ref iid) = iid" "iss_duplicate_of (new_issue e ctx d c r ref iid) = None"
  "lifecycle_ok (new_issue e ctx d c r ref iid)"
  by (simp_all add: new_issue_def lifecycle_ok_def)

lemma intake_rows:
  assumes "createIssue e sanitize put del ctx d c files s blobs = (res, t, blobs')"
  obtains "t_issues t = t_issues s"
  | r ref iid where "t_issues t = t_issues s @ [new_issue e ctx d (sanitize c) r ref iid]" "find_issue iid s = None"
  using assms
proof (cases rule: createIssue_cases)
  case (3 types r s1 m iid s2)
  have "t_issues s1 = t_issues s" using upsertReporter_ok [OF 3(2)] by simp
  with persistIssue_ok [OF 3(3)] obtain ref where
    "t_issues s2 = t_issues s @ [new_issue e ctx d (sanitize c) (rep_id r) ref iid]" "find_issue iid s = None"
    by (auto simp: find_issue_def)
  with 3(4) show thesis by (intro that(2)) auto
qed (use that(1) in blast)+

lemma intake_inv:
  assumes "issues_inv s" and "createIssue e sanitize put del ctx d c files s blobs = (res, t, blobs')"
  shows "issues_inv t"
  using assms(2)
proof (cases rule: intake_rows)
  case 1
  show ?thesis by (rule rows_move_inv [OF assms(1) rows_move_same [OF 1]])
next
  case (2 r ref iid)
  have "iid \<notin> iss_id ` set (t_issues s)"
    using 2(2) by (auto simp: find_issue_def by_key_None_iff)
  moreover have "duplicate_edges t = duplicate_edges s" by (auto simp: duplicate_edges_def 2(1))
  ultimately show ?thesis using assms(1) by (simp add: issues_inv_def 2(1))
qed

lemma submit_issues: "submit e ctx iid dto s = Inr (v, t) \<Longrightarrow> t_issues t = t_issues s"
  by (auto simp: submit_def require_Inr_iff Let_def save_response_def emit_def add_comment_def draw_id_def
      split: option.splits if_splits)

lemma webhook_moves:
  assumes "distinct (map iss_id (t_issues s))" and "webhook sha256 e secret tok payload s = Inr (b, t)"
  shows "rows_move s t"
  using assms(2) inbound_moves [OF assms(1)] by (auto simp: webhook_def require_Inr_iff split: option.splits)

lemma submit_moves: "submit e ctx iid dto s = Inr (v, t) \<Longrightarrow> rows_move s t"
  by (rule rows_move_same [OF submit_issues])

lemma step_kinds:
  assumes "issue_step s t" and d: "distinct (map iss_id (t_issues s))"
  shows "rows_move s t \<or> (\<exists>e st iid cid v c. merge e st iid cid v s = Inr (c, t))
     \<or> (\<exists>e sanitize put del ctx d c files blobs res blobs'.
          createIssue e sanitize put del ctx d c files s blobs = (res, t, blobs'))"
  using assms(1)
proof cases
  case (merging e st iid cid v c)
  then show ?thesis by blast
next
  case (intake e sanitize put del ctx d' c files blobs res blobs')
  then show ?thesis by blast
qed (simp_all add: handlers_move [OF d] bulk_moves [OF d] fan_out_moves auto_moves [OF d] comments_move sweep_moves webhook_moves [OF d]
    submit_moves publish_moves [OF d] delete_moves ticket_moves)

lemma step_moves:
  assumes "issue_step s t" and "distinct (map iss_id (t_issues s))"
  obtains "rows_move s t"
  | e st iid cid v c where "merge e st iid cid v s = Inr (c, t)"
  | e sanitize put del ctx d c files blobs res blobs'
      where "createIssue e sanitize put del ctx d c files s blobs = (res, t, blobs')"
  using step_kinds [OF assms] by blast

lemma issues_inv_keys: "issues_inv s \<Longrightarrow> distinct (map iss_id (t_issues s))"
  by (simp add: issues_inv_def)

lemma step_inv_holds: "issues_inv s \<Longrightarrow> issue_step s t \<Longrightarrow> issues_inv t"
  by (erule step_moves) (auto intro: rows_move_inv merge_inv intake_inv issues_inv_keys)

interpretation issue_ts: transition_system issue_step issues_inv
  by unfold_locales (rule step_inv_holds)

section \<open>What no writer ever changes\<close>

definition same_issue :: "issue \<Rightarrow> issue \<Rightarrow> bool" where
  "same_issue i j =
     (iss_id j = iss_id i \<and> iss_platform j = iss_platform i \<and> iss_reporter j = iss_reporter i
    \<and> iss_reference_no j = iss_reference_no i \<and> iss_version i \<le> iss_version j)"

lemma same_issue_trans: "same_issue i j \<Longrightarrow> same_issue j k \<Longrightarrow> same_issue i k"
  by (auto simp: same_issue_def)

lemma step_keeps_issue:
  assumes "issues_inv s" and "issue_step s t" and "i \<in> set (t_issues s)"
  shows "\<exists>j \<in> set (t_issues t). same_issue i j"
proof (cases rule: step_moves [OF assms(2) issues_inv_keys [OF assms(1)]])
  case 1
  from rows_moveD [OF this assms(3)] have "\<exists>j \<in> set (t_issues t). row_moves i j" .
  then show ?thesis by (auto simp: row_moves_def same_issue_def)
next
  case (2 e st iid cid v c)
  from merge_issues [OF this] obtain dup where dup: "find_issue iid s = Some dup"
    and t: "t_issues t = replace_row iss_id (saved_row e (closed_duplicate e dup c)) (t_issues s)" by blast
  have "i = dup" if "iss_id i = iss_id dup"
    using that dup assms(1,3) find_issue_member [of s i] find_issueD [OF dup] by (simp add: issues_inv_def)
  let ?new = "saved_row e (closed_duplicate e dup c)"
  let ?j = "if iss_id i = iss_id ?new then ?new else i"
  have "same_issue dup ?new" by (simp add: same_issue_def closed_duplicate_def)
  then have "same_issue i ?j" using \<open>iss_id i = iss_id dup \<Longrightarrow> i = dup\<close> by (auto simp: same_issue_def)
  moreover have "?j \<in> set (t_issues t)" unfolding t replace_row_def using assms(3) by auto
  ultimately show ?thesis by blast
next
  case (3 e sanitize put del ctx d c files blobs res blobs')
  then show ?thesis
    by (cases rule: intake_rows) (use assms(3) in \<open>auto simp: same_issue_def\<close>)
qed

text \<open>
  C11: In whatever order staff, the bulk endpoint, merges, the fan-out to
  duplicates, the rules, Jira in both directions, comments, ratings, publishing, the removal of
  an account, the SLA sweep and the portal write, every issue stays consistent: an open one has no completion time and is no duplicate, a resolved
  one has its resolution time, a closed one its closing time; the pointers from duplicates to
  canonical issues never form a cycle and ids stay unique. No issue disappears or changes its
  platform, reporter or reference, and its version never decreases.
\<close>

theorem issues_stay_consistent:
  assumes "issues_inv s" and "issue_step\<^sup>*\<^sup>* s t"
  shows "(\<forall>j \<in> set (t_issues t). lifecycle_ok j) \<and> acyclic (duplicate_edges t) \<and> distinct (map iss_id (t_issues t))
     \<and> (\<forall>i \<in> set (t_issues s). \<exists>j \<in> set (t_issues t). same_issue i j)"
proof -
  have "\<forall>i \<in> set (t_issues s). \<exists>j \<in> set (t_issues t). same_issue i j"
    using assms(2)
  proof (induction rule: rtranclp_induct)
    case base
    show ?case by (auto simp: same_issue_def)
  next
    case (step u w)
    show ?case
    proof
      fix i assume "i \<in> set (t_issues s)"
      then obtain j where j: "j \<in> set (t_issues u)" "same_issue i j" using step.IH by blast
      with step_keeps_issue [OF issue_ts.reach_inv [OF step.hyps(1) assms(1)] step.hyps(2) j(1)]
      show "\<exists>j \<in> set (t_issues w). same_issue i j" using same_issue_trans by blast
    qed
  qed
  with issue_ts.reach_inv [OF assms(2,1)] show ?thesis by (simp add: issues_inv_def list_all_iff)
qed

lemma demo_issues_inv: "issues_inv demo_issues"
proof -
  have "duplicate_edges demo_issues = {}"
    by (auto simp: duplicate_edges_def demo_issues_def sample_defs)
  then show ?thesis by (simp add: issues_inv_def demo_issues_def sample_defs lifecycle_ok_def acyclic_def)
qed

theorem issues_stay_consistent_witness:
  "\<exists>t i. issue_step\<^sup>*\<^sup>* demo_issues t \<and> i \<in> set (t_issues t) \<and> iss_id i = ''a'' \<and> iss_duplicate_of i = Some ''b''
     \<and> lifecycle_ok i \<and> acyclic (duplicate_edges t)"
proof -
  obtain t where m: "merge plain_env dev_staff ''a'' ''b'' 1 demo_issues = Inr (''b'', t)"
    using demo_merge_ok by blast
  then have st: "issue_step\<^sup>*\<^sup>* demo_issues t" by (blast intro: issue_step.merging)
  from merge_effects [OF m] obtain i where "find_issue ''a'' t = Some i" "iss_duplicate_of i = Some ''b''" by blast
  with issues_stay_consistent [OF demo_issues_inv st] st show ?thesis by (blast dest: find_issueD)
qed

end
