(* ===== verification/Csv.thy ===== *)
theory Csv
  imports IssuesQuery
begin

text \<open>
  The CSV export (\<^verbatim>\<open>src/issues/issues.csv.ts\<close>), and a reader of quoted RFC 4180 text as the
  reference it is held against.
\<close>

section \<open>Writing\<close>

definition formula_char :: "char \<Rightarrow> bool" where
  "formula_char c = (c \<in> {CHR ''='', CHR ''+'', CHR ''-'', CHR ''@'', CHR 0x09, CHR 0x0D})"

definition neutral :: "string \<Rightarrow> string" where
  "neutral s = (case s of [] \<Rightarrow> [] | c # _ \<Rightarrow> (if formula_char c then CHR 0x27 # s else s))"

fun double_quotes :: "string \<Rightarrow> string" where
  "double_quotes [] = []"
| "double_quotes (c # cs) = (if c = CHR 0x22 then CHR 0x22 # CHR 0x22 # double_quotes cs else c # double_quotes cs)"

definition cell :: "string option \<Rightarrow> string" where
  "cell v = (let s = (case v of None \<Rightarrow> '''' | Some x \<Rightarrow> x) in [CHR 0x22] @ double_quotes (neutral s) @ [CHR 0x22])"

definition HEADERS :: "string list" where
  "HEADERS = [''referenceNo'', ''status'', ''priority'', ''platform'', ''reporter'', ''assignee'',
     ''createdAt'', ''updatedAt'', ''resolvedAt'', ''closedAt'']"

text \<open>\<^verbatim>\<open>toISO\<close> is \<^verbatim>\<open>toISOString\<close>.\<close>

definition csv_fields :: "(time \<Rightarrow> string) \<Rightarrow> joined \<Rightarrow> string list" where
  "csv_fields toISO j =
     (let i = j_issue j; or_empty = (\<lambda>x. case x of None \<Rightarrow> '''' | Some v \<Rightarrow> v) in
      [iss_reference_no i, status_name (iss_status i), priority_name (iss_priority i),
       or_empty (map_option plat_key (j_platform j)), or_empty (map_option rep_name (j_reporter j)),
       or_empty (map_option su_name (j_assignee j)), toISO (iss_created_at i), toISO (iss_updated_at i),
       or_empty (map_option toISO (iss_resolved_at i)), or_empty (map_option toISO (iss_closed_at i))])"

definition toCsv :: "(time \<Rightarrow> string) \<Rightarrow> joined list \<Rightarrow> string" where
  "toCsv toISO js =
     join_with [CHR 0x0D, CHR 0x0A]
       (join_with '','' (map (\<lambda>h. cell (Some h)) HEADERS)
        # map (\<lambda>j. join_with '','' (map (\<lambda>v. cell (Some v)) (csv_fields toISO j))) js)"

section \<open>Reading\<close>

text \<open>A quoted field after its opening quote: the text and what follows the closing quote.\<close>

fun read_quoted :: "string \<Rightarrow> (string \<times> string) option" where
  "read_quoted [] = None"
| "read_quoted (c # cs) =
     (if c = CHR 0x22 then
        (case cs of
           [] \<Rightarrow> Some ([], [])
         | d # ds \<Rightarrow> (if d = CHR 0x22 then map_option (apfst (Cons (CHR 0x22))) (read_quoted ds) else Some ([], cs)))
      else map_option (apfst (Cons c)) (read_quoted cs))"

lemma read_quoted_shorter: "read_quoted s = Some (f, rest) \<Longrightarrow> length rest < length s"
  by (induction s arbitrary: f rest rule: read_quoted.induct)
    (fastforce split: if_splits list.splits)+

function read_csv :: "string list \<Rightarrow> string \<Rightarrow> string list list option" where
  "read_csv row s =
     (case s of
        [] \<Rightarrow> None
      | q # cs \<Rightarrow>
          (if q \<noteq> CHR 0x22 then None
           else case read_quoted cs of
             None \<Rightarrow> None
           | Some (f, rest) \<Rightarrow>
               (case rest of
                  [] \<Rightarrow> Some [row @ [f]]
                | c # r \<Rightarrow>
                    (if c = CHR '','' then read_csv (row @ [f]) r
                     else if c = CHR 0x0D \<and> take 1 r = [CHR 0x0A]
                     then map_option (Cons (row @ [f])) (read_csv [] (drop 1 r))
                     else None))))"
  by pat_completeness auto
termination
  by (relation "measure (\<lambda>(_, s). length s)") (auto dest!: read_quoted_shorter)

declare read_csv.simps [simp del]

section \<open>Property\<close>

lemma read_quoted_cell:
  "take 1 rest \<noteq> [CHR 0x22] \<Longrightarrow> read_quoted (double_quotes s @ CHR 0x22 # rest) = Some (s, rest)"
  by (induction s rule: double_quotes.induct) (auto split: list.splits)

lemma read_csv_step:
  "take 1 rest \<noteq> [CHR 0x22] \<Longrightarrow> read_csv row (cell (Some v) @ rest) =
     (case rest of
        [] \<Rightarrow> Some [row @ [neutral v]]
      | c # r \<Rightarrow>
          (if c = CHR '','' then read_csv (row @ [neutral v]) r
           else if c = CHR 0x0D \<and> take 1 r = [CHR 0x0A]
           then map_option (Cons (row @ [neutral v])) (read_csv [] (drop 1 r))
           else None))"
  by (subst read_csv.simps) (simp add: cell_def read_quoted_cell)

lemma read_csv_row:
  "vs \<noteq> [] \<Longrightarrow> rest = [] \<or> (\<exists>r. rest = CHR 0x0D # CHR 0x0A # r) \<Longrightarrow>
   read_csv row (join_with '','' (map (\<lambda>v. cell (Some v)) vs) @ rest) =
     (case rest of
        [] \<Rightarrow> Some [row @ map neutral vs]
      | _ \<Rightarrow> map_option (Cons (row @ map neutral vs)) (read_csv [] (drop 2 rest)))"
proof (induction vs arbitrary: row)
  case (Cons v vs)
  show ?case
  proof (cases vs)
    case Nil
    with Cons.prems(2) read_csv_step [of "[]" row v] show ?thesis by (auto simp: read_csv_step)
  next
    case (Cons w ws)
    have "read_csv row (join_with '','' (map (\<lambda>v. cell (Some v)) (v # vs)) @ rest)
        = read_csv row (cell (Some v) @ CHR '','' # join_with '','' (map (\<lambda>v. cell (Some v)) vs) @ rest)"
      by (simp add: Cons)
    also have "\<dots> = read_csv (row @ [neutral v]) (join_with '','' (map (\<lambda>v. cell (Some v)) vs) @ rest)"
      by (simp add: read_csv_step)
    finally show ?thesis using Cons.IH [of "row @ [neutral v]"] Cons Cons.prems(2) by (cases rest) auto
  qed
qed simp

lemma read_csv_rows:
  "rows \<noteq> [] \<Longrightarrow> list_all (\<lambda>vs. vs \<noteq> []) rows \<Longrightarrow>
   read_csv [] (join_with [CHR 0x0D, CHR 0x0A] (map (\<lambda>vs. join_with '','' (map (\<lambda>v. cell (Some v)) vs)) rows))
     = Some (map (map neutral) rows)"
proof (induction rows)
  case (Cons vs rows)
  show ?case
  proof (cases rows)
    case Nil
    with Cons.prems read_csv_row [of vs "[]" "[]"] show ?thesis by simp
  next
    case (Cons ws rs)
    let ?rest = "CHR 0x0D # CHR 0x0A # join_with [CHR 0x0D, CHR 0x0A] (map (\<lambda>vs. join_with '','' (map (\<lambda>v. cell (Some v)) vs)) rows)"
    have "read_csv [] (join_with '','' (map (\<lambda>v. cell (Some v)) vs) @ ?rest)
      = map_option (Cons (map neutral vs)) (read_csv [] (drop 2 ?rest))"
      using read_csv_row [of vs ?rest "[]"] Cons.prems(2) by simp
    with Cons.IH Cons Cons.prems(2) show ?thesis by simp
  qed
qed simp

text \<open>A spreadsheet evaluates a field by its first character.\<close>

fun evaluated :: "string \<Rightarrow> bool" where
  "evaluated [] = False"
| "evaluated (c # _) = formula_char c"

lemma neutral_safe: "\<not> evaluated (neutral s)"
  by (cases s) (simp_all add: neutral_def formula_char_def)

text \<open>
  C27: A reader of RFC 4180 gets back from the export exactly the header and one
  record per issue with its ten fields, whatever quotes, commas and line breaks the names
  contain, each field unchanged except that a leading formula character is preceded by an
  apostrophe; no field it reads starts like a formula.
\<close>

theorem csv_export_reads_back:
  "read_csv [] (toCsv toISO js) = Some (HEADERS # map (\<lambda>j. map neutral (csv_fields toISO j)) js)
   \<and> \<not> list_ex (list_ex evaluated) (HEADERS # map (\<lambda>j. map neutral (csv_fields toISO j)) js)"
proof -
  have h: "map neutral HEADERS = HEADERS" by (simp add: HEADERS_def neutral_def formula_char_def)
  have "toCsv toISO js = join_with [CHR 0x0D, CHR 0x0A]
      (map (\<lambda>vs. join_with '','' (map (\<lambda>v. cell (Some v)) vs)) (HEADERS # map (csv_fields toISO) js))"
    by (simp add: toCsv_def comp_def)
  then have "read_csv [] (toCsv toISO js) = Some (map (map neutral) (HEADERS # map (csv_fields toISO) js))"
    using read_csv_rows [of "HEADERS # map (csv_fields toISO) js"]
    by (simp add: list_all_iff csv_fields_def HEADERS_def Let_def)
  moreover have "\<not> list_ex evaluated HEADERS"
    by (simp add: HEADERS_def formula_char_def)
  ultimately show ?thesis using neutral_safe by (auto simp: h list_ex_iff)
qed

end
