(* ===== verification/StatusPage.thy ===== *)
theory StatusPage
  imports Catalog "HOL-Library.List_Lexorder" "HOL-Library.Char_ord" "HOL-Library.Product_Lexorder"
begin

text \<open>
  The public status page of a platform (\<^verbatim>\<open>src/status/status.service.ts\<close>): components,
  incidents with their timeline, and the page anyone may read. The association of an incident
  with components is the list of component ids in its row; names are ordered by code unit where
  the database uses its collation.
\<close>

section \<open>Components\<close>

record component_dto =
  cd_name :: "string option"
  cd_description :: "string option"
  cd_status :: "component_status option"
  cd_position :: "nat option"

record component_view =
  cv_id_c :: ident
  cv_name :: string
  cv_description :: "string option"
  cv_status :: component_status
  cv_position :: nat
  cv_updated_at :: time

definition componentView :: "status_component \<Rightarrow> component_view" where
  "componentView c = \<lparr>cv_id_c = comp_id c, cv_name = comp_name c, cv_description = comp_description c,
     cv_status = comp_status c, cv_position = comp_position c, cv_updated_at = comp_updated_at c\<rparr>"

definition loadComponents :: "ident \<Rightarrow> db \<Rightarrow> status_component list" where
  "loadComponents p s =
     sort_key (\<lambda>c. (comp_position c, comp_name c)) (filter (\<lambda>c. comp_platform c = p) (t_components s))"

definition listComponents :: "auth_staff \<Rightarrow> ident \<Rightarrow> db \<Rightarrow> component_view list res" where
  "listComponents st p s =
     bind_res (assertPlatformAccess st p STAFF_WRITE_ROLES) (\<lambda>_. Inr (map componentView (loadComponents p s)))"

definition COMPONENT_CONFLICT :: http_error where
  "COMPONENT_CONFLICT = Conflict ''A component with that name already exists on this platform.''"

definition component_clash :: "status_component \<Rightarrow> db \<Rightarrow> bool" where
  "component_clash c s = list_ex (\<lambda>x. comp_id x \<noteq> comp_id c \<and> comp_platform x = comp_platform c \<and> comp_name x = comp_name c) (t_components s)"

definition trim_or_null :: "string \<Rightarrow> string option" where
  "trim_or_null t = truthy (Some (js_trim t))"

definition createComponent :: "env \<Rightarrow> auth_staff \<Rightarrow> ident \<Rightarrow> string \<Rightarrow> component_dto \<Rightarrow> db \<Rightarrow> (component_view \<times> db) res" where
  "createComponent e st p nm dto s =
     bind_res (assertPlatformAccess st p STAFF_WRITE_ROLES) (\<lambda>_.
       (let c = \<lparr>comp_id = fresh_id s, comp_platform = p, comp_name = js_trim nm,
                 comp_description = (case cd_description dto of None \<Rightarrow> None | Some d \<Rightarrow> trim_or_null d),
                 comp_status = (case cd_status dto of None \<Rightarrow> OPERATIONAL | Some x \<Rightarrow> x),
                 comp_position = (case cd_position dto of None \<Rightarrow> 0 | Some n \<Rightarrow> n),
                 comp_created_at = now e, comp_updated_at = now e\<rparr>
        in require (\<not> (component_clash c s \<or> list_ex (\<lambda>x. comp_id x = comp_id c) (t_components s))) COMPONENT_CONFLICT
           (require (find_platform p s \<noteq> None) db_error
             (Inr (componentView c, draw_id (t_components_update (\<lambda>cs. cs @ [c]) s))))))"

definition ownedComponent :: "ident \<Rightarrow> ident \<Rightarrow> db \<Rightarrow> status_component res" where
  "ownedComponent p cid s =
     (case by_key comp_id cid (t_components s) of
        None \<Rightarrow> Inl (NotFound ''Component not found.'')
      | Some c \<Rightarrow> require (comp_platform c = p) (NotFound ''Component not found.'') (Inr c))"

definition patched_component :: "component_dto \<Rightarrow> status_component \<Rightarrow> status_component" where
  "patched_component dto c =
     (let c1 = (case cd_name dto of None \<Rightarrow> c | Some n \<Rightarrow> c\<lparr>comp_name := js_trim n\<rparr>);
          c2 = (case cd_description dto of None \<Rightarrow> c1 | Some d \<Rightarrow> c1\<lparr>comp_description := trim_or_null d\<rparr>);
          c3 = (case cd_status dto of None \<Rightarrow> c2 | Some x \<Rightarrow> c2\<lparr>comp_status := x\<rparr>)
      in case cd_position dto of None \<Rightarrow> c3 | Some n \<Rightarrow> c3\<lparr>comp_position := n\<rparr>)"

definition updateComponent :: "env \<Rightarrow> auth_staff \<Rightarrow> ident \<Rightarrow> ident \<Rightarrow> component_dto \<Rightarrow> db \<Rightarrow> (component_view \<times> db) res" where
  "updateComponent e st p cid dto s =
     bind_res (assertPlatformAccess st p STAFF_WRITE_ROLES) (\<lambda>_.
     bind_res (ownedComponent p cid s) (\<lambda>c0.
       (let c = patched_component dto c0
        in if c = c0 then Inr (componentView c0, s)
           else require (\<not> component_clash c s) COMPONENT_CONFLICT
             (let c1 = c\<lparr>comp_updated_at := now e\<rparr>
              in Inr (componentView c1, t_components_update (replace_row comp_id c1) s)))))"

text \<open>Removing a component removes it from the incidents that name it (the join table cascades).\<close>

definition without_component :: "ident \<Rightarrow> status_incident \<Rightarrow> status_incident" where
  "without_component cid i = i\<lparr>inc_components := filter (\<lambda>x. x \<noteq> cid) (inc_components i)\<rparr>"

definition deleteComponent :: "auth_staff \<Rightarrow> ident \<Rightarrow> ident \<Rightarrow> db \<Rightarrow> db res" where
  "deleteComponent st p cid s =
     bind_res (assertPlatformAccess st p STAFF_WRITE_ROLES) (\<lambda>_.
     bind_res (ownedComponent p cid s) (\<lambda>c.
       Inr (t_incidents_update (map (without_component (comp_id c)))
             (t_components_update (remove_key comp_id (comp_id c)) s))))"

section \<open>Incidents\<close>

record incident_view =
  iv_id :: ident
  iv_title :: string
  iv_status :: incident_status
  iv_impact :: incident_impact
  iv_started_at :: time
  iv_resolved_at :: "time option"
  iv_components :: "(ident \<times> string) list"
  iv_updates :: "(ident \<times> incident_status \<times> string \<times> time) list"

definition incidentView :: "status_incident \<Rightarrow> db \<Rightarrow> incident_view" where
  "incidentView i s =
     \<lparr>iv_id = inc_id i, iv_title = inc_title i, iv_status = inc_status i, iv_impact = inc_impact i,
      iv_started_at = inc_started_at i, iv_resolved_at = inc_resolved_at i,
      iv_components = map (\<lambda>c. (comp_id c, comp_name c))
        (List.map_filter (\<lambda>c. by_key comp_id c (t_components s)) (inc_components i)),
      iv_updates = map (\<lambda>u. (upd_id u, upd_status u, upd_body u, upd_created_at u))
        (newest_first upd_created_at (filter (\<lambda>u. upd_incident u = inc_id i) (t_updates s)))\<rparr>"

definition incidents_of :: "ident \<Rightarrow> nat \<Rightarrow> db \<Rightarrow> status_incident list" where
  "incidents_of p n s = take n (newest_first inc_started_at (filter (\<lambda>i. inc_platform i = p) (t_incidents s)))"

definition listIncidents :: "auth_staff \<Rightarrow> ident \<Rightarrow> db \<Rightarrow> incident_view list res" where
  "listIncidents st p s =
     bind_res (assertPlatformAccess st p STAFF_WRITE_ROLES) (\<lambda>_. Inr (map (\<lambda>i. incidentView i s) (incidents_of p 50 s)))"

definition resolveComponents :: "ident \<Rightarrow> ident list \<Rightarrow> db \<Rightarrow> status_component list res" where
  "resolveComponents p ids s =
     (let wanted = js_set ids
      in if wanted = [] then Inr []
         else
           (let rows = filter (\<lambda>c. comp_id c \<in> set wanted \<and> comp_platform c = p) (t_components s)
            in require (length rows = length wanted)
                 (BadRequest ''One or more components do not belong to this platform.'') (Inr rows)))"

definition getIncident :: "ident \<Rightarrow> db \<Rightarrow> incident_view res" where
  "getIncident iid s =
     (case by_key inc_id iid (t_incidents s) of
        None \<Rightarrow> Inl (NotFound ''Incident not found.'')
      | Some i \<Rightarrow> Inr (incidentView i s))"

record incident_dto =
  id_title :: string
  id_body :: string
  id_status :: "incident_status option"
  id_impact :: "incident_impact option"
  id_components :: "ident list"

definition insert_update :: "env \<Rightarrow> auth_staff \<Rightarrow> ident \<Rightarrow> incident_status \<Rightarrow> string \<Rightarrow> db \<Rightarrow> db" where
  "insert_update e st iid status body s =
     draw_id (t_updates_update (\<lambda>us. us @
       [\<lparr>upd_id = fresh_id s, upd_incident = iid, upd_status = status, upd_body = body,
         upd_created_by = Some (st_id st), upd_created_at = now e\<rparr>]) s)"

definition new_incident ::
  "env \<Rightarrow> auth_staff \<Rightarrow> ident \<Rightarrow> incident_dto \<Rightarrow> status_component list \<Rightarrow> ident \<Rightarrow> status_incident" where
  "new_incident e st p dto cs iid =
     (let status = (case id_status dto of None \<Rightarrow> INVESTIGATING | Some x \<Rightarrow> x)
      in \<lparr>inc_id = iid, inc_platform = p, inc_title = js_trim (id_title dto), inc_status = status,
          inc_impact = (case id_impact dto of None \<Rightarrow> IMPACT_MINOR | Some x \<Rightarrow> x),
          inc_components = map comp_id cs, inc_started_at = now e,
          inc_resolved_at = (if status = INC_RESOLVED then Some (now e) else None),
          inc_created_by = Some (st_id st), inc_created_at = now e, inc_updated_at = now e\<rparr>)"

definition createIncident :: "env \<Rightarrow> auth_staff \<Rightarrow> ident \<Rightarrow> incident_dto \<Rightarrow> db \<Rightarrow> (incident_view \<times> db) res" where
  "createIncident e st p dto s =
     bind_res (assertPlatformAccess st p STAFF_WRITE_ROLES) (\<lambda>_.
     bind_res (resolveComponents p (id_components dto) s) (\<lambda>cs.
     require (by_key inc_id (fresh_id s) (t_incidents s) = None \<and> find_platform p s \<noteq> None) db_error
       (let i = new_incident e st p dto cs (fresh_id s);
            s1 = draw_id (t_incidents_update (\<lambda>is. is @ [i]) s);
            s2 = insert_update e st (inc_id i) (inc_status i) (id_body dto) s1
        in bind_res (getIncident (inc_id i) s2) (\<lambda>v. Inr (v, s2)))))"

definition ownedIncident :: "ident \<Rightarrow> ident \<Rightarrow> db \<Rightarrow> status_incident res" where
  "ownedIncident p iid s =
     (case by_key inc_id iid (t_incidents s) of
        None \<Rightarrow> Inl (NotFound ''Incident not found.'')
      | Some i \<Rightarrow> require (inc_platform i = p) (NotFound ''Incident not found.'') (Inr i))"

text \<open>An absent list of components is \<^verbatim>\<open>None\<close>; an empty one clears them.\<close>

definition addIncidentUpdate ::
  "env \<Rightarrow> auth_staff \<Rightarrow> ident \<Rightarrow> ident \<Rightarrow> incident_status \<Rightarrow> string \<Rightarrow> ident list option \<Rightarrow> db \<Rightarrow> (incident_view \<times> db) res" where
  "addIncidentUpdate e st p iid status body ids s =
     bind_res (assertPlatformAccess st p STAFF_WRITE_ROLES) (\<lambda>_.
     bind_res (ownedIncident p iid s) (\<lambda>i.
     bind_res (case ids of None \<Rightarrow> Inr None | Some xs \<Rightarrow> bind_res (resolveComponents p xs s) (\<lambda>cs. Inr (Some cs))) (\<lambda>cs.
       (let i1 = i\<lparr>inc_status := status,
                   inc_resolved_at := (if status = INC_RESOLVED
                     then (case inc_resolved_at i of Some t \<Rightarrow> Some t | None \<Rightarrow> Some (now e)) else None)\<rparr>;
            i2 = (if i1 = i then i1 else i1\<lparr>inc_updated_at := now e\<rparr>);
            i3 = (case cs of None \<Rightarrow> i2 | Some rows \<Rightarrow> i2\<lparr>inc_components := map comp_id rows\<rparr>);
            s1 = t_incidents_update (replace_row inc_id i3) s;
            s2 = insert_update e st (inc_id i) status body s1
        in bind_res (getIncident iid s2) (\<lambda>v. Inr (v, s2))))))"

definition deleteIncident :: "auth_staff \<Rightarrow> ident \<Rightarrow> ident \<Rightarrow> db \<Rightarrow> db res" where
  "deleteIncident st p iid s =
     bind_res (assertPlatformAccess st p STAFF_WRITE_ROLES) (\<lambda>_.
     bind_res (ownedIncident p iid s) (\<lambda>i.
       Inr (t_updates_update (filter (\<lambda>u. upd_incident u \<noteq> inc_id i))
             (t_incidents_update (remove_key inc_id (inc_id i)) s))))"

section \<open>The public page\<close>

definition PUBLIC_HISTORY_LIMIT :: nat where
  "PUBLIC_HISTORY_LIMIT = 20"

definition SEVERITY_ORDER :: "component_status list" where
  "SEVERITY_ORDER = [OPERATIONAL, COMP_MAINTENANCE, DEGRADED, PARTIAL_OUTAGE, MAJOR_OUTAGE]"

fun index_in :: "'a list \<Rightarrow> 'a \<Rightarrow> int" where
  "index_in [] x = - 1"
| "index_in (y # ys) x = (if x = y then 0 else (let n = index_in ys x in if n = - 1 then - 1 else n + 1))"

definition overallStatus :: "status_component list \<Rightarrow> bool \<Rightarrow> component_status" where
  "overallStatus cs hasActive =
     (let worst = fold (\<lambda>c acc. if index_in SEVERITY_ORDER acc < index_in SEVERITY_ORDER (comp_status c)
            then comp_status c else acc) cs OPERATIONAL
      in if worst = OPERATIONAL \<and> hasActive then DEGRADED else worst)"

record public_status =
  ps_platform :: "string \<times> string"
  ps_overall :: component_status
  ps_components :: "(ident \<times> string \<times> string option \<times> component_status) list"
  ps_active :: "incident_view list"
  ps_recent :: "incident_view list"
  ps_updated_at :: time

definition publicStatus :: "env \<Rightarrow> string \<Rightarrow> db \<Rightarrow> public_status res" where
  "publicStatus e key s =
     (case find_platform_by_key key s of
        None \<Rightarrow> Inl (NotFound ''Unknown platform.'')
      | Some p \<Rightarrow>
          require (plat_status p = PLATFORM_ACTIVE) (NotFound ''Unknown platform.'')
            (let components = loadComponents (plat_id p) s;
                 incidents = incidents_of (plat_id p) PUBLIC_HISTORY_LIMIT s;
                 active = filter (\<lambda>i. inc_status i \<noteq> INC_RESOLVED) incidents
             in Inr \<lparr>ps_platform = (plat_key p, plat_name p),
                     ps_overall = overallStatus components (active \<noteq> []),
                     ps_components = map (\<lambda>c. (comp_id c, comp_name c, comp_description c, comp_status c)) components,
                     ps_active = map (\<lambda>i. incidentView i s) active,
                     ps_recent = map (\<lambda>i. incidentView i s) (filter (\<lambda>i. inc_status i = INC_RESOLVED) incidents),
                     ps_updated_at = now e\<rparr>))"

section \<open>Component names are a catalogue of the platform\<close>

definition component_step :: "ident \<Rightarrow> db \<Rightarrow> db \<Rightarrow> bool" where
  "component_step p s s' = (t_components s' \<noteq> t_components s \<and>
     ((\<exists>e st nm d v. createComponent e st p nm d s = Inr (v, s'))
      \<or> (\<exists>e st i d v. updateComponent e st p i d s = Inr (v, s')) \<or> (\<exists>st i. deleteComponent st p i s = Inr s')))"

lemma patched_component_frame [simp]:
  "comp_id (patched_component d c) = comp_id c" "comp_platform (patched_component d c) = comp_platform c"
  by (auto simp: patched_component_def Let_def split: option.splits)

lemma ownedComponent_ok: "ownedComponent p i s = Inr c \<Longrightarrow> c \<in> set (t_components s) \<and> comp_id c = i \<and> comp_platform c = p"
  by (auto simp: ownedComponent_def require_Inr_iff split: option.splits dest!: by_key_SomeD)

lemma createComponent_ok:
  assumes "createComponent e st p nm d s = Inr (v, s')"
  shows "\<exists>c. t_components s' = t_components s @ [c] \<and> comp_platform c = p \<and> comp_id c \<notin> comp_id ` set (t_components s)
    \<and> (\<forall>x \<in> set (t_components s). comp_platform x = p \<longrightarrow> comp_name x \<noteq> comp_name c)
    \<and> t_incidents s' = t_incidents s \<and> t_updates s' = t_updates s"
  using assms by (fastforce simp: createComponent_def res_iffs Let_def draw_id_def component_clash_def list_ex_iff)

lemma updateComponent_ok:
  assumes "updateComponent e st p i d s = Inr (v, s')"
  shows "s' = s \<or> (\<exists>c0 c. c0 \<in> set (t_components s) \<and> comp_id c = comp_id c0 \<and> comp_platform c0 = p \<and> comp_platform c = p
    \<and> t_components s' = replace_row comp_id c (t_components s)
    \<and> (\<forall>x \<in> set (t_components s). comp_platform x = p \<and> comp_id x \<noteq> comp_id c \<longrightarrow> comp_name x \<noteq> comp_name c)
    \<and> t_incidents s' = t_incidents s \<and> t_updates s' = t_updates s)"
proof -
  from assms obtain c0 where c0: "ownedComponent p i s = Inr c0"
    and r: "patched_component d c0 = c0 \<and> s' = s \<or>
      (\<not> component_clash (patched_component d c0) s
       \<and> s' = t_components_update (replace_row comp_id ((patched_component d c0)\<lparr>comp_updated_at := now e\<rparr>)) s)"
    by (auto simp: updateComponent_def res_iffs Let_def split: if_splits)
  from ownedComponent_ok [OF c0] r show ?thesis
    by (elim disjE) (simp, intro disjI2 exI [of _ c0] exI [of _ "(patched_component d c0)\<lparr>comp_updated_at := now e\<rparr>"],
        auto simp: component_clash_def list_ex_iff)
qed

lemma deleteComponent_ok:
  assumes "deleteComponent st p i s = Inr s'"
  shows "\<exists>c. c \<in> set (t_components s) \<and> comp_platform c = p \<and> t_components s' = remove_key comp_id (comp_id c) (t_components s)
    \<and> t_incidents s' = map (without_component (comp_id c)) (t_incidents s)
    \<and> t_updates s' = t_updates s"
  using assms by (auto simp: deleteComponent_def res_iffs dest!: ownedComponent_ok)

interpretation component_catalog: tenant_catalog t_components comp_id comp_platform comp_name component_step
proof
  fix p s s'
  assume "component_step p s s'"
  then show "(\<exists>r. t_components s' = t_components s @ [r] \<and> comp_platform r = p \<and> comp_id r \<notin> comp_id ` set (t_components s)
           \<and> (\<forall>x \<in> set (t_components s). comp_platform x = p \<longrightarrow> comp_name x \<noteq> comp_name r))
    \<or> (\<exists>r0 r. r0 \<in> set (t_components s) \<and> comp_id r = comp_id r0 \<and> comp_platform r0 = p \<and> comp_platform r = p
           \<and> t_components s' = replace_row comp_id r (t_components s)
           \<and> (\<forall>x \<in> set (t_components s). comp_platform x = p \<and> comp_id x \<noteq> comp_id r \<longrightarrow> comp_name x \<noteq> comp_name r))
    \<or> (\<exists>r0. r0 \<in> set (t_components s) \<and> comp_platform r0 = p \<and> t_components s' = remove_key comp_id (comp_id r0) (t_components s))"
    unfolding component_step_def
  proof (elim conjE disjE exE)
    fix e st nm d v assume "createComponent e st p nm d s = Inr (v, s')"
    from createComponent_ok [OF this] show ?thesis by (intro disjI1) (elim exE conjE, intro exI conjI)
  next
    fix e st i d v assume "t_components s' \<noteq> t_components s" "updateComponent e st p i d s = Inr (v, s')"
    with updateComponent_ok [OF this(2)] obtain c0 c where "c0 \<in> set (t_components s)" "comp_id c = comp_id c0" "comp_platform c0 = p" "comp_platform c = p"
      "t_components s' = replace_row comp_id c (t_components s)"
      "\<forall>x \<in> set (t_components s). comp_platform x = p \<and> comp_id x \<noteq> comp_id c \<longrightarrow> comp_name x \<noteq> comp_name c"
      by blast
    then show ?thesis by (intro disjI2 disjI1 exI conjI)
  next
    fix st i assume "deleteComponent st p i s = Inr s'"
    from deleteComponent_ok [OF this] show ?thesis by (intro disjI2) (elim exE conjE, intro exI conjI)
  qed
qed

section \<open>Incidents stay on their platform and on their timeline\<close>

datatype status_op =
    CreateComponent env auth_staff ident string component_dto
  | UpdateComponent env auth_staff ident ident component_dto
  | DeleteComponent auth_staff ident ident
  | CreateIncident env auth_staff ident incident_dto
  | AddIncidentUpdate env auth_staff ident ident incident_status string "ident list option"
  | DeleteIncident auth_staff ident ident

fun run_status_op :: "status_op \<Rightarrow> db \<Rightarrow> db res" where
  "run_status_op (CreateComponent e st p nm d) s = map_sum id snd (createComponent e st p nm d s)"
| "run_status_op (UpdateComponent e st p i d) s = map_sum id snd (updateComponent e st p i d s)"
| "run_status_op (DeleteComponent st p i) s = deleteComponent st p i s"
| "run_status_op (CreateIncident e st p d) s = map_sum id snd (createIncident e st p d s)"
| "run_status_op (AddIncidentUpdate e st p i x b cs) s = map_sum id snd (addIncidentUpdate e st p i x b cs s)"
| "run_status_op (DeleteIncident st p i) s = deleteIncident st p i s"

definition status_request :: "status_op \<Rightarrow> db \<Rightarrow> db" where
  "status_request r s = (case run_status_op r s of Inl _ \<Rightarrow> s | Inr t \<Rightarrow> t)"

definition has_component :: "ident \<Rightarrow> ident \<Rightarrow> db \<Rightarrow> bool" where
  "has_component p cid s = list_ex (\<lambda>c. comp_id c = cid \<and> comp_platform c = p) (t_components s)"

definition timeline :: "ident \<Rightarrow> db \<Rightarrow> incident_status list" where
  "timeline iid s = map upd_status (filter (\<lambda>u. upd_incident u = iid) (t_updates s))"

definition incident_ok :: "db \<Rightarrow> status_incident \<Rightarrow> bool" where
  "incident_ok s i =
     (list_all (\<lambda>c. has_component (inc_platform i) c s) (inc_components i)
    \<and> (inc_resolved_at i \<noteq> None \<longleftrightarrow> inc_status i = INC_RESOLVED)
    \<and> timeline (inc_id i) s \<noteq> [] \<and> last (timeline (inc_id i) s) = inc_status i)"

definition status_inv :: "db \<Rightarrow> bool" where
  "status_inv s =
     (distinct (map comp_id (t_components s)) \<and> distinct (map inc_id (t_incidents s))
    \<and> list_all (incident_ok s) (t_incidents s)
    \<and> list_all (\<lambda>u. list_ex (\<lambda>i. inc_id i = upd_incident u) (t_incidents s)) (t_updates s))"

lemma timeline_insert:
  "timeline k (insert_update e st iid x b s) = (if k = iid then timeline k s @ [x] else timeline k s)"
  by (simp add: timeline_def insert_update_def draw_id_def)

lemma insert_update_frame [simp]:
  "t_components (insert_update e st iid x b s) = t_components s" "t_incidents (insert_update e st iid x b s) = t_incidents s"
  by (simp_all add: insert_update_def draw_id_def)

lemma resolveComponents_ok:
  "resolveComponents p ids s = Inr cs \<Longrightarrow> c \<in> set cs \<Longrightarrow> has_component p (comp_id c) s"
  by (auto simp: resolveComponents_def Let_def require_Inr_iff has_component_def list_ex_iff split: if_splits)

lemma has_component_mono:
  "(\<And>c. c \<in> set (t_components s) \<Longrightarrow> \<exists>d \<in> set (t_components t). comp_id d = comp_id c \<and> comp_platform d = comp_platform c)
   \<Longrightarrow> has_component p c s \<Longrightarrow> has_component p c t"
  by (auto simp: has_component_def list_ex_iff)

lemma status_inv_components:
  assumes inv: "status_inv s" and t: "t_incidents t = t_incidents s" "t_updates t = t_updates s"
    and d: "distinct (map comp_id (t_components t))"
    and mono: "\<And>c. c \<in> set (t_components s) \<Longrightarrow> \<exists>d \<in> set (t_components t). comp_id d = comp_id c \<and> comp_platform d = comp_platform c"
  shows "status_inv t"
proof -
  have "timeline k t = timeline k s" for k by (simp add: timeline_def t)
  moreover have "has_component p c s \<Longrightarrow> has_component p c t" for p c by (rule has_component_mono [OF mono])
  ultimately show ?thesis
    using inv d by (auto simp: status_inv_def incident_ok_def t list_all_iff)
qed

lemma status_inv_delete_component:
  assumes inv: "status_inv s" and "deleteComponent st p i s = Inr t" shows "status_inv t"
proof -
  from deleteComponent_ok [OF assms(2)] obtain c :: status_component where
    c: "t_components t = remove_key comp_id (comp_id c) (t_components s)"
    and i: "t_incidents t = map (without_component (comp_id c)) (t_incidents s)"
    and u: "t_updates t = t_updates s" by blast
  have tl: "timeline k t = timeline k s" for k by (simp add: timeline_def u)
  have h: "x \<noteq> comp_id c \<Longrightarrow> has_component p x s \<Longrightarrow> has_component p x t" for p x
    by (auto simp: has_component_def list_ex_iff c remove_key_def)
  have "map inc_id (t_incidents t) = map inc_id (t_incidents s)" by (simp add: i comp_def without_component_def)
  moreover have "distinct (map comp_id (t_components t))"
    using inv by (simp add: c status_inv_def distinct_keys_remove)
  moreover have "list_all (incident_ok t) (t_incidents t)"
    using inv h by (auto simp: status_inv_def i list_all_iff incident_ok_def tl without_component_def)
  ultimately show ?thesis using inv by (simp add: status_inv_def u i list_ex_iff list_all_iff without_component_def comp_def)
qed

lemma status_inv_create_incident:
  assumes inv: "status_inv s" and "createIncident e st p d s = Inr (v, t)" shows "status_inv t"
proof -
  from assms(2) obtain cs where cs: "resolveComponents p (id_components d) s = Inr cs"
    and f: "by_key inc_id (fresh_id s) (t_incidents s) = None"
    and t0: "t = insert_update e st (inc_id (new_incident e st p d cs (fresh_id s))) (inc_status (new_incident e st p d cs (fresh_id s)))
        (id_body d) (draw_id (t_incidents_update (\<lambda>is. is @ [new_incident e st p d cs (fresh_id s)]) s))"
    by (auto simp: createIncident_def res_iffs Let_def)
  define i where "i = new_incident e st p d cs (fresh_id s)"
  have i: "inc_id i = fresh_id s" "inc_platform i = p" "inc_components i = map comp_id cs"
      "inc_resolved_at i \<noteq> None \<longleftrightarrow> inc_status i = INC_RESOLVED"
    by (simp_all add: i_def new_incident_def Let_def)
  note t = t0 [folded i_def]
  have "upd_incident u \<noteq> inc_id i" if "u \<in> set (t_updates s)" for u
  proof -
    from inv that obtain j where "j \<in> set (t_incidents s)" "inc_id j = upd_incident u"
      by (auto simp: status_inv_def list_all_iff list_ex_iff)
    with f show ?thesis by (metis by_key_None_iff i(1) image_eqI)
  qed
  then have no: "timeline (inc_id i) s = []" by (auto simp: timeline_def filter_empty_conv)
  have tl: "timeline k t = (if k = inc_id i then [inc_status i] else timeline k s)" for k
    using no by (simp add: t timeline_insert) (simp add: timeline_def draw_id_def)
  have c: "t_components t = t_components s" "t_incidents t = t_incidents s @ [i]" by (simp_all add: t draw_id_def)
  have ne: "j \<in> set (t_incidents s) \<Longrightarrow> inc_id j \<noteq> inc_id i" for j using f by (metis by_key_None_iff i(1) image_eqI)
  have "incident_ok t i"
    using i resolveComponents_ok [OF cs] by (auto simp: incident_ok_def tl has_component_def c list_all_iff)
  moreover have "incident_ok t j" if "j \<in> set (t_incidents s)" for j
    using inv that ne [OF that] by (auto simp: status_inv_def incident_ok_def tl has_component_def c list_all_iff)
  moreover have "t_updates t = t_updates s @ [last (t_updates t)] \<and> upd_incident (last (t_updates t)) = inc_id i"
    by (simp add: t insert_update_def draw_id_def)
  ultimately show ?thesis
    using inv ne by (auto simp: status_inv_def c list_all_iff list_ex_iff) (metis Un_iff empty_iff insert_iff set_append list.set)+
qed

lemma ownedIncident_ok: "ownedIncident p i s = Inr x \<Longrightarrow> x \<in> set (t_incidents s) \<and> inc_id x = i \<and> inc_platform x = p"
  by (auto simp: ownedIncident_def require_Inr_iff split: option.splits dest!: by_key_SomeD)

lemma addIncidentUpdate_ok:
  assumes "addIncidentUpdate e st p iid x b ids s = Inr (v, t)"
  shows "\<exists>i i3. i \<in> set (t_incidents s) \<and> inc_id i3 = inc_id i \<and> inc_platform i3 = inc_platform i \<and> inc_id i = iid
     \<and> inc_status i3 = x \<and> (inc_resolved_at i3 \<noteq> None \<longleftrightarrow> x = INC_RESOLVED)
     \<and> (inc_components i3 = inc_components i \<or> list_all (\<lambda>c. has_component (inc_platform i) c s) (inc_components i3))
     \<and> t = insert_update e st iid x b (t_incidents_update (replace_row inc_id i3) s)"
proof -
  from assms obtain i cs where o: "ownedIncident p iid s = Inr i"
    and cs: "(case ids of None \<Rightarrow> Inr None | Some xs \<Rightarrow> bind_res (resolveComponents p xs s) (\<lambda>cs. Inr (Some cs))) = Inr cs"
    and t: "t = (let i1 = i\<lparr>inc_status := x,
                   inc_resolved_at := (if x = INC_RESOLVED
                     then (case inc_resolved_at i of Some t \<Rightarrow> Some t | None \<Rightarrow> Some (now e)) else None)\<rparr>;
            i2 = (if i1 = i then i1 else i1\<lparr>inc_updated_at := now e\<rparr>);
            i3 = (case cs of None \<Rightarrow> i2 | Some rows \<Rightarrow> i2\<lparr>inc_components := map comp_id rows\<rparr>)
        in insert_update e st (inc_id i) x b (t_incidents_update (replace_row inc_id i3) s))"
    by (auto simp: addIncidentUpdate_def bind_res_Inr_iff Let_def)
  note own = ownedIncident_ok [OF o]
  define i1 where "i1 = i\<lparr>inc_status := x, inc_resolved_at := (if x = INC_RESOLVED
                     then (case inc_resolved_at i of Some t \<Rightarrow> Some t | None \<Rightarrow> Some (now e)) else None)\<rparr>"
  have i1: "inc_id i1 = inc_id i" "inc_platform i1 = inc_platform i" "inc_status i1 = x" "inc_components i1 = inc_components i"
    "inc_resolved_at i1 \<noteq> None \<longleftrightarrow> x = INC_RESOLVED"
    by (auto simp: i1_def split: option.splits)
  define i2 where "i2 = (if i1 = i then i1 else i1\<lparr>inc_updated_at := now e\<rparr>)"
  then have "i2 = i1 \<or> i2 = i1\<lparr>inc_updated_at := now e\<rparr>" by simp
  with i1 have i2: "inc_id i2 = inc_id i" "inc_platform i2 = inc_platform i" "inc_status i2 = x"
    "inc_components i2 = inc_components i" "inc_resolved_at i2 \<noteq> None \<longleftrightarrow> x = INC_RESOLVED"
    by auto
  define i3 where "i3 = (case cs of None \<Rightarrow> i2 | Some rows \<Rightarrow> i2\<lparr>inc_components := map comp_id rows\<rparr>)"
  have i3: "inc_id i3 = inc_id i" "inc_platform i3 = inc_platform i" "inc_status i3 = x"
    "inc_resolved_at i3 \<noteq> None \<longleftrightarrow> x = INC_RESOLVED"
    by (simp_all add: i3_def i2 split: option.splits) (use i2(5) in simp)
  have "inc_components i3 = inc_components i \<or> list_all (\<lambda>c. has_component (inc_platform i) c s) (inc_components i3)"
    using cs own resolveComponents_ok [of p _ s]
    by (auto simp: i3_def i2 list_all_iff bind_res_Inr_iff split: option.splits)
  moreover have "t = insert_update e st iid x b (t_incidents_update (replace_row inc_id i3) s)"
    using t own unfolding Let_def i1_def [symmetric] i2_def [symmetric] i3_def [symmetric] by simp
  ultimately show ?thesis using own i3 by blast
qed

lemma status_inv_add_update:
  assumes inv: "status_inv s" and "addIncidentUpdate e st p iid x b ids s = Inr (v, t)" shows "status_inv t"
proof -
  from addIncidentUpdate_ok [OF assms(2)] obtain i i3 :: status_incident where
    i: "i \<in> set (t_incidents s)" "inc_id i3 = inc_id i" "inc_platform i3 = inc_platform i" "inc_id i = iid" "inc_status i3 = x"
      "inc_resolved_at i3 \<noteq> None \<longleftrightarrow> x = INC_RESOLVED"
      "inc_components i3 = inc_components i \<or> list_all (\<lambda>c. has_component (inc_platform i) c s) (inc_components i3)"
    and t: "t = insert_update e st iid x b (t_incidents_update (replace_row inc_id i3) s)" by blast
  have c: "t_components t = t_components s" "t_incidents t = replace_row inc_id i3 (t_incidents s)" by (simp_all add: t)
  have h: "has_component p' c' t = has_component p' c' s" for p' c' by (simp add: has_component_def c)
  have tl: "timeline k t = (if k = iid then timeline k s @ [x] else timeline k s)" for k
    by (simp add: t timeline_insert) (simp add: timeline_def)
  have "incident_ok s i" using inv i(1) by (simp add: status_inv_def list_all_iff)
  then have "list_all (\<lambda>c. has_component (inc_platform i3) c t) (inc_components i3)"
    using i(3,7) by (auto simp: incident_ok_def h)
  then have "incident_ok t i3" using i by (simp add: incident_ok_def tl)
  moreover have "incident_ok t j" if "j \<in> set (t_incidents s)" "inc_id j \<noteq> iid" for j
    using inv that by (auto simp: status_inv_def list_all_iff incident_ok_def h tl)
  ultimately have ok: "list_all (incident_ok t) (t_incidents t)"
    using i by (auto simp: c list_all_iff dest!: in_replace_rowD)
  have keys: "list_ex (\<lambda>i. inc_id i = k) (t_incidents t) = list_ex (\<lambda>i. inc_id i = k) (t_incidents s)" for k
  proof -
    have "k \<in> set (map inc_id (t_incidents t)) \<longleftrightarrow> k \<in> set (map inc_id (t_incidents s))" by (simp only: c keys_replace_row)
    then show ?thesis by (auto simp: list_ex_iff image_iff)
  qed
  have "t_updates t = t_updates s @ [last (t_updates t)] \<and> upd_incident (last (t_updates t)) = iid"
    by (simp add: t insert_update_def draw_id_def)
  then have "list_all (\<lambda>u. list_ex (\<lambda>i. inc_id i = upd_incident u) (t_incidents s)) (t_updates t)"
    using inv i(1,4) by (metis (mono_tags, lifting) list.pred_inject list_all_append list_ex_iff status_inv_def)
  with ok show ?thesis using inv by (simp add: status_inv_def c keys_replace_row keys [unfolded c])
qed

lemma status_inv_delete_incident:
  assumes inv: "status_inv s" and "deleteIncident st p iid s = Inr t" shows "status_inv t"
proof -
  from assms(2) have t: "t_components t = t_components s" "t_incidents t = remove_key inc_id iid (t_incidents s)"
    "t_updates t = filter (\<lambda>u. upd_incident u \<noteq> iid) (t_updates s)"
    by (auto simp: deleteIncident_def res_iffs dest!: ownedIncident_ok)
  have tl: "k \<noteq> iid \<Longrightarrow> timeline k t = timeline k s" for k
    by (auto simp: timeline_def t intro!: arg_cong [where f = "map upd_status"] filter_cong)
  show ?thesis
    using inv by (auto simp: status_inv_def list_all_iff list_ex_iff t remove_key_def distinct_map_filter incident_ok_def
        has_component_def tl) metis
qed

lemma status_inv_request: "status_inv s \<Longrightarrow> status_inv (status_request r s)"
proof (cases r)
  case (CreateComponent e st p nm d)
  assume inv: "status_inv s"
  show ?thesis
  proof (cases "createComponent e st p nm d s")
    case (Inr y)
    then obtain v t where "createComponent e st p nm d s = Inr (v, t)" by (cases y) simp
    from createComponent_ok [OF this] obtain c where
      c: "t_components t = t_components s @ [c]" "comp_id c \<notin> comp_id ` set (t_components s)"
        "t_incidents t = t_incidents s" "t_updates t = t_updates s" by blast
    have "status_inv t" by (rule status_inv_components [OF inv c(3,4)]) (use inv c in \<open>auto simp: status_inv_def\<close>)
    with \<open>createComponent e st p nm d s = Inr (v, t)\<close> CreateComponent show ?thesis by (simp add: status_request_def)
  qed (use inv CreateComponent in \<open>simp add: status_request_def\<close>)
next
  case (UpdateComponent e st p i d)
  assume inv: "status_inv s"
  show ?thesis
  proof (cases "updateComponent e st p i d s")
    case (Inr y)
    then obtain v t where u: "updateComponent e st p i d s = Inr (v, t)" by (cases y) simp
    have "status_inv t"
    proof (cases "t = s")
      case False
      with updateComponent_ok [OF u] obtain c0 c where
        c: "c0 \<in> set (t_components s)" "comp_id c = comp_id c0" "comp_platform c0 = p" "comp_platform c = p"
          "t_components t = replace_row comp_id c (t_components s)" "t_incidents t = t_incidents s" "t_updates t = t_updates s"
        by blast
      have d: "distinct (map comp_id (t_components s))" using inv by (simp add: status_inv_def)
      show ?thesis
      proof (rule status_inv_components [OF inv c(6,7)])
        show "distinct (map comp_id (t_components t))" using d by (simp add: c keys_replace_row)
        fix x assume x: "x \<in> set (t_components s)"
        show "\<exists>y \<in> set (t_components t). comp_id y = comp_id x \<and> comp_platform y = comp_platform x"
        proof (cases "comp_id x = comp_id c")
          case True
          with distinct_keys_eq [OF d x c(1)] c show ?thesis by (auto simp: replace_row_def)
        next
          case False
          with x show ?thesis by (auto simp: c replace_row_def)
        qed
      qed
    qed (use inv in simp)
    with u UpdateComponent show ?thesis by (simp add: status_request_def)
  qed (use inv UpdateComponent in \<open>simp add: status_request_def\<close>)
next
  case (DeleteComponent st p i)
  assume "status_inv s"
  with DeleteComponent status_inv_delete_component [of s st p i] show ?thesis
    by (simp add: status_request_def split: sum.splits)
next
  case (CreateIncident e st p d)
  assume "status_inv s"
  with CreateIncident status_inv_create_incident [of s e st p d] show ?thesis
    by (auto simp: status_request_def map_sum_Inr_iff split: sum.splits)
next
  case (AddIncidentUpdate e st p i x b cs)
  assume "status_inv s"
  with AddIncidentUpdate status_inv_add_update [of s e st p i x b cs] show ?thesis
    by (auto simp: status_request_def map_sum_Inr_iff split: sum.splits)
next
  case (DeleteIncident st p i)
  assume "status_inv s"
  with DeleteIncident status_inv_delete_incident [of s st p i] show ?thesis
    by (simp add: status_request_def split: sum.splits)
qed

interpretation status_ts: transition_system "\<lambda>s t. \<exists>r. t = status_request r s" status_inv
  by unfold_locales (auto intro: status_inv_request)

section \<open>Properties\<close>

lemma status_inv_requests: "status_inv s \<Longrightarrow> status_inv (fold status_request rs s)"
  by (rule fold_invariant) (auto intro: status_inv_request)

lemma incidents_of_member: "i \<in> set (incidents_of p n s) \<Longrightarrow> i \<in> set (t_incidents s) \<and> inc_platform i = p"
  by (auto simp: incidents_of_def newest_first_def dest!: in_set_takeD)

text \<open>
  After any sequence of requests, succeeding or failing, a component an
  incident names belongs to the platform of the incident; an incident carries a resolution
  time exactly when it is resolved; and its status is that of the last entry of its timeline,
  which is never empty. So the public page of a platform shows no other tenant's component
  names and no incident that contradicts its own timeline.
\<close>

theorem status_page_stays_on_platform:
  assumes "status_inv s" and "t = fold status_request rs s" and "i \<in> set (incidents_of p n t)"
  shows "inc_platform i = p \<and> set (iv_components (incidentView i t)) \<subseteq> {(comp_id c, comp_name c) | c. c \<in> set (t_components t) \<and> comp_platform c = p}
     \<and> (iv_resolved_at (incidentView i t) \<noteq> None \<longleftrightarrow> iv_status (incidentView i t) = INC_RESOLVED)
     \<and> timeline (inc_id i) t \<noteq> [] \<and> last (timeline (inc_id i) t) = iv_status (incidentView i t)"
proof -
  from incidents_of_member [OF assms(3)] have i: "i \<in> set (t_incidents t)" "inc_platform i = p" by simp_all
  have inv: "status_inv t" unfolding assms(2) by (rule status_inv_requests [OF assms(1)])
  have ok: "incident_ok t i" using inv i(1) by (simp add: status_inv_def list_all_iff)
  have "(a, b) \<in> {(comp_id c, comp_name c) | c. c \<in> set (t_components t) \<and> comp_platform c = p}"
    if v: "(a, b) \<in> set (iv_components (incidentView i t))" for a b
  proof -
    from v obtain k c where k: "k \<in> set (inc_components i)" "by_key comp_id k (t_components t) = Some c" "a = comp_id c" "b = comp_name c"
      by (auto simp: incidentView_def map_filter_def)
    from k(2) have c: "c \<in> set (t_components t)" "comp_id c = k" by (auto dest: by_key_SomeD)
    from ok k(1) have "has_component p k t" by (simp add: incident_ok_def list_all_iff i(2))
    then obtain d where "d \<in> set (t_components t)" "comp_id d = k" "comp_platform d = p" by (auto simp: has_component_def list_ex_iff)
    moreover have "distinct (map comp_id (t_components t))" using inv by (simp add: status_inv_def)
    ultimately have "comp_platform c = p" using distinct_keys_eq c by metis
    with k(3,4) c(1) show ?thesis by blast
  qed
  moreover have "iv_resolved_at (incidentView i t) = inc_resolved_at i" "iv_status (incidentView i t) = inc_status i"
    by (simp_all add: incidentView_def)
  ultimately show ?thesis using i(2) ok by (auto simp: incident_ok_def)
qed

definition status_db :: db where
  "status_db = empty_db\<lparr>t_platforms := [sample_platform ''p1'' ''portal'', sample_platform ''p2'' ''other''],
     t_components := [\<lparr>comp_id = ''c1'', comp_platform = ''p1'', comp_name = ''API'', comp_description = None,
        comp_status = OPERATIONAL, comp_position = 0, comp_created_at = 0, comp_updated_at = 0\<rparr>]\<rparr>"

definition dev_writer :: auth_staff where
  "dev_writer = \<lparr>st_id = ''dev'', st_idp_subject = ''local:dev@x.org'', st_name = ''dev'',
     st_email = ''dev@x.org'', st_roles = [\<lparr>gr_role = DEVELOPER, gr_platform = Some ''p1''\<rparr>]\<rparr>"

theorem status_page_stays_on_platform_witness:
  "\<exists>i. incidents_of ''p1'' 20 (status_request (CreateIncident plain_env dev_writer ''p1''
         \<lparr>id_title = ''Down'', id_body = ''x'', id_status = None, id_impact = None, id_components = [''c1'']\<rparr>) status_db) = [i]
     \<and> last (timeline (inc_id i) (status_request (CreateIncident plain_env dev_writer ''p1''
         \<lparr>id_title = ''Down'', id_body = ''x'', id_status = None, id_impact = None, id_components = [''c1'']\<rparr>) status_db)) = INVESTIGATING"
proof -
  let ?r = "CreateIncident plain_env dev_writer ''p1''
         \<lparr>id_title = ''Down'', id_body = ''x'', id_status = None, id_impact = None, id_components = [''c1'']\<rparr>"
  have inv: "status_inv status_db" by (simp add: status_inv_def status_db_def sample_defs)
  have "map inc_status (incidents_of ''p1'' 20 (status_request ?r status_db)) = [INVESTIGATING]" by code_simp
  then obtain i where i: "incidents_of ''p1'' 20 (status_request ?r status_db) = [i]" "inc_status i = INVESTIGATING" by auto
  have "status_request ?r status_db = fold status_request [?r] status_db" by simp
  from status_page_stays_on_platform [OF inv this, of i "''p1''" 20] i show ?thesis
    by (auto simp: incidentView_def)
qed

lemma index_in_SEVERITY: "index_in SEVERITY_ORDER x = int (severity x)"
  by (cases x) (simp_all add: SEVERITY_ORDER_def)

lemma overall_fold:
  "fold (\<lambda>c acc. if index_in SEVERITY_ORDER acc < index_in SEVERITY_ORDER (comp_status c) then comp_status c else acc) cs a
     = Max (insert a (comp_status ` set cs))"
proof (induction cs arbitrary: a)
  case (Cons c cs)
  have m: "(if index_in SEVERITY_ORDER a < index_in SEVERITY_ORDER (comp_status c) then comp_status c else a) = max (comp_status c) a"
    by (auto simp: index_in_SEVERITY max_def less_eq_component_status_def intro: severity_inj)
  show ?case using Cons.IH [of "max (comp_status c) a"] by (cases "set cs = {}") (simp_all add: m ac_simps)
qed simp

text \<open>
  The banner of the public page is the worst status among the components of
  the platform, except that it says degraded where all of them are operational while one of the
  twenty newest incidents is unresolved; it is green exactly when neither is the case.
\<close>

theorem banner_is_worst_component:
  "case publicStatus e key s of
     Inl err \<Rightarrow> err = NotFound ''Unknown platform.''
   | Inr v \<Rightarrow> \<exists>p. find_platform_by_key key s = Some p \<and> plat_status p = PLATFORM_ACTIVE
       \<and> (let worst = Max (insert OPERATIONAL (comp_status ` {c \<in> set (t_components s). comp_platform c = plat_id p}))
          in ps_overall v = (if worst = OPERATIONAL \<and> ps_active v \<noteq> [] then DEGRADED else worst))
       \<and> ps_active v = map (\<lambda>i. incidentView i s) (filter (\<lambda>i. inc_status i \<noteq> INC_RESOLVED) (incidents_of (plat_id p) 20 s))"
proof (cases "find_platform_by_key key s")
  case None
  then show ?thesis by (simp add: publicStatus_def)
next
  case (Some p)
  have l: "set (loadComponents (plat_id p) s) = {c \<in> set (t_components s). comp_platform c = plat_id p}"
    by (auto simp: loadComponents_def)
  show ?thesis
    using Some
    by (cases "plat_status p") (simp_all add: publicStatus_def overallStatus_def overall_fold l Let_def PUBLIC_HISTORY_LIMIT_def)
qed

text \<open>An unresolved incident that twenty newer ones push out of the page leaves the banner green.\<close>

definition resolved_incident :: "nat \<Rightarrow> status_incident" where
  "resolved_incident n = \<lparr>inc_id = replicate (Suc n) CHR ''n'', inc_platform = ''p1'', inc_title = ''Blip'',
     inc_status = INC_RESOLVED, inc_impact = IMPACT_MINOR, inc_components = [], inc_started_at = int n + 1,
     inc_resolved_at = Some (int n + 2), inc_created_by = None, inc_created_at = 0, inc_updated_at = 0\<rparr>"

text \<open>
  The page takes the twenty newest incidents first and looks for unresolved ones
  among them only: an outage that is still open while twenty later incidents came and went is
  not shown, and the banner reads operational.
\<close>

theorem old_outage_goes_green:
  "\<exists>s v i. i \<in> set (t_incidents s) \<and> inc_platform i = ''p1'' \<and> inc_status i = INVESTIGATING \<and> length (t_incidents s) = 21
     \<and> publicStatus plain_env ''portal'' s = Inr v \<and> ps_overall v = OPERATIONAL \<and> ps_active v = []"
proof -
  let ?old = "(resolved_incident 0)\<lparr>inc_id := ''o'', inc_status := INVESTIGATING, inc_resolved_at := None, inc_started_at := 0\<rparr>"
  let ?s = "status_db\<lparr>t_incidents := ?old # map resolved_incident [0..<20]\<rparr>"
  have "(case publicStatus plain_env ''portal'' ?s of Inr v \<Rightarrow> ps_overall v = OPERATIONAL \<and> ps_active v = [] | _ \<Rightarrow> False)
    \<and> length (t_incidents ?s) = 21"
    by code_simp
  then show ?thesis
    by (intro exI [of _ ?s] exI [of _ "projr (publicStatus plain_env ''portal'' ?s)"] exI [of _ ?old])
      (auto simp: resolved_incident_def split: sum.splits)
qed

end
