(* ===== verification/Webhooks.thy ===== *)
theory Webhooks
  imports Store JsNumber
begin

text \<open>
  Outgoing webhooks: the check of a target (\<^verbatim>\<open>src/webhooks/webhooks.service.ts\<close>), delivery
  with retries and the circuit breaker, the maintenance of endpoints
  (\<^verbatim>\<open>webhooks.controller.ts\<close>) and the payloads of domain events
  (\<^verbatim>\<open>webhooks.listener.ts\<close>). Parameters: the URL parser (protocol and host name of a text,
  \<^verbatim>\<open>None\<close> where it raises), the network, the digest.
\<close>

section \<open>Safe targets\<close>

type_synonym url_parser = "string \<Rightarrow> (string \<times> string) option"

text \<open>\<^verbatim>\<open>replace(/^\[|\]$/g, '')\<close>.\<close>

definition strip_brackets :: "string \<Rightarrow> string" where
  "strip_brackets h =
     (let h1 = (case h of [] \<Rightarrow> [] | c # cs \<Rightarrow> (if c = CHR ''['' then cs else h))
      in if h1 \<noteq> [] \<and> last h1 = CHR '']'' then butlast h1 else h1)"

definition between :: "char \<Rightarrow> char \<Rightarrow> char \<Rightarrow> bool" where
  "between a b c = (code a \<le> code c \<and> code c \<le> code b)"

text \<open>What follows \<^verbatim>\<open>172.\<close>: \<^verbatim>\<open>(1[6-9]|2\d|3[01])\.\<close>.\<close>

fun block_172 :: "string \<Rightarrow> bool" where
  "block_172 (x # y # z # _) =
     (z = CHR ''.'' \<and> ((x = CHR ''1'' \<and> between (CHR ''6'') (CHR ''9'') y) \<or> (x = CHR ''2'' \<and> is_digit y)
        \<or> (x = CHR ''3'' \<and> (y = CHR ''0'' \<or> y = CHR ''1''))))"
| "block_172 _ = False"

text \<open>What follows \<^verbatim>\<open>100.\<close>: \<^verbatim>\<open>(6[4-9]|[7-9]\d|1[01]\d|12[0-7])\.\<close>.\<close>

fun block_100 :: "string \<Rightarrow> bool" where
  "block_100 (x # y # z # r) =
     ((z = CHR ''.'' \<and> ((x = CHR ''6'' \<and> between (CHR ''4'') (CHR ''9'') y) \<or> (between (CHR ''7'') (CHR ''9'') x \<and> is_digit y)))
      \<or> (take 1 r = ''.'' \<and> x = CHR ''1'' \<and> (((y = CHR ''0'' \<or> y = CHR ''1'') \<and> is_digit z)
            \<or> (y = CHR ''2'' \<and> between (CHR ''0'') (CHR ''7'') z))))"
| "block_100 _ = False"

definition isPrivate :: "string \<Rightarrow> bool" where
  "isPrivate host =
     (host = ''localhost'' \<or> ends_with ''.localhost'' host \<or> host = ''0.0.0.0''
    \<or> starts_with ''127.'' host \<or> starts_with ''10.'' host \<or> starts_with ''192.168.'' host
    \<or> (starts_with ''172.'' host \<and> block_172 (drop 4 host))
    \<or> starts_with ''169.254.'' host
    \<or> (starts_with ''100.'' host \<and> block_100 (drop 4 host)))"

definition assertSafeUrl :: "url_parser \<Rightarrow> string \<Rightarrow> unit res" where
  "assertSafeUrl parse url =
     (case parse url of
        None \<Rightarrow> Inl (BadRequest ''Invalid webhook URL.'')
      | Some (protocol, hostname) \<Rightarrow>
          require (protocol = ''https:'') (BadRequest ''Webhook URLs must use https.'')
            (let host = strip_brackets (js_lower hostname)
             in require (CHR '':'' \<notin> set host)
                  (BadRequest ''Webhook URLs must use a DNS hostname or public IPv4 address (IPv6 literals are not supported).'')
               (require (\<not> isPrivate host) (BadRequest ''Webhook URLs must not target private or loopback addresses.'')
                  (Inr ()))))"

section \<open>Sending\<close>

text \<open>\<^verbatim>\<open>fetch\<close> answers the HTTP status, \<^verbatim>\<open>None\<close> where it raises (network, timeout).\<close>

definition send :: "url_parser \<Rightarrow> (string \<Rightarrow> nat option) \<Rightarrow> webhook_endpoint \<Rightarrow> bool \<times> string list" where
  "send parse fetch ep =
     (case assertSafeUrl parse (hook_url ep) of
        Inl _ \<Rightarrow> (False, [])
      | Inr _ \<Rightarrow>
          (case fetch (hook_url ep) of
             None \<Rightarrow> (False, [hook_url ep])
           | Some status \<Rightarrow> (\<not> (300 \<le> status \<and> status < 400) \<and> 200 \<le> status \<and> status < 300, [hook_url ep])))"

definition RETRY_DELAYS_MS :: "time list" where
  "RETRY_DELAYS_MS = [2000, 8000, 30000]"

definition MUTE_AFTER_FAILURES :: nat where
  "MUTE_AFTER_FAILURES = 3"

definition MUTE_COOLDOWN_MS :: time where
  "MUTE_COOLDOWN_MS = 5 * 60000"

text \<open>
  One delivery with its retries: \<^verbatim>\<open>ok k\<close> says whether the k-th sending succeeds. The result
  is whether it was delivered, and when after the first sending (sending itself taken as
  instantaneous) the outcome is known.
\<close>

function deliver_attempt :: "(nat \<Rightarrow> bool) \<Rightarrow> nat \<Rightarrow> time \<Rightarrow> bool \<times> nat \<times> time" where
  "deliver_attempt ok tryIdx elapsed =
     (if ok tryIdx then (True, tryIdx, elapsed)
      else if tryIdx < length RETRY_DELAYS_MS
      then deliver_attempt ok (tryIdx + 1) (elapsed + RETRY_DELAYS_MS ! tryIdx)
      else (False, tryIdx, elapsed))"
  by pat_completeness auto
termination
  by (relation "measure (\<lambda>(_, k, _). length RETRY_DELAYS_MS - k)") auto

declare deliver_attempt.simps [simp del]

section \<open>The circuit breaker\<close>

record hook_health =
  hh_failures :: nat
  hh_muted_until :: time

type_synonym health = "ident \<Rightarrow> hook_health option"

definition onDelivered :: "ident \<Rightarrow> health \<Rightarrow> health" where
  "onDelivered i h = h(i := None)"

definition onExhausted :: "time \<Rightarrow> ident \<Rightarrow> health \<Rightarrow> health" where
  "onExhausted t i h =
     (let st = (case h i of None \<Rightarrow> \<lparr>hh_failures = 0, hh_muted_until = 0\<rparr> | Some x \<Rightarrow> x);
          st1 = st\<lparr>hh_failures := Suc (hh_failures st)\<rparr>;
          st2 = (if MUTE_AFTER_FAILURES \<le> hh_failures st1 then st1\<lparr>hh_muted_until := t + MUTE_COOLDOWN_MS\<rparr> else st1)
      in h(i := Some st2))"

definition muted :: "time \<Rightarrow> ident \<Rightarrow> health \<Rightarrow> bool" where
  "muted t i h = (case h i of None \<Rightarrow> False | Some st \<Rightarrow> t < hh_muted_until st)"

text \<open>The endpoints one call of \<^verbatim>\<open>deliver\<close> starts a delivery to.\<close>

definition deliver_targets :: "string \<Rightarrow> ident \<Rightarrow> time \<Rightarrow> health \<Rightarrow> db \<Rightarrow> webhook_endpoint list" where
  "deliver_targets ev pid t h s =
     filter (\<lambda>ep. hook_enabled ep \<and> (hook_platform ep = None \<or> hook_platform ep = Some pid)
               \<and> (hook_events ep = [] \<or> ev \<in> set (hook_events ep)) \<and> \<not> muted t (hook_id ep) h) (t_hooks s)"

section \<open>Maintenance of endpoints\<close>

record hook_view =
  hv_id :: ident
  hv_url :: string
  hv_events :: "string list"
  hv_enabled :: bool
  hv_platform :: "ident option"
  hv_created_at :: time

definition hook_toView :: "webhook_endpoint \<Rightarrow> ident option \<Rightarrow> hook_view" where
  "hook_toView h fallback =
     \<lparr>hv_id = hook_id h, hv_url = hook_url h, hv_events = hook_events h, hv_enabled = hook_enabled h,
      hv_platform = (case hook_platform h of Some p \<Rightarrow> Some p | None \<Rightarrow> fallback), hv_created_at = hook_created_at h\<rparr>"

definition hooks_list :: "db \<Rightarrow> hook_view list" where
  "hooks_list s = map (\<lambda>h. hook_toView h None) (sort_key hook_created_at (t_hooks s))"

definition hook_create ::
  "env \<Rightarrow> url_parser \<Rightarrow> auth_staff \<Rightarrow> string \<Rightarrow> string \<Rightarrow> string list option \<Rightarrow> ident option \<Rightarrow> db \<Rightarrow> ((hook_view \<times> string) \<times> db) res" where
  "hook_create e parse st secret url events pid s =
     bind_res (assertSafeUrl parse url) (\<lambda>_.
       require (by_key hook_id (fresh_id s) (t_hooks s) = None
                \<and> (case truthy pid of None \<Rightarrow> True | Some p \<Rightarrow> find_platform p s \<noteq> None)) db_error
         (let h = \<lparr>hook_id = fresh_id s, hook_platform = truthy pid, hook_url = url, hook_secret = secret,
                   hook_events = (case events of None \<Rightarrow> [] | Some x \<Rightarrow> x), hook_enabled = True,
                   hook_created_by = Some (st_id st), hook_created_at = now e\<rparr>
          in Inr ((hook_toView h pid, secret), draw_id (t_hooks_update (\<lambda>hs. hs @ [h]) s))))"

definition patched_hook :: "string list option \<Rightarrow> bool option \<Rightarrow> webhook_endpoint \<Rightarrow> webhook_endpoint" where
  "patched_hook events enabled h =
     (let h1 = (case events of None \<Rightarrow> h | Some x \<Rightarrow> h\<lparr>hook_events := x\<rparr>)
      in case enabled of None \<Rightarrow> h1 | Some b \<Rightarrow> h1\<lparr>hook_enabled := b\<rparr>)"

definition hook_update ::
  "url_parser \<Rightarrow> ident \<Rightarrow> string option \<Rightarrow> string list option \<Rightarrow> bool option \<Rightarrow> db \<Rightarrow> (hook_view \<times> db) res" where
  "hook_update parse i url events enabled s =
     (case by_key hook_id i (t_hooks s) of
        None \<Rightarrow> Inl (NotFound ''Webhook endpoint not found.'')
      | Some h \<Rightarrow>
          bind_res (case url of None \<Rightarrow> Inr h | Some u \<Rightarrow> bind_res (assertSafeUrl parse u) (\<lambda>_. Inr (h\<lparr>hook_url := u\<rparr>)))
            (\<lambda>h1.
              (let h2 = patched_hook events enabled h1
               in Inr (hook_toView h2 None, t_hooks_update (replace_row hook_id h2) s))))"

definition hook_remove :: "ident \<Rightarrow> db \<Rightarrow> db res" where
  "hook_remove i s =
     (case by_key hook_id i (t_hooks s) of
        None \<Rightarrow> Inl (NotFound ''Webhook endpoint not found.'')
      | Some h \<Rightarrow> Inr (t_hooks_update (remove_key hook_id (hook_id h)) s))"

section \<open>Payloads\<close>

text \<open>The issue, the platform and the change an event is forwarded with; one kind is not.\<close>

fun forwarded :: "domain_event \<Rightarrow> (ident \<times> ident \<times> (string \<times> json) list) option" where
  "forwarded (IssueCreated i p) = Some (i, p, [])"
| "forwarded (IssueStatusChanged i p a b _) = Some (i, p, [(''from'', JStr (status_name a)), (''to'', JStr (status_name b))])"
| "forwarded (IssuePriorityChanged i p a b _) = Some (i, p, [(''from'', JStr (priority_name a)), (''to'', JStr (priority_name b))])"
| "forwarded (IssueAssigned i p a _) = Some (i, p, [(''assigneeId'', (case a of None \<Rightarrow> JNull | Some x \<Rightarrow> JStr x))])"
| "forwarded (CommentAdded i p _ v _ _) = Some (i, p, [(''reporterVisible'', JBool v)])"
| "forwarded (AttachmentsScanned _) = None"
| "forwarded (IssueMerged d c p _) = Some (d, p, [(''canonicalIssueId'', JStr c)])"
| "forwarded (CsatReceived i p sc) = Some (i, p, [(''score'', JNum (of_int sc))])"
| "forwarded (IssueSlaBreached i p) = Some (i, p, [])"

record hook_payload =
  hp_event :: string
  hp_timestamp :: time
  hp_platform_key :: string
  hp_issue :: "ident \<times> string \<times> string \<times> issue_status \<times> priority"
  hp_change :: "(string \<times> json) list"

definition forward :: "env \<Rightarrow> health \<Rightarrow> domain_event \<Rightarrow> db \<Rightarrow> (webhook_endpoint list \<times> hook_payload) option" where
  "forward e h ev s =
     (case forwarded ev of
        None \<Rightarrow> None
      | Some (iid, pid, change) \<Rightarrow>
          (case find_issue iid s of
             None \<Rightarrow> None
           | Some i \<Rightarrow>
               (case find_platform (iss_platform i) s of
                  None \<Rightarrow> None
                | Some p \<Rightarrow> Some (deliver_targets (event_name ev) pid (now e) h s,
                    \<lparr>hp_event = event_name ev, hp_timestamp = now e, hp_platform_key = plat_key p,
                     hp_issue = (iss_id i, iss_reference_no i, take 300 (iss_description i), iss_status i, iss_priority i),
                     hp_change = change\<rparr>))))"

section \<open>Numeric addresses\<close>

definition octet :: "nat \<Rightarrow> string" where
  "octet n = show_nat n"

definition ipv4 :: "nat \<Rightarrow> nat \<Rightarrow> nat \<Rightarrow> nat \<Rightarrow> string" where
  "ipv4 a b c d = octet a @ CHR ''.'' # octet b @ CHR ''.'' # octet c @ CHR ''.'' # octet d"

definition digit :: "nat \<Rightarrow> char" where
  "digit n = char_of (48 + n)"

lemma code_digit [simp]: "n < 10 \<Longrightarrow> code (digit n) = 48 + n"
  by (simp add: digit_def)

lemma show_step: "0 < f \<Longrightarrow> show_nat_aux f n acc =
    (if n < 10 then digit (n mod 10) # acc else show_nat_aux (f - 1) (n div 10) (digit (n mod 10) # acc))"
  by (cases f) (simp_all add: digit_def Let_def)

lemma octet_digits:
  assumes "n < 256"
  shows "octet n = (if n < 10 then [digit n] else if n < 100 then [digit (n div 10), digit (n mod 10)]
     else [digit (n div 100), digit (n div 10 mod 10), digit (n mod 10)])"
proof -
  have "octet n = (if n < 10 then [digit n] else show_nat_aux n (n div 10) [digit (n mod 10)])"
    unfolding octet_def show_nat_def by (subst show_step) simp_all
  moreover have "show_nat_aux n (n div 10) acc = (if n < 100 then digit (n div 10) # acc
      else show_nat_aux (n - 1) (n div 100) (digit (n div 10 mod 10) # acc))" if "10 \<le> n" for acc
    using that by (subst show_step) (simp_all add: div_mult2_eq [symmetric])
  moreover have "show_nat_aux (n - 1) (n div 100) acc = digit (n div 100) # acc" if "100 \<le> n" for acc
    using that assms by (subst show_step) simp_all
  ultimately show ?thesis by simp
qed

lemma octet_cases:
  assumes "n < 256"
  obtains x where "octet n = [digit x]" "n = x" "x < 10"
  | x y where "octet n = [digit x, digit y]" "n = 10 * x + y" "0 < x" "x < 10" "y < 10"
  | x y z where "octet n = [digit x, digit y, digit z]" "n = 100 * x + 10 * y + z" "x = 1 \<or> x = 2" "y < 10" "z < 10"
proof -
  consider "n < 10" | "10 \<le> n" "n < 100" | "100 \<le> n" by linarith
  then show thesis
  proof cases
    case 1
    then show thesis by (intro that(1) [of n]) (use octet_digits [OF assms] in simp_all)
  next
    case 2
    then show thesis by (intro that(2) [of "n div 10" "n mod 10"]) (use octet_digits [OF assms] in simp_all)
  next
    case 3
    have "n div 10 div 10 = n div 100" by (simp add: div_mult2_eq [symmetric])
    then have "n = 100 * (n div 100) + 10 * (n div 10 mod 10) + n mod 10"
      using div_mult_mod_eq [of n 10] div_mult_mod_eq [of "n div 10" 10] by linarith
    moreover from 3 assms have "n div 100 = 1 \<or> n div 100 = 2" by linarith
    ultimately show thesis using 3
      by (intro that(3) [of "n div 100" "n div 10 mod 10" "n mod 10"]) (use octet_digits [OF assms] assms in simp_all)
  qed
qed

text \<open>The digits of an octet: what the checks compare it with, decided by its value.\<close>

lemma digit_eq: "m < 10 \<Longrightarrow> digit m = c \<longleftrightarrow> code c = 48 + m"
  by (auto simp: char_eq_code)

lemma octet_chars: "n < 256 \<Longrightarrow> c \<in> set (octet n) \<Longrightarrow> is_digit c"
  by (erule octet_cases) (auto simp: is_digit_def)

lemma octet_ne: "n < 256 \<Longrightarrow> octet n \<noteq> []"
  by (erule octet_cases) auto

lemma code_digits:
  "code (CHR ''0'') = 48" "code (CHR ''1'') = 49" "code (CHR ''2'') = 50" "code (CHR ''3'') = 51" "code (CHR ''4'') = 52"
  "code (CHR ''5'') = 53" "code (CHR ''6'') = 54" "code (CHR ''7'') = 55" "code (CHR ''8'') = 56" "code (CHR ''9'') = 57"
  "code (CHR ''.'') = 46"
  by (simp_all add: code_def)

lemmas octet_simps = starts_with_def digit_eq code_digits between_def is_digit_def

lemma octet_starts:
  "n < 256 \<Longrightarrow> starts_with ''127.'' (octet n @ CHR ''.'' # r) \<longleftrightarrow> n = 127"
  "n < 256 \<Longrightarrow> starts_with ''10.'' (octet n @ CHR ''.'' # r) \<longleftrightarrow> n = 10"
  "n < 256 \<Longrightarrow> starts_with ''192.'' (octet n @ CHR ''.'' # r) \<longleftrightarrow> n = 192"
  "n < 256 \<Longrightarrow> starts_with ''172.'' (octet n @ CHR ''.'' # r) \<longleftrightarrow> n = 172"
  "n < 256 \<Longrightarrow> starts_with ''169.'' (octet n @ CHR ''.'' # r) \<longleftrightarrow> n = 169"
  "n < 256 \<Longrightarrow> starts_with ''100.'' (octet n @ CHR ''.'' # r) \<longleftrightarrow> n = 100"
  "n < 256 \<Longrightarrow> starts_with ''168.'' (octet n @ CHR ''.'' # r) \<longleftrightarrow> n = 168"
  "n < 256 \<Longrightarrow> starts_with ''254.'' (octet n @ CHR ''.'' # r) \<longleftrightarrow> n = 254"
  by (erule octet_cases; auto simp: octet_simps; presburger)+

lemma octet_blocks:
  "n < 256 \<Longrightarrow> block_172 (octet n @ CHR ''.'' # r) \<longleftrightarrow> 16 \<le> n \<and> n \<le> 31"
  "n < 256 \<Longrightarrow> block_100 (octet n @ CHR ''.'' # r) \<longleftrightarrow> 64 \<le> n \<and> n \<le> 127"
  by (cases r; erule octet_cases; auto simp: octet_simps; presburger)+

lemma octet_no_dot: "n < 256 \<Longrightarrow> CHR ''.'' \<notin> set (octet n)"
  using octet_chars [of n "CHR ''.''"] by (auto simp: is_digit_def code_digits)

lemma octet_zero: "n < 256 \<Longrightarrow> octet n = ''0'' \<longleftrightarrow> n = 0"
  by (erule octet_cases; auto simp: octet_simps)

text \<open>A prefix that ends in a dot is matched by a dotted text exactly when its first segment is that prefix.\<close>

lemma starts_with_split:
  "CHR ''.'' \<notin> set p \<Longrightarrow> CHR ''.'' \<notin> set w \<Longrightarrow>
   starts_with (p @ CHR ''.'' # q) (w @ CHR ''.'' # r) \<longleftrightarrow> p = w \<and> starts_with q r"
  by (induction p arbitrary: w; case_tac w) (auto simp: starts_with_def)

lemma drop_octet: "starts_with (p @ ''.'') (octet n @ CHR ''.'' # r) \<Longrightarrow> CHR ''.'' \<notin> set p \<Longrightarrow> n < 256 \<Longrightarrow>
  m = length p + 1 \<Longrightarrow> drop m (octet n @ CHR ''.'' # r) = r"
proof -
  assume a: "starts_with (p @ ''.'') (octet n @ CHR ''.'' # r)" "CHR ''.'' \<notin> set p" "n < 256" "m = length p + 1"
  have "CHR ''.'' \<notin> set (octet n)" by (rule octet_no_dot [OF a(3)])
  with a(1,2) have "p = octet n" using starts_with_split [of p "octet n" "[]" r] by auto
  then show ?thesis using a(4) by simp
qed

definition reserved :: "nat \<Rightarrow> nat \<Rightarrow> nat \<Rightarrow> nat \<Rightarrow> bool" where
  "reserved a b c d =
     (a = 127 \<or> a = 10 \<or> (a = 192 \<and> b = 168) \<or> (a = 172 \<and> 16 \<le> b \<and> b \<le> 31) \<or> (a = 169 \<and> b = 254)
    \<or> (a = 100 \<and> 64 \<le> b \<and> b \<le> 127) \<or> (a = 0 \<and> b = 0 \<and> c = 0 \<and> d = 0))"

lemma isPrivate_ipv4:
  assumes o: "a < 256" "b < 256" "c < 256" "d < 256"
  shows "isPrivate (ipv4 a b c d) \<longleftrightarrow> reserved a b c d"
proof -
  note dot = octet_no_dot
  let ?r = "octet c @ CHR ''.'' # octet d"
  let ?h = "ipv4 a b c d"
  have s: "starts_with (p @ CHR ''.'' # q) ?h \<longleftrightarrow> starts_with (p @ ''.'') ?h \<and> starts_with q (octet b @ CHR ''.'' # ?r)"
    if "CHR ''.'' \<notin> set p" for p q
    using starts_with_split [OF that dot [OF o(1)], of q] starts_with_split [OF that dot [OF o(1)], of "[]"]
    by (simp add: ipv4_def starts_with_def [of "[]"])
  have one: "starts_with ''127.'' ?h \<longleftrightarrow> a = 127" "starts_with ''10.'' ?h \<longleftrightarrow> a = 10" "starts_with ''192.'' ?h \<longleftrightarrow> a = 192"
    "starts_with ''172.'' ?h \<longleftrightarrow> a = 172" "starts_with ''169.'' ?h \<longleftrightarrow> a = 169" "starts_with ''100.'' ?h \<longleftrightarrow> a = 100"
    by (simp_all add: ipv4_def octet_starts o)
  have two: "starts_with ''192.168.'' ?h \<longleftrightarrow> a = 192 \<and> b = 168" "starts_with ''169.254.'' ?h \<longleftrightarrow> a = 169 \<and> b = 254"
    using s [of "''192''" "''168.''"] s [of "''169''" "''254.''"] one by (simp_all add: octet_starts o)
  have tail: "drop 4 ?h = octet b @ CHR ''.'' # ?r" if "a = 172 \<or> a = 100"
    using that drop_octet [of "''172''" a "octet b @ CHR ''.'' # ?r" 4] drop_octet [of "''100''" a "octet b @ CHR ''.'' # ?r" 4] one o
    by (auto simp: ipv4_def)
  have zero: "?h = ''0.0.0.0'' \<longleftrightarrow> a = 0 \<and> b = 0 \<and> c = 0 \<and> d = 0"
  proof
    assume z: "?h = ''0.0.0.0''"
    have "length (octet n) \<ge> 1" if "n < 256" for n using octet_ne [OF that] by (cases "octet n") auto
    with o have l: "length (octet a) \<ge> 1" "length (octet b) \<ge> 1" "length (octet c) \<ge> 1" "length (octet d) \<ge> 1" by auto
    moreover have "length (octet a) + length (octet b) + length (octet c) + length (octet d) = 4"
      using arg_cong [OF z, of length] by (simp add: ipv4_def)
    ultimately have "length (octet a) = 1 \<and> length (octet b) = 1 \<and> length (octet c) = 1 \<and> length (octet d) = 1" by linarith
    with z have "octet a = ''0'' \<and> octet b = ''0'' \<and> octet c = ''0'' \<and> octet d = ''0''"
      by (auto simp: ipv4_def length_Suc_conv)
    then show "a = 0 \<and> b = 0 \<and> c = 0 \<and> d = 0" using octet_zero o by blast
  next
    have "octet 0 = ''0''" using octet_zero [of 0] by simp
    then show "a = 0 \<and> b = 0 \<and> c = 0 \<and> d = 0 \<Longrightarrow> ?h = ''0.0.0.0''" by (simp add: ipv4_def)
  qed
  have "is_digit (hd ?h)" "?h \<noteq> []" using octet_chars [OF o(1)] octet_ne [OF o(1)] by (auto simp: ipv4_def hd_append)
  then have nl: "?h \<noteq> ''localhost''" by (auto simp: is_digit_def code_def)
  have "is_digit (last ?h)" using octet_chars [OF o(4)] octet_ne [OF o(4)] by (simp add: ipv4_def)
  then have ne: "\<not> ends_with ''.localhost'' ?h"
    by (auto simp: ends_with_def is_digit_def code_def dest!: arg_cong [where f = last])
  have m172: "starts_with ''172.'' ?h \<and> block_172 (drop 4 ?h) \<longleftrightarrow> a = 172 \<and> 16 \<le> b \<and> b \<le> 31"
    using tail unfolding one(4) by (cases "a = 172") (simp_all only: octet_blocks [OF o(2)] simp_thms)
  have m100: "starts_with ''100.'' ?h \<and> block_100 (drop 4 ?h) \<longleftrightarrow> a = 100 \<and> 64 \<le> b \<and> b \<le> 127"
    using tail unfolding one(6) by (cases "a = 100") (simp_all only: octet_blocks [OF o(2)] simp_thms)
  show ?thesis
    unfolding isPrivate_def reserved_def m172 m100 one(1,2) two zero using nl ne by blast
qed

text \<open>
  C28: For every numeric IPv4 target of an https URL the textual checks decide
  exactly the reserved ranges: loopback, the three private blocks, link-local (the cloud
  metadata service), carrier-grade NAT and the unspecified address are refused, everything else
  passes; a refused endpoint is never contacted, whatever the network would answer.
\<close>

theorem private_targets_refused:
  assumes "parse url = Some (''https:'', ipv4 a b c d)" and "a < 256" "b < 256" "c < 256" "d < 256"
  shows "(is_ok (assertSafeUrl parse url) \<longleftrightarrow> \<not> reserved a b c d)
     \<and> (reserved a b c d \<longrightarrow> hook_url ep \<noteq> url \<or> send parse fetch ep = (False, []))"
proof -
  let ?h = "ipv4 a b c d"
  have ch: "is_digit x \<or> x = CHR ''.''" if "x \<in> set ?h" for x
    using that octet_chars assms(2-5) by (auto simp: ipv4_def)
  have "lower_char x = x" if "x \<in> set ?h" for x
    using ch [OF that] by (auto simp: is_digit_def char_eq_code code_lower_char code_digits)
  then have low: "js_lower ?h = ?h" by (simp add: js_lower_def map_idI)
  have ne: "?h \<noteq> []" using octet_ne [OF assms(2)] by (simp add: ipv4_def)
  have br: "x \<notin> {CHR ''['', CHR '']'', CHR '':''}" if "x \<in> set ?h" for x
    using ch [OF that] by (auto simp: is_digit_def code_def)
  have str: "strip_brackets ?h = ?h"
    using br ne last_in_set [OF ne] by (cases ?h) (auto simp: strip_brackets_def Let_def split: if_splits)
  have colon: "CHR '':'' \<notin> set ?h" using br by auto
  have eq: "is_ok (assertSafeUrl parse url) \<longleftrightarrow> \<not> reserved a b c d"
    using colon by (simp add: assertSafeUrl_def assms(1) low str require_def isPrivate_ipv4 [OF assms(2-5)])
  moreover have "send parse fetch ep = (False, [])" if "reserved a b c d" "hook_url ep = url"
    using eq that by (auto simp: send_def is_ok_def split: sum.splits)
  ultimately show ?thesis by blast
qed

theorem private_targets_refused_witness:
  "\<not> is_ok (assertSafeUrl (\<lambda>_. Some (''https:'', ''169.254.169.254'')) ''https://169.254.169.254/'')"
proof -
  have "octet 169 = ''169''" "octet 254 = ''254''" by (simp_all add: octet_digits digit_def char_eq_code code_digits)
  then have "ipv4 169 254 169 254 = ''169.254.169.254''" by (simp add: ipv4_def)
  then show ?thesis
    using private_targets_refused [of "\<lambda>_. Some (''https:'', ''169.254.169.254'')" "''https://169.254.169.254/''" 169 254 169 254]
    by (simp add: reserved_def)
qed

section \<open>The breaker counts consecutive failures\<close>

datatype hook_outcome = Delivered ident | Exhausted time ident

fun run_outcome :: "hook_outcome \<Rightarrow> health \<Rightarrow> health" where
  "run_outcome (Delivered i) h = onDelivered i h"
| "run_outcome (Exhausted t i) h = onExhausted t i h"

text \<open>The specification: the times of the exhausted deliveries since the last successful one, newest first.\<close>

fun failures_since :: "ident \<Rightarrow> hook_outcome list \<Rightarrow> time list" where
  "failures_since i [] = []"
| "failures_since i (Delivered j # later) = (if i = j then [] else failures_since i later)"
| "failures_since i (Exhausted t j # later) = (if i = j then t # failures_since i later else failures_since i later)"

definition health_spec :: "time list \<Rightarrow> hook_health option" where
  "health_spec ts = (if ts = [] then None
     else Some \<lparr>hh_failures = length ts,
                hh_muted_until = (if MUTE_AFTER_FAILURES \<le> length ts then hd ts + MUTE_COOLDOWN_MS else 0)\<rparr>)"

lemma health_refines:
  "fold run_outcome os (\<lambda>_. None) i = health_spec (failures_since i (rev os))"
proof (induction os rule: rev_induct)
  case (snoc x os)
  show ?case
  proof (cases x)
    case (Delivered j)
    with snoc show ?thesis by (simp add: onDelivered_def health_spec_def)
  next
    case (Exhausted t j)
    let ?ts = "failures_since i (rev os)"
    show ?thesis
    proof (cases "i = j")
      case True
      have "onExhausted t i h i = health_spec (t # ts)" if "h i = health_spec ts" for h ts
        using that by (cases ts) (auto simp: onExhausted_def health_spec_def Let_def MUTE_AFTER_FAILURES_def)
      with snoc Exhausted True show ?thesis by simp
    next
      case False
      with snoc Exhausted show ?thesis by (simp add: onExhausted_def Let_def)
    qed
  qed
qed (simp add: health_spec_def)

text \<open>
  C29: An endpoint that an event is meant for is skipped at a moment exactly
  when its last three or more deliveries in a row all ran out of retries and the newest of them
  ended less than five minutes before: one success or the five minutes bring it back, and from
  then on every event is let through, not one probe, until the next delivery has run out.
\<close>

theorem breaker_mutes_after_three:
  assumes "0 \<le> t"
  shows "ep \<in> set (deliver_targets ev pid t (fold run_outcome os (\<lambda>_. None)) s)
     \<longleftrightarrow> ep \<in> set (deliver_targets ev pid t (\<lambda>_. None) s)
       \<and> \<not> (let ts = failures_since (hook_id ep) (rev os) in 3 \<le> length ts \<and> t < hd ts + 300000)"
proof -
  have "muted t i (fold run_outcome os (\<lambda>_. None))
      \<longleftrightarrow> (let ts = failures_since i (rev os) in 3 \<le> length ts \<and> t < hd ts + 300000)" for i
    using assms unfolding muted_def health_refines
    by (auto simp: health_spec_def MUTE_AFTER_FAILURES_def MUTE_COOLDOWN_MS_def Let_def)
  then show ?thesis by (auto simp: deliver_targets_def muted_def)
qed

definition demo_hook :: webhook_endpoint where
  "demo_hook = \<lparr>hook_id = ''h1'', hook_platform = None, hook_url = ''https://example.com/'', hook_secret = ''k'',
     hook_events = [], hook_enabled = True, hook_created_by = None, hook_created_at = 0\<rparr>"

theorem breaker_mutes_after_three_witness:
  "demo_hook \<notin> set (deliver_targets ''issue.created'' ''p1'' 120001
      (fold run_outcome [Exhausted 100000 ''h1'', Exhausted 110000 ''h1'', Exhausted 120000 ''h1''] (\<lambda>_. None))
      (empty_db\<lparr>t_hooks := [demo_hook]\<rparr>))"
  using breaker_mutes_after_three [of 120001 demo_hook "''issue.created''" "''p1''"
      "[Exhausted 100000 ''h1'', Exhausted 110000 ''h1'', Exhausted 120000 ''h1'']" "empty_db\<lparr>t_hooks := [demo_hook]\<rparr>"]
  by (simp add: demo_hook_def)

text \<open>A delivery makes at most four sendings within forty seconds of waiting, the last of them decides.\<close>

lemma deliver_attempt_bound:
  "deliver_attempt ok k el = (b, n, t) \<Longrightarrow> k \<le> 3 \<Longrightarrow>
     k \<le> n \<and> n \<le> 3 \<and> b = ok n \<and> (b \<or> n = 3) \<and> (\<forall>j. k \<le> j \<and> j < n \<longrightarrow> \<not> ok j)
     \<and> t = el + sum_list (map (\<lambda>j. RETRY_DELAYS_MS ! j) [k..<n])"
proof (induction ok k el rule: deliver_attempt.induct)
  case (1 ok k el)
  show ?case
  proof (cases "ok k \<or> \<not> k < length RETRY_DELAYS_MS")
    case True
    with 1 show ?thesis
      by (auto simp: deliver_attempt.simps [of ok k] RETRY_DELAYS_MS_def split: if_splits)
  next
    case False
    then have d: "deliver_attempt ok k el = deliver_attempt ok (k + 1) (el + RETRY_DELAYS_MS ! k)"
      by (simp add: deliver_attempt.simps [of ok k])
    have k: "k < 3" using False by (simp add: RETRY_DELAYS_MS_def)
    have ih: "k + 1 \<le> n \<and> n \<le> 3 \<and> b = ok n \<and> (b \<or> n = 3) \<and> (\<forall>j. k + 1 \<le> j \<and> j < n \<longrightarrow> \<not> ok j)
       \<and> t = el + RETRY_DELAYS_MS ! k + sum_list (map (\<lambda>j. RETRY_DELAYS_MS ! j) [k + 1..<n])"
      by (rule 1(1)) (use False 1(2) k d in simp_all)
    moreover from ih have "[k..<n] = k # [k + 1..<n]" by (simp add: upt_rec)
    moreover have "\<not> ok j" if "k \<le> j" "j < n" for j
      using that ih False by (cases "j = k") auto
    moreover have "b \<or> n = 3" using ih by blast
    ultimately show ?thesis by simp
  qed
qed

section \<open>Endpoints stay safe\<close>

definition hooks_safe :: "url_parser \<Rightarrow> db \<Rightarrow> bool" where
  "hooks_safe parse s = list_all (\<lambda>h. is_ok (assertSafeUrl parse (hook_url h))) (t_hooks s)"

text \<open>Whatever is stored through the controller has passed the check.\<close>

lemma hooks_safe_create:
  "hooks_safe parse s \<Longrightarrow> hook_create e parse st sec url ev pid s = Inr (v, t) \<Longrightarrow> hooks_safe parse t"
  by (auto simp: hook_create_def res_iffs hooks_safe_def Let_def draw_id_def is_ok_def)

lemma hooks_safe_update:
  assumes "hooks_safe parse s" and "hook_update parse i url ev en s = Inr (v, t)" shows "hooks_safe parse t"
proof -
  from assms(2) obtain h h1 where h: "by_key hook_id i (t_hooks s) = Some h"
    and h1: "(case url of None \<Rightarrow> Inr h | Some u \<Rightarrow> bind_res (assertSafeUrl parse u) (\<lambda>_. Inr (h\<lparr>hook_url := u\<rparr>))) = Inr h1"
    and t: "t = t_hooks_update (replace_row hook_id (patched_hook ev en h1)) s"
    by (auto simp: hook_update_def bind_res_Inr_iff Let_def split: option.splits)
  have "hook_url (patched_hook ev en h1) = hook_url h1" by (simp add: patched_hook_def split: option.splits)
  moreover have "is_ok (assertSafeUrl parse (hook_url h1))"
    using h1 assms(1) by_key_SomeD [OF h] by (auto simp: bind_res_Inr_iff hooks_safe_def list_all_iff split: option.splits)
  ultimately show ?thesis using t assms(1) by (auto simp: hooks_safe_def list_all_iff dest!: in_replace_rowD)
qed

lemma hooks_safe_remove: "hooks_safe parse s \<Longrightarrow> hook_remove i s = Inr t \<Longrightarrow> hooks_safe parse t"
  by (auto simp: hook_remove_def hooks_safe_def remove_key_def list_all_iff split: option.splits)

inductive hook_step :: "url_parser \<Rightarrow> db \<Rightarrow> db \<Rightarrow> bool" for parse where
  create: "hook_create e parse st sec url ev pid s = Inr (v, t) \<Longrightarrow> hook_step parse s t"
| update: "hook_update parse i url' ev' en s = Inr (v', t) \<Longrightarrow> hook_step parse s t"
| remove: "hook_remove i s = Inr t \<Longrightarrow> hook_step parse s t"

interpretation hooks: transition_system "hook_step parse" "hooks_safe parse" for parse
  by unfold_locales
    (auto elim!: hook_step.cases intro: hooks_safe_create hooks_safe_update hooks_safe_remove)

text \<open>So an endpoint that is contacted after any sequence of requests is one whose target passes the check.\<close>

lemma contacted_is_safe:
  assumes "hooks_safe parse s" and "(hook_step parse)\<^sup>*\<^sup>* s t" and "ep \<in> set (deliver_targets ev pid n h t)"
  shows "is_ok (assertSafeUrl parse (hook_url ep))"
  using hooks.reach_inv [OF assms(2,1)] assms(3) by (auto simp: hooks_safe_def list_all_iff deliver_targets_def)

end
