(* ===== verification/Realtime.thy ===== *)
theory Realtime
  imports Accounts
begin

text \<open>
  The event stream of the staff browsers (\<^verbatim>\<open>src/realtime\<close>): domain events are bridged onto
  one stream, every open connection receives those of the platforms in its scope and those
  that name its owner. A connection is opened with a ticket, counted against a cap per account,
  and re-authorized on every heartbeat. Connections are numbered so that a run can speak of
  one; what the process keeps per connection (scope, pinned token version) is its row.
\<close>

section \<open>The bridge\<close>

record rt_event =
  rt_type :: string
  rt_issue :: ident
  rt_platform :: ident
  rt_targets :: "ident list option"

fun bridge :: "domain_event \<Rightarrow> rt_event option" where
  "bridge (IssueCreated i p) =
     Some \<lparr>rt_type = event_name (IssueCreated i p), rt_issue = i, rt_platform = p, rt_targets = None\<rparr>"
| "bridge (IssueStatusChanged i p a b u) =
     Some \<lparr>rt_type = event_name (IssueStatusChanged i p a b u), rt_issue = i, rt_platform = p, rt_targets = None\<rparr>"
| "bridge (IssuePriorityChanged i p a b u) =
     Some \<lparr>rt_type = event_name (IssuePriorityChanged i p a b u), rt_issue = i, rt_platform = p, rt_targets = None\<rparr>"
| "bridge (IssueAssigned i p a u) =
     Some \<lparr>rt_type = event_name (IssueAssigned i p a u), rt_issue = i, rt_platform = p,
           rt_targets = map_option (\<lambda>x. [x]) (truthy a)\<rparr>"
| "bridge (CommentAdded i p c v u ms) =
     Some \<lparr>rt_type = event_name (CommentAdded i p c v u ms), rt_issue = i, rt_platform = p,
           rt_targets = (if ms = [] then None else Some ms)\<rparr>"
| "bridge _ = None"

section \<open>The cap on open streams\<close>

definition MAX_STREAMS_PER_STAFF :: nat where
  "MAX_STREAMS_PER_STAFF = 6"

type_synonym stream_count = "ident \<Rightarrow> nat option"

definition openStreamCount :: "ident \<Rightarrow> stream_count \<Rightarrow> nat" where
  "openStreamCount i m = (case m i of None \<Rightarrow> 0 | Some n \<Rightarrow> n)"

definition acquireStream :: "ident \<Rightarrow> stream_count \<Rightarrow> bool \<times> stream_count" where
  "acquireStream i m =
     (let open_now = openStreamCount i m
      in if MAX_STREAMS_PER_STAFF \<le> open_now then (False, m) else (True, m(i \<mapsto> open_now + 1)))"

text \<open>A count of nothing or one falls to zero and the entry goes.\<close>

definition releaseStream :: "ident \<Rightarrow> stream_count \<Rightarrow> stream_count" where
  "releaseStream i m =
     (let left = openStreamCount i m - 1 in if 0 < left then m(i \<mapsto> left) else m(i := None))"

section \<open>Connections\<close>

record connection =
  cn_no :: nat
  cn_staff :: ident
  cn_allowed :: scope
  cn_pinned :: "int option"

record hub =
  hub_streams :: stream_count
  hub_conns :: "connection list"
  hub_next :: nat
  hub_sent :: "(nat \<times> rt_event) list"

definition empty_hub :: hub where
  "empty_hub = \<lparr>hub_streams = (\<lambda>_. None), hub_conns = [], hub_next = 0, hub_sent = []\<rparr>"

text \<open>The guard of the stream: an absent ticket is the empty one.\<close>

definition sse_guard ::
  "env \<Rightarrow> (string \<Rightarrow> jwt_payload option) \<Rightarrow> string option \<Rightarrow> string \<Rightarrow> db \<Rightarrow> auth_staff res \<times> db" where
  "sse_guard e check jwt_secret ticket s =
     (let (staff, s') = (if ticket \<noteq> '''' then verifySseTicket e check jwt_secret ticket s else (None, s))
      in (case staff of None \<Rightarrow> Inl (Unauthorized ''Unauthorized'') | Some st \<Rightarrow> Inr st, s'))"

definition ticket :: "(jwt_payload \<Rightarrow> string) \<Rightarrow> string option \<Rightarrow> auth_staff \<Rightarrow> db \<Rightarrow> string res" where
  "ticket sign jwt_secret st s =
     (case truthy (signSseTicket sign jwt_secret (st_idp_subject st) s) of
        None \<Rightarrow> Inl (Unauthorized ''Unauthorized'') | Some t \<Rightarrow> Inr t)"

definition events :: "auth_staff \<Rightarrow> hub \<Rightarrow> hub res" where
  "events st h =
     (case acquireStream (st_id st) (hub_streams h) of
        (False, _) \<Rightarrow> Inl (TooManyRequests
          ''Too many open event streams for this account. Close an existing tab and retry.'')
      | (True, m) \<Rightarrow>
          Inr (h\<lparr>hub_streams := m, hub_next := Suc (hub_next h),
                 hub_conns := hub_conns h @ [\<lparr>cn_no = hub_next h, cn_staff = st_id st,
                    cn_allowed = scopedPlatformIds st, cn_pinned = None\<rparr>]\<rparr>))"

definition in_scope :: "connection \<Rightarrow> rt_event \<Rightarrow> bool" where
  "in_scope c ev =
     (scopeAllows (cn_allowed c) (rt_platform ev)
    \<or> (case rt_targets ev of None \<Rightarrow> False | Some ids \<Rightarrow> cn_staff c \<in> set ids))"

definition publish :: "domain_event \<Rightarrow> hub \<Rightarrow> hub" where
  "publish ev h =
     (case bridge ev of
        None \<Rightarrow> h
      | Some r \<Rightarrow> h\<lparr>hub_sent := hub_sent h @ map (\<lambda>c. (cn_no c, r)) (filter (\<lambda>c. in_scope c r) (hub_conns h))\<rparr>)"

text \<open>The end of a connection, however it comes, returns its slot.\<close>

definition finalize :: "nat \<Rightarrow> hub \<Rightarrow> hub" where
  "finalize n h =
     (case by_key cn_no n (hub_conns h) of
        None \<Rightarrow> h
      | Some c \<Rightarrow> h\<lparr>hub_conns := remove_key cn_no n (hub_conns h),
                   hub_streams := releaseStream (cn_staff c) (hub_streams h)\<rparr>)"

text \<open>
  The re-authorization of one tick: \<^verbatim>\<open>None\<close> ends the stream. A failing query (no database to
  read) keeps the scope there is.
\<close>

definition reauthorize :: "db option \<Rightarrow> connection \<Rightarrow> connection option" where
  "reauthorize found c =
     (case found of
        None \<Rightarrow> Some c
      | Some s \<Rightarrow>
          (case refreshAuthenticated (cn_staff c) s of
             None \<Rightarrow> None
           | Some (st, tv) \<Rightarrow>
               (case cn_pinned c of
                  Some v \<Rightarrow> (if tv \<noteq> v then None else Some (c\<lparr>cn_allowed := scopedPlatformIds st\<rparr>))
                | None \<Rightarrow> Some (c\<lparr>cn_pinned := Some tv, cn_allowed := scopedPlatformIds st\<rparr>))))"

definition heartbeat :: "nat \<Rightarrow> db option \<Rightarrow> hub \<Rightarrow> hub" where
  "heartbeat n found h =
     (case by_key cn_no n (hub_conns h) of
        None \<Rightarrow> h
      | Some c \<Rightarrow>
          (case reauthorize found c of
             None \<Rightarrow> finalize n h
           | Some c' \<Rightarrow> h\<lparr>hub_conns := replace_row cn_no c' (hub_conns h)\<rparr>))"

section \<open>Runs\<close>

datatype hub_op =
    Connect auth_staff
  | Publish domain_event
  | Tick nat "db option"
  | HangUp nat

fun run_hub :: "hub_op \<Rightarrow> hub \<Rightarrow> hub" where
  "run_hub (Connect st) h = (case events st h of Inl _ \<Rightarrow> h | Inr h' \<Rightarrow> h')"
| "run_hub (Publish ev) h = publish ev h"
| "run_hub (Tick n found) h = heartbeat n found h"
| "run_hub (HangUp n) h = finalize n h"

definition open_of :: "ident \<Rightarrow> hub \<Rightarrow> connection list" where
  "open_of i h = filter (\<lambda>c. cn_staff c = i) (hub_conns h)"

definition hub_inv :: "hub \<Rightarrow> bool" where
  "hub_inv h =
     (distinct (map cn_no (hub_conns h)) \<and> (\<forall>c \<in> set (hub_conns h). cn_no c < hub_next h)
    \<and> (\<forall>i. openStreamCount i (hub_streams h) = length (open_of i h) \<and> length (open_of i h) \<le> MAX_STREAMS_PER_STAFF))"

definition hub_step :: "hub \<Rightarrow> hub \<Rightarrow> bool" where
  "hub_step h h' = (\<exists>op. h' = run_hub op h)"

lemma count_acquire:
  "acquireStream i m = (True, m') \<Longrightarrow> openStreamCount j m' = openStreamCount j m + (if j = i then 1 else 0)
     \<and> openStreamCount i m < MAX_STREAMS_PER_STAFF"
  by (auto simp: acquireStream_def openStreamCount_def Let_def split: if_splits)

lemma count_release:
  "openStreamCount j (releaseStream i m) = openStreamCount j m - (if j = i then 1 else 0)"
  by (auto simp: releaseStream_def openStreamCount_def Let_def split: option.splits)

lemma length_filter_remove:
  assumes "distinct (map key rs)" and "by_key key k rs = Some r"
  shows "length (filter P (remove_key key k rs)) = length (filter P rs) - (if P r then 1 else 0)"
  using assms
proof (induction rs)
  case (Cons x rs)
  show ?case
  proof (cases "key x = k")
    case True
    have "key y \<noteq> k" if "y \<in> set rs" for y
      using Cons.prems(1) True that by (metis distinct.simps(2) image_eqI list.set_map list.simps(9))
    then have "remove_key key k rs = rs" by (simp add: remove_key_def)
    with True Cons.prems(2) show ?thesis by (auto simp: remove_key_def by_key_Cons)
  next
    case False
    with Cons have "by_key key k rs = Some r" by (simp add: by_key_Cons)
    moreover from this have "P r \<Longrightarrow> filter P rs \<noteq> []" by (auto dest!: by_key_SomeD simp: filter_empty_conv)
    ultimately show ?thesis
      using False Cons by (auto simp: remove_key_def by_key_Cons Suc_diff_le Suc_le_eq)
  qed
qed (simp add: by_key_Nil)

lemma finalize_inv: "hub_inv h \<Longrightarrow> hub_inv (finalize n h)"
proof (cases "by_key cn_no n (hub_conns h)")
  case (Some c)
  assume inv: "hub_inv h"
  then have d: "distinct (map cn_no (hub_conns h))" by (simp add: hub_inv_def)
  have "length (open_of i (finalize n h)) = length (open_of i h) - (if cn_staff c = i then 1 else 0)" for i
    using length_filter_remove [OF d Some, of "\<lambda>c. cn_staff c = i"] by (simp add: open_of_def finalize_def Some)
  moreover have "distinct (map cn_no (hub_conns (finalize n h)))"
    using d by (simp add: finalize_def Some distinct_keys_remove)
  moreover have "\<forall>c \<in> set (hub_conns (finalize n h)). cn_no c < hub_next (finalize n h)"
    using inv by (simp add: hub_inv_def finalize_def Some remove_key_def)
  moreover have "openStreamCount i (hub_streams (finalize n h)) = openStreamCount i (hub_streams h) - (if cn_staff c = i then 1 else 0)" for i
    by (simp add: finalize_def Some count_release)
  ultimately show ?thesis
    using inv by (simp add: hub_inv_def) (meson diff_le_self le_trans)
qed (simp add: finalize_def)

lemma open_of_replace:
  assumes "by_key cn_no (cn_no c') (hub_conns h) = Some c" and "cn_staff c' = cn_staff c"
    and "distinct (map cn_no (hub_conns h))"
  shows "length (open_of i (h\<lparr>hub_conns := replace_row cn_no c' (hub_conns h)\<rparr>)) = length (open_of i h)"
proof -
  have "(cn_staff (if cn_no x = cn_no c' then c' else x) = i) = (cn_staff x = i)" if "x \<in> set (hub_conns h)" for x
    using that assms by_key_member [OF assms(3) that] by (cases "cn_no x = cn_no c'") auto
  then have "filter (\<lambda>x. cn_staff (if cn_no x = cn_no c' then c' else x) = i) (hub_conns h)
     = filter (\<lambda>x. cn_staff x = i) (hub_conns h)"
    by (rule filter_cong [OF refl])
  then show ?thesis by (simp add: open_of_def replace_row_def filter_map comp_def)
qed

lemma reauthorize_same: "reauthorize found c = Some c' \<Longrightarrow> cn_no c' = cn_no c \<and> cn_staff c' = cn_staff c"
  by (auto simp: reauthorize_def split: option.splits prod.splits if_splits)

lemma heartbeat_inv: "hub_inv h \<Longrightarrow> hub_inv (heartbeat n found h)"
proof (cases "by_key cn_no n (hub_conns h)")
  case (Some c)
  assume inv: "hub_inv h"
  show ?thesis
  proof (cases "reauthorize found c")
    case None
    with Some finalize_inv [OF inv] show ?thesis by (simp add: heartbeat_def)
  next
    fix c' assume c': "reauthorize found c = Some c'"
    note same = reauthorize_same [OF c']
    from Some have n: "cn_no c = n" "c \<in> set (hub_conns h)" by (auto dest: by_key_SomeD)
    have d: "distinct (map cn_no (hub_conns h))" using inv by (simp add: hub_inv_def)
    have k: "by_key cn_no (cn_no c') (hub_conns h) = Some c" using Some n same by simp
    have "\<forall>x \<in> set (replace_row cn_no c' (hub_conns h)). cn_no x < hub_next h"
      using inv n same by (auto simp: hub_inv_def replace_row_def)
    with inv open_of_replace [OF k _ d] same show ?thesis
      by (simp add: heartbeat_def Some c' hub_inv_def keys_replace_row)
  qed
qed (simp add: heartbeat_def)

lemma connect_inv:
  assumes inv: "hub_inv h" and ok: "events st h = Inr h'"
  shows "hub_inv h'"
proof -
  from ok obtain m where m: "acquireStream (st_id st) (hub_streams h) = (True, m)"
    and h': "h' = h\<lparr>hub_streams := m, hub_next := Suc (hub_next h),
                 hub_conns := hub_conns h @ [\<lparr>cn_no = hub_next h, cn_staff = st_id st,
                    cn_allowed = scopedPlatformIds st, cn_pinned = None\<rparr>]\<rparr>"
    by (auto simp: events_def split: prod.splits bool.splits)
  from inv count_acquire [OF m] show ?thesis
    by (auto simp: hub_inv_def h' open_of_def less_Suc_eq Suc_le_eq)
qed

lemma publish_inv: "hub_inv h \<Longrightarrow> hub_inv (publish ev h)"
  by (simp add: publish_def hub_inv_def open_of_def split: option.splits)

lemma run_hub_inv: "hub_inv h \<Longrightarrow> hub_inv (run_hub op h)"
  by (cases op) (simp_all add: finalize_inv heartbeat_inv publish_inv connect_inv split: sum.split)

interpretation hub_ts: transition_system hub_step hub_inv
  by unfold_locales (auto simp: hub_step_def run_hub_inv)

lemma hub_inv_empty: "hub_inv empty_hub"
  by (simp add: hub_inv_def empty_hub_def open_of_def openStreamCount_def)

lemma run_inv: "hub_inv (fold run_hub ops empty_hub)"
  by (rule fold_invariant [of _ hub_inv]) (auto intro: run_hub_inv hub_inv_empty)

section \<open>Properties\<close>

text \<open>
  C30: Whatever sequence of connects, events, heartbeats (also failing ones) and
  disconnects the process sees, the count kept for an account is the number of its open
  streams and never exceeds six; the next connect is refused exactly when six are open, so no
  slot leaks.
\<close>

theorem stream_slots_are_exact:
  "openStreamCount i (hub_streams (fold run_hub ops empty_hub)) = length (open_of i (fold run_hub ops empty_hub))
   \<and> length (open_of i (fold run_hub ops empty_hub)) \<le> 6
   \<and> (is_ok (events st (fold run_hub ops empty_hub)) \<longleftrightarrow> length (open_of (st_id st) (fold run_hub ops empty_hub)) < 6)"
proof -
  let ?h = "fold run_hub ops empty_hub"
  have "openStreamCount i (hub_streams ?h) = length (open_of i ?h) \<and> length (open_of i ?h) \<le> 6" for i
    using run_inv [of ops] by (auto simp: hub_inv_def MAX_STREAMS_PER_STAFF_def)
  moreover have "is_ok (events st ?h) \<longleftrightarrow> openStreamCount (st_id st) (hub_streams ?h) < 6"
    by (simp add: events_def acquireStream_def Let_def MAX_STREAMS_PER_STAFF_def)
  ultimately show ?thesis by auto
qed

text \<open>Who the heartbeat of a connection finds in the database, and whether the stream may go on.\<close>

definition still_valid :: "connection \<Rightarrow> db \<Rightarrow> bool" where
  "still_valid c s =
     (case find_staff (cn_staff c) s of
        None \<Rightarrow> False
      | Some u \<Rightarrow> su_status u = ACCOUNT_ACTIVE
          \<and> (case cn_pinned c of None \<Rightarrow> True | Some v \<Rightarrow> su_token_version u = v))"

definition grants_access :: "ident \<Rightarrow> ident \<Rightarrow> db \<Rightarrow> bool" where
  "grants_access i p s =
     list_ex (\<lambda>g. upr_staff_user g = i \<and> (upr_platform g = None \<or> upr_platform g = Some p)) (t_roles s)"

lemma scope_of_account:
  "p \<noteq> '''' \<Longrightarrow> scopeAllows (scopedPlatformIds (authenticated u s)) p \<longleftrightarrow> grants_access (su_id u) p s"
  using staff_scope.allows_scope [of p "authenticated u s"]
  by (auto simp: canAccessPlatform_def grants_access_def authenticated_def loadRoles_def list_ex_iff)

lemma refresh_account:
  assumes "refreshAuthenticated i s = Some (st, tv)"
  obtains u where "find_staff i s = Some u" "su_id u = i" "su_status u = ACCOUNT_ACTIVE"
    "st = authenticated u s" "tv = su_token_version u"
  using assms by (auto simp: refreshAuthenticated_def find_staff_def split: option.splits if_splits dest: by_key_SomeD)

lemma reauthorize_valid:
  "reauthorize (Some s) c = (if still_valid c s then
      Some (c\<lparr>cn_pinned := map_option su_token_version (find_staff (cn_staff c) s),
              cn_allowed := scopedPlatformIds (authenticated (the (find_staff (cn_staff c) s)) s)\<rparr>) else None)"
  by (cases c) (auto simp: reauthorize_def refreshAuthenticated_def still_valid_def split: option.splits)

text \<open>
  C31: A heartbeat that can read the database brings the stream to what the
  accounts say now. It goes on exactly when the account exists, is active and still has the
  token version seen on the first heartbeat; an event published next reaches it exactly when
  it goes on and the account holds a grant covering the platform, or the event names the
  account as its target.
\<close>

theorem revocation_reaches_open_streams:
  assumes h: "h = fold run_hub ops empty_hub" and c: "c \<in> set (hub_conns h)"
    and ev: "bridge ev = Some r" and p: "rt_platform r \<noteq> ''''"
    and run: "h' = publish ev (heartbeat (cn_no c) (Some s) h)"
  shows "(cn_no c \<in> set (map cn_no (hub_conns h')) \<longleftrightarrow> still_valid c s)
     \<and> (\<exists>new. hub_sent h' = hub_sent h @ new
          \<and> ((cn_no c, r) \<in> set new \<longleftrightarrow> still_valid c s
               \<and> (grants_access (cn_staff c) (rt_platform r) s
                  \<or> (\<exists>ids. rt_targets r = Some ids \<and> cn_staff c \<in> set ids))))"
proof -
  have inv: "hub_inv h" unfolding h by (rule run_inv)
  then have d: "distinct (map cn_no (hub_conns h))" by (simp add: hub_inv_def)
  have k: "by_key cn_no (cn_no c) (hub_conns h) = Some c" by (rule by_key_member [OF d c])
  let ?g = "heartbeat (cn_no c) (Some s) h"
  have sent: "hub_sent h' = hub_sent h @ map (\<lambda>c. (cn_no c, r)) (filter (\<lambda>c. in_scope c r) (hub_conns ?g))"
    and conns: "hub_conns h' = hub_conns ?g"
    by (auto simp: run publish_def ev heartbeat_def finalize_def split: option.splits)
  show ?thesis
  proof (cases "still_valid c s")
    case False
    then have "hub_conns ?g = remove_key cn_no (cn_no c) (hub_conns h)"
      by (simp add: heartbeat_def k reauthorize_valid finalize_def)
    then have gone: "cn_no c \<notin> cn_no ` set (hub_conns ?g)" by (auto simp: remove_key_def)
    with False show ?thesis by (auto simp: sent conns)
  next
    case True
    then obtain u where u: "find_staff (cn_staff c) s = Some u" by (auto simp: still_valid_def split: option.splits)
    then have id: "su_id u = cn_staff c" by (auto simp: find_staff_def dest: by_key_SomeD)
    let ?c = "c\<lparr>cn_pinned := Some (su_token_version u), cn_allowed := scopedPlatformIds (authenticated u s)\<rparr>"
    have g: "hub_conns ?g = replace_row cn_no ?c (hub_conns h)"
      using True by (simp add: heartbeat_def k reauthorize_valid u)
    have mem: "?c \<in> set (hub_conns ?g)" and only: "x \<in> set (hub_conns ?g) \<Longrightarrow> cn_no x = cn_no c \<Longrightarrow> x = ?c" for x
      unfolding g replace_row_def using c by auto
    have "in_scope ?c r \<longleftrightarrow> grants_access (cn_staff c) (rt_platform r) s
                  \<or> (\<exists>ids. rt_targets r = Some ids \<and> cn_staff c \<in> set ids)"
      using scope_of_account [OF p, of u s] id by (auto simp: in_scope_def split: option.splits)
    moreover have "(cn_no c, r) \<in> set (map (\<lambda>c. (cn_no c, r)) (filter (\<lambda>c. in_scope c r) (hub_conns ?g))) \<longleftrightarrow> in_scope ?c r"
    proof
      assume "(cn_no c, r) \<in> set (map (\<lambda>c. (cn_no c, r)) (filter (\<lambda>c. in_scope c r) (hub_conns ?g)))"
      then obtain x where "x \<in> set (hub_conns ?g)" "cn_no x = cn_no c" "in_scope x r" by auto
      with only show "in_scope ?c r" by metis
    next
      assume "in_scope ?c r"
      with mem have "?c \<in> set (filter (\<lambda>c. in_scope c r) (hub_conns ?g))" by simp
      then have "(\<lambda>c. (cn_no c, r)) ?c \<in> set (map (\<lambda>c. (cn_no c, r)) (filter (\<lambda>c. in_scope c r) (hub_conns ?g)))"
        unfolding list.set_map by (rule imageI)
      then show "(cn_no c, r) \<in> set (map (\<lambda>c. (cn_no c, r)) (filter (\<lambda>c. in_scope c r) (hub_conns ?g)))" by simp
    qed
    moreover have "cn_no c \<in> set (map cn_no (hub_conns h'))"
      using imageI [OF mem, of cn_no] unfolding conns by simp
    ultimately show ?thesis unfolding sent using True by blast
  qed
qed

theorem revocation_reaches_open_streams_witness:
  "\<exists>c h'. c \<in> set (hub_conns (fold run_hub [Connect (admin_staff ''ann'')] empty_hub)) \<and> cn_staff c = ''ann''
     \<and> h' = publish (IssueCreated ''i1'' ''p1'') (heartbeat (cn_no c) (Some two_admins)
               (fold run_hub [Connect (admin_staff ''ann'')] empty_hub))
     \<and> cn_no c \<in> set (map cn_no (hub_conns h')) \<and> map fst (hub_sent h') = [cn_no c]"
proof -
  let ?h = "fold run_hub [Connect (admin_staff ''ann'')] empty_hub"
  let ?c = "\<lparr>cn_no = 0, cn_staff = ''ann'', cn_allowed = scopedPlatformIds (admin_staff ''ann''), cn_pinned = None\<rparr>"
  let ?r = "\<lparr>rt_type = ''issue.created'', rt_issue = ''i1'', rt_platform = ''p1'', rt_targets = None\<rparr>"
  let ?h' = "publish (IssueCreated ''i1'' ''p1'') (heartbeat (cn_no ?c) (Some two_admins) ?h)"
  have h: "?h = empty_hub\<lparr>hub_streams := (\<lambda>_. None)(''ann'' \<mapsto> 1), hub_next := 1, hub_conns := [?c]\<rparr>"
    by (simp add: events_def acquireStream_def openStreamCount_def MAX_STREAMS_PER_STAFF_def empty_hub_def admin_staff_def)
  have c: "?c \<in> set (hub_conns ?h)" unfolding h by simp
  have ev: "bridge (IssueCreated ''i1'' ''p1'') = Some ?r" by simp
  have p: "rt_platform ?r \<noteq> ''''" by simp
  have v: "still_valid ?c two_admins" "grants_access (cn_staff ?c) (rt_platform ?r) two_admins"
    by (simp_all add: still_valid_def grants_access_def two_admins_def find_staff_def sample_defs by_key_Cons)
  have one: "hub_sent ?h = []" "length (hub_sent ?h') \<le> 1"
    unfolding h by (auto simp: publish_def heartbeat_def finalize_def by_key_Cons empty_hub_def replace_row_def remove_key_def
        split: option.splits)
  from revocation_reaches_open_streams [OF refl c ev p refl, of two_admins] v one(1)
  have "cn_no ?c \<in> set (map cn_no (hub_conns ?h'))" "(cn_no ?c, ?r) \<in> set (hub_sent ?h')" by auto
  moreover from this(2) one(2) have "map fst (hub_sent ?h') = [cn_no ?c]"
    by (cases "hub_sent ?h'") (auto simp: Suc_le_eq)
  ultimately show ?thesis using c by (intro exI [of _ ?c] exI) auto
qed

end
