(* ===== verification/ApiTokens.thy ===== *)
theory ApiTokens
  imports Accounts
begin

text \<open>
  API tokens of a platform and the read access they give (\<^verbatim>\<open>src/integrations\<close>). The digest is
  a parameter, the random part of a token an argument of the operation that mints it. The
  integration's requests pass the guard, which binds them to the platform of the token.
\<close>

record token_view =
  tv_id :: ident
  tv_name :: string
  tv_last_four :: string
  tv_revoked :: bool
  tv_last_used_at :: "time option"
  tv_created_at :: time

definition tok_toView :: "api_token \<Rightarrow> token_view" where
  "tok_toView t = \<lparr>tv_id = tok_id t, tv_name = tok_name t, tv_last_four = tok_last_four t,
     tv_revoked = (tok_revoked_at t \<noteq> None), tv_last_used_at = tok_last_used_at t, tv_created_at = tok_created_at t\<rparr>"

definition tok_assertAccess :: "auth_staff \<Rightarrow> ident \<Rightarrow> unit res" where
  "tok_assertAccess st p =
     require (canAccessPlatform st p STAFF_WRITE_ROLES) (Forbidden ''You do not have access to this platform.'') (Inr ())"

definition tok_list :: "auth_staff \<Rightarrow> ident \<Rightarrow> db \<Rightarrow> token_view list res" where
  "tok_list st p s =
     bind_res (tok_assertAccess st p) (\<lambda>_.
       Inr (map tok_toView (newest_first tok_created_at (filter (\<lambda>t. tok_platform t = p) (t_tokens s)))))"

definition last_four :: "string \<Rightarrow> string" where
  "last_four s = drop (length s - 4) s"

definition token_meta :: "ident \<Rightarrow> string \<Rightarrow> string \<Rightarrow> json option" where
  "token_meta p nm four =
     Some (JObj [(''platformId'', JStr p), (''name'', JStr nm), (''lastFour'', JStr four)])"

text \<open>The platform must exist and the digest be new (foreign key and unique index of the table).\<close>

definition tok_create ::
  "(string \<Rightarrow> string) \<Rightarrow> env \<Rightarrow> string \<Rightarrow> auth_staff \<Rightarrow> ident \<Rightarrow> string \<Rightarrow> db \<Rightarrow> ((token_view \<times> string) \<times> db) res" where
  "tok_create sha256 e random st p nm s =
     bind_res (tok_assertAccess st p) (\<lambda>_.
       (let plaintext = ''cimp_'' @ random;
            row = \<lparr>tok_id = fresh_id s, tok_platform = p, tok_name = nm, tok_hash = sha256 plaintext,
                   tok_last_four = last_four plaintext, tok_created_by = Some (st_id st),
                   tok_last_used_at = None, tok_revoked_at = None, tok_created_at = now e\<rparr>
        in require (find_platform p s \<noteq> None \<and> by_key tok_id (fresh_id s) (t_tokens s) = None
                    \<and> by_key tok_hash (sha256 plaintext) (t_tokens s) = None) db_error
             (Inr ((tok_toView row, plaintext),
                   audit_record e None ACTOR_STAFF (Some (st_id st)) ''API_TOKEN_CREATED'' (Some ''apiToken'')
                     None (Some (tok_id row)) (token_meta p nm (tok_last_four row))
                     (draw_id (t_tokens_update (\<lambda>ts. ts @ [row]) s))))))"

definition tok_revoke :: "env \<Rightarrow> auth_staff \<Rightarrow> ident \<Rightarrow> ident \<Rightarrow> db \<Rightarrow> db res" where
  "tok_revoke e st p tid s =
     bind_res (tok_assertAccess st p) (\<lambda>_.
       (case by_key tok_id tid (t_tokens s) of
          None \<Rightarrow> Inl (NotFound ''Token not found.'')
        | Some t \<Rightarrow>
            require (tok_platform t = p) (NotFound ''Token not found.'')
            (if tok_revoked_at t \<noteq> None then Inr s
             else Inr (audit_record e None ACTOR_STAFF (Some (st_id st)) ''API_TOKEN_REVOKED'' (Some ''apiToken'')
                         (Some (tok_id t)) None (token_meta p (tok_name t) (tok_last_four t))
                         (t_tokens_update (replace_row tok_id (t\<lparr>tok_revoked_at := Some (now e)\<rparr>)) s)))))"

text \<open>
  The stamp of the last use is best effort: \<^verbatim>\<open>stamped\<close> says whether its update succeeds.
\<close>

definition tok_authenticate ::
  "(string \<Rightarrow> string) \<Rightarrow> env \<Rightarrow> bool \<Rightarrow> string \<Rightarrow> db \<Rightarrow> api_token option \<times> db" where
  "tok_authenticate sha256 e stamped raw s =
     (case List.find (\<lambda>t. tok_hash t = sha256 raw \<and> tok_revoked_at t = None) (t_tokens s) of
        None \<Rightarrow> (None, s)
      | Some t \<Rightarrow>
          (if (case find_platform (tok_platform t) s of None \<Rightarrow> True | Some p \<Rightarrow> plat_status p \<noteq> PLATFORM_ACTIVE)
           then (None, s)
           else (Some t, if stamped
                 then t_tokens_update (map (\<lambda>x. if tok_id x = tok_id t then x\<lparr>tok_last_used_at := Some (now e)\<rparr> else x)) s
                 else s)))"

text \<open>The guard: the bearer token, else the header of its own; the request is bound to id and platform.\<close>

definition api_token_guard ::
  "(string \<Rightarrow> string) \<Rightarrow> env \<Rightarrow> bool \<Rightarrow> string option \<Rightarrow> string option \<Rightarrow> db \<Rightarrow> (ident \<times> ident) res \<times> db" where
  "api_token_guard sha256 e stamped authorization x_api_token s =
     (let bearer = bearer_token authorization;
          raw = (if bearer \<noteq> '''' then bearer else (case x_api_token of None \<Rightarrow> '''' | Some x \<Rightarrow> x));
          (token, s') = (if raw \<noteq> '''' then tok_authenticate sha256 e stamped raw s else (None, s))
      in (case token of
            None \<Rightarrow> Inl (Unauthorized ''Invalid or revoked API token.'')
          | Some t \<Rightarrow> Inr (tok_id t, tok_platform t), s'))"

record issue_view =
  iv_id :: ident
  iv_reference_no :: string
  iv_status :: issue_status
  iv_priority :: priority
  iv_description :: string
  iv_created_at :: time
  iv_updated_at :: time

definition issueView :: "issue \<Rightarrow> issue_view" where
  "issueView i = \<lparr>iv_id = iss_id i, iv_reference_no = iss_reference_no i, iv_status = iss_status i,
     iv_priority = iss_priority i, iv_description = iss_description i, iv_created_at = iss_created_at i,
     iv_updated_at = iss_updated_at i\<rparr>"

definition listIssues :: "ident \<Rightarrow> int \<Rightarrow> int \<Rightarrow> db \<Rightarrow> issue_view list \<times> nat \<times> int \<times> int" where
  "listIssues p page pageSize s =
     (let take_n = min 100 (max 1 pageSize);
          rows = newest_first iss_created_at (filter (\<lambda>i. iss_platform i = p) (t_issues s))
      in (map issueView (page_of (nat (max 1 page)) (nat take_n) rows), length rows, max 1 page, take_n))"

definition tok_getIssue :: "ident \<Rightarrow> ident \<Rightarrow> db \<Rightarrow> issue_view res" where
  "tok_getIssue p iid s =
     (case find_issue iid s of
        None \<Rightarrow> Inl (NotFound ''Issue not found.'')
      | Some i \<Rightarrow> require (iss_platform i = p) (NotFound ''Issue not found.'') (Inr (issueView i)))"

section \<open>Runs\<close>

datatype token_op =
    MintToken env string auth_staff ident string
  | RevokeToken env auth_staff ident ident
  | UseToken env bool "string option" "string option"

fun token_request :: "(string \<Rightarrow> string) \<Rightarrow> token_op \<Rightarrow> db \<Rightarrow> db" where
  "token_request sha256 (MintToken e r st p nm) s = (case tok_create sha256 e r st p nm s of Inl _ \<Rightarrow> s | Inr x \<Rightarrow> snd x)"
| "token_request sha256 (RevokeToken e st p tid) s = (case tok_revoke e st p tid s of Inl _ \<Rightarrow> s | Inr s' \<Rightarrow> s')"
| "token_request sha256 (UseToken e stamped a x) s = snd (api_token_guard sha256 e stamped a x s)"

lemma tok_create_tokens:
  assumes "tok_create sha256 e r st p nm s = Inr ((v, raw), t)"
  shows "\<exists>row. t_tokens t = t_tokens s @ [row] \<and> tok_hash row = sha256 raw \<and> tok_platform row = p \<and> tok_id row = tv_id v
     \<and> tok_revoked_at row = None \<and> raw = ''cimp_'' @ r \<and> by_key tok_hash (sha256 raw) (t_tokens s) = None
     \<and> by_key tok_id (tv_id v) (t_tokens s) = None \<and> find_platform p s \<noteq> None \<and> t_platforms t = t_platforms s"
  using assms by (auto simp: tok_create_def bind_res_Inr_iff Let_def require_Inr_iff tok_toView_def audit_record_def draw_id_def)

lemma tok_revoke_tokens:
  assumes "tok_revoke e st p tid s = Inr t"
  shows "\<exists>x. by_key tok_id tid (t_tokens s) = Some x \<and> tok_platform x = p
     \<and> (t_tokens t = t_tokens s \<and> tok_revoked_at x \<noteq> None
        \<or> t_tokens t = replace_row tok_id (x\<lparr>tok_revoked_at := Some (now e)\<rparr>) (t_tokens s))"
  using assms
  by (auto simp: tok_revoke_def bind_res_Inr_iff require_Inr_iff audit_record_def draw_id_def split: option.splits if_splits)

lemma guard_tokens:
  "t_tokens (snd (api_token_guard sha256 e stamped a x s)) = t_tokens s
   \<or> (\<exists>i. t_tokens (snd (api_token_guard sha256 e stamped a x s))
        = map (\<lambda>t. if tok_id t = i then t\<lparr>tok_last_used_at := Some (now e)\<rparr> else t) (t_tokens s))"
  by (auto simp: api_token_guard_def tok_authenticate_def Let_def split: option.splits)

text \<open>
  An operation appends a row with a new id and a new digest, or rewrites rows in place without
  touching id or digest and without undoing a revocation.
\<close>

definition token_rewrite :: "(api_token \<Rightarrow> api_token) \<Rightarrow> db \<Rightarrow> bool" where
  "token_rewrite f s = (\<forall>x \<in> set (t_tokens s). tok_id (f x) = tok_id x \<and> tok_hash (f x) = tok_hash x
      \<and> (tok_revoked_at x \<noteq> None \<longrightarrow> tok_revoked_at (f x) \<noteq> None))"

lemma token_request_shape:
  assumes ids: "distinct (map tok_id (t_tokens s))"
  obtains (appended) row where "t_tokens (token_request sha256 op s) = t_tokens s @ [row]"
      "\<forall>x \<in> set (t_tokens s). tok_hash x \<noteq> tok_hash row \<and> tok_id x \<noteq> tok_id row"
  | (rewritten) f where "t_tokens (token_request sha256 op s) = map f (t_tokens s)" "token_rewrite f s"
proof -
  have same: thesis if unchanged: "t_tokens (token_request sha256 op s) = t_tokens s"
    by (rule rewritten [of id]) (simp_all add: token_rewrite_def unchanged)
  show thesis
  proof (cases op)
    case (MintToken e r st p nm)
    show thesis
    proof (cases "tok_create sha256 e r st p nm s")
      case (Inl err)
      then show thesis by (intro same) (simp add: MintToken)
    next
      case (Inr x)
      obtain v raw t where x: "x = ((v, raw), t)" by (metis surj_pair)
      from tok_create_tokens [OF Inr [unfolded x]] obtain row where
        t: "t_tokens t = t_tokens s @ [row]" "tok_hash row = sha256 raw" "tok_id row = tv_id v"
        and new: "by_key tok_hash (sha256 raw) (t_tokens s) = None" "by_key tok_id (tv_id v) (t_tokens s) = None" by blast
      have "tok_hash y \<noteq> tok_hash row \<and> tok_id y \<noteq> tok_id row" if "y \<in> set (t_tokens s)" for y
        using new that unfolding by_key_None_iff t by (metis image_eqI)
      with t(1) show thesis by (intro appended [of row]) (auto simp: MintToken Inr x)
    qed
  next
    case (RevokeToken e st p tid)
    show thesis
    proof (cases "tok_revoke e st p tid s")
      case (Inl err)
      then show thesis by (intro same) (simp add: RevokeToken)
    next
      case (Inr t)
      from tok_revoke_tokens [OF Inr] obtain x where x: "by_key tok_id tid (t_tokens s) = Some x"
        and t: "t_tokens t = t_tokens s \<or> t_tokens t = replace_row tok_id (x\<lparr>tok_revoked_at := Some (now e)\<rparr>) (t_tokens s)"
        by blast
      from x have xm: "x \<in> set (t_tokens s)" by (auto dest: by_key_SomeD)
      have one: "y = x" if "y \<in> set (t_tokens s)" "tok_id y = tok_id x" for y
        using distinct_keys_eq [OF ids that(1) xm that(2)] .
      from t show thesis
      proof
        assume "t_tokens t = t_tokens s"
        then show thesis by (intro same) (simp add: RevokeToken Inr)
      next
        assume r: "t_tokens t = replace_row tok_id (x\<lparr>tok_revoked_at := Some (now e)\<rparr>) (t_tokens s)"
        let ?f = "\<lambda>y. if tok_id y = tok_id (x\<lparr>tok_revoked_at := Some (now e)\<rparr>) then x\<lparr>tok_revoked_at := Some (now e)\<rparr> else y"
        have "token_rewrite ?f s" unfolding token_rewrite_def using one by auto
        with r show thesis by (intro rewritten [of ?f]) (simp_all add: RevokeToken Inr replace_row_def)
      qed
    qed
  next
    case (UseToken e stamped a x)
    from guard_tokens [of sha256 e stamped a x s] show thesis
    proof
      assume "t_tokens (snd (api_token_guard sha256 e stamped a x s)) = t_tokens s"
      then show thesis by (intro same) (simp add: UseToken)
    next
      assume "\<exists>i. t_tokens (snd (api_token_guard sha256 e stamped a x s))
        = map (\<lambda>t. if tok_id t = i then t\<lparr>tok_last_used_at := Some (now e)\<rparr> else t) (t_tokens s)"
      then obtain i where m: "t_tokens (snd (api_token_guard sha256 e stamped a x s))
        = map (\<lambda>t. if tok_id t = i then t\<lparr>tok_last_used_at := Some (now e)\<rparr> else t) (t_tokens s)" ..
      then show thesis
        by (intro rewritten [of "\<lambda>t. if tok_id t = i then t\<lparr>tok_last_used_at := Some (now e)\<rparr> else t"])
          (simp_all add: UseToken token_rewrite_def)
    qed
  qed
qed

text \<open>The digest belongs to the token with this id, and to no other.\<close>

definition owns_hash :: "string \<Rightarrow> ident \<Rightarrow> db \<Rightarrow> bool" where
  "owns_hash h i s =
     (distinct (map tok_id (t_tokens s)) \<and> (\<exists>t \<in> set (t_tokens s). tok_id t = i)
    \<and> (\<forall>t \<in> set (t_tokens s). tok_hash t = h \<longleftrightarrow> tok_id t = i))"

definition revoked :: "ident \<Rightarrow> db \<Rightarrow> bool" where
  "revoked i s = (\<forall>t \<in> set (t_tokens s). tok_id t = i \<longrightarrow> tok_revoked_at t \<noteq> None)"

lemma owns_hash_request:
  assumes own: "owns_hash h i s"
  shows "owns_hash h i (token_request sha256 op s) \<and> (revoked i s \<longrightarrow> revoked i (token_request sha256 op s))"
proof -
  let ?t = "token_request sha256 op s"
  from own have ids: "distinct (map tok_id (t_tokens s))" by (simp add: owns_hash_def)
  from own obtain t0 where t0: "t0 \<in> set (t_tokens s)" "tok_id t0 = i" "tok_hash t0 = h" by (auto simp: owns_hash_def)
  show ?thesis
  proof (cases rule: token_request_shape [OF ids, of sha256 op])
    case (1 row)
    then have "tok_hash row \<noteq> h \<and> tok_id row \<noteq> i" using t0 by metis
    then show ?thesis using own 1 by (auto simp: owns_hash_def revoked_def)
  next
    case (2 f)
    then have f: "tok_id (f x) = tok_id x" "tok_hash (f x) = tok_hash x"
      "tok_revoked_at x \<noteq> None \<Longrightarrow> tok_revoked_at (f x) \<noteq> None" if "x \<in> set (t_tokens s)" for x
      using that by (auto simp: token_rewrite_def)
    have "map tok_id (t_tokens ?t) = map tok_id (t_tokens s)" by (simp add: 2(1) f)
    then have "distinct (map tok_id (t_tokens ?t))" using ids by simp
    moreover have "\<forall>y \<in> set (t_tokens ?t). tok_hash y = h \<longleftrightarrow> tok_id y = i"
      using own f unfolding owns_hash_def 2(1) by auto
    moreover have "\<exists>y \<in> set (t_tokens ?t). tok_id y = i" using t0 f unfolding 2(1) by auto
    moreover have "revoked i s \<Longrightarrow> revoked i ?t" using f unfolding revoked_def 2(1) by auto
    ultimately show ?thesis unfolding owns_hash_def by blast
  qed
qed

lemma owns_hash_requests:
  "owns_hash h i s \<Longrightarrow> owns_hash h i (fold (token_request sha256) ops s)
     \<and> (revoked i s \<longrightarrow> revoked i (fold (token_request sha256) ops s))"
proof (induction ops arbitrary: s)
  case (Cons op ops)
  from owns_hash_request [OF Cons.prems] Cons.IH show ?case by simp
qed simp

lemma revoked_refused:
  "owns_hash (sha256 raw) i s \<Longrightarrow> revoked i s \<Longrightarrow> fst (tok_authenticate sha256 e stamped raw s) = None"
  by (auto simp: tok_authenticate_def owns_hash_def revoked_def split: option.splits dest!: find_SomeD)

lemma guard_accepts:
  assumes "api_token_guard sha256 e stamped a x s = (Inr (tid, p), s')"
  obtains t raw pl where "t \<in> set (t_tokens s)" "tok_id t = tid" "tok_platform t = p" "tok_hash t = sha256 raw"
    "tok_revoked_at t = None" "find_platform p s = Some pl" "plat_status pl = PLATFORM_ACTIVE"
    "a = Some (''Bearer '' @ raw) \<or> x = Some raw" "t_issues s' = t_issues s"
proof -
  let ?raw = "if bearer_token a \<noteq> '''' then bearer_token a else (case x of None \<Rightarrow> '''' | Some x \<Rightarrow> x)"
  from assms obtain t where au: "tok_authenticate sha256 e stamped ?raw s = (Some t, s')" "?raw \<noteq> ''''"
    "tok_id t = tid" "tok_platform t = p"
    by (auto simp: api_token_guard_def Let_def split: option.splits if_splits prod.splits)
  then have "a = Some (''Bearer '' @ ?raw) \<or> x = Some ?raw"
    by (auto simp: bearer_token_def dest: starts_withD split: option.splits if_splits)
  with au that [of t ?raw] show thesis
    by (auto simp: tok_authenticate_def dest!: find_SomeD split: option.splits if_splits)
qed

section \<open>Properties\<close>

text \<open>
  What an integration's request is let through with is an unrevoked token of a
  platform that is still active, and every issue it can then list or fetch is an issue of
  that platform; an issue of another platform answers exactly like one that does not exist.
\<close>

theorem tokens_read_one_platform:
  assumes "api_token_guard sha256 e stamped a x s = (Inr (tid, p), s')"
  shows "(\<exists>t \<in> set (t_tokens s). tok_id t = tid \<and> tok_platform t = p \<and> tok_revoked_at t = None
            \<and> (\<exists>raw. tok_hash t = sha256 raw \<and> (a = Some (''Bearer '' @ raw) \<or> x = Some raw)))
     \<and> (\<exists>pl. find_platform p s = Some pl \<and> plat_status pl = PLATFORM_ACTIVE)
     \<and> set (fst (listIssues p page psize s')) \<subseteq> issueView ` {i \<in> set (t_issues s). iss_platform i = p}
     \<and> length (fst (listIssues p page psize s')) \<le> 100
     \<and> (case find_issue iid s of
          None \<Rightarrow> tok_getIssue p iid s' = Inl (NotFound ''Issue not found.'')
        | Some i \<Rightarrow> tok_getIssue p iid s' = (if iss_platform i = p then Inr (issueView i) else Inl (NotFound ''Issue not found.'')))"
  using assms
proof (cases rule: guard_accepts)
  case (1 t raw pl)
  have "set (page_of m n rows) \<subseteq> set rows" "length (page_of m n rows) \<le> n" for m n and rows :: "issue list"
    by (auto simp: page_of_def dest: in_set_takeD in_set_dropD)
  then have "set (fst (listIssues p page psize s')) \<subseteq> issueView ` {i \<in> set (t_issues s). iss_platform i = p}"
    "length (fst (listIssues p page psize s')) \<le> nat (min 100 (max 1 psize))"
    by (fastforce simp: listIssues_def Let_def newest_first_def 1(9))+
  moreover from this(2) have "length (fst (listIssues p page psize s')) \<le> 100" by linarith
  ultimately show ?thesis
    using 1 by (auto simp: tok_getIssue_def find_issue_def require_def split: option.splits)
qed

text \<open>
  A minted token is the only one with its digest, only the digest is stored, and
  once it is revoked no later mint, revocation or use of tokens makes the plaintext
  authenticate again.
\<close>

theorem revoked_token_is_dead:
  assumes ids: "distinct (map tok_id (t_tokens s))"
    and mint: "tok_create sha256 e random st p nm s = Inr ((v, raw), s1)"
    and revoke: "tok_revoke e2 st2 p (tv_id v) (fold (token_request sha256) before s1) = Inr s2"
  shows "(\<exists>t \<in> set (t_tokens s1). tok_id t = tv_id v \<and> tok_hash t = sha256 raw \<and> tok_platform t = p)
     \<and> fst (tok_authenticate sha256 e3 stamped raw (fold (token_request sha256) later s2)) = None"
proof -
  from tok_create_tokens [OF mint] obtain row where
    t: "t_tokens s1 = t_tokens s @ [row]" "tok_hash row = sha256 raw" "tok_id row = tv_id v" "tok_platform row = p"
    and new: "by_key tok_hash (sha256 raw) (t_tokens s) = None" "by_key tok_id (tv_id v) (t_tokens s) = None" by blast
  have "tok_hash x \<noteq> sha256 raw \<and> tok_id x \<noteq> tv_id v" if "x \<in> set (t_tokens s)" for x
    using new that unfolding by_key_None_iff by (metis image_eqI)
  then have "owns_hash (sha256 raw) (tv_id v) s1"
    using ids t new by (auto simp: owns_hash_def by_key_None_iff)
  then have before: "owns_hash (sha256 raw) (tv_id v) (fold (token_request sha256) before s1)"
    using owns_hash_requests by blast
  have step: "s2 = token_request sha256 (RevokeToken e2 st2 p (tv_id v)) (fold (token_request sha256) before s1)"
    by (simp add: revoke)
  have "owns_hash (sha256 raw) (tv_id v) s2"
    using owns_hash_request [OF before] unfolding step by blast
  moreover have "revoked (tv_id v) s2"
  proof -
    let ?b = "fold (token_request sha256) before s1"
    from before have d: "distinct (map tok_id (t_tokens ?b))" by (simp add: owns_hash_def)
    from tok_revoke_tokens [OF revoke] obtain x where x: "x \<in> set (t_tokens ?b)" "tok_id x = tv_id v"
      and s2: "t_tokens s2 = t_tokens ?b \<and> tok_revoked_at x \<noteq> None
        \<or> t_tokens s2 = replace_row tok_id (x\<lparr>tok_revoked_at := Some (now e2)\<rparr>) (t_tokens ?b)"
      by (auto dest: by_key_SomeD)
    have one: "y = x" if "y \<in> set (t_tokens ?b)" "tok_id y = tv_id v" for y
      using distinct_keys_eq [OF d that(1) x(1)] that(2) x(2) by simp
    from s2 show ?thesis
    proof
      assume "t_tokens s2 = t_tokens ?b \<and> tok_revoked_at x \<noteq> None"
      then show ?thesis unfolding revoked_def using one by metis
    next
      assume "t_tokens s2 = replace_row tok_id (x\<lparr>tok_revoked_at := Some (now e2)\<rparr>) (t_tokens ?b)"
      then show ?thesis using x(2) by (auto simp: revoked_def replace_row_def)
    qed
  qed
  ultimately have "fst (tok_authenticate sha256 e3 stamped raw (fold (token_request sha256) later s2)) = None"
    using owns_hash_requests revoked_refused by blast
  with t show ?thesis by auto
qed

definition token_db :: db where
  "token_db = empty_db\<lparr>t_platforms := [sample_platform ''p1'' ''portal'', sample_platform ''p2'' ''other''],
     t_issues := [sample_issue ''i1'' ''p1'' NEW, sample_issue ''i2'' ''p2'' NEW]\<rparr>"

lemma demo_mint:
  "\<exists>v s1. tok_create (\<lambda>x. x) plain_env ''0f'' (admin_staff ''ann'') ''p1'' ''ci'' token_db = Inr ((v, ''cimp_0f''), s1)
     \<and> api_token_guard (\<lambda>x. x) plain_env True (Some ''Bearer cimp_0f'') None s1 = (Inr (tv_id v, ''p1''), snd (tok_authenticate (\<lambda>x. x) plain_env True ''cimp_0f'' s1))
     \<and> is_ok (tok_revoke plain_env (admin_staff ''ann'') ''p1'' (tv_id v) s1)
     \<and> find_issue ''i2'' s1 = Some (sample_issue ''i2'' ''p2'' NEW)"
  by (simp add: tok_create_def tok_assertAccess_def canAccessPlatform_def admin_staff_def STAFF_WRITE_ROLES_def token_db_def
      sample_defs find_platform_def by_key_Cons by_key_Nil Let_def require_def fresh_id_def tok_toView_def audit_record_def
      draw_id_def api_token_guard_def bearer_token_def tok_authenticate_def starts_with_def tok_revoke_def
      find_issue_def plain_env_def is_ok_iff)

theorem tokens_read_one_platform_witness:
  "\<exists>tid s s'. api_token_guard (\<lambda>x. x) plain_env True (Some ''Bearer cimp_0f'') None s = (Inr (tid, ''p1''), s')
     \<and> find_issue ''i2'' s \<noteq> None \<and> tok_getIssue ''p1'' ''i2'' s' = Inl (NotFound ''Issue not found.'')"
proof -
  obtain tid s s' where g: "api_token_guard (\<lambda>x. x) plain_env True (Some ''Bearer cimp_0f'') None s = (Inr (tid, ''p1''), s')"
    and i: "find_issue ''i2'' s = Some (sample_issue ''i2'' ''p2'' NEW)"
    using demo_mint by blast
  have "iss_platform (sample_issue ''i2'' ''p2'' NEW) \<noteq> ''p1''" by (simp add: sample_issue_def)
  with tokens_read_one_platform [OF g, of 1 50 "''i2''"] i g show ?thesis by auto
qed

theorem revoked_token_is_dead_witness:
  "\<exists>v s1 s2. tok_create (\<lambda>x. x) plain_env ''0f'' (admin_staff ''ann'') ''p1'' ''ci'' token_db = Inr ((v, ''cimp_0f''), s1)
     \<and> fst (api_token_guard (\<lambda>x. x) plain_env True (Some ''Bearer cimp_0f'') None s1) = Inr (tv_id v, ''p1'')
     \<and> tok_revoke plain_env (admin_staff ''ann'') ''p1'' (tv_id v) s1 = Inr s2
     \<and> fst (tok_authenticate (\<lambda>x. x) plain_env True ''cimp_0f'' s2) = None"
proof -
  obtain v s1 s2 where m: "tok_create (\<lambda>x. x) plain_env ''0f'' (admin_staff ''ann'') ''p1'' ''ci'' token_db = Inr ((v, ''cimp_0f''), s1)"
    and g: "fst (api_token_guard (\<lambda>x. x) plain_env True (Some ''Bearer cimp_0f'') None s1) = Inr (tv_id v, ''p1'')"
    and r: "tok_revoke plain_env (admin_staff ''ann'') ''p1'' (tv_id v) s1 = Inr s2"
    using demo_mint by (auto simp: is_ok_iff)
  have "distinct (map tok_id (t_tokens token_db))" by (simp add: token_db_def empty_db_def)
  from revoked_token_is_dead [OF this m, where before = "[]" and later = "[]"] r have
    "fst (tok_authenticate (\<lambda>x. x) plain_env True ''cimp_0f'' s2) = None" by simp
  with m g r show ?thesis by blast
qed

end
