(* ===== verification/SavedViews.thy ===== *)
theory SavedViews
  imports Store JsNumber "HOL-Library.List_Lexorder" "HOL-Library.Char_ord"
begin

text \<open>
  A staff member's stored filter sets (\<^verbatim>\<open>src/saved-views/saved-views.service.ts\<close>): at most fifty,
  one per name, each at most eight kilobytes. The size of the serialised filters is a
  parameter.
\<close>

definition MAX_FILTERS_BYTES :: nat where
  "MAX_FILTERS_BYTES = 8 * 1024"

definition MAX_VIEWS_PER_STAFF :: nat where
  "MAX_VIEWS_PER_STAFF = 50"

record save_view_dto =
  vd_name :: string
  vd_filters :: json

definition sv_toDto :: "saved_view \<Rightarrow> ident \<times> string \<times> json \<times> time" where
  "sv_toDto v = (sv_id v, sv_name v, sv_filters v, sv_updated_at v)"

definition views_of :: "ident \<Rightarrow> db \<Rightarrow> saved_view list" where
  "views_of u s = filter (\<lambda>v. sv_staff_user v = u) (t_saved_views s)"

definition sv_list :: "ident \<Rightarrow> db \<Rightarrow> (ident \<times> string \<times> json \<times> time) list" where
  "sv_list u s = map sv_toDto (sort_key sv_name (views_of u s))"

text \<open>An unchanged entity is not written; the owner of a new row must exist.\<close>

definition sv_save ::
  "(json \<Rightarrow> nat) \<Rightarrow> env \<Rightarrow> ident \<Rightarrow> save_view_dto \<Rightarrow> db \<Rightarrow> ((ident \<times> string \<times> json \<times> time) \<times> db) res" where
  "sv_save json_bytes e u dto s =
     (let bytes = json_bytes (vd_filters dto)
      in require (bytes \<le> MAX_FILTERS_BYTES)
           (BadRequest (''Filter payload is too large ('' @ show_nat bytes @ '' bytes, max '' @ show_nat MAX_FILTERS_BYTES @ '').''))
        (case List.find (\<lambda>v. sv_name v = vd_name dto) (views_of u s) of
           Some v \<Rightarrow>
             (if sv_filters v = vd_filters dto then Inr (sv_toDto v, s)
              else (let v' = v\<lparr>sv_filters := vd_filters dto, sv_updated_at := now e\<rparr>
                    in Inr (sv_toDto v', t_saved_views_update (replace_row sv_id v') s)))
         | None \<Rightarrow>
             require (length (views_of u s) < MAX_VIEWS_PER_STAFF)
               (Conflict (''You already have '' @ show_nat MAX_VIEWS_PER_STAFF @ '' saved views. Delete one before saving another.''))
             (require (find_staff u s \<noteq> None \<and> by_key sv_id (fresh_id s) (t_saved_views s) = None) db_error
               (let v = \<lparr>sv_id = fresh_id s, sv_staff_user = u, sv_name = vd_name dto, sv_filters = vd_filters dto,
                         sv_created_at = now e, sv_updated_at = now e\<rparr>
                in Inr (sv_toDto v, draw_id (t_saved_views_update (\<lambda>vs. vs @ [v]) s))))))"

definition sv_remove :: "ident \<Rightarrow> ident \<Rightarrow> db \<Rightarrow> db res" where
  "sv_remove u i s =
     (case List.find (\<lambda>v. sv_id v = i) (views_of u s) of
        None \<Rightarrow> Inl (NotFound ''Saved view not found'')
      | Some v \<Rightarrow> Inr (t_saved_views_update (remove_key sv_id (sv_id v)) s))"

section \<open>Runs\<close>

datatype view_op = SaveView env ident save_view_dto | RemoveView ident ident

fun view_request :: "(json \<Rightarrow> nat) \<Rightarrow> view_op \<Rightarrow> db \<Rightarrow> db" where
  "view_request jb (SaveView e u dto) s = (case sv_save jb e u dto s of Inl _ \<Rightarrow> s | Inr x \<Rightarrow> snd x)"
| "view_request jb (RemoveView u i) s = (case sv_remove u i s of Inl _ \<Rightarrow> s | Inr s' \<Rightarrow> s')"

fun view_owner :: "view_op \<Rightarrow> ident" where
  "view_owner (SaveView e u dto) = u"
| "view_owner (RemoveView u i) = u"

definition views_inv :: "(json \<Rightarrow> nat) \<Rightarrow> db \<Rightarrow> bool" where
  "views_inv jb s =
     (distinct (map sv_id (t_saved_views s))
    \<and> distinct (map (\<lambda>v. (sv_staff_user v, sv_name v)) (t_saved_views s))
    \<and> (\<forall>u. length (views_of u s) \<le> MAX_VIEWS_PER_STAFF)
    \<and> list_all (\<lambda>v. jb (sv_filters v) \<le> MAX_FILTERS_BYTES) (t_saved_views s))"

lemma views_save_cases:
  assumes "sv_save jb e u dto s = Inr (d, t)"
  obtains v where "v \<in> set (t_saved_views s)" "sv_staff_user v = u" "sv_name v = vd_name dto" "jb (vd_filters dto) \<le> MAX_FILTERS_BYTES"
      "t_saved_views t = t_saved_views s \<or> t_saved_views t =
         replace_row sv_id (v\<lparr>sv_filters := vd_filters dto, sv_updated_at := now e\<rparr>) (t_saved_views s)"
  | v where "t_saved_views t = t_saved_views s @ [v]" "sv_staff_user v = u" "sv_name v = vd_name dto" "sv_filters v = vd_filters dto"
      "jb (vd_filters dto) \<le> MAX_FILTERS_BYTES" "by_key sv_id (sv_id v) (t_saved_views s) = None"
      "length (views_of u s) < MAX_VIEWS_PER_STAFF" "\<forall>x \<in> set (views_of u s). sv_name x \<noteq> vd_name dto"
proof (cases "List.find (\<lambda>v. sv_name v = vd_name dto) (views_of u s)")
  case (Some v)
  then have "v \<in> set (t_saved_views s)" "sv_staff_user v = u" "sv_name v = vd_name dto"
    by (auto simp: views_of_def dest: find_SomeD)
  with assms Some show thesis
    by (intro that(1) [of v]) (auto simp: sv_save_def Let_def require_Inr_iff split: if_splits)
next
  case None
  then have "\<forall>x \<in> set (views_of u s). sv_name x \<noteq> vd_name dto" by (simp add: find_None_iff)
  with assms None show thesis
    by (intro that(2) [of "\<lparr>sv_id = fresh_id s, sv_staff_user = u, sv_name = vd_name dto, sv_filters = vd_filters dto,
                         sv_created_at = now e, sv_updated_at = now e\<rparr>"])
      (auto simp: sv_save_def Let_def require_Inr_iff draw_id_def)
qed

lemma views_of_replace:
  assumes "distinct (map sv_id (t_saved_views s))" and "v \<in> set (t_saved_views s)" and "sv_id v' = sv_id v"
    and "sv_staff_user v' = sv_staff_user v" and "sv_name v' = sv_name v"
    and "t_saved_views t = replace_row sv_id v' (t_saved_views s)"
  shows "map (\<lambda>v. (sv_staff_user v, sv_name v)) (t_saved_views t) = map (\<lambda>v. (sv_staff_user v, sv_name v)) (t_saved_views s)"
    and "length (views_of w t) = length (views_of w s)"
    and "w \<noteq> sv_staff_user v \<Longrightarrow> views_of w t = views_of w s"
proof -
  let ?f = "\<lambda>x. if sv_id x = sv_id v' then v' else x"
  have one: "x = v" if "x \<in> set (t_saved_views s)" "sv_id x = sv_id v" for x
    using distinct_keys_eq [OF assms(1) that(1) assms(2) that(2)] .
  have same: "sv_staff_user (?f x) = sv_staff_user x \<and> sv_name (?f x) = sv_name x" if "x \<in> set (t_saved_views s)" for x
    using one [OF that] assms(3-5) by auto
  show "map (\<lambda>v. (sv_staff_user v, sv_name v)) (t_saved_views t) = map (\<lambda>v. (sv_staff_user v, sv_name v)) (t_saved_views s)"
    using same by (simp add: assms(6) replace_row_def)
  have "filter (\<lambda>x. sv_staff_user (?f x) = w) (t_saved_views s) = filter (\<lambda>x. sv_staff_user x = w) (t_saved_views s)"
    by (rule filter_cong [OF refl]) (use same in simp)
  then have v: "views_of w t = map ?f (views_of w s)"
    by (simp add: views_of_def assms(6) replace_row_def filter_map comp_def)
  then show "length (views_of w t) = length (views_of w s)" by simp
  assume w: "w \<noteq> sv_staff_user v"
  have "?f x = x" if "x \<in> set (views_of w s)" for x
    using that one [of x] w assms(3) by (auto simp: views_of_def)
  then show "views_of w t = views_of w s" unfolding v by (rule map_idI)
qed

lemma view_request_keeps:
  assumes inv: "views_inv jb s"
  shows "views_inv jb (view_request jb op s) \<and> (w \<noteq> view_owner op \<longrightarrow> views_of w (view_request jb op s) = views_of w s)"
proof (cases op)
  case (SaveView e u dto)
  show ?thesis
  proof (cases "sv_save jb e u dto s")
    case (Inr x)
    obtain d t where x: "x = (d, t)" by (cases x)
    have eq: "view_request jb op s = t" by (simp add: SaveView Inr x)
    from Inr have sv: "sv_save jb e u dto s = Inr (d, t)" by (simp add: x)
    from inv have d: "distinct (map sv_id (t_saved_views s))" by (simp add: views_inv_def)
    from sv show ?thesis
    proof (cases rule: views_save_cases)
      case (1 v)
      let ?v = "v\<lparr>sv_filters := vd_filters dto, sv_updated_at := now e\<rparr>"
      from 1(5) show ?thesis
      proof
        assume "t_saved_views t = t_saved_views s"
        with inv show ?thesis unfolding eq by (simp add: views_inv_def views_of_def)
      next
        assume r: "t_saved_views t = replace_row sv_id ?v (t_saved_views s)"
        note keep = views_of_replace [OF d 1(1) _ _ _ r, simplified]
        have "list_all (\<lambda>v. jb (sv_filters v) \<le> MAX_FILTERS_BYTES) (t_saved_views t)"
          using inv 1(4) by (auto simp: views_inv_def list_all_iff r replace_row_def)
        with inv keep(1,2) have "views_inv jb t" by (simp add: views_inv_def r keys_replace_row)
        with keep(3) [of w] 1(2) show ?thesis unfolding eq by (simp add: SaveView)
      qed
    next
      case (2 v)
      have "views_of w t = (if w = u then views_of w s @ [v] else views_of w s)" for w
        using 2(2) by (simp add: views_of_def 2(1))
      moreover have "distinct (map (\<lambda>v. (sv_staff_user v, sv_name v)) (t_saved_views t))"
        using inv 2(2,3,8) by (auto simp: views_inv_def 2(1) views_of_def)
      ultimately show ?thesis
        using inv 2(4-7) unfolding eq by (auto simp: views_inv_def 2(1) by_key_None_iff SaveView)
    qed
  qed (simp add: SaveView inv)
next
  case (RemoveView u i)
  show ?thesis
  proof (cases "sv_remove u i s")
    case (Inr t)
    then obtain v where v: "v \<in> set (t_saved_views s)" "sv_staff_user v = u"
      and t: "t_saved_views t = remove_key sv_id (sv_id v) (t_saved_views s)"
      by (auto simp: sv_remove_def views_of_def dest!: find_SomeD split: option.splits)
    from inv have d: "distinct (map sv_id (t_saved_views s))" by (simp add: views_inv_def)
    have of: "views_of w t = filter (\<lambda>x. sv_id x \<noteq> sv_id v) (views_of w s)" for w
      by (simp add: views_of_def t remove_key_def conj_commute)
    have "x = v" if "x \<in> set (t_saved_views s)" "sv_id x = sv_id v" for x
      using distinct_keys_eq [OF d that(1) v(1) that(2)] .
    then have "w \<noteq> u \<Longrightarrow> views_of w t = views_of w s"
      unfolding of using v(2) by (intro filter_True) (auto simp: views_of_def)
    moreover have "length (views_of w t) \<le> length (views_of w s)" for w unfolding of by simp
    then have "\<forall>w. length (views_of w t) \<le> MAX_VIEWS_PER_STAFF" using inv by (meson le_trans views_inv_def)
    ultimately show ?thesis
      using inv by (auto simp: RemoveView Inr views_inv_def t distinct_keys_remove remove_key_def list_all_iff distinct_map_filter)
  qed (simp add: RemoveView inv)
qed

text \<open>
  Whatever requests run, every staff member has at most fifty views, no two of one
  person have the same name, no stored filter set exceeds eight kilobytes, and the views of a
  person none of the requests came from are exactly what they were.
\<close>

theorem saved_views_are_capped:
  assumes "t_saved_views s = []" and "t = fold (view_request jb) (first @ later) s"
    and "list_all (\<lambda>op. view_owner op \<noteq> w) later"
  shows "length (views_of u t) \<le> 50 \<and> distinct (map sv_name (views_of u t))
     \<and> (\<forall>v \<in> set (views_of u t). jb (sv_filters v) \<le> 8192)
     \<and> views_of w t = views_of w (fold (view_request jb) first s)"
proof -
  have "views_inv jb s" using assms(1) by (simp add: views_inv_def views_of_def)
  then have start: "views_inv jb (fold (view_request jb) first s)"
    by (rule fold_invariant [rotated]) (use view_request_keeps in blast)
  have "views_inv jb (fold (view_request jb) later r) \<and> views_of w (fold (view_request jb) later r) = views_of w r"
    if "views_inv jb r" for r
    using assms(3) that
  proof (induction later arbitrary: r)
    case (Cons op later)
    from Cons.prems(1) have ne: "w \<noteq> view_owner op" by auto
    from view_request_keeps [OF Cons.prems(2), of op w] ne Cons.prems(1) Cons.IH [of "view_request jb op r"]
    show ?case by simp
  qed simp
  from this [OF start] have inv: "views_inv jb t" and w: "views_of w t = views_of w (fold (view_request jb) first s)"
    by (simp_all add: assms(2))
  have "distinct (map sv_name (views_of u t))"
    using inv by (auto simp: views_inv_def views_of_def distinct_map inj_on_def)
  with inv w show ?thesis
    by (auto simp: views_inv_def MAX_VIEWS_PER_STAFF_def MAX_FILTERS_BYTES_def list_all_iff views_of_def)
qed

theorem saved_views_are_capped_witness:
  "\<exists>s v. t_saved_views s = [] \<and> views_of ''ann'' (fold (view_request (\<lambda>_. 10))
       [SaveView plain_env ''ann'' \<lparr>vd_name = ''Mine'', vd_filters = JObj []\<rparr>, RemoveView ''bob'' ''u''] s) = [v]
     \<and> sv_name v = ''Mine''"
proof -
  let ?s = "empty_db\<lparr>t_staff := [sample_staff ''ann'' ''ann'', sample_staff ''bob'' ''bob'']\<rparr>"
  let ?op = "SaveView plain_env ''ann'' \<lparr>vd_name = ''Mine'', vd_filters = JObj []\<rparr>"
  obtain v where v: "views_of ''ann'' (view_request (\<lambda>_. 10) ?op ?s) = [v]" "sv_name v = ''Mine''"
    by (simp add: sv_save_def views_of_def Let_def require_def MAX_FILTERS_BYTES_def MAX_VIEWS_PER_STAFF_def
        find_staff_def by_key_Cons by_key_Nil sample_defs draw_id_def)
  have "t_saved_views ?s = []" by (simp add: empty_db_def)
  from saved_views_are_capped [OF this refl, where later = "[RemoveView ''bob'' ''u'']" and w = "''ann''"
      and jb = "\<lambda>_. 10" and first = "[?op]"] v this
  show ?thesis by (intro exI [of _ ?s] exI [of _ v]) simp
qed

end
