(* ===== verification/SelfSupport.thy ===== *)
theory SelfSupport
  imports Reporter
begin

text \<open>
  Staff reporting issues about the platform itself (\<^verbatim>\<open>src/self-support/self-support.service.ts\<close>):
  a hand-off token for the platform the configuration names, signed with that platform's
  secret, which the portal then verifies like any other. Signing is a parameter.
\<close>

definition self_support_key :: "string option \<Rightarrow> string" where
  "self_support_key configured = (case configured of None \<Rightarrow> ''cimp'' | Some k \<Rightarrow> k)"

definition self_support_claims :: "platform \<Rightarrow> auth_staff \<Rightarrow> json \<Rightarrow> handoff_claims" where
  "self_support_claims p st expiry =
     \<lparr>hc_platform_key = Some (plat_key p), hc_portal_user_id = Some (''staff:'' @ st_id st),
       hc_name = Some (st_name st), hc_email = Some (st_email st), hc_locale = None, hc_exp = Some expiry\<rparr>"

text \<open>
  \<^verbatim>\<open>sign claims secret\<close>: the library adds the expiry, ten minutes from now in seconds.
\<close>

definition mintForStaff ::
  "(handoff_claims \<Rightarrow> string \<Rightarrow> string) \<Rightarrow> env \<Rightarrow> string option \<Rightarrow> auth_staff \<Rightarrow> db \<Rightarrow> (string \<times> string) res" where
  "mintForStaff sign e configured st s =
     (let k = self_support_key configured
      in case find_platform_by_key k s of
           None \<Rightarrow> Inl (NotFound (''Self-support platform '' @ [CHR 0x22] @ k @ [CHR 0x22] @
              '' not found. Create it in Admin '' @ arrow @ '' Platforms, or set SELF_SUPPORT_PLATFORM_KEY to an existing platform key.''))
         | Some p \<Rightarrow>
             require (plat_status p = PLATFORM_ACTIVE)
               (BadRequest (''Self-support platform '' @ [CHR 0x22] @ k @ [CHR 0x22] @ '' is not active.''))
               (Inr (sign (self_support_claims p st (JNum (of_int (now e div 1000 + 600)))) (plat_handoff_secret p), plat_key p)))"

text \<open>
  When the library verifies what it signed with the same secret, a token
  minted for a staff member with a name and an email is accepted by the portal's own check, as
  the reporter \<^verbatim>\<open>staff:<id>\<close> of the configured platform and of no other; it is refused as
  soon as that platform's secret is rotated or the platform switched off.
\<close>

theorem self_support_token_is_accepted:
  assumes mint: "mintForStaff sign e configured st s = Inr (token, k)"
    and signed: "\<forall>c key. sign c key = token \<longrightarrow>
           jwt_decode token = Some c \<and> (\<forall>key'. jwt_verify token key' = (if key' = key then Some c else None))"
    and token: "token \<noteq> ''''"
    and named: "st_name st \<noteq> ''''" "st_email st \<noteq> ''''" "k \<noteq> ''''"
  shows "k = self_support_key configured
     \<and> (\<exists>p. find_platform_by_key k s = Some p
          \<and> verify jwt_decode jwt_verify token s = Inr \<lparr>ho_platform_id = plat_id p, ho_platform_key = k,
               ho_portal_user_id = ''staff:'' @ st_id st, ho_name = st_name st, ho_email = st_email st, ho_locale = None\<rparr>
          \<and> (\<forall>t q. find_platform_by_key k t = Some q
                 \<and> (plat_handoff_secret q \<noteq> plat_handoff_secret p \<or> plat_status q \<noteq> PLATFORM_ACTIVE) \<longrightarrow>
               \<not> is_ok (verify jwt_decode jwt_verify token t)))"
proof -
  from mint obtain p where p: "find_platform_by_key (self_support_key configured) s = Some p" "plat_status p = PLATFORM_ACTIVE"
    and tk: "token = sign (self_support_claims p st (JNum (of_int (now e div 1000 + 600)))) (plat_handoff_secret p)"
      "k = plat_key p"
    by (auto simp: mintForStaff_def Let_def require_Inr_iff split: option.splits)
  have k: "k = self_support_key configured"
    using p(1) tk(2) by (auto simp: find_platform_by_key_def dest: by_key_SomeD)
  have kk: "truthy (Some (plat_key p)) = Some k" using named(3) tk(2) by (simp add: truthy_def)
  obtain expiry where expiry: "JNum (of_int (now e div 1000 + 600)) = expiry" by blast
  then have exp: "\<exists>n. expiry = JNum n" by blast
  let ?c = "self_support_claims p st expiry"
  have c: "truthy (hc_platform_key ?c) = Some k" "truthy (hc_portal_user_id ?c) = Some (''staff:'' @ st_id st)"
    "truthy (hc_email ?c) = Some (st_email st)" "truthy (hc_name ?c) = Some (st_name st)" "hc_locale ?c = None"
    "\<exists>n. hc_exp ?c = Some (JNum n)"
    using kk named exp by (auto simp: self_support_claims_def truthy_def)
  have tok: "token \<noteq> ''''" "jwt_decode token = Some ?c" "jwt_verify token x = (if x = plat_handoff_secret p then Some ?c else None)" for x
    using token signed tk(1) unfolding expiry by auto
  have "verify jwt_decode jwt_verify token s = Inr \<lparr>ho_platform_id = plat_id p, ho_platform_key = k,
               ho_portal_user_id = ''staff:'' @ st_id st, ho_name = st_name st, ho_email = st_email st, ho_locale = None\<rparr>"
    using tok p(1) p(2) c(6) by (simp add: verify_def k [symmetric] c(1-5) tk(2) [symmetric]) (simp add: baseLocale_def truthy_def)
  moreover have "\<not> is_ok (verify jwt_decode jwt_verify token t)"
    if "find_platform_by_key k t = Some q" "plat_handoff_secret q \<noteq> plat_handoff_secret p \<or> plat_status q \<noteq> PLATFORM_ACTIVE" for t q
    using tok that c(1) by (auto simp: verify_def require_def is_ok_iff)
  ultimately show ?thesis using p(1) k by blast
qed

theorem self_support_token_is_accepted_witness:
  "\<exists>sign decode check c. mintForStaff sign plain_env (Some ''portal'') dev_staff demo_db = Inr (''t'', ''portal'')
     \<and> verify decode check ''t'' demo_db = Inr c \<and> ho_portal_user_id c = ''staff:dev''
     \<and> \<not> is_ok (verify decode check ''t'' (t_platforms_update (map (\<lambda>p. p\<lparr>plat_handoff_secret := ''new''\<rparr>)) demo_db))"
proof -
  let ?c = "self_support_claims (sample_platform ''p1'' ''portal'') dev_staff (JNum (of_int (now plain_env div 1000 + 600)))"
  let ?sign = "\<lambda>c key. if c = ?c \<and> key = ''secret'' then ''t'' else ''u''"
  let ?check = "\<lambda>(t :: string) key. if key = ''secret'' then Some ?c else None"
  have f: "find_platform_by_key ''portal'' demo_db = Some (sample_platform ''p1'' ''portal'')"
    by (simp add: find_platform_by_key_def demo_db_def sample_platform_def by_key_Cons)
  have m: "mintForStaff ?sign plain_env (Some ''portal'') dev_staff demo_db = Inr (''t'', ''portal'')"
    by (simp add: mintForStaff_def self_support_key_def f require_def) (simp add: sample_platform_def)
  have s: "\<forall>c key. ?sign c key = ''t'' \<longrightarrow>
           (\<lambda>_. Some ?c) ''t'' = Some c \<and> (\<forall>key'. ?check ''t'' key' = (if key' = key then Some c else None))"
    by simp
  have n: "''t'' \<noteq> ([] :: string)" "st_name dev_staff \<noteq> ''''" "st_email dev_staff \<noteq> ''''" "''portal'' \<noteq> ([] :: string)"
    by (simp_all add: dev_staff_def)
  let ?t = "t_platforms_update (map (\<lambda>p. p\<lparr>plat_handoff_secret := ''new''\<rparr>)) demo_db"
  have r: "find_platform_by_key ''portal'' ?t = Some ((sample_platform ''p1'' ''portal'')\<lparr>plat_handoff_secret := ''new''\<rparr>)"
    by (simp add: find_platform_by_key_def demo_db_def sample_platform_def by_key_Cons)
  have "plat_handoff_secret ((sample_platform ''p1'' ''portal'')\<lparr>plat_handoff_secret := ''new''\<rparr>)
      \<noteq> plat_handoff_secret (sample_platform ''p1'' ''portal'')" by (simp add: sample_platform_def)
  with self_support_token_is_accepted [where sign = ?sign and jwt_decode = "\<lambda>_. Some ?c" and jwt_verify = ?check, OF m s n] f r
  have "verify (\<lambda>_. Some ?c) ?check ''t'' demo_db = Inr \<lparr>ho_platform_id = plat_id (sample_platform ''p1'' ''portal''),
      ho_platform_key = ''portal'', ho_portal_user_id = ''staff:'' @ st_id dev_staff, ho_name = st_name dev_staff,
      ho_email = st_email dev_staff, ho_locale = None\<rparr>" "\<not> is_ok (verify (\<lambda>_. Some ?c) ?check ''t'' ?t)"
    by auto
  with m show ?thesis
    by (intro exI [of _ ?sign] exI [of _ "\<lambda>_. Some ?c"] exI [of _ ?check] exI) (auto simp: dev_staff_def)
qed

end
