(* ===== verification/JiraOutbound.thy ===== *)
theory JiraOutbound
  imports Scanning
begin

text \<open>
  Pushing to Jira: the client (\<^verbatim>\<open>src/jira/jira.service.ts\<close>) and the listeners that call it
  (\<^verbatim>\<open>src/jira/jira.listener.ts\<close>). What the network answers is a parameter: for a request
  and the number of the attempt, \<^verbatim>\<open>None\<close> where the call raises (a timeout, a lost
  connection) or the response. The header of the credentials is left out.
\<close>

section \<open>The client\<close>

record jira_config =
  jc_base_url :: "string option"
  jc_email :: "string option"
  jc_api_token :: "string option"

datatype jira_body =
    CREATE_FIELDS "string option" string "string option" string
  | COMMENT_BODY "string option"
  | FILE_FORM "nat list" string string

record jira_request =
  jq_url :: string
  jq_body :: jira_body

record jira_response =
  jr_status :: nat
  jr_key :: "string option"

type_synonym jira_net = "jira_request \<Rightarrow> nat \<Rightarrow> jira_response option"

definition REQUEST_TIMEOUT_MS :: time where
  "REQUEST_TIMEOUT_MS = 15000"

definition SUMMARY_MAX :: nat where
  "SUMMARY_MAX = 255"

definition SUMMARY_BODY_MAX :: nat where
  "SUMMARY_BODY_MAX = 200"

definition jira_isConfigured :: "jira_config \<Rightarrow> bool" where
  "jira_isConfigured c =
     (truthy (jc_base_url c) \<noteq> None \<and> truthy (jc_email c) \<noteq> None \<and> truthy (jc_api_token c) \<noteq> None)"

text \<open>\<^verbatim>\<open>.replace(/\/$/, '')\<close>: one slash at the end.\<close>

definition baseUrl :: "jira_config \<Rightarrow> string" where
  "baseUrl c = (let u = (case jc_base_url c of None \<Rightarrow> '''' | Some u \<Rightarrow> u)
                in if ends_with ''/'' u then butlast u else u)"

definition summaryFor :: "issue \<Rightarrow> string" where
  "summaryFor i =
     (let oneLine = js_trim (collapse_ws (iss_description i))
      in take SUMMARY_MAX (''['' @ iss_reference_no i @ ''] '' @ take SUMMARY_BODY_MAX oneLine))"

definition mapPriority :: "priority \<Rightarrow> string" where
  "mapPriority p = (case p of CRITICAL \<Rightarrow> ''Highest'' | HIGH \<Rightarrow> ''High'' | LOW \<Rightarrow> ''Low'' | _ \<Rightarrow> ''Medium'')"

text \<open>The document of one paragraph, reduced to its text node, absent for a blank text.\<close>

definition toAdf :: "string \<Rightarrow> string option" where
  "toAdf t = (if js_trim t = '''' then None else Some t)"

definition res_ok :: "jira_response \<Rightarrow> bool" where
  "res_ok r = (200 \<le> jr_status r \<and> jr_status r < 300)"

definition create_request :: "jira_config \<Rightarrow> platform \<Rightarrow> issue \<Rightarrow> jira_request" where
  "create_request c p i =
     \<lparr>jq_url = baseUrl c @ ''/rest/api/3/issue'',
      jq_body = CREATE_FIELDS (plat_jira_project_key p) (summaryFor i) (toAdf (iss_description i))
                  (mapPriority (iss_priority i))\<rparr>"

definition jira_createIssue :: "jira_config \<Rightarrow> jira_net \<Rightarrow> platform \<Rightarrow> issue \<Rightarrow> nat \<Rightarrow> string + string" where
  "jira_createIssue c net p i n =
     (case net (create_request c p i) n of
        None \<Rightarrow> Inl ''fetch failed''
      | Some r \<Rightarrow>
          (case truthy (jr_key r) of
             None \<Rightarrow> Inl ''Jira create failed''
           | Some k \<Rightarrow> (if res_ok r then Inr k else Inl ''Jira create failed'')))"

definition attachment_request :: "jira_config \<Rightarrow> string \<Rightarrow> nat list \<Rightarrow> attachment \<Rightarrow> jira_request" where
  "attachment_request c k buf a =
     \<lparr>jq_url = baseUrl c @ ''/rest/api/3/issue/'' @ k @ ''/attachments'',
      jq_body = FILE_FORM buf (att_filename a) (att_content_type a)\<rparr>"

definition comment_request :: "jira_config \<Rightarrow> string \<Rightarrow> string \<Rightarrow> jira_request" where
  "comment_request c k txt =
     \<lparr>jq_url = baseUrl c @ ''/rest/api/3/issue/'' @ k @ ''/comment'', jq_body = COMMENT_BODY (toAdf txt)\<rparr>"

definition expect_ok :: "string \<Rightarrow> jira_response option \<Rightarrow> string + unit" where
  "expect_ok msg r = (case r of None \<Rightarrow> Inl ''fetch failed'' | Some x \<Rightarrow> (if res_ok x then Inr () else Inl msg))"

definition addAttachment :: "jira_config \<Rightarrow> jira_net \<Rightarrow> string \<Rightarrow> nat list \<Rightarrow> attachment \<Rightarrow> nat \<Rightarrow> string + unit" where
  "addAttachment c net k buf a n = expect_ok ''Jira attachment failed'' (net (attachment_request c k buf a) n)"

definition jira_addComment :: "jira_config \<Rightarrow> jira_net \<Rightarrow> string \<Rightarrow> string \<Rightarrow> nat \<Rightarrow> string + unit" where
  "jira_addComment c net k txt n = expect_ok ''Jira comment failed'' (net (comment_request c k txt) n)"

section \<open>Retries\<close>

definition JIRA_MAX_ATTEMPTS :: nat where
  "JIRA_MAX_ATTEMPTS = 3"

definition PENDING_STALE_MS :: time where
  "PENDING_STALE_MS = 15 * 60000"

text \<open>
  The loop over the attempts; the answer comes with the pauses slept between them.
\<close>

function retry_from :: "nat \<Rightarrow> (nat \<Rightarrow> string + 'a) \<Rightarrow> (string + 'a) \<times> time list" where
  "retry_from attempt fn =
     (case fn attempt of
        Inr x \<Rightarrow> (Inr x, [])
      | Inl err \<Rightarrow>
          (if attempt < JIRA_MAX_ATTEMPTS
           then (case retry_from (attempt + 1) fn of (r, ds) \<Rightarrow> (r, int attempt * 500 # ds))
           else (Inl err, [])))"
  by pat_completeness auto
termination by (relation "measure (\<lambda>(n, _). JIRA_MAX_ATTEMPTS - n)") auto

declare retry_from.simps [simp del]

definition withRetry :: "(nat \<Rightarrow> string + 'a) \<Rightarrow> string + 'a" where
  "withRetry fn = fst (retry_from 1 fn)"

definition retry_pauses :: "(nat \<Rightarrow> string + 'a) \<Rightarrow> time list" where
  "retry_pauses fn = snd (retry_from 1 fn)"

abbreviation succeeded :: "'e + 'a \<Rightarrow> bool" where
  "succeeded r \<equiv> \<not> isl r"

section \<open>The listener\<close>

text \<open>\<^verbatim>\<open>update({ id, jiraSynced: false }, { jiraSynced: true })\<close> and the rows it affected.\<close>

definition claim_attachment :: "ident \<Rightarrow> db \<Rightarrow> nat \<times> db" where
  "claim_attachment aid s =
     (length (filter (\<lambda>a. att_id a = aid \<and> \<not> att_jira_synced a) (t_attachments s)),
      t_attachments_update (map (\<lambda>a. if att_id a = aid \<and> \<not> att_jira_synced a then a\<lparr>att_jira_synced := True\<rparr> else a)) s)"

definition release_attachment :: "ident \<Rightarrow> db \<Rightarrow> db" where
  "release_attachment aid s =
     t_attachments_update (map (\<lambda>a. if att_id a = aid then a\<lparr>att_jira_synced := False\<rparr> else a)) s"

definition push_file ::
  "jira_config \<Rightarrow> jira_net \<Rightarrow> (string \<Rightarrow> nat list option) \<Rightarrow> string \<Rightarrow> attachment \<Rightarrow> string + unit" where
  "push_file c net read k a =
     (case read (att_storage_key a) of
        None \<Rightarrow> Inl ''read failed''
      | Some buf \<Rightarrow> withRetry (addAttachment c net k buf a))"

definition sync_one ::
  "jira_config \<Rightarrow> jira_net \<Rightarrow> (string \<Rightarrow> nat list option) \<Rightarrow> string \<Rightarrow> attachment \<Rightarrow> db \<Rightarrow> db" where
  "sync_one c net read k a s =
     (if att_jira_synced a \<or> \<not> servable (att_scan_status a) then s
      else (case claim_attachment (att_id a) s of
              (affected, s1) \<Rightarrow>
                (if affected = 0 then s1
                 else (case push_file c net read k a of
                         Inr _ \<Rightarrow> s1
                       | Inl _ \<Rightarrow> release_attachment (att_id a) s1))))"

definition syncAttachments ::
  "jira_config \<Rightarrow> jira_net \<Rightarrow> (string \<Rightarrow> nat list option) \<Rightarrow> ident \<Rightarrow> string \<Rightarrow> db \<Rightarrow> db" where
  "syncAttachments c net read iid k s =
     fold (sync_one c net read k) (filter (\<lambda>a. att_issue a = iid) (t_attachments s)) s"

definition isPendingClaimStale :: "env \<Rightarrow> issue \<Rightarrow> bool" where
  "isPendingClaimStale e i = (now e - iss_updated_at i > PENDING_STALE_MS)"

text \<open>What makes the handler of \<^verbatim>\<open>issue.created\<close> go on to the claim.\<close>

definition wants_ticket :: "env \<Rightarrow> jira_config \<Rightarrow> issue \<Rightarrow> platform \<Rightarrow> bool" where
  "wants_ticket e c i p =
     (plat_jira_enabled p \<and> truthy (plat_jira_project_key p) \<noteq> None \<and> jira_isConfigured c
      \<and> truthy (iss_jira_issue_key i) = None \<and> iss_jira_sync_status i \<noteq> SYNCED
      \<and> (iss_jira_sync_status i = SYNC_PENDING \<longrightarrow> isPendingClaimStale e i))"

text \<open>
  The handler, claiming at the instant of \<^verbatim>\<open>e\<close> and writing its outcome at the instant of
  \<^verbatim>\<open>e'\<close>; the answer says whether it called the create endpoint.
\<close>

definition jira_onIssueCreated ::
  "env \<Rightarrow> env \<Rightarrow> jira_config \<Rightarrow> jira_net \<Rightarrow> (string \<Rightarrow> nat list option) \<Rightarrow> ident \<Rightarrow> db \<Rightarrow> bool \<times> db" where
  "jira_onIssueCreated e e' c net read iid s =
     (case find_issue iid s of
        None \<Rightarrow> (False, s)
      | Some i \<Rightarrow>
          (case find_platform (iss_platform i) s of
             None \<Rightarrow> (False, s)
           | Some p \<Rightarrow>
               (if \<not> wants_ticket e c i p then (False, s)
                else
                  (let s1 = qb_update e iid (iss_jira_sync_status_update (\<lambda>_. SYNC_PENDING)) s in
                   (True,
                    (case withRetry (jira_createIssue c net p i) of
                       Inl _ \<Rightarrow> qb_update e' iid (iss_jira_sync_status_update (\<lambda>_. SYNC_FAILED)) s1
                     | Inr k \<Rightarrow>
                         syncAttachments c net read iid k
                           (qb_update e' iid (\<lambda>i. i\<lparr>iss_jira_issue_key := Some k, iss_jira_sync_status := SYNCED\<rparr>) s1)))))))"

definition linked_key :: "jira_config \<Rightarrow> ident \<Rightarrow> db \<Rightarrow> string option" where
  "linked_key c iid s =
     (case find_issue iid s of
        None \<Rightarrow> None
      | Some i \<Rightarrow>
          (case (truthy (iss_jira_issue_key i), find_platform (iss_platform i) s) of
             (Some k, Some p) \<Rightarrow> (if plat_jira_enabled p \<and> jira_isConfigured c then Some k else None)
           | _ \<Rightarrow> None))"

definition onAttachmentsScanned ::
  "jira_config \<Rightarrow> jira_net \<Rightarrow> (string \<Rightarrow> nat list option) \<Rightarrow> ident \<Rightarrow> db \<Rightarrow> db" where
  "onAttachmentsScanned c net read iid s =
     (case linked_key c iid s of None \<Rightarrow> s | Some k \<Rightarrow> syncAttachments c net read iid k s)"

text \<open>The echo of a status change: the comment to post and where, or nothing.\<close>

definition echo_text :: "issue_status \<Rightarrow> issue_status \<Rightarrow> string" where
  "echo_text from to =
     ''Status changed in the support platform: '' @ status_name from @ '' '' @ arrow @ '' '' @ status_name to @ ''.''"

definition jira_onStatusChanged ::
  "jira_config \<Rightarrow> jira_net \<Rightarrow> ident \<Rightarrow> issue_status \<Rightarrow> issue_status \<Rightarrow> db \<Rightarrow> (string + unit) option" where
  "jira_onStatusChanged c net iid from to s =
     map_option (\<lambda>k. withRetry (jira_addComment c net k (echo_text from to))) (linked_key c iid s)"

section \<open>Several pushes at once\<close>

text \<open>
  Both paths run concurrently (and a restarted process may serve another event): each run of
  \<^verbatim>\<open>syncAttachments\<close> is a process that stops at every \<^verbatim>\<open>await\<close>. A process holds
  the files it loaded and, once it has claimed one, the number of the attempt it is about to
  make. The log lists the requests in the order they were answered, each with whether Jira
  acknowledged it.
\<close>

record sync_proc =
  sp_todo :: "attachment list"
  sp_pushing :: "(attachment \<times> nat) option"

record push_world =
  pw_db :: db
  pw_procs :: "sync_proc list"
  pw_log :: "(ident \<times> bool) list"

datatype push_event =
    StartSync ident
  | Advance nat bool
  | ReadFails nat
  | Rescan scanner attachment

definition start_sync :: "ident \<Rightarrow> db \<Rightarrow> sync_proc" where
  "start_sync iid s = \<lparr>sp_todo = filter (\<lambda>a. att_issue a = iid) (t_attachments s), sp_pushing = None\<rparr>"

definition idle :: "attachment list \<Rightarrow> sync_proc" where
  "idle todo = \<lparr>sp_todo = todo, sp_pushing = None\<rparr>"

text \<open>
  One step of a process: look at the next file and claim it, or make an attempt on the file it
  holds, \<^verbatim>\<open>ok\<close> being the answer; after the last failed attempt the claim is released.
\<close>

definition advance :: "bool \<Rightarrow> sync_proc \<Rightarrow> db \<times> (ident \<times> bool) list \<Rightarrow> sync_proc \<times> db \<times> (ident \<times> bool) list" where
  "advance ok p sl =
     (case sl of (s, lg) \<Rightarrow>
        (case sp_pushing p of
           Some (a, n) \<Rightarrow>
             (if ok then (idle (sp_todo p), s, lg @ [(att_id a, True)])
              else if n < JIRA_MAX_ATTEMPTS then (p\<lparr>sp_pushing := Some (a, n + 1)\<rparr>, s, lg @ [(att_id a, False)])
              else (idle (sp_todo p), release_attachment (att_id a) s, lg @ [(att_id a, False)]))
         | None \<Rightarrow>
             (case sp_todo p of
                [] \<Rightarrow> (p, s, lg)
              | a # rest \<Rightarrow>
                  (if att_jira_synced a \<or> \<not> servable (att_scan_status a) then (idle rest, s, lg)
                   else (case claim_attachment (att_id a) s of
                           (affected, s1) \<Rightarrow>
                             (if affected = 0 then (idle rest, s1, lg)
                              else (\<lparr>sp_todo = rest, sp_pushing = Some (a, 1)\<rparr>, s1, lg)))))))"

text \<open>The object could not be read: the first attempt is never made and the claim released.\<close>

definition read_fails :: "sync_proc \<Rightarrow> db \<Rightarrow> sync_proc \<times> db" where
  "read_fails p s =
     (case sp_pushing p of
        Some (a, n) \<Rightarrow> (if n = 1 then (idle (sp_todo p), release_attachment (att_id a) s) else (p, s))
      | None \<Rightarrow> (p, s))"

fun push_step :: "push_event \<Rightarrow> push_world \<Rightarrow> push_world" where
  "push_step (StartSync iid) w = w\<lparr>pw_procs := pw_procs w @ [start_sync iid (pw_db w)]\<rparr>"
| "push_step (Advance k ok) w =
     (if k < length (pw_procs w)
      then (case advance ok (pw_procs w ! k) (pw_db w, pw_log w) of
              (p, s, lg) \<Rightarrow> \<lparr>pw_db = s, pw_procs = (pw_procs w)[k := p], pw_log = lg\<rparr>)
      else w)"
| "push_step (ReadFails k) w =
     (if k < length (pw_procs w)
      then (case read_fails (pw_procs w ! k) (pw_db w) of
              (p, s) \<Rightarrow> w\<lparr>pw_db := s, pw_procs := (pw_procs w)[k := p]\<rparr>)
      else w)"
| "push_step (Rescan scan a) w =
     (if a \<in> set (t_attachments (pw_db w)) \<and> att_scan_status a = SCAN_PENDING
      then w\<lparr>pw_db := snd (scanAndPersist scan a (pw_db w))\<rparr> else w)"

definition quiet_world :: "db \<Rightarrow> push_world" where
  "quiet_world s = \<lparr>pw_db = s, pw_procs = [], pw_log = []\<rparr>"

section \<open>Facts\<close>

lemma retry_three:
  "retry_from (Suc 0) fn =
     (case fn 1 of Inr x \<Rightarrow> (Inr x, [])
      | Inl _ \<Rightarrow> (case fn 2 of Inr x \<Rightarrow> (Inr x, [500])
                  | Inl _ \<Rightarrow> (fn 3, [500, 1000])))"
proof -
  have "retry_from 3 fn = (fn 3, [])"
    by (simp add: retry_from.simps [of 3] JIRA_MAX_ATTEMPTS_def split: sum.split)
  moreover have "retry_from 2 fn = (case fn 2 of Inr x \<Rightarrow> (Inr x, []) | Inl _ \<Rightarrow> (case retry_from 3 fn of (r, ds) \<Rightarrow> (r, 1000 # ds)))"
    by (simp add: retry_from.simps [of 2] JIRA_MAX_ATTEMPTS_def split: sum.split)
  moreover have "retry_from (Suc 0) fn = (case fn 1 of Inr x \<Rightarrow> (Inr x, []) | Inl _ \<Rightarrow> (case retry_from 2 fn of (r, ds) \<Rightarrow> (r, 500 # ds)))"
    by (simp add: retry_from.simps [of "Suc 0"] JIRA_MAX_ATTEMPTS_def numeral_2_eq_2 split: sum.split)
  ultimately show ?thesis by (simp split: sum.split)
qed

lemma withRetry_first: "fn 1 = Inr x \<Longrightarrow> withRetry fn = Inr x"
  by (simp add: withRetry_def retry_three)

lemma withRetry_unfold:
  "withRetry fn = (case fn 1 of Inr x \<Rightarrow> Inr x | Inl _ \<Rightarrow> (case fn 2 of Inr x \<Rightarrow> Inr x | Inl _ \<Rightarrow> fn 3))"
  by (cases "fn 1"; cases "fn 2") (simp_all add: withRetry_def retry_three)

lemma retry_pauses_bound: "sum_list (retry_pauses fn) \<le> 1500"
  by (cases "fn 1"; cases "fn 2") (simp_all add: retry_pauses_def retry_three)

lemma collapse_ws_spaces: "c \<in> set (collapse_ws s) \<Longrightarrow> is_ws c \<Longrightarrow> c = CHR '' ''"
proof (induction s)
  case (Cons x xs)
  then show ?case by (cases xs) (auto split: if_splits)
qed simp

lemma js_trim_subset: "set (js_trim s) \<subseteq> set s"
proof
  fix c assume "c \<in> set (js_trim s)"
  then have "c \<in> set (dropWhile is_ws (rev (dropWhile is_ws s)))"
    by (simp add: js_trim_def js_trim_start_def js_trim_end_def)
  from set_dropWhileD [OF this] have "c \<in> set (dropWhile is_ws s)" by simp
  from set_dropWhileD [OF this] show "c \<in> set s" by simp
qed

text \<open>
  the summary sent to Jira is within its limit of 255 characters and on
  one line: a white-space character in it is a space or comes from the reference number. With
  a reference of at most 52 characters (\<^verbatim>\<open>PLATFORM-YYYY-NNNN\<close> is far shorter) nothing of
  the 200 characters kept of the description is cut off.
\<close>

theorem jira_summary_fits:
  "length (summaryFor i) \<le> 255
   \<and> {c \<in> set (summaryFor i). is_ws c} \<subseteq> insert (CHR '' '') (set (iss_reference_no i))
   \<and> (length (iss_reference_no i) \<le> 52 \<longrightarrow>
        summaryFor i = ''['' @ iss_reference_no i @ ''] '' @ take 200 (js_trim (collapse_ws (iss_description i))))"
proof -
  have "{c \<in> set (take SUMMARY_MAX (''['' @ r @ ''] '' @ take SUMMARY_BODY_MAX (js_trim (collapse_ws d))))
       . is_ws c} \<subseteq> insert (CHR '' '') (set r)" for r d
  proof
    fix c assume c: "c \<in> {c \<in> set (take SUMMARY_MAX (''['' @ r @ ''] '' @ take SUMMARY_BODY_MAX (js_trim (collapse_ws d)))). is_ws c}"
    then have "c \<in> set (''['' @ r @ ''] '' @ take SUMMARY_BODY_MAX (js_trim (collapse_ws d)))" and w: "is_ws c"
      using set_take_subset by fastforce+
    then have "c \<in> set r \<or> c \<in> set ''[] '' \<or> c \<in> set (collapse_ws d)"
      using js_trim_subset by (auto dest: in_set_takeD)
    moreover have "\<not> is_ws (CHR ''['')" "\<not> is_ws (CHR '']'')" by code_simp+
    ultimately show "c \<in> insert (CHR '' '') (set r)" using w collapse_ws_spaces [of c d] by auto
  qed
  then show ?thesis by (auto simp: summaryFor_def Let_def SUMMARY_MAX_def SUMMARY_BODY_MAX_def)
qed

definition crash_report :: issue where
  "crash_report = (sample_issue ''i1'' ''p1'' NEW)\<lparr>iss_description := '' It   broke ''\<rparr>"

theorem jira_summary_fits_witness: "summaryFor crash_report = ''[SUP-i1] It broke''"
proof -
  have "length (iss_reference_no crash_report) \<le> 52
      \<and> ''['' @ iss_reference_no crash_report @ ''] '' @ take 200 (js_trim (collapse_ws (iss_description crash_report)))
        = ''[SUP-i1] It broke''"
    by code_simp
  then show ?thesis using jira_summary_fits [of crash_report] by simp
qed

subsection \<open>What holds at every step\<close>

fun log_ok :: "(ident \<times> bool) list \<Rightarrow> bool" where
  "log_ok [] = True"
| "log_ok ((a, ok) # lg) = ((ok \<longrightarrow> a \<notin> fst ` set lg) \<and> log_ok lg)"

lemma log_ok_snoc: "log_ok (lg @ [(a, ok)]) \<longleftrightarrow> log_ok lg \<and> (a, True) \<notin> set lg"
  by (induction lg rule: log_ok.induct) auto

definition pushed :: "sync_proc \<Rightarrow> ident list" where
  "pushed p = (case sp_pushing p of None \<Rightarrow> [] | Some (a, n) \<Rightarrow> [att_id a])"

definition pushed_ids :: "sync_proc list \<Rightarrow> ident list" where
  "pushed_ids ps = concat (map pushed ps)"

definition snapshots :: "sync_proc list \<Rightarrow> attachment set" where
  "snapshots ps = (\<Union>p \<in> set ps. set (sp_todo p))"

text \<open>
  Over the rows, the files being pushed, the log and the loaded files: the flag of a row is up
  exactly when its push was acknowledged or is under way, one process holds a file at a time,
  and a file that was servable when loaded still is.
\<close>

definition push_inv :: "attachment list \<Rightarrow> ident list \<Rightarrow> (ident \<times> bool) list \<Rightarrow> attachment set \<Rightarrow> bool" where
  "push_inv T P lg S =
     (distinct (map att_id T) \<and> log_ok lg \<and> distinct P
      \<and> (\<forall>r \<in> set T. att_jira_synced r = ((att_id r, True) \<in> set lg \<or> att_id r \<in> set P))
      \<and> (\<forall>a. (a, True) \<in> set lg \<longrightarrow> a \<notin> set P)
      \<and> (\<forall>a. (a, True) \<in> set lg \<or> a \<in> set P \<longrightarrow> (\<exists>r \<in> set T. att_id r = a \<and> servable (att_scan_status r)))
      \<and> (\<forall>a \<in> S. servable (att_scan_status a) \<longrightarrow> (\<exists>r \<in> set T. att_id r = att_id a \<and> servable (att_scan_status r))))"

definition world_inv :: "push_world \<Rightarrow> bool" where
  "world_inv w = push_inv (t_attachments (pw_db w)) (pushed_ids (pw_procs w)) (pw_log w) (snapshots (pw_procs w))"

lemma push_inv_shrink: "push_inv T P lg S \<Longrightarrow> S' \<subseteq> S \<Longrightarrow> push_inv T P lg S'"
  unfolding push_inv_def by blast

lemma push_inv_load: "push_inv T P lg S \<Longrightarrow> push_inv T P lg (S \<union> {a \<in> set T. f a})"
  unfolding push_inv_def by blast

lemma push_inv_fail: "push_inv T P lg S \<Longrightarrow> a \<in> set P \<Longrightarrow> push_inv T P (lg @ [(a, False)]) S"
  by (auto simp: push_inv_def log_ok_snoc)

lemma push_inv_ack: "push_inv T (L @ a # R) lg S \<Longrightarrow> push_inv T (L @ R) (lg @ [(a, True)]) S"
  by (auto simp: push_inv_def log_ok_snoc)

text \<open>A write that keeps key and verdict of every row and moves its flag with the holders.\<close>

lemma push_inv_rows:
  assumes inv: "push_inv T P lg S" and f: "\<And>r. att_id (f r) = att_id r" "\<And>r. att_scan_status (f r) = att_scan_status r"
    and P': "distinct P'" "\<And>a. a \<in> set P' \<Longrightarrow> (a, True) \<notin> set lg"
      "\<And>a. a \<in> set P' \<Longrightarrow> \<exists>r \<in> set T. att_id r = a \<and> servable (att_scan_status r)"
    and flag: "\<And>r. r \<in> set T \<Longrightarrow> att_jira_synced (f r) = ((att_id r, True) \<in> set lg \<or> att_id r \<in> set P')"
  shows "push_inv (map f T) P' lg S"
proof -
  have k: "map att_id (map f T) = map att_id T" by (simp add: f)
  have e: "(\<exists>r \<in> set (map f T). att_id r = a \<and> servable (att_scan_status r))
      = (\<exists>r \<in> set T. att_id r = a \<and> servable (att_scan_status r))" for a
    by (simp add: f)
  have fl: "\<forall>r \<in> set (map f T). att_jira_synced r = ((att_id r, True) \<in> set lg \<or> att_id r \<in> set P')"
    using flag by (simp add: f)
  show ?thesis
    unfolding push_inv_def k e
  proof (intro conjI fl P'(1))
    show "\<forall>a. (a, True) \<in> set lg \<longrightarrow> a \<notin> set P'" using P'(2) by blast
    show "\<forall>a. (a, True) \<in> set lg \<or> a \<in> set P' \<longrightarrow> (\<exists>r \<in> set T. att_id r = a \<and> servable (att_scan_status r))"
      using P'(3) inv unfolding push_inv_def by blast
  qed (use inv in \<open>simp_all add: push_inv_def\<close>)
qed

lemma release_rows:
  "t_attachments (release_attachment aid s)
     = map (\<lambda>a. if att_id a = aid then a\<lparr>att_jira_synced := False\<rparr> else a) (t_attachments s)"
  by (simp add: release_attachment_def)

lemma push_inv_release:
  assumes "push_inv (t_attachments s) (L @ a # R) lg S"
  shows "push_inv (t_attachments (release_attachment a s)) (L @ R) lg S"
  unfolding release_rows
proof (rule push_inv_rows [OF assms])
  fix r assume r: "r \<in> set (t_attachments s)"
  with assms have "att_jira_synced r = ((att_id r, True) \<in> set lg \<or> att_id r \<in> set (L @ a # R))"
    unfolding push_inv_def by blast
  with assms show "att_jira_synced (if att_id r = a then r\<lparr>att_jira_synced := False\<rparr> else r) =
      ((att_id r, True) \<in> set lg \<or> att_id r \<in> set (L @ R))"
    by (auto simp: push_inv_def)
qed (use assms in \<open>auto simp: push_inv_def\<close>)

lemma claim_rows:
  "t_attachments (snd (claim_attachment aid s))
     = map (\<lambda>a. if att_id a = aid \<and> \<not> att_jira_synced a then a\<lparr>att_jira_synced := True\<rparr> else a) (t_attachments s)"
  by (simp add: claim_attachment_def)

lemma claim_none: "fst (claim_attachment aid s) = 0 \<Longrightarrow> snd (claim_attachment aid s) = s"
  by (simp add: claim_attachment_def filter_empty_conv map_idI)

lemma claim_some: "fst (claim_attachment aid s) \<noteq> 0 \<Longrightarrow> \<exists>r \<in> set (t_attachments s). att_id r = aid \<and> \<not> att_jira_synced r"
  by (auto simp: claim_attachment_def filter_empty_conv)

lemma push_inv_claim:
  assumes inv: "push_inv (t_attachments s) (L @ R) lg S" and c: "fst (claim_attachment (att_id a) s) \<noteq> 0"
    and a: "a \<in> S" "servable (att_scan_status a)"
  shows "push_inv (t_attachments (snd (claim_attachment (att_id a) s))) (L @ att_id a # R) lg S"
proof -
  let ?f = "\<lambda>r. if att_id r = att_id a \<and> \<not> att_jira_synced r then r\<lparr>att_jira_synced := True\<rparr> else r"
  obtain r where r: "r \<in> set (t_attachments s)" "att_id r = att_id a" "\<not> att_jira_synced r"
    using claim_some [OF c] by blast
  with inv have free: "(att_id a, True) \<notin> set lg" "att_id a \<notin> set L" "att_id a \<notin> set R"
    unfolding push_inv_def by auto
  show ?thesis
    unfolding claim_rows
  proof (rule push_inv_rows [OF inv])
    fix r assume "r \<in> set (t_attachments s)"
    with inv have "att_jira_synced r = ((att_id r, True) \<in> set lg \<or> att_id r \<in> set (L @ R))"
      unfolding push_inv_def by blast
    then show "att_jira_synced (?f r) = ((att_id r, True) \<in> set lg \<or> att_id r \<in> set (L @ att_id a # R))"
      by auto
  next
    fix b assume "b \<in> set (L @ att_id a # R)"
    then show "\<exists>r \<in> set (t_attachments s). att_id r = b \<and> servable (att_scan_status r)"
      using inv a unfolding push_inv_def by auto
    from \<open>b \<in> set (L @ att_id a # R)\<close> show "(b, True) \<notin> set lg"
      using inv free unfolding push_inv_def by auto
  qed (use inv free in \<open>auto simp: push_inv_def\<close>)
qed

lemma push_inv_rescan:
  assumes inv: "push_inv T P lg S" and a: "a \<in> set T" "att_scan_status a = SCAN_PENDING"
  shows "push_inv (replace_row att_id (a\<lparr>att_scan_status := st\<rparr>) T) P lg S"
proof -
  let ?b = "a\<lparr>att_scan_status := st\<rparr>"
  let ?T' = "replace_row att_id ?b T"
  have d: "distinct (map att_id T)" using inv by (simp add: push_inv_def)
  have keys: "map att_id ?T' = map att_id T" by (rule keys_replace_row)
  have rows: "r \<in> set T \<and> att_id r \<noteq> att_id a \<or> r = ?b" if "r \<in> set ?T'" for r
    using in_replace_rowD [OF that] by auto
  have flag: "\<forall>r \<in> set ?T'. att_jira_synced r = ((att_id r, True) \<in> set lg \<or> att_id r \<in> set P)"
  proof
    fix r assume "r \<in> set ?T'"
    from rows [OF this] a inv show "att_jira_synced r = ((att_id r, True) \<in> set lg \<or> att_id r \<in> set P)"
      by (auto simp: push_inv_def)
  qed
  have keep: "\<exists>r' \<in> set ?T'. att_id r' = att_id r \<and> servable (att_scan_status r')"
    if "r \<in> set T" "servable (att_scan_status r)" for r
  proof -
    from that(2) a(2) have "r \<noteq> a" by auto
    then have "att_id r \<noteq> att_id a" using distinct_keys_eq [OF d that(1) a(1)] by blast
    with that show ?thesis by (auto simp: replace_row_def intro!: bexI [of _ r] image_eqI [of _ _ r])
  qed
  show ?thesis
    unfolding push_inv_def keys
  proof (intro conjI flag)
    show "\<forall>b. (b, True) \<in> set lg \<or> b \<in> set P \<longrightarrow> (\<exists>r \<in> set ?T'. att_id r = b \<and> servable (att_scan_status r))"
    proof (intro allI impI)
      fix b assume "(b, True) \<in> set lg \<or> b \<in> set P"
      then obtain r where "r \<in> set T" "att_id r = b" "servable (att_scan_status r)"
        using inv unfolding push_inv_def by blast
      with keep [of r] show "\<exists>r \<in> set ?T'. att_id r = b \<and> servable (att_scan_status r)" by simp
    qed
    show "\<forall>b \<in> S. servable (att_scan_status b) \<longrightarrow> (\<exists>r \<in> set ?T'. att_id r = att_id b \<and> servable (att_scan_status r))"
    proof (intro ballI impI)
      fix b assume "b \<in> S" "servable (att_scan_status b)"
      then obtain r where "r \<in> set T" "att_id r = att_id b" "servable (att_scan_status r)"
        using inv unfolding push_inv_def by blast
      with keep [of r] show "\<exists>r \<in> set ?T'. att_id r = att_id b \<and> servable (att_scan_status r)" by simp
    qed
  qed (use inv in \<open>simp_all add: push_inv_def\<close>)
qed

lemma advance_inv:
  assumes inv: "push_inv (t_attachments s) (L @ pushed p @ R) lg S" and S: "set (sp_todo p) \<subseteq> S"
    and adv: "advance ok p (s, lg) = (p', s', lg')"
  shows "push_inv (t_attachments s') (L @ pushed p' @ R) lg' S \<and> set (sp_todo p') \<subseteq> set (sp_todo p)"
proof (cases "sp_pushing p")
  case (Some x)
  then obtain a n where p: "sp_pushing p = Some (a, n)" by (cases x) auto
  with inv have i: "push_inv (t_attachments s) (L @ att_id a # R) lg S" by (simp add: pushed_def)
  consider "ok" | "\<not> ok" "n < JIRA_MAX_ATTEMPTS" | "\<not> ok" "\<not> n < JIRA_MAX_ATTEMPTS" by blast
  then show ?thesis
  proof cases
    case 1
    with adv p push_inv_ack [OF i] show ?thesis by (auto simp: advance_def pushed_def idle_def)
  next
    case 2
    with adv p push_inv_fail [OF i, of "att_id a"] show ?thesis by (auto simp: advance_def pushed_def)
  next
    case 3
    have "push_inv (t_attachments (release_attachment (att_id a) s)) (L @ R) (lg @ [(att_id a, False)]) S"
      by (rule push_inv_release) (use push_inv_fail [OF i, of "att_id a"] in simp)
    with adv p 3 show ?thesis by (auto simp: advance_def pushed_def idle_def)
  qed
next
  case None
  show ?thesis
  proof (cases "sp_todo p")
    case Nil
    with None adv inv show ?thesis by (simp add: advance_def)
  next
    case (Cons a rest)
    obtain n s1 where c: "claim_attachment (att_id a) s = (n, s1)" by fastforce
    from inv None have i: "push_inv (t_attachments s) (L @ R) lg S" by (simp add: pushed_def)
    consider "att_jira_synced a \<or> \<not> servable (att_scan_status a)"
      | "\<not> att_jira_synced a" "servable (att_scan_status a)" "n = 0"
      | "\<not> att_jira_synced a" "servable (att_scan_status a)" "n \<noteq> 0" by blast
    then show ?thesis
    proof cases
      case 1
      with adv None Cons i show ?thesis by (auto simp: advance_def pushed_def idle_def)
    next
      case 2
      with claim_none [of "att_id a" s] c have "s1 = s" by simp
      with 2 adv None Cons i c show ?thesis by (auto simp: advance_def pushed_def idle_def)
    next
      case 3
      have "a \<in> S" using S Cons by simp
      from push_inv_claim [OF i _ this 3(2)] c 3(3)
      have "push_inv (t_attachments s1) (L @ att_id a # R) lg S" by simp
      with 3 adv None Cons c show ?thesis by (auto simp: advance_def pushed_def)
    qed
  qed
qed

lemma read_fails_inv:
  assumes inv: "push_inv (t_attachments s) (L @ pushed p @ R) lg S" and r: "read_fails p s = (p', s')"
  shows "push_inv (t_attachments s') (L @ pushed p' @ R) lg S \<and> set (sp_todo p') = set (sp_todo p)"
proof (cases "sp_pushing p")
  case (Some x)
  then obtain a n where p: "sp_pushing p = Some (a, n)" by (cases x) auto
  with inv have "push_inv (t_attachments (release_attachment (att_id a) s)) (L @ R) lg S"
    by (intro push_inv_release) (simp add: pushed_def)
  with r p inv show ?thesis by (auto simp: read_fails_def pushed_def idle_def split: if_splits)
qed (use assms in \<open>auto simp: read_fails_def\<close>)

lemma split_at_update:
  assumes "k < length ps"
  obtains L R where "ps = L @ ps ! k # R" and "\<And>p. ps[k := p] = L @ p # R"
  using assms that [of "take k ps" "drop (Suc k) ps"]
  by (simp add: id_take_nth_drop [symmetric] upd_conv_take_nth_drop)

lemma pushed_ids_split: "pushed_ids (L @ p # R) = pushed_ids L @ pushed p @ pushed_ids R"
  by (simp add: pushed_ids_def)

lemma world_inv_step:
  assumes "world_inv w"
  shows "world_inv (push_step ev w)"
proof (cases ev)
  case (StartSync iid)
  have eq: "snapshots (pw_procs w @ [start_sync iid (pw_db w)])
      = snapshots (pw_procs w) \<union> {a \<in> set (t_attachments (pw_db w)). att_issue a = iid}"
    by (auto simp: snapshots_def start_sync_def)
  have "pushed_ids (pw_procs w @ [start_sync iid (pw_db w)]) = pushed_ids (pw_procs w)"
    by (simp add: pushed_ids_def start_sync_def pushed_def)
  with assms eq StartSync push_inv_load show ?thesis by (simp add: world_inv_def)
next
  case (Advance k ok)
  show ?thesis
  proof (cases "k < length (pw_procs w)")
    case True
    obtain L R where ps: "pw_procs w = L @ pw_procs w ! k # R" "\<And>p. (pw_procs w)[k := p] = L @ p # R"
      by (rule split_at_update [OF True]) blast
    obtain p s lg where adv: "advance ok (pw_procs w ! k) (pw_db w, pw_log w) = (p, s, lg)"
      by (cases "advance ok (pw_procs w ! k) (pw_db w, pw_log w)") auto
    have inv: "push_inv (t_attachments (pw_db w)) (pushed_ids L @ pushed (pw_procs w ! k) @ pushed_ids R) (pw_log w) (snapshots (pw_procs w))"
      using assms ps(1) pushed_ids_split unfolding world_inv_def by metis
    have "set (sp_todo (pw_procs w ! k)) \<subseteq> snapshots (pw_procs w)"
      using nth_mem [OF True] by (auto simp: snapshots_def)
    from advance_inv [OF inv this adv]
    have i: "push_inv (t_attachments s) (pushed_ids (L @ p # R)) lg (snapshots (pw_procs w))"
      and sub: "set (sp_todo p) \<subseteq> set (sp_todo (pw_procs w ! k))" by (simp_all add: pushed_ids_split)
    have "snapshots (L @ p # R) \<subseteq> snapshots (L @ pw_procs w ! k # R)" using sub by (auto simp: snapshots_def)
    then have "push_inv (t_attachments s) (pushed_ids (L @ p # R)) lg (snapshots (L @ p # R))"
      using push_inv_shrink [OF i] ps(1) by metis
    with True adv ps(2) show ?thesis by (simp add: Advance world_inv_def)
  qed (use assms in \<open>simp add: Advance\<close>)
next
  case (ReadFails k)
  show ?thesis
  proof (cases "k < length (pw_procs w)")
    case True
    obtain L R where ps: "pw_procs w = L @ pw_procs w ! k # R" "\<And>p. (pw_procs w)[k := p] = L @ p # R"
      by (rule split_at_update [OF True]) blast
    obtain p s where r: "read_fails (pw_procs w ! k) (pw_db w) = (p, s)" by fastforce
    have inv: "push_inv (t_attachments (pw_db w)) (pushed_ids L @ pushed (pw_procs w ! k) @ pushed_ids R) (pw_log w) (snapshots (pw_procs w))"
      using assms ps(1) pushed_ids_split unfolding world_inv_def by metis
    from read_fails_inv [OF inv r]
    have i: "push_inv (t_attachments s) (pushed_ids (L @ p # R)) (pw_log w) (snapshots (pw_procs w))"
      and sub: "set (sp_todo p) = set (sp_todo (pw_procs w ! k))" by (simp_all add: pushed_ids_split)
    have "snapshots (L @ p # R) = snapshots (L @ pw_procs w ! k # R)" using sub by (auto simp: snapshots_def)
    with i ps(1) have "push_inv (t_attachments s) (pushed_ids (L @ p # R)) (pw_log w) (snapshots (L @ p # R))" by metis
    with True r ps(2) show ?thesis by (simp add: ReadFails world_inv_def)
  qed (use assms in \<open>simp add: ReadFails\<close>)
next
  case (Rescan scan a)
  with assms push_inv_rescan show ?thesis
    by (simp add: world_inv_def scanAndPersist_def Let_def)
qed

lemma world_inv_run: "world_inv w \<Longrightarrow> world_inv (fold push_step evs w)"
  by (induction evs arbitrary: w) (simp_all add: world_inv_step)

lemma world_inv_start:
  assumes "distinct (map att_id (t_attachments s))" and "\<forall>a \<in> set (t_attachments s). \<not> att_jira_synced a"
  shows "world_inv (quiet_world s)"
  using assms by (simp add: world_inv_def push_inv_def quiet_world_def pushed_ids_def snapshots_def)

text \<open>
  C35: however the pushes of several runs interleave with each other and
  with scans, no request for a file is made after one that Jira acknowledged; a file that
  was sent has been found servable; and the flag of a row is up exactly when its push was
  acknowledged or is still under way, so that a push that failed can be taken up again.
\<close>

theorem attachment_pushed_once:
  assumes "distinct (map att_id (t_attachments s))" and "\<forall>a \<in> set (t_attachments s). \<not> att_jira_synced a"
    and w: "w = fold push_step evs (quiet_world s)"
  shows "log_ok (pw_log w) \<and> distinct (pushed_ids (pw_procs w))
    \<and> (\<forall>aid. (aid, True) \<in> set (pw_log w) \<longrightarrow>
           (\<exists>r \<in> set (t_attachments (pw_db w)). att_id r = aid \<and> servable (att_scan_status r)))
    \<and> (\<forall>r \<in> set (t_attachments (pw_db w)).
           att_jira_synced r = ((att_id r, True) \<in> set (pw_log w) \<or> att_id r \<in> set (pushed_ids (pw_procs w))))"
proof -
  have "world_inv w" unfolding w by (rule world_inv_run [OF world_inv_start [OF assms(1,2)]])
  then have "push_inv (t_attachments (pw_db w)) (pushed_ids (pw_procs w)) (pw_log w) (snapshots (pw_procs w))"
    by (simp add: world_inv_def)
  then show ?thesis unfolding push_inv_def by (intro conjI) blast+
qed

text \<open>Two runs over one file: the second finds it claimed, the first gets through on its second attempt.\<close>

definition crash_log :: attachment where
  "crash_log = \<lparr>att_id = ''a1'', att_issue = ''i1'', att_storage_key = ''k1'', att_filename = ''crash.log'',
     att_content_type = ''text/plain'', att_size_bytes = 3, att_scan_status = SCAN_CLEAN, att_jira_synced = False,
     att_created_at = 0\<rparr>"

definition one_file :: db where
  "one_file = empty_db\<lparr>t_attachments := [crash_log]\<rparr>"

theorem attachment_pushed_once_witness:
  "\<exists>w. w = fold push_step [StartSync ''i1'', StartSync ''i1'', Advance 0 True, Advance 1 True, Advance 0 False, Advance 0 True]
             (quiet_world one_file)
     \<and> pw_log w = [(''a1'', False), (''a1'', True)] \<and> log_ok (pw_log w)"
proof -
  let ?w = "fold push_step [StartSync ''i1'', StartSync ''i1'', Advance 0 True, Advance 1 True, Advance 0 False, Advance 0 True]
      (quiet_world one_file)"
  have "pw_log ?w = [(''a1'', False), (''a1'', True)]" by code_simp
  moreover have "distinct (map att_id (t_attachments one_file))"
    and "\<forall>a \<in> set (t_attachments one_file). \<not> att_jira_synced a" by code_simp+
  then have "log_ok (pw_log ?w)" using attachment_pushed_once [OF _ _ refl] by blast
  ultimately show ?thesis by blast
qed

subsection \<open>A run by itself\<close>

text \<open>The steps of one run with nothing between them, the network and the store answering.\<close>

definition alone_step ::
  "jira_config \<Rightarrow> jira_net \<Rightarrow> (string \<Rightarrow> nat list option) \<Rightarrow> string
     \<Rightarrow> sync_proc \<times> db \<times> (ident \<times> bool) list \<Rightarrow> sync_proc \<times> db \<times> (ident \<times> bool) list" where
  "alone_step c net read key x =
     (case x of (p, s, lg) \<Rightarrow>
        (case sp_pushing p of
           None \<Rightarrow> advance False p (s, lg)
         | Some (a, n) \<Rightarrow>
             (case read (att_storage_key a) of
                None \<Rightarrow> (case read_fails p s of (p', s') \<Rightarrow> (p', s', lg))
              | Some buf \<Rightarrow> advance (succeeded (addAttachment c net key buf a n)) p (s, lg))))"

lemma alone_file:
  "\<exists>n \<le> 4. \<exists>lg'. (alone_step c net read key ^^ n) (idle (a # rest), s, lg) = (idle rest, sync_one c net read key a s, lg')"
proof -
  let ?st = "alone_step c net read key"
  obtain m s1 where cl: "claim_attachment (att_id a) s = (m, s1)" by fastforce
  show ?thesis
  proof (cases "att_jira_synced a \<or> \<not> servable (att_scan_status a) \<or> m = 0")
    case True
    then have "?st (idle (a # rest), s, lg) = (idle rest, sync_one c net read key a s, lg)"
      by (auto simp: alone_step_def advance_def idle_def sync_one_def cl)
    then show ?thesis by (intro exI [of _ 1]) auto
  next
    case False
    have sync: "sync_one c net read key a s =
        (case push_file c net read key a of Inr _ \<Rightarrow> s1 | Inl _ \<Rightarrow> release_attachment (att_id a) s1)"
      using False by (simp add: sync_one_def cl)
    have s1: "?st (idle (a # rest), s, lg) = (\<lparr>sp_todo = rest, sp_pushing = Some (a, 1)\<rparr>, s1, lg)"
      using False by (auto simp: alone_step_def advance_def idle_def cl)
    show ?thesis
    proof (cases "read (att_storage_key a)")
      case None
      then have "(?st ^^ 2) (idle (a # rest), s, lg) = (idle rest, sync_one c net read key a s, lg)"
        by (simp add: numeral_2_eq_2 s1 sync push_file_def) (simp add: alone_step_def read_fails_def)
      then show ?thesis by (intro exI [of _ 2]) auto
    next
      case (Some buf)
      let ?ans = "addAttachment c net key buf a"
      have att: "?st (\<lparr>sp_todo = rest, sp_pushing = Some (a, k)\<rparr>, s1, l) =
          (if succeeded (?ans k) then (idle rest, s1, l @ [(att_id a, True)])
           else if k < 3 then (\<lparr>sp_todo = rest, sp_pushing = Some (a, k + 1)\<rparr>, s1, l @ [(att_id a, False)])
           else (idle rest, release_attachment (att_id a) s1, l @ [(att_id a, False)]))" for k l
        using Some by (simp add: alone_step_def advance_def JIRA_MAX_ATTEMPTS_def)
      have res: "sync_one c net read key a s =
          (if succeeded (?ans 1) \<or> succeeded (?ans 2) \<or> succeeded (?ans 3) then s1 else release_attachment (att_id a) s1)"
        by (cases "?ans 1"; cases "?ans 2"; cases "?ans 3") (simp_all add: sync push_file_def Some withRetry_unfold)
      consider "succeeded (?ans 1)" | "\<not> succeeded (?ans 1)" "succeeded (?ans 2)" | "\<not> succeeded (?ans 1)" "\<not> succeeded (?ans 2)" by blast
      then show ?thesis
      proof cases
        case 1
        then have "(?st ^^ 2) (idle (a # rest), s, lg) = (idle rest, sync_one c net read key a s, lg @ [(att_id a, True)])"
          by (simp add: numeral_2_eq_2 s1 att res)
        then show ?thesis by (intro exI [of _ 2]) auto
      next
        case 2
        then have "(?st ^^ 3) (idle (a # rest), s, lg)
            = (idle rest, sync_one c net read key a s, lg @ [(att_id a, False), (att_id a, True)])"
          by (simp add: numeral_3_eq_3 s1 att res numeral_2_eq_2)
        then show ?thesis by (intro exI [of _ 3]) auto
      next
        case 3
        then have "\<exists>lg'. (?st ^^ 4) (idle (a # rest), s, lg) = (idle rest, sync_one c net read key a s, lg')"
          by (simp add: eval_nat_numeral s1 att res)
        then show ?thesis by (intro exI [of _ 4]) auto
      qed
    qed
  qed
qed

text \<open>
  the steps of a run, with nothing between them, end after at most four
  per file in the database \<^verbatim>\<open>syncAttachments\<close> computes.
\<close>

theorem sync_alone_refines:
  "\<exists>n \<le> 4 * length (filter (\<lambda>a. att_issue a = iid) (t_attachments s)). \<exists>lg.
     (alone_step c net read key ^^ n) (start_sync iid s, s, []) = (idle [], syncAttachments c net read iid key s, lg)"
proof -
  have "\<exists>n \<le> 4 * length todo. \<exists>lg'.
      (alone_step c net read key ^^ n) (idle todo, s, lg) = (idle [], fold (sync_one c net read key) todo s, lg')" for todo s lg
  proof (induction todo arbitrary: s lg)
    case Nil
    show ?case by (intro exI [of _ 0]) simp
  next
    case (Cons a rest)
    obtain n1 lg1 where 1: "n1 \<le> 4"
      "(alone_step c net read key ^^ n1) (idle (a # rest), s, lg) = (idle rest, sync_one c net read key a s, lg1)"
      using alone_file by blast
    obtain n2 lg2 where 2: "n2 \<le> 4 * length rest"
      "(alone_step c net read key ^^ n2) (idle rest, sync_one c net read key a s, lg1)
         = (idle [], fold (sync_one c net read key) rest (sync_one c net read key a s), lg2)"
      using Cons.IH by blast
    have "(alone_step c net read key ^^ (n2 + n1)) (idle (a # rest), s, lg)
        = (idle [], fold (sync_one c net read key) (a # rest) s, lg2)"
      using 1 2 by (simp add: funpow_add)
    with 1 2 show ?case by (intro exI [of _ "n2 + n1"] conjI exI [of _ lg2]) simp_all
  qed
  then show ?thesis by (simp add: start_sync_def idle_def syncAttachments_def)
qed

subsection \<open>One ticket per issue\<close>

lemma find_qb_update:
  assumes "\<And>i. iss_id (f i) = iss_id i" and "find_issue iid s = Some i"
  shows "find_issue iid (qb_update e iid f s) = Some ((f i)\<lparr>iss_updated_at := now e, iss_version := iss_version i + 1\<rparr>)"
proof -
  have "iss_id i = iid" using assms(2) by (auto simp: find_issue_def dest: by_key_SomeD)
  with assms show ?thesis by (simp add: qb_update_def find_issue_def by_key_map)
qed

lemma sync_one_issues [simp]: "t_issues (sync_one c net read k a s) = t_issues s"
  by (simp add: sync_one_def claim_attachment_def release_attachment_def split: sum.split)

lemma syncAttachments_issues [simp]: "t_issues (syncAttachments c net read iid k s) = t_issues s"
proof -
  have "t_issues (fold (sync_one c net read k) as s) = t_issues s" for as s
    by (induction as arbitrary: s) simp_all
  then show ?thesis by (simp add: syncAttachments_def)
qed

text \<open>
  while a create call of the issue is in flight (its three attempts with
  their time limits and the pauses between them) another delivery of the event does nothing;
  and once the call has succeeded, no later delivery does anything.
\<close>

theorem live_claim_is_kept:
  assumes i: "find_issue iid s = Some i" and p: "find_platform (iss_platform i) s = Some p"
    and "wants_ticket e c i p"
    and t: "now ed \<le> now e + int JIRA_MAX_ATTEMPTS * REQUEST_TIMEOUT_MS + sum_list (retry_pauses (jira_createIssue c net p i))"
  shows "jira_onIssueCreated ed ef cd netd readd iid (qb_update e iid (iss_jira_sync_status_update (\<lambda>_. SYNC_PENDING)) s)
           = (False, qb_update e iid (iss_jira_sync_status_update (\<lambda>_. SYNC_PENDING)) s)
       \<and> (case jira_onIssueCreated e e' c net read iid s of (called, s') \<Rightarrow>
            called \<and> (succeeded (withRetry (jira_createIssue c net p i)) \<longrightarrow> jira_onIssueCreated eg eh cg netg readg iid s' = (False, s')))"
proof
  let ?s1 = "qb_update e iid (iss_jira_sync_status_update (\<lambda>_. SYNC_PENDING)) s"
  let ?i1 = "i\<lparr>iss_jira_sync_status := SYNC_PENDING, iss_updated_at := now e, iss_version := iss_version i + 1\<rparr>"
  have f1: "find_issue iid ?s1 = Some ?i1" using find_qb_update [OF _ i] by simp
  have "\<not> isPendingClaimStale ed ?i1"
    using t retry_pauses_bound [of "jira_createIssue c net p i"]
    by (simp add: isPendingClaimStale_def PENDING_STALE_MS_def REQUEST_TIMEOUT_MS_def JIRA_MAX_ATTEMPTS_def)
  then have "\<not> wants_ticket ed cd ?i1 q" for q by (simp add: wants_ticket_def)
  then show "jira_onIssueCreated ed ef cd netd readd iid ?s1 = (False, ?s1)"
    by (simp add: jira_onIssueCreated_def f1 split: option.split)
  show "case jira_onIssueCreated e e' c net read iid s of (called, s') \<Rightarrow>
      called \<and> (succeeded (withRetry (jira_createIssue c net p i)) \<longrightarrow> jira_onIssueCreated eg eh cg netg readg iid s' = (False, s'))"
  proof (cases "withRetry (jira_createIssue c net p i)")
    case (Inl err)
    then show ?thesis using assms by (simp add: jira_onIssueCreated_def Let_def)
  next
    case (Inr k)
    let ?f = "\<lambda>i. i\<lparr>iss_jira_issue_key := Some k, iss_jira_sync_status := SYNCED\<rparr>"
    let ?s2 = "syncAttachments c net read iid k (qb_update e' iid ?f ?s1)"
    have "jira_onIssueCreated e e' c net read iid s = (True, ?s2)"
      using assms Inr by (simp add: jira_onIssueCreated_def Let_def)
    moreover obtain j where j: "find_issue iid ?s2 = Some j" "iss_jira_sync_status j = SYNCED"
      using find_qb_update [OF _ f1, of ?f] by (simp add: find_issue_def)
    from j(2) have "\<not> wants_ticket eg cg j q" for q by (simp add: wants_ticket_def)
    then have "jira_onIssueCreated eg eh cg netg readg iid ?s2 = (False, ?s2)"
      by (simp add: jira_onIssueCreated_def j(1) split: option.split)
    ultimately show ?thesis by simp
  qed
qed

definition jira_site :: jira_config where
  "jira_site = \<lparr>jc_base_url = Some ''https://x.atlassian.net/'', jc_email = Some ''bot@x.org'', jc_api_token = Some ''t''\<rparr>"

definition tracked_db :: db where
  "tracked_db = empty_db\<lparr>t_issues := [sample_issue ''i1'' ''p1'' NEW],
     t_platforms := [(sample_platform ''p1'' ''HR'')\<lparr>plat_jira_enabled := True, plat_jira_project_key := Some ''SUP''\<rparr>]\<rparr>"

definition flaky_jira :: jira_net where
  "flaky_jira q n = (if n < 3 then None else Some \<lparr>jr_status = 201, jr_key = Some ''SUP-7''\<rparr>)"

theorem live_claim_is_kept_witness:
  "\<exists>s'. jira_onIssueCreated plain_env (plain_env\<lparr>now := 1000 * 3600000 + 46500\<rparr>) jira_site flaky_jira (\<lambda>_. None) ''i1'' tracked_db
        = (True, s')
     \<and> jira_onIssueCreated plain_env plain_env jira_site flaky_jira (\<lambda>_. None) ''i1'' s' = (False, s')"
proof -
  let ?i = "sample_issue ''i1'' ''p1'' NEW"
  let ?p = "(sample_platform ''p1'' ''HR'')\<lparr>plat_jira_enabled := True, plat_jira_project_key := Some ''SUP''\<rparr>"
  have 1: "find_issue ''i1'' tracked_db = Some ?i" "find_platform (iss_platform ?i) tracked_db = Some ?p"
    "wants_ticket plain_env jira_site ?i ?p"
    by code_simp+
  have 2: "now (plain_env\<lparr>now := 1000 * 3600000 + 46500\<rparr>) \<le> now plain_env + int JIRA_MAX_ATTEMPTS * REQUEST_TIMEOUT_MS
      + sum_list (retry_pauses (jira_createIssue jira_site flaky_jira ?p ?i))"
    by code_simp
  have 3: "succeeded (withRetry (jira_createIssue jira_site flaky_jira ?p ?i))" by code_simp
  obtain called s' where h: "jira_onIssueCreated plain_env (plain_env\<lparr>now := 1000 * 3600000 + 46500\<rparr>) jira_site flaky_jira
      (\<lambda>_. None) ''i1'' tracked_db = (called, s')" by fastforce
  from live_claim_is_kept [OF 1 2, where e' = "plain_env\<lparr>now := 1000 * 3600000 + 46500\<rparr>" and read = "\<lambda>_. None"
      and eg = plain_env and eh = plain_env and cg = jira_site and netg = flaky_jira and readg = "\<lambda>_. None"] 3 h
  show ?thesis by simp
qed

end
