(* ===== verification/Translation.thy ===== *)
theory Translation
  imports Reporter
begin

text \<open>
  Machine translation of messages: the providers (\<^verbatim>\<open>src/translation/libretranslate.service.ts\<close>,
  \<^verbatim>\<open>noop-translation.service.ts\<close>, chosen by \<^verbatim>\<open>translation.module.ts\<close>) and the listener
  that fills the cache of a comment (\<^verbatim>\<open>translation.listener.ts\<close>). The HTTP call to the
  provider is a parameter: \<^verbatim>\<open>None\<close> where it raises or answers with an error status.
\<close>

section \<open>The contract of a provider\<close>

text \<open>
  What \<^verbatim>\<open>TranslationService\<close> promises: a disabled provider and a blank text give the text
  back, as does a pair of equal languages; a detected language is in its base form.
\<close>

type_synonym translation_result = "string \<times> string option"

locale translation_provider =
  fixes enabled :: bool
    and translate :: "string \<Rightarrow> string \<Rightarrow> string option \<Rightarrow> translation_result"
    and detect :: "string \<Rightarrow> string option"
  assumes disabled: "\<not> enabled \<Longrightarrow> translate t l src = (t, None)" "\<not> enabled \<Longrightarrow> detect t = None"
    and blank: "js_trim t = '''' \<Longrightarrow> translate t l src = (t, None)"
    and same_language: "baseLocale (Some l) = baseLocale (Some sl) \<Longrightarrow> fst (translate t l (Some sl)) = t"
    and detected: "detect t = Some l \<Longrightarrow> baseLocale (Some l) = Some l"

record translator =
  tr_enabled :: bool
  tr_translate :: "string \<Rightarrow> string \<Rightarrow> string option \<Rightarrow> translation_result"
  tr_detect :: "string \<Rightarrow> string option"

section \<open>The providers\<close>

definition noop_translate :: "string \<Rightarrow> string \<Rightarrow> string option \<Rightarrow> translation_result" where
  "noop_translate t l src = (t, None)"

definition noop_detect :: "string \<Rightarrow> string option" where
  "noop_detect t = None"

record libre_config =
  lt_api_url :: "string option"
  lt_api_key :: "string option"

datatype libre_payload =
    TRANSLATE_PAYLOAD string string string
  | DETECT_PAYLOAD string

record libre_request =
  lq_url :: string
  lq_payload :: libre_payload
  lq_api_key :: "string option"

record libre_answer =
  la_translated_text :: "string option"
  la_language :: "string option"

type_synonym libre_net = "libre_request \<Rightarrow> libre_answer option"

definition libre_isEnabled :: "libre_config \<Rightarrow> bool" where
  "libre_isEnabled c = (truthy (lt_api_url c) \<noteq> None)"

definition libre_post :: "libre_config \<Rightarrow> libre_net \<Rightarrow> string \<Rightarrow> libre_payload \<Rightarrow> libre_answer option" where
  "libre_post c net path payload =
     (let u = (case lt_api_url c of None \<Rightarrow> '''' | Some u \<Rightarrow> u)
      in net \<lparr>lq_url = (if ends_with ''/'' u then butlast u else u) @ path, lq_payload = payload,
              lq_api_key = truthy (lt_api_key c)\<rparr>)"

definition libre_translate :: "libre_config \<Rightarrow> libre_net \<Rightarrow> string \<Rightarrow> string \<Rightarrow> string option \<Rightarrow> translation_result" where
  "libre_translate c net t l src =
     (case baseLocale (Some l) of
        None \<Rightarrow> (t, None)
      | Some target \<Rightarrow>
          (if \<not> libre_isEnabled c \<or> js_trim t = '''' then (t, None)
           else
             (let source = (case baseLocale src of None \<Rightarrow> ''auto'' | Some b \<Rightarrow> b) in
              if source = target then (t, if source = ''auto'' then None else Some source)
              else
                (case libre_post c net ''/translate'' (TRANSLATE_PAYLOAD t source target) of
                   None \<Rightarrow> (t, None)
                 | Some a \<Rightarrow>
                     ((case la_translated_text a of
                         None \<Rightarrow> t
                       | Some x \<Rightarrow> (if js_trim x = '''' then t else x)),
                      baseLocale (la_language a))))))"

definition libre_detect :: "libre_config \<Rightarrow> libre_net \<Rightarrow> string \<Rightarrow> string option" where
  "libre_detect c net t =
     (if \<not> libre_isEnabled c \<or> js_trim t = '''' then None
      else (case libre_post c net ''/detect'' (DETECT_PAYLOAD t) of
              None \<Rightarrow> None
            | Some a \<Rightarrow> baseLocale (la_language a)))"

text \<open>The factory of the module.\<close>

definition provider :: "string option \<Rightarrow> libre_config \<Rightarrow> libre_net \<Rightarrow> translator" where
  "provider driver c net =
     (if driver = Some ''libretranslate''
      then \<lparr>tr_enabled = libre_isEnabled c, tr_translate = libre_translate c net, tr_detect = libre_detect c net\<rparr>
      else \<lparr>tr_enabled = False, tr_translate = noop_translate, tr_detect = noop_detect\<rparr>)"

section \<open>The listener\<close>

record translation_config =
  tc_staff_locale :: "string option"
  tc_reporter_locales :: "string list"

text \<open>The languages a comment is wanted in, each once, in the order they were added.\<close>

definition translation_targets :: "translation_config \<Rightarrow> comment \<Rightarrow> string list" where
  "translation_targets cfg c =
     (if com_author_type c = ACTOR_REPORTER
      then [case baseLocale (tc_staff_locale cfg) of None \<Rightarrow> ''en'' | Some b \<Rightarrow> b]
      else if com_visibility c = REPORTER_VISIBLE
      then js_set (List.map_filter (\<lambda>l. baseLocale (Some l)) (tc_reporter_locales cfg))
      else [])"

type_synonym cache = "(string \<times> string) list"

text \<open>\<^verbatim>\<open>cache[target] = text\<close>: a key keeps its place, a new one goes to the end.\<close>

definition cache_put :: "string \<Rightarrow> string \<Rightarrow> cache \<Rightarrow> cache" where
  "cache_put k t m = (if map_of m k = None then m @ [(k, t)] else map (\<lambda>(j, x). if j = k then (j, t) else (j, x)) m)"

text \<open>The calls the listener makes of the provider, in their order, with what they hand over.\<close>

datatype provider_call =
    DETECT_CALL string
  | TRANSLATE_CALL string string "string option"

type_synonym fill_state = "provider_call list \<times> cache \<times> bool"

fun fill_cache :: "translator \<Rightarrow> string \<Rightarrow> string option \<Rightarrow> string list \<Rightarrow> fill_state \<Rightarrow> fill_state" where
  "fill_cache tr body source [] acc = acc"
| "fill_cache tr body source (target # rest) (calls, m, changed) =
     (if truthy (map_of m target) \<noteq> None \<or> truthy source = Some target
      then fill_cache tr body source rest (calls, m, changed)
      else
        (let t = fst (tr_translate tr body target source);
             calls = calls @ [TRANSLATE_CALL body target source] in
         if t \<noteq> '''' \<and> t \<noteq> body then fill_cache tr body source rest (calls, cache_put target t m, True)
         else fill_cache tr body source rest (calls, m, changed)))"

text \<open>
  From the comment as it was loaded to the calls made and the values of the update,
  \<^verbatim>\<open>None\<close> where nothing is written: the source language and, when one was added, the
  translations.
\<close>

definition plan_translation ::
  "translator \<Rightarrow> translation_config \<Rightarrow> comment \<Rightarrow> provider_call list \<times> (string option \<times> cache option) option" where
  "plan_translation tr cfg c =
     (if js_trim (com_body c) = '''' then ([], None)
      else if translation_targets cfg c = [] then ([], None)
      else
        (let (detected, source) =
               (case com_source_locale c of
                  Some l \<Rightarrow> ([], Some l)
                | None \<Rightarrow> ([DETECT_CALL (com_body c)], tr_detect tr (com_body c)));
             (calls, m, changed) = fill_cache tr (com_body c) source (translation_targets cfg c)
                (detected, (case com_translations c of None \<Rightarrow> [] | Some m \<Rightarrow> m), False)
         in (calls,
             if \<not> changed \<and> source = com_source_locale c then None
             else Some (source, if changed then Some m else None))))"

definition commit_translation :: "ident \<Rightarrow> string option \<times> cache option \<Rightarrow> db \<Rightarrow> db" where
  "commit_translation cid plan s =
     (case plan of (source, m) \<Rightarrow>
        t_comments_update (map (\<lambda>c. if com_id c = cid
          then (case m of None \<Rightarrow> c\<lparr>com_source_locale := source\<rparr>
                | Some x \<Rightarrow> c\<lparr>com_source_locale := source, com_translations := Some x\<rparr>)
          else c)) s)"

definition translateComment :: "translator \<Rightarrow> translation_config \<Rightarrow> ident \<Rightarrow> db \<Rightarrow> provider_call list \<times> db" where
  "translateComment tr cfg cid s =
     (case find_comment cid s of
        None \<Rightarrow> ([], s)
      | Some c \<Rightarrow>
          (case plan_translation tr cfg c of
             (calls, None) \<Rightarrow> (calls, s)
           | (calls, Some plan) \<Rightarrow> (calls, commit_translation cid plan s)))"

definition onCommentAdded :: "translator \<Rightarrow> translation_config \<Rightarrow> ident \<Rightarrow> db \<Rightarrow> provider_call list \<times> db" where
  "onCommentAdded tr cfg cid s = (if tr_enabled tr then translateComment tr cfg cid s else ([], s))"

section \<open>Facts\<close>

lemma lower_plain:
  assumes "is_lower c"
  shows "lower_char c = c" "\<not> is_ws c" "c \<noteq> CHR ''_''" "c \<noteq> CHR ''-''"
proof -
  have "\<not> is_lower (CHR ''_'')" "\<not> is_lower (CHR ''-'')" by code_simp+
  with assms show "c \<noteq> CHR ''_''" "c \<noteq> CHR ''-''" by auto
qed (use assms in \<open>auto simp: is_lower_def lower_char_def is_ws_def Let_def\<close>)

lemma base_of_base:
  assumes "baseLocale x = Some b"
  shows "baseLocale (Some b) = Some b"
proof -
  have low: "list_all is_lower b" and len: "2 \<le> length b \<and> length b \<le> 3"
    using assms by (auto simp: baseLocale_def Let_def split: option.splits if_splits)
  have ne: "b \<noteq> ''''" using len by auto
  have trim: "js_trim b = b"
  proof -
    have "dropWhile is_ws xs = xs" if "list_all is_lower xs" for xs
      using that by (cases xs) (auto simp: lower_plain)
    from this [of b] this [of "rev b"] low show ?thesis
      by (simp add: js_trim_def js_trim_start_def js_trim_end_def)
  qed
  have lower: "js_lower b = b"
    using low unfolding js_lower_def list_all_iff by (intro map_idI) (simp add: lower_plain)
  have rep: "replace_first (CHR ''_'') (CHR ''-'') xs = xs" if "list_all is_lower xs" for xs
    using that by (induction xs) (auto simp: lower_plain)
  have split: "split_on (CHR ''-'') acc xs = [rev acc @ xs]" if "list_all is_lower xs" for acc xs
    using that by (induction xs arbitrary: acc) (auto simp: lower_plain)
  show ?thesis
    using ne low len by (simp add: baseLocale_def truthy_def trim lower rep split split_char_def)
qed

interpretation noop: translation_provider False noop_translate noop_detect
  by unfold_locales (simp_all add: noop_translate_def noop_detect_def)

interpretation libre: translation_provider "libre_isEnabled c" "libre_translate c net" "libre_detect c net" for c net
  by unfold_locales
    (auto simp: libre_translate_def libre_detect_def base_of_base Let_def split: option.splits if_splits)

lemma map_of_cache_put: "map_of (cache_put k t m) j = (if j = k then Some t else map_of m j)"
proof (cases "map_of m k")
  case None
  then show ?thesis by (auto simp: cache_put_def map_add_def split: option.splits)
next
  case (Some x)
  have "map_of (map (\<lambda>(j, x). if j = k then (j, t) else (j, x)) m) j
      = (if j = k then (if map_of m k = None then None else Some t) else map_of m j)"
    by (induction m) auto
  with Some show ?thesis by (simp add: cache_put_def)
qed

text \<open>What one turn of the loop does, without the calls in the way.\<close>

lemma fill_cache_ok:
  assumes "fill_cache tr body src ts (ks, m, ch) = (ks', m', ch')"
  shows "(\<forall>l t. map_of m' l = Some t \<longrightarrow> map_of m l = Some t
            \<or> (l \<in> set ts \<and> t = fst (tr_translate tr body l src) \<and> t \<noteq> '''' \<and> t \<noteq> body))
       \<and> (\<forall>l t. map_of m l = Some t \<and> t \<noteq> '''' \<longrightarrow> map_of m' l = Some t)
       \<and> (\<not> ch' \<longrightarrow> m' = m \<and> \<not> ch)"
  using assms
proof (induction ts arbitrary: ks m ch)
  case Nil
  then show ?case by simp
next
  case (Cons target rest)
  let ?t = "fst (tr_translate tr body target src)"
  show ?case
  proof (cases "(truthy (map_of m target) \<noteq> None \<or> truthy src = Some target) \<or> ?t = '''' \<or> ?t = body")
    case True
    with Cons.prems obtain k where "fill_cache tr body src rest (k, m, ch) = (ks', m', ch')"
      by (auto simp: Let_def split: if_splits)
    from Cons.IH [OF this] show ?thesis by fastforce
  next
    case False
    with Cons.prems obtain k where "fill_cache tr body src rest (k, cache_put target ?t m, True) = (ks', m', ch')"
      by (auto simp: Let_def split: if_splits)
    note ih = Cons.IH [OF this]
    have fresh: "map_of m target = Some t \<Longrightarrow> t = ''''" for t using False by (auto simp: truthy_def split: if_splits)
    have a: "map_of m l = Some t \<or> (l \<in> set (target # rest) \<and> t = fst (tr_translate tr body l src) \<and> t \<noteq> '''' \<and> t \<noteq> body)"
      if "map_of m' l = Some t" for l t
    proof (cases "l = target")
      case True
      have "map_of (cache_put target ?t m) target = Some ?t" by (simp add: map_of_cache_put)
      with ih False have "map_of m' target = Some ?t" by blast
      with True that False show ?thesis by simp
    next
      case other: False
      from ih that have "map_of (cache_put target ?t m) l = Some t
          \<or> (l \<in> set rest \<and> t = fst (tr_translate tr body l src) \<and> t \<noteq> '''' \<and> t \<noteq> body)" by blast
      with other show ?thesis by (auto simp: map_of_cache_put)
    qed
    have b: "map_of m' l = Some t" if "map_of m l = Some t" "t \<noteq> ''''" for l t
    proof -
      have "l \<noteq> target" using that fresh by auto
      with that have "map_of (cache_put target ?t m) l = Some t" by (simp add: map_of_cache_put)
      with ih that(2) show ?thesis by blast
    qed
    from ih have "ch'" by blast
    with a b show ?thesis by blast
  qed
qed

text \<open>The calls: the text, a wanted language that is not in the cache, the source as known.\<close>

lemma fill_cache_calls:
  assumes "fill_cache tr body src ts (ks, m, ch) = (ks', m', ch')" and "k \<in> set ks'"
  shows "k \<in> set ks \<or> (\<exists>l \<in> set ts. k = TRANSLATE_CALL body l src \<and> truthy (map_of m l) = None \<and> truthy src \<noteq> Some l)"
  using assms
proof (induction ts arbitrary: ks m ch)
  case Nil
  then show ?case by simp
next
  case (Cons target rest)
  let ?t = "fst (tr_translate tr body target src)"
  let ?m = "if ?t \<noteq> '''' \<and> ?t \<noteq> body then cache_put target ?t m else m"
  show ?case
  proof (cases "truthy (map_of m target) \<noteq> None \<or> truthy src = Some target")
    case True
    with Cons.prems have "fill_cache tr body src rest (ks, m, ch) = (ks', m', ch')" by simp
    from Cons.IH [OF this Cons.prems(2)] show ?thesis by auto
  next
    case False
    with Cons.prems obtain ch1 where
      f: "fill_cache tr body src rest (ks @ [TRANSLATE_CALL body target src], ?m, ch1) = (ks', m', ch')"
      by (auto simp: Let_def split: if_splits)
    have grown: "truthy (map_of m l) = None" if "truthy (map_of ?m l) = None" for l
      using that False by (auto simp: map_of_cache_put split: if_splits)
    from Cons.IH [OF f Cons.prems(2)] show ?thesis
    proof (elim disjE bexE conjE)
      fix l assume "l \<in> set rest" "k = TRANSLATE_CALL body l src" "truthy (map_of ?m l) = None" "truthy src \<noteq> Some l"
      with grown show ?thesis by auto
    next
      assume "k \<in> set (ks @ [TRANSLATE_CALL body target src])"
      with False show ?thesis by auto
    qed
  qed
qed

lemma plan_cases:
  obtains (silent) "js_trim (com_body c) = '''' \<or> translation_targets cfg c = []" "plan_translation tr cfg c = ([], None)"
  | (run) src calls m changed where "js_trim (com_body c) \<noteq> ''''" "translation_targets cfg c \<noteq> []"
      "src = (case com_source_locale c of Some l \<Rightarrow> Some l | None \<Rightarrow> tr_detect tr (com_body c))"
      "fill_cache tr (com_body c) src (translation_targets cfg c)
         (if com_source_locale c = None then [DETECT_CALL (com_body c)] else [],
          (case com_translations c of None \<Rightarrow> [] | Some m \<Rightarrow> m), False) = (calls, m, changed)"
      "plan_translation tr cfg c = (calls, if \<not> changed \<and> src = com_source_locale c then None
         else Some (src, if changed then Some m else None))"
proof (cases "js_trim (com_body c) = '''' \<or> translation_targets cfg c = []")
  case True
  then have "plan_translation tr cfg c = ([], None)" by (auto simp: plan_translation_def)
  with True show thesis by (rule silent)
next
  case False
  let ?src = "case com_source_locale c of Some l \<Rightarrow> Some l | None \<Rightarrow> tr_detect tr (com_body c)"
  obtain calls m ch where f: "fill_cache tr (com_body c) ?src (translation_targets cfg c)
      (if com_source_locale c = None then [DETECT_CALL (com_body c)] else [],
       (case com_translations c of None \<Rightarrow> [] | Some m \<Rightarrow> m), False) = (calls, m, ch)" by (rule prod_cases3)
  from False f show thesis
    by (intro run [OF _ _ refl f])
      (cases "com_source_locale c"; simp add: plan_translation_def Let_def)+
qed

context translation_provider
begin

lemma disabled_fill: "\<not> enabled \<Longrightarrow> snd (fill_cache \<lparr>tr_enabled = e, tr_translate = translate, tr_detect = detect\<rparr> body src ts acc) = snd acc"
proof (induction ts arbitrary: acc)
  case (Cons l ts)
  then show ?case by (cases acc) (auto simp: disabled Let_def)
qed simp

lemma disabled_is_silent:
  "\<not> enabled \<Longrightarrow> snd (plan_translation \<lparr>tr_enabled = e, tr_translate = translate, tr_detect = detect\<rparr> cfg c) = None"
proof (rule plan_cases [where tr = "\<lparr>tr_enabled = e, tr_translate = translate, tr_detect = detect\<rparr>" and cfg = cfg and c = c])
  fix src calls m changed
  assume off: "\<not> enabled"
    and src: "src = (case com_source_locale c of Some l \<Rightarrow> Some l
       | None \<Rightarrow> tr_detect \<lparr>tr_enabled = e, tr_translate = translate, tr_detect = detect\<rparr> (com_body c))"
    and f: "fill_cache \<lparr>tr_enabled = e, tr_translate = translate, tr_detect = detect\<rparr> (com_body c) src (translation_targets cfg c)
      (if com_source_locale c = None then [DETECT_CALL (com_body c)] else [],
       (case com_translations c of None \<Rightarrow> [] | Some m \<Rightarrow> m), False) = (calls, m, changed)"
    and p: "plan_translation \<lparr>tr_enabled = e, tr_translate = translate, tr_detect = detect\<rparr> cfg c
      = (calls, if \<not> changed \<and> src = com_source_locale c then None else Some (src, if changed then Some m else None))"
  have "snd (calls, m, changed) = ((case com_translations c of None \<Rightarrow> [] | Some m \<Rightarrow> m), False)"
    unfolding f [symmetric] by (subst disabled_fill [OF off]) simp
  moreover have "src = com_source_locale c" using src off disabled by (auto split: option.splits)
  ultimately show ?thesis using p by simp
qed simp

lemma source_is_base:
  assumes "plan_translation \<lparr>tr_enabled = e, tr_translate = translate, tr_detect = detect\<rparr> cfg c = (ks, Some (src, m))"
  shows "src = com_source_locale c \<or> baseLocale src = src"
proof (rule plan_cases [where tr = "\<lparr>tr_enabled = e, tr_translate = translate, tr_detect = detect\<rparr>" and cfg = cfg and c = c])
  fix src1 calls m1 changed
  assume s1: "src1 = (case com_source_locale c of Some l \<Rightarrow> Some l
       | None \<Rightarrow> tr_detect \<lparr>tr_enabled = e, tr_translate = translate, tr_detect = detect\<rparr> (com_body c))"
    and "plan_translation \<lparr>tr_enabled = e, tr_translate = translate, tr_detect = detect\<rparr> cfg c
      = (calls, if \<not> changed \<and> src1 = com_source_locale c then None else Some (src1, if changed then Some m1 else None))"
  with assms have "src = src1" by (auto split: if_splits)
  then show ?thesis
    using s1 detected [of "com_body c"] by (auto simp: baseLocale_def truthy_def split: option.splits)
qed (use assms in simp)

end

lemma provider_source_is_base:
  assumes "plan_translation (provider driver c net) cfg x = (ks, Some (src, m))"
  shows "src = com_source_locale x \<or> baseLocale src = src"
proof (cases "driver = Some ''libretranslate''")
  case True
  with assms libre.source_is_base show ?thesis by (simp add: provider_def)
next
  case False
  with assms noop.source_is_base show ?thesis by (simp add: provider_def)
qed

lemma provider_disabled: "\<not> tr_enabled (provider driver c net) \<Longrightarrow> snd (plan_translation (provider driver c net) cfg x) = None"
  by (cases "driver = Some ''libretranslate''") (simp_all add: provider_def libre.disabled_is_silent noop.disabled_is_silent)

lemma find_comment_commit:
  "find_comment k (commit_translation cid (src, m) s) =
     (if k = cid then map_option (\<lambda>c. case m of None \<Rightarrow> c\<lparr>com_source_locale := src\<rparr>
                                    | Some x \<Rightarrow> c\<lparr>com_source_locale := src, com_translations := Some x\<rparr>) (find_comment k s)
      else find_comment k s)"
proof -
  let ?f = "\<lambda>c. if com_id c = cid then (case m of None \<Rightarrow> c\<lparr>com_source_locale := src\<rparr>
      | Some x \<Rightarrow> c\<lparr>com_source_locale := src, com_translations := Some x\<rparr>) else c"
  have "by_key com_id k (map ?f cs) = map_option ?f (by_key com_id k cs)" for cs
    by (rule by_key_map) (auto split: option.split)
  from this [of "t_comments s"]
  have eq: "find_comment k (commit_translation cid (src, m) s) = map_option ?f (find_comment k s)"
    by (simp add: commit_translation_def find_comment_def)
  show ?thesis
  proof (cases "find_comment k s")
    case None
    then show ?thesis unfolding eq by auto
  next
    case (Some c)
    then have "com_id c = k" by (auto simp: find_comment_def dest: by_key_SomeD)
    with Some show ?thesis unfolding eq by (cases "k = cid") simp_all
  qed
qed

definition cached :: "comment \<Rightarrow> cache" where
  "cached c = (case com_translations c of None \<Rightarrow> [] | Some m \<Rightarrow> m)"

text \<open>The update the listener makes of the comment itself.\<close>

definition translated :: "string option \<times> cache option \<Rightarrow> comment \<Rightarrow> comment" where
  "translated plan c =
     (case snd plan of
        None \<Rightarrow> c\<lparr>com_source_locale := fst plan\<rparr>
      | Some m \<Rightarrow> c\<lparr>com_source_locale := fst plan, com_translations := Some m\<rparr>)"

lemma translated_simps:
  "com_source_locale (translated (src, m) c) = src"
  "cached (translated (src, m) c) = (case m of None \<Rightarrow> cached c | Some x \<Rightarrow> x)"
  "translated (src, m) c = c\<lparr>com_source_locale := com_source_locale (translated (src, m) c),
     com_translations := com_translations (translated (src, m) c)\<rparr>"
  by (cases m; simp add: translated_def cached_def)+

text \<open>What the listener leaves behind for a comment: \<^verbatim>\<open>c'\<close> is the row, \<^verbatim>\<open>calls\<close> what was asked.\<close>

definition listener_ok :: "translator \<Rightarrow> translation_config \<Rightarrow> comment \<Rightarrow> provider_call list \<Rightarrow> comment \<Rightarrow> bool" where
  "listener_ok tr cfg c calls c' \<longleftrightarrow>
     c' = c\<lparr>com_source_locale := com_source_locale c', com_translations := com_translations c'\<rparr>
   \<and> (\<forall>l t. map_of (cached c') l = Some t \<longrightarrow> map_of (cached c) l = Some t
        \<or> (l \<in> set (translation_targets cfg c) \<and> t \<noteq> '''' \<and> t \<noteq> com_body c
           \<and> t = fst (tr_translate tr (com_body c) l (com_source_locale c'))))
   \<and> (\<forall>l t. map_of (cached c) l = Some t \<and> t \<noteq> '''' \<longrightarrow> map_of (cached c') l = Some t)
   \<and> (\<forall>k \<in> set calls. k = DETECT_CALL (com_body c) \<and> com_source_locale c = None
        \<or> (\<exists>l \<in> set (translation_targets cfg c). k = TRANSLATE_CALL (com_body c) l (com_source_locale c')
             \<and> truthy (map_of (cached c) l) = None))"

lemma plan_is_honest:
  assumes "plan_translation tr cfg c = (calls, plan)"
  shows "listener_ok tr cfg c calls (case plan of None \<Rightarrow> c | Some p \<Rightarrow> translated p c)"
proof (rule plan_cases [where tr = tr and cfg = cfg and c = c])
  assume "plan_translation tr cfg c = ([], None)"
  with assms show ?thesis by (simp add: listener_ok_def)
next
  fix src ks m changed
  assume f: "fill_cache tr (com_body c) src (translation_targets cfg c)
      (if com_source_locale c = None then [DETECT_CALL (com_body c)] else [],
       (case com_translations c of None \<Rightarrow> [] | Some m \<Rightarrow> m), False) = (ks, m, changed)"
    and p: "plan_translation tr cfg c = (ks, if \<not> changed \<and> src = com_source_locale c then None
      else Some (src, if changed then Some m else None))"
  let ?c' = "case plan of None \<Rightarrow> c | Some p \<Rightarrow> translated p c"
  note f = f [folded cached_def]
  have m: "\<not> changed \<Longrightarrow> m = cached c" using fill_cache_ok [OF f] by blast
  have src: "com_source_locale ?c' = src" and cache: "cached ?c' = m"
    using assms p m by (auto simp: translated_simps(1,2))
  have frame: "?c' = c\<lparr>com_source_locale := com_source_locale ?c', com_translations := com_translations ?c'\<rparr>"
    by (cases plan) (auto simp: translated_simps(3) [symmetric])
  have calls: "k = DETECT_CALL (com_body c) \<and> com_source_locale c = None
      \<or> (\<exists>l \<in> set (translation_targets cfg c). k = TRANSLATE_CALL (com_body c) l src \<and> truthy (map_of (cached c) l) = None)"
    if "k \<in> set calls" for k
    using fill_cache_calls [OF f, of k] that assms p by (auto split: if_splits)
  have new: "map_of m l = Some t \<longrightarrow> map_of (cached c) l = Some t
      \<or> (l \<in> set (translation_targets cfg c) \<and> t \<noteq> '''' \<and> t \<noteq> com_body c \<and> t = fst (tr_translate tr (com_body c) l src))"
    and old: "map_of (cached c) l = Some t \<and> t \<noteq> '''' \<longrightarrow> map_of m l = Some t" for l t
    using fill_cache_ok [OF f] by blast+
  show ?thesis
    unfolding listener_ok_def src cache
    by (intro conjI allI ballI new old calls frame [unfolded src])
qed

lemma onCommentAdded_run:
  assumes "find_comment cid s = Some c" and "onCommentAdded tr cfg cid s = (calls, s')"
  shows "\<not> tr_enabled tr \<and> calls = [] \<and> s' = s
    \<or> tr_enabled tr \<and> (\<exists>plan. plan_translation tr cfg c = (calls, plan)
        \<and> s' = (case plan of None \<Rightarrow> s | Some p \<Rightarrow> commit_translation cid p s))"
  using assms by (auto simp: onCommentAdded_def translateComment_def split: if_splits prod.splits option.splits)

text \<open>
  C38: When a comment is added, the listener never touches its text or
  another comment. What it adds to the cache is the provider's answer for this very text in a
  wanted language, never the text itself and never blank, so an outage leaves no entry; a
  translation that was there stays; and a source language it stores is in the base form caches
  are read by. The provider is asked about this text only: to detect its language when that is
  not stored, and to translate it into wanted languages the cache lacks. For an internal note of
  staff, a blank text or a provider that is off or the no-op one, it is not asked at all and
  nothing changes.
\<close>

theorem translation_cache_is_honest:
  assumes c: "find_comment cid s = Some c" and s': "onCommentAdded (provider driver lc net) cfg cid s = (calls, s')"
  shows "(\<exists>c'. find_comment cid s' = Some c'
        \<and> c' = c\<lparr>com_source_locale := com_source_locale c', com_translations := com_translations c'\<rparr>
        \<and> (\<forall>l t. map_of (cached c') l = Some t \<longrightarrow> map_of (cached c) l = Some t
             \<or> (l \<in> set (translation_targets cfg c) \<and> t \<noteq> '''' \<and> t \<noteq> com_body c
                \<and> t = fst (tr_translate (provider driver lc net) (com_body c) l (com_source_locale c'))))
        \<and> (\<forall>l t. map_of (cached c) l = Some t \<and> t \<noteq> '''' \<longrightarrow> map_of (cached c') l = Some t)
        \<and> (com_source_locale c' = com_source_locale c \<or> baseLocale (com_source_locale c') = com_source_locale c')
        \<and> (\<forall>k \<in> set calls. k = DETECT_CALL (com_body c) \<and> com_source_locale c = None
             \<or> (\<exists>l \<in> set (translation_targets cfg c). k = TRANSLATE_CALL (com_body c) l (com_source_locale c')
                  \<and> truthy (map_of (cached c) l) = None)))
    \<and> (\<forall>k. k \<noteq> cid \<longrightarrow> find_comment k s' = find_comment k s)
    \<and> (\<not> tr_enabled (provider driver lc net) \<or> js_trim (com_body c) = ''''
         \<or> (com_author_type c \<noteq> ACTOR_REPORTER \<and> com_visibility c = INTERNAL)
         \<longrightarrow> calls = [] \<and> s' = s)"
    (is "?row \<and> ?frame \<and> ?silent")
proof -
  let ?tr = "provider driver lc net"
  have none: "?row \<and> ?frame" if "s' = s" "calls = []" using c that by auto
  from onCommentAdded_run [OF c s'] show ?thesis
  proof (elim disjE conjE exE)
    assume "calls = []" "s' = s"
    with none show ?thesis by blast
  next
    fix plan assume plan: "plan_translation ?tr cfg c = (calls, plan)"
      and run: "s' = (case plan of None \<Rightarrow> s | Some p \<Rightarrow> commit_translation cid p s)"
    let ?c' = "case plan of None \<Rightarrow> c | Some p \<Rightarrow> translated p c"
    have row: "find_comment cid s' = Some ?c'" and frame: ?frame
      using run c by (cases plan; auto simp: find_comment_commit translated_def split: option.split)+
    have base: "com_source_locale ?c' = com_source_locale c \<or> baseLocale (com_source_locale ?c') = com_source_locale ?c'"
      using provider_source_is_base [of driver lc net cfg c calls] plan by (auto simp: translated_simps(1) split: option.split)
    note honest = plan_is_honest [OF plan, unfolded listener_ok_def]
    have ?row
      by (rule exI [of _ ?c'], intro conjI row base honest [THEN conjunct1] honest [THEN conjunct2, THEN conjunct1]
          honest [THEN conjunct2, THEN conjunct2, THEN conjunct1] honest [THEN conjunct2, THEN conjunct2, THEN conjunct2])
    moreover have ?silent
    proof
      assume quiet: "\<not> tr_enabled ?tr \<or> js_trim (com_body c) = ''''
        \<or> (com_author_type c \<noteq> ACTOR_REPORTER \<and> com_visibility c = INTERNAL)"
      then have "\<not> tr_enabled ?tr \<or> plan_translation ?tr cfg c = ([], None)"
        by (auto simp: plan_translation_def translation_targets_def)
      with onCommentAdded_run [OF c s'] show "calls = [] \<and> s' = s" by auto
    qed
    ultimately show ?thesis using frame by blast
  qed
qed

text \<open>
  an edit that lands while the provider is working loses: the
  listener then stores the translation of the text as it was, and a reporter who reads in that
  language goes on reading the text the author has just corrected.
\<close>

theorem edit_race_serves_old_text:
  assumes c: "find_comment cid s = Some c" and plan: "plan_translation tr cfg c = (calls, Some (src, Some m))"
    and edit: "editComment e st cid body s = Inr (v, s1)"
    and t: "map_of m l = Some t" "t \<noteq> ''''" "l \<noteq> ''''"
  shows "\<exists>c'. find_comment cid (commit_translation cid (src, Some m) s1) = Some c' \<and> com_body c' = body
     \<and> uv_body (comment_update (Some l) c') = t
     \<and> (\<exists>c1. find_comment cid s1 = Some c1 \<and> uv_body (comment_update (Some l) c1) = body)"
proof -
  from comment_edit_is_owner_only [OF edit] c
  have c1: "find_comment cid s1 = Some (c\<lparr>com_body := body, com_edited_at := Some (now e),
           com_translations := None, com_source_locale := None\<rparr>)" by auto
  show ?thesis
    using t by (simp add: find_comment_commit c1 comment_update_def truthy_def)
qed

definition libre_site :: libre_config where
  "libre_site = \<lparr>lt_api_url = Some ''https://tr.x.org/'', lt_api_key = None\<rparr>"

text \<open>A provider that answers in capitals.\<close>

definition shouting :: libre_net where
  "shouting q = (case lq_payload q of
       TRANSLATE_PAYLOAD t src target \<Rightarrow> Some \<lparr>la_translated_text = Some (js_upper t), la_language = Some ''en''\<rparr>
     | DETECT_PAYLOAD t \<Rightarrow> Some \<lparr>la_translated_text = None, la_language = Some ''en-GB''\<rparr>)"

definition french_desk :: translation_config where
  "french_desk = \<lparr>tc_staff_locale = Some ''en'', tc_reporter_locales = [''fr-CA'', ''fr'']\<rparr>"

definition reply :: comment where
  "reply = demo_comment\<lparr>com_visibility := REPORTER_VISIBLE, com_source_locale := None, com_translations := None\<rparr>"

theorem translation_cache_is_honest_witness:
  "\<exists>s' c'. onCommentAdded (provider (Some ''libretranslate'') libre_site shouting) french_desk ''c1''
        (demo_db\<lparr>t_comments := [reply]\<rparr>)
      = ([DETECT_CALL ''helo'', TRANSLATE_CALL ''helo'' ''fr'' (Some ''en'')], s')
     \<and> find_comment ''c1'' s' = Some c' \<and> com_body c' = ''helo'' \<and> cached c' = [(''fr'', ''HELO'')]
     \<and> onCommentAdded (provider (Some ''libretranslate'') libre_site shouting) french_desk ''c1''
        (demo_db\<lparr>t_comments := [reply\<lparr>com_visibility := INTERNAL\<rparr>]\<rparr>) = ([], demo_db\<lparr>t_comments := [reply\<lparr>com_visibility := INTERNAL\<rparr>]\<rparr>)"
proof -
  let ?s = "demo_db\<lparr>t_comments := [reply]\<rparr>" and ?n = "demo_db\<lparr>t_comments := [reply\<lparr>com_visibility := INTERNAL\<rparr>]\<rparr>"
  let ?tr = "provider (Some ''libretranslate'') libre_site shouting"
  let ?calls = "[DETECT_CALL ''helo'', TRANSLATE_CALL ''helo'' ''fr'' (Some ''en'')]"
  have c: "find_comment ''c1'' ?s = Some reply" and n: "find_comment ''c1'' ?n = Some (reply\<lparr>com_visibility := INTERNAL\<rparr>)"
    by (simp_all add: find_comment_def by_key_Cons reply_def demo_comment_def)
  obtain calls s' where s': "onCommentAdded ?tr french_desk ''c1'' ?s = (calls, s')" by fastforce
  from conjunct1 [OF translation_cache_is_honest [OF c s']] obtain c' where c': "find_comment ''c1'' s' = Some c'"
    by (elim exE conjE) (rule that)
  have "fst (onCommentAdded ?tr french_desk ''c1'' ?s) = ?calls" by code_simp
  with s' have calls: "calls = ?calls" by simp
  have "map_option (\<lambda>c. (com_body c, cached c)) (find_comment ''c1'' (snd (onCommentAdded ?tr french_desk ''c1'' ?s)))
      = Some (''helo'', [(''fr'', ''HELO'')])" by code_simp
  with c' s' have "com_body c' = ''helo''" "cached c' = [(''fr'', ''HELO'')]" by simp_all
  moreover obtain ks s1 where s1: "onCommentAdded ?tr french_desk ''c1'' ?n = (ks, s1)" by fastforce
  have "com_author_type (reply\<lparr>com_visibility := INTERNAL\<rparr>) \<noteq> ACTOR_REPORTER" by code_simp
  with conjunct2 [OF conjunct2 [OF translation_cache_is_honest [OF n s1]]] have "ks = [] \<and> s1 = ?n" by simp
  ultimately show ?thesis using s' s1 c' calls by blast
qed

theorem edit_race_serves_old_text_witness:
  "\<exists>v s1 c'. editComment plain_env dev_staff ''c1'' ''no'' (demo_db\<lparr>t_comments := [reply]\<rparr>) = Inr (v, s1)
     \<and> find_comment ''c1'' (commit_translation ''c1'' (Some ''en'', Some [(''fr'', ''HELO'')]) s1) = Some c'
     \<and> com_body c' = ''no'' \<and> uv_body (comment_update (Some ''fr'') c') = ''HELO''"
proof -
  let ?s = "demo_db\<lparr>t_comments := [reply]\<rparr>"
  have c: "find_comment ''c1'' ?s = Some reply" by (simp add: find_comment_def by_key_Cons reply_def demo_comment_def)
  have p: "plan_translation (provider (Some ''libretranslate'') libre_site shouting) french_desk reply
      = ([DETECT_CALL ''helo'', TRANSLATE_CALL ''helo'' ''fr'' (Some ''en'')], Some (Some ''en'', Some [(''fr'', ''HELO'')]))"
    by code_simp
  have "is_ok (editComment plain_env dev_staff ''c1'' ''no'' ?s)" by code_simp
  then obtain v s1 where e: "editComment plain_env dev_staff ''c1'' ''no'' ?s = Inr (v, s1)" by (auto simp: is_ok_iff)
  have m: "map_of [(''fr'', ''HELO'')] ''fr'' = Some ''HELO''" "''HELO'' \<noteq> ([] :: string)" "''fr'' \<noteq> ([] :: string)"
    by simp_all
  from edit_race_serves_old_text [OF c p e m] e show ?thesis by blast
qed

end
