(* ===== verification/Dashboard.thy ===== *)
theory Dashboard
  imports Sla Authz "HOL-Library.List_Lexorder" "HOL-Library.Char_ord"
begin

text \<open>
  The dashboard and the report of one platform (\<^verbatim>\<open>src/dashboard/dashboard.service.ts\<close>):
  counts, trend, SLA figures and quality indicators over the issues in scope. Numbers the
  database computes are exact rationals; the calendar day of a time (\<^verbatim>\<open>date_trunc\<close> in
  the session's time zone) is a parameter. Groups come in the order of their first row, one of
  the orders the database may choose.
\<close>

section \<open>Aggregates\<close>

definition group_counts :: "'k list \<Rightarrow> ('k \<times> nat) list" where
  "group_counts ks = map (\<lambda>k. (k, count_list ks k)) (js_set ks)"

text \<open>\<^verbatim>\<open>percentile_cont\<close>: linear interpolation between neighbours, NULL over no rows.\<close>

definition percentile_cont :: "rat \<Rightarrow> rat list \<Rightarrow> rat option" where
  "percentile_cont p xs =
     (if xs = [] then None
      else
        (let ys = sort xs; r = p * of_nat (length ys - 1);
             lo = ys ! nat \<lfloor>r\<rfloor>; hi = ys ! nat \<lceil>r\<rceil>
         in Some (lo + (r - of_int \<lfloor>r\<rfloor>) * (hi - lo))))"

text \<open>\<^verbatim>\<open>Math.round\<close>: half up. \<^verbatim>\<open>num\<close> keeps one decimal.\<close>

definition js_round :: "rat \<Rightarrow> int" where
  "js_round x = \<lfloor>x + 1 / 2\<rfloor>"

definition num :: "rat option \<Rightarrow> rat option" where
  "num v = map_option (\<lambda>x. of_int (js_round (x * 10)) / 10) v"

definition percentage :: "nat \<Rightarrow> nat \<Rightarrow> int option" where
  "percentage part whole = (if whole = 0 then None else Some (js_round (of_nat part / of_nat whole * 100)))"

definition day_ms :: int where
  "day_ms = 24 * 60 * 60 * 1000"

definition since :: "env \<Rightarrow> int \<Rightarrow> time \<Rightarrow> bool" where
  "since e days t = (t \<ge> now e - days * day_ms)"

definition hours_between :: "time \<Rightarrow> time \<Rightarrow> rat" where
  "hours_between a b = of_int (b - a) / 3600000"

section \<open>The parts of the summary\<close>

definition base :: "scope \<Rightarrow> db \<Rightarrow> issue list" where
  "base sc s = filter (\<lambda>i. scopeAllows sc (iss_platform i)) (t_issues s)"

definition byPlatform :: "scope \<Rightarrow> db \<Rightarrow> (string option \<times> nat) list" where
  "byPlatform sc s = group_counts (map (\<lambda>i. map_option plat_key (find_platform (iss_platform i) s)) (base sc s))"

definition byAssignee :: "scope \<Rightarrow> db \<Rightarrow> ((ident \<times> string) \<times> nat) list" where
  "byAssignee sc s =
     group_counts (List.map_filter (\<lambda>i. case iss_assignee i of None \<Rightarrow> None
        | Some a \<Rightarrow> map_option (\<lambda>u. (su_id u, su_name u)) (find_staff a s)) (base sc s))"

definition per_day :: "(time \<Rightarrow> string) \<Rightarrow> time list \<Rightarrow> (string \<times> nat) list" where
  "per_day day ts = (let ds = map day ts in map (\<lambda>d. (d, count_list ds d)) (sort (js_set ds)))"

definition trend :: "env \<Rightarrow> (time \<Rightarrow> string) \<Rightarrow> scope \<Rightarrow> db \<Rightarrow> (string \<times> nat) list \<times> (string \<times> nat) list" where
  "trend e day sc s =
     (per_day day (filter (since e 14) (map iss_created_at (base sc s))),
      per_day day (filter (since e 14) (List.map_filter iss_resolved_at (base sc s))))"

text \<open>One query over the open issues; a policy the database cannot cast makes it fail.\<close>

fun sla_tally :: "env \<Rightarrow> (string \<Rightarrow> rat option) \<Rightarrow> db \<Rightarrow> issue list \<Rightarrow> (nat \<times> nat) option" where
  "sla_tally e pg s [] = Some (0, 0)"
| "sla_tally e pg s (i # is) =
     (case slaDueSql e pg i (platform_policy s i) of
        None \<Rightarrow> None
      | Some due \<Rightarrow>
          (case sla_tally e pg s is of
             None \<Rightarrow> None
           | Some (overdue, atRisk) \<Rightarrow>
               (let t = rat_of_int (now e); start = rat_of_int (iss_sla_started_at i) in
                if t \<ge> due then Some (Suc overdue, atRisk)
                else if t \<ge> start + (due - start) * SLA_AT_RISK_FRACTION e then Some (overdue, Suc atRisk)
                else Some (overdue, atRisk))))"

definition slaCounts :: "env \<Rightarrow> (string \<Rightarrow> rat option) \<Rightarrow> scope \<Rightarrow> db \<Rightarrow> (nat \<times> nat) option" where
  "slaCounts e pg sc s = sla_tally e pg s (filter (\<lambda>i. is_open (iss_status i)) (base sc s))"

definition csat_rows :: "env \<Rightarrow> scope \<Rightarrow> db \<Rightarrow> csat_response list" where
  "csat_rows e sc s =
     filter (\<lambda>c. since e 30 (csat_created_at c) \<and> csat_issue c \<in> iss_id ` set (base sc s)) (t_csat s)"

definition csat_summary :: "env \<Rightarrow> scope \<Rightarrow> db \<Rightarrow> nat \<times> int option" where
  "csat_summary e sc s =
     (let rows = csat_rows e sc s
      in (length rows,
          if rows = [] then None
          else Some (js_round (of_int (sum_list (map csat_score rows)) / of_nat (length rows) * 100))))"

record ops_summary =
  os_ttfr :: "rat option \<times> rat option"
  os_resolution :: "rat option \<times> rat option"
  os_reopen_rate :: "int option"
  os_deflected :: nat
  os_deflection_rate :: "int option"

definition first_staff_action :: "issue \<Rightarrow> db \<Rightarrow> rat option" where
  "first_staff_action i s =
     (case map aud_created_at (filter (\<lambda>a. aud_issue a = Some (iss_id i) \<and> aud_actor_type a = ACTOR_STAFF) (t_audit s)) of
        [] \<Rightarrow> None
      | t # ts \<Rightarrow> Some (hours_between (iss_created_at i) (fold min ts t)))"

definition both_percentiles :: "rat list \<Rightarrow> rat option \<times> rat option" where
  "both_percentiles xs = (num (percentile_cont (1 / 2) xs), num (percentile_cont (9 / 10) xs))"

definition ops :: "env \<Rightarrow> scope \<Rightarrow> db \<Rightarrow> ops_summary" where
  "ops e sc s =
     (let mine = base sc s;
          recent = filter (\<lambda>i. since e 30 (iss_created_at i)) mine;
          resolved = filter (\<lambda>i. case iss_resolved_at i of None \<Rightarrow> False | Some t \<Rightarrow> since e 30 t) mine;
          reopened = js_set (List.map_filter aud_issue
             (filter (\<lambda>a. aud_action a = ''STATUS_CHANGED'' \<and> aud_new_value a = Some ''REOPENED'' \<and> since e 30 (aud_created_at a)
                \<and> (case aud_issue a of None \<Rightarrow> False | Some j \<Rightarrow> j \<in> iss_id ` set mine)) (t_audit s)));
          deflected = length (filter (\<lambda>x. since e 30 (sub_created_at x) \<and> sub_issue x \<in> iss_id ` set mine) (t_subs s))
      in \<lparr>os_ttfr = both_percentiles (List.map_filter (\<lambda>i. first_staff_action i s) recent),
          os_resolution = both_percentiles (List.map_filter
             (\<lambda>i. map_option (hours_between (iss_created_at i)) (iss_resolved_at i)) resolved),
          os_reopen_rate = percentage (length reopened) (length resolved),
          os_deflected = deflected,
          os_deflection_rate = percentage deflected (deflected + length recent)\<rparr>)"

section \<open>The summary\<close>

record dashboard =
  da_all :: nat
  da_open :: nat
  da_resolved_or_closed :: nat
  da_by_status :: "(issue_status \<times> nat) list"
  da_by_priority :: "(priority \<times> nat) list"
  da_by_platform :: "(string option \<times> nat) list"
  da_by_assignee :: "((ident \<times> string) \<times> nat) list"
  da_trend :: "(string \<times> nat) list \<times> (string \<times> nat) list"
  da_sla :: "nat \<times> nat"
  da_csat :: "nat \<times> int option"
  da_ops :: ops_summary

definition empty_dashboard :: dashboard where
  "empty_dashboard =
     \<lparr>da_all = 0, da_open = 0, da_resolved_or_closed = 0, da_by_status = [], da_by_priority = [], da_by_platform = [],
      da_by_assignee = [], da_trend = ([], []), da_sla = (0, 0), da_csat = (0, None),
      da_ops = \<lparr>os_ttfr = (None, None), os_resolution = (None, None), os_reopen_rate = None, os_deflected = 0,
                os_deflection_rate = None\<rparr>\<rparr>"

definition computeForScope :: "env \<Rightarrow> (string \<Rightarrow> rat option) \<Rightarrow> (time \<Rightarrow> string) \<Rightarrow> scope \<Rightarrow> db \<Rightarrow> dashboard res" where
  "computeForScope e pg day sc s =
     (case slaCounts e pg sc s of
        None \<Rightarrow> Inl db_error
      | Some sla \<Rightarrow>
          (let byStatus = group_counts (map iss_status (base sc s));
               total_count = sum_list (map snd byStatus);
               open_count = sum_list (map snd (filter (\<lambda>r. is_open (fst r)) byStatus))
           in Inr \<lparr>da_all = total_count, da_open = open_count, da_resolved_or_closed = total_count - open_count,
                   da_by_status = byStatus, da_by_priority = group_counts (map iss_priority (base sc s)),
                   da_by_platform = byPlatform sc s, da_by_assignee = byAssignee sc s, da_trend = trend e day sc s,
                   da_sla = sla, da_csat = csat_summary e sc s, da_ops = ops e sc s\<rparr>))"

definition dashboard_summary :: "env \<Rightarrow> (string \<Rightarrow> rat option) \<Rightarrow> (time \<Rightarrow> string) \<Rightarrow> auth_staff \<Rightarrow> db \<Rightarrow> dashboard res" where
  "dashboard_summary e pg day st s =
     (let sc = scopedPlatformIds st
      in if scope_is_empty sc then Inr empty_dashboard else computeForScope e pg day sc s)"

record published_issue =
  pi_id :: ident
  pi_reference_no :: string
  pi_status :: issue_status
  pi_title :: "string option"
  pi_updated_at :: time

definition publishedKnownIssues :: "ident \<Rightarrow> db \<Rightarrow> published_issue list" where
  "publishedKnownIssues pid s =
     map (\<lambda>i. \<lparr>pi_id = iss_id i, pi_reference_no = iss_reference_no i, pi_status = iss_status i,
               pi_title = iss_public_title i, pi_updated_at = iss_updated_at i\<rparr>)
       (take 20 (newest_first iss_updated_at
          (filter (\<lambda>i. iss_platform i = pid \<and> iss_publicly_visible i) (t_issues s))))"

definition platformReport ::
  "env \<Rightarrow> (string \<Rightarrow> rat option) \<Rightarrow> (time \<Rightarrow> string) \<Rightarrow> auth_staff \<Rightarrow> ident \<Rightarrow> db
     \<Rightarrow> ((ident \<times> string \<times> string) \<times> dashboard \<times> published_issue list) res" where
  "platformReport e pg day st pid s =
     require (canAccessPlatform st pid STAFF_READ_ROLES) (Forbidden ''You do not have access to this platform.'')
       (case find_platform pid s of
          None \<Rightarrow> Inl (NotFound ''Platform not found.'')
        | Some p \<Rightarrow>
            bind_res (computeForScope e pg day (SCOPE_IDS [pid]) s) (\<lambda>d.
              Inr ((plat_id p, plat_key p, plat_name p), d, publishedKnownIssues pid s)))"

section \<open>Facts\<close>

lemma sum_group_counts: "sum_list (map snd (group_counts ks)) = length ks"
proof -
  have "(\<Sum>k \<in> set ks. count_list ks k) = length ks" by (rule sum_count_set) simp_all
  then show ?thesis
    by (simp add: group_counts_def comp_def sum_list_distinct_conv_sum_set)
qed

lemma sum_group_counts_where:
  "sum_list (map snd (filter (\<lambda>r. P (fst r)) (group_counts ks))) = length (filter P ks)"
proof -
  have "sum_list (map (count_list ks) (filter P (js_set ks))) = (\<Sum>k \<in> set (filter P (js_set ks)). count_list ks k)"
    by (rule sum_list_distinct_conv_sum_set) simp
  also have "\<dots> = (\<Sum>k \<in> set (filter P ks). count_list (filter P ks) k)"
  proof (rule sum.cong)
    fix k assume "k \<in> set (filter P ks)"
    then have "P k" by simp
    then show "count_list ks k = count_list (filter P ks) k" by (induction ks) auto
  qed simp
  also have "\<dots> = length (filter P ks)" by (rule sum_count_set) simp_all
  finally show ?thesis by (simp add: group_counts_def filter_map comp_def)
qed

lemma group_counts_rows: "(k, n) \<in> set (group_counts ks) \<longleftrightarrow> k \<in> set ks \<and> n = count_list ks k"
  by (auto simp: group_counts_def)

lemma sla_tally_bound: "sla_tally e pg s is = Some (a, b) \<Longrightarrow> a + b \<le> length is"
proof (induction "is" arbitrary: a b)
  case (Cons i "is")
  then obtain due a1 b1 where "slaDueSql e pg i (platform_policy s i) = Some due" "sla_tally e pg s is = Some (a1, b1)"
    by (auto split: option.splits)
  with Cons.prems Cons.IH show ?case by (auto simp: Let_def split: if_splits)
qed simp

text \<open>With policies the admin service accepts, the tally counts what \<^verbatim>\<open>computeSla\<close> computes.\<close>

lemma sla_tally_is_computeSla:
  assumes ok: "\<forall>p \<in> set (t_platforms s). policy_ok (plat_sla_policy p)"
    and opn: "\<forall>i \<in> set is. is_open (iss_status i)"
    and js: "\<forall>i \<in> set is. \<exists>due. computeSla e i (platform_policy s i) (now e) = Inr (due, state i)"
  shows "sla_tally e pg s is = Some (length (filter (\<lambda>i. state i = Some BREACHED) is), length (filter (\<lambda>i. state i = Some AT_RISK) is))"
  using opn js
proof (induction "is")
  case (Cons i "is")
  have "policy_ok (platform_policy s i)"
    using ok by (auto simp: platform_policy_def find_platform_def policy_ok_def split: option.splits dest!: by_key_SomeD)
  note due = sql_hours_of_ok_policy [OF this, of e pg i]
  let ?w = "windowMs e i (platform_policy s i)"
  from Cons.prems obtain d where "computeSla e i (platform_policy s i) (now e) = Inr (d, state i)" "is_open (iss_status i)" by auto
  then have st: "state i = (if rat_of_int (now e - iss_sla_started_at i) \<ge> ?w then Some BREACHED
      else if rat_of_int (now e - iss_sla_started_at i) \<ge> ?w * SLA_AT_RISK_FRACTION e then Some AT_RISK else Some ON_TRACK)"
    by (simp add: computeSla_def Let_def split: if_splits)
  have "rat_of_int (now e) \<ge> rat_of_int (iss_sla_started_at i) + x \<longleftrightarrow> rat_of_int (now e - iss_sla_started_at i) \<ge> x" for x
    by (simp add: of_int_diff algebra_simps)
  with Cons st due show ?case by (simp add: Let_def)
qed simp

lemma percentage_bounds: "part \<le> whole \<Longrightarrow> percentage part whole = Some p \<Longrightarrow> 0 \<le> p \<and> p \<le> 100"
proof -
  assume le: "part \<le> whole" and p: "percentage part whole = Some p"
  then have w: "0 < whole" and r: "p = js_round (of_nat part / of_nat whole * 100)"
    by (auto simp: percentage_def split: if_splits)
  let ?x = "(of_nat part :: rat) / of_nat whole * 100"
  have "0 \<le> ?x" by simp
  moreover have "(of_nat part :: rat) / of_nat whole \<le> 1" using le w by (simp add: divide_le_eq)
  then have "?x \<le> 1 * 100" by (rule mult_right_mono) simp
  ultimately show "0 \<le> p \<and> p \<le> 100" unfolding r js_round_def by linarith
qed

text \<open>
  C39: every breakdown of the dashboard accounts for every issue in scope once:
  the groups by status, priority and platform sum to the total, open and resolved split it,
  and the groups by assignee sum to the issues assigned to an account. With policies the admin
  service accepts, the SLA figures computed in SQL are the numbers of issues the per-issue
  computation calls breached and at risk; the deflection rate is a percentage.
\<close>

theorem dashboard_adds_up:
  assumes run: "computeForScope e pg day sc s = Inr d"
    and ok: "\<forall>p \<in> set (t_platforms s). policy_ok (plat_sla_policy p)"
    and js: "\<forall>i \<in> set (base sc s). \<exists>due. computeSla e i (platform_policy s i) (now e) = Inr (due, state i)"
  shows "da_all d = length (base sc s)
     \<and> da_open d = length (filter (\<lambda>i. is_open (iss_status i)) (base sc s))
     \<and> da_open d + da_resolved_or_closed d = da_all d
     \<and> sum_list (map snd (da_by_status d)) = da_all d \<and> sum_list (map snd (da_by_priority d)) = da_all d
     \<and> sum_list (map snd (da_by_platform d)) = da_all d
     \<and> sum_list (map snd (da_by_assignee d))
         = length (filter (\<lambda>i. case iss_assignee i of None \<Rightarrow> False | Some a \<Rightarrow> find_staff a s \<noteq> None) (base sc s))
     \<and> da_sla d = (length (filter (\<lambda>i. state i = Some BREACHED) (base sc s)), length (filter (\<lambda>i. state i = Some AT_RISK) (base sc s)))
     \<and> (case os_deflection_rate (da_ops d) of None \<Rightarrow> True | Some p \<Rightarrow> 0 \<le> p \<and> p \<le> 100)"
proof -
  from run obtain sla where sla: "slaCounts e pg sc s = Some sla" and d: "da_sla d = sla"
      "da_by_status d = group_counts (map iss_status (base sc s))"
      "da_all d = sum_list (map snd (da_by_status d))"
      "da_open d = sum_list (map snd (filter (\<lambda>r. is_open (fst r)) (da_by_status d)))"
      "da_resolved_or_closed d = da_all d - da_open d"
      "da_by_priority d = group_counts (map iss_priority (base sc s))" "da_by_platform d = byPlatform sc s"
      "da_by_assignee d = byAssignee sc s" "da_ops d = ops e sc s"
    by (auto simp: computeForScope_def Let_def split: option.splits)
  have all: "da_all d = length (base sc s)" by (simp add: d(2,3) sum_group_counts)
  have open_n: "da_open d = length (filter (\<lambda>i. is_open (iss_status i)) (base sc s))"
    unfolding d(4) d(2) sum_group_counts_where by (simp add: filter_map comp_def)
  let ?open = "filter (\<lambda>i. is_open (iss_status i)) (base sc s)"
  have closed: "state i \<noteq> Some BREACHED \<and> state i \<noteq> Some AT_RISK" if "i \<in> set (base sc s)" "\<not> is_open (iss_status i)" for i
  proof -
    from js that obtain due where "computeSla e i (platform_policy s i) (now e) = Inr (due, state i)" by blast
    with that(2) show ?thesis by (auto simp: computeSla_def Let_def split: if_splits)
  qed
  have "sla = (length (filter (\<lambda>i. state i = Some BREACHED) ?open), length (filter (\<lambda>i. state i = Some AT_RISK) ?open))"
    using sla_tally_is_computeSla [OF ok, of ?open e state pg] js sla by (auto simp: slaCounts_def)
  moreover have "filter (\<lambda>i. state i = Some BREACHED) ?open = filter (\<lambda>i. state i = Some BREACHED) (base sc s)"
    "filter (\<lambda>i. state i = Some AT_RISK) ?open = filter (\<lambda>i. state i = Some AT_RISK) (base sc s)"
    using closed by (auto simp: filter_filter intro!: filter_cong)
  ultimately have sla_eq: "da_sla d = (length (filter (\<lambda>i. state i = Some BREACHED) (base sc s)),
      length (filter (\<lambda>i. state i = Some AT_RISK) (base sc s)))" by (simp add: d(1))
  have assigned: "length (List.map_filter f xs) = length (filter (\<lambda>x. f x \<noteq> None) xs)"
    for f :: "issue \<Rightarrow> (ident \<times> string) option" and xs
    by (induction xs) (auto simp: List.map_filter_simps split: option.split)
  have by_assignee: "sum_list (map snd (da_by_assignee d))
      = length (filter (\<lambda>i. case iss_assignee i of None \<Rightarrow> False | Some a \<Rightarrow> find_staff a s \<noteq> None) (base sc s))"
    unfolding d(8) byAssignee_def sum_group_counts assigned
    by (rule arg_cong [of _ _ length], rule filter_cong [OF refl]) (auto split: option.split)
  have rate: "case os_deflection_rate (da_ops d) of None \<Rightarrow> True | Some p \<Rightarrow> 0 \<le> p \<and> p \<le> 100"
    using percentage_bounds [OF le_add1] by (auto simp: d(9) ops_def Let_def split: option.split)
  have "da_open d \<le> da_all d" by (simp add: all open_n)
  with all open_n sla_eq by_assignee rate show ?thesis
    by (simp add: d(2,5,6,7) byPlatform_def sum_group_counts)
qed

definition dash_staff :: auth_staff where
  "dash_staff = \<lparr>st_id = ''dev'', st_idp_subject = ''local:dev@x.org'', st_name = ''dev'', st_email = ''dev@x.org'',
     st_roles = [\<lparr>gr_role = DEVELOPER, gr_platform = Some ''p1''\<rparr>]\<rparr>"

definition busy_db :: db where
  "busy_db = empty_db\<lparr>t_platforms := [sample_platform ''p1'' ''portal'', sample_platform ''p2'' ''other''],
     t_staff := [sample_staff ''dev'' ''dev@x.org''],
     t_issues := [(sample_issue ''i1'' ''p1'' NEW)\<lparr>iss_assignee := Some ''dev''\<rparr>,
                  (sample_issue ''i2'' ''p1'' IN_PROGRESS)\<lparr>iss_sla_started_at := 1000 * 3600000 - 20 * 3600000\<rparr>,
                  sample_issue ''i3'' ''p1'' CLOSED, sample_issue ''i4'' ''p2'' NEW]\<rparr>"

definition sla_of :: "issue \<Rightarrow> sla_state option" where
  "sla_of i = (case computeSla plain_env i None (now plain_env) of Inl _ \<Rightarrow> None | Inr (due, st) \<Rightarrow> st)"

theorem dashboard_adds_up_witness:
  "\<exists>d. computeForScope plain_env (\<lambda>_. None) (\<lambda>_. ''day'') (SCOPE_IDS [''p1'']) busy_db = Inr d
     \<and> da_all d = 3 \<and> da_open d = 2 \<and> da_sla d = (1, 1) \<and> sum_list (map snd (da_by_assignee d)) = 1"
proof -
  let ?sc = "SCOPE_IDS [''p1'']"
  have "is_ok (computeForScope plain_env (\<lambda>_. None) (\<lambda>_. ''day'') ?sc busy_db)" by code_simp
  then obtain d where d: "computeForScope plain_env (\<lambda>_. None) (\<lambda>_. ''day'') ?sc busy_db = Inr d" by (auto simp: is_ok_iff)
  have ok: "\<forall>p \<in> set (t_platforms busy_db). policy_ok (plat_sla_policy p)"
    by (simp add: busy_db_def sample_platform_def policy_ok_def)
  have "list_all (\<lambda>i. case computeSla plain_env i (platform_policy busy_db i) (now plain_env) of
      Inl _ \<Rightarrow> False | Inr (due, st) \<Rightarrow> st = sla_of i) (base ?sc busy_db)" by code_simp
  then have js: "\<forall>i \<in> set (base ?sc busy_db). \<exists>due.
      computeSla plain_env i (platform_policy busy_db i) (now plain_env) = Inr (due, sla_of i)"
    unfolding list_all_iff by (fastforce split: sum.splits)
  have n: "length (base ?sc busy_db) = 3" "length (filter (\<lambda>i. is_open (iss_status i)) (base ?sc busy_db)) = 2"
    "length (filter (\<lambda>i. sla_of i = Some BREACHED) (base ?sc busy_db)) = 1"
    "length (filter (\<lambda>i. sla_of i = Some AT_RISK) (base ?sc busy_db)) = 1"
    "length (filter (\<lambda>i. case iss_assignee i of None \<Rightarrow> False | Some a \<Rightarrow> find_staff a busy_db \<noteq> None) (base ?sc busy_db)) = 1"
    by code_simp+
  from dashboard_adds_up [OF d ok js] d n show ?thesis by simp
qed

text \<open>The rows a scope can see: its issues, and what hangs on them.\<close>

definition scope_view :: "scope \<Rightarrow> db \<Rightarrow> db" where
  "scope_view sc s =
     (let mine = (\<lambda>j. j \<in> iss_id ` set (base sc s)) in
      s\<lparr>t_issues := base sc s,
        t_audit := filter (\<lambda>a. case aud_issue a of None \<Rightarrow> False | Some j \<Rightarrow> mine j) (t_audit s),
        t_csat := filter (\<lambda>c. mine (csat_issue c)) (t_csat s),
        t_subs := filter (\<lambda>x. mine (sub_issue x)) (t_subs s),
        t_comments := [], t_attachments := [], t_notifs := [], t_reporters := []\<rparr>)"

lemma base_view: "base sc (scope_view sc s) = base sc s"
  by (simp add: base_def scope_view_def)

lemma find_view [simp]:
  "find_platform p (scope_view sc s) = find_platform p s" "find_staff a (scope_view sc s) = find_staff a s"
  by (simp_all add: find_platform_def find_staff_def scope_view_def)

lemma sla_tally_view: "sla_tally e pg (scope_view sc s) is = sla_tally e pg s is"
proof (induction "is")
  case (Cons i "is")
  have "platform_policy (scope_view sc s) i = platform_policy s i" by (simp add: platform_policy_def)
  then show ?case unfolding sla_tally.simps Cons by simp
qed simp

lemma map_filter_eq: "(\<And>x. x \<in> set xs \<Longrightarrow> f x = g x) \<Longrightarrow> List.map_filter f xs = List.map_filter g xs"
  by (induction xs) (auto simp: List.map_filter_simps split: option.split)

lemma csat_view: "csat_rows e sc (scope_view sc s) = csat_rows e sc s"
  unfolding csat_rows_def base_view by (auto simp: scope_view_def intro!: filter_cong)

lemma first_action_view: "i \<in> set (base sc s) \<Longrightarrow> first_staff_action i (scope_view sc s) = first_staff_action i s"
proof -
  assume i: "i \<in> set (base sc s)"
  have "filter (\<lambda>a. aud_issue a = Some (iss_id i) \<and> aud_actor_type a = ACTOR_STAFF) (t_audit (scope_view sc s))
      = filter (\<lambda>a. aud_issue a = Some (iss_id i) \<and> aud_actor_type a = ACTOR_STAFF) (t_audit s)"
    using i by (auto simp: scope_view_def intro!: filter_cong)
  then show ?thesis by (simp add: first_staff_action_def)
qed

lemma ops_view: "ops e sc (scope_view sc s) = ops e sc s"
proof -
  have a: "List.map_filter (\<lambda>i. first_staff_action i (scope_view sc s)) (filter P (base sc s))
      = List.map_filter (\<lambda>i. first_staff_action i s) (filter P (base sc s))" for P
    by (rule map_filter_eq) (simp add: first_action_view)
  have b: "filter (\<lambda>a. aud_action a = x \<and> aud_new_value a = y \<and> since e n (aud_created_at a)
        \<and> (case aud_issue a of None \<Rightarrow> False | Some j \<Rightarrow> j \<in> iss_id ` set (base sc s))) (t_audit (scope_view sc s))
      = filter (\<lambda>a. aud_action a = x \<and> aud_new_value a = y \<and> since e n (aud_created_at a)
        \<and> (case aud_issue a of None \<Rightarrow> False | Some j \<Rightarrow> j \<in> iss_id ` set (base sc s))) (t_audit s)" for x y n
    by (auto simp: scope_view_def intro!: filter_cong)
  have c: "filter (\<lambda>x. since e n (sub_created_at x) \<and> sub_issue x \<in> iss_id ` set (base sc s)) (t_subs (scope_view sc s))
      = filter (\<lambda>x. since e n (sub_created_at x) \<and> sub_issue x \<in> iss_id ` set (base sc s)) (t_subs s)" for n
    by (auto simp: scope_view_def intro!: filter_cong)
  show ?thesis unfolding ops_def Let_def base_view a b c ..
qed

lemma computeForScope_view: "computeForScope e pg day sc (scope_view sc s) = computeForScope e pg day sc s"
proof -
  have "slaCounts e pg sc (scope_view sc s) = slaCounts e pg sc s" by (simp add: slaCounts_def base_view sla_tally_view)
  moreover have "csat_summary e sc (scope_view sc s) = csat_summary e sc s" by (simp only: csat_summary_def csat_view)
  moreover have "byPlatform sc (scope_view sc s) = byPlatform sc s" unfolding byPlatform_def base_view find_view ..
  moreover have "byAssignee sc (scope_view sc s) = byAssignee sc s" unfolding byAssignee_def base_view find_view ..
  moreover have "trend e day sc (scope_view sc s) = trend e day sc s" by (simp add: trend_def base_view)
  ultimately show ?thesis by (simp only: computeForScope_def base_view ops_view)
qed

text \<open>
  nothing on a dashboard depends on an issue of a platform the
  staff member holds no grant for, nor on anything recorded about it; the report of one
  platform is refused without a reading role there and depends on that platform's issues only.
\<close>

theorem dashboard_stays_in_scope:
  "dashboard_summary e pg day st s = dashboard_summary e pg day st (scope_view (scopedPlatformIds st) s)
   \<and> (\<forall>i \<in> set (t_issues (scope_view (scopedPlatformIds st) s)).
        i \<in> set (t_issues s) \<and> canAccessPlatform st (iss_platform i) STAFF_READ_ROLES)
   \<and> platformReport e pg day st pid s = platformReport e pg day st pid (scope_view (SCOPE_IDS [pid]) s)
   \<and> (canAccessPlatform st pid STAFF_READ_ROLES \<or> platformReport e pg day st pid s
        = Inl (Forbidden ''You do not have access to this platform.''))"
proof -
  have all_roles: "r \<in> set STAFF_READ_ROLES" for r by (cases r) (simp_all add: STAFF_READ_ROLES_def)
  have acc: "canAccessPlatform st p STAFF_READ_ROLES" if "scopeAllows (scopedPlatformIds st) p" for p
    using that all_roles
    by (auto simp: scopedPlatformIds_def canAccessPlatform_def list_ex_iff List.map_filter_def split: if_splits)
  have known: "publishedKnownIssues pid (scope_view (SCOPE_IDS [pid]) s) = publishedKnownIssues pid s"
    by (simp add: publishedKnownIssues_def scope_view_def base_def)
  have "dashboard_summary e pg day st s = dashboard_summary e pg day st (scope_view (scopedPlatformIds st) s)"
    unfolding dashboard_summary_def Let_def computeForScope_view ..
  moreover have "\<forall>i \<in> set (t_issues (scope_view (scopedPlatformIds st) s)).
        i \<in> set (t_issues s) \<and> canAccessPlatform st (iss_platform i) STAFF_READ_ROLES"
    using acc by (auto simp: scope_view_def base_def Let_def)
  moreover have "platformReport e pg day st pid s = platformReport e pg day st pid (scope_view (SCOPE_IDS [pid]) s)"
    unfolding platformReport_def computeForScope_view known find_view ..
  moreover have "canAccessPlatform st pid STAFF_READ_ROLES \<or> platformReport e pg day st pid s
        = Inl (Forbidden ''You do not have access to this platform.'')"
    by (simp add: platformReport_def require_def)
  ultimately show ?thesis by blast
qed

text \<open>A developer of one platform sees none of the other's issues.\<close>

theorem dashboard_stays_in_scope_witness:
  "t_issues (scope_view (scopedPlatformIds dash_staff) busy_db) \<noteq> t_issues busy_db
   \<and> (\<exists>d. dashboard_summary plain_env (\<lambda>_. None) (\<lambda>_. ''day'') dash_staff busy_db = Inr d \<and> da_all d = 3
        \<and> dashboard_summary plain_env (\<lambda>_. None) (\<lambda>_. ''day'') dash_staff
            (scope_view (scopedPlatformIds dash_staff) busy_db) = Inr d)
   \<and> platformReport plain_env (\<lambda>_. None) (\<lambda>_. ''day'') dash_staff ''p2'' busy_db
       = Inl (Forbidden ''You do not have access to this platform.'')"
proof -
  have "case dashboard_summary plain_env (\<lambda>_. None) (\<lambda>_. ''day'') dash_staff busy_db of Inl _ \<Rightarrow> False | Inr d \<Rightarrow> da_all d = 3"
    by code_simp
  then obtain d where d: "dashboard_summary plain_env (\<lambda>_. None) (\<lambda>_. ''day'') dash_staff busy_db = Inr d" "da_all d = 3"
    by (auto split: sum.splits)
  have "length (t_issues (scope_view (scopedPlatformIds dash_staff) busy_db)) \<noteq> length (t_issues busy_db)" by code_simp
  then have "t_issues (scope_view (scopedPlatformIds dash_staff) busy_db) \<noteq> t_issues busy_db" by metis
  moreover have "\<not> canAccessPlatform dash_staff ''p2'' STAFF_READ_ROLES" by code_simp
  ultimately show ?thesis
    using d dashboard_stays_in_scope [of plain_env "\<lambda>_. None" "\<lambda>_. ''day''" dash_staff busy_db "''p2''"] by metis
qed

end
