(* ===== verification/Storage.thy ===== *)
theory Storage
  imports JsString Prelude
begin

text \<open>
  Where files are kept (\<^verbatim>\<open>src/storage/storage.service.ts\<close>): the driver on the local disk
  (\<^verbatim>\<open>local-disk-storage.service.ts\<close>) and the one on S3 (\<^verbatim>\<open>s3-storage.service.ts\<close>),
  chosen by \<^verbatim>\<open>storage.module.ts\<close>. The state is what the directory or the bucket holds;
  \<^verbatim>\<open>uuid\<close> is the value \<^verbatim>\<open>randomUUID\<close> draws.
\<close>

section \<open>Keys\<close>

text \<open>
  \<^verbatim>\<open>extname\<close> of Node's \<^verbatim>\<open>path\<close>: from the last dot of the last component, unless that dot
  is its first character or the component is two dots.
\<close>

definition extname :: "string \<Rightarrow> string" where
  "extname p =
     (let rb = takeWhile (\<lambda>c. c \<noteq> CHR ''/'') (dropWhile (\<lambda>c. c = CHR ''/'') (rev p));
          re = takeWhile (\<lambda>c. c \<noteq> CHR ''.'') rb;
          before = drop (length re) rb
      in if length before \<le> 1 \<or> rb = ''..'' then '''' else CHR ''.'' # rev re)"

definition storage_key :: "string \<Rightarrow> string \<Rightarrow> string" where
  "storage_key uuid originalName = uuid @ take 12 (extname originalName)"

section \<open>The interface\<close>

datatype store_op =
    SaveFile string "nat list" string string
  | DeleteFile string

fun store_step ::
  "(string \<Rightarrow> nat list \<Rightarrow> string \<Rightarrow> string \<Rightarrow> 's \<Rightarrow> string \<times> 's) \<Rightarrow> (string \<Rightarrow> 's \<Rightarrow> 's) \<Rightarrow> store_op \<Rightarrow> 's \<Rightarrow> 's" where
  "store_step save delete (SaveFile u b n ct) s = snd (save u b n ct s)"
| "store_step save delete (DeleteFile k) s = delete k s"

text \<open>
  What the callers of a driver rely on: a saved object is read back under the key returned, which
  is made of the drawn id and an extension; a deleted one is gone, and deleting what is gone
  changes nothing; other keys keep their objects.
\<close>

locale object_store =
  fixes save :: "string \<Rightarrow> nat list \<Rightarrow> string \<Rightarrow> string \<Rightarrow> 's \<Rightarrow> string \<times> 's"
    and read :: "string \<Rightarrow> 's \<Rightarrow> nat list option"
    and delete :: "string \<Rightarrow> 's \<Rightarrow> 's"
  assumes save_key: "fst (save u b n ct s) = storage_key u n"
    and read_saved: "read (storage_key u n) (snd (save u b n ct s)) = Some b"
    and read_other: "k \<noteq> storage_key u n \<Longrightarrow> read k (snd (save u b n ct s)) = read k s"
    and read_deleted: "read k (delete k s) = None"
    and read_after_delete: "j \<noteq> k \<Longrightarrow> read k (delete j s) = read k s"
    and delete_idempotent: "read k s = None \<Longrightarrow> delete k s = s"

section \<open>Local disk\<close>

type_synonym disk = "string \<rightharpoonup> nat list"

definition disk_save :: "string \<Rightarrow> nat list \<Rightarrow> string \<Rightarrow> string \<Rightarrow> disk \<Rightarrow> string \<times> disk" where
  "disk_save uuid buffer originalName ct s =
     (let k = storage_key uuid originalName in (k, s(k \<mapsto> buffer)))"

definition disk_read :: "string \<Rightarrow> disk \<Rightarrow> nat list option" where
  "disk_read k s = s k"

text \<open>A key that is not there (\<^verbatim>\<open>ENOENT\<close>) is no error.\<close>

definition disk_delete :: "string \<Rightarrow> disk \<Rightarrow> disk" where
  "disk_delete k s = (case s k of None \<Rightarrow> s | Some _ \<Rightarrow> s(k := None))"

section \<open>S3\<close>

record s3_object =
  so_body :: "nat list"
  so_content_type :: string

type_synonym bucket = "string \<rightharpoonup> s3_object"

definition s3_save :: "string \<Rightarrow> nat list \<Rightarrow> string \<Rightarrow> string \<Rightarrow> bucket \<Rightarrow> string \<times> bucket" where
  "s3_save uuid buffer originalName ct s =
     (let k = storage_key uuid originalName in (k, s(k \<mapsto> \<lparr>so_body = buffer, so_content_type = ct\<rparr>)))"

definition s3_read :: "string \<Rightarrow> bucket \<Rightarrow> nat list option" where
  "s3_read k s = map_option so_body (s k)"

definition s3_delete :: "string \<Rightarrow> bucket \<Rightarrow> bucket" where
  "s3_delete k s = s(k := None)"

interpretation disk: object_store disk_save disk_read disk_delete
  by unfold_locales
    (auto simp: disk_save_def disk_read_def disk_delete_def Let_def split: option.split)

interpretation s3: object_store s3_save s3_read s3_delete
  by unfold_locales (auto simp: s3_save_def s3_read_def s3_delete_def Let_def)

section \<open>Facts\<close>

definition leaves_alone :: "string \<Rightarrow> string \<Rightarrow> store_op \<Rightarrow> bool" where
  "leaves_alone u k op = (case op of SaveFile v _ _ _ \<Rightarrow> v \<noteq> u \<and> length v = length u | DeleteFile j \<Rightarrow> j \<noteq> k)"

lemma storage_key_inj: "length v = length u \<Longrightarrow> storage_key v n = storage_key u m \<Longrightarrow> v = u"
  by (simp add: storage_key_def)

context object_store
begin

lemma step_keeps: "leaves_alone u (storage_key u n) op \<Longrightarrow> read (storage_key u n) (store_step save delete op s) = read (storage_key u n) s"
proof (cases op)
  case (SaveFile v b m ct)
  assume "leaves_alone u (storage_key u n) op"
  with SaveFile have "storage_key u n \<noteq> storage_key v m" using storage_key_inj [of v u m n] by (auto simp: leaves_alone_def)
  with SaveFile show ?thesis by (simp add: read_other)
qed (simp add: leaves_alone_def read_after_delete)

lemma run_keeps:
  "\<forall>op \<in> set ops. leaves_alone u (storage_key u n) op \<Longrightarrow>
     read (storage_key u n) (fold (store_step save delete) ops s) = read (storage_key u n) s"
  by (induction ops arbitrary: s) (simp_all add: step_keeps)

lemma saved_is_kept:
  "\<forall>op \<in> set ops. leaves_alone u (storage_key u n) op \<Longrightarrow>
     read (storage_key u n) (fold (store_step save delete) ops (snd (save u b n ct s))) = Some b"
  by (simp add: run_keeps read_saved)

lemma deleted_stays_gone:
  "\<forall>op \<in> set ops. leaves_alone u (storage_key u n) op \<Longrightarrow>
     read (storage_key u n) (fold (store_step save delete) ops (delete (storage_key u n) s)) = None"
  by (simp add: run_keeps read_deleted)

end

lemma extname_no_slash: "CHR ''/'' \<notin> set (extname p)"
  by (auto simp: extname_def Let_def dest: set_takeWhileD)

text \<open>
  C40: with either driver, whatever is saved under other ids or deleted under
  other keys afterwards, a saved file reads back byte for byte under its key, and once deleted
  it stays gone. The key never contains a path separator, whatever the name of the upload.
\<close>

theorem stored_file_reads_back:
  assumes "\<forall>op \<in> set ops. leaves_alone u (storage_key u n) op" and "CHR ''/'' \<notin> set u"
  shows "disk_read (fst (disk_save u b n ct d)) (fold (store_step disk_save disk_delete) ops (snd (disk_save u b n ct d))) = Some b
    \<and> s3_read (fst (s3_save u b n ct s)) (fold (store_step s3_save s3_delete) ops (snd (s3_save u b n ct s))) = Some b
    \<and> disk_read (storage_key u n) (fold (store_step disk_save disk_delete) ops (disk_delete (storage_key u n) d)) = None
    \<and> s3_read (storage_key u n) (fold (store_step s3_save s3_delete) ops (s3_delete (storage_key u n) s)) = None
    \<and> CHR ''/'' \<notin> set (storage_key u n)"
proof -
  have "CHR ''/'' \<notin> set (storage_key u n)"
    using assms(2) extname_no_slash [of n] by (auto simp: storage_key_def dest: in_set_takeD)
  then show ?thesis
    using disk.saved_is_kept [OF assms(1)] s3.saved_is_kept [OF assms(1)]
      disk.deleted_stays_gone [OF assms(1)] s3.deleted_stays_gone [OF assms(1)]
    by (simp add: disk.save_key s3.save_key)
qed

theorem stored_file_reads_back_witness:
  "disk_read ''u1.jpg'' (fold (store_step disk_save disk_delete) [SaveFile ''u2'' [9] ''b.jpg'' '''', DeleteFile ''u2.jpg'']
      (snd (disk_save ''u1'' [1, 2] ''../../x/a.b.jpg'' '''' Map.empty))) = Some [1, 2]
   \<and> extname ''../../x/.profile'' = '''' \<and> CHR ''/'' \<notin> set (storage_key ''u1'' ''../../x/a.b.jpg'')"
proof -
  have k: "storage_key ''u1'' ''../../x/a.b.jpg'' = ''u1.jpg''" by code_simp
  have "\<forall>op \<in> set [SaveFile ''u2'' [9] ''b.jpg'' '''', DeleteFile ''u2.jpg''].
      leaves_alone ''u1'' (storage_key ''u1'' ''../../x/a.b.jpg'') op" unfolding k by (simp add: leaves_alone_def)
  moreover have "CHR ''/'' \<notin> set ''u1''" by simp
  ultimately have "disk_read (fst (disk_save ''u1'' [1, 2] ''../../x/a.b.jpg'' '''' Map.empty))
      (fold (store_step disk_save disk_delete) [SaveFile ''u2'' [9] ''b.jpg'' '''', DeleteFile ''u2.jpg'']
        (snd (disk_save ''u1'' [1, 2] ''../../x/a.b.jpg'' '''' Map.empty))) = Some [1, 2]"
    "CHR ''/'' \<notin> set (storage_key ''u1'' ''../../x/a.b.jpg'')"
    using stored_file_reads_back by blast+
  moreover have "fst (disk_save ''u1'' [1, 2] ''../../x/a.b.jpg'' '''' Map.empty) = ''u1.jpg''"
    by (simp add: disk.save_key k)
  moreover have "extname ''../../x/.profile'' = ''''" by code_simp
  ultimately show ?thesis by simp
qed

end
