(* ===== verification/Api.thy ===== *)
theory Api
  imports Lifecycle Comments Catalog StatusPage ApiTokens SavedViews Webhooks Deflection
begin

text \<open>
  The writing routes of the staff API: the controllers of \<^verbatim>\<open>src/issues\<close>,
  \<^verbatim>\<open>src/comments\<close>, \<^verbatim>\<open>src/status\<close>, \<^verbatim>\<open>src/canned-responses\<close>,
  \<^verbatim>\<open>src/integrations\<close>, \<^verbatim>\<open>src/saved-views\<close>, \<^verbatim>\<open>src/notifications\<close>,
  \<^verbatim>\<open>src/webhooks\<close> and \<^verbatim>\<open>src/admin\<close>. A request passes the bearer guard, the guard
  its controller names, the pipe that parses its uuids, and then reaches one service call. The
  services check platforms in different places (a guard that resolves the issue, a check inside
  the service, the administrators' guard); what they promise together is proved here.
\<close>

section \<open>Routes\<close>

text \<open>
  The writing routes, controller by controller, and then by what their path carries: an issue,
  a platform, nothing but the caller, or the administration.
\<close>

datatype issues_op =
    MergeInto ident int
  | SetStatus issue_status "int option"
  | SetAssignee "ident option" "int option"
  | SetPriority priority "int option"

datatype issue_labels_op = AttachLabel ident | DetachLabel ident

datatype links_op = LinkTo ident issue_link_type | Unlink ident

datatype watchers_op = Watch | Unwatch

datatype issue_op =
    Issues issues_op
  | Publish publish_dto
  | PostComment comment_dto
  | IssueLabels issue_labels_op
  | IssueLinks links_op
  | Watchers watchers_op

datatype labels_op = AddLabel string "string option" | DropLabel ident

datatype canned_op =
    AddCanned string string
  | EditCanned ident "string option" "string option"
  | DropCanned ident

datatype rules_op = AddRule rule_dto | EditRule ident rule_patch | DropRule ident

datatype page_op =
    AddComponent string component_dto
  | EditComponent ident component_dto
  | DropComponent ident
  | OpenIncident incident_dto
  | PostIncidentUpdate ident incident_status string "ident list option"
  | DropIncident ident

datatype tokens_op = MintToken string | RevokeToken ident

datatype platform_op =
    Labels labels_op
  | Canned canned_op
  | Rules rules_op
  | Page page_op
  | Tokens tokens_op

datatype views_op = KeepView save_view_dto | DropView ident

datatype own_op = EditComment ident string | Views views_op | MarkRead

datatype hooks_op =
    AddHook string "string list option" "ident option"
  | EditHook ident "string option" "string list option" "bool option"
  | DropHook ident

datatype accounts_op =
    AddPlatform platform_dto
  | EditPlatform ident update_platform_dto
  | DropPlatform ident
  | NewSecret ident
  | AddStaff string string string
  | EditStaff ident update_staff_dto
  | DropStaff ident
  | ResetPassword ident string
  | Grant ident role "ident option"
  | Revoke ident

datatype route =
    BulkRoute bulk_dto
  | IssueRoute ident issue_op
  | PlatformRoute ident platform_op
  | OwnRoute own_op
  | HooksRoute hooks_op
  | AdminRoute accounts_op

section \<open>Guards and parameters\<close>

text \<open>
  What stands after the bearer guard: nothing, the platform guard with the roles of the route
  and the raw \<^verbatim>\<open>:id\<close> of the path, or the administrators' guard.
\<close>

datatype route_guard =
    BearerOnly
  | PlatformGuard "role list option" "ident option"
  | RolesGuard "role list option"

fun issue_roles :: "issue_op \<Rightarrow> role list" where
  "issue_roles (Watchers _) = STAFF_READ_ROLES"
| "issue_roles _ = STAFF_WRITE_ROLES"

fun guard_of :: "route \<Rightarrow> route_guard" where
  "guard_of (BulkRoute _) = PlatformGuard (Some STAFF_WRITE_ROLES) None"
| "guard_of (IssueRoute i op) = PlatformGuard (Some (issue_roles op)) (Some i)"
| "guard_of (PlatformRoute _ _) = BearerOnly"
| "guard_of (OwnRoute _) = BearerOnly"
| "guard_of (HooksRoute _) = RolesGuard (Some [ADMIN])"
| "guard_of (AdminRoute _) = RolesGuard (Some [ADMIN])"

definition check_guard :: "route_guard \<Rightarrow> auth_staff \<Rightarrow> db \<Rightarrow> bool res" where
  "check_guard g st s =
     (case g of
        BearerOnly \<Rightarrow> Inr True
      | PlatformGuard roles param \<Rightarrow> platform_guard roles (Some st) param s
      | RolesGuard roles \<Rightarrow> roles_guard roles (Some st))"

text \<open>The parameters of the path, beside the first, that pass through \<^verbatim>\<open>ParseUUIDPipe\<close>.\<close>

fun issue_params :: "issue_op \<Rightarrow> ident list" where
  "issue_params (IssueLabels (DetachLabel l)) = [l]"
| "issue_params (IssueLinks (Unlink l)) = [l]"
| "issue_params _ = []"

fun page_params :: "page_op \<Rightarrow> ident list" where
  "page_params (EditComponent i _) = [i]"
| "page_params (DropComponent i) = [i]"
| "page_params (PostIncidentUpdate i _ _ _) = [i]"
| "page_params (DropIncident i) = [i]"
| "page_params _ = []"

fun platform_params :: "platform_op \<Rightarrow> ident list" where
  "platform_params (Labels (DropLabel i)) = [i]"
| "platform_params (Canned (EditCanned i _ _)) = [i]"
| "platform_params (Canned (DropCanned i)) = [i]"
| "platform_params (Rules (EditRule i _)) = [i]"
| "platform_params (Rules (DropRule i)) = [i]"
| "platform_params (Page op) = page_params op"
| "platform_params (Tokens (RevokeToken i)) = [i]"
| "platform_params _ = []"

fun own_params :: "own_op \<Rightarrow> ident list" where
  "own_params (EditComment i _) = [i]"
| "own_params (Views (DropView i)) = [i]"
| "own_params _ = []"

fun hooks_params :: "hooks_op \<Rightarrow> ident list" where
  "hooks_params (AddHook _ _ _) = []"
| "hooks_params (EditHook i _ _ _) = [i]"
| "hooks_params (DropHook i) = [i]"

fun accounts_params :: "accounts_op \<Rightarrow> ident list" where
  "accounts_params (EditPlatform i _) = [i]"
| "accounts_params (DropPlatform i) = [i]"
| "accounts_params (NewSecret i) = [i]"
| "accounts_params (EditStaff i _) = [i]"
| "accounts_params (DropStaff i) = [i]"
| "accounts_params (ResetPassword i _) = [i]"
| "accounts_params (Revoke i) = [i]"
| "accounts_params _ = []"

fun uuid_params :: "route \<Rightarrow> ident list" where
  "uuid_params (BulkRoute _) = []"
| "uuid_params (IssueRoute i op) = i # issue_params op"
| "uuid_params (PlatformRoute p op) = p # platform_params op"
| "uuid_params (OwnRoute op) = own_params op"
| "uuid_params (HooksRoute op) = hooks_params op"
| "uuid_params (AdminRoute op) = accounts_params op"

section \<open>Controllers\<close>

text \<open>
  The libraries and the randomness a request draws on: the verifier of bearer tokens with the
  secret of the deployment, the uuid pipe, the digest of tokens, the hash of passwords, the
  parser of urls, the size of a JSON value and the random string of the call.
\<close>

record api =
  api_check :: "string \<Rightarrow> jwt_payload option"
  api_jwt_secret :: "string option"
  api_pipe_uuid :: "string \<Rightarrow> bool"
  api_sha256 :: "string \<Rightarrow> string"
  api_hash_password :: "string \<Rightarrow> string"
  api_parse_url :: url_parser
  api_json_bytes :: "json \<Rightarrow> nat"
  api_random :: string

definition state_of :: "('a \<times> db) res \<Rightarrow> db res" where
  "state_of r = bind_res r (\<lambda>(_, t). Inr t)"

fun IssuesController :: "env \<Rightarrow> auth_staff \<Rightarrow> ident \<Rightarrow> issues_op \<Rightarrow> db \<Rightarrow> db res" where
  "IssuesController e st i (MergeInto into v) s = state_of (merge e st i into v s)"
| "IssuesController e st i (SetStatus to v) s = changeStatus e st i to v s"
| "IssuesController e st i (SetAssignee u v) s = changeAssignment e st i u v s"
| "IssuesController e st i (SetPriority p v) s = changePriority e st i p v s"

fun IssueLabelsController :: "ident \<Rightarrow> issue_labels_op \<Rightarrow> db \<Rightarrow> db res" where
  "IssueLabelsController i (AttachLabel l) s = addLabelToIssue i l s"
| "IssueLabelsController i (DetachLabel l) s = Inr (removeLabelFromIssue i l s)"

fun IssueLinksController :: "env \<Rightarrow> auth_staff \<Rightarrow> ident \<Rightarrow> links_op \<Rightarrow> db \<Rightarrow> db res" where
  "IssueLinksController e st i (LinkTo target ty) s = createLink e st i target ty s"
| "IssueLinksController e st i (Unlink l) s = removeLink i l s"

fun WatchersController :: "env \<Rightarrow> auth_staff \<Rightarrow> ident \<Rightarrow> watchers_op \<Rightarrow> db \<Rightarrow> db res" where
  "WatchersController e st i Watch s = watch e st i s"
| "WatchersController e st i Unwatch s = Inr (unwatch st i s)"

fun run_issue :: "env \<Rightarrow> auth_staff \<Rightarrow> ident \<Rightarrow> issue_op \<Rightarrow> db \<Rightarrow> db res" where
  "run_issue e st i (Issues op) s = IssuesController e st i op s"
| "run_issue e st i (Publish dto) s = publish_issue e st i dto s"
| "run_issue e st i (PostComment dto) s = state_of (addComment e st i dto s)"
| "run_issue e st i (IssueLabels op) s = IssueLabelsController i op s"
| "run_issue e st i (IssueLinks op) s = IssueLinksController e st i op s"
| "run_issue e st i (Watchers op) s = WatchersController e st i op s"

fun LabelsController :: "env \<Rightarrow> auth_staff \<Rightarrow> ident \<Rightarrow> labels_op \<Rightarrow> db \<Rightarrow> db res" where
  "LabelsController e st p (AddLabel nm color) s = createLabel e st p nm color s"
| "LabelsController e st p (DropLabel l) s = deleteLabel st p l s"

fun CannedResponsesController :: "env \<Rightarrow> auth_staff \<Rightarrow> ident \<Rightarrow> canned_op \<Rightarrow> db \<Rightarrow> db res" where
  "CannedResponsesController e st p (AddCanned title body) s = createCanned e st p title body s"
| "CannedResponsesController e st p (EditCanned i title body) s = updateCanned e st p i title body s"
| "CannedResponsesController e st p (DropCanned i) s = removeCanned st p i s"

fun AutomationController :: "env \<Rightarrow> auth_staff \<Rightarrow> ident \<Rightarrow> rules_op \<Rightarrow> db \<Rightarrow> db res" where
  "AutomationController e st p (AddRule dto) s = state_of (createRule e st p dto s)"
| "AutomationController e st p (EditRule i dto) s = state_of (updateRule e st p i dto s)"
| "AutomationController e st p (DropRule i) s = removeRule st p i s"

fun StaffStatusController :: "env \<Rightarrow> auth_staff \<Rightarrow> ident \<Rightarrow> page_op \<Rightarrow> db \<Rightarrow> db res" where
  "StaffStatusController e st p (AddComponent nm dto) s = state_of (createComponent e st p nm dto s)"
| "StaffStatusController e st p (EditComponent i dto) s = state_of (updateComponent e st p i dto s)"
| "StaffStatusController e st p (DropComponent i) s = deleteComponent st p i s"
| "StaffStatusController e st p (OpenIncident dto) s = state_of (createIncident e st p dto s)"
| "StaffStatusController e st p (PostIncidentUpdate i status body ids) s =
     state_of (addIncidentUpdate e st p i status body ids s)"
| "StaffStatusController e st p (DropIncident i) s = deleteIncident st p i s"

fun ApiTokensController :: "api \<Rightarrow> env \<Rightarrow> auth_staff \<Rightarrow> ident \<Rightarrow> tokens_op \<Rightarrow> db \<Rightarrow> db res" where
  "ApiTokensController a e st p (MintToken nm) s = state_of (tok_create (api_sha256 a) e (api_random a) st p nm s)"
| "ApiTokensController a e st p (RevokeToken i) s = tok_revoke e st p i s"

fun run_platform :: "api \<Rightarrow> env \<Rightarrow> auth_staff \<Rightarrow> ident \<Rightarrow> platform_op \<Rightarrow> db \<Rightarrow> db res" where
  "run_platform a e st p (Labels op) s = LabelsController e st p op s"
| "run_platform a e st p (Canned op) s = CannedResponsesController e st p op s"
| "run_platform a e st p (Rules op) s = AutomationController e st p op s"
| "run_platform a e st p (Page op) s = StaffStatusController e st p op s"
| "run_platform a e st p (Tokens op) s = ApiTokensController a e st p op s"

fun SavedViewsController :: "api \<Rightarrow> env \<Rightarrow> auth_staff \<Rightarrow> views_op \<Rightarrow> db \<Rightarrow> db res" where
  "SavedViewsController a e st (KeepView dto) s = state_of (sv_save (api_json_bytes a) e (st_id st) dto s)"
| "SavedViewsController a e st (DropView i) s = sv_remove (st_id st) i s"

fun run_own :: "api \<Rightarrow> env \<Rightarrow> auth_staff \<Rightarrow> own_op \<Rightarrow> db \<Rightarrow> db res" where
  "run_own a e st (EditComment c body) s = state_of (editComment e st c body s)"
| "run_own a e st (Views op) s = SavedViewsController a e st op s"
| "run_own a e st MarkRead s = Inr (markAllRead e (st_id st) s)"

fun WebhooksController :: "api \<Rightarrow> env \<Rightarrow> auth_staff \<Rightarrow> hooks_op \<Rightarrow> db \<Rightarrow> db res" where
  "WebhooksController a e st (AddHook url events pid) s =
     state_of (hook_create e (api_parse_url a) st (api_random a) url events pid s)"
| "WebhooksController a e st (EditHook i url events on) s =
     state_of (hook_update (api_parse_url a) i url events on s)"
| "WebhooksController a e st (DropHook i) s = hook_remove i s"

fun AdminController :: "api \<Rightarrow> env \<Rightarrow> auth_staff \<Rightarrow> accounts_op \<Rightarrow> db \<Rightarrow> db res" where
  "AdminController a e st (AddPlatform dto) s = state_of (createPlatform e st (api_random a) dto s)"
| "AdminController a e st (EditPlatform i dto) s = state_of (updatePlatform e st i dto s)"
| "AdminController a e st (DropPlatform i) s = deletePlatform e st i s"
| "AdminController a e st (NewSecret i) s = state_of (rotateSecret e st (api_random a) i s)"
| "AdminController a e st (AddStaff nm email password) s =
     state_of (createStaff e (api_hash_password a) st nm email password s)"
| "AdminController a e st (EditStaff i dto) s = updateStaff e st i dto s"
| "AdminController a e st (DropStaff i) s = deleteStaff e st i s"
| "AdminController a e st (ResetPassword i password) s = setStaffPassword e (api_hash_password a) st i password s"
| "AdminController a e st (Grant u r pid) s = state_of (assignRole e st u r pid s)"
| "AdminController a e st (Revoke i) s = revokeRole e st i s"

fun run_route :: "api \<Rightarrow> env \<Rightarrow> auth_staff \<Rightarrow> route \<Rightarrow> db \<Rightarrow> db res" where
  "run_route a e st (BulkRoute dto) s = bind_res (bulkUpdate e st dto s) (\<lambda>(_, _, t). Inr t)"
| "run_route a e st (IssueRoute i op) s = run_issue e st i op s"
| "run_route a e st (PlatformRoute p op) s = run_platform a e st p op s"
| "run_route a e st (OwnRoute op) s = run_own a e st op s"
| "run_route a e st (HooksRoute op) s = WebhooksController a e st op s"
| "run_route a e st (AdminRoute op) s = AdminController a e st op s"

text \<open>
  A request: the bearer guard (which may create or refresh the account), the guard of the
  route, the uuid pipe, the service. A refusal or an exception leaves what the bearer guard
  wrote; the transaction of the service is rolled back.
\<close>

definition staff_request ::
  "api \<Rightarrow> env \<Rightarrow> string option \<Rightarrow> route \<Rightarrow> db \<Rightarrow> http_error option \<times> db" where
  "staff_request a e header r s =
     (case jwt_guard e (api_check a) (api_jwt_secret a) header s of
        (Inl err, s1) \<Rightarrow> (Some err, s1)
      | (Inr st, s1) \<Rightarrow>
          (case bind_res (check_guard (guard_of r) st s1) (\<lambda>_.
                  require (list_all (api_pipe_uuid a) (uuid_params r))
                    (BadRequest ''Validation failed (uuid is expected)'') (run_route a e st r s1)) of
             Inl err \<Rightarrow> (Some err, s1)
           | Inr t \<Rightarrow> (None, t)))"

section \<open>What belongs to a platform\<close>

text \<open>
  Everything a platform owns: its row and endpoints, its grants and catalogs, its status page,
  its tokens, its issues and what hangs on them.
\<close>

record tenant =
  tn_platform :: "platform option"
  tn_grants :: "user_platform_role list"
  tn_reporters :: "reporter list"
  tn_issues :: "issue list"
  tn_comments :: "comment list"
  tn_attachments :: "attachment list"
  tn_labels :: "label list"
  tn_issue_labels :: "issue_label list"
  tn_links :: "issue_link list"
  tn_rules :: "automation_rule list"
  tn_canned :: "canned_response list"
  tn_components :: "status_component list"
  tn_incidents :: "status_incident list"
  tn_updates :: "status_incident_update list"
  tn_tokens :: "api_token list"
  tn_hooks :: "webhook_endpoint list"

definition issue_on :: "ident \<Rightarrow> db \<Rightarrow> ident \<Rightarrow> bool" where
  "issue_on p s iid = list_ex (\<lambda>i. iss_id i = iid \<and> iss_platform i = p) (t_issues s)"

definition incident_on :: "ident \<Rightarrow> db \<Rightarrow> ident \<Rightarrow> bool" where
  "incident_on p s iid = list_ex (\<lambda>i. inc_id i = iid \<and> inc_platform i = p) (t_incidents s)"

definition tenant_of :: "ident \<Rightarrow> db \<Rightarrow> tenant" where
  "tenant_of p s = \<lparr>tn_platform = find_platform p s,
     tn_grants = filter (\<lambda>g. upr_platform g = Some p) (t_roles s),
     tn_reporters = filter (\<lambda>r. rep_platform r = p) (t_reporters s),
     tn_issues = filter (\<lambda>i. iss_platform i = p) (t_issues s),
     tn_comments = filter (\<lambda>c. issue_on p s (com_issue c)) (t_comments s),
     tn_attachments = filter (\<lambda>x. issue_on p s (att_issue x)) (t_attachments s),
     tn_labels = filter (\<lambda>l. lab_platform l = p) (t_labels s),
     tn_issue_labels = filter (\<lambda>x. issue_on p s (il_issue x)) (t_issue_labels s),
     tn_links = filter (\<lambda>l. issue_on p s (lnk_source l)) (t_links s),
     tn_rules = filter (\<lambda>r. rule_platform r = p) (t_rules s),
     tn_canned = filter (\<lambda>c. can_platform c = p) (t_canned s),
     tn_components = filter (\<lambda>c. comp_platform c = p) (t_components s),
     tn_incidents = filter (\<lambda>i. inc_platform i = p) (t_incidents s),
     tn_updates = filter (\<lambda>u. incident_on p s (upd_incident u)) (t_updates s),
     tn_tokens = filter (\<lambda>t. tok_platform t = p) (t_tokens s),
     tn_hooks = filter (\<lambda>h. hook_platform h = Some p) (t_hooks s)\<rparr>"

text \<open>The primary keys of the tables the argument rests on.\<close>

definition keyed :: "db \<Rightarrow> bool" where
  "keyed s = (distinct (map iss_id (t_issues s)) \<and> distinct (map com_id (t_comments s))
     \<and> distinct (map lab_id (t_labels s)) \<and> distinct (map il_id (t_issue_labels s))
     \<and> distinct (map lnk_id (t_links s)) \<and> distinct (map rule_id (t_rules s))
     \<and> distinct (map can_id (t_canned s)) \<and> distinct (map comp_id (t_components s))
     \<and> distinct (map inc_id (t_incidents s)) \<and> distinct (map tok_id (t_tokens s)))"

text \<open>No row joins two platforms: labels, links, merges and the incidents stay inside one.\<close>

definition labels_apart :: "db \<Rightarrow> bool" where
  "labels_apart s = list_all (\<lambda>x. \<exists>l \<in> set (t_labels s). lab_id l = il_label x
      \<and> issue_on (lab_platform l) s (il_issue x)) (t_issue_labels s)"

definition merges_apart :: "db \<Rightarrow> bool" where
  "merges_apart s = list_all (\<lambda>i. case iss_duplicate_of i of None \<Rightarrow> True
      | Some c \<Rightarrow> issue_on (iss_platform i) s c) (t_issues s)"

definition apart :: "db \<Rightarrow> bool" where
  "apart s = (labels_apart s \<and> merges_apart s \<and> links_local s \<and> status_inv s)"

text \<open>Someone with no writing role for a platform who is no administrator.\<close>

definition outsider :: "ident \<Rightarrow> auth_staff \<Rightarrow> bool" where
  "outsider p st = (\<not> canAccessPlatform st p STAFF_WRITE_ROLES
     \<and> \<not> list_ex (\<lambda>g. gr_role g = ADMIN) (st_roles st))"

section \<open>One table at a time\<close>

text \<open>Writes to rows that do not satisfy a predicate leave the rows that do.\<close>

lemma filter_replace_out:
  "(\<And>x. x \<in> set rs \<Longrightarrow> key x = key r \<Longrightarrow> \<not> P x) \<Longrightarrow> \<not> P r \<Longrightarrow> filter P (replace_row key r rs) = filter P rs"
  by (induction rs) (auto simp: replace_row_def)

lemma filter_remove_out:
  "(\<And>x. x \<in> set rs \<Longrightarrow> key x = k \<Longrightarrow> \<not> P x) \<Longrightarrow> filter P (remove_key key k rs) = filter P rs"
  by (induction rs) (auto simp: remove_key_def)

lemma filter_map_out:
  "(\<And>x. x \<in> set rs \<Longrightarrow> f x = x \<or> \<not> P x \<and> \<not> P (f x)) \<Longrightarrow> filter P (map f rs) = filter P rs"
proof (induction rs)
  case (Cons x rs)
  from Cons.IH Cons.prems have "filter P (map f rs) = filter P rs" by simp
  moreover have "f x = x \<or> \<not> P x \<and> \<not> P (f x)" by (rule Cons.prems) simp
  ultimately show ?case by (elim disjE) simp_all
qed simp

lemma by_key_unique:
  "by_key key k rs = Some r \<Longrightarrow> distinct (map key rs) \<Longrightarrow> x \<in> set rs \<Longrightarrow> key x = k \<Longrightarrow> x = r"
  by (auto dest!: by_key_SomeD intro: distinct_keys_eq)

lemma keyedD:
  assumes "keyed s"
  shows "distinct (map iss_id (t_issues s))" "distinct (map com_id (t_comments s))" "distinct (map lab_id (t_labels s))"
    "distinct (map il_id (t_issue_labels s))" "distinct (map lnk_id (t_links s))" "distinct (map rule_id (t_rules s))"
    "distinct (map can_id (t_canned s))" "distinct (map comp_id (t_components s))" "distinct (map inc_id (t_incidents s))"
    "distinct (map tok_id (t_tokens s))"
  using assms by (simp_all add: keyed_def)

lemma apartD: "apart s \<Longrightarrow> labels_apart s" "apart s \<Longrightarrow> merges_apart s" "apart s \<Longrightarrow> links_local s" "apart s \<Longrightarrow> status_inv s"
  by (simp_all add: apart_def)

lemma issue_on_find:
  assumes "distinct (map iss_id (t_issues s))" and "find_issue iid s = Some i"
  shows "issue_on p s iid \<longleftrightarrow> iss_platform i = p"
  using assms by_key_unique [of iss_id iid "t_issues s" i]
  by (auto simp: issue_on_def list_ex_iff find_issue_def dest: by_key_SomeD)

lemma issue_on_none: "find_issue iid s = None \<Longrightarrow> \<not> issue_on p s iid"
  by (auto simp: issue_on_def list_ex_iff find_issue_def by_key_None_iff)

lemma incident_on_find:
  assumes "distinct (map inc_id (t_incidents s))" and "by_key inc_id iid (t_incidents s) = Some i"
  shows "incident_on p s iid \<longleftrightarrow> inc_platform i = p"
  using assms by_key_unique [of inc_id iid "t_incidents s" i]
  by (auto simp: incident_on_def list_ex_iff dest: by_key_SomeD)

lemma issue_on_pairs: "issue_on p s k \<longleftrightarrow> (k, p) \<in> set (map (\<lambda>i. (iss_id i, iss_platform i)) (t_issues s))"
  by (auto simp: issue_on_def list_ex_iff image_iff)

lemma issue_on_move: "rows_move s t \<Longrightarrow> issue_on p t = issue_on p s"
proof -
  assume mv: "rows_move s t"
  have "map (\<lambda>i. (iss_id i, iss_platform i)) (t_issues t) = map (\<lambda>i. (iss_id i, iss_platform i)) (t_issues s)"
    using mv unfolding rows_move_def by (induction rule: list_all2_induct) (auto simp: row_moves_def)
  then show ?thesis by (intro ext) (simp only: issue_on_pairs)
qed

lemma issue_on_cong: "t_issues t = t_issues s \<Longrightarrow> issue_on p t = issue_on p s"
  by (rule ext) (simp add: issue_on_def)

text \<open>An issue row rewritten in place, on a platform that is not \<^verbatim>\<open>p\<close>.\<close>

lemma issue_row_rewritten:
  assumes d: "distinct (map iss_id (t_issues s))" and f: "find_issue k s = Some old"
    and new: "iss_id new = k" "iss_platform new = iss_platform old"
    and t: "t_issues t = replace_row iss_id new (t_issues s)"
  shows "issue_on p t = issue_on p s"
    and "iss_platform old \<noteq> p \<Longrightarrow> filter (\<lambda>i. iss_platform i = p) (t_issues t) = filter (\<lambda>i. iss_platform i = p) (t_issues s)"
proof -
  have u: "x = old" if "x \<in> set (t_issues s)" "iss_id x = k" for x
    by (rule by_key_unique [OF f [unfolded find_issue_def] d that])
  have "issue_on p t j = issue_on p s j" for j
    unfolding issue_on_def t replace_row_def list_ex_iff set_map bex_simps(7)
    by (rule bex_cong [OF refl]) (use u new in auto)
  then show "issue_on p t = issue_on p s" by blast
  assume p: "iss_platform old \<noteq> p"
  show "filter (\<lambda>i. iss_platform i = p) (t_issues t) = filter (\<lambda>i. iss_platform i = p) (t_issues s)"
    unfolding t by (rule filter_replace_out) (use u new p in auto)
qed

text \<open>The tables an operation on issues leaves alone.\<close>

definition same_catalogs :: "db \<Rightarrow> db \<Rightarrow> bool" where
  "same_catalogs s t =
     (t_platforms t = t_platforms s \<and> t_roles t = t_roles s \<and> t_reporters t = t_reporters s
    \<and> t_attachments t = t_attachments s \<and> t_labels t = t_labels s \<and> t_issue_labels t = t_issue_labels s
    \<and> t_rules t = t_rules s \<and> t_canned t = t_canned s \<and> t_components t = t_components s
    \<and> t_incidents t = t_incidents s \<and> t_updates t = t_updates s \<and> t_tokens t = t_tokens s \<and> t_hooks t = t_hooks s)"

lemma same_catalogs_refl [simp]: "same_catalogs s s"
  by (simp add: same_catalogs_def)

lemma same_catalogs_trans: "same_catalogs s t \<Longrightarrow> same_catalogs t u \<Longrightarrow> same_catalogs s u"
  by (simp add: same_catalogs_def)

lemma same_catalogs_steps [simp]:
  "same_catalogs s (audit_record e iid aty aid act fld old new meta t) = same_catalogs s t"
  "same_catalogs s (emit ev t) = same_catalogs s t"
  "same_catalogs s (add_comment e k au aty an body vis t) = same_catalogs s t"
  "same_catalogs s (touch_issue e k t) = same_catalogs s t" "same_catalogs s (add_watcher e k u t) = same_catalogs s t"
  "same_catalogs s (add_link_row e x y ty u t) = same_catalogs s t" "same_catalogs s (put_issue i t) = same_catalogs s t"
  by (simp_all add: same_catalogs_def audit_record_def emit_def add_comment_def draw_id_def touch_issue_def qb_update_def
      add_watcher_def add_link_row_def put_issue_def)

lemma save_issue_frame:
  "save_issue e i s = Inr t \<Longrightarrow> same_catalogs s t \<and> t_comments t = t_comments s \<and> t_links t = t_links s"
  by (auto simp: save_issue_def same_catalogs_def split: option.splits if_splits)

lemma tenant_by_parts:
  assumes "same_catalogs s t" and "issue_on p t = issue_on p s"
    and "filter (\<lambda>i. iss_platform i = p) (t_issues t) = filter (\<lambda>i. iss_platform i = p) (t_issues s)"
    and "filter (\<lambda>c. issue_on p s (com_issue c)) (t_comments t) = filter (\<lambda>c. issue_on p s (com_issue c)) (t_comments s)"
    and "filter (\<lambda>l. issue_on p s (lnk_source l)) (t_links t) = filter (\<lambda>l. issue_on p s (lnk_source l)) (t_links s)"
  shows "tenant_of p t = tenant_of p s"
  using assms by (simp add: tenant_of_def same_catalogs_def find_platform_def incident_on_def)

lemma tenant_irrelevant [simp]:
  "tenant_of p (t_staff_update f s) = tenant_of p s" "tenant_of p (t_saved_views_update g s) = tenant_of p s"
  "tenant_of p (t_notifs_update h s) = tenant_of p s" "tenant_of p (t_watchers_update w s) = tenant_of p s"
  "tenant_of p (draw_id s) = tenant_of p s" "tenant_of p (emit ev s) = tenant_of p s"
  "tenant_of p (audit_record e iid aty aid act fld old new meta s) = tenant_of p s"
  by (simp_all add: tenant_of_def find_platform_def incident_on_def issue_on_def draw_id_def emit_def audit_record_def)

section \<open>Issue routes of other platforms\<close>

lemma core_frames:
  "applyStatus e st i to v s = Inr t \<Longrightarrow> same_catalogs s t"
  "applyPriority e st i pr v s = Inr t \<Longrightarrow> same_catalogs s t"
  "applyAssignment e st i u v s = Inr t \<Longrightarrow> same_catalogs s t"
  by (auto simp: applyStatus_def applyPriority_def applyAssignment_def res_iffs dest!: save_issue_frame)

lemma wrote_out:
  assumes "distinct (map iss_id (t_issues s))" and "find_issue (iss_id i) s = Some i" and "iss_platform i \<noteq> p"
    and "wrote e i new ev s t" and "same_catalogs s t" and "rows_move s t"
  shows "tenant_of p t = tenant_of p s"
proof (rule tenant_by_parts [OF assms(5) issue_on_move [OF assms(6)]])
  have out: "iss_platform x \<noteq> p" if "x \<in> set (t_issues s)" "iss_id x = iss_id i" for x
    using by_key_unique [OF assms(2) [unfolded find_issue_def] assms(1) that] assms(3) by simp
  have "filter (\<lambda>i. iss_platform i = p) (replace_row iss_id (saved_row e new) (t_issues s))
      = filter (\<lambda>i. iss_platform i = p) (t_issues s)"
    using assms(3,4) out by (intro filter_replace_out) (auto simp: wrote_def)
  then show "filter (\<lambda>i. iss_platform i = p) (t_issues t) = filter (\<lambda>i. iss_platform i = p) (t_issues s)"
    using assms(4) by (simp add: wrote_def)
qed (use assms(4) in \<open>simp_all add: wrote_def\<close>)

lemma cores_out:
  assumes d: "distinct (map iss_id (t_issues s))" and f: "find_issue (iss_id i) s = Some i" and p: "iss_platform i \<noteq> p"
  shows "applyStatus e st i to v s = Inr t \<Longrightarrow> tenant_of p t = tenant_of p s"
    and "applyPriority e st i pr v s = Inr t \<Longrightarrow> tenant_of p t = tenant_of p s"
    and "applyAssignment e st i u v s = Inr t \<Longrightarrow> tenant_of p t = tenant_of p s"
  using applyStatus_wrote [OF f] applyPriority_wrote [OF f] applyAssignment_wrote [OF f]
  by (blast intro: wrote_out [OF d f p] core_frames apply_moves [OF d f])+

lemma loaded_self: "find_issue k s = Some i \<Longrightarrow> find_issue (iss_id i) s = Some i"
  by (auto dest: find_issueD)

lemma handlers_out:
  assumes "distinct (map iss_id (t_issues s))" and "\<not> issue_on p s iid"
  shows "changeStatus e st iid to v s = Inr t \<Longrightarrow> tenant_of p t = tenant_of p s"
    and "changePriority e st iid pr v s = Inr t \<Longrightarrow> tenant_of p t = tenant_of p s"
    and "changeAssignment e st iid u v s = Inr t \<Longrightarrow> tenant_of p t = tenant_of p s"
  using assms(2) issue_on_find [OF assms(1)]
  by (auto simp: changeStatus_def changePriority_def changeAssignment_def bind_res_Inr_iff loadForWrite_Inr_iff
      intro: cores_out [OF assms(1) loaded_self])

lemma bulk_one_out:
  assumes "distinct (map iss_id (t_issues s))" and "outsider p st" and "bulk_one e st dto iid s = Inr t"
  shows "tenant_of p t = tenant_of p s"
proof -
  from assms(3) obtain i where i: "find_issue iid s = Some i" "bulk_apply e st dto i s = Inr t"
    "canAccessPlatform st (iss_platform i) STAFF_WRITE_ROLES"
    by (auto simp: bulk_one_def loadForWrite_def split: option.splits if_splits sum.splits)
  from i(3) assms(2) have p: "iss_platform i \<noteq> p" by (auto simp: outsider_def)
  note out = cores_out [OF assms(1) loaded_self [OF i(1)] p]
  show ?thesis
    using i(2) out unfolding bulk_apply_def by (cases "blk_op dto") auto
qed

lemma bulk_loop_out:
  "bulk_loop e st dto ids (n, sk, s) = (m, sk', t) \<Longrightarrow> distinct (map iss_id (t_issues s)) \<Longrightarrow> outsider p st
   \<Longrightarrow> tenant_of p t = tenant_of p s"
proof (induction ids arbitrary: n sk s)
  case (Cons iid ids)
  show ?case
  proof (cases "bulk_one e st dto iid s")
    case (Inl r)
    with Cons.prems Cons.IH [of n "sk @ [(iid, r)]" s] show ?thesis by simp
  next
    case (Inr s1)
    have "distinct (map iss_id (t_issues s1))"
      using Cons.prems(2) rows_move_keys [OF bulk_one_moves [OF Cons.prems(2) Inr]] by simp
    with Cons.prems Inr Cons.IH [of "Suc n" sk s1] have "tenant_of p t = tenant_of p s1" by simp
    then show ?thesis using bulk_one_out [OF Cons.prems(2,3) Inr] by simp
  qed
qed simp

lemma bulk_out:
  assumes "distinct (map iss_id (t_issues s))" and "outsider p st" and "bulkUpdate e st dto s = Inr (n, sk, t)"
  shows "tenant_of p t = tenant_of p s"
  using assms bulk_loop_out [of e st dto "blk_ids dto" 0 "[]" s n sk t p]
  by (auto simp: bulkUpdate_def bind_res_Inr_iff split: if_splits)

text \<open>A merge touches the duplicate and its canonical issue, which share a platform.\<close>

lemma copy_watchers_catalogs [simp]: "same_catalogs s (copy_watchers e x y t) = same_catalogs s t"
proof -
  have "same_catalogs s (fold (add_watcher e y) us t) = same_catalogs s t" for us
    by (induction us arbitrary: t) simp_all
  then show ?thesis by (simp add: copy_watchers_def)
qed

lemma canonical_platform:
  assumes "distinct (map iss_id (t_issues s))" and "merges_apart s"
    and "find_issue cid s = Some can0" and "iss_platform dup = iss_platform can0"
    and "resolve_canonical dup can0 s = Inr can"
  shows "iss_platform can = iss_platform dup"
proof -
  from assms(5) consider "can = can0" | k where "iss_duplicate_of can0 = Some k" "find_issue k s = Some can"
    by (auto simp: resolve_canonical_def res_iffs split: option.splits)
  then show ?thesis
  proof cases
    case 2
    from assms(2,3) 2(1) have "issue_on (iss_platform can0) s k"
      by (auto simp: merges_apart_def list_all_iff dest!: find_issueD split: option.splits)
    with issue_on_find [OF assms(1) 2(2)] assms(4) show ?thesis by simp
  qed (simp add: assms(4))
qed

lemma merge_platforms:
  assumes "distinct (map iss_id (t_issues s))" and "merges_apart s" and "merge e st iid cid v s = Inr (c, t)"
    and "find_issue iid s = Some dup" and "find_issue c s = Some can"
  shows "iss_platform can = iss_platform dup"
proof -
  from assms(3,4) obtain can0 can1 where r: "find_issue cid s = Some can0" "iss_platform dup = iss_platform can0"
    "resolve_canonical dup can0 s = Inr can1" "c = iss_id can1" "iid \<noteq> cid"
    by (auto simp: merge_def res_iffs split: option.splits prod.splits)
  have "find_issue (iss_id can0) s = Some can0" "iss_id can0 \<noteq> iss_id dup"
    using loaded_self [OF r(1)] r(5) find_issueD [OF r(1)] find_issueD [OF assms(4)] by auto
  from resolve_canonicalD(1) [OF r(3) this] r(4) assms(5) have "can = can1" by simp
  with canonical_platform [OF assms(1,2) r(1,2,3)] show ?thesis by simp
qed

lemma merge_out:
  assumes "keyed s" and "merges_apart s" and "\<not> issue_on p s iid" and m: "merge e st iid cid v s = Inr (c, t)"
  shows "tenant_of p t = tenant_of p s"
  using m
proof (cases rule: merge_cases)
  case (1 dup can)
  note d = keyedD(1) [OF assms(1)]
  have p: "iss_platform dup \<noteq> p" using issue_on_find [OF d 1(1)] assms(3) by simp
  moreover have "iss_platform can = iss_platform dup" by (rule merge_platforms [OF d assms(2) m 1(1,2)])
  ultimately have c: "\<not> issue_on p s c" using issue_on_find [OF d 1(2)] by simp
  have rows: "t_issues t = replace_row iss_id (saved_row e (closed_duplicate e dup c)) (t_issues s)"
    by (simp add: 1(11))
  have "iss_id (saved_row e (closed_duplicate e dup c)) = iid"
    "iss_platform (saved_row e (closed_duplicate e dup c)) = iss_platform dup"
    by (simp_all add: closed_duplicate_def 1(3))
  note rw = issue_row_rewritten [OF d 1(1) this rows]
  have "same_catalogs s t" by (simp add: 1(11) merge_records_def Let_def)
  moreover have "filter (\<lambda>x. issue_on p s (com_issue x)) (t_comments t) = filter (\<lambda>x. issue_on p s (com_issue x)) (t_comments s)"
    using c assms(3) 1(3,4) by (simp add: 1(11) merge_records_def Let_def) (simp add: add_comment_def draw_id_def)
  moreover have "filter (\<lambda>x. issue_on p s (lnk_source x)) (t_links t) = filter (\<lambda>x. issue_on p s (lnk_source x)) (t_links s)"
    using assms(3) 1(3) by (simp add: 1(11) merge_records_def Let_def) (simp add: add_link_row_def draw_id_def)
  ultimately show ?thesis using rw(2) [OF p] by (intro tenant_by_parts [OF _ rw(1)])
qed

lemma publish_out:
  assumes "keyed s" and "\<not> issue_on p s iid" and "publish_issue e st iid dto s = Inr t"
  shows "tenant_of p t = tenant_of p s"
proof -
  from assms(3) obtain i s1 where i: "find_issue iid s = Some i" and s1: "save_issue e (set_published dto i) s = Inr s1"
    and t: "tenant_of p t = tenant_of p s1"
    by (auto simp: publish_issue_def res_iffs split: option.splits)
  have j: "iss_id (set_published dto i) = iss_id i" "iss_platform (set_published dto i) = iss_platform i"
    "iss_version (set_published dto i) = iss_version i"
    by (auto simp: set_published_def Let_def split: option.splits)
  note d = keyedD(1) [OF assms(1)]
  have p: "iss_platform i \<noteq> p" using issue_on_find [OF d i] assms(2) by simp
  have f: "find_issue (iss_id i) s = Some i" by (rule loaded_self [OF i])
  have "s1 = s \<or> s1 = put_issue (saved_row e (set_published dto i)) s"
    using s1 f j save_issue_loaded [of "set_published dto i" s i e] by auto
  then have "tenant_of p s1 = tenant_of p s"
  proof
    assume s1: "s1 = put_issue (saved_row e (set_published dto i)) s"
    have "t_issues s1 = replace_row iss_id (saved_row e (set_published dto i)) (t_issues s)" by (simp add: s1)
    note rw = issue_row_rewritten [OF d f _ _ this, simplified j saved_row_simps, OF refl refl]
    show ?thesis using rw(2) [OF p] by (intro tenant_by_parts [OF _ rw(1)]) (simp_all add: s1)
  qed simp
  with t show ?thesis by simp
qed

text \<open>Comments, labels and links of an issue.\<close>

lemma issue_on_touch: "issue_on p (touch_issue e k s) = issue_on p s"
  by (rule issue_on_move [OF touch_moves])

lemma touch_out:
  assumes "distinct (map iss_id (t_issues s))" and "\<not> issue_on p s k"
  shows "tenant_of p (touch_issue e k s) = tenant_of p s"
proof (rule tenant_by_parts [OF _ issue_on_touch])
  have out: "iss_platform i \<noteq> p" if "i \<in> set (t_issues s)" "iss_id i = k" for i
    using assms(2) that by (auto simp: issue_on_def list_ex_iff)
  then show "filter (\<lambda>i. iss_platform i = p) (t_issues (touch_issue e k s)) = filter (\<lambda>i. iss_platform i = p) (t_issues s)"
    by (auto simp: touch_issue_def qb_update_def intro!: filter_map_out split: if_splits) metis+
qed (simp_all add: touch_issue_def qb_update_def same_catalogs_def)

lemma add_comment_out: "\<not> issue_on p s k \<Longrightarrow> tenant_of p (add_comment e k au aty an body vis s) = tenant_of p s"
  by (simp add: tenant_of_def issue_on_def incident_on_def find_platform_def add_comment_def draw_id_def)

lemma addComment_out:
  assumes "keyed s" and "\<not> issue_on p s iid" and "addComment e st iid dto s = Inr (v, t)"
  shows "tenant_of p t = tenant_of p s"
proof -
  let ?s1 = "add_comment e iid (Some (st_id st)) ACTOR_STAFF None (cd_body dto) (cd_visibility dto) s"
  have o: "tenant_of p ?s1 = tenant_of p s" by (rule add_comment_out [OF assms(2)])
  have "\<not> issue_on p ?s1 iid" "distinct (map iss_id (t_issues ?s1))"
    using assms(2) keyedD(1) [OF assms(1)] by (simp_all add: issue_on_def)
  with touch_out o have "tenant_of p (touch_issue e iid ?s1) = tenant_of p s" by simp
  with o have "tenant_of p (comment_rows e st iid dto s) = tenant_of p s"
    by (cases "cd_visibility dto = REPORTER_VISIBLE") (simp_all add: comment_rows_def Let_def)
  with assms(3) show ?thesis
    by (auto simp: addComment_def Let_def bind_res_Inr_iff require_Inr_iff split: option.splits)
qed

lemma editComment_out:
  assumes "keyed s" and "outsider p st" and "p \<noteq> ''''" and "editComment e st cid body s = Inr (v, t)"
  shows "tenant_of p t = tenant_of p s"
proof -
  from assms(4) obtain c where c: "find_comment cid s = Some c"
    and ok: "case find_issue (com_issue c) s of None \<Rightarrow> True
             | Some i \<Rightarrow> iss_platform i = '''' \<or> canAccessPlatform st (iss_platform i) STAFF_WRITE_ROLES"
    and t: "tenant_of p t = tenant_of p (t_comments_update (replace_row com_id
        (c\<lparr>com_body := body, com_edited_at := Some (now e), com_translations := None, com_source_locale := None\<rparr>)) s)"
    unfolding editComment_def Let_def by (cases "find_comment cid s") (auto simp: res_iffs)
  let ?c = "c\<lparr>com_body := body, com_edited_at := Some (now e), com_translations := None, com_source_locale := None\<rparr>"
  have k: "com_id c = cid" using c by (auto simp: find_comment_def dest: by_key_SomeD)
  have off: "\<not> issue_on p s (com_issue c)"
    using ok assms(2,3) issue_on_none issue_on_find [OF keyedD(1) [OF assms(1)]]
    by (cases "find_issue (com_issue c) s") (auto simp: outsider_def)
  have u: "x = c" if "x \<in> set (t_comments s)" "com_id x = cid" for x
    by (rule by_key_unique [OF c [unfolded find_comment_def] keyedD(2) [OF assms(1)] that])
  have "filter (\<lambda>x. issue_on p s (com_issue x)) (replace_row com_id ?c (t_comments s))
      = filter (\<lambda>x. issue_on p s (com_issue x)) (t_comments s)"
    by (rule filter_replace_out) (use u off k in auto)
  then show ?thesis unfolding t by (intro tenant_by_parts issue_on_cong) (simp_all add: same_catalogs_def)
qed

lemma addLabelToIssue_out:
  assumes "\<not> issue_on p s iid" and "addLabelToIssue iid l s = Inr t"
  shows "tenant_of p t = tenant_of p s"
  using assms by (auto simp: addLabelToIssue_def res_iffs tenant_of_def issue_on_def incident_on_def
      find_platform_def draw_id_def split: option.splits if_splits)

lemma removeLabelFromIssue_out:
  assumes "keyed s" and "\<not> issue_on p s iid"
  shows "tenant_of p (removeLabelFromIssue iid l s) = tenant_of p s"
proof (cases "List.find (\<lambda>x. il_issue x = iid \<and> il_label x = l) (t_issue_labels s)")
  case (Some row)
  then have row: "row \<in> set (t_issue_labels s)" "il_issue row = iid" by (auto dest: find_SomeD)
  have "filter (\<lambda>x. issue_on p s (il_issue x)) (remove_key il_id (il_id row) (t_issue_labels s))
      = filter (\<lambda>x. issue_on p s (il_issue x)) (t_issue_labels s)"
    by (rule filter_remove_out) (use row assms distinct_keys_eq [OF keyedD(4)] in blast)
  then show ?thesis
    by (simp add: removeLabelFromIssue_def Some tenant_of_def issue_on_def incident_on_def find_platform_def)
qed (simp add: removeLabelFromIssue_def)

lemma createLink_out:
  assumes "\<not> issue_on p s iid" and "createLink e st iid j ty s = Inr t"
  shows "tenant_of p t = tenant_of p s"
  using assms by (auto simp: createLink_def res_iffs add_link_row_def tenant_of_def issue_on_def incident_on_def
      find_platform_def draw_id_def split: option.splits)

text \<open>A link has both ends on one platform, so the end named in the path decides.\<close>

lemma removeLink_out:
  assumes "keyed s" and "links_local s" and "\<not> issue_on p s iid" and "removeLink iid l s = Inr t"
  shows "tenant_of p t = tenant_of p s"
proof -
  from assms(4) obtain k where k: "by_key lnk_id l (t_links s) = Some k" "lnk_source k = iid \<or> lnk_target k = iid"
    and t: "t = t_links_update (remove_key lnk_id l) s"
    by (auto simp: removeLink_def res_iffs split: option.splits)
  from k(1) assms(2) obtain x y where xy: "find_issue (lnk_source k) s = Some x" "find_issue (lnk_target k) s = Some y"
    "iss_platform x = iss_platform y"
    by (auto simp: links_local_def dest!: by_key_SomeD)
  note on = issue_on_find [OF keyedD(1) [OF assms(1)]]
  have off: "\<not> issue_on p s (lnk_source k)" using k(2) xy on [OF xy(1)] on [OF xy(2)] assms(3) by auto
  have u: "x = k" if "x \<in> set (t_links s)" "lnk_id x = l" for x
    by (rule by_key_unique [OF k(1) keyedD(5) [OF assms(1)] that])
  have "filter (\<lambda>x. issue_on p s (lnk_source x)) (remove_key lnk_id l (t_links s))
      = filter (\<lambda>x. issue_on p s (lnk_source x)) (t_links s)"
    by (rule filter_remove_out) (use u off in blast)
  then show ?thesis unfolding t by (intro tenant_by_parts issue_on_cong) (simp_all add: same_catalogs_def)
qed

lemma watch_out: "watch e st iid s = Inr t \<Longrightarrow> tenant_of p t = tenant_of p s"
  by (auto simp: watch_def add_watcher_def split: option.splits if_splits)

lemma unwatch_out: "tenant_of p (unwatch st iid s) = tenant_of p s"
  by (auto simp: unwatch_def split: option.splits)

text \<open>The guard lets an outsider through to issues of other platforms only; watching is for readers.\<close>

lemma guard_keeps_outsiders_off:
  assumes "keyed s" and "outsider p st" and "check_guard (guard_of (IssueRoute iid op)) st s = Inr b"
    and "\<And>w. op \<noteq> Watchers w"
  shows "\<not> issue_on p s iid \<or> iid = ''''"
proof -
  have "issue_roles op = STAFF_WRITE_ROLES" using assms(4) by (cases op) auto
  with assms(3) have g: "platform_guard (Some STAFF_WRITE_ROLES) (Some st) (Some iid) s = Inr b"
    by (simp add: check_guard_def)
  show ?thesis
  proof (cases "find_issue iid s")
    case None
    then show ?thesis by (simp add: issue_on_none)
  next
    case (Some i)
    with g have "iid = '''' \<or> canAccessPlatform st (iss_platform i) STAFF_WRITE_ROLES"
      by (auto simp: platform_guard_def Let_def split: if_splits)
    with assms(2) issue_on_find [OF keyedD(1) [OF assms(1)] Some] show ?thesis by (auto simp: outsider_def)
  qed
qed

lemma run_issue_out:
  assumes s: "keyed s" "apart s" and off: "(\<And>w. op \<noteq> Watchers w) \<Longrightarrow> \<not> issue_on p s iid"
    and r: "run_issue e st iid op s = Inr t"
  shows "tenant_of p t = tenant_of p s"
proof (cases op)
  case (Issues io)
  with r off show ?thesis
    by (cases io) (auto simp: state_of_def bind_res_Inr_iff intro: merge_out [OF s(1) apartD(2) [OF s(2)]]
        handlers_out [OF keyedD(1) [OF s(1)]])
next
  case (PostComment dto)
  with r off show ?thesis by (auto simp: state_of_def bind_res_Inr_iff intro: addComment_out [OF s(1)])
next
  case (Publish dto)
  with r off show ?thesis by (auto intro: publish_out [OF s(1)])
next
  case (IssueLabels io)
  with r off show ?thesis by (cases io) (auto intro: addLabelToIssue_out removeLabelFromIssue_out [OF s(1)])
next
  case (IssueLinks io)
  with r off show ?thesis by (cases io) (auto intro: createLink_out removeLink_out [OF s(1) apartD(3) [OF s(2)]])
next
  case (Watchers io)
  with r show ?thesis by (cases io) (auto intro: watch_out unwatch_out)
qed

section \<open>Platform routes of other platforms\<close>

text \<open>
  Every service of a platform route checks the writing role first, and then only touches rows
  of that platform.
\<close>

lemma outsider_access: "outsider p st \<Longrightarrow> assertPlatformAccess st q STAFF_WRITE_ROLES = Inr u \<Longrightarrow> q \<noteq> p"
  "outsider p st \<Longrightarrow> tok_assertAccess st q = Inr u \<Longrightarrow> q \<noteq> p"
  by (auto simp: assertPlatformAccess_def tok_assertAccess_def require_Inr_iff outsider_def)

text \<open>A catalog whose rows carry their platform: what happens on another one is not seen.\<close>

lemma catalog_out:
  assumes "distinct (map key rs)" and "by_key key k rs = Some r" and "plat r \<noteq> p"
  shows "filter (\<lambda>x. plat x = p) (remove_key key k rs) = filter (\<lambda>x. plat x = p) rs"
    and "key r1 = k \<Longrightarrow> plat r1 \<noteq> p \<Longrightarrow> filter (\<lambda>x. plat x = p) (replace_row key r1 rs) = filter (\<lambda>x. plat x = p) rs"
proof -
  have u: "x = r" if "x \<in> set rs" "key x = k" for x by (rule by_key_unique [OF assms(2,1) that])
  show "filter (\<lambda>x. plat x = p) (remove_key key k rs) = filter (\<lambda>x. plat x = p) rs"
    by (rule filter_remove_out) (use u assms(3) in auto)
  show "filter (\<lambda>x. plat x = p) (replace_row key r1 rs) = filter (\<lambda>x. plat x = p) rs" if "key r1 = k" "plat r1 \<noteq> p"
    by (rule filter_replace_out) (use u assms(3) that in auto)
qed

lemma tenant_tables:
  "t_issues t = t_issues s \<Longrightarrow> t_comments t = t_comments s \<Longrightarrow> t_links t = t_links s \<Longrightarrow> t_attachments t = t_attachments s
   \<Longrightarrow> t_platforms t = t_platforms s \<Longrightarrow> t_roles t = t_roles s \<Longrightarrow> t_reporters t = t_reporters s \<Longrightarrow> t_hooks t = t_hooks s
   \<Longrightarrow> filter (\<lambda>x. issue_on p s (il_issue x)) (t_issue_labels t) = filter (\<lambda>x. issue_on p s (il_issue x)) (t_issue_labels s)
   \<Longrightarrow> filter (\<lambda>x. lab_platform x = p) (t_labels t) = filter (\<lambda>x. lab_platform x = p) (t_labels s)
   \<Longrightarrow> filter (\<lambda>x. rule_platform x = p) (t_rules t) = filter (\<lambda>x. rule_platform x = p) (t_rules s)
   \<Longrightarrow> filter (\<lambda>x. can_platform x = p) (t_canned t) = filter (\<lambda>x. can_platform x = p) (t_canned s)
   \<Longrightarrow> filter (\<lambda>x. comp_platform x = p) (t_components t) = filter (\<lambda>x. comp_platform x = p) (t_components s)
   \<Longrightarrow> filter (\<lambda>x. inc_platform x = p) (t_incidents t) = filter (\<lambda>x. inc_platform x = p) (t_incidents s)
   \<Longrightarrow> filter (\<lambda>x. incident_on p t (upd_incident x)) (t_updates t) = filter (\<lambda>x. incident_on p s (upd_incident x)) (t_updates s)
   \<Longrightarrow> filter (\<lambda>x. tok_platform x = p) (t_tokens t) = filter (\<lambda>x. tok_platform x = p) (t_tokens s)
   \<Longrightarrow> tenant_of p t = tenant_of p s"
  by (simp add: tenant_of_def issue_on_cong [of t s] find_platform_def)

lemma labels_out:
  assumes "keyed s" and "labels_apart s" and "q \<noteq> p"
  shows "createLabel e st q nm color s = Inr t \<Longrightarrow> tenant_of p t = tenant_of p s"
    and "deleteLabel st q lid s = Inr t \<Longrightarrow> tenant_of p t = tenant_of p s"
proof -
  assume "createLabel e st q nm color s = Inr t"
  with assms(3) show "tenant_of p t = tenant_of p s"
    by (auto simp: createLabel_def res_iffs Let_def tenant_of_def issue_on_def incident_on_def find_platform_def draw_id_def)
next
  assume "deleteLabel st q lid s = Inr t"
  then obtain l where l: "by_key lab_id lid (t_labels s) = Some l" "lab_platform l = q"
    and t: "t = t_issue_labels_update (filter (\<lambda>il. il_label il \<noteq> lid)) (t_labels_update (remove_key lab_id lid) s)"
    by (auto simp: deleteLabel_def res_iffs split: option.splits)
  have u: "y = l" if "y \<in> set (t_labels s)" "lab_id y = lid" for y
    by (rule by_key_unique [OF l(1) keyedD(3) [OF assms(1)] that])
  have "il_label x \<noteq> lid" if x: "x \<in> set (t_issue_labels s)" "issue_on p s (il_issue x)" for x
  proof
    assume "il_label x = lid"
    with assms(2) x(1) u l(2) have q: "issue_on q s (il_issue x)"
      by (auto simp: labels_apart_def list_all_iff)
    from q x(2) obtain i j where "i \<in> set (t_issues s)" "j \<in> set (t_issues s)" "iss_id i = iss_id j"
      "iss_platform i = q" "iss_platform j = p" by (auto simp: issue_on_def list_ex_iff)
    with distinct_keys_eq [OF keyedD(1) [OF assms(1)]] assms(3) show False by blast
  qed
  then have "filter (\<lambda>x. issue_on p s (il_issue x)) (filter (\<lambda>x. il_label x \<noteq> lid) (t_issue_labels s))
      = filter (\<lambda>x. issue_on p s (il_issue x)) (t_issue_labels s)"
    by (auto simp: filter_filter intro!: filter_cong)
  with catalog_out(1) [OF keyedD(3) [OF assms(1)] l(1), of lab_platform p] l(2) assms(3)
  show "tenant_of p t = tenant_of p s" unfolding t by (intro tenant_tables) (simp_all add: incident_on_def)
qed

lemma updateCanned_row:
  assumes "updateCanned e st q i otitle obody s = Inr t"
  obtains r r1 where "by_key can_id i (t_canned s) = Some r" "can_platform r = q" "can_id r1 = i"
    "can_platform r1 = q" "t = s \<or> t = t_canned_update (replace_row can_id r1) s"
proof -
  from assms obtain r where r: "by_key can_id i (t_canned s) = Some r" "can_platform r = q"
    by (auto simp: updateCanned_def res_iffs split: option.splits)
  have k: "can_id r = i" using r(1) by (auto dest: by_key_SomeD)
  let ?r2 = "case obody of None \<Rightarrow> (case otitle of None \<Rightarrow> r | Some t \<Rightarrow> r\<lparr>can_title := js_trim t\<rparr>)
      | Some b \<Rightarrow> (case otitle of None \<Rightarrow> r | Some t \<Rightarrow> r\<lparr>can_title := js_trim t\<rparr>)\<lparr>can_body := b\<rparr>"
  have t: "t = s \<or> t = t_canned_update (replace_row can_id (?r2\<lparr>can_updated_at := now e\<rparr>)) s"
    using assms by (auto simp: updateCanned_def r res_iffs Let_def split: if_splits)
  have ids: "can_id (?r2\<lparr>can_updated_at := now e\<rparr>) = i" "can_platform (?r2\<lparr>can_updated_at := now e\<rparr>) = q"
    using k r(2) by (auto split: option.splits)
  show thesis by (rule that [OF r ids t])
qed

lemma canned_out:
  assumes "keyed s" and "q \<noteq> p"
  shows "createCanned e st q title body s = Inr t \<Longrightarrow> tenant_of p t = tenant_of p s"
    and "updateCanned e st q i otitle obody s = Inr t \<Longrightarrow> tenant_of p t = tenant_of p s"
    and "removeCanned st q i s = Inr t \<Longrightarrow> tenant_of p t = tenant_of p s"
proof -
  note out = catalog_out [OF keyedD(7) [OF assms(1)], of _ _ can_platform p]
  show "tenant_of p t = tenant_of p s" if "createCanned e st q title body s = Inr t"
    using that assms(2)
    by (auto simp: createCanned_def res_iffs Let_def tenant_of_def issue_on_def incident_on_def find_platform_def draw_id_def)
  show "tenant_of p t = tenant_of p s" if "removeCanned st q i s = Inr t"
    using that assms(2) out(1)
    by (auto simp: removeCanned_def res_iffs incident_on_def split: option.splits intro!: tenant_tables)
  show "tenant_of p t = tenant_of p s" if "updateCanned e st q i otitle obody s = Inr t"
  proof -
    from that obtain r r1 where r: "by_key can_id i (t_canned s) = Some r" "can_platform r = q"
      and r1: "can_id r1 = i" "can_platform r1 = q" and t: "t = s \<or> t = t_canned_update (replace_row can_id r1) s"
      by (rule updateCanned_row)
    show ?thesis using t out(2) [OF r(1) _ r1(1)] r(2) r1(2) assms(2) by (auto simp: incident_on_def intro!: tenant_tables)
  qed
qed

lemma find_rule_ok: "find_rule q i s = Inr r \<Longrightarrow> by_key rule_id i (t_rules s) = Some r \<and> rule_platform r = q \<and> rule_id r = i"
  by (auto simp: find_rule_def require_Inr_iff split: option.splits dest: by_key_SomeD)

lemma rules_out:
  assumes "keyed s" and "q \<noteq> p"
  shows "createRule e st q dto s = Inr (v, t) \<Longrightarrow> tenant_of p t = tenant_of p s"
    and "updateRule e st q i d s = Inr (v2, t) \<Longrightarrow> tenant_of p t = tenant_of p s"
    and "removeRule st q i s = Inr t \<Longrightarrow> tenant_of p t = tenant_of p s"
proof -
  note out = catalog_out [OF keyedD(6) [OF assms(1)], of _ _ rule_platform p]
  show "tenant_of p t = tenant_of p s" if "createRule e st q dto s = Inr (v, t)"
    using that assms(2)
    by (auto simp: createRule_def res_iffs Let_def tenant_of_def issue_on_def incident_on_def find_platform_def draw_id_def)
  show "tenant_of p t = tenant_of p s" if "removeRule st q i s = Inr t"
    using that assms(2) out(1)
    by (auto simp: removeRule_def res_iffs incident_on_def dest!: find_rule_ok intro!: tenant_tables)
  show "tenant_of p t = tenant_of p s" if "updateRule e st q i d s = Inr (v2, t)"
  proof -
    from that obtain r where r: "find_rule q i s = Inr r" and t: "t = t_rules_update (replace_row rule_id (patch_rule d r)) s"
      by (auto simp: updateRule_def res_iffs)
    have "rule_id (patch_rule d r) = i" "rule_platform (patch_rule d r) = q"
      using find_rule_ok [OF r] by (simp_all add: patch_rule_def)
    with out(2) [of i r "patch_rule d r"] find_rule_ok [OF r] assms(2) show ?thesis
      unfolding t by (intro tenant_tables) (simp_all add: incident_on_def)
  qed
qed

text \<open>The status page. Removing a component strips it from incidents, which name only their own.\<close>

lemma components_out:
  assumes "keyed s" and "status_inv s" and "q \<noteq> p"
  shows "createComponent e st q nm d s = Inr (v, t) \<Longrightarrow> tenant_of p t = tenant_of p s"
    and "updateComponent e st q i d s = Inr (v2, t) \<Longrightarrow> tenant_of p t = tenant_of p s"
    and "deleteComponent st q i s = Inr t \<Longrightarrow> tenant_of p t = tenant_of p s"
proof -
  note out = catalog_out [OF keyedD(8) [OF assms(1)], of _ _ comp_platform p]
  have own: "by_key comp_id i (t_components s) = Some c \<and> comp_platform c = q \<and> comp_id c = i"
    if "ownedComponent q i s = Inr c" for c
    using that by (auto simp: ownedComponent_def require_Inr_iff split: option.splits dest: by_key_SomeD)
  show "tenant_of p t = tenant_of p s" if "createComponent e st q nm d s = Inr (v, t)"
    using that assms(3)
    by (auto simp: createComponent_def res_iffs Let_def tenant_of_def issue_on_def incident_on_def find_platform_def draw_id_def)
  show "tenant_of p t = tenant_of p s" if "updateComponent e st q i d s = Inr (v2, t)"
  proof -
    let ?c = "\<lambda>c. (patched_component d c)\<lparr>comp_updated_at := now e\<rparr>"
    from that obtain c where c: "ownedComponent q i s = Inr c" and t: "t = s \<or> t = t_components_update (replace_row comp_id (?c c)) s"
      by (auto simp: updateComponent_def res_iffs Let_def split: if_splits)
    have k: "comp_id (?c c) = i" "comp_platform (?c c) = q"
      using own [OF c] by (simp_all add: patched_component_frame)
    from t out(2) [of i c "?c c"] own [OF c] k assms(3) show ?thesis
      by (auto simp: incident_on_def intro!: tenant_tables)
  qed
  show "tenant_of p t = tenant_of p s" if "deleteComponent st q i s = Inr t"
  proof -
    from that obtain c where c: "ownedComponent q i s = Inr c"
      and t: "t = t_incidents_update (map (without_component i)) (t_components_update (remove_key comp_id i) s)"
      by (auto simp: deleteComponent_def res_iffs dest: own)
    have keep: "without_component i x = x \<or> inc_platform x \<noteq> p \<and> inc_platform (without_component i x) \<noteq> p"
      if x: "x \<in> set (t_incidents s)" for x
    proof (cases "i \<in> set (inc_components x)")
      case True
      with assms(2) x have "has_component (inc_platform x) i s"
        by (auto simp: status_inv_def incident_ok_def list_all_iff)
      then obtain y where "y \<in> set (t_components s)" "comp_id y = i" "comp_platform y = inc_platform x"
        by (auto simp: has_component_def list_ex_iff)
      with own [OF c] by_key_unique [of comp_id i "t_components s" c y] keyedD(8) [OF assms(1)] have "inc_platform x = q"
        by simp
      with assms(3) show ?thesis by (simp add: without_component_def)
    next
      case False
      then have "filter (\<lambda>y. y \<noteq> i) (inc_components x) = inc_components x" by (auto simp: filter_id_conv)
      then show ?thesis by (simp add: without_component_def)
    qed
    have "filter (\<lambda>x. inc_platform x = p) (map (without_component i) (t_incidents s)) = filter (\<lambda>x. inc_platform x = p) (t_incidents s)"
      by (rule filter_map_out) (rule keep)
    moreover have "incident_on p t = incident_on p s"
      by (rule ext) (auto simp: incident_on_def t list_ex_iff without_component_def)
    ultimately show ?thesis using out(1) [of i c] own [OF c] assms(3)
      unfolding t by (intro tenant_tables) simp_all
  qed
qed

lemma incident_update_row:
  assumes "distinct (map inc_id (t_incidents s))" and "addIncidentUpdate e st q i status body ids s = Inr (v, t)"
  obtains j j3 where "by_key inc_id i (t_incidents s) = Some j" "inc_platform j = q"
    "t = insert_update e st i status body (t_incidents_update (replace_row inc_id j3) s)"
    "inc_id j3 = i" "inc_platform j3 = q"
proof -
  from assms(2) obtain j where "ownedIncident q i s = Inr j" by (auto simp: addIncidentUpdate_def res_iffs)
  then have j: "by_key inc_id i (t_incidents s) = Some j" "inc_platform j = q"
    by (auto simp: ownedIncident_def require_Inr_iff split: option.splits)
  from addIncidentUpdate_ok [OF assms(2)] obtain k k3 where k: "inc_id k3 = inc_id k" "inc_platform k3 = inc_platform k"
    "inc_id k = i" "k \<in> set (t_incidents s)"
    and t: "t = insert_update e st i status body (t_incidents_update (replace_row inc_id k3) s)" by blast
  have "k = j" by (rule by_key_unique [OF j(1) assms(1) k(4,3)])
  with k j t show thesis by (intro that [OF j t]) auto
qed

lemma incident_on_cong:
  assumes "map (\<lambda>i. (inc_id i, inc_platform i)) (t_incidents t) = map (\<lambda>i. (inc_id i, inc_platform i)) (t_incidents s)"
  shows "incident_on p t = incident_on p s"
proof -
  have "incident_on p u k \<longleftrightarrow> (k, p) \<in> set (map (\<lambda>i. (inc_id i, inc_platform i)) (t_incidents u))" for u k
    by (auto simp: incident_on_def list_ex_iff image_iff)
  then show ?thesis by (intro ext) (simp only: assms)
qed

lemma insert_update_out:
  "t_incidents u = t_incidents s \<Longrightarrow> \<not> incident_on p u iid \<Longrightarrow> tenant_of p (insert_update e st iid x b u) = tenant_of p u"
  by (simp add: insert_update_def tenant_of_def issue_on_def incident_on_def find_platform_def draw_id_def)

lemma incidents_out:
  assumes "keyed s" and "q \<noteq> p"
  shows "createIncident e st q dto s = Inr (v, t) \<Longrightarrow> tenant_of p t = tenant_of p s"
    and "addIncidentUpdate e st q i status body ids s = Inr (v2, t) \<Longrightarrow> tenant_of p t = tenant_of p s"
    and "deleteIncident st q i s = Inr t \<Longrightarrow> tenant_of p t = tenant_of p s"
proof -
  note d = keyedD(9) [OF assms(1)]
  note out = catalog_out [OF d, of _ _ inc_platform p]
  show "tenant_of p t = tenant_of p s" if "createIncident e st q dto s = Inr (v, t)"
  proof -
    from that obtain cs where n: "by_key inc_id (fresh_id s) (t_incidents s) = None"
      and t0: "t = insert_update e st (inc_id (new_incident e st q dto cs (fresh_id s)))
          (inc_status (new_incident e st q dto cs (fresh_id s))) (id_body dto)
          (draw_id (t_incidents_update (\<lambda>is. is @ [new_incident e st q dto cs (fresh_id s)]) s))"
      by (auto simp: createIncident_def res_iffs Let_def)
    obtain j where j': "j = new_incident e st q dto cs (fresh_id s)" by simp
    then have j: "inc_platform j = q" "by_key inc_id (inc_id j) (t_incidents s) = None"
      using n by (simp_all add: new_incident_def Let_def)
    note t = t0 [folded j']
    let ?u = "draw_id (t_incidents_update (\<lambda>is. is @ [j]) s)"
    have on: "incident_on p ?u = incident_on p s"
      using j(1) assms(2) by (auto simp: incident_on_def draw_id_def)
    have "\<not> incident_on p ?u (inc_id j)"
      unfolding on using j(2) by (auto simp: incident_on_def list_ex_iff by_key_None_iff) (metis image_eqI)
    then have "tenant_of p t = tenant_of p ?u" unfolding t by (rule insert_update_out [OF refl])
    moreover have "tenant_of p (t_incidents_update (\<lambda>is. is @ [j]) s) = tenant_of p s"
      using j(1) assms(2) on by (intro tenant_tables) (simp_all add: draw_id_def incident_on_def)
    ultimately show ?thesis by simp
  qed
  show "tenant_of p t = tenant_of p s" if "addIncidentUpdate e st q i status body ids s = Inr (v2, t)"
  proof -
    from that obtain j j3 where k: "by_key inc_id i (t_incidents s) = Some j" "inc_platform j = q"
      and t: "t = insert_update e st i status body (t_incidents_update (replace_row inc_id j3) s)"
      and j3: "inc_id j3 = i" "inc_platform j3 = q"
      by (rule incident_update_row [OF d])
    let ?u = "t_incidents_update (replace_row inc_id j3) s"
    have u: "x = j" if "x \<in> set (t_incidents s)" "inc_id x = i" for x by (rule by_key_unique [OF k(1) d that])
    have on: "incident_on p ?u = incident_on p s"
      by (rule incident_on_cong) (use u j3 k(2) in \<open>auto simp: replace_row_def\<close>)
    have "\<not> incident_on p ?u i"
      unfolding on using incident_on_find [OF d k(1)] k(2) assms(2) by simp
    then have "tenant_of p t = tenant_of p ?u" unfolding t by (rule insert_update_out [OF refl])
    also have "\<dots> = tenant_of p s"
      using out(2) [OF k(1) _ j3(1)] k(2) j3(2) assms(2) on by (intro tenant_tables) simp_all
    finally show ?thesis .
  qed
  show "tenant_of p t = tenant_of p s" if "deleteIncident st q i s = Inr t"
  proof -
    from that obtain j where k: "by_key inc_id i (t_incidents s) = Some j" "inc_platform j = q"
      and t: "t = t_updates_update (filter (\<lambda>u. upd_incident u \<noteq> i)) (t_incidents_update (remove_key inc_id i) s)"
      by (auto simp: deleteIncident_def ownedIncident_def res_iffs split: option.splits dest: by_key_SomeD)
    have off: "\<not> incident_on p s i" using incident_on_find [OF d k(1)] k(2) assms(2) by simp
    have on: "incident_on p t x = incident_on p s x" if "x \<noteq> i" for x
      using that by (auto simp: incident_on_def t list_ex_iff remove_key_def)
    have "filter (\<lambda>x. incident_on p t (upd_incident x)) (filter (\<lambda>u. upd_incident u \<noteq> i) (t_updates s))
        = filter (\<lambda>x. incident_on p s (upd_incident x)) (t_updates s)"
      unfolding filter_filter by (rule filter_cong [OF refl]) (use off on in metis)
    with out(1) [OF k(1)] k(2) assms(2) show ?thesis by (intro tenant_tables) (simp_all add: t)
  qed
qed

lemma tokens_out:
  assumes "keyed s" and "q \<noteq> p"
  shows "tok_create h e r st q nm s = Inr (v, t) \<Longrightarrow> tenant_of p t = tenant_of p s"
    and "tok_revoke e st q i s = Inr t \<Longrightarrow> tenant_of p t = tenant_of p s"
proof -
  note out = catalog_out [OF keyedD(10) [OF assms(1)], of _ _ tok_platform p]
  have ins: "tenant_of p (draw_id (t_tokens_update (\<lambda>ts. ts @ [row]) s)) = tenant_of p s" if "tok_platform row = q" for row
    using that assms(2) by (auto simp: incident_on_def intro!: tenant_tables)
  show "tenant_of p t = tenant_of p s" if "tok_create h e r st q nm s = Inr (v, t)"
    using that ins by (auto simp: tok_create_def res_iffs Let_def)
  show "tenant_of p t = tenant_of p s" if "tok_revoke e st q i s = Inr t"
  proof -
    from that obtain k where k: "by_key tok_id i (t_tokens s) = Some k" "tok_platform k = q"
      and t: "t = s \<or> tenant_of p t = tenant_of p (t_tokens_update (replace_row tok_id (k\<lparr>tok_revoked_at := Some (now e)\<rparr>)) s)"
      by (auto simp: tok_revoke_def res_iffs split: option.splits if_splits)
    have "tok_id k = i" using k(1) by (auto dest: by_key_SomeD)
    with out(2) [OF k(1), of "k\<lparr>tok_revoked_at := Some (now e)\<rparr>"] k(2) assms(2)
    have "tenant_of p (t_tokens_update (replace_row tok_id (k\<lparr>tok_revoked_at := Some (now e)\<rparr>)) s) = tenant_of p s"
      by (intro tenant_tables) (simp_all add: incident_on_def)
    with t show ?thesis by auto
  qed
qed

lemma run_platform_access:
  assumes "run_platform a e st q op s = Inr t" and "outsider p st"
  shows "q \<noteq> p"
proof (cases op)
  case (Labels io)
  with assms show ?thesis
    by (cases io) (auto simp: createLabel_def deleteLabel_def bind_res_Inr_iff dest: outsider_access)
next
  case (Canned io)
  with assms show ?thesis
    by (cases io) (auto simp: createCanned_def updateCanned_def removeCanned_def bind_res_Inr_iff dest: outsider_access)
next
  case (Rules io)
  with assms show ?thesis
    by (cases io) (auto simp: state_of_def createRule_def updateRule_def removeRule_def bind_res_Inr_iff dest: outsider_access)
next
  case (Page io)
  with assms show ?thesis
    by (cases io) (auto simp: state_of_def createComponent_def updateComponent_def deleteComponent_def createIncident_def
        addIncidentUpdate_def deleteIncident_def bind_res_Inr_iff dest: outsider_access)
next
  case (Tokens io)
  with assms show ?thesis
    by (cases io) (auto simp: state_of_def tok_create_def tok_revoke_def bind_res_Inr_iff dest: outsider_access)
qed

lemma run_platform_out:
  assumes s: "keyed s" "apart s" and o: "outsider p st" and r: "run_platform a e st q op s = Inr t"
  shows "tenant_of p t = tenant_of p s"
proof -
  note q = run_platform_access [OF r o]
  show ?thesis
  proof (cases op)
    case (Labels io)
    with r show ?thesis by (cases io) (auto intro: labels_out [OF s(1) apartD(1) [OF s(2)] q])
  next
    case (Canned io)
    with r show ?thesis by (cases io) (auto intro: canned_out [OF s(1) q])
  next
    case (Rules io)
    with r show ?thesis by (cases io) (auto simp: state_of_def bind_res_Inr_iff intro: rules_out [OF s(1) q])
  next
    case (Page io)
    with r show ?thesis
      by (cases io) (auto simp: state_of_def bind_res_Inr_iff
          intro: components_out [OF s(1) apartD(4) [OF s(2)] q] incidents_out [OF s(1) q])
  next
    case (Tokens io)
    with r show ?thesis by (cases io) (auto simp: state_of_def bind_res_Inr_iff intro: tokens_out [OF s(1) q])
  qed
qed

section \<open>The rest of the API\<close>

lemma run_own_out:
  assumes "keyed s" and "outsider p st" and "p \<noteq> ''''" and "run_own a e st op s = Inr t"
  shows "tenant_of p t = tenant_of p s"
proof (cases op)
  case (EditComment c body)
  with assms show ?thesis by (auto simp: state_of_def bind_res_Inr_iff intro: editComment_out)
next
  case (Views io)
  with assms(4) show ?thesis
    by (cases io) (auto simp: state_of_def sv_save_def sv_remove_def res_iffs Let_def split: option.splits if_splits)
next
  case MarkRead
  with assms(4) show ?thesis by (auto simp: markAllRead_def)
qed

lemma bulk_route_out:
  assumes "keyed s" and "outsider p st" and "run_route a e st (BulkRoute dto) s = Inr t"
  shows "tenant_of p t = tenant_of p s"
  using assms(3) bulk_out [OF keyedD(1) [OF assms(1)] assms(2)] by (auto simp: bind_res_Inr_iff)

text \<open>The bearer guard writes accounts, nothing else.\<close>

definition accounts_only :: "db \<Rightarrow> db \<Rightarrow> bool" where
  "accounts_only s t = (t = s\<lparr>t_staff := t_staff t, uuid_drawn := uuid_drawn t\<rparr>)"

lemma accounts_only_refl [simp]: "accounts_only s s"
  by (simp add: accounts_only_def)

lemma account_writes:
  "save_staff u h s = Inr t \<Longrightarrow> accounts_only s t" "insert_staff e x y z h s = Inr (v, t) \<Longrightarrow> accounts_only s t"
  by (auto simp: save_staff_def insert_staff_def Let_def require_Inr_iff draw_id_def accounts_only_def)

lemma upsert_accounts_only: "upsertFromClaims e c s = Inr (r, t) \<Longrightarrow> accounts_only s t"
  unfolding upsertFromClaims_def
  by (auto simp: Let_def bind_res_Inr_iff account_writes split: if_splits option.splits sum.splits)

lemma verify_accounts_only: "verifyToken e check secret tok s = (r, t) \<Longrightarrow> accounts_only s t"
  unfolding verifyToken_def by (auto split: if_splits option.splits sum.splits intro: upsert_accounts_only)

lemma guard_accounts_only: "jwt_guard e check secret header s = (r, t) \<Longrightarrow> accounts_only s t"
  unfolding jwt_guard_def Let_def by (auto split: if_splits prod.splits intro: verify_accounts_only)

text \<open>The tables the separation of platforms is about.\<close>

definition joins :: "db \<Rightarrow> issue list \<times> label list \<times> issue_label list \<times> issue_link list \<times> status_component list
    \<times> status_incident list \<times> status_incident_update list" where
  "joins s = (t_issues s, t_labels s, t_issue_labels s, t_links s, t_components s, t_incidents s, t_updates s)"

lemma apart_cong:
  assumes "joins t = joins s"
  shows "apart t = apart s"
proof -
  have eq: "t_issues t = t_issues s" "t_labels t = t_labels s" "t_issue_labels t = t_issue_labels s" "t_links t = t_links s"
    "t_components t = t_components s" "t_incidents t = t_incidents s" "t_updates t = t_updates s"
    using assms by (simp_all add: joins_def)
  have on: "issue_on p t = issue_on p s" for p by (rule issue_on_cong [OF eq(1)])
  have "incident_ok t = incident_ok s"
    by (rule ext) (simp add: incident_ok_def has_component_def timeline_def eq)
  moreover have "find_issue k t = find_issue k s" for k by (simp add: find_issue_def eq)
  ultimately show ?thesis
    by (simp add: apart_def labels_apart_def merges_apart_def links_local_def status_inv_def eq on cong: option.case_cong)
qed

lemma accounts_only_irrelevant:
  assumes "accounts_only s t"
  shows "tenant_of p t = tenant_of p s" "keyed t = keyed s" "apart t = apart s"
proof -
  obtain us n where t: "t = s\<lparr>t_staff := us, uuid_drawn := n\<rparr>" using assms unfolding accounts_only_def by blast
  show "keyed t = keyed s" by (simp add: keyed_def t)
  show "tenant_of p t = tenant_of p s"
    by (simp add: t tenant_of_def issue_on_def incident_on_def find_platform_def)
  show "apart t = apart s" by (rule apart_cong) (simp add: t joins_def)
qed

lemma staff_request_cases:
  assumes "staff_request a e header r s = (res, t)"
  obtains "accounts_only s t"
  | st s1 b where "jwt_guard e (api_check a) (api_jwt_secret a) header s = (Inr st, s1)" "accounts_only s s1"
      "check_guard (guard_of r) st s1 = Inr b" "list_all (api_pipe_uuid a) (uuid_params r)" "run_route a e st r s1 = Inr t"
proof (cases "jwt_guard e (api_check a) (api_jwt_secret a) header s")
  case (Pair who s1)
  note acc = guard_accounts_only [OF Pair]
  show thesis
  proof (cases who)
    case (Inl err)
    with assms Pair acc show thesis by (intro that(1)) (simp add: staff_request_def)
  next
    case (Inr st)
    let ?go = "bind_res (check_guard (guard_of r) st s1) (\<lambda>_. require (list_all (api_pipe_uuid a) (uuid_params r))
        (BadRequest ''Validation failed (uuid is expected)'') (run_route a e st r s1))"
    show thesis
    proof (cases ?go)
      case (Inl err)
      with assms Pair Inr acc show thesis by (intro that(1)) (simp add: staff_request_def)
    next
      case go: (Inr u)
      with assms Pair Inr have "u = t" by (simp add: staff_request_def)
      with go Pair Inr acc show thesis by (auto simp: bind_res_Inr_iff require_Inr_iff intro: that(2))
    qed
  qed
qed

lemma run_route_out:
  assumes s: "keyed s" "apart s" and o: "outsider p st" "p \<noteq> ''''" and uuid: "\<not> api_pipe_uuid a ''''"
    and g: "check_guard (guard_of r) st s = Inr b" "list_all (api_pipe_uuid a) (uuid_params r)"
    and run: "run_route a e st r s = Inr t"
  shows "tenant_of p t = tenant_of p s"
proof (cases r)
  case (BulkRoute dto)
  with run show ?thesis by (intro bulk_route_out [OF s(1) o(1)]) simp
next
  case (IssueRoute iid op)
  have "iid \<noteq> ''''" using g(2) uuid by (auto simp: IssueRoute)
  with guard_keeps_outsiders_off [OF s(1) o(1) g(1) [unfolded IssueRoute]]
  have "(\<And>w. op \<noteq> Watchers w) \<Longrightarrow> \<not> issue_on p s iid" by blast
  with run show ?thesis by (auto simp: IssueRoute intro: run_issue_out [OF s])
next
  case (PlatformRoute q op)
  with run show ?thesis by (auto intro: run_platform_out [OF s o(1)])
next
  case (OwnRoute op)
  with run show ?thesis by (auto intro: run_own_out [OF s(1) o])
qed (use g(1) o(1) in \<open>auto simp: check_guard_def roles_guard_def outsider_def list_ex_iff split: if_splits\<close>)

lemma staff_request_out:
  assumes s: "keyed s" "apart s" and p: "p \<noteq> ''''" and uuid: "\<not> api_pipe_uuid a ''''"
    and who: "\<And>st s1. jwt_guard e (api_check a) (api_jwt_secret a) header s = (Inr st, s1) \<Longrightarrow> outsider p st"
    and req: "staff_request a e header r s = (res, t)"
  shows "tenant_of p t = tenant_of p s"
  using req
proof (cases rule: staff_request_cases)
  case 1
  then show ?thesis by (rule accounts_only_irrelevant)
next
  case (2 st s1 b)
  note irr = accounts_only_irrelevant [OF 2(2)]
  from s irr(2,3) have "keyed s1" "apart s1" by simp_all
  from run_route_out [OF this who [OF 2(1)] p uuid 2(3,4,5)] irr(1) [of p] show ?thesis by simp
qed

section \<open>Platforms stay apart\<close>

lemma rows_move_find:
  assumes "rows_move s t" and "find_issue k s = Some i"
  shows "\<exists>j. find_issue k t = Some j \<and> row_moves i j"
proof -
  have "by_key iss_id k is = Some i \<Longrightarrow> \<exists>j. by_key iss_id k js = Some j \<and> row_moves i j"
    if "list_all2 row_moves is js" for "is" js
    using that by (induction rule: list_all2_induct) (auto simp: by_key_Cons row_moves_def split: if_splits)
  with assms show ?thesis by (simp add: rows_move_def find_issue_def)
qed

text \<open>Rewriting issues in place keeps every join, as long as merges are inside a platform.\<close>

lemma rows_move_joins:
  assumes s: "apart s" and mv: "rows_move s t"
    and cat: "t_labels t = t_labels s" "t_issue_labels t = t_issue_labels s" "t_components t = t_components s"
      "t_incidents t = t_incidents s" "t_updates t = t_updates s" and tabs: "t_links t = t_links s"
  shows "apart t"
proof -
  note on = issue_on_move [OF mv]
  have "labels_apart t" using apartD(1) [OF s] by (simp add: labels_apart_def cat on)
  moreover have "merges_apart t"
    unfolding merges_apart_def list_all_iff
  proof
    fix j assume "j \<in> set (t_issues t)"
    from rows_move_backD [OF mv this] obtain i where "i \<in> set (t_issues s)" "row_moves i j" by blast
    with apartD(2) [OF s] show "case iss_duplicate_of j of None \<Rightarrow> True | Some c \<Rightarrow> issue_on (iss_platform j) t c"
      by (auto simp: merges_apart_def list_all_iff row_moves_def on split: option.splits)
  qed
  moreover have "links_local t"
    unfolding links_local_def tabs
  proof
    fix l assume "l \<in> set (t_links s)"
    with apartD(3) [OF s] obtain x y where l: "lnk_source l \<noteq> lnk_target l" "find_issue (lnk_source l) s = Some x"
      "find_issue (lnk_target l) s = Some y" "iss_platform x = iss_platform y" by (auto simp: links_local_def)
    from rows_move_find [OF mv l(2)] rows_move_find [OF mv l(3)] l(1,4)
    show "lnk_source l \<noteq> lnk_target l \<and> (\<exists>x y. find_issue (lnk_source l) t = Some x
        \<and> find_issue (lnk_target l) t = Some y \<and> iss_platform x = iss_platform y)"
      by (auto simp: row_moves_def)
  qed
  moreover have "status_inv t"
    using status_inv_components [OF apartD(4) [OF s], of t] apartD(4) [OF s] by (auto simp: cat status_inv_def)
  ultimately show ?thesis by (simp add: apart_def)
qed

lemma rows_move_apart: "apart s \<Longrightarrow> rows_move s t \<Longrightarrow> same_catalogs s t \<Longrightarrow> t_links t = t_links s \<Longrightarrow> apart t"
  by (erule rows_move_joins) (simp_all add: same_catalogs_def)

lemma core_links:
  "applyStatus e st i to v s = Inr t \<Longrightarrow> t_links t = t_links s"
  "applyPriority e st i pr v s = Inr t \<Longrightarrow> t_links t = t_links s"
  "applyAssignment e st i u v s = Inr t \<Longrightarrow> t_links t = t_links s"
  by (auto simp: applyStatus_def applyPriority_def applyAssignment_def res_iffs dest!: save_issue_frame)

lemma handlers_apart:
  assumes "keyed s" and "apart s"
  shows "changeStatus e st iid to v s = Inr t \<Longrightarrow> apart t"
    and "changePriority e st iid pr v s = Inr t \<Longrightarrow> apart t"
    and "changeAssignment e st iid u v s = Inr t \<Longrightarrow> apart t"
proof -
  note mv = handlers_move [OF keyedD(1) [OF assms(1)]]
  show "apart t" if "changeStatus e st iid to v s = Inr t"
    by (rule rows_move_apart [OF assms(2) mv(1) [OF that]])
      (use that in \<open>auto simp: changeStatus_def bind_res_Inr_iff intro: core_frames core_links\<close>)
  show "apart t" if "changePriority e st iid pr v s = Inr t"
    by (rule rows_move_apart [OF assms(2) mv(2) [OF that]])
      (use that in \<open>auto simp: changePriority_def bind_res_Inr_iff intro: core_frames core_links\<close>)
  show "apart t" if "changeAssignment e st iid u v s = Inr t"
    by (rule rows_move_apart [OF assms(2) mv(3) [OF that]])
      (use that in \<open>auto simp: changeAssignment_def bind_res_Inr_iff intro: core_frames core_links\<close>)
qed

lemma bulk_one_tables: "bulk_one e st dto iid s = Inr t \<Longrightarrow> same_catalogs s t \<and> t_links t = t_links s"
proof -
  assume "bulk_one e st dto iid s = Inr t"
  then obtain i where "bulk_apply e st dto i s = Inr t"
    by (auto simp: bulk_one_def split: if_splits sum.splits)
  then show ?thesis
    unfolding bulk_apply_def by (cases "blk_op dto") (auto intro: core_frames core_links)
qed

lemma bulk_loop_tables:
  "bulk_loop e st dto ids (n, sk, s) = (m, sk', t) \<Longrightarrow> same_catalogs s t \<and> t_links t = t_links s"
proof (induction ids arbitrary: n sk s)
  case (Cons iid ids)
  show ?case
  proof (cases "bulk_one e st dto iid s")
    case (Inl r)
    with Cons.prems Cons.IH [of n "sk @ [(iid, r)]" s] show ?thesis by simp
  next
    case (Inr s1)
    with Cons.prems Cons.IH [of "Suc n" sk s1] have "same_catalogs s1 t \<and> t_links t = t_links s1" by simp
    with bulk_one_tables [OF Inr] show ?thesis by (auto intro: same_catalogs_trans)
  qed
qed simp

lemma bulk_apart:
  assumes "keyed s" and "apart s" and "bulkUpdate e st dto s = Inr (n, sk, t)"
  shows "apart t"
proof (rule rows_move_apart [OF assms(2) bulk_moves [OF keyedD(1) [OF assms(1)] assms(3)]])
  have "same_catalogs s t \<and> t_links t = t_links s"
    using assms(3) bulk_loop_tables [of e st dto "blk_ids dto" 0 "[]" s n sk t]
    by (auto simp: bulkUpdate_def bind_res_Inr_iff split: if_splits)
  then show "same_catalogs s t" "t_links t = t_links s" by simp_all
qed

lemma publish_apart:
  assumes "keyed s" and "apart s" and "publish_issue e st iid dto s = Inr t"
  shows "apart t"
proof -
  from assms(3) obtain i s1 where i: "find_issue iid s = Some i" and s1: "save_issue e (set_published dto i) s = Inr s1"
    and t: "joins t = joins s1"
    by (auto simp: publish_issue_def res_iffs joins_def audit_record_def draw_id_def split: option.splits)
  have j: "iss_id (set_published dto i) = iss_id i" "iss_version (set_published dto i) = iss_version i"
    by (auto simp: set_published_def Let_def split: option.splits)
  have rm: "row_moves i (saved_row e (set_published dto i))"
    by (auto simp: row_moves_def set_published_def Let_def lifecycle_ok_def saved_row_def split: option.splits)
  have f: "find_issue (iss_id i) s = Some i" by (rule loaded_self [OF i])
  have "s1 = s \<or> s1 = put_issue (saved_row e (set_published dto i)) s"
    using s1 f j save_issue_loaded [of "set_published dto i" s i e] by auto
  then have "rows_move s s1"
    using rows_move_put [OF keyedD(1) [OF assms(1)] f rm, of s1] by auto
  then have "apart s1" by (rule rows_move_apart [OF assms(2)]) (use save_issue_frame [OF s1] in simp_all)
  then show ?thesis using apart_cong [OF t] by simp
qed

lemma addComment_apart:
  assumes "apart s" and c: "addComment e st iid dto s = Inr (v, t)"
  shows "apart t"
proof (rule rows_move_apart [OF assms(1) comments_move(1) [OF c]])
  from c show "same_catalogs s t" "t_links t = t_links s"
    by (auto simp: addComment_def Let_def bind_res_Inr_iff require_Inr_iff comment_rows_def touch_issue_def qb_update_def
        split: option.splits)
      (auto simp: same_catalogs_def add_comment_def draw_id_def)
qed

lemma issue_on_iff_find:
  assumes "distinct (map iss_id (t_issues s))"
  shows "issue_on p s k \<longleftrightarrow> (\<exists>i. find_issue k s = Some i \<and> iss_platform i = p)"
  using issue_on_find [OF assms] issue_on_none [of k s p] by (cases "find_issue k s") auto

lemma links_local_on:
  assumes "distinct (map iss_id (t_issues s))"
  shows "links_local s \<longleftrightarrow> (\<forall>l \<in> set (t_links s). lnk_source l \<noteq> lnk_target l
     \<and> (\<exists>p. issue_on p s (lnk_source l) \<and> issue_on p s (lnk_target l)))"
  unfolding links_local_def issue_on_iff_find [OF assms] by (intro ball_cong refl conj_cong) (metis (no_types))

text \<open>What the joins need when the issues keep their ids and platforms.\<close>

lemma apart_by_parts:
  assumes s: "apart s" and on: "\<And>p. issue_on p t = issue_on p s"
    and d: "distinct (map iss_id (t_issues s))" "distinct (map iss_id (t_issues t))"
    and il: "\<And>x. x \<in> set (t_issue_labels t) \<Longrightarrow> x \<in> set (t_issue_labels s) \<and> (\<forall>l \<in> set (t_labels s). lab_id l = il_label x \<longrightarrow> l \<in> set (t_labels t))
        \<or> (\<exists>l \<in> set (t_labels t). lab_id l = il_label x \<and> issue_on (lab_platform l) s (il_issue x))"
    and dup: "\<And>i c. i \<in> set (t_issues t) \<Longrightarrow> iss_duplicate_of i = Some c \<Longrightarrow> issue_on (iss_platform i) s c"
    and lk: "\<And>l. l \<in> set (t_links t) \<Longrightarrow> l \<in> set (t_links s) \<or> lnk_source l \<noteq> lnk_target l
        \<and> (\<exists>p. issue_on p s (lnk_source l) \<and> issue_on p s (lnk_target l))"
    and st: "status_inv t"
  shows "apart t"
proof -
  have "labels_apart t"
    unfolding labels_apart_def list_all_iff on
  proof
    fix x assume "x \<in> set (t_issue_labels t)"
    from il [OF this] apartD(1) [OF s]
    show "\<exists>l \<in> set (t_labels t). lab_id l = il_label x \<and> issue_on (lab_platform l) s (il_issue x)"
      unfolding labels_apart_def list_all_iff by blast
  qed
  moreover have "merges_apart t" using dup by (auto simp: merges_apart_def list_all_iff on split: option.splits)
  moreover have "links_local t"
    using lk apartD(3) [OF s] unfolding links_local_on [OF d(1)] links_local_on [OF d(2)] on by blast
  ultimately show ?thesis using st by (simp add: apart_def)
qed

lemma merges_apartD: "apart s \<Longrightarrow> i \<in> set (t_issues s) \<Longrightarrow> iss_duplicate_of i = Some c \<Longrightarrow> issue_on (iss_platform i) s c"
  by (drule apartD(2)) (auto simp: merges_apart_def list_all_iff split: option.splits)

lemma status_inv_cong:
  "t_components t = t_components s \<Longrightarrow> t_incidents t = t_incidents s \<Longrightarrow> t_updates t = t_updates s \<Longrightarrow> status_inv s \<Longrightarrow> status_inv t"
  by (rule status_inv_components) (auto simp: status_inv_def)

lemma merge_apart:
  assumes k: "keyed s" and s: "apart s" and m: "merge e st iid cid v s = Inr (c, t)"
  shows "apart t"
  using m
proof (cases rule: merge_cases)
  case (1 dup can)
  note d = keyedD(1) [OF k]
  let ?new = "saved_row e (closed_duplicate e dup c)"
  have rows: "t_issues t = replace_row iss_id ?new (t_issues s)" by (simp add: 1(11))
  have new: "iss_id ?new = iid" "iss_platform ?new = iss_platform dup" "iss_duplicate_of ?new = Some c"
    by (simp_all add: closed_duplicate_def 1(3))
  have cat: "same_catalogs s t" by (simp add: 1(11) merge_records_def Let_def)
  have c: "issue_on (iss_platform dup) s c" "issue_on (iss_platform dup) s iid"
    using merge_platforms [OF d apartD(2) [OF s] m 1(1,2)] issue_on_find [OF d 1(2)] issue_on_find [OF d 1(1)] by simp_all
  have links: "lnk_source l = iid \<and> lnk_target l = c \<or> l \<in> set (t_links s)" if "l \<in> set (t_links t)" for l
    using that by (auto simp: 1(3,4,11) merge_records_def Let_def split: if_splits) (auto simp: add_link_row_def draw_id_def)
  have tabs: "t_labels t = t_labels s" "t_issue_labels t = t_issue_labels s" "t_components t = t_components s"
    "t_incidents t = t_incidents s" "t_updates t = t_updates s" using cat by (simp_all add: same_catalogs_def)
  show ?thesis
  proof (rule apart_by_parts [OF s issue_row_rewritten(1) [OF d 1(1) new(1,2) rows] d])
    show "distinct (map iss_id (t_issues t))" using d by (simp add: rows keys_replace_row)
    show "issue_on (iss_platform i) s x" if "i \<in> set (t_issues t)" "iss_duplicate_of i = Some x" for i x
      using in_replace_rowD [OF that(1) [unfolded rows]] that(2) new c(1) merges_apartD [OF s] by auto
    show "l \<in> set (t_links s) \<or> lnk_source l \<noteq> lnk_target l
        \<and> (\<exists>p. issue_on p s (lnk_source l) \<and> issue_on p s (lnk_target l))" if "l \<in> set (t_links t)" for l
      using links [OF that] c 1(5) by auto
    show "status_inv t" by (rule status_inv_cong [OF tabs(3,4,5) apartD(4) [OF s]])
  qed (use tabs in auto)
qed

text \<open>Issues and links untouched: labels and the status page are all there is to check.\<close>

lemma catalogs_apart:
  assumes s: "apart s" "keyed s" and eq: "t_issues t = t_issues s"
    and lk: "\<And>l. l \<in> set (t_links t) \<Longrightarrow> l \<in> set (t_links s)"
    and il: "\<And>x. x \<in> set (t_issue_labels t) \<Longrightarrow> x \<in> set (t_issue_labels s) \<and> (\<forall>l \<in> set (t_labels s). lab_id l = il_label x \<longrightarrow> l \<in> set (t_labels t))
        \<or> (\<exists>l \<in> set (t_labels t). lab_id l = il_label x \<and> issue_on (lab_platform l) s (il_issue x))"
    and st: "status_inv t"
  shows "apart t"
proof (rule apart_by_parts [OF s(1) issue_on_cong [OF eq] keyedD(1) [OF s(2)] _ il _ _ st])
  show "distinct (map iss_id (t_issues t))" using keyedD(1) [OF s(2)] by (simp add: eq)
  show "issue_on (iss_platform i) s c" if "i \<in> set (t_issues t)" "iss_duplicate_of i = Some c" for i c
    using merges_apartD [OF s(1)] that by (simp add: eq)
qed (use lk in blast)+

lemma labels_apart_ops:
  assumes s: "keyed s" "apart s"
  shows "createLabel e st q nm color s = Inr t \<Longrightarrow> apart t"
    and "deleteLabel st q lid s = Inr t \<Longrightarrow> apart t"
    and "addLabelToIssue iid lid s = Inr t \<Longrightarrow> apart t"
    and "apart (removeLabelFromIssue iid lid s)"
proof -
  note st = status_inv_cong [OF _ _ _ apartD(4) [OF s(2)]]
  show "apart t" if "createLabel e st q nm color s = Inr t"
    by (rule catalogs_apart [OF s(2,1)]) (use that in \<open>auto simp: createLabel_def res_iffs Let_def draw_id_def intro!: st\<close>)
  show "apart t" if "deleteLabel st q lid s = Inr t"
  proof -
    from that have t: "t = t_issue_labels_update (filter (\<lambda>il. il_label il \<noteq> lid)) (t_labels_update (remove_key lab_id lid) s)"
      by (auto simp: deleteLabel_def res_iffs split: option.splits)
    show ?thesis by (rule catalogs_apart [OF s(2,1)]) (auto simp: t remove_key_def intro!: st)
  qed
  show "apart (removeLabelFromIssue iid lid s)"
    by (rule catalogs_apart [OF s(2,1)])
      (auto simp: removeLabelFromIssue_def remove_key_def intro!: st split: option.splits)
  show "apart t" if "addLabelToIssue iid lid s = Inr t"
  proof -
    from that obtain i l where il: "find_issue iid s = Some i" "by_key lab_id lid (t_labels s) = Some l"
      "lab_platform l = iss_platform i"
      and t: "t = s \<or> t = draw_id (t_issue_labels_update (\<lambda>ls. ls @ [\<lparr>il_id = fresh_id s, il_issue = iid, il_label = lab_id l\<rparr>]) s)"
      by (auto simp: addLabelToIssue_def res_iffs split: option.splits if_splits)
    from il have "l \<in> set (t_labels s)" "issue_on (lab_platform l) s iid"
      using issue_on_find [OF keyedD(1) [OF s(1)]] by (auto dest: by_key_SomeD)
    with t show ?thesis
    proof (elim disjE)
      assume t: "t = draw_id (t_issue_labels_update (\<lambda>ls. ls @ [\<lparr>il_id = fresh_id s, il_issue = iid, il_label = lab_id l\<rparr>]) s)"
      from \<open>l \<in> set (t_labels s)\<close> \<open>issue_on (lab_platform l) s iid\<close> show ?thesis
        by (intro catalogs_apart [OF s(2,1)]) (auto simp: t draw_id_def intro!: st)
    qed (simp add: s(2))
  qed
qed

lemma links_apart_ops:
  assumes s: "keyed s" "apart s"
  shows "createLink e st i j ty s = Inr t \<Longrightarrow> apart t" and "removeLink i l s = Inr t \<Longrightarrow> apart t"
proof -
  show "apart t" if "createLink e st i j ty s = Inr t"
  proof -
    have "links_local t" by (rule createLink_local [OF apartD(3) [OF s(2)] that])
    moreover from that have "t_issues t = t_issues s" "t_labels t = t_labels s" "t_issue_labels t = t_issue_labels s"
      "t_components t = t_components s" "t_incidents t = t_incidents s" "t_updates t = t_updates s"
      by (auto simp: createLink_def res_iffs add_link_row_def draw_id_def split: option.splits)
    ultimately show ?thesis
      using s(2) status_inv_cong [of t s] issue_on_cong [of t s]
      by (simp add: apart_def labels_apart_def merges_apart_def cong: option.case_cong)
  qed
  show "apart t" if "removeLink i l s = Inr t"
    by (rule catalogs_apart [OF s(2,1)])
      (use that in \<open>auto simp: removeLink_def res_iffs remove_key_def split: option.splits intro!: status_inv_cong [OF _ _ _ apartD(4) [OF s(2)]]\<close>)
qed

lemma status_apart_ops:
  assumes s: "keyed s" "apart s" and r: "run_status_op op s = Inr t"
  shows "apart t"
proof -
  have "status_inv (status_request op s)" by (rule status_inv_request [OF apartD(4) [OF s(2)]])
  then have "status_inv t" by (simp add: status_request_def r)
  moreover have "t_issues t = t_issues s \<and> t_links t = t_links s \<and> t_labels t = t_labels s \<and> t_issue_labels t = t_issue_labels s"
  proof (cases op)
    case (AddIncidentUpdate e st q i x b cs)
    with r obtain v where "addIncidentUpdate e st q i x b cs s = Inr (v, t)" by (auto simp: map_sum_Inr_iff)
    from addIncidentUpdate_ok [OF this] show ?thesis by (auto simp: insert_update_def draw_id_def)
  next
    case (UpdateComponent e st q i d)
    with r obtain v where "updateComponent e st q i d s = Inr (v, t)" by (auto simp: map_sum_Inr_iff)
    then obtain c where "t = s \<or> t = t_components_update (replace_row comp_id c) s"
      by (auto simp: updateComponent_def res_iffs Let_def split: if_splits)
    then show ?thesis by auto
  next
    case (CreateIncident e st q d)
    with r show ?thesis
      by (auto simp: map_sum_Inr_iff createIncident_def res_iffs Let_def draw_id_def insert_update_def)
  qed (use r in \<open>auto simp: map_sum_Inr_iff createComponent_def deleteComponent_def deleteIncident_def res_iffs Let_def draw_id_def\<close>)
  ultimately show ?thesis by (intro catalogs_apart [OF s(2,1)]) auto
qed

text \<open>The administration: removing a platform and removing a person reach into the joins.\<close>

lemma outside_image: "k \<notin> f ` {y \<in> S. P y} \<Longrightarrow> y \<in> S \<Longrightarrow> f y = k \<Longrightarrow> \<not> P y"
  by blast

lemma cascade_platform_tables:
  "t_issues (cascade_platform pid s) = t_issues s" "t_links (cascade_platform pid s) = t_links s"
  "t_labels (cascade_platform pid s) = filter (\<lambda>l. lab_platform l \<noteq> pid) (t_labels s)"
  "t_issue_labels (cascade_platform pid s)
     = filter (\<lambda>x. il_label x \<notin> lab_id ` {l \<in> set (t_labels s). lab_platform l = pid}) (t_issue_labels s)"
  "t_components (cascade_platform pid s) = filter (\<lambda>c. comp_platform c \<noteq> pid) (t_components s)"
  "t_incidents (cascade_platform pid s) = filter (\<lambda>i. inc_platform i \<noteq> pid) (t_incidents s)"
  "t_updates (cascade_platform pid s)
     = filter (\<lambda>u. upd_incident u \<notin> inc_id ` {i \<in> set (t_incidents s). inc_platform i = pid}) (t_updates s)"
  by (simp_all add: cascade_platform_def Let_def)

lemma cascade_platform_status:
  assumes inv: "status_inv s"
  shows "status_inv (cascade_platform pid s)"
proof -
  let ?t = "cascade_platform pid s" and ?gone = "inc_id ` {i \<in> set (t_incidents s). inc_platform i = pid}"
  note f = cascade_platform_tables
  from inv have d: "distinct (map comp_id (t_components s))" "distinct (map inc_id (t_incidents s))"
    by (simp_all add: status_inv_def)
  have kept: "inc_id i \<notin> ?gone" if "i \<in> set (t_incidents s)" "inc_platform i \<noteq> pid" for i
    using distinct_keys_eq [OF d(2) that(1)] that(2) by blast
  have "incident_ok ?t i" if "i \<in> set (t_incidents ?t)" for i
  proof -
    from that have i: "i \<in> set (t_incidents s)" "inc_platform i \<noteq> pid" by (simp_all add: f)
    with inv have ok: "incident_ok s i" by (simp add: status_inv_def list_all_iff)
    have "filter (\<lambda>x. upd_incident x = inc_id i) (filter (\<lambda>x. upd_incident x \<notin> ?gone) (t_updates s))
        = filter (\<lambda>x. upd_incident x = inc_id i) (t_updates s)"
      unfolding filter_filter by (rule filter_cong [OF refl]) (use kept [OF i] in metis)
    then have "timeline (inc_id i) ?t = timeline (inc_id i) s" by (simp add: timeline_def f)
    moreover have "has_component (inc_platform i) k ?t = has_component (inc_platform i) k s" for k
      using i(2) by (auto simp: has_component_def f list_ex_iff)
    ultimately show ?thesis using ok by (simp add: incident_ok_def)
  qed
  moreover have "\<exists>i \<in> set (t_incidents ?t). inc_id i = upd_incident x" if "x \<in> set (t_updates ?t)" for x
  proof -
    from that have x: "x \<in> set (t_updates s)" "upd_incident x \<notin> ?gone" by (simp_all add: f)
    from inv x(1) obtain i where i: "i \<in> set (t_incidents s)" "inc_id i = upd_incident x"
      by (auto simp: status_inv_def list_all_iff list_ex_iff)
    with outside_image [OF x(2)] have "i \<in> set (t_incidents ?t)" by (simp add: f)
    with i(2) show ?thesis by blast
  qed
  ultimately show ?thesis
    using d by (simp add: status_inv_def list_all_iff list_ex_iff) (simp add: f distinct_map_filter)
qed

lemma cascade_platform_apart:
  assumes s: "keyed s" "apart s"
  shows "apart (cascade_platform pid s)"
proof (rule catalogs_apart [OF s(2,1)])
  let ?t = "cascade_platform pid s"
  note f = cascade_platform_tables
  show "t_issues ?t = t_issues s" by (rule f)
  show "l \<in> set (t_links s)" if "l \<in> set (t_links ?t)" for l using that by (simp only: f)
  show "status_inv ?t" by (rule cascade_platform_status [OF apartD(4) [OF s(2)]])
  show "x \<in> set (t_issue_labels s) \<and> (\<forall>l \<in> set (t_labels s). lab_id l = il_label x \<longrightarrow> l \<in> set (t_labels ?t))
      \<or> (\<exists>l \<in> set (t_labels ?t). lab_id l = il_label x \<and> issue_on (lab_platform l) s (il_issue x))"
    if "x \<in> set (t_issue_labels ?t)" for x
  proof -
    have x: "x \<in> set (t_issue_labels s)" and nl: "il_label x \<notin> lab_id ` {l \<in> set (t_labels s). lab_platform l = pid}"
      using that by (simp_all add: f)
    have "l \<in> set (t_labels ?t)" if l: "l \<in> set (t_labels s)" "lab_id l = il_label x" for l
      using l(1) outside_image [OF nl l] by (simp add: f)
    with x show ?thesis by blast
  qed
qed

lemma cascade_staff_apart:
  assumes s: "keyed s" "apart s"
  shows "apart (cascade_staff uid s)"
proof -
  let ?f = "\<lambda>i. if iss_assignee i = Some uid then i\<lparr>iss_assignee := None\<rparr> else i"
  have "rows_move s (cascade_staff uid s)"
    by (rule rows_move_map [where f = ?f]) (simp_all add: cascade_staff_def row_moves_def lifecycle_ok_def)
  then show ?thesis
    by (rule rows_move_joins [OF s(2)]) (simp_all add: cascade_staff_def)
qed

lemma run_issue_apart:
  assumes s: "keyed s" "apart s" and r: "run_issue e st iid op s = Inr t"
  shows "apart t"
proof (cases op)
  case (Issues io)
  with r show ?thesis
    by (cases io) (auto simp: state_of_def bind_res_Inr_iff intro: merge_apart [OF s] handlers_apart [OF s])
next
  case (PostComment dto)
  with r show ?thesis by (auto simp: state_of_def bind_res_Inr_iff intro: addComment_apart [OF s(2)])
next
  case (Publish dto)
  with r show ?thesis by (auto intro: publish_apart [OF s])
next
  case (IssueLabels io)
  with r show ?thesis by (cases io) (auto intro: labels_apart_ops [OF s])
next
  case (IssueLinks io)
  with r show ?thesis by (cases io) (auto intro: links_apart_ops [OF s])
next
  case (Watchers io)
  with r show ?thesis
    by (cases io) (auto simp: watch_def unwatch_def add_watcher_def joins_def draw_id_def split: option.splits if_splits
        intro: s(2) apart_cong [THEN iffD2, OF _ s(2)])
qed

lemma page_apart:
  assumes s: "keyed s" "apart s" and r: "StaffStatusController e st q op s = Inr t"
  shows "apart t"
proof -
  have "\<exists>o1. run_status_op o1 s = Inr t"
  proof (cases op)
    case (AddComponent nm dto)
    with r show ?thesis by (intro exI [of _ "CreateComponent e st q nm dto"]) (auto simp: state_of_def bind_res_Inr_iff)
  next
    case (EditComponent i dto)
    with r show ?thesis by (intro exI [of _ "UpdateComponent e st q i dto"]) (auto simp: state_of_def bind_res_Inr_iff)
  next
    case (DropComponent i)
    with r show ?thesis by (intro exI [of _ "DeleteComponent st q i"]) simp
  next
    case (OpenIncident dto)
    with r show ?thesis by (intro exI [of _ "CreateIncident e st q dto"]) (auto simp: state_of_def bind_res_Inr_iff)
  next
    case (PostIncidentUpdate i x b cs)
    with r show ?thesis by (intro exI [of _ "AddIncidentUpdate e st q i x b cs"]) (auto simp: state_of_def bind_res_Inr_iff)
  next
    case (DropIncident i)
    with r show ?thesis by (intro exI [of _ "DeleteIncident st q i"]) simp
  qed
  then show ?thesis using status_apart_ops [OF s] by blast
qed

lemma run_platform_apart:
  assumes s: "keyed s" "apart s" and r: "run_platform a e st q op s = Inr t"
  shows "apart t"
proof -
  note quiet = apart_cong [THEN iffD2, OF _ s(2)]
  show ?thesis
  proof (cases op)
    case (Labels io)
    with r show ?thesis by (cases io) (auto intro: labels_apart_ops [OF s])
  next
    case (Canned io)
    have upd: "apart t" if "updateCanned e st q i title body s = Inr t" for i title body
    proof -
      from that obtain k :: canned_response where "t = s \<or> t = t_canned_update (replace_row can_id k) s"
        by (rule updateCanned_row)
      then show ?thesis using s(2) by (auto simp: joins_def intro: quiet)
    qed
    with r Canned show ?thesis
      by (cases io) (auto simp: createCanned_def removeCanned_def res_iffs Let_def joins_def draw_id_def
          split: option.splits intro: quiet)
  next
    case (Rules io)
    with r show ?thesis
      by (cases io) (auto simp: state_of_def createRule_def updateRule_def removeRule_def res_iffs Let_def joins_def draw_id_def
          intro: quiet)
  next
    case (Page io)
    with r show ?thesis by (auto intro: page_apart [OF s])
  next
    case (Tokens io)
    with r show ?thesis
      by (cases io) (auto simp: state_of_def tok_create_def tok_revoke_def res_iffs Let_def joins_def draw_id_def
          audit_record_def split: option.splits if_splits intro: quiet s(2))
  qed
qed

lemma run_own_apart:
  assumes "apart s" and "run_own a e st op s = Inr t"
  shows "apart t"
proof -
  note quiet = apart_cong [THEN iffD2, OF _ assms(1)]
  show ?thesis
  proof (cases op)
    case (EditComment c body)
    with assms(2) show ?thesis
      by (auto simp: state_of_def editComment_def res_iffs Let_def joins_def audit_record_def draw_id_def split: option.splits
          intro: quiet)
  next
    case (Views io)
    with assms(2) show ?thesis
      by (cases io) (auto simp: state_of_def sv_save_def sv_remove_def res_iffs Let_def joins_def draw_id_def
          split: option.splits if_splits intro: quiet assms(1))
  qed (use assms(2) in \<open>auto simp: markAllRead_def joins_def intro: quiet\<close>)
qed

lemma hooks_apart:
  assumes "apart s" and "WebhooksController a e st op s = Inr t"
  shows "apart t"
  using assms(2) apart_cong [THEN iffD2, OF _ assms(1), of t]
  by (cases op) (auto simp: state_of_def hook_create_def hook_update_def hook_remove_def res_iffs Let_def joins_def draw_id_def
      split: option.splits)

lemma audit_admin_joins [simp]: "joins (audit_admin e st act x y m s) = joins s"
  by (simp add: joins_def audit_admin_def audit_record_def draw_id_def)

lemma account_joins:
  "save_staff u h s = Inr t \<Longrightarrow> joins t = joins s" "insert_staff e x y z h s = Inr (v, t) \<Longrightarrow> joins t = joins s"
  by (auto simp: save_staff_def insert_staff_def res_iffs Let_def joins_def draw_id_def)

lemma accounts_apart:
  assumes s: "keyed s" "apart s" and r: "AdminController a e st op s = Inr t"
  shows "apart t"
proof -
  note quiet = apart_cong [THEN iffD2, OF _ s(2)]
  have aud: "apart (audit_admin e st act x y m u)" if "apart u" for act x y m u
    by (rule apart_cong [THEN iffD2, OF _ that]) simp
  show ?thesis
  proof (cases op)
    case (DropPlatform i)
    with r show ?thesis
      by (auto simp: deletePlatform_def res_iffs Let_def split: option.splits if_splits
          intro!: aud cascade_platform_apart [OF s])
  next
    case (DropStaff i)
    with r show ?thesis
      by (auto simp: deleteStaff_def res_iffs split: option.splits intro!: aud cascade_staff_apart [OF s])
  next
    case (EditStaff i dto)
    with r show ?thesis
      by (auto simp: updateStaff_def commitUpdateStaff_def res_iffs intro!: quiet dest: account_joins)
  next
    case (ResetPassword i pw)
    with r show ?thesis
      by (auto simp: setStaffPassword_def res_iffs split: option.splits intro!: quiet dest: account_joins)
  next
    case (AddStaff nm email pw)
    with r show ?thesis
      by (auto simp: state_of_def createStaff_def res_iffs Let_def intro!: quiet dest: account_joins)
  next
    case (EditPlatform i dto)
    with r show ?thesis
      by (auto simp: state_of_def updatePlatform_def res_iffs Let_def split: option.splits intro!: quiet) (simp_all add: joins_def)
  qed (use r in \<open>auto simp: state_of_def createPlatform_def rotateSecret_def assignRole_def revokeRole_def
      res_iffs Let_def split: option.splits if_splits intro!: quiet\<close>, (simp add: joins_def draw_id_def)+)
qed

lemma run_route_apart:
  assumes s: "keyed s" "apart s" and r: "run_route a e st r s = Inr t"
  shows "apart t"
proof (cases r)
  case (BulkRoute dto)
  with assms(3) show ?thesis by (auto simp: bind_res_Inr_iff intro: bulk_apart [OF s])
qed (use assms(3) in \<open>auto intro: run_issue_apart [OF s] run_platform_apart [OF s] run_own_apart [OF s(2)] hooks_apart [OF s(2)] accounts_apart [OF s]\<close>)

lemma staff_request_apart:
  assumes s: "keyed s" "apart s" and req: "staff_request a e header r s = (res, t)"
  shows "apart t"
  using req
proof (cases rule: staff_request_cases)
  case 1
  with s(2) show ?thesis by (simp add: accounts_only_irrelevant(3))
next
  case (2 st s1 b)
  with s have "keyed s1" "apart s1" by (simp_all add: accounts_only_irrelevant(2,3))
  then show ?thesis using 2(5) by (rule run_route_apart)
qed

section \<open>Isolation of runs\<close>

text \<open>
  A view of the state for each owner and steps taken by those who may not touch it: when a
  step leaves the view alone under an invariant it keeps, so does a run.
\<close>

locale isolation =
  fixes step :: "'p \<Rightarrow> 's \<Rightarrow> 's \<Rightarrow> bool" and view :: "'p \<Rightarrow> 's \<Rightarrow> 'v" and inv :: "'s \<Rightarrow> bool"
  assumes keeps: "inv s \<Longrightarrow> step p s t \<Longrightarrow> inv t"
    and respects: "inv s \<Longrightarrow> step p s t \<Longrightarrow> view p t = view p s"
begin

lemma run_isolated: "(step p)\<^sup>*\<^sup>* s t \<Longrightarrow> inv s \<Longrightarrow> view p t = view p s \<and> inv t"
  by (induction rule: rtranclp_induct) (auto intro: keeps dest: respects)

end

text \<open>
  A step of the API at some time, with some secrets: the database refuses a state in which a
  primary key is taken twice, and the uuid pipe refuses the empty string. The caller of an
  outsider's step, if the bearer guard finds one, is an outsider of the platform.
\<close>

inductive staff_step :: "db \<Rightarrow> db \<Rightarrow> bool" where
  "staff_request a e header r s = (res, t) \<Longrightarrow> keyed t \<Longrightarrow> staff_step s t"

inductive outsider_step :: "ident \<Rightarrow> db \<Rightarrow> db \<Rightarrow> bool" for p where
  "staff_request a e header r s = (res, t) \<Longrightarrow> keyed t \<Longrightarrow> p \<noteq> '''' \<Longrightarrow> \<not> api_pipe_uuid a ''''
   \<Longrightarrow> (\<And>st s1. jwt_guard e (api_check a) (api_jwt_secret a) header s = (Inr st, s1) \<Longrightarrow> outsider p st)
   \<Longrightarrow> outsider_step p s t"

definition api_inv :: "db \<Rightarrow> bool" where
  "api_inv s = (keyed s \<and> apart s)"

interpretation api_ts: transition_system staff_step api_inv
  by unfold_locales (auto simp: api_inv_def elim!: staff_step.cases intro: staff_request_apart)

interpretation tenants: isolation outsider_step tenant_of api_inv
proof
  fix s p t
  assume inv: "api_inv s" and st: "outsider_step p s t"
  from st obtain a e header r res where req: "staff_request a e header r s = (res, t)" "keyed t" "p \<noteq> ''''"
    "\<not> api_pipe_uuid a ''''"
    "\<And>u s1. jwt_guard e (api_check a) (api_jwt_secret a) header s = (Inr u, s1) \<Longrightarrow> outsider p u"
    by (cases rule: outsider_step.cases) blast
  from inv have s: "keyed s" "apart s" by (simp_all add: api_inv_def)
  show "api_inv t" using req(2) staff_request_apart [OF s req(1)] by (simp add: api_inv_def)
  show "tenant_of p t = tenant_of p s" by (rule staff_request_out [OF s req(3,4,5,1)])
qed

section \<open>A concrete deployment\<close>

definition ada :: staff_user where
  "ada = \<lparr>su_id = ''ada'', su_idp_subject = ''local:ada'', su_name = ''Ada'', su_email = ''ada@x'',
     su_password_hash = None, su_status = ACCOUNT_ACTIVE, su_token_version = 1, su_created_at = 0\<rparr>"

definition two_tenants :: db where
  "two_tenants = empty_db\<lparr>t_platforms := [sample_platform ''p1'' ''ONE'', sample_platform ''p2'' ''TWO''],
     t_staff := [ada], t_roles := [sample_grant ''g1'' ''ada'' (Some ''p1'') DEVELOPER],
     t_issues := [sample_issue ''i1'' ''p1'' NEW, sample_issue ''i2'' ''p2'' NEW]\<rparr>"

definition demo_api :: api where
  "demo_api = \<lparr>api_check = (\<lambda>_. Some \<lparr>jp_sub = Some ''local:ada'', jp_name = None, jp_email = None, jp_tv = Some 1, jp_aud = None\<rparr>),
     api_jwt_secret = Some ''secret'', api_pipe_uuid = (\<lambda>x. x \<noteq> ''''), api_sha256 = id, api_hash_password = id,
     api_parse_url = (\<lambda>_. None), api_json_bytes = (\<lambda>_. 0), api_random = ''r''\<rparr>"

definition label_request :: "http_error option \<times> db" where
  "label_request = staff_request demo_api plain_env (Some ''Bearer t'') (PlatformRoute ''p1'' (Labels (AddLabel ''bug'' None))) two_tenants"

lemma ada_in: "fst (jwt_guard plain_env (api_check demo_api) (api_jwt_secret demo_api) (Some ''Bearer t'') two_tenants)
    = Inr \<lparr>st_id = ''ada'', st_idp_subject = ''local:ada'', st_name = ''Ada'', st_email = ''ada@x'',
          st_roles = [\<lparr>gr_role = DEVELOPER, gr_platform = Some ''p1''\<rparr>]\<rparr>"
  by code_simp

lemma label_request_ok: "fst label_request = None" "map lab_platform (t_labels (snd label_request)) = [''p1'']"
  "keyed (snd label_request)"
  by code_simp+

lemma two_tenants_inv: "api_inv two_tenants"
  by (simp add: api_inv_def keyed_def apart_def labels_apart_def merges_apart_def links_local_def status_inv_def
      two_tenants_def sample_defs)

lemma ada_labels: "outsider_step ''p2'' two_tenants (snd label_request)"
proof (rule outsider_step.intros)
  show "staff_request demo_api plain_env (Some ''Bearer t'') (PlatformRoute ''p1'' (Labels (AddLabel ''bug'' None))) two_tenants
      = (fst label_request, snd label_request)" by (simp add: label_request_def)
  show "outsider ''p2'' st" if "jwt_guard plain_env (api_check demo_api) (api_jwt_secret demo_api) (Some ''Bearer t'') two_tenants
      = (Inr st, s1)" for st s1
    using ada_in that by (simp add: outsider_def canAccessPlatform_def)
qed (simp_all add: label_request_ok demo_api_def)

section \<open>Properties\<close>

text \<open>
  C3: Only writers of a platform, and administrators, change what
  belongs to it. Whatever sequence of writing requests staff send to the API, succeeding or
  failing, as long as each caller at the time of the request neither holds a writing role for
  the platform nor is an administrator, the platform keeps its row, grants, reporters, issues
  with their comments, attachments, labels and links, its labels, rules, canned responses,
  status page, tokens and endpoints, wherever the code does the check: in the guard of the
  controller, in the service, or by the owner of a comment.
\<close>

theorem only_writers_change_a_tenant:
  assumes "api_inv s" and "(outsider_step p)\<^sup>*\<^sup>* s t"
  shows "tenant_of p t = tenant_of p s"
  using tenants.run_isolated [OF assms(2,1)] by simp

theorem only_writers_change_a_tenant_witness:
  "tenant_of ''p2'' (snd label_request) = tenant_of ''p2'' two_tenants \<and> t_labels (snd label_request) \<noteq> []"
proof
  have "(outsider_step ''p2'')\<^sup>*\<^sup>* two_tenants (snd label_request)" using ada_labels by (rule r_into_rtranclp)
  from only_writers_change_a_tenant [OF two_tenants_inv this]
  show "tenant_of ''p2'' (snd label_request) = tenant_of ''p2'' two_tenants" .
  show "t_labels (snd label_request) \<noteq> []" using label_request_ok(2) by auto
qed

text \<open>
  C4: No sequence of requests to the staff API, the administrators'
  included, joins two platforms: the label of an issue belongs to the platform of the issue, a
  link has both ends on one platform, an issue is merged into one of its own platform, an
  incident names components of its own platform and its status is the last of its timeline.
\<close>

theorem platforms_stay_apart:
  assumes "api_inv s" and "staff_step\<^sup>*\<^sup>* s t"
  shows "labels_apart t \<and> merges_apart t \<and> links_local t \<and> status_inv t"
  using api_ts.reach_inv [OF assms(2,1)] by (simp add: api_inv_def apart_def)

theorem platforms_stay_apart_witness:
  "labels_apart (snd label_request) \<and> t_labels (snd label_request) \<noteq> []"
proof -
  have "staff_request demo_api plain_env (Some ''Bearer t'') (PlatformRoute ''p1'' (Labels (AddLabel ''bug'' None))) two_tenants
      = (fst label_request, snd label_request)" by (simp add: label_request_def)
  then have "staff_step\<^sup>*\<^sup>* two_tenants (snd label_request)"
    by (intro r_into_rtranclp staff_step.intros) (simp_all add: label_request_ok)
  from platforms_stay_apart [OF two_tenants_inv this] label_request_ok(2) show ?thesis by auto
qed

text \<open>
  A request without a valid bearer token is answered 401 and writes nothing, whatever the route.
\<close>

theorem nothing_without_a_token:
  assumes "fst (jwt_guard e (api_check a) (api_jwt_secret a) header s) = Inl err"
  shows "staff_request a e header r s = (Some (Unauthorized ''Unauthorized''), s)"
proof -
  have "verifyToken e check k tok s = (None, s') \<Longrightarrow> s' = s" for check k tok s'
    unfolding verifyToken_def upsertFromClaims_def
    by (auto simp: Let_def bind_res_Inr_iff split: if_splits option.splits sum.splits)
  with assms show ?thesis
    unfolding staff_request_def jwt_guard_def Let_def by (auto split: prod.splits if_splits option.splits)
qed

end
