(* ===== verification/Failures.thy ===== *)
theory Failures
  imports Issues
begin

text \<open>
  A failure from the throw to the screen. The exception filter of the server
  (\<^verbatim>\<open>common/filters/http-exception.filter.ts\<close>) turns whatever was thrown into a response
  body; the axios interceptors of the browser (\<^verbatim>\<open>frontend/src/api/client.ts\<close>) react to the
  three authentication statuses, and the mutation handlers
  (\<^verbatim>\<open>frontend/src/lib/api-error.ts\<close>, \<^verbatim>\<open>lib/toast-error.ts\<close>) put the rest into words. The
  lemmas follow one exception through the whole chain.
\<close>

section \<open>The exception filter\<close>

text \<open>
  What the filter tells apart: an \<^verbatim>\<open>HttpException\<close> (its status, class name, message and
  response body), the two errors of typeorm, any other \<^verbatim>\<open>Error\<close>, and a value that is not
  one (already stringified). A body is a string, an object with an optional \<^verbatim>\<open>message\<close> and
  \<^verbatim>\<open>error\<close>, or neither.
\<close>

datatype message = One string | Many "string list"

datatype exc_body =
    BodyText string
  | BodyObject "message option" "string option"
  | BodyOther

datatype thrown =
    HttpException nat string string exc_body
  | OptimisticLockMismatch
  | QueryFailed "string option" string
  | PlainError string
  | NonError string

record error_body =
  eb_status :: nat
  eb_message :: message
  eb_error :: string
  eb_timestamp :: time
  eb_path :: string

datatype log_line = LogError string | LogWarn nat string

definition CONFLICT_LINE :: string where
  "CONFLICT_LINE = ''This issue was changed by someone else. Reload and try again.''"

definition THROTTLE_LINE :: string where
  "THROTTLE_LINE = ''You are making requests too quickly. Please wait a moment and try again.''"

text \<open>Status, message, error label and the log lines of the first half of the filter.\<close>

fun classify :: "thrown \<Rightarrow> nat \<times> message \<times> string \<times> log_line list" where
  "classify (HttpException st name msg body) =
     (case body of
        BodyText b \<Rightarrow> (st, One b, name, [])
      | BodyObject m er \<Rightarrow>
          (st, (case m of Some x \<Rightarrow> x | None \<Rightarrow> One msg), (case er of Some x \<Rightarrow> x | None \<Rightarrow> name), [])
      | BodyOther \<Rightarrow> (st, One ''Internal server error'', ''Internal Server Error'', []))"
| "classify OptimisticLockMismatch = (409, One CONFLICT_LINE, ''Conflict'', [])"
| "classify (QueryFailed c msg) =
     (if c = Some ''22P02'' then (400, One ''Malformed request parameter.'', ''Bad Request'', [])
      else (500, One ''Internal server error'', ''Internal Server Error'', [LogError msg]))"
| "classify (PlainError msg) = (500, One ''Internal server error'', ''Internal Server Error'', [LogError msg])"
| "classify (NonError v) =
     (500, One ''Internal server error'', ''Internal Server Error'', [LogError (''Non-error exception: '' @ v)])"

definition filter_catch :: "time \<Rightarrow> string \<Rightarrow> string \<Rightarrow> string \<Rightarrow> thrown \<Rightarrow> error_body \<times> log_line list" where
  "filter_catch t meth original_url url x =
     (let (st, m, er, logs) = classify x;
          (m', er') = (if st = 429 then (One THROTTLE_LINE, ''Too Many Requests'') else (m, er));
          logs' = logs @ (if st = 401 \<or> st = 403 then [LogWarn st (meth @ '' '' @ original_url)] else [])
      in (\<lparr>eb_status = st, eb_message = m', eb_error = er', eb_timestamp = t, eb_path = url\<rparr>, logs'))"

text \<open>What the built-in exceptions of the framework carry, for the exceptions of the services.\<close>

fun http_status :: "http_error \<Rightarrow> nat" where
  "http_status (BadRequest _) = 400"
| "http_status (Unauthorized _) = 401"
| "http_status (Forbidden _) = 403"
| "http_status (NotFound _) = 404"
| "http_status (Conflict _) = 409"
| "http_status (Unprocessable _) = 422"
| "http_status (TooManyRequests _) = 429"
| "http_status (InternalError _) = 500"

definition carries_message :: "(http_error \<Rightarrow> thrown) \<Rightarrow> bool" where
  "carries_message raise =
     (\<forall>e. \<exists>name er. raise e = HttpException (http_status e) name (err_message e)
            (BodyObject (Some (One (err_message e))) er))"

section \<open>What the browser receives\<close>

text \<open>
  An axios error: the status and the \<^verbatim>\<open>message\<close> of the body when a response came back,
  nothing when the request never got one.
\<close>

type_synonym axios_error = "(nat \<times> message option) option"

definition as_axios :: "error_body \<Rightarrow> axios_error" where
  "as_axios b = Some (eb_status b, Some (eb_message b))"

definition GLOBALLY_TOASTED :: "nat list" where
  "GLOBALLY_TOASTED = [401, 403, 429]"

definition httpStatus :: "axios_error \<Rightarrow> nat option" where
  "httpStatus e = map_option fst e"

definition is_letter :: "char \<Rightarrow> bool" where
  "is_letter c = (is_lower c \<or> is_upper c)"

text \<open>
  \<^verbatim>\<open>replace(/^[A-Za-z]*Exception:\s*/, '')\<close>: a colon ends the run of letters, so the
  pattern matches exactly when the first run ends in \<^verbatim>\<open>Exception\<close> and a colon follows.
\<close>

definition strip_exception :: "string \<Rightarrow> string" where
  "strip_exception s =
     (let w = takeWhile is_letter s; r = dropWhile is_letter s in
      if ends_with ''Exception'' w \<and> starts_with '':'' r then dropWhile is_ws (tl r) else s)"

fun message_text :: "message \<Rightarrow> string" where
  "message_text (One s) = s"
| "message_text (Many ss) = join_with '' '' (filter (\<lambda>s. s \<noteq> []) ss)"

definition serverMessage :: "axios_error \<Rightarrow> string option" where
  "serverMessage e =
     (case e of
        Some (_, Some m) \<Rightarrow>
          (let cleaned = js_trim (strip_exception (message_text m)) in
           if cleaned = [] then None else Some cleaned)
      | _ \<Rightarrow> None)"

definition quote_s :: string where
  "quote_s = [CHR 0x27]"

definition STATUS_TEXT :: "nat \<Rightarrow> string option" where
  "STATUS_TEXT n = map_of
     [(0, ''Can'' @ quote_s @ ''t reach the server '' @ long_dash @ '' check your connection and try again.''),
      (400, ''Something about that request was invalid. Please check and try again.''),
      (401, ''Your session has expired. Please sign in again.''),
      (403, ''You don'' @ quote_s @ ''t have access to that.''),
      (404, ''That couldn'' @ quote_s @ ''t be found '' @ long_dash @ '' it may have been moved or deleted.''),
      (408, ''The request timed out. Please try again.''),
      (409, ''This was changed elsewhere. Reload and try again.''),
      (413, ''That upload is too large.''),
      (422, ''That action isn'' @ quote_s @ ''t allowed right now.''),
      (429, ''You'' @ quote_s @ ''re doing that a little too fast '' @ long_dash @ '' wait a moment and try again.''),
      (500, ''Something went wrong on our end. Please try again in a moment.''),
      (502, ''The server is unreachable right now. Please try again shortly.''),
      (503, ''The service is temporarily unavailable. Please try again shortly.''),
      (504, ''The server took too long to respond. Please try again.'')] n"

definition PREFER_SERVER_MESSAGE :: "nat list" where
  "PREFER_SERVER_MESSAGE = [400, 404, 409, 422]"

definition friendlyError :: "axios_error \<Rightarrow> string \<Rightarrow> string" where
  "friendlyError e fallback =
     (let status = (case httpStatus e of Some n \<Rightarrow> n | None \<Rightarrow> 0) in
      case (if status \<in> set PREFER_SERVER_MESSAGE then serverMessage e else None) of
        Some m \<Rightarrow> m
      | None \<Rightarrow> (case STATUS_TEXT status of
          Some x \<Rightarrow> x
        | None \<Rightarrow> (case serverMessage e of Some m \<Rightarrow> m | None \<Rightarrow> fallback)))"

section \<open>Handlers of failed mutations\<close>

definition is_globally_toasted :: "axios_error \<Rightarrow> bool" where
  "is_globally_toasted e = (case httpStatus e of Some n \<Rightarrow> n \<in> set GLOBALLY_TOASTED | None \<Rightarrow> False)"

definition toastApiError :: "axios_error \<Rightarrow> string list" where
  "toastApiError e = (if is_globally_toasted e then [] else [friendlyError e ''Action failed.''])"

text \<open>The toasts shown, and whether \<^verbatim>\<open>onConflict\<close> (the refetch) is called.\<close>

definition toastMutationError :: "axios_error \<Rightarrow> string list \<times> bool" where
  "toastMutationError e =
     (if httpStatus e = Some 409
      then ([''This changed elsewhere '' @ long_dash @ '' reloaded, try again.''], True)
      else (toastApiError e, False))"

section \<open>The interceptors\<close>

text \<open>
  The state of \<^verbatim>\<open>api/client.ts\<close>: when the last authentication toast was shown (the clock is
  the milliseconds of \<^verbatim>\<open>Date.now()\<close>), the toasts on screen with their time, and whether the
  session handlers ran: the staff sign-out and the dropping of the reporter's token.
\<close>

record client_state =
  cl_lastAuthToastAt :: time
  cl_toasts :: "(time \<times> string) list"
  cl_signed_out :: bool
  cl_handoff_dropped :: bool

definition client_init :: client_state where
  "client_init = \<lparr>cl_lastAuthToastAt = 0, cl_toasts = [], cl_signed_out = False, cl_handoff_dropped = False\<rparr>"

definition AUTH_TOAST_WINDOW :: time where
  "AUTH_TOAST_WINDOW = 3000"

definition authToast :: "time \<Rightarrow> string \<Rightarrow> client_state \<Rightarrow> client_state" where
  "authToast t m c =
     (if t - cl_lastAuthToastAt c < AUTH_TOAST_WINDOW then c
      else c\<lparr>cl_lastAuthToastAt := t, cl_toasts := cl_toasts c @ [(t, m)]\<rparr>)"

definition staff_interceptor :: "time \<Rightarrow> axios_error \<Rightarrow> client_state \<Rightarrow> client_state" where
  "staff_interceptor t e c =
     (if httpStatus e = Some 401
      then (authToast t ''Your session has expired. Please sign in again.'' c)\<lparr>cl_signed_out := True\<rparr>
      else if httpStatus e = Some 403
      then authToast t (''You don'' @ quote_s @ ''t have access to that.'') c
      else if httpStatus e = Some 429
      then authToast t (''You'' @ quote_s @ ''re doing that a little too fast '' @ long_dash
             @ '' wait a moment and try again.'') c
      else c)"

definition reporter_interceptor :: "time \<Rightarrow> axios_error \<Rightarrow> client_state \<Rightarrow> client_state" where
  "reporter_interceptor t e c =
     (if httpStatus e = Some 401
      then authToast t ''Your support session has expired. Please reopen support from your portal.''
             (c\<lparr>cl_handoff_dropped := True\<rparr>)
      else if httpStatus e = Some 403
      then authToast t (''You don'' @ quote_s @ ''t have access to that.'') c
      else if httpStatus e = Some 429
      then authToast t (''You'' @ quote_s @ ''re sending requests too quickly '' @ long_dash
             @ '' wait a moment and try again.'') c
      else c)"

text \<open>A failed staff mutation: the interceptor first, then the handler of the call.\<close>

definition show_all :: "time \<Rightarrow> string list \<Rightarrow> client_state \<Rightarrow> client_state" where
  "show_all t ms c = c\<lparr>cl_toasts := cl_toasts c @ map (Pair t) ms\<rparr>"

definition staff_mutation_fails :: "time \<Rightarrow> axios_error \<Rightarrow> client_state \<Rightarrow> client_state" where
  "staff_mutation_fails t e c = show_all t (fst (toastMutationError e)) (staff_interceptor t e c)"

definition staff_call_fails :: "time \<Rightarrow> axios_error \<Rightarrow> client_state \<Rightarrow> client_state" where
  "staff_call_fails t e c = show_all t (toastApiError e) (staff_interceptor t e c)"

section \<open>Internals stay on the server\<close>

text \<open>The throws nobody planned: everything the filter answers with a generic 500.\<close>

fun unplanned :: "thrown \<Rightarrow> bool" where
  "unplanned (HttpException _ _ _ _) = False"
| "unplanned OptimisticLockMismatch = False"
| "unplanned (QueryFailed c _) = (c \<noteq> Some ''22P02'')"
| "unplanned (PlainError _) = True"
| "unplanned (NonError _) = True"

text \<open>What the operators find in the log: the message, also of a thrown value that is no error.\<close>

fun log_text :: "thrown \<Rightarrow> string" where
  "log_text (HttpException _ _ m _) = m"
| "log_text OptimisticLockMismatch = ''''"
| "log_text (QueryFailed _ m) = m"
| "log_text (PlainError m) = m"
| "log_text (NonError v) = ''Non-error exception: '' @ v"

lemma classify_unplanned:
  "unplanned x \<Longrightarrow> classify x = (500, One ''Internal server error'', ''Internal Server Error'', [LogError (log_text x)])"
  by (cases x) auto

lemma filter_unplanned:
  assumes "unplanned x"
  shows "filter_catch t meth ou url x =
    (\<lparr>eb_status = 500, eb_message = One ''Internal server error'', eb_error = ''Internal Server Error'',
      eb_timestamp = t, eb_path = url\<rparr>, [LogError (log_text x)])"
  using classify_unplanned [OF assms] by (auto simp: filter_catch_def)

lemma friendlyError_500:
  "friendlyError (Some (500, m)) fb = ''Something went wrong on our end. Please try again in a moment.''"
  by (simp add: friendlyError_def httpStatus_def PREFER_SERVER_MESSAGE_def STATUS_TEXT_def)

text \<open>
  C6: Whatever unplanned value is thrown, the response is the same
  (so it reveals nothing of the value), its message is logged exactly once, and the browser
  shows one fixed sentence.
\<close>

theorem internals_stay_on_the_server:
  assumes "unplanned x" and "unplanned y"
  shows "fst (filter_catch t meth ou url x) = fst (filter_catch t meth ou url y)
    \<and> snd (filter_catch t meth ou url x) = [LogError (log_text x)]
    \<and> toastApiError (as_axios (fst (filter_catch t meth ou url x)))
        = [''Something went wrong on our end. Please try again in a moment.'']"
  using filter_unplanned [OF assms(1), of t meth ou url] filter_unplanned [OF assms(2), of t meth ou url]
  by (auto simp: toastApiError_def is_globally_toasted_def GLOBALLY_TOASTED_def as_axios_def
      httpStatus_def friendlyError_500)

theorem internals_stay_on_the_server_witness:
  "fst (filter_catch 5 ''GET'' ''/a'' ''/a'' (PlainError ''password=hunter2'')) =
   fst (filter_catch 5 ''GET'' ''/a'' ''/a'' (QueryFailed (Some ''23505'') ''duplicate key''))"
  using internals_stay_on_the_server [of "PlainError ''password=hunter2''" "QueryFailed (Some ''23505'') ''duplicate key''"
      5 "''GET''" "''/a''" "''/a''"] by simp

section \<open>Domain messages reach the screen\<close>

text \<open>A message in words: trimmed, not empty, and without the name of an exception in front.\<close>

definition in_words :: "string \<Rightarrow> bool" where
  "in_words m = (m \<noteq> [] \<and> js_trim m = m \<and> strip_exception m = m)"

lemma filter_http:
  "carries_message raise \<Longrightarrow>
   \<exists>er. fst (filter_catch t meth ou url (raise e)) =
     \<lparr>eb_status = http_status e,
      eb_message = One (if http_status e = 429 then THROTTLE_LINE else err_message e),
      eb_error = er, eb_timestamp = t, eb_path = url\<rparr>"
proof -
  assume "carries_message raise"
  then obtain name er where "raise e = HttpException (http_status e) name (err_message e)
      (BodyObject (Some (One (err_message e))) er)"
    unfolding carries_message_def by blast
  then show ?thesis by (auto simp: filter_catch_def Let_def)
qed

lemma serverMessage_in_words: "in_words m \<Longrightarrow> serverMessage (Some (n, Some (One m))) = Some m"
  by (simp add: serverMessage_def in_words_def)

lemma friendly_domain:
  "in_words m \<Longrightarrow> n \<in> set PREFER_SERVER_MESSAGE \<Longrightarrow> friendlyError (Some (n, Some (One m))) fb = m"
  by (simp add: friendlyError_def httpStatus_def serverMessage_in_words)

lemma friendly_other:
  "n \<notin> set PREFER_SERVER_MESSAGE \<Longrightarrow> STATUS_TEXT n = Some x \<Longrightarrow> friendlyError (Some (n, m)) fb = x"
  by (simp add: friendlyError_def httpStatus_def)

lemma http_status_cases:
  "http_status e \<in> {400, 401, 403, 404, 409, 422, 429, 500}"
  by (cases e) auto

text \<open>
  The error of a service, sent through the filter, ends on screen as
  the code intends: the four domain statuses show the message of the service word for word
  (a conflict shows the reload line and refetches), the authentication statuses are left to
  the interceptor, and an internal error shows the fixed sentence.
\<close>

theorem domain_errors_are_shown:
  assumes "carries_message raise" and "in_words (err_message e)"
  shows "toastMutationError (as_axios (fst (filter_catch t meth ou url (raise e)))) =
    (case e of
       BadRequest m \<Rightarrow> ([m], False)
     | NotFound m \<Rightarrow> ([m], False)
     | Unprocessable m \<Rightarrow> ([m], False)
     | Conflict m \<Rightarrow> ([''This changed elsewhere '' @ long_dash @ '' reloaded, try again.''], True)
     | InternalError m \<Rightarrow> ([''Something went wrong on our end. Please try again in a moment.''], False)
     | _ \<Rightarrow> ([], False))"
proof -
  obtain er where b: "fst (filter_catch t meth ou url (raise e)) =
     \<lparr>eb_status = http_status e,
      eb_message = One (if http_status e = 429 then THROTTLE_LINE else err_message e),
      eb_error = er, eb_timestamp = t, eb_path = url\<rparr>"
    using filter_http [OF assms(1)] by blast
  have ax: "as_axios (fst (filter_catch t meth ou url (raise e)))
      = Some (http_status e, Some (One (if http_status e = 429 then THROTTLE_LINE else err_message e)))"
    by (simp add: b as_axios_def)
  show ?thesis
    unfolding ax using assms(2)
    by (cases e) (simp_all add: toastMutationError_def toastApiError_def httpStatus_def
        is_globally_toasted_def GLOBALLY_TOASTED_def friendly_domain PREFER_SERVER_MESSAGE_def friendlyError_500)
qed

definition nest :: "http_error \<Rightarrow> thrown" where
  "nest e = HttpException (http_status e) ''HttpException'' (err_message e)
     (BodyObject (Some (One (err_message e))) None)"

lemma nest_carries: "carries_message nest"
  by (auto simp: carries_message_def nest_def)

theorem domain_errors_are_shown_witness:
  "toastMutationError (as_axios (fst (filter_catch 0 ''PATCH'' ''/x'' ''/x''
      (nest (Unprocessable ''Issue is already in that status.''))))) = ([''Issue is already in that status.''], False)"
proof -
  have "in_words (err_message (Unprocessable ''Issue is already in that status.''))" by code_simp
  from domain_errors_are_shown [OF nest_carries this, of 0 "''PATCH''" "''/x''" "''/x''"] show ?thesis by simp
qed

section \<open>One line per failure\<close>

lemma authToast_toasts:
  "cl_toasts (authToast t m c) = cl_toasts c @ (if t - cl_lastAuthToastAt c < AUTH_TOAST_WINDOW then [] else [(t, m)])"
  by (simp add: authToast_def)

lemma staff_interceptor_toasts:
  "length (cl_toasts (staff_interceptor t e c)) = length (cl_toasts c)
     + (if is_globally_toasted e \<and> AUTH_TOAST_WINDOW \<le> t - cl_lastAuthToastAt c then 1 else 0)"
  by (cases "httpStatus e")
    (auto simp: staff_interceptor_def authToast_toasts is_globally_toasted_def GLOBALLY_TOASTED_def)

text \<open>
  A failed staff mutation adds exactly one line to the screen, the
  interceptor and the handler together, or none when an authentication toast is less than
  three seconds old; only a 401 signs the user out, and only a 409 asks for the refetch.
\<close>

theorem failures_are_shown_once:
  "length (cl_toasts (staff_mutation_fails t e c)) = length (cl_toasts c)
      + (if is_globally_toasted e \<and> t - cl_lastAuthToastAt c < AUTH_TOAST_WINDOW then 0 else 1)
   \<and> cl_signed_out (staff_mutation_fails t e c) = (cl_signed_out c \<or> httpStatus e = Some 401)
   \<and> snd (toastMutationError e) = (httpStatus e = Some 409)"
proof -
  have "length (fst (toastMutationError e)) = (if is_globally_toasted e then 0 else 1)"
    by (auto simp: toastMutationError_def toastApiError_def is_globally_toasted_def GLOBALLY_TOASTED_def)
  moreover have "cl_signed_out (staff_interceptor t e c) = (cl_signed_out c \<or> httpStatus e = Some 401)"
    by (auto simp: staff_interceptor_def authToast_def)
  moreover have "snd (toastMutationError e) = (httpStatus e = Some 409)"
    by (simp add: toastMutationError_def)
  ultimately show ?thesis
    using staff_interceptor_toasts [of t e c]
    by (simp add: staff_mutation_fails_def show_all_def)
qed

section \<open>Bursts\<close>

text \<open>The failures of a page that fires many requests: which client, when, and the error.\<close>

datatype call = StaffCall time axios_error | ReporterCall time axios_error

fun call_time :: "call \<Rightarrow> time" where
  "call_time (StaffCall t e) = t"
| "call_time (ReporterCall t e) = t"

fun call_error :: "call \<Rightarrow> axios_error" where
  "call_error (StaffCall t e) = e"
| "call_error (ReporterCall t e) = e"

fun intercept :: "call \<Rightarrow> client_state \<Rightarrow> client_state" where
  "intercept (StaffCall t e) c = staff_interceptor t e c"
| "intercept (ReporterCall t e) c = reporter_interceptor t e c"

definition burst :: "call list \<Rightarrow> client_state \<Rightarrow> client_state" where
  "burst xs c = fold intercept xs c"

definition spaced :: "client_state \<Rightarrow> bool" where
  "spaced c = (sorted_wrt (\<lambda>a b. fst a + AUTH_TOAST_WINDOW \<le> fst b) (cl_toasts c)
     \<and> (\<forall>x \<in> set (cl_toasts c). fst x \<le> cl_lastAuthToastAt c))"

lemma authToast_spaced: "spaced c \<Longrightarrow> spaced (authToast t m c)"
  by (auto simp: spaced_def authToast_def sorted_wrt_append AUTH_TOAST_WINDOW_def)

lemma spaced_cong: "spaced (c\<lparr>cl_signed_out := a\<rparr>) = spaced c" "spaced (c\<lparr>cl_handoff_dropped := a\<rparr>) = spaced c"
  by (simp_all add: spaced_def)

lemma intercept_spaced: "spaced c \<Longrightarrow> spaced (intercept x c)"
  by (cases x) (auto simp: staff_interceptor_def reporter_interceptor_def authToast_spaced spaced_cong)

lemma burst_spaced: "spaced c \<Longrightarrow> spaced (burst xs c)"
  unfolding burst_def by (induction xs arbitrary: c) (auto intro: intercept_spaced)

lemma intercept_last:
  "cl_lastAuthToastAt (intercept x c) =
     (if is_globally_toasted (call_error x) \<and> AUTH_TOAST_WINDOW \<le> call_time x - cl_lastAuthToastAt c
      then call_time x else cl_lastAuthToastAt c)"
  by (cases x; cases "httpStatus (call_error x)")
    (auto simp: staff_interceptor_def reporter_interceptor_def authToast_def is_globally_toasted_def GLOBALLY_TOASTED_def)

lemma intercept_keeps: "set (cl_toasts c) \<subseteq> set (cl_toasts (intercept x c))"
  by (cases x) (auto simp: staff_interceptor_def reporter_interceptor_def authToast_def)

lemma intercept_last_shown:
  "is_globally_toasted (call_error x) \<Longrightarrow> AUTH_TOAST_WINDOW \<le> call_time x - cl_lastAuthToastAt c \<Longrightarrow>
   call_time x \<in> fst ` set (cl_toasts (intercept x c))"
  by (cases x; cases "httpStatus (call_error x)")
    (auto simp: staff_interceptor_def reporter_interceptor_def authToast_def is_globally_toasted_def GLOBALLY_TOASTED_def)

definition last_is_shown :: "client_state \<Rightarrow> bool" where
  "last_is_shown c = (cl_lastAuthToastAt c \<in> insert 0 (fst ` set (cl_toasts c)))"

lemma intercept_last_is_shown: "last_is_shown c \<Longrightarrow> last_is_shown (intercept x c)"
  using intercept_keeps [of c x] intercept_last_shown [of x c]
  by (auto simp: last_is_shown_def intercept_last)

lemma burst_last_is_shown: "last_is_shown c \<Longrightarrow> last_is_shown (burst xs c)"
  unfolding burst_def by (induction xs arbitrary: c) (auto intro: intercept_last_is_shown)

text \<open>
  However many requests of both clients fail at once, two
  authentication toasts are at least three seconds apart; and none is lost: after a failure
  (on a clock past its first three seconds) a toast no older than that is on screen.
\<close>

theorem auth_toasts_are_rationed:
  assumes "is_globally_toasted (call_error x)" and "AUTH_TOAST_WINDOW \<le> call_time x"
  shows "sorted_wrt (\<lambda>a b. fst a + AUTH_TOAST_WINDOW \<le> fst b) (cl_toasts (burst (xs @ [x]) client_init))
    \<and> (\<exists>m \<in> set (cl_toasts (burst (xs @ [x]) client_init)). call_time x - AUTH_TOAST_WINDOW < fst m)"
proof -
  let ?c = "burst xs client_init" and ?d = "burst (xs @ [x]) client_init"
  have d: "?d = intercept x ?c" by (simp add: burst_def)
  have s: "spaced ?d" by (rule burst_spaced) (simp add: spaced_def client_init_def)
  have l: "last_is_shown ?d" by (rule burst_last_is_shown) (simp add: last_is_shown_def client_init_def)
  have "call_time x - AUTH_TOAST_WINDOW < cl_lastAuthToastAt ?d"
    unfolding d intercept_last using assms(1) by (simp add: AUTH_TOAST_WINDOW_def)
  moreover from this assms(2) have "cl_lastAuthToastAt ?d \<noteq> 0" by simp
  moreover obtain m where "m \<in> set (cl_toasts ?d)" and "fst m = cl_lastAuthToastAt ?d"
    using l calculation(2) unfolding last_is_shown_def by (metis imageE insertE)
  ultimately have "\<exists>m \<in> set (cl_toasts ?d). call_time x - AUTH_TOAST_WINDOW < fst m" by (metis (no_types))
  with s show ?thesis unfolding spaced_def by (rule conjI [OF conjunct1])
qed

theorem auth_toasts_are_rationed_witness:
  "\<exists>m \<in> set (cl_toasts (burst ([StaffCall 9000 (Some (401, None))] @ [ReporterCall 9100 (Some (403, None))]) client_init)).
     9100 - AUTH_TOAST_WINDOW < fst m"
  using auth_toasts_are_rationed [of "ReporterCall 9100 (Some (403, None))" "[StaffCall 9000 (Some (401, None))]"]
  by (simp add: is_globally_toasted_def httpStatus_def GLOBALLY_TOASTED_def AUTH_TOAST_WINDOW_def)

end
