(* ===== verification/ClientSession.thy ===== *)
theory ClientSession
  imports Realtime
begin

text \<open>
  Who the browser is. The reporter's hand-off token and the cached data it must not outlive
  (\<^verbatim>\<open>frontend/src/api/handoff.ts\<close>), the staff token shared by several instances of one module
  (\<^verbatim>\<open>api/client.ts\<close>, \<^verbatim>\<open>staff/local-auth.tsx\<close>), the diagnostics fragment of the address
  (\<^verbatim>\<open>api/diagnostics.ts\<close>), and the client of the event stream with its reconnections
  (\<^verbatim>\<open>lib/realtime.ts\<close>), an inductive step relation. The query cache of the library is a list
  of owners: under which token each cached or pending answer was asked for.
\<close>

section \<open>The reporter's token\<close>

record reporter_tab =
  tab_token :: "string option"
  tab_handler :: bool
  tab_cached :: "string option list"
  tab_pending :: "string option list"

text \<open>
  Emptying the query cache is the library's: the functions take it as the argument \<^verbatim>\<open>clear\<close>.
  It drops the cached answers and detaches the pending requests, so that their answers are not
  written to it.
\<close>

definition clears :: "(reporter_tab \<Rightarrow> reporter_tab) \<Rightarrow> bool" where
  "clears clear = (\<forall>r. clear r = r\<lparr>tab_cached := [], tab_pending := []\<rparr>)"

definition identity_changed :: "(reporter_tab \<Rightarrow> reporter_tab) \<Rightarrow> reporter_tab \<Rightarrow> reporter_tab" where
  "identity_changed clear r = (if tab_handler r then clear r else r)"

definition storeToken :: "(reporter_tab \<Rightarrow> reporter_tab) \<Rightarrow> string \<Rightarrow> reporter_tab \<Rightarrow> reporter_tab" where
  "storeToken clear tok r =
     (let previous = tab_token r; r1 = r\<lparr>tab_token := Some tok\<rparr> in
      if previous \<noteq> None \<and> previous \<noteq> Some tok then identity_changed clear r1 else r1)"

definition getHandoffToken :: "reporter_tab \<Rightarrow> string option" where
  "getHandoffToken r = tab_token r"

definition setHandoffToken :: "(reporter_tab \<Rightarrow> reporter_tab) \<Rightarrow> string \<Rightarrow> reporter_tab \<Rightarrow> reporter_tab" where
  "setHandoffToken clear tok r = storeToken clear tok r"

definition clearHandoffToken :: "(reporter_tab \<Rightarrow> reporter_tab) \<Rightarrow> reporter_tab \<Rightarrow> reporter_tab" where
  "clearHandoffToken clear r =
     (let had = tab_token r \<noteq> None; r1 = r\<lparr>tab_token := None\<rparr> in
      if had then identity_changed clear r1 else r1)"

text \<open>The allow-list: the own origin and the entries of \<^verbatim>\<open>VITE_PORTAL_ORIGINS\<close>.\<close>

definition allowedOrigins :: "string \<Rightarrow> string option \<Rightarrow> string list" where
  "allowedOrigins own portal_origins =
     own # filter (\<lambda>x. x \<noteq> []) (map js_trim (split_char (CHR '','')
       (case portal_origins of Some x \<Rightarrow> x | None \<Rightarrow> [])))"

text \<open>
  At start: the handler is installed and the \<^verbatim>\<open>handoff\<close> parameter of the address is taken
  (and removed from it: the flag).
\<close>

definition captureHandoffToken ::
  "(reporter_tab \<Rightarrow> reporter_tab) \<Rightarrow> bool \<Rightarrow> string option \<Rightarrow> reporter_tab \<Rightarrow> reporter_tab \<times> bool" where
  "captureHandoffToken clear handler from_query r =
     (let r1 = r\<lparr>tab_handler := handler\<rparr> in
      case truthy from_query of
        Some tok \<Rightarrow> (storeToken clear tok r1, True)
      | None \<Rightarrow> (r1, False))"

record post_data =
  pd_type :: "string option"
  pd_token :: "string option"

definition on_message ::
  "(reporter_tab \<Rightarrow> reporter_tab) \<Rightarrow> string list \<Rightarrow> string \<Rightarrow> post_data option \<Rightarrow> reporter_tab \<Rightarrow> reporter_tab" where
  "on_message clear allowed origin data r =
     (if origin \<notin> set allowed then r
      else case data of
        None \<Rightarrow> r
      | Some d \<Rightarrow>
          (case pd_token d of
             Some tok \<Rightarrow> if pd_type d = Some ''handoff'' then storeToken clear tok r else r
           | None \<Rightarrow> r))"

text \<open>
  Requests: the interceptor sends the token of the moment; the answer of a request that is
  still attached is cached under it; a 401 answers any request, detached ones included.
\<close>

definition header_of :: "reporter_tab \<Rightarrow> string option" where
  "header_of r = truthy (getHandoffToken r)"

datatype tab_event =
    Capture "string option"
  | Message string "post_data option"
  | SetToken string
  | SendQuery
  | Answered "string option"
  | Refused

fun tab_step :: "(reporter_tab \<Rightarrow> reporter_tab) \<Rightarrow> string list \<Rightarrow> tab_event \<Rightarrow> reporter_tab \<Rightarrow> reporter_tab" where
  "tab_step clear allowed (Capture q) r = fst (captureHandoffToken clear True q r)"
| "tab_step clear allowed (Message origin d) r = on_message clear allowed origin d r"
| "tab_step clear allowed (SetToken tok) r = setHandoffToken clear tok r"
| "tab_step clear allowed SendQuery r = r\<lparr>tab_pending := header_of r # tab_pending r\<rparr>"
| "tab_step clear allowed (Answered h) r =
     (if h \<in> set (tab_pending r)
      then r\<lparr>tab_cached := h # tab_cached r, tab_pending := remove1 h (tab_pending r)\<rparr> else r)"
| "tab_step clear allowed Refused r = clearHandoffToken clear r"

definition tab_run :: "(reporter_tab \<Rightarrow> reporter_tab) \<Rightarrow> string list \<Rightarrow> tab_event list \<Rightarrow> reporter_tab \<Rightarrow> reporter_tab" where
  "tab_run clear allowed evs r = fold (tab_step clear allowed) evs r"

text \<open>A page load: empty cache, whatever token the tab's storage holds, the handler installed.\<close>

definition tab_load :: "(reporter_tab \<Rightarrow> reporter_tab) \<Rightarrow> string option \<Rightarrow> string option \<Rightarrow> reporter_tab" where
  "tab_load clear stored q =
     fst (captureHandoffToken clear True q \<lparr>tab_token = stored, tab_handler = False, tab_cached = [], tab_pending = []\<rparr>)"

definition owned :: "reporter_tab \<Rightarrow> bool" where
  "owned r = (tab_handler r
     \<and> (\<forall>h \<in> set (tab_cached r) \<union> set (tab_pending r). h = None \<or> h = tab_token r))"

lemma storeToken_owned: "clears clear \<Longrightarrow> owned r \<Longrightarrow> owned (storeToken clear tok r)"
  by (cases "tab_token r") (auto simp: storeToken_def identity_changed_def clears_def owned_def Let_def)

lemma clearHandoffToken_owned: "clears clear \<Longrightarrow> owned r \<Longrightarrow> owned (clearHandoffToken clear r)"
  by (cases "tab_token r") (auto simp: clearHandoffToken_def identity_changed_def clears_def owned_def Let_def)

lemma capture_owned:
  "clears clear \<Longrightarrow> owned (r\<lparr>tab_handler := True\<rparr>) \<Longrightarrow> owned (fst (captureHandoffToken clear True q r))"
  by (auto simp: captureHandoffToken_def Let_def storeToken_owned split: option.split)

lemma header_of_cases: "header_of r = None \<or> header_of r = tab_token r"
  by (auto simp: header_of_def getHandoffToken_def truthy_def split: option.splits)

lemma tab_step_owned:
  assumes "clears clear" and "owned r"
  shows "owned (tab_step clear allowed ev r)"
proof (cases ev)
  case (Capture q)
  have "owned (r\<lparr>tab_handler := True\<rparr>)" using assms(2) by (simp add: owned_def)
  with Capture show ?thesis by (simp add: capture_owned [OF assms(1)])
next
  case (Message origin d)
  with assms show ?thesis by (simp add: on_message_def storeToken_owned split: option.split)
next
  case (SetToken tok)
  with assms show ?thesis by (simp add: setHandoffToken_def storeToken_owned)
next
  case SendQuery
  with assms(2) header_of_cases [of r] show ?thesis by (auto simp: owned_def)
next
  case (Answered h)
  with assms(2) show ?thesis by (auto simp: owned_def dest: set_remove1_subset [THEN subsetD])
next
  case Refused
  with assms show ?thesis by (simp add: clearHandoffToken_owned)
qed

text \<open>
  C33: However a tab is handed from one reporter to the next
  (address, message of an allowed origin, expiry), every answer it still holds was asked for
  under the token it has now: the data of the previous reporter is gone.
\<close>

theorem no_data_of_the_previous_reporter:
  assumes "clears clear" and "Some tok \<in> set (tab_cached (tab_run clear allowed evs (tab_load clear stored q)))"
  shows "getHandoffToken (tab_run clear allowed evs (tab_load clear stored q)) = Some tok"
proof -
  have "owned (tab_load clear stored q)"
    unfolding tab_load_def by (rule capture_owned [OF assms(1)]) (simp add: owned_def)
  then have "owned (tab_run clear allowed evs (tab_load clear stored q))"
    unfolding tab_run_def by (rule fold_invariant [rotated]) (rule tab_step_owned [OF assms(1)])
  with assms(2) show ?thesis unfolding owned_def getHandoffToken_def by (metis UnI1 option.distinct(1))
qed

definition clear_tab :: "reporter_tab \<Rightarrow> reporter_tab" where
  "clear_tab r = r\<lparr>tab_cached := [], tab_pending := []\<rparr>"

definition handoff_message :: "string \<Rightarrow> tab_event" where
  "handoff_message tok = Message ''https://portal'' (Some \<lparr>pd_type = Some ''handoff'', pd_token = Some tok\<rparr>)"

theorem no_data_of_the_previous_reporter_witness:
  "getHandoffToken (tab_run clear_tab [''https://portal'']
     [SendQuery, Answered (Some ''A''), handoff_message ''B'', Answered (Some ''A''), SendQuery, Answered (Some ''B'')]
     (tab_load clear_tab None (Some ''A''))) = Some ''B''"
proof -
  have "clears clear_tab" by (simp add: clears_def clear_tab_def)
  moreover have "Some ''B'' \<in> set (tab_cached (tab_run clear_tab [''https://portal'']
     [SendQuery, Answered (Some ''A''), handoff_message ''B'', Answered (Some ''A''), SendQuery, Answered (Some ''B'')]
     (tab_load clear_tab None (Some ''A''))))"
    by code_simp
  ultimately show ?thesis by (rule no_data_of_the_previous_reporter)
qed

text \<open>
  The 401 of a request sent under the old token is not told apart from one of the new: it
  drops the token that was just handed over.
\<close>

lemma late_refusal_drops_the_new_token:
  "tab_token (tab_run clear_tab [''https://portal''] [SendQuery, handoff_message ''B'', Refused]
     (tab_load clear_tab None (Some ''A''))) = None"
  by code_simp

lemma foreign_origin_is_ignored:
  "origin \<notin> set (allowedOrigins own portals) \<Longrightarrow> tab_step clear (allowedOrigins own portals) (Message origin d) r = r"
  by (simp add: on_message_def)

section \<open>The staff token and the instances of one module\<close>

text \<open>
  The bundler may load \<^verbatim>\<open>api/client.ts\<close> twice, each copy with its own registered getter and
  handler; the login component registers with one of them. All copies share the tab's storage.
\<close>

record client_instance =
  ci_getter :: bool
  ci_handler :: bool

record staff_page =
  stab_current :: "string option"
  stab_storage :: "string option"
  stab_instances :: "client_instance list"

definition currentStaffToken :: "staff_page \<Rightarrow> client_instance \<Rightarrow> string option" where
  "currentStaffToken t i =
     (case (if ci_getter i then truthy (stab_current t) else None) of
        Some tok \<Rightarrow> Some tok
      | None \<Rightarrow> stab_storage t)"

text \<open>The header of a request sent through an instance.\<close>

definition bearer :: "staff_page \<Rightarrow> client_instance \<Rightarrow> string option" where
  "bearer t i = map_option (\<lambda>tok. ''Bearer '' @ tok) (truthy (currentStaffToken t i))"

definition setSession :: "string option \<Rightarrow> staff_page \<Rightarrow> staff_page" where
  "setSession tok t = t\<lparr>stab_current := tok, stab_storage := truthy tok\<rparr>"

text \<open>
  Login, sign-out, a 401 answered through an instance (whose handler may be the empty
  default), a page load, and the loading of one more copy of the module.
\<close>

datatype session_event =
    Login string
  | SignOut
  | Unauthorized_at nat
  | Reload "client_instance list"
  | Reinstance client_instance

fun session_step :: "session_event \<Rightarrow> staff_page \<Rightarrow> staff_page" where
  "session_step (Login tok) t = setSession (Some tok) t"
| "session_step SignOut t = setSession None t"
| "session_step (Unauthorized_at k) t =
     (if k < length (stab_instances t) \<and> ci_handler (stab_instances t ! k) then setSession None t else t)"
| "session_step (Reload is) t = t\<lparr>stab_current := stab_storage t, stab_instances := is\<rparr>"
| "session_step (Reinstance i) t = t\<lparr>stab_instances := stab_instances t @ [i]\<rparr>"

definition staff_page_init :: staff_page where
  "staff_page_init = \<lparr>stab_current = None, stab_storage = None, stab_instances = []\<rparr>"

definition session_inv :: "staff_page \<Rightarrow> bool" where
  "session_inv t = (truthy (stab_current t) = stab_storage t)"

lemma truthy_truthy: "truthy (truthy x) = truthy x"
  by (simp add: truthy_def split: option.splits)

lemma session_step_inv: "session_inv t \<Longrightarrow> session_inv (session_step ev t)"
  using truthy_truthy [of "stab_current t"] truthy_truthy [of None]
  by (cases ev) (auto simp: session_inv_def setSession_def)

lemma staff_run_inv: "session_inv (fold session_step evs staff_page_init)"
  by (rule fold_invariant, erule session_step_inv) (simp add: session_inv_def staff_page_init_def truthy_def)

lemma currentStaffToken_inv: "session_inv t \<Longrightarrow> currentStaffToken t i = stab_storage t"
  by (auto simp: currentStaffToken_def session_inv_def split: option.split)

text \<open>
  Whatever happened before, all copies of the module send
  the same header; after a login it is the bearer of that token, after a sign-out there is
  none.
\<close>

theorem every_instance_sends_the_session:
  "bearer (fold session_step evs staff_page_init) i = bearer (fold session_step evs staff_page_init) j
   \<and> bearer (fold session_step (evs @ [Login (c # cs)]) staff_page_init) i = Some (''Bearer '' @ c # cs)
   \<and> bearer (fold session_step (evs @ [SignOut]) staff_page_init) i = None"
  using staff_run_inv [of evs]
  by (simp add: bearer_def currentStaffToken_inv)
    (simp add: setSession_def currentStaffToken_def truthy_def)

text \<open>
  Signing out on a 401 is not shared: the copy without the handler keeps the dead session.
\<close>

lemma refusal_through_a_second_instance:
  "bearer (fold session_step [Reload [\<lparr>ci_getter = True, ci_handler = True\<rparr>, \<lparr>ci_getter = False, ci_handler = False\<rparr>],
      Login ''t'', Unauthorized_at 1] staff_page_init) \<lparr>ci_getter = False, ci_handler = False\<rparr> = Some ''Bearer t''"
  by code_simp

section \<open>The diagnostics fragment\<close>

definition diag_mark :: string where
  "diag_mark = ''cimpctx=''"

text \<open>
  The leftmost match of \<^verbatim>\<open>/[#&]cimpctx=([^&]+)/\<close>: what is before, the captured payload and
  what follows.
\<close>

fun cut_param :: "string \<Rightarrow> (string \<times> string \<times> string) option" where
  "cut_param [] = None"
| "cut_param (c # cs) =
     (let p = takeWhile (\<lambda>x. x \<noteq> CHR ''&'') (drop (length diag_mark) cs) in
      if (c = CHR ''#'' \<or> c = CHR ''&'') \<and> starts_with diag_mark cs \<and> p \<noteq> []
      then Some ([], p, drop (length diag_mark + length p) cs)
      else map_option (\<lambda>(b, q, a). (c # b, q, a)) (cut_param cs))"

text \<open>The new hash and the payload kept in the tab's storage.\<close>

definition captureDiagnosticsFragment :: "string \<Rightarrow> string option \<Rightarrow> string \<times> string option" where
  "captureDiagnosticsFragment hash stored =
     (case cut_param hash of
        None \<Rightarrow> (hash, stored)
      | Some (b, p, a) \<Rightarrow>
          (let s0 = b @ a;
               s1 = (if s0 \<noteq> [] \<and> \<not> starts_with ''#'' s0
                     then CHR ''#'' # (if starts_with ''&'' s0 then tl s0 else s0) else s0);
               s2 = (if s1 = ''#'' then [] else s1)
           in (s2, Some p)))"

text \<open>
  Decoding the payload: base64, gzip, UTF-8 and JSON are the platform's (\<^verbatim>\<open>None\<close>: it
  throws). \<^verbatim>\<open>slice(0, -1)\<close> of a payload without a dot drops its last character.
\<close>

fun first_index :: "char \<Rightarrow> string \<Rightarrow> nat option" where
  "first_index x [] = None"
| "first_index x (c # cs) = (if c = x then Some 0 else map_option Suc (first_index x cs))"

definition base64_chars :: "string \<Rightarrow> string" where
  "base64_chars s =
     (let b = map (\<lambda>c. if c = CHR ''-'' then CHR ''+'' else if c = CHR ''_'' then CHR ''/'' else c) s
      in b @ replicate ((4 - length b mod 4) mod 4) (CHR ''=''))"

definition loadDiagnostics ::
  "(string \<Rightarrow> nat list option) \<Rightarrow> (nat list \<Rightarrow> string option) \<Rightarrow> (nat list \<Rightarrow> string) \<Rightarrow> (string \<Rightarrow> json option)
   \<Rightarrow> string option \<Rightarrow> (string \<times> json) list option \<times> string option" where
  "loadDiagnostics atob gunzip utf8 parse stored =
     (case truthy stored of
        None \<Rightarrow> (None, stored)
      | Some raw \<Rightarrow>
          (let kind = (case first_index (CHR ''.'') raw of Some k \<Rightarrow> take k raw | None \<Rightarrow> butlast raw);
               rest = (case first_index (CHR ''.'') raw of Some k \<Rightarrow> drop (Suc k) raw | None \<Rightarrow> raw)
           in case atob (base64_chars rest) of
                None \<Rightarrow> (None, None)
              | Some bytes \<Rightarrow>
                  (case (if kind = ''1'' then gunzip bytes else Some (utf8 bytes)) of
                     None \<Rightarrow> (None, None)
                   | Some txt \<Rightarrow>
                       (case parse txt of
                          None \<Rightarrow> (None, None)
                        | Some (JObj kvs) \<Rightarrow> (Some kvs, stored)
                        | Some _ \<Rightarrow> (None, stored)))))"

lemma base64_length: "length (base64_chars s) mod 4 = 0"
proof -
  have "length s mod 4 < 4" by simp
  then consider "length s mod 4 = 0" | "length s mod 4 = 1" | "length s mod 4 = 2" | "length s mod 4 = 3" by linarith
  then show ?thesis
    by cases (simp_all add: base64_chars_def Let_def, presburger+)
qed

text \<open>A parameter of the fragment: not empty, no separator inside.\<close>

definition plain_param :: "string \<Rightarrow> bool" where
  "plain_param x = (x \<noteq> [] \<and> CHR ''&'' \<notin> set x \<and> CHR ''#'' \<notin> set x)"

definition hash_of :: "string list \<Rightarrow> string" where
  "hash_of ps = (if ps = [] then [] else CHR ''#'' # join_with ''&'' ps)"

fun amp_all :: "string list \<Rightarrow> string" where
  "amp_all [] = []"
| "amp_all (x # xs) = CHR ''&'' # x @ amp_all xs"

lemma join_amp: "join_with ''&'' (x # xs) = x @ amp_all xs"
  by (induction xs arbitrary: x) auto

lemma cut_param_skip:
  "CHR ''&'' \<notin> set x \<Longrightarrow> CHR ''#'' \<notin> set x \<Longrightarrow>
   cut_param (x @ r) = map_option (\<lambda>(b, q, a). (x @ b, q, a)) (cut_param r)"
  by (induction x) (auto simp: Let_def option.map_comp comp_def split_def option.map_ident)

lemma starts_with_mark_plain:
  assumes "plain_param x" and "starts_with diag_mark (x @ r)" and "r = [] \<or> (\<exists>r'. r = CHR ''&'' # r')"
  shows "starts_with diag_mark x"
proof -
  have "CHR ''&'' \<notin> set diag_mark" by (simp add: diag_mark_def)
  obtain t where t: "x @ r = diag_mark @ t" using starts_withD [OF assms(2)] by blast
  have e: "u = []" if "diag_mark = x @ u" "r = u @ t" for u
    using that assms(3) \<open>CHR ''&'' \<notin> set diag_mark\<close> by (cases u) (auto simp: that(1))
  from t obtain u where "x = diag_mark @ u \<or> diag_mark = x @ u \<and> r = u @ t"
    by (metis append_eq_append_conv2)
  with e have "\<exists>u. x = diag_mark @ u" by (metis append_Nil2)
  then show ?thesis by auto
qed

lemma cut_amp_skip:
  assumes "plain_param x" and "\<not> starts_with diag_mark x" and "c = CHR ''#'' \<or> c = CHR ''&''"
    and "r = [] \<or> (\<exists>r'. r = CHR ''&'' # r')"
  shows "cut_param (c # x @ r) = map_option (\<lambda>(b, q, a). (c # x @ b, q, a)) (cut_param r)"
proof -
  have "\<not> starts_with diag_mark (x @ r)" using starts_with_mark_plain assms by blast
  then show ?thesis
    using assms(1) by (simp add: cut_param_skip plain_param_def option.map_comp comp_def split_def Let_def)
qed

lemma cut_param_hit:
  assumes "c = CHR ''#'' \<or> c = CHR ''&''" and "p \<noteq> []" and "CHR ''&'' \<notin> set p" and "r = [] \<or> (\<exists>r'. r = CHR ''&'' # r')"
  shows "cut_param (c # diag_mark @ p @ r) = Some ([], p, r)"
proof -
  have "takeWhile (\<lambda>x. x \<noteq> CHR ''&'') (p @ r) = p @ takeWhile (\<lambda>x. x \<noteq> CHR ''&'') r"
    using assms(3) by (intro takeWhile_append2) auto
  moreover have "takeWhile (\<lambda>x. x \<noteq> CHR ''&'') r = []" using assms(4) by auto
  ultimately have "takeWhile (\<lambda>x. x \<noteq> CHR ''&'') (p @ r) = p" by simp
  then show ?thesis using assms(1,2) by (simp add: Let_def)
qed

lemma cut_amp_all:
  assumes "list_all plain_param xs" and "list_all (\<lambda>x. \<not> starts_with diag_mark x) xs"
    and "r = [] \<or> (\<exists>r'. r = CHR ''&'' # r')"
  shows "cut_param (amp_all xs @ r) = map_option (\<lambda>(b, q, a). (amp_all xs @ b, q, a)) (cut_param r)"
  using assms
proof (induction xs)
  case Nil
  show ?case by (cases "cut_param r") auto
next
  case (Cons x xs)
  have s: "amp_all xs @ r = [] \<or> (\<exists>r'. amp_all xs @ r = CHR ''&'' # r')"
    using Cons.prems(3) by (cases xs) auto
  have "cut_param (CHR ''&'' # x @ amp_all xs @ r)
      = map_option (\<lambda>(b, q, a). (CHR ''&'' # x @ b, q, a)) (cut_param (amp_all xs @ r))"
    using Cons.prems(1,2) by (intro cut_amp_skip s) auto
  with Cons show ?case by (simp add: option.map_comp comp_def split_def)
qed

lemma amp_all_append: "amp_all (xs @ ys) = amp_all xs @ amp_all ys"
  by (induction xs) auto

lemma amp_all_shape: "amp_all xs = [] \<or> (\<exists>r. amp_all xs = CHR ''&'' # r)"
  by (cases xs) auto

text \<open>
  Taking the diagnostics out of the address keeps the payload
  and leaves every other parameter of the fragment, in order, wherever the payload stood.
\<close>

theorem fragment_keeps_other_params:
  assumes "list_all plain_param (xs @ ys)" and "list_all (\<lambda>x. \<not> starts_with diag_mark x) xs"
    and "p \<noteq> []" and "CHR ''&'' \<notin> set p"
  shows "captureDiagnosticsFragment (hash_of (xs @ [diag_mark @ p] @ ys)) stored = (hash_of (xs @ ys), Some p)"
proof (cases xs)
  case Nil
  have "hash_of (xs @ [diag_mark @ p] @ ys) = CHR ''#'' # diag_mark @ p @ amp_all ys"
    by (simp add: Nil hash_of_def join_amp)
  moreover have "cut_param (CHR ''#'' # diag_mark @ p @ amp_all ys) = Some ([], p, amp_all ys)"
    using assms(3,4) amp_all_shape by (intro cut_param_hit) auto
  ultimately show ?thesis using assms(1)
    by (cases ys) (simp_all add: captureDiagnosticsFragment_def Nil hash_of_def join_amp starts_with_def
        plain_param_def del: cut_param.simps)
next
  case (Cons x zs)
  let ?tail = "CHR ''&'' # diag_mark @ p @ amp_all ys"
  have h: "hash_of (xs @ [diag_mark @ p] @ ys) = CHR ''#'' # x @ amp_all zs @ ?tail"
    by (simp add: Cons hash_of_def join_amp amp_all_append)
  have hit: "cut_param ?tail = Some ([], p, amp_all ys)"
    using assms(3,4) amp_all_shape by (intro cut_param_hit) auto
  have "cut_param (amp_all zs @ ?tail) = Some (amp_all zs, p, amp_all ys)"
    using assms(1,2) Cons by (subst cut_amp_all) (simp_all add: hit del: cut_param.simps)
  moreover have "amp_all zs @ ?tail = [] \<or> (\<exists>r. amp_all zs @ ?tail = CHR ''&'' # r)"
    using amp_all_shape [of zs] by auto
  ultimately have "cut_param (CHR ''#'' # x @ amp_all zs @ ?tail) = Some (CHR ''#'' # x @ amp_all zs, p, amp_all ys)"
    using assms(1,2) Cons by (subst cut_amp_skip) (simp_all del: cut_param.simps)
  moreover have "x \<noteq> []" using assms(1) Cons by (simp add: plain_param_def)
  ultimately show ?thesis
    unfolding h captureDiagnosticsFragment_def
    by (simp add: Cons hash_of_def join_amp amp_all_append starts_with_def del: cut_param.simps)
qed

theorem fragment_keeps_other_params_witness:
  "captureDiagnosticsFragment ''#a=1&cimpctx=1.H4sI&b=2'' None = (''#a=1&b=2'', Some ''1.H4sI'')"
proof -
  have "list_all plain_param ([''a=1''] @ [''b=2''])" "list_all (\<lambda>x. \<not> starts_with diag_mark x) [''a=1'']"
    "''1.H4sI'' \<noteq> []" "CHR ''&'' \<notin> set ''1.H4sI''" by code_simp+
  from fragment_keeps_other_params [OF this, of None] show ?thesis
    by (simp add: hash_of_def diag_mark_def)
qed

lemma undecodable_payload_is_dropped:
  "truthy stored = Some raw \<Longrightarrow> atob (base64_chars (case first_index (CHR ''.'') raw of Some k \<Rightarrow> drop (Suc k) raw | None \<Rightarrow> raw)) = None
   \<Longrightarrow> loadDiagnostics atob gunzip utf8 parse stored = (None, None)"
  by (simp add: loadDiagnostics_def Let_def)

section \<open>The client of the event stream\<close>

datatype query_key = K_NOTIFICATIONS | K_ISSUES | K_BOARD | K_DASHBOARD | K_ISSUE ident

record sse_message =
  sm_type :: string
  sm_issue :: "ident option"

text \<open>The caches a message invalidates; \<^verbatim>\<open>None\<close> is a message that does not parse.\<close>

definition handleMessage :: "sse_message option \<Rightarrow> query_key list" where
  "handleMessage m =
     (case m of
        None \<Rightarrow> []
      | Some evt \<Rightarrow>
          if sm_type evt = [] \<or> sm_type evt = ''ping'' then []
          else [K_NOTIFICATIONS, K_ISSUES, K_BOARD, K_DASHBOARD]
            @ (case truthy (sm_issue evt) of Some i \<Rightarrow> [K_ISSUE i] | None \<Rightarrow> []))"

text \<open>
  The variables of the effect: \<^verbatim>\<open>stopped\<close>, \<^verbatim>\<open>backoff\<close>, the stream \<^verbatim>\<open>es\<close> and
  the timer \<^verbatim>\<open>retry\<close> they hold last. Beside them what is alive in the browser, each with
  a handle: the calls of \<^verbatim>\<open>connect\<close> that wait for a ticket, the open streams, the pending
  timers; and the delays scheduled so far, latest first.
\<close>

record sse_client =
  sc_stopped :: bool
  sc_backoff :: nat
  sc_es :: "nat option"
  sc_retry :: "nat option"
  sc_calls :: nat
  sc_streams :: "nat list"
  sc_timers :: "nat list"
  sc_handles :: nat
  sc_delays :: "nat list"

definition BACKOFF_START :: nat where
  "BACKOFF_START = 3000"

definition BACKOFF_CAP :: nat where
  "BACKOFF_CAP = 30000"

definition drop_handle :: "nat option \<Rightarrow> nat list \<Rightarrow> nat list" where
  "drop_handle held hs = (case held of None \<Rightarrow> hs | Some h \<Rightarrow> filter (\<lambda>x. x \<noteq> h) hs)"

definition scheduleReconnect :: "sse_client \<Rightarrow> sse_client" where
  "scheduleReconnect s =
     (if sc_stopped s then s
      else s\<lparr>sc_retry := Some (sc_handles s), sc_timers := sc_handles s # sc_timers s,
             sc_handles := Suc (sc_handles s), sc_delays := sc_backoff s # sc_delays s,
             sc_backoff := min (sc_backoff s * 2) BACKOFF_CAP\<rparr>)"

text \<open>\<^verbatim>\<open>connect\<close> up to its request for a ticket.\<close>

definition connect :: "string option \<Rightarrow> sse_client \<Rightarrow> sse_client" where
  "connect token s =
     (if sc_stopped s then s
      else case truthy token of
        None \<Rightarrow> s
      | Some _ \<Rightarrow> s\<lparr>sc_calls := Suc (sc_calls s)\<rparr>)"

datatype ticket_answer = NetworkError | HttpStatus nat | Ticket string

fun connect_rest :: "ticket_answer \<Rightarrow> sse_client \<Rightarrow> sse_client" where
  "connect_rest NetworkError s = scheduleReconnect s"
| "connect_rest (HttpStatus n) s = (if n = 401 then s else scheduleReconnect s)"
| "connect_rest (Ticket _) s =
     (if sc_stopped s then s
      else s\<lparr>sc_es := Some (sc_handles s), sc_streams := sc_handles s # sc_streams s, sc_handles := Suc (sc_handles s)\<rparr>)"

definition ticket_answered :: "ticket_answer \<Rightarrow> sse_client \<Rightarrow> sse_client" where
  "ticket_answered a s = connect_rest a (s\<lparr>sc_calls := sc_calls s - 1\<rparr>)"

definition stream_opened :: "sse_client \<Rightarrow> sse_client" where
  "stream_opened s = s\<lparr>sc_backoff := BACKOFF_START\<rparr>"

text \<open>The handler of a failing stream closes the stream the variable holds.\<close>

definition stream_failed :: "sse_client \<Rightarrow> sse_client" where
  "stream_failed s = scheduleReconnect (s\<lparr>sc_streams := drop_handle (sc_es s) (sc_streams s), sc_es := None\<rparr>)"

definition timer_fired :: "string option \<Rightarrow> nat \<Rightarrow> sse_client \<Rightarrow> sse_client" where
  "timer_fired token h s = connect token (s\<lparr>sc_timers := filter (\<lambda>x. x \<noteq> h) (sc_timers s)\<rparr>)"

text \<open>Leaving the page clears the timer and closes the stream the variables hold, and nothing else.\<close>

definition unmounted :: "sse_client \<Rightarrow> sse_client" where
  "unmounted s = s\<lparr>sc_stopped := True, sc_timers := drop_handle (sc_retry s) (sc_timers s),
     sc_streams := drop_handle (sc_es s) (sc_streams s)\<rparr>"

definition mounted :: "string option \<Rightarrow> sse_client" where
  "mounted token = connect token
     \<lparr>sc_stopped = False, sc_backoff = BACKOFF_START, sc_es = None, sc_retry = None, sc_calls = 0,
      sc_streams = [], sc_timers = [], sc_handles = 0, sc_delays = []\<rparr>"

inductive sse_step :: "sse_client \<Rightarrow> sse_client \<Rightarrow> bool" where
  answered: "0 < sc_calls s \<Longrightarrow> sse_step s (ticket_answered a s)"
| opened: "h \<in> set (sc_streams s) \<Longrightarrow> sse_step s (stream_opened s)"
| failed: "h \<in> set (sc_streams s) \<Longrightarrow> sse_step s (stream_failed s)"
| fired: "h \<in> set (sc_timers s) \<Longrightarrow> sse_step s (timer_fired token h s)"
| unmount: "sse_step s (unmounted s)"

inductive_cases sse_stepE: "sse_step s t"

lemmas sse_defs = ticket_answered_def stream_opened_def stream_failed_def timer_fired_def unmounted_def
  scheduleReconnect_def connect_def drop_handle_def

definition BACKOFFS :: "nat list" where
  "BACKOFFS = [3000, 6000, 12000, 24000, 30000]"

text \<open>What is alive, and that the variables still hold it.\<close>

definition alive :: "sse_client \<Rightarrow> nat" where
  "alive s = sc_calls s + length (sc_streams s) + length (sc_timers s)"

definition sse_inv :: "sse_client \<Rightarrow> bool" where
  "sse_inv s = (alive s \<le> 1
     \<and> (\<forall>h \<in> set (sc_streams s). sc_es s = Some h) \<and> (\<forall>h \<in> set (sc_timers s). sc_retry s = Some h)
     \<and> (sc_stopped s \<longrightarrow> sc_streams s = [] \<and> sc_timers s = [])
     \<and> sc_backoff s \<in> set BACKOFFS \<and> set (sc_delays s) \<subseteq> set BACKOFFS)"

lemma backoff_next: "b \<in> set BACKOFFS \<Longrightarrow> min (b * 2) BACKOFF_CAP \<in> set BACKOFFS"
  by (auto simp: BACKOFFS_def BACKOFF_CAP_def)

lemma backoff_start: "BACKOFF_START \<in> set BACKOFFS"
  by (simp add: BACKOFFS_def BACKOFF_START_def)

lemma drop_held: "(\<forall>h \<in> set hs. held = Some h) \<Longrightarrow> drop_handle held hs = []"
  by (cases held) (auto simp: drop_handle_def filter_empty_conv)

lemma scheduleReconnect_inv: "sse_inv s \<Longrightarrow> alive s = 0 \<Longrightarrow> sse_inv (scheduleReconnect s)"
  by (auto simp: sse_inv_def alive_def scheduleReconnect_def backoff_next)

lemma connect_keeps: "sse_inv s \<Longrightarrow> alive s = 0 \<Longrightarrow> sse_inv (connect token s)"
  by (auto simp: sse_inv_def alive_def connect_def split: option.split)

lemma connect_rest_inv: "sse_inv s \<Longrightarrow> alive s = 0 \<Longrightarrow> sse_inv (connect_rest a s)"
  by (cases a) (auto simp: scheduleReconnect_inv, auto simp: sse_inv_def alive_def)

lemma one_alive:
  assumes "sse_inv s"
  shows "0 < sc_calls s \<Longrightarrow> alive (s\<lparr>sc_calls := sc_calls s - 1\<rparr>) = 0"
    and "h \<in> set (sc_streams s) \<Longrightarrow> alive (s\<lparr>sc_streams := drop_handle (sc_es s) (sc_streams s), sc_es := None\<rparr>) = 0"
    and "h \<in> set (sc_timers s) \<Longrightarrow> alive (s\<lparr>sc_timers := filter (\<lambda>x. x \<noteq> h) (sc_timers s)\<rparr>) = 0"
proof -
  from assms have le: "alive s \<le> 1" and es: "drop_handle (sc_es s) (sc_streams s) = []"
    and rt: "\<forall>h \<in> set (sc_timers s). sc_retry s = Some h"
    by (simp_all add: sse_inv_def drop_held)
  show "0 < sc_calls s \<Longrightarrow> alive (s\<lparr>sc_calls := sc_calls s - 1\<rparr>) = 0"
    using le by (cases "sc_streams s"; cases "sc_timers s") (simp_all add: alive_def)
  show "alive (s\<lparr>sc_streams := drop_handle (sc_es s) (sc_streams s), sc_es := None\<rparr>) = 0" if "h \<in> set (sc_streams s)"
    using le es that by (cases "sc_streams s") (simp_all add: alive_def)
  show "alive (s\<lparr>sc_timers := filter (\<lambda>x. x \<noteq> h) (sc_timers s)\<rparr>) = 0" if "h \<in> set (sc_timers s)"
    using le rt that by (cases "sc_timers s") (auto simp: alive_def)
qed

lemma sse_step_inv: "sse_inv s \<Longrightarrow> sse_step s t \<Longrightarrow> sse_inv t"
proof (elim sse_stepE)
  fix a assume i: "sse_inv s" and t: "t = ticket_answered a s" and c: "0 < sc_calls s"
  from i c have "sse_inv (s\<lparr>sc_calls := sc_calls s - 1\<rparr>)" by (auto simp: sse_inv_def alive_def)
  with one_alive(1) [OF i c] show "sse_inv t" unfolding t ticket_answered_def by (intro connect_rest_inv)
next
  assume i: "sse_inv s" and t: "t = stream_opened s"
  from i show "sse_inv t" unfolding t stream_opened_def using backoff_start by (simp add: sse_inv_def alive_def)
next
  fix h assume i: "sse_inv s" and t: "t = stream_failed s" and c: "h \<in> set (sc_streams s)"
  from i have "sse_inv (s\<lparr>sc_streams := drop_handle (sc_es s) (sc_streams s), sc_es := None\<rparr>)"
    by (auto simp: sse_inv_def alive_def drop_held)
  with one_alive(2) [OF i c] show "sse_inv t" unfolding t stream_failed_def by (intro scheduleReconnect_inv)
next
  fix token h assume i: "sse_inv s" and t: "t = timer_fired token h s" and c: "h \<in> set (sc_timers s)"
  from i have "sse_inv (s\<lparr>sc_timers := filter (\<lambda>x. x \<noteq> h) (sc_timers s)\<rparr>)"
    by (auto simp: sse_inv_def alive_def intro: order_trans [OF add_left_mono [OF length_filter_le]])
  with one_alive(3) [OF i c] show "sse_inv t" unfolding t timer_fired_def by (intro connect_keeps)
next
  assume "sse_inv s" and "t = unmounted s"
  then show "sse_inv t" by (auto simp: sse_inv_def alive_def unmounted_def drop_held)
qed

interpretation sse_client_ts: transition_system sse_step sse_inv
  by unfold_locales (rule sse_step_inv)

lemma mounted_inv: "sse_inv (mounted token)"
  unfolding mounted_def by (rule connect_keeps) (simp_all add: sse_inv_def alive_def backoff_start)

text \<open>
  C32: In every reachable state of the stream client at most one thing is
  under way (a ticket request, an open stream or a timer). Once the page is left no stream is
  open and no timer pends; a ticket request may still be waiting then, and whatever its answer,
  it opens nothing. Every delay ever scheduled lies between three and thirty seconds.
\<close>

theorem one_stream_per_page:
  assumes "sse_step\<^sup>*\<^sup>* (mounted token) s"
  shows "sc_calls s + length (sc_streams s) + length (sc_timers s) \<le> 1
    \<and> (sc_stopped s \<longrightarrow> sc_streams s = [] \<and> sc_timers s = []
         \<and> (\<forall>a. sc_streams (ticket_answered a s) = [] \<and> sc_timers (ticket_answered a s) = []))
    \<and> (\<forall>d \<in> set (sc_delays s). BACKOFF_START \<le> d \<and> d \<le> BACKOFF_CAP)"
proof -
  have i: "sse_inv s" using sse_client_ts.reach_inv [OF assms mounted_inv] .
  have "BACKOFF_START \<le> d \<and> d \<le> BACKOFF_CAP" if "d \<in> set BACKOFFS" for d
    using that by (auto simp: BACKOFFS_def BACKOFF_START_def BACKOFF_CAP_def)
  moreover have "sc_streams (ticket_answered a s) = [] \<and> sc_timers (ticket_answered a s) = []" if "sc_stopped s" for a
    using i that by (cases a) (simp_all add: sse_inv_def ticket_answered_def scheduleReconnect_def)
  ultimately show ?thesis using i unfolding sse_inv_def alive_def by blast
qed

theorem one_stream_per_page_witness:
  "sc_streams (unmounted (ticket_answered (Ticket ''x'') (mounted (Some ''t'')))) = []
   \<and> sc_streams (ticket_answered (Ticket ''x'') (unmounted (mounted (Some ''t'')))) = []"
proof -
  have "sse_step (mounted (Some ''t'')) (ticket_answered (Ticket ''x'') (mounted (Some ''t'')))"
    by (rule answered) (simp add: mounted_def connect_def truthy_def)
  then have 1: "sse_step\<^sup>*\<^sup>* (mounted (Some ''t'')) (unmounted (ticket_answered (Ticket ''x'') (mounted (Some ''t''))))"
    by (meson converse_rtranclp_into_rtranclp r_into_rtranclp unmount)
  have 2: "sse_step\<^sup>*\<^sup>* (mounted (Some ''t'')) (unmounted (mounted (Some ''t'')))"
    by (rule r_into_rtranclp) (rule unmount)
  have "sc_stopped (unmounted u)" for u by (simp add: unmounted_def)
  with one_stream_per_page [OF 1] one_stream_per_page [OF 2] show ?thesis by blast
qed

text \<open>
  Failures in a row: \<^verbatim>\<open>n\<close> times the timer fires and the ticket is refused. The delays double
  up to the cap, whatever the starting point.
\<close>

fun failing :: "nat \<Rightarrow> sse_client \<Rightarrow> sse_client" where
  "failing 0 s = s"
| "failing (Suc n) s =
     (let u = failing n s in
      case sc_retry u of
        None \<Rightarrow> u
      | Some h \<Rightarrow> ticket_answered NetworkError (timer_fired (Some ''t'') h u))"

lemma min_double: "min (min (a * 2 ^ n) b * 2) (b::nat) = min (a * 2 ^ Suc n) b"
  by (auto simp: min_def)

lemma failing_backoff:
  assumes "\<not> sc_stopped s" and "sc_retry s \<noteq> None" and "sc_backoff s = min (BACKOFF_START * 2 ^ k) BACKOFF_CAP"
  shows "\<not> sc_stopped (failing n s) \<and> sc_retry (failing n s) \<noteq> None
    \<and> sc_backoff (failing n s) = min (BACKOFF_START * 2 ^ (k + n)) BACKOFF_CAP
    \<and> sc_delays (failing n s) = rev (map (\<lambda>j. min (BACKOFF_START * 2 ^ (k + j)) BACKOFF_CAP) [0..<n]) @ sc_delays s"
  using assms(2,3,1)
  by (induction n) (auto simp: sse_defs truthy_def Let_def min_double [simplified])

lemma reconnect_delays:
  "sc_delays (failing n (stream_failed (stream_opened (ticket_answered (Ticket x) (mounted (Some ''t''))))))
   = rev (map (\<lambda>j. min (BACKOFF_START * 2 ^ j) BACKOFF_CAP) [0..<Suc n])"
proof -
  let ?s = "stream_failed (stream_opened (ticket_answered (Ticket x) (mounted (Some ''t''))))"
  have s: "\<not> sc_stopped ?s" "sc_retry ?s \<noteq> None" "sc_backoff ?s = min (BACKOFF_START * 2 ^ 1) BACKOFF_CAP"
    "sc_delays ?s = [BACKOFF_START]"
    by (simp_all add: sse_defs mounted_def truthy_def)
  have m: "min BACKOFF_START BACKOFF_CAP = BACKOFF_START" by (simp add: BACKOFF_START_def BACKOFF_CAP_def)
  have "map (\<lambda>j. min (BACKOFF_START * 2 ^ j) BACKOFF_CAP) [0..<Suc n]
      = BACKOFF_START # map (\<lambda>j. min (BACKOFF_START * 2 ^ (1 + j)) BACKOFF_CAP) [0..<n]"
    by (subst map_upt_Suc) (simp add: m)
  then show ?thesis using failing_backoff [OF s(1-3), of n] s(4) by simp
qed

section \<open>From the server's stream to the caches\<close>

definition to_message :: "rt_event \<Rightarrow> sse_message" where
  "to_message ev = \<lparr>sm_type = rt_type ev, sm_issue = Some (rt_issue ev)\<rparr>"

text \<open>Every event the server puts on the stream invalidates the lists and the open issue.\<close>

lemma stream_event_refreshes:
  assumes "bridge ev = Some r" and "rt_issue r \<noteq> []"
  shows "handleMessage (Some (to_message r)) = [K_NOTIFICATIONS, K_ISSUES, K_BOARD, K_DASHBOARD, K_ISSUE (rt_issue r)]"
proof -
  have "rt_type r \<noteq> [] \<and> rt_type r \<noteq> ''ping''" using assms(1) by (cases ev) auto
  with assms(2) show ?thesis by (simp add: handleMessage_def to_message_def truthy_def)
qed

end
