(* ===== verification/ClientAccess.thy ===== *)
theory ClientAccess
  imports Failures Merge IssuesQuery
begin

text \<open>
  What the browser offers and what the server accepts. The permission helpers
  (\<^verbatim>\<open>frontend/src/lib/permissions.ts\<close>) and the transition table (\<^verbatim>\<open>lib/issue-status.ts\<close>)
  mirror the checks of the server; the profile they read is the answer of
  \<^verbatim>\<open>auth/staff.controller.ts\<close>. The status buttons of the detail panel, the menu of a board
  card and the keys of the triage page are compared with \<^verbatim>\<open>changeStatus\<close>, and a conflict is
  followed through the filter, the toast and the refetch to the retry.
\<close>

section \<open>The profile\<close>

record staff_me =
  me_id :: ident
  me_name :: string
  me_email :: string
  me_roles :: "grant list"
  me_policy :: "bool option"

text \<open>\<^verbatim>\<open>GET /staff/me\<close>.\<close>

definition staff_profile :: "env \<Rightarrow> auth_staff \<Rightarrow> staff_me" where
  "staff_profile e st = \<lparr>me_id = st_id st, me_name = st_name st, me_email = st_email st,
     me_roles = st_roles st, me_policy = Some (focal_point_can_transition e)\<rparr>"

section \<open>Permission helpers\<close>

text \<open>\<^verbatim>\<open>None\<close> is the profile that has not loaded, or an issue without its platform.\<close>

definition canWriteOn :: "staff_me option \<Rightarrow> ident option \<Rightarrow> bool" where
  "canWriteOn me platform =
     (case (me, truthy platform) of
        (Some m, Some p) \<Rightarrow> list_ex (\<lambda>g. gr_role g \<noteq> WATCHER
            \<and> (gr_platform g = None \<or> gr_platform g = Some p)) (me_roles m)
      | _ \<Rightarrow> False)"

definition canWriteAnywhere :: "staff_me option \<Rightarrow> bool" where
  "canWriteAnywhere me =
     (case me of None \<Rightarrow> False | Some m \<Rightarrow> list_ex (\<lambda>g. gr_role g \<noteq> WATCHER) (me_roles m))"

definition holdsAnyOn :: "staff_me option \<Rightarrow> ident option \<Rightarrow> role list \<Rightarrow> bool" where
  "holdsAnyOn me platform roles =
     (case (me, truthy platform) of
        (Some m, Some p) \<Rightarrow> list_ex (\<lambda>g. gr_role g \<in> set roles
            \<and> (gr_platform g = None \<or> gr_platform g = Some p)) (me_roles m)
      | _ \<Rightarrow> False)"

definition canDevelopOn :: "staff_me option \<Rightarrow> ident option \<Rightarrow> bool" where
  "canDevelopOn me platform = holdsAnyOn me platform [DEVELOPER]"

definition canTransitionStatusOn :: "staff_me option \<Rightarrow> ident option \<Rightarrow> bool" where
  "canTransitionStatusOn me platform =
     holdsAnyOn me platform ([DEVELOPER, ADMIN]
       @ (case me of
            Some m \<Rightarrow> (if me_policy m = Some True then [FOCAL_POINT] else [])
          | None \<Rightarrow> []))"

section \<open>The transition table of the browser\<close>

fun CLIENT_TRANSITIONS :: "issue_status \<Rightarrow> issue_status list" where
  "CLIENT_TRANSITIONS NEW = [IN_PROGRESS, ON_HOLD, CLOSED]"
| "CLIENT_TRANSITIONS IN_PROGRESS = [ON_HOLD, RESOLVED]"
| "CLIENT_TRANSITIONS ON_HOLD = [IN_PROGRESS, CLOSED]"
| "CLIENT_TRANSITIONS RESOLVED = [CLOSED, REOPENED]"
| "CLIENT_TRANSITIONS CLOSED = [REOPENED]"
| "CLIENT_TRANSITIONS REOPENED = [IN_PROGRESS]"

definition client_canTransition :: "issue_status \<Rightarrow> issue_status \<Rightarrow> bool" where
  "client_canTransition a b = (if a = b then False else b \<in> set (CLIENT_TRANSITIONS a))"

definition BOARD_STATUS_ORDER :: "issue_status list" where
  "BOARD_STATUS_ORDER = [NEW, REOPENED, IN_PROGRESS, ON_HOLD, RESOLVED, CLOSED]"

section \<open>What the pages offer\<close>

text \<open>A row of the list is the server's \<^verbatim>\<open>list_item\<close>; the pages use the id of its platform.\<close>

definition card_platform :: "list_item \<Rightarrow> ident option" where
  "card_platform c = map_option fst (li_platform c)"

text \<open>The status buttons of the detail panel.\<close>

definition panel_moves :: "staff_me option \<Rightarrow> list_item \<Rightarrow> issue_status list" where
  "panel_moves me c =
     (if canWriteOn me (card_platform c) \<and> canTransitionStatusOn me (card_platform c)
      then CLIENT_TRANSITIONS (li_status c) else [])"

text \<open>The move menu of a board card, and the status actions of the triage page.\<close>

definition canMove :: "staff_me option \<Rightarrow> list_item \<Rightarrow> bool" where
  "canMove me c = canWriteOn me (card_platform c)"

definition board_moves :: "staff_me option \<Rightarrow> list_item \<Rightarrow> issue_status list" where
  "board_moves me c = (if canMove me c then CLIENT_TRANSITIONS (li_status c) else [])"

definition canAssignToMe :: "staff_me option \<Rightarrow> list_item \<Rightarrow> bool" where
  "canAssignToMe me c =
     (case me of
        None \<Rightarrow> False
      | Some m \<Rightarrow> (if map_option fst (li_assignee c) = Some (me_id m) then False
                  else canDevelopOn me (card_platform c)))"

text \<open>Candidates of the merge dialog among the rows of its search.\<close>

definition merge_candidates :: "ident \<Rightarrow> list_item list \<Rightarrow> list_item list" where
  "merge_candidates issueId rows = filter (\<lambda>c. li_id c \<noteq> issueId \<and> li_status c \<noteq> CLOSED) rows"

section \<open>The mirrors are exact\<close>

lemma client_table: "CLIENT_TRANSITIONS a = STATUS_TRANSITIONS a"
  by (cases a) simp_all

lemma client_canTransition_iff: "client_canTransition a b = canTransition a b"
  by (cases a; cases b) (simp_all add: client_canTransition_def canTransition_def)

lemma holdsAnyOn_server:
  "p \<noteq> [] \<Longrightarrow> holdsAnyOn (Some (staff_profile e st)) (Some p) roles = canAccessPlatform st p roles"
  by (simp add: holdsAnyOn_def truthy_def staff_profile_def canAccessPlatform_def)

lemma write_role: "r \<noteq> WATCHER \<longleftrightarrow> r \<in> set STAFF_WRITE_ROLES"
  by (cases r) (simp_all add: STAFF_WRITE_ROLES_def)

lemma canWriteOn_server:
  "p \<noteq> [] \<Longrightarrow> canWriteOn (Some (staff_profile e st)) (Some p) = canAccessPlatform st p STAFF_WRITE_ROLES"
  by (simp add: canWriteOn_def truthy_def staff_profile_def canAccessPlatform_def write_role)

lemma canTransitionStatusOn_server:
  "p \<noteq> [] \<Longrightarrow> canTransitionStatusOn (Some (staff_profile e st)) (Some p) = canAccessPlatform st p (transition_roles e)"
  unfolding canTransitionStatusOn_def by (simp add: holdsAnyOn_server) (simp add: transition_roles_def staff_profile_def)

lemma access_mono: "canAccessPlatform st p rs \<Longrightarrow> set rs \<subseteq> set rs' \<Longrightarrow> canAccessPlatform st p rs'"
  unfolding canAccessPlatform_def list_ex_iff by blast

lemma transition_is_write: "canAccessPlatform st p (transition_roles e) \<Longrightarrow> canAccessPlatform st p STAFF_WRITE_ROLES"
  by (erule access_mono) (auto simp: transition_roles_def STAFF_WRITE_ROLES_def)

text \<open>The row shows an issue: status, version and platform are those of the table.\<close>

definition shows_issue :: "list_item \<Rightarrow> issue \<Rightarrow> bool" where
  "shows_issue c i = (li_id c = iss_id i \<and> li_status c = iss_status i \<and> li_version c = iss_version i
     \<and> card_platform c = Some (iss_platform i) \<and> iss_platform i \<noteq> [])"

lemma apply_status_result:
  assumes "find_issue (iss_id i) s = Some i"
  shows "(\<exists>s'. applyStatus e st i to (Some (iss_version i)) s = Inr s')
     \<longleftrightarrow> canAccessPlatform st (iss_platform i) (transition_roles e) \<and> canTransition (iss_status i) to"
    and "\<not> canAccessPlatform st (iss_platform i) (transition_roles e) \<Longrightarrow>
      applyStatus e st i to (Some (iss_version i)) s = Inl (Forbidden ''You may not change the status of this issue.'')"
proof -
  obtain s1 where sv: "save_issue e (applyStatusSideEffects (now e) to (i\<lparr>iss_status := to\<rparr>)) s = Inr s1"
    using save_loaded_ok [OF assms, of "applyStatusSideEffects (now e) to (i\<lparr>iss_status := to\<rparr>)" e] by auto
  have "\<exists>s'. applyStatus e st i to (Some (iss_version i)) s = Inr s'"
    if "canAccessPlatform st (iss_platform i) (transition_roles e)" "canTransition (iss_status i) to"
  proof -
    from that(2) have "iss_status i \<noteq> to" by auto
    with that sv show ?thesis by (auto simp: applyStatus_def res_iffs)
  qed
  with applyStatus_wrote [OF assms] show "(\<exists>s'. applyStatus e st i to (Some (iss_version i)) s = Inr s')
     \<longleftrightarrow> canAccessPlatform st (iss_platform i) (transition_roles e) \<and> canTransition (iss_status i) to"
    by blast
qed (simp add: applyStatus_def assertVersion_def assertCanTransition_def require_def)

lemma change_status_result:
  assumes "find_issue iid s = Some i" and "shows_issue c i"
  shows "is_ok (changeStatus e st iid to (Some (li_version c)) s)
     \<longleftrightarrow> canAccessPlatform st (iss_platform i) (transition_roles e) \<and> canTransition (iss_status i) to"
    and "\<not> canAccessPlatform st (iss_platform i) (transition_roles e) \<Longrightarrow>
      changeStatus e st iid to (Some (li_version c)) s = Inl (Forbidden ''You may not change the status of this issue.'')"
proof -
  have "iss_id i = iid" using assms(1) by (auto dest: find_issueD)
  with assms(1) have i: "find_issue (iss_id i) s = Some i" by simp
  from assms have r: "changeStatus e st iid to (Some (li_version c)) s = applyStatus e st i to (Some (iss_version i)) s"
    by (simp add: changeStatus_def loadForWrite_def shows_issue_def)
  show "is_ok (changeStatus e st iid to (Some (li_version c)) s)
     \<longleftrightarrow> canAccessPlatform st (iss_platform i) (transition_roles e) \<and> canTransition (iss_status i) to"
    unfolding r is_ok_iff by (rule apply_status_result(1) [OF i])
  show "\<not> canAccessPlatform st (iss_platform i) (transition_roles e) \<Longrightarrow>
      changeStatus e st iid to (Some (li_version c)) s = Inl (Forbidden ''You may not change the status of this issue.'')"
    unfolding r by (rule apply_status_result(2) [OF i])
qed

text \<open>
  C5: The detail panel shows the button of a status exactly
  when the server would make that change for this user: no button that is refused, and no
  allowed change without one.
\<close>

theorem panel_offers_what_the_server_accepts:
  assumes "find_issue iid s = Some i" and "shows_issue c i"
  shows "to \<in> set (panel_moves (Some (staff_profile e st)) c)
     \<longleftrightarrow> is_ok (changeStatus e st iid to (Some (li_version c)) s)"
proof -
  have p: "card_platform c = Some (iss_platform i)" "iss_platform i \<noteq> []" "li_status c = iss_status i"
    using assms(2) by (simp_all add: shows_issue_def)
  show ?thesis
    unfolding change_status_result(1) [OF assms] panel_moves_def p(1,3) canWriteOn_server [OF p(2)]
      canTransitionStatusOn_server [OF p(2)] client_table
    using transition_is_write by (auto simp: canTransition_def)
qed

definition card_of :: "issue \<Rightarrow> list_item" where
  "card_of i = \<lparr>li_id = iss_id i, li_reference_no = iss_reference_no i, li_status = iss_status i,
     li_priority = iss_priority i, li_version = iss_version i, li_preview = iss_description i,
     li_created_at = iss_created_at i, li_updated_at = iss_updated_at i, li_sla = (0, None),
     li_platform = Some (iss_platform i, iss_platform i, iss_platform i), li_reporter = None, li_assignee = None\<rparr>"

lemma card_of_shows: "iss_platform i \<noteq> [] \<Longrightarrow> shows_issue (card_of i) i"
  by (simp add: shows_issue_def card_of_def card_platform_def)

lemma demo_issue: "find_issue ''i1'' demo_db = Some (sample_issue ''i1'' ''p1'' NEW)"
  by (simp add: find_issue_def demo_defs by_key_Cons)

theorem panel_offers_what_the_server_accepts_witness:
  "is_ok (changeStatus plain_env dev_staff ''i1'' IN_PROGRESS (Some 1) demo_db)"
proof -
  let ?i = "sample_issue ''i1'' ''p1'' NEW"
  have "shows_issue (card_of ?i) ?i" by (rule card_of_shows) (simp add: sample_issue_def)
  note t = panel_offers_what_the_server_accepts [OF demo_issue this, of IN_PROGRESS plain_env dev_staff]
  have "li_version (card_of ?i) = 1" by (simp add: card_of_def sample_issue_def)
  moreover have "IN_PROGRESS \<in> set (panel_moves (Some (staff_profile plain_env dev_staff)) (card_of ?i))"
    by (simp add: panel_moves_def canWriteOn_def canTransitionStatusOn_def holdsAnyOn_def truthy_def
        staff_profile_def card_of_def card_platform_def sample_issue_def dev_staff_def)
  ultimately show ?thesis using t by simp
qed

text \<open>
  The board and the triage page offer every write role the whole row of the table: beyond what
  the server accepts, and what exceeds it is answered with 403.
\<close>

lemma board_offer_is_accepted_or_forbidden:
  assumes "find_issue iid s = Some i" and "shows_issue c i"
    and "to \<in> set (board_moves (Some (staff_profile e st)) c)"
  shows "is_ok (changeStatus e st iid to (Some (li_version c)) s)
    \<or> (changeStatus e st iid to (Some (li_version c)) s = Inl (Forbidden ''You may not change the status of this issue.'')
        \<and> \<not> canTransitionStatusOn (Some (staff_profile e st)) (card_platform c))"
proof -
  have p: "card_platform c = Some (iss_platform i)" "iss_platform i \<noteq> []" "li_status c = iss_status i"
    using assms(2) by (simp_all add: shows_issue_def)
  have "canTransition (iss_status i) to"
    using assms(3) p(3) by (simp add: board_moves_def client_table canTransition_def split: if_splits)
  with change_status_result [OF assms(1,2), where e = e and st = st and to = to] show ?thesis
    unfolding p(1) canTransitionStatusOn_server [OF p(2)] by blast
qed

definition focal_staff :: auth_staff where
  "focal_staff = \<lparr>st_id = ''f1'', st_idp_subject = ''f1'', st_name = ''Fay'', st_email = ''f@x'',
     st_roles = [\<lparr>gr_role = FOCAL_POINT, gr_platform = Some ''p1''\<rparr>]\<rparr>"

lemma board_offers_a_refused_move:
  "IN_PROGRESS \<in> set (board_moves (Some (staff_profile plain_env focal_staff)) (card_of (sample_issue ''i1'' ''p1'' NEW)))
   \<and> changeStatus plain_env focal_staff ''i1'' IN_PROGRESS (Some 1) demo_db
       = Inl (Forbidden ''You may not change the status of this issue.'')"
proof -
  let ?i = "sample_issue ''i1'' ''p1'' NEW"
  have "shows_issue (card_of ?i) ?i" by (rule card_of_shows) (simp add: sample_issue_def)
  note r = change_status_result(2) [OF demo_issue this, of focal_staff plain_env IN_PROGRESS]
  have "li_version (card_of ?i) = 1" by (simp add: card_of_def sample_issue_def)
  moreover have "\<not> canAccessPlatform focal_staff (iss_platform ?i) (transition_roles plain_env)"
    by (simp add: canAccessPlatform_def focal_staff_def transition_roles_def plain_env_def sample_issue_def)
  moreover have "IN_PROGRESS \<in> set (board_moves (Some (staff_profile plain_env focal_staff)) (card_of ?i))"
    by (simp add: board_moves_def canMove_def canWriteOn_def truthy_def
        staff_profile_def card_of_def card_platform_def sample_issue_def focal_staff_def)
  ultimately show ?thesis using r by simp
qed

section \<open>Assignment\<close>

lemma apply_assignment_ok:
  assumes "find_issue (iss_id i) s = Some i"
  shows "(\<exists>s'. applyAssignment e st i a (Some (iss_version i)) s = Inr s') \<longleftrightarrow> (\<exists>new. resolve_assignee i a s = Inr new)"
proof
  assume "\<exists>new. resolve_assignee i a s = Inr new"
  then obtain new where n: "resolve_assignee i a s = Inr new" by blast
  obtain s1 where "save_issue e (i\<lparr>iss_assignee := new\<rparr>) s = Inr s1"
    using save_loaded_ok [OF assms, of "i\<lparr>iss_assignee := new\<rparr>" e] by auto
  with n show "\<exists>s'. applyAssignment e st i a (Some (iss_version i)) s = Inr s'"
    by (auto simp: applyAssignment_def res_iffs)
qed (use applyAssignment_wrote [OF assms] in blast)

lemma change_assignment_ok:
  assumes "find_issue iid s = Some i" and "li_version c = iss_version i"
  shows "is_ok (changeAssignment e st iid a (Some (li_version c)) s) \<longleftrightarrow> (\<exists>new. resolve_assignee i a s = Inr new)"
proof -
  have "iss_id i = iid" using assms(1) by (auto dest: find_issueD)
  with assms apply_assignment_ok [of i s e st a] show ?thesis
    by (simp add: changeAssignment_def loadForWrite_def is_ok_iff)
qed

definition develops :: "db \<Rightarrow> ident \<Rightarrow> ident \<Rightarrow> bool" where
  "develops s a p = (\<exists>u. find_staff a s = Some u \<and> su_status u = ACCOUNT_ACTIVE
     \<and> (\<exists>g \<in> set (t_roles s). upr_staff_user g = a \<and> upr_role g = DEVELOPER
          \<and> (upr_platform g = None \<or> upr_platform g = Some p)))"

lemma found_staff_id: "find_staff a s = Some u \<Longrightarrow> su_id u = a"
  by (auto simp: find_staff_def dest: by_key_SomeD)

lemma resolve_assignee_iff:
  "a \<noteq> [] \<Longrightarrow> (\<exists>new. resolve_assignee i (Some a) s = Inr new) \<longleftrightarrow> develops s a (iss_platform i)"
  by (auto simp: resolve_assignee_def truthy_def require_Inr_iff develops_def canAccessPlatform_def loadRoles_def
      list_ex_iff found_staff_id split: option.splits)

lemma set_first_per_user:
  "su_id ` set (first_per_user seen us) = su_id ` set us - set seen"
  by (induction seen us rule: first_per_user.induct) auto

lemma picker_ids:
  assumes "find_issue iid s = Some i" and "picker collate wanted iid s = Inr xs"
  shows "a \<in> fst ` set xs \<longleftrightarrow> (\<exists>u g. find_staff a s = Some u \<and> su_status u = ACCOUNT_ACTIVE \<and> g \<in> set (t_roles s)
     \<and> upr_staff_user g = a \<and> wanted g \<and> (upr_platform g = None \<or> upr_platform g = Some (iss_platform i)))"
proof -
  let ?row = "\<lambda>g. if wanted g \<and> (upr_platform g = Some (iss_platform i) \<or> upr_platform g = None)
       then (case find_staff (upr_staff_user g) s of None \<Rightarrow> None
             | Some u \<Rightarrow> (if su_status u = ACCOUNT_ACTIVE then Some u else None)) else None"
  have row: "?row g = Some u \<longleftrightarrow> wanted g \<and> (upr_platform g = Some (iss_platform i) \<or> upr_platform g = None)
      \<and> find_staff (upr_staff_user g) s = Some u \<and> su_status u = ACCOUNT_ACTIVE" for g u
    by (auto split: option.splits)
  have "fst ` set xs = su_id ` set (first_per_user [] (List.map_filter ?row (t_roles s)))"
    using assms by (auto simp: picker_def image_image)
  also have "\<dots> = su_id ` {u. \<exists>g \<in> set (t_roles s). ?row g = Some u}"
    unfolding set_first_per_user set_map_filter by simp
  also have "\<dots> = {a. \<exists>u g. find_staff a s = Some u \<and> su_status u = ACCOUNT_ACTIVE \<and> g \<in> set (t_roles s)
     \<and> upr_staff_user g = a \<and> wanted g \<and> (upr_platform g = None \<or> upr_platform g = Some (iss_platform i))}"
    unfolding row using found_staff_id by (fastforce simp: image_iff)
  finally show ?thesis by simp
qed

text \<open>
  The assignee menu of the detail panel lists exactly the accounts
  the server accepts as assignee of the issue; and the board's button to take a card oneself
  is shown exactly when that is accepted and the card is not already one's own.
\<close>

theorem assignment_offers_are_exact:
  assumes "find_issue iid s = Some i" and "shows_issue c i" and "a \<noteq> []"
    and "listAssignees collate iid s = Inr menu"
    and "st_id st \<noteq> []" and "find_staff (st_id st) s = Some u" and "su_status u = ACCOUNT_ACTIVE"
    and "st_roles st = loadRoles (st_id st) s"
  shows "(a \<in> fst ` set menu \<longleftrightarrow> is_ok (changeAssignment e st iid (Some a) (Some (li_version c)) s))
    \<and> (canAssignToMe (Some (staff_profile e st)) c \<longleftrightarrow>
        map_option fst (li_assignee c) \<noteq> Some (st_id st)
        \<and> is_ok (changeAssignment e st iid (Some (st_id st)) (Some (li_version c)) s))"
proof -
  have v: "li_version c = iss_version i" and p: "card_platform c = Some (iss_platform i)" "iss_platform i \<noteq> []"
    using assms(2) by (simp_all add: shows_issue_def)
  have ok: "is_ok (changeAssignment e st iid (Some b) (Some (li_version c)) s) \<longleftrightarrow> develops s b (iss_platform i)"
    if "b \<noteq> []" for b
    unfolding change_assignment_ok [OF assms(1) v] by (rule resolve_assignee_iff [OF that])
  have "a \<in> fst ` set menu \<longleftrightarrow> develops s a (iss_platform i)"
    using picker_ids [OF assms(1) assms(4) [unfolded listAssignees_def]] unfolding develops_def by blast
  moreover have "canAccessPlatform st (iss_platform i) [DEVELOPER] \<longleftrightarrow> develops s (st_id st) (iss_platform i)"
    using assms(6,7) by (auto simp: canAccessPlatform_def assms(8) loadRoles_def list_ex_iff develops_def)
  then have "canAssignToMe (Some (staff_profile e st)) c \<longleftrightarrow>
      map_option fst (li_assignee c) \<noteq> Some (st_id st) \<and> develops s (st_id st) (iss_platform i)"
    unfolding canAssignToMe_def p(1) canDevelopOn_def
    using holdsAnyOn_server [OF p(2), of e st "[DEVELOPER]"] by (simp add: staff_profile_def)
  ultimately show ?thesis using ok [OF assms(3)] ok [OF assms(5)] by simp
qed

theorem assignment_offers_are_exact_witness:
  "is_ok (changeAssignment plain_env dev_staff ''i1'' (Some ''dev'') (Some 1) demo_db)
   \<and> \<not> is_ok (changeAssignment plain_env dev_staff ''i1'' (Some ''wat'') (Some 1) demo_db)"
proof -
  let ?i = "sample_issue ''i1'' ''p1'' NEW"
  have c: "shows_issue (card_of ?i) ?i" by (rule card_of_shows) simp
  have l: "listAssignees length ''i1'' demo_db = Inr [(''dev'', ''dev'', ''dev@x.org'')]"
    by (simp add: listAssignees_def picker_def demo_issue) code_simp
  have d: "st_id dev_staff \<noteq> []" "st_roles dev_staff = loadRoles (st_id dev_staff) demo_db"
    by (simp_all add: demo_defs loadRoles_def)
  obtain u where u: "find_staff (st_id dev_staff) demo_db = Some u" "su_status u = ACCOUNT_ACTIVE"
    by (auto simp: demo_defs find_staff_def by_key_Cons)
  have v: "li_version (card_of ?i) = 1" by (simp add: card_of_def)
  show ?thesis
    using assignment_offers_are_exact [OF demo_issue c _ l d(1) u d(2), of "''dev''" plain_env]
      assignment_offers_are_exact [OF demo_issue c _ l d(1) u d(2), of "''wat''" plain_env] v by simp
qed

section \<open>A conflict and the retry\<close>

definition wire :: "(http_error \<Rightarrow> thrown) \<Rightarrow> http_error \<Rightarrow> axios_error" where
  "wire raise err = as_axios (fst (filter_catch 0 ''PATCH'' ''/api/staff/issues'' ''/api/staff/issues'' (raise err)))"

text \<open>The version of the cached detail after a refetch.\<close>

definition refetched :: "ident \<Rightarrow> db \<Rightarrow> int \<Rightarrow> int" where
  "refetched iid s v = (case find_issue iid s of Some i \<Rightarrow> iss_version i | None \<Rightarrow> v)"

text \<open>
  A click on a status button of the panel: the version sent is the cached one; success
  refetches, an error goes to \<^verbatim>\<open>toastMutationError(e, refresh)\<close>. The result has the new cached
  version, the server's state and the toasts.
\<close>

definition panel_click ::
  "(http_error \<Rightarrow> thrown) \<Rightarrow> env \<Rightarrow> auth_staff \<Rightarrow> ident \<Rightarrow> issue_status \<Rightarrow> int \<times> db \<Rightarrow> int \<times> db \<times> string list" where
  "panel_click raise e st iid to vs =
     (case vs of (v, s) \<Rightarrow>
       (case changeStatus e st iid to (Some v) s of
          Inr s' \<Rightarrow> (refetched iid s' v, s', [''Status updated.''])
        | Inl err \<Rightarrow> (case toastMutationError (wire raise err) of
            (toasts, refetch) \<Rightarrow> (if refetch then refetched iid s v else v, s, toasts))))"

text \<open>The merge dialog hands its errors to \<^verbatim>\<open>toastApiError\<close>: nothing is refetched.\<close>

definition merge_click ::
  "(http_error \<Rightarrow> thrown) \<Rightarrow> env \<Rightarrow> auth_staff \<Rightarrow> ident \<Rightarrow> ident \<Rightarrow> int \<times> db \<Rightarrow> int \<times> db \<times> string list" where
  "merge_click raise e st iid cid vs =
     (case vs of (v, s) \<Rightarrow>
       (case merge e st iid cid v s of
          Inr (_, s') \<Rightarrow> (refetched iid s' v, s', [''Merged as duplicate.''])
        | Inl err \<Rightarrow> (v, s, toastApiError (wire raise err))))"

lemma wire_status: "carries_message raise \<Longrightarrow> httpStatus (wire raise err) = Some (http_status err)"
  using filter_http [of raise 0 "''PATCH''" "''/api/staff/issues''" "''/api/staff/issues''" err]
  by (auto simp: wire_def as_axios_def httpStatus_def)

lemma stale_status_conflicts:
  "find_issue iid s = Some i \<Longrightarrow> v \<noteq> iss_version i \<Longrightarrow>
   \<exists>m. changeStatus e st iid to (Some v) s = Inl (Conflict m)"
  by (simp add: changeStatus_def loadForWrite_def applyStatus_def assertVersion_def require_def)

text \<open>
  C9: A user whose panel shows an outdated version and clicks an
  allowed status is told to try again, nothing is written, and the second click on the same
  button makes the change: the conflict repairs itself in one round.
\<close>

theorem conflict_then_retry_succeeds:
  assumes "carries_message raise" and "find_issue iid s = Some i" and "v \<noteq> iss_version i"
    and "canAccessPlatform st (iss_platform i) (transition_roles e)" and "canTransition (iss_status i) to"
  shows "\<exists>s'. panel_click raise e st iid to (v, s)
           = (iss_version i, s, [''This changed elsewhere '' @ long_dash @ '' reloaded, try again.''])
    \<and> changeStatus e st iid to (Some (iss_version i)) s = Inr s'
    \<and> panel_click raise e st iid to (iss_version i, s) = (iss_version i + 1, s', [''Status updated.''])"
proof -
  obtain m where "changeStatus e st iid to (Some v) s = Inl (Conflict m)"
    using stale_status_conflicts [OF assms(2,3)] by blast
  then have first: "panel_click raise e st iid to (v, s)
           = (iss_version i, s, [''This changed elsewhere '' @ long_dash @ '' reloaded, try again.''])"
    using wire_status [OF assms(1), of "Conflict m"] assms(2)
    by (simp add: panel_click_def toastMutationError_def refetched_def)
  have id: "iss_id i = iid" using assms(2) by (auto dest: find_issueD)
  with assms(2) have fi: "find_issue (iss_id i) s = Some i" by simp
  then obtain s' where "applyStatus e st i to (Some (iss_version i)) s = Inr s'"
    using apply_status_result(1) assms(4,5) by blast
  then have ok: "changeStatus e st iid to (Some (iss_version i)) s = Inr s'"
    using assms(2) by (simp add: changeStatus_def loadForWrite_def)
  from change_status_version [OF ok] assms(2) have "refetched iid s' (iss_version i) = iss_version i + 1"
    by (auto simp: refetched_def)
  with ok have "panel_click raise e st iid to (iss_version i, s) = (iss_version i + 1, s', [''Status updated.''])"
    by (simp add: panel_click_def)
  with first ok show ?thesis by blast
qed

theorem conflict_then_retry_succeeds_witness:
  "fst (panel_click nest plain_env dev_staff ''i1'' IN_PROGRESS (0, demo_db)) = 1"
proof -
  let ?i = "sample_issue ''i1'' ''p1'' NEW"
  have "(0::int) \<noteq> iss_version ?i" by simp
  moreover have "canAccessPlatform dev_staff (iss_platform ?i) (transition_roles plain_env)"
    by (simp add: canAccessPlatform_def dev_staff_def transition_roles_def)
  moreover have "canTransition (iss_status ?i) IN_PROGRESS" by (simp add: canTransition_def)
  ultimately show ?thesis
    using conflict_then_retry_succeeds [OF nest_carries demo_issue, of 0 dev_staff plain_env IN_PROGRESS] by auto
qed

text \<open>
  A merge with an outdated version is different: the dialog keeps the version it was opened
  with, so every further click is answered with the same conflict, although a merge with the
  current version would succeed.
\<close>

lemma merge_click_is_stuck:
  assumes "merge e st iid cid v s = Inl err"
  shows "((\<lambda>(v, s, _). merge_click raise e st iid cid (v, s)) ^^ n) (v, s, toastApiError (wire raise err))
     = (v, s, toastApiError (wire raise err))"
  by (induction n) (simp_all add: merge_click_def assms)

lemma stale_merge_conflicts:
  "merge plain_env dev_staff ''a'' ''b'' 0 demo_issues
     = Inl (Conflict ''This issue was modified by someone else. Reload and try again.'')
   \<and> (\<exists>s'. merge plain_env dev_staff ''a'' ''b'' 1 demo_issues = Inr (''b'', s'))"
  using demo_merge_ok
  by (auto simp: merge_def demo_issues_def sample_defs find_issue_def by_key_Cons require_def)

end
