(* ===== verification/ClientText.thy ===== *)
theory ClientText
  imports JsNumber IssuesQuery "HOL-Library.Sublist"
begin

text \<open>
  The text the browser builds from what people typed: mentions in a comment and the accounts
  they notify, reply templates with their placeholders
  (\<^verbatim>\<open>frontend/src/staff/IssueDetailPanel.tsx\<close>), and the labels and previews of
  \<^verbatim>\<open>lib/format.ts\<close> and \<^verbatim>\<open>lib/issue-meta.ts\<close>. A member is the triple of id, name and email
  the pickers of the server return.
\<close>

section \<open>Mentions\<close>

type_synonym member = "ident \<times> string \<times> string"

text \<open>
  \<^verbatim>\<open>mentionRegex\<close>: the known names, longest first; the alternation of the pattern tries
  them in this order. \<^verbatim>\<open>None\<close> when there is no name.
\<close>

definition mentionRegex :: "string list \<Rightarrow> string list option" where
  "mentionRegex names =
     (let known = filter (\<lambda>n. n \<noteq> []) names in
      if known = [] then None else Some (sort_key (\<lambda>n. - int (length n)) known))"

text \<open>The global matches of the pattern, with the text between them character by character.\<close>

function scan :: "string list \<Rightarrow> string \<Rightarrow> (char + string) list" where
  "scan alts [] = []"
| "scan alts (c # cs) =
     (case (if c = CHR ''@'' then List.find (\<lambda>n. starts_with n cs) alts else None) of
        Some n \<Rightarrow> Inr n # scan alts (drop (length n) cs)
      | None \<Rightarrow> Inl c # scan alts cs)"
  by pat_completeness auto
termination by (relation "measure (\<lambda>(_, s). length s)") auto

definition mentions :: "string list \<Rightarrow> string \<Rightarrow> string list" where
  "mentions alts s = List.map_filter (\<lambda>p. case p of Inl _ \<Rightarrow> None | Inr n \<Rightarrow> Some n) (scan alts s)"

definition byName :: "member list \<Rightarrow> string \<Rightarrow> ident option" where
  "byName members n = map_of (rev (map (\<lambda>(i, nm, _). (nm, i)) members)) n"

definition mentionedMemberIds :: "string \<Rightarrow> member list \<Rightarrow> ident list" where
  "mentionedMemberIds s members =
     (case mentionRegex (map (\<lambda>(_, n, _). n) members) of
        None \<Rightarrow> []
      | Some alts \<Rightarrow> js_set (List.map_filter (\<lambda>n. truthy (byName members n)) (mentions alts s)))"

text \<open>What the comment form sends: everybody mentioned but oneself, nothing when that is nobody.\<close>

definition mentionStaffIds :: "ident option \<Rightarrow> string \<Rightarrow> member list \<Rightarrow> ident list option" where
  "mentionStaffIds me body members =
     (let ids = filter (\<lambda>i. Some i \<noteq> me) (mentionedMemberIds body members)
      in if ids = [] then None else Some ids)"

datatype span = Plain string | Highlight string

fun spans :: "string \<Rightarrow> (char + string) list \<Rightarrow> span list" where
  "spans acc [] = (if acc = [] then [] else [Plain acc])"
| "spans acc (Inl c # ps) = spans (acc @ [c]) ps"
| "spans acc (Inr n # ps) = (if acc = [] then [] else [Plain acc]) @ Highlight n # spans [] ps"

definition renderBody :: "string \<Rightarrow> string list \<Rightarrow> span list" where
  "renderBody s names =
     (case mentionRegex names of
        None \<Rightarrow> [Plain s]
      | Some alts \<Rightarrow> spans [] (scan alts s))"

fun span_text :: "span \<Rightarrow> string" where
  "span_text (Plain s) = s"
| "span_text (Highlight n) = CHR ''@'' # n"

definition highlighted :: "string \<Rightarrow> string list \<Rightarrow> string list" where
  "highlighted s names = List.map_filter (\<lambda>p. case p of Plain _ \<Rightarrow> None | Highlight n \<Rightarrow> Some n) (renderBody s names)"

fun piece_text :: "char + string \<Rightarrow> string" where
  "piece_text (Inl c) = [c]"
| "piece_text (Inr n) = CHR ''@'' # n"

lemma find_Some_prefix: "List.find (\<lambda>n. starts_with n cs) alts = Some n \<Longrightarrow> n \<in> set alts \<and> n @ drop (length n) cs = cs"
  by (auto simp: find_Some_iff starts_with_def) (metis append_take_drop_id)

lemma scan_text: "concat (map piece_text (scan alts s)) = s"
proof (induction alts s rule: scan.induct)
  case (2 alts c cs)
  show ?case
  proof (cases "if c = CHR ''@'' then List.find (\<lambda>n. starts_with n cs) alts else None")
    case None
    with 2 show ?thesis by simp
  next
    case (Some n)
    then have "c = CHR ''@''" and "n @ drop (length n) cs = cs"
      using find_Some_prefix by (auto split: if_splits)
    with 2 Some show ?thesis by simp
  qed
qed simp

lemma spans_text: "concat (map span_text (spans acc ps)) = acc @ concat (map piece_text ps)"
  by (induction acc ps rule: spans.induct) auto

lemma spans_highlights:
  "List.map_filter (\<lambda>p. case p of Plain _ \<Rightarrow> None | Highlight n \<Rightarrow> Some n) (spans acc ps)
     = List.map_filter (\<lambda>p. case p of Inl _ \<Rightarrow> None | Inr n \<Rightarrow> Some n) ps"
  by (induction acc ps rule: spans.induct) (auto simp: List.map_filter_simps)

lemma highlighted_mentions:
  "mentionRegex names = Some alts \<Longrightarrow> highlighted s names = mentions alts s"
  by (simp add: highlighted_def renderBody_def mentions_def spans_highlights)

lemma mentions_known:
  "n \<in> set (mentions alts s) \<Longrightarrow> n \<in> set alts"
proof (induction alts s rule: scan.induct)
  case (1 alts)
  then show ?case by (simp add: mentions_def List.map_filter_simps)
next
  case (2 alts c cs)
  show ?case
  proof (cases "if c = CHR ''@'' then List.find (\<lambda>n. starts_with n cs) alts else None")
    case None
    with 2 show ?thesis by (simp add: mentions_def List.map_filter_simps)
  next
    case (Some m)
    then have "m \<in> set alts" using find_Some_prefix by (auto split: if_splits)
    with 2 Some show ?thesis by (auto simp: mentions_def List.map_filter_simps)
  qed
qed

lemma mentionRegex_set: "mentionRegex names = Some alts \<Longrightarrow> set alts = set names - {[]}"
  by (auto simp: mentionRegex_def Let_def split: if_splits)

text \<open>The alternation picks the longest known name.\<close>

lemma longest_name_first:
  assumes "mentionRegex names = Some alts" and "List.find (\<lambda>n. starts_with n s) alts = Some n"
    and "m \<in> set names" and "m \<noteq> []" and "starts_with m s"
  shows "length m \<le> length n"
proof -
  have "sorted (map (\<lambda>n. - int (length n)) alts)"
    using assms(1) by (auto simp: mentionRegex_def Let_def split: if_splits)
  moreover obtain k where k: "k < length alts" "alts ! k = n" "\<forall>j<k. \<not> starts_with (alts ! j) s"
    using assms(2) by (auto simp: find_Some_iff)
  moreover have "m \<in> set alts" using assms(1,3,4) mentionRegex_set by blast
  then obtain j where j: "j < length alts" "alts ! j = m" by (auto simp: in_set_conv_nth)
  moreover have "k \<le> j" using k(3) j(2) assms(5) by (metis not_less)
  ultimately show ?thesis
    using sorted_nth_mono [of "map (\<lambda>n. - int (length n)) alts" k j] by simp
qed

lemma byName_unique:
  assumes "distinct (map (\<lambda>(_, n, _). n) members)" and "(i, n, em) \<in> set members"
  shows "byName members n = Some i"
proof -
  have "distinct (map fst (rev (map (\<lambda>(i, nm, _). (nm, i)) members)))"
    using assms(1) by (simp add: comp_def split_def flip: rev_map)
  moreover have "(n, i) \<in> set (rev (map (\<lambda>(i, nm, _). (nm, i)) members))" using assms(2) by force
  ultimately show ?thesis by (simp add: byName_def)
qed

lemma byName_member: "byName members n = Some i \<Longrightarrow> \<exists>em. (i, n, em) \<in> set members"
  by (auto simp: byName_def dest!: map_of_SomeD)

text \<open>
  What a comment shows and whom it notifies agree: the rendered body
  reads back as the text that was typed, and when no two members share a name, exactly the
  members whose name is highlighted are notified.
\<close>

theorem highlighted_is_notified:
  assumes "distinct (map (\<lambda>(_, n, _). n) members)" and "\<forall>(i, _, _) \<in> set members. i \<noteq> []"
  shows "concat (map span_text (renderBody s (map (\<lambda>(_, n, _). n) members))) = s
    \<and> set (mentionedMemberIds s members)
        = {i. \<exists>n em. (i, n, em) \<in> set members \<and> n \<in> set (highlighted s (map (\<lambda>(_, n, _). n) members))}"
proof (cases "mentionRegex (map (\<lambda>(_, n, _). n) members)")
  case None
  have "highlighted s (map (\<lambda>(_, n, _). n) members) = []"
    by (simp add: highlighted_def renderBody_def None List.map_filter_simps)
  with None show ?thesis by (simp add: renderBody_def mentionedMemberIds_def)
next
  case (Some alts)
  have t: "truthy (Some i) = Some i" if "(i, n, em) \<in> set members" for i n em
    using assms(2) that by (auto simp: truthy_def)
  have "set (mentionedMemberIds s members) = {i. \<exists>n \<in> set (mentions alts s). truthy (byName members n) = Some i}"
    by (auto simp: mentionedMemberIds_def Some set_map_filter)
  also have "\<dots> = {i. \<exists>n em. (i, n, em) \<in> set members \<and> n \<in> set (mentions alts s)}"
  proof (intro Collect_cong iffI)
    fix i assume "\<exists>n \<in> set (mentions alts s). truthy (byName members n) = Some i"
    then obtain n where n: "n \<in> set (mentions alts s)" "byName members n = Some i"
      by (auto simp: truthy_def split: option.splits if_splits)
    then show "\<exists>n em. (i, n, em) \<in> set members \<and> n \<in> set (mentions alts s)" using byName_member by blast
  next
    fix i assume "\<exists>n em. (i, n, em) \<in> set members \<and> n \<in> set (mentions alts s)"
    then obtain n em where n: "(i, n, em) \<in> set members" "n \<in> set (mentions alts s)" by blast
    then have "truthy (byName members n) = Some i" using byName_unique [OF assms(1)] t by simp
    with n(2) show "\<exists>n \<in> set (mentions alts s). truthy (byName members n) = Some i" by blast
  qed
  finally show ?thesis
    by (simp add: highlighted_mentions [OF Some]) (simp add: renderBody_def Some spans_text scan_text)
qed

definition asha :: "member list" where
  "asha = [(''u1'', ''Asha'', ''a@x''), (''u2'', ''Asha Rao'', ''r@x'')]"

theorem highlighted_is_notified_witness:
  "set (mentionedMemberIds ''cc @Asha Rao'' asha)
     = {i. \<exists>n em. (i, n, em) \<in> set asha \<and> n \<in> set (highlighted ''cc @Asha Rao'' (map (\<lambda>(_, n, _). n) asha))}
   \<and> mentionedMemberIds ''cc @Asha Rao'' asha = [''u2'']"
proof -
  have "distinct (map (\<lambda>(_, n, _). n) asha)" "\<forall>(i, _, _) \<in> set asha. i \<noteq> []" by (simp_all add: asha_def)
  from highlighted_is_notified [OF this, of "''cc @Asha Rao''"]
  have "set (mentionedMemberIds ''cc @Asha Rao'' asha)
     = {i. \<exists>n em. (i, n, em) \<in> set asha \<and> n \<in> set (highlighted ''cc @Asha Rao'' (map (\<lambda>(_, n, _). n) asha))}"
    by (rule conjunct2)
  moreover have "mentionedMemberIds ''cc @Asha Rao'' asha = [''u2'']" by code_simp
  ultimately show ?thesis by (rule conjI)
qed

text \<open>Two members of one name: both read as mentioned, the later one alone is notified.\<close>

lemma namesake_is_not_notified:
  "mentionedMemberIds ''@Wei please look'' [(''u1'', ''Wei'', ''w1@x''), (''u2'', ''Wei'', ''w2@x'')] = [''u2'']"
  by code_simp

text \<open>A name is also found at the start of a longer word.\<close>

lemma mention_inside_a_word:
  "mentionedMemberIds ''@Annabel'' [(''u1'', ''Ann'', ''a@x'')] = [''u1'']"
  by code_simp

section \<open>Reply templates\<close>

text \<open>
  \<^verbatim>\<open>String.replace\<close> with a string gives \<^verbatim>\<open>$\<close> a meaning: two of them are one, and it
  stands for the match, the text before it or the text after it. \<^verbatim>\<open>bef\<close> and \<^verbatim>\<open>aft\<close> are
  parts of the string being searched.
\<close>

fun expand :: "string \<Rightarrow> string \<Rightarrow> string \<Rightarrow> string \<Rightarrow> string" where
  "expand [] m bef aft = []"
| "expand [c] m bef aft = [c]"
| "expand (c # d # r) m bef aft =
     (if c \<noteq> CHR ''$'' then c # expand (d # r) m bef aft
      else if d = CHR ''$'' then CHR ''$'' # expand r m bef aft
      else if d = CHR ''&'' then m @ expand r m bef aft
      else if d = CHR 0x60 then bef @ expand r m bef aft
      else if d = CHR 0x27 then aft @ expand r m bef aft
      else c # expand (d # r) m bef aft)"

text \<open>
  A match of \<^verbatim>\<open>/\{\{\s*key\s*\}\}/i\<close> at the front: what follows it.
\<close>

definition match_placeholder :: "string \<Rightarrow> string \<Rightarrow> string option" where
  "match_placeholder key s =
     (if take 2 s \<noteq> ''{{'' then None
      else (let r = dropWhile is_ws (drop 2 s) in
        if length r < length key \<or> js_lower (take (length key) r) \<noteq> key then None
        else (let r2 = dropWhile is_ws (drop (length key) r) in
          if take 2 r2 = ''}}'' then Some (drop 2 r2) else None)))"

lemma length_dropWhile_le': "length (dropWhile P xs) \<le> length xs"
  by (rule length_dropWhile_le)

lemma match_placeholder_shorter: "match_placeholder key s = Some r \<Longrightarrow> length r < length s"
proof -
  assume m: "match_placeholder key s = Some r"
  then have p: "take 2 s = ''{{''" by (auto simp: match_placeholder_def split: if_splits)
  let ?a = "dropWhile is_ws (drop 2 s)"
  have "r = drop 2 (dropWhile is_ws (drop (length key) ?a))"
    using m by (auto simp: match_placeholder_def Let_def split: if_splits)
  then have "length r \<le> length ?a"
    using length_dropWhile_le [of is_ws "drop (length key) ?a"] by simp
  also have "\<dots> \<le> length (drop 2 s)" by (rule length_dropWhile_le)
  also have "\<dots> < length s" using p by (cases s) auto
  finally show ?thesis .
qed

function replace_placeholder :: "string \<Rightarrow> string \<Rightarrow> string \<Rightarrow> string \<Rightarrow> string" where
  "replace_placeholder key v bef [] = []"
| "replace_placeholder key v bef (c # cs) =
     (case match_placeholder key (c # cs) of
        Some r \<Rightarrow>
          (let m = take (length (c # cs) - length r) (c # cs)
           in expand v m bef r @ replace_placeholder key v (bef @ m) r)
      | None \<Rightarrow> c # replace_placeholder key v (bef @ [c]) cs)"
  by pat_completeness auto
termination
  by (relation "measure (\<lambda>(_, _, _, s). length s)") (auto dest: match_placeholder_shorter)

record template_data =
  td_reporter :: "string option"
  td_reference :: string
  td_assignee :: "string option"
  td_platform :: "string option"

definition fillTemplate :: "template_data \<Rightarrow> string \<Rightarrow> string" where
  "fillTemplate d body =
     replace_placeholder ''platform'' (case td_platform d of Some n \<Rightarrow> n | None \<Rightarrow> [])  []
    (replace_placeholder ''assignee'' (case td_assignee d of Some n \<Rightarrow> n | None \<Rightarrow> ''the team'') []
    (replace_placeholder ''reference'' (td_reference d) []
    (replace_placeholder ''reporter'' (case td_reporter d of Some n \<Rightarrow> n | None \<Rightarrow> ''there'') [] body)))"

text \<open>Inserting a filled template at the caret: on a line of its own unless already at one.\<close>

definition insertCanned :: "template_data \<Rightarrow> string \<Rightarrow> nat \<Rightarrow> string \<Rightarrow> string \<times> nat" where
  "insertCanned d templateBody caret body =
     (let filled = fillTemplate d templateBody;
          bef = take caret body; aft = drop caret body;
          sep = (if bef \<noteq> [] \<and> last bef \<noteq> CHR 0x0A then [CHR 0x0A] else [])
      in (bef @ sep @ filled @ aft, length (bef @ sep @ filled)))"

text \<open>
  A template as its author thinks of it: literal text and slots, and what it should become.
\<close>

datatype slot = Reporter_name | Reference | Assignee | Platform_name

fun slot_key :: "slot \<Rightarrow> string" where
  "slot_key Reporter_name = ''reporter''"
| "slot_key Reference = ''reference''"
| "slot_key Assignee = ''assignee''"
| "slot_key Platform_name = ''platform''"

datatype segment = Lit string | Slot slot

fun segment_source :: "segment \<Rightarrow> string" where
  "segment_source (Lit s) = s"
| "segment_source (Slot k) = ''{{'' @ slot_key k @ ''}}''"

fun slot_value :: "template_data \<Rightarrow> slot \<Rightarrow> string" where
  "slot_value d Reporter_name = (case td_reporter d of Some n \<Rightarrow> n | None \<Rightarrow> ''there'')"
| "slot_value d Reference = td_reference d"
| "slot_value d Assignee = (case td_assignee d of Some n \<Rightarrow> n | None \<Rightarrow> ''the team'')"
| "slot_value d Platform_name = (case td_platform d of Some n \<Rightarrow> n | None \<Rightarrow> [])"

fun segment_filled :: "template_data \<Rightarrow> segment \<Rightarrow> string" where
  "segment_filled d (Lit s) = s"
| "segment_filled d (Slot k) = slot_value d k"

fun literal_ok :: "segment \<Rightarrow> bool" where
  "literal_ok (Lit s) = (CHR ''{'' \<notin> set s)"
| "literal_ok (Slot k) = True"

fun fill_slot :: "slot \<Rightarrow> string \<Rightarrow> segment \<Rightarrow> segment" where
  "fill_slot k v (Slot j) = (if j = k then Lit v else Slot j)"
| "fill_slot k v (Lit s) = Lit s"

lemma expand_plain: "CHR ''$'' \<notin> set v \<Longrightarrow> expand v m b a = v"
  by (induction v m b a rule: expand.induct) auto

lemma replace_literal:
  "CHR ''{'' \<notin> set x \<Longrightarrow> replace_placeholder key v b (x @ r) = x @ replace_placeholder key v (b @ x) r"
proof (induction x arbitrary: b)
  case (Cons c x)
  have "match_placeholder key (c # x @ r) = None"
    using Cons.prems by (cases "x @ r") (auto simp: match_placeholder_def)
  with Cons show ?case by simp
qed simp

lemma match_own_slot: "match_placeholder (slot_key k) (''{{'' @ slot_key k @ ''}}'' @ r) = Some r"
  by (cases k) (simp_all add: match_placeholder_def is_ws_def code_def js_lower_def lower_char_def Let_def)

lemma replace_own_slot:
  "CHR ''$'' \<notin> set v \<Longrightarrow> replace_placeholder (slot_key k) v b (''{{'' @ slot_key k @ ''}}'' @ r)
     = v @ replace_placeholder (slot_key k) v (b @ ''{{'' @ slot_key k @ ''}}'') r"
  using match_own_slot [of k r] by (cases k) (simp_all add: expand_plain Let_def)

lemma match_other_slot:
  "j \<noteq> k \<Longrightarrow> match_placeholder (slot_key k) (''{{'' @ slot_key j @ ''}}'' @ r) = None
    \<and> match_placeholder (slot_key k) (CHR ''{'' # slot_key j @ ''}}'' @ r) = None"
  by (cases j; cases k) (simp_all add: match_placeholder_def is_ws_def code_def js_lower_def lower_char_def Let_def)

lemma replace_other_slot:
  assumes "j \<noteq> k"
  shows "replace_placeholder (slot_key k) v b (''{{'' @ slot_key j @ ''}}'' @ r)
     = ''{{'' @ slot_key j @ ''}}'' @ replace_placeholder (slot_key k) v (b @ ''{{'' @ slot_key j @ ''}}'') r"
proof -
  have "CHR ''{'' \<notin> set (slot_key j @ ''}}'')" by (cases j) simp_all
  from replace_literal [OF this, of "slot_key k" v "(b @ ''{'') @ ''{''" r] match_other_slot [OF assms, of r]
  show ?thesis by simp
qed

lemma replace_segments:
  assumes "CHR ''$'' \<notin> set v" and "list_all literal_ok segs"
  shows "replace_placeholder (slot_key k) v b (concat (map segment_source segs))
     = concat (map (segment_source \<circ> fill_slot k v) segs)"
  using assms(2)
proof (induction segs arbitrary: b)
  case (Cons g segs)
  show ?case
  proof (cases g)
    case (Lit s)
    with Cons show ?thesis by (simp add: replace_literal)
  next
    case (Slot j)
    then show ?thesis
      using Cons replace_own_slot [OF assms(1), of k] replace_other_slot [of j k v] by (cases "j = k") simp_all
  qed
qed simp

lemma fill_slot_ok:
  "CHR ''{'' \<notin> set v \<Longrightarrow> list_all literal_ok segs \<Longrightarrow> list_all literal_ok (map (fill_slot k v) segs)"
proof (induction segs)
  case (Cons g segs)
  then show ?case by (cases g) simp_all
qed simp

text \<open>
  For names without a dollar sign or an opening brace, filling a template
  is what its author means: every slot becomes the value of the issue (or its fallback) and
  the text between the slots is untouched.
\<close>

theorem template_is_filled:
  assumes "list_all literal_ok segs"
    and "\<forall>k \<in> set [Reporter_name, Reference, Assignee, Platform_name].
      set (slot_value d k) \<inter> {CHR ''$'', CHR ''{''} = {}"
  shows "fillTemplate d (concat (map segment_source segs)) = concat (map (segment_filled d) segs)"
proof -
  have v: "CHR ''$'' \<notin> set (slot_value d k)" "CHR ''{'' \<notin> set (slot_value d k)" for k
    using assms(2) by (cases k; simp)+
  let ?f = "\<lambda>k. fill_slot k (slot_value d k)"
  let ?s1 = "map (?f Reporter_name) segs"
  let ?s2 = "map (?f Reference) ?s1"
  let ?s3 = "map (?f Assignee) ?s2"
  have ok: "list_all literal_ok ?s1" "list_all literal_ok ?s2" "list_all literal_ok ?s3"
    using assms(1) fill_slot_ok v by blast+
  have r: "replace_placeholder (slot_key k) (slot_value d k) [] (concat (map segment_source gs))
      = concat (map segment_source (map (?f k) gs))" if "list_all literal_ok gs" for k gs
    using replace_segments [OF v(1) that] by simp
  have "fillTemplate d (concat (map segment_source segs))
      = concat (map segment_source (map (?f Platform_name) ?s3))"
    using r [OF assms(1), of Reporter_name] r [OF ok(1), of Reference] r [OF ok(2), of Assignee]
      r [OF ok(3), of Platform_name] by (simp add: fillTemplate_def del: map_map)
  moreover have "segment_source (?f Platform_name (?f Assignee (?f Reference (?f Reporter_name g)))) = segment_filled d g" for g
  proof (cases g)
    case (Slot k)
    then show ?thesis by (cases k) simp_all
  qed simp
  then have "concat (map segment_source (map (?f Platform_name) ?s3)) = concat (map (segment_filled d) segs)"
    by (simp add: comp_def del: slot_value.simps)
  ultimately show ?thesis by (rule trans)
qed

definition demo_data :: template_data where
  "demo_data = \<lparr>td_reporter = Some ''Mia'', td_reference = ''SUP-1'', td_assignee = None, td_platform = Some ''Portal''\<rparr>"

theorem template_is_filled_witness:
  "fillTemplate demo_data ''Hi {{reporter}}, {{assignee}} looks at {{reference}}.'' = ''Hi Mia, the team looks at SUP-1.''"
proof -
  let ?segs = "[Lit ''Hi '', Slot Reporter_name, Lit '', '', Slot Assignee, Lit '' looks at '', Slot Reference, Lit ''.'']"
  have "list_all literal_ok ?segs" by simp
  moreover have "\<forall>k \<in> set [Reporter_name, Reference, Assignee, Platform_name].
      set (slot_value demo_data k) \<inter> {CHR ''$'', CHR ''{''} = {}" by (simp add: demo_data_def)
  ultimately have "fillTemplate demo_data (concat (map segment_source ?segs)) = concat (map (segment_filled demo_data) ?segs)"
    by (rule template_is_filled)
  then show ?thesis by (simp add: demo_data_def)
qed

text \<open>
  Names with a dollar sign are mangled by the replacement patterns, and a reporter can put a
  placeholder in their own name.
\<close>

lemma dollar_name_is_mangled:
  "fillTemplate (demo_data\<lparr>td_reporter := Some ''Ca$$h''\<rparr>) ''Hi {{reporter}}!'' = ''Hi Ca$h!''
   \<and> fillTemplate (demo_data\<lparr>td_reporter := Some ''$&''\<rparr>) ''Hi {{reporter}}!'' = ''Hi {{reporter}}!''"
  by code_simp

lemma name_with_placeholder_is_expanded:
  "fillTemplate (demo_data\<lparr>td_reporter := Some ''{{platform}}''\<rparr>) ''Hi {{reporter}}!'' = ''Hi Portal!''"
  by code_simp

section \<open>Labels and previews\<close>

definition math_round :: "rat \<Rightarrow> int" where
  "math_round x = \<lfloor>x + 1 / 2\<rfloor>"

text \<open>
  \<^verbatim>\<open>relativeTime\<close>: \<^verbatim>\<open>elapsed\<close> is the milliseconds since the stamp, \<^verbatim>\<open>absolute\<close> the
  date it falls back to.
\<close>

definition relativeTime :: "string \<Rightarrow> int \<Rightarrow> string" where
  "relativeTime absolute elapsed =
     (let minutes = math_round (of_int elapsed / 60000) in
      if minutes < 1 then ''just now''
      else if minutes < 60 then show_nat (nat minutes) @ ''m ago''
      else (let hr = math_round (of_int minutes / 60) in
        if hr < 24 then show_nat (nat hr) @ ''h ago''
        else (let day = math_round (of_int hr / 24) in
          if day < 30 then show_nat (nat day) @ ''d ago'' else absolute)))"

definition initials :: "string option \<Rightarrow> string" where
  "initials name =
     (case truthy name of
        None \<Rightarrow> ''?''
      | Some n \<Rightarrow> js_upper (take 2 (concat (map (take 1) (split_char (CHR '' '') n)))))"

definition firstLine :: "string \<Rightarrow> nat \<Rightarrow> string" where
  "firstLine txt limit =
     (let line = (case List.find (\<lambda>l. l \<noteq> []) (map js_trim (split_char (CHR 0x0A) txt)) of Some l \<Rightarrow> l | None \<Rightarrow> [])
      in if limit < length line then js_trim_end (take limit line) @ ellipsis else line)"

definition pct :: "nat \<Rightarrow> nat \<Rightarrow> int" where
  "pct n whole = (if 0 < whole then math_round (of_nat n / of_nat whole * 100) else 0)"

text \<open>The rounded figure and its unit; \<^verbatim>\<open>None\<close> shows a dash.\<close>

definition hoursFmt :: "rat option \<Rightarrow> (rat \<times> char) option" where
  "hoursFmt hours =
     map_option (\<lambda>h. if h < 48 then (of_int (math_round (h * 10)) / 10, CHR ''h'')
                     else (of_int (math_round (h / 24 * 10)) / 10, CHR ''d'')) hours"

definition actionLabel :: "string \<Rightarrow> string" where
  "actionLabel action =
     (let ws = js_lower (map (\<lambda>c. if c = CHR ''_'' then CHR '' '' else c) action)
      in js_upper (take 1 ws) @ drop 1 ws)"

definition enumLabel :: "string option \<Rightarrow> string" where
  "enumLabel v = (case truthy v of None \<Rightarrow> long_dash | Some x \<Rightarrow> actionLabel x)"

fun status_text :: "issue_status \<Rightarrow> string" where
  "status_text NEW = ''New''"
| "status_text IN_PROGRESS = ''In progress''"
| "status_text ON_HOLD = ''On hold''"
| "status_text RESOLVED = ''Resolved''"
| "status_text CLOSED = ''Closed''"
| "status_text REOPENED = ''Reopened''"

fun priority_text :: "priority \<Rightarrow> string" where
  "priority_text LOW = ''Low''"
| "priority_text MEDIUM = ''Medium''"
| "priority_text HIGH = ''High''"
| "priority_text CRITICAL = ''Critical''"

fun role_text :: "role \<Rightarrow> string" where
  "role_text FOCAL_POINT = ''Focal point''"
| "role_text DEVELOPER = ''Developer''"
| "role_text ADMIN = ''Admin''"
| "role_text WATCHER = ''Watcher''"

text \<open>
  A value of the history: statuses, priorities and roles through their labels when the name is
  one of theirs, everything else as it is.
\<close>

definition role_of_name :: "string \<Rightarrow> role option" where
  "role_of_name n = List.find (\<lambda>r. role_name r = n) [FOCAL_POINT, DEVELOPER, ADMIN, WATCHER]"

definition historyValue :: "string option \<Rightarrow> string option \<Rightarrow> string" where
  "historyValue field v =
     (case truthy v of
        None \<Rightarrow> long_dash
      | Some x \<Rightarrow>
          (if field = Some ''status'' then (case status_of_name x of Some st \<Rightarrow> status_text st | None \<Rightarrow> x)
           else if field = Some ''priority'' then (case priority_of_name x of Some p \<Rightarrow> priority_text p | None \<Rightarrow> x)
           else if field = Some ''role'' then (case role_of_name x of Some r \<Rightarrow> role_text r | None \<Rightarrow> x)
           else x))"

lemma math_round_mono: "x \<le> y \<Longrightarrow> math_round x \<le> math_round y"
  unfolding math_round_def by (intro floor_mono) simp

lemma math_round_of_int [simp]: "math_round (of_int k) = k"
proof -
  have "(of_int k :: rat) \<le> of_int k + 1 / 2 \<and> of_int k + 1 / 2 < (of_int k :: rat) + 1" by simp
  then show ?thesis unfolding math_round_def by (metis floor_unique)
qed

lemma pct_range: "n \<le> whole \<Longrightarrow> 0 \<le> pct n whole \<and> pct n whole \<le> 100"
proof (cases "0 < whole")
  case True
  assume "n \<le> whole"
  with True have "(of_nat n :: rat) / of_nat whole * 100 \<le> of_int 100" "(of_int 0 :: rat) \<le> of_nat n / of_nat whole * 100"
    by (simp_all add: divide_le_eq)
  from math_round_mono [OF this(1)] math_round_mono [OF this(2)] True show ?thesis
    by (simp add: pct_def math_round_of_int [of 0, simplified] math_round_of_int [of 100, simplified])
qed (simp add: pct_def)

lemma firstLine_length: "length (firstLine txt limit) \<le> Suc limit"
proof -
  have "length (js_trim_end (take limit l)) \<le> limit" for l
    unfolding js_trim_end_def using length_dropWhile_le [of is_ws "rev (take limit l)"] by simp
  then show ?thesis by (auto simp: firstLine_def Let_def ellipsis_def le_SucI)
qed

text \<open>Every status is shown by its label, and the label is what the audit log makes of the name.\<close>

lemma history_labels_agree:
  "list_all (\<lambda>st. historyValue (Some ''status'') (Some (status_name st)) = status_text st
      \<and> actionLabel (status_name st) = status_text st) [NEW, IN_PROGRESS, ON_HOLD, RESOLVED, CLOSED, REOPENED]"
  by code_simp

end
