(* ===== verification/ClientBoard.thy ===== *)
theory ClientBoard
  imports ClientAccess ClientText
begin

text \<open>
  The board and the triage queue (\<^verbatim>\<open>frontend/src/staff/BoardPage.tsx\<close>,
  \<^verbatim>\<open>staff/TriagePage.tsx\<close>): moves are shown before the server has answered and rolled back
  when it refuses. The page is an inductive step relation over the cards, the requests under
  way and the refetch that is owed; next to it runs what the server holds. Swimlanes are a
  partition of the cards.
\<close>

section \<open>The working copy\<close>

text \<open>
  Requests carry their number in the calls of the page's mutation; the query library runs the
  callbacks given with a call only for the latest call (its documented behaviour), the callbacks
  of the mutation itself for every one.
\<close>

record board =
  bd_data :: "(list_item list \<times> nat) option"
  bd_items :: "list_item list"
  bd_calls :: nat
  bd_pending :: "(nat \<times> list_item \<times> issue_status) list"
  bd_assign_calls :: nat
  bd_assigns :: "(nat \<times> list_item) list"
  bd_stale :: bool
  bd_toasts :: "string list"

definition latest_call :: "nat \<Rightarrow> nat \<Rightarrow> bool" where
  "latest_call calls n \<longleftrightarrow> Suc n = calls"

definition set_card_status :: "ident \<Rightarrow> issue_status \<Rightarrow> list_item list \<Rightarrow> list_item list" where
  "set_card_status i st cs = map (\<lambda>c. if li_id c = i then c\<lparr>li_status := st\<rparr> else c) cs"

definition set_card_assignee :: "ident \<Rightarrow> (ident \<times> string) option \<Rightarrow> list_item list \<Rightarrow> list_item list" where
  "set_card_assignee i a cs = map (\<lambda>c. if li_id c = i then c\<lparr>li_assignee := a\<rparr> else c) cs"

definition toast :: "string list \<Rightarrow> board \<Rightarrow> board" where
  "toast ms b = b\<lparr>bd_toasts := bd_toasts b @ ms\<rparr>"

text \<open>A conflict invalidates the board's query; everything else is the shared toast.\<close>

definition handleMutationError :: "axios_error \<Rightarrow> list_item \<Rightarrow> board \<Rightarrow> board" where
  "handleMutationError e c b =
     (if httpStatus e = Some 409
      then toast [li_reference_no c @ '' changed elsewhere '' @ long_dash @ '' reloaded, try again.''] (b\<lparr>bd_stale := True\<rparr>)
      else toast (toastApiError e) b)"

definition moveIssue :: "staff_me option \<Rightarrow> list_item \<Rightarrow> issue_status \<Rightarrow> board \<Rightarrow> board" where
  "moveIssue me c target b =
     (if li_status c = target then b
      else if \<not> canMove me c then b
      else if \<not> client_canTransition (li_status c) target
      then toast [''Can'' @ quote_s @ ''t move '' @ li_reference_no c @ '' from '' @ status_text (li_status c)
             @ '' to '' @ status_text target @ ''.''] b
      else b\<lparr>bd_items := set_card_status (li_id c) target (bd_items b), bd_calls := Suc (bd_calls b),
             bd_pending := bd_pending b @ [(bd_calls b, c, target)]\<rparr>)"

text \<open>The answers to a move: its success refetches the board in any case.\<close>

definition changeStatus_onSuccess :: "board \<Rightarrow> board" where
  "changeStatus_onSuccess b = b\<lparr>bd_stale := True\<rparr>"

definition move_succeeded :: "nat \<times> list_item \<times> issue_status \<Rightarrow> board \<Rightarrow> board" where
  "move_succeeded m b =
     (let b1 = changeStatus_onSuccess (b\<lparr>bd_pending := remove1 m (bd_pending b)\<rparr>) in
      if latest_call (bd_calls b) (fst m)
      then toast [li_reference_no (fst (snd m)) @ '' '' @ arrow @ '' '' @ status_text (snd (snd m)) @ ''.''] b1
      else b1)"

definition move_failed :: "axios_error \<Rightarrow> nat \<times> list_item \<times> issue_status \<Rightarrow> board \<Rightarrow> board" where
  "move_failed e m b =
     (let b1 = b\<lparr>bd_pending := remove1 m (bd_pending b)\<rparr>; c = fst (snd m) in
      if latest_call (bd_calls b) (fst m)
      then handleMutationError e c (b1\<lparr>bd_items := set_card_status (li_id c) (li_status c) (bd_items b1)\<rparr>)
      else b1)"

definition onDragEnd :: "staff_me option \<Rightarrow> ident \<Rightarrow> issue_status option \<Rightarrow> board \<Rightarrow> board" where
  "onDragEnd me i over b =
     (case (List.find (\<lambda>c. li_id c = i) (bd_items b), over) of
        (Some c, Some target) \<Rightarrow> moveIssue me c target b
      | _ \<Rightarrow> b)"

definition assignToMe :: "staff_me option \<Rightarrow> list_item \<Rightarrow> board \<Rightarrow> board" where
  "assignToMe me c b =
     (case me of
        None \<Rightarrow> b
      | Some m \<Rightarrow> b\<lparr>bd_items := set_card_assignee (li_id c) (Some (me_id m, me_name m)) (bd_items b),
                   bd_assign_calls := Suc (bd_assign_calls b), bd_assigns := bd_assigns b @ [(bd_assign_calls b, c)]\<rparr>)"

text \<open>The answers to an assignment: all that is done with them belongs to the call.\<close>

definition assign_succeeded :: "nat \<times> list_item \<Rightarrow> board \<Rightarrow> board" where
  "assign_succeeded m b =
     (let b1 = b\<lparr>bd_assigns := remove1 m (bd_assigns b)\<rparr> in
      if latest_call (bd_assign_calls b) (fst m)
      then toast [li_reference_no (snd m) @ '' assigned to you.''] (b1\<lparr>bd_stale := True\<rparr>)
      else b1)"

definition assign_failed :: "axios_error \<Rightarrow> nat \<times> list_item \<Rightarrow> board \<Rightarrow> board" where
  "assign_failed e m b =
     (let b1 = b\<lparr>bd_assigns := remove1 m (bd_assigns b)\<rparr>; c = snd m in
      if latest_call (bd_assign_calls b) (fst m)
      then handleMutationError e c (b1\<lparr>bd_items := set_card_assignee (li_id c) (li_assignee c) (bd_items b1)\<rparr>)
      else b1)"

text \<open>
  A page of rows arrives. The query library keeps the object it has when the answer equals it
  (structural sharing, on by default), and the effect that copies the rows runs only for a new
  one.
\<close>

definition resync :: "list_item list \<times> nat \<Rightarrow> board \<Rightarrow> board" where
  "resync page b =
     (if bd_data b = Some page then b\<lparr>bd_stale := False\<rparr>
      else b\<lparr>bd_data := Some page, bd_items := fst page, bd_stale := False\<rparr>)"

definition empty_board :: board where
  "empty_board = \<lparr>bd_data = None, bd_items = [], bd_calls = 0, bd_pending = [], bd_assign_calls = 0, bd_assigns = [],
     bd_stale = False, bd_toasts = []\<rparr>"

section \<open>The page at work\<close>

text \<open>
  Next to the page runs what the server holds per issue, its status and its version. Nothing
  holds the user back: any card is dragged or taken at any time, also while a request of its
  own is under way or while it shows what the server has not confirmed. Requests are answered
  in any order, others write issues meanwhile, events of the stream invalidate the board,
  refetches arrive at any time. (An answer that is lost on its way is a write by others followed
  by a refusal.)

  The third part names the issues out of step, until a refetch brings something new: a refusal
  whose callbacks the library drops because a later move has begun; a rollback to a status the
  server does not hold, since the move had started from an unconfirmed one or somebody has
  moved the issue meanwhile; and a move by somebody else.
\<close>

type_synonym server_rows = "ident \<Rightarrow> issue_status \<times> int"

type_synonym board_run = "board \<times> server_rows \<times> ident set"

definition rolls_back :: "board \<Rightarrow> server_rows \<Rightarrow> nat \<times> list_item \<times> issue_status \<Rightarrow> bool" where
  "rolls_back b sv m \<longleftrightarrow>
     latest_call (bd_calls b) (fst m) \<and> li_status (fst (snd m)) = fst (sv (li_id (fst (snd m))))"

definition row_current :: "server_rows \<Rightarrow> list_item \<Rightarrow> bool" where
  "row_current sv r \<longleftrightarrow> sv (li_id r) = (li_status r, li_version r)"

text \<open>A write of the server: the status it leaves, the version one up.\<close>

definition server_write :: "ident \<Rightarrow> issue_status \<Rightarrow> server_rows \<Rightarrow> server_rows" where
  "server_write i st sv = sv(i := (st, snd (sv i) + 1))"

inductive board_step :: "staff_me option \<Rightarrow> board_run \<Rightarrow> board_run \<Rightarrow> bool"
  for me where
  drag: "c \<in> set (bd_items b) \<Longrightarrow> board_step me (b, sv, lost) (moveIssue me c target b, sv, lost)"
| accepted: "m \<in> set (bd_pending b) \<Longrightarrow> board_step me (b, sv, lost)
    (move_succeeded m b, server_write (li_id (fst (snd m))) (snd (snd m)) sv, lost)"
| refused: "m \<in> set (bd_pending b) \<Longrightarrow> board_step me (b, sv, lost)
    (move_failed err m b, sv, if rolls_back b sv m then lost else insert (li_id (fst (snd m))) lost)"
| take: "c \<in> set (bd_items b) \<Longrightarrow> board_step me (b, sv, lost) (assignToMe me c b, sv, lost)"
| taken: "a \<in> set (bd_assigns b) \<Longrightarrow> board_step me (b, sv, lost)
    (assign_succeeded a b, server_write (li_id (snd a)) (fst (sv (li_id (snd a)))) sv, lost)"
| not_taken: "a \<in> set (bd_assigns b) \<Longrightarrow> board_step me (b, sv, lost) (assign_failed err a b, sv, lost)"
| elsewhere: "board_step me (b, sv, lost)
    (b, server_write i st sv, if st = fst (sv i) then lost else insert i lost)"
| invalidated: "board_step me (b, sv, lost) (b\<lparr>bd_stale := True\<rparr>, sv, lost)"
| refetch: "distinct (map li_id rows) \<Longrightarrow> (\<forall>r \<in> set rows. row_current sv r)
    \<Longrightarrow> board_step me (b, sv, lost)
      (resync (rows, n) b, sv, if bd_data b = Some (rows, n) then lost else {})"

inductive_cases board_stepE: "board_step me p q"

text \<open>
  What a card may show: the server's status, a move under way, or, while a refetch is owed that
  will bring news of it, anything.
\<close>

definition news_owed :: "board \<Rightarrow> server_rows \<Rightarrow> ident \<Rightarrow> bool" where
  "news_owed b sv i \<longleftrightarrow> bd_stale b \<and>
     (\<exists>page. bd_data b = Some page \<and> (\<exists>r \<in> set (fst page). li_id r = i \<and> li_version r < snd (sv i)))"

definition explained :: "board \<Rightarrow> server_rows \<Rightarrow> ident set \<Rightarrow> list_item \<Rightarrow> bool" where
  "explained b sv lost c \<longleftrightarrow> li_id c \<in> lost \<or> li_status c = fst (sv (li_id c))
     \<or> (\<exists>m \<in> set (bd_pending b). li_id (fst (snd m)) = li_id c \<and> li_status c = snd (snd m))
     \<or> news_owed b sv (li_id c)"

text \<open>The rows of the last answer are not newer than the server's, and the cards are theirs.\<close>

definition data_ok :: "board \<Rightarrow> server_rows \<Rightarrow> bool" where
  "data_ok b sv \<longleftrightarrow>
     (case bd_data b of
        None \<Rightarrow> bd_items b = []
      | Some page \<Rightarrow> map li_id (bd_items b) = map li_id (fst page)
          \<and> (\<forall>r \<in> set (fst page). li_version r < snd (sv (li_id r)) \<or> row_current sv r))"

definition board_inv :: "board_run \<Rightarrow> bool" where
  "board_inv p = (case p of (b, sv, lost) \<Rightarrow> data_ok b sv \<and> (\<forall>c \<in> set (bd_items b). explained b sv lost c))"

lemma board_invI:
  "data_ok b sv \<Longrightarrow> (\<And>c. c \<in> set (bd_items b) \<Longrightarrow> explained b sv lost c) \<Longrightarrow> board_inv (b, sv, lost)"
  by (auto simp: board_inv_def)

lemma board_invD:
  "board_inv (b, sv, lost) \<Longrightarrow> data_ok b sv"
  "board_inv (b, sv, lost) \<Longrightarrow> c \<in> set (bd_items b) \<Longrightarrow> explained b sv lost c"
  by (auto simp: board_inv_def)

lemma set_card_ids [simp]:
  "map li_id (set_card_status i st cs) = map li_id cs" "map li_id (set_card_assignee i a cs) = map li_id cs"
  by (simp_all add: set_card_status_def set_card_assignee_def)

lemma data_ok_frame:
  "data_ok b sv \<Longrightarrow> bd_data b' = bd_data b \<Longrightarrow> map li_id (bd_items b') = map li_id (bd_items b) \<Longrightarrow> data_ok b' sv"
  by (auto simp: data_ok_def split: option.splits)

lemma data_ok_write: "data_ok b sv \<Longrightarrow> data_ok b (server_write i st sv)"
  by (fastforce simp: data_ok_def server_write_def row_current_def split: option.splits)

text \<open>Every card on the board is one of the last answer; a write of its issue is news of it.\<close>

lemma write_is_news:
  assumes "data_ok b sv" "c \<in> set (bd_items b)" "bd_stale b"
  shows "news_owed b (server_write (li_id c) st sv) (li_id c)"
proof -
  obtain page where page: "bd_data b = Some page" and ids: "map li_id (bd_items b) = map li_id (fst page)"
    and old: "\<forall>r \<in> set (fst page). li_version r < snd (sv (li_id r)) \<or> row_current sv r"
    using assms(1,2) by (cases "bd_data b") (simp_all add: data_ok_def)
  have "li_id c \<in> set (map li_id (fst page))" using assms(2) unfolding ids [symmetric] by simp
  then obtain r where "r \<in> set (fst page)" "li_id r = li_id c" by auto
  with old page assms(3) show ?thesis
    by (fastforce simp: news_owed_def server_write_def row_current_def)
qed

lemma explained_write:
  assumes "explained b sv lost c" and "i \<noteq> li_id c \<or> st = fst (sv i)"
  shows "explained b (server_write i st sv) lost c"
proof -
  have s: "fst (server_write i st sv (li_id c)) = fst (sv (li_id c))"
    and v: "snd (sv (li_id c)) \<le> snd (server_write i st sv (li_id c))"
    using assms(2) by (auto simp: server_write_def)
  have "news_owed b (server_write i st sv) (li_id c)" if "news_owed b sv (li_id c)"
    using that v by (auto simp: news_owed_def intro: less_le_trans)
  with assms(1) show ?thesis unfolding explained_def s by blast
qed

lemma in_set_card_status:
  "c \<in> set (set_card_status i st cs) \<longleftrightarrow>
     (\<exists>d \<in> set cs. c = (if li_id d = i then d\<lparr>li_status := st\<rparr> else d))"
  unfolding set_card_status_def set_map image_iff by (rule refl)

definition placed :: "list_item list \<Rightarrow> (ident \<times> issue_status) list" where
  "placed cs = map (\<lambda>c. (li_id c, li_status c)) cs"

lemma placed_assignee [simp]: "placed (set_card_assignee i a cs) = placed cs"
  by (simp add: placed_def set_card_assignee_def)

lemma placed_ids: "placed cs = placed ds \<Longrightarrow> map li_id cs = map li_id ds"
  unfolding placed_def by (drule arg_cong [where f = "map fst"]) (simp add: comp_def)

lemma placed_in: "placed cs = placed ds \<Longrightarrow> c \<in> set cs \<Longrightarrow> \<exists>d \<in> set ds. li_id c = li_id d \<and> li_status c = li_status d"
  unfolding placed_def by (drule arg_cong [where f = set]) fastforce

lemma toast_simps [simp]:
  "bd_data (toast ms b) = bd_data b" "bd_items (toast ms b) = bd_items b" "bd_pending (toast ms b) = bd_pending b" "bd_stale (toast ms b) = bd_stale b"
  by (simp_all add: toast_def)

lemma handleMutationError_simps [simp]:
  "bd_data (handleMutationError e c b) = bd_data b" "bd_items (handleMutationError e c b) = bd_items b"
  "bd_pending (handleMutationError e c b) = bd_pending b"
  "bd_stale (handleMutationError e c b) = (bd_stale b \<or> httpStatus e = Some 409)"
  by (simp_all add: handleMutationError_def)

text \<open>A state that has lost one request, or owes more, explains the cards of other issues.\<close>

lemma explained_frame:
  assumes "explained b sv lost c" and "bd_data b' = bd_data b" "bd_stale b \<longrightarrow> bd_stale b'" "lost \<subseteq> lost'"
    and "\<And>m. m \<in> set (bd_pending b) \<Longrightarrow> li_id (fst (snd m)) = li_id c \<Longrightarrow> m \<in> set (bd_pending b')"
  shows "explained b' sv lost' c"
proof -
  have "news_owed b' sv (li_id c)" if "news_owed b sv (li_id c)"
    using that assms(2,3) by (simp add: news_owed_def)
  with assms(1,4,5) show ?thesis unfolding explained_def by blast
qed

lemma other_request_stays:
  "m' \<in> set ms \<Longrightarrow> li_id (fst (snd m')) = i \<Longrightarrow> i \<noteq> li_id (fst (snd m)) \<Longrightarrow> m' \<in> set (remove1 m ms)"
  by (metis in_set_remove1)

lemma move_shapes:
  "(bd_items (moveIssue me c target b) = bd_items b \<and> bd_pending (moveIssue me c target b) = bd_pending b
      \<or> bd_items (moveIssue me c target b) = set_card_status (li_id c) target (bd_items b)
        \<and> bd_pending (moveIssue me c target b) = bd_pending b @ [(bd_calls b, c, target)])
   \<and> bd_stale (moveIssue me c target b) = bd_stale b \<and> bd_data (moveIssue me c target b) = bd_data b"
  by (simp add: moveIssue_def)

lemma drag_inv:
  assumes i: "board_inv (b, sv, lost)"
  shows "board_inv (moveIssue me c target b, sv, lost)"
proof (rule board_invI)
  let ?b = "moveIssue me c target b"
  note shape = move_shapes [of me c target b]
  from shape show "data_ok ?b sv" by (intro data_ok_frame [OF board_invD(1) [OF i]]) auto
  fix d assume d: "d \<in> set (bd_items ?b)"
  have keep: "explained ?b sv lost e" if "e \<in> set (bd_items b)" for e
    by (rule explained_frame [OF board_invD(2) [OF i that]]) (use shape in auto)
  show "explained ?b sv lost d"
  proof (cases "d \<in> set (bd_items b)")
    case True
    then show ?thesis by (rule keep)
  next
    case False
    with d shape have moved: "d \<in> set (set_card_status (li_id c) target (bd_items b))"
      and p: "bd_pending ?b = bd_pending b @ [(bd_calls b, c, target)]" by auto
    from moved False obtain e where "d = e\<lparr>li_status := target\<rparr>" "li_id e = li_id c"
      unfolding in_set_card_status by (auto split: if_splits)
    then show ?thesis by (simp add: explained_def p)
  qed
qed

lemma accepted_inv:
  assumes i: "board_inv (b, sv, lost)"
  shows "board_inv (move_succeeded m b, server_write (li_id (fst (snd m))) (snd (snd m)) sv, lost)"
proof (rule board_invI)
  let ?b = "move_succeeded m b" and ?sv = "server_write (li_id (fst (snd m))) (snd (snd m)) sv"
  have s: "bd_items ?b = bd_items b" "bd_data ?b = bd_data b" "bd_stale ?b" "bd_pending ?b = remove1 m (bd_pending b)"
    by (simp_all add: move_succeeded_def changeStatus_onSuccess_def Let_def)
  have ok: "data_ok ?b sv" by (rule data_ok_frame [OF board_invD(1) [OF i]]) (simp_all add: s)
  then show "data_ok ?b ?sv" by (rule data_ok_write)
  fix c assume c: "c \<in> set (bd_items ?b)"
  show "explained ?b ?sv lost c"
  proof (cases "li_id c = li_id (fst (snd m))")
    case True
    with write_is_news [OF ok c s(3), of "snd (snd m)"] show ?thesis by (simp add: explained_def)
  next
    case False
    have "explained ?b sv lost c"
      by (rule explained_frame [OF board_invD(2) [OF i]]) (use c s False in \<open>simp_all add: other_request_stays\<close>)
    with False show ?thesis by (intro explained_write) auto
  qed
qed

lemma refused_inv:
  assumes i: "board_inv (b, sv, lost)"
  shows "board_inv (move_failed err m b, sv, if rolls_back b sv m then lost else insert (li_id (fst (snd m))) lost)"
proof (rule board_invI)
  let ?b = "move_failed err m b" and ?i = "li_id (fst (snd m))"
  let ?lost = "if rolls_back b sv m then lost else insert ?i lost"
  have s: "bd_data ?b = bd_data b" "bd_stale b \<longrightarrow> bd_stale ?b" "bd_pending ?b = remove1 m (bd_pending b)"
    "map li_id (bd_items ?b) = map li_id (bd_items b)"
    by (simp_all add: move_failed_def Let_def)
  show "data_ok ?b sv" by (rule data_ok_frame [OF board_invD(1) [OF i]]) (simp_all add: s)
  fix c assume c: "c \<in> set (bd_items ?b)"
  show "explained ?b sv ?lost c"
  proof (cases "li_id c = ?i")
    case True
    show ?thesis
    proof (cases "rolls_back b sv m")
      case True
      then have "bd_items ?b = set_card_status ?i (li_status (fst (snd m))) (bd_items b)"
        by (simp add: rolls_back_def move_failed_def Let_def)
      with c obtain d where "c = (if li_id d = ?i then d\<lparr>li_status := li_status (fst (snd m))\<rparr> else d)"
        by (auto simp only: in_set_card_status)
      with \<open>li_id c = ?i\<close> True have "li_status c = fst (sv (li_id c))"
        by (cases "li_id d = ?i") (auto simp: rolls_back_def)
      then show ?thesis by (simp add: explained_def)
    next
      case False
      with True show ?thesis by (simp add: explained_def)
    qed
  next
    case False
    with c have "c \<in> set (bd_items b)"
      by (auto simp: move_failed_def Let_def in_set_card_status split: if_splits)
    from board_invD(2) [OF i this] show ?thesis
      by (rule explained_frame) (use s False in \<open>auto simp only: split: if_splits intro: other_request_stays\<close>)
  qed
qed

lemma assignee_inv:
  assumes i: "board_inv (b, sv, lost)"
    and c: "placed (bd_items b') = placed (bd_items b)"
    and s: "bd_data b' = bd_data b" "bd_pending b' = bd_pending b" "bd_stale b \<longrightarrow> bd_stale b'"
  shows "board_inv (b', sv, lost)"
proof (rule board_invI)
  show "data_ok b' sv" by (rule data_ok_frame [OF board_invD(1) [OF i] s(1) placed_ids [OF c]])
  fix d assume "d \<in> set (bd_items b')"
  with c obtain e where e: "e \<in> set (bd_items b)" "li_id d = li_id e" "li_status d = li_status e"
    using placed_in by blast
  have "explained b' sv lost e" by (rule explained_frame [OF board_invD(2) [OF i e(1)]]) (use s in auto)
  with e show "explained b' sv lost d" by (simp add: explained_def)
qed

lemma write_inv:
  assumes "board_inv (b, sv, lost)"
  shows "board_inv (b, server_write i st sv, if st = fst (sv i) then lost else insert i lost)"
proof (rule board_invI)
  show "data_ok b (server_write i st sv)" by (rule data_ok_write [OF board_invD(1) [OF assms]])
  fix c assume c: "c \<in> set (bd_items b)"
  have e: "explained b sv lost c" by (rule board_invD(2) [OF assms c])
  show "explained b (server_write i st sv) (if st = fst (sv i) then lost else insert i lost) c"
  proof (cases "i \<noteq> li_id c \<or> st = fst (sv i)")
    case True
    from explained_write [OF e True] show ?thesis by (auto simp: explained_def)
  next
    case False
    then show ?thesis by (simp add: explained_def)
  qed
qed

lemma refetch_inv:
  assumes i: "board_inv (b, sv, lost)" and rows: "\<forall>r \<in> set rows. row_current sv r"
  shows "board_inv (resync (rows, n) b, sv, if bd_data b = Some (rows, n) then lost else {})"
proof (cases "bd_data b = Some (rows, n)")
  case True
  have "explained (b\<lparr>bd_stale := False\<rparr>) sv lost c" if "c \<in> set (bd_items b)" for c
  proof -
    have "\<not> news_owed b sv (li_id c)" using True rows by (fastforce simp: news_owed_def row_current_def)
    with board_invD(2) [OF i that] show ?thesis by (auto simp: explained_def)
  qed
  with True board_invD(1) [OF i] show ?thesis
    by (simp add: board_inv_def resync_def data_ok_def split: option.splits)
next
  case False
  with rows show ?thesis by (simp add: board_inv_def resync_def data_ok_def explained_def row_current_def)
qed

lemma board_step_inv: "board_inv p \<Longrightarrow> board_step me p q \<Longrightarrow> board_inv q"
proof (elim board_stepE)
  fix c b sv lost assume "board_inv p" "p = (b, sv, lost)" "q = (assignToMe me c b, sv, lost)"
  then show "board_inv q"
    by (cases me) (auto simp: assignToMe_def intro!: assignee_inv [of b sv lost])
next
  fix a :: "nat \<times> list_item" and b sv lost
  let ?i = "li_id (snd a)"
  assume "board_inv p" "p = (b, sv, lost)" "q = (assign_succeeded a b, server_write ?i (fst (sv ?i)) sv, lost)"
  moreover from this have "board_inv (assign_succeeded a b, sv, lost)"
    by (auto simp: assign_succeeded_def Let_def intro!: assignee_inv [of b sv lost])
  ultimately show "board_inv q" using write_inv [of "assign_succeeded a b" sv lost ?i "fst (sv ?i)"] by simp
next
  fix a b sv lost err assume "board_inv p" "p = (b, sv, lost)" "q = (assign_failed err a b, sv, lost)"
  then show "board_inv q"
    by (auto simp: assign_failed_def Let_def intro!: assignee_inv [of b sv lost])
next
  fix b sv lost assume "board_inv p" "p = (b, sv, lost)" "q = (b\<lparr>bd_stale := True\<rparr>, sv, lost)"
  then show "board_inv q" by (auto intro!: assignee_inv [of b sv lost])
qed (simp_all only: drag_inv accepted_inv refused_inv write_inv refetch_inv)

interpretation board_ts: transition_system "board_step me" board_inv
  by unfold_locales (rule board_step_inv)

text \<open>
  A careful user never meets the second exception: a move that starts from the server's status
  is rolled back to it unless that status has changed in between.
\<close>

lemma careful_moves_roll_back:
  assumes "li_status c = fst (sv (li_id c))" and "latest_call (bd_calls b) n"
    and "fst (sv' (li_id c)) = fst (sv (li_id c))"
  shows "rolls_back b sv' (n, c, target)"
  using assms by (simp add: rolls_back_def)

text \<open>
  C14: Whatever the order of drags, answers, refusals, conflicts,
  events, changes by others and refetches, with any card dragged at any time: once no move is
  under way and no refetch is owed, every card stands in the column of the status the server
  holds. The exceptions are, until a refetch brings something new, a card whose move was refused after a later
  move had begun, a card that was rolled back to a status the server did not hold at that moment
  (the move had started from an unconfirmed status, or the issue has been moved meanwhile), and
  a card whose issue somebody else has moved.
\<close>

theorem board_settles_on_the_server:
  assumes "(board_step me)\<^sup>*\<^sup>* (empty_board, sv0, {}) (b, sv, lost)" and "bd_pending b = []" and "\<not> bd_stale b"
    and "c \<in> set (bd_items b)" and "li_id c \<notin> lost"
  shows "li_status c = fst (sv (li_id c))"
proof -
  have "board_inv (empty_board, sv0, {})" by (simp add: board_inv_def empty_board_def data_ok_def)
  with assms(1) have "board_inv (b, sv, lost)" by (rule board_ts.reach_inv)
  from board_invD(2) [OF this assms(4)] assms(2,3,5) show ?thesis by (simp add: explained_def news_owed_def)
qed

definition demo_me :: "staff_me option" where
  "demo_me = Some (staff_profile plain_env dev_staff)"

definition demo_card :: "ident \<Rightarrow> list_item" where
  "demo_card i = card_of (sample_issue i ''p1'' NEW)"

definition demo_board :: board where
  "demo_board = resync ([demo_card ''i1'', demo_card ''i2''], 2) empty_board"

definition offline :: axios_error where
  "offline = None"

theorem board_settles_on_the_server_witness:
  "li_status (hd (bd_items (move_failed offline (0, demo_card ''i1'', IN_PROGRESS)
     (moveIssue demo_me (demo_card ''i1'') IN_PROGRESS demo_board)))) = NEW"
proof -
  let ?c = "demo_card ''i1''"
  let ?b1 = "moveIssue demo_me ?c IN_PROGRESS demo_board"
  let ?b2 = "move_failed offline (0, ?c, IN_PROGRESS) ?b1"
  have 1: "board_step demo_me (empty_board, \<lambda>_. (NEW, 1), {}) (demo_board, \<lambda>_. (NEW, 1), {})"
    using refetch [of "[demo_card ''i1'', demo_card ''i2'']" "\<lambda>_. (NEW, 1)" demo_me empty_board "{}" 2]
    by (simp add: demo_board_def demo_card_def card_of_def row_current_def sample_issue_def)
  have 2: "board_step demo_me (demo_board, \<lambda>_. (NEW, 1), {}) (?b1, \<lambda>_. (NEW, 1), {})"
    by (rule drag) (simp_all add: demo_board_def resync_def empty_board_def demo_card_def card_of_def)
  have "bd_pending ?b1 = [(0, ?c, IN_PROGRESS)]" by code_simp
  moreover have l: "rolls_back ?b1 (\<lambda>_. (NEW, 1)) (0::nat, ?c, IN_PROGRESS)" by code_simp
  ultimately have 3: "board_step demo_me (?b1, \<lambda>_. (NEW, 1), {}) (?b2, \<lambda>_. (NEW, 1), {})"
    using refused [of "(0, ?c, IN_PROGRESS)" ?b1 demo_me "\<lambda>_. (NEW, 1)" "{}" offline] by simp
  from 1 2 3 have "(board_step demo_me)\<^sup>*\<^sup>* (empty_board, \<lambda>_. (NEW, 1), {}) (?b2, \<lambda>_. (NEW, 1), {})"
    by (meson converse_rtranclp_into_rtranclp rtranclp.rtrancl_refl)
  moreover have "bd_pending ?b2 = []" by code_simp
  moreover have "\<not> bd_stale ?b2" by code_simp
  moreover have "hd (bd_items ?b2) \<in> set (bd_items ?b2)" by code_simp
  ultimately have "li_status (hd (bd_items ?b2)) = fst ((\<lambda>_. (NEW, 1::int)) (li_id (hd (bd_items ?b2))))"
    by (rule board_settles_on_the_server) simp
  then show ?thesis by simp
qed

text \<open>
  The exceptions are real. Two cards are moved before the first answer and both requests are
  refused: only the second card goes back, only its refusal is told, nothing is refetched, and
  the first card stays in a column the server never had it in.
\<close>

lemma superseded_refusal_leaves_a_phantom:
  "let b1 = moveIssue demo_me (demo_card ''i1'') IN_PROGRESS demo_board;
       b2 = moveIssue demo_me (demo_card ''i2'') IN_PROGRESS b1;
       b3 = move_failed offline (0, demo_card ''i1'', IN_PROGRESS) b2;
       b4 = move_failed offline (1, demo_card ''i2'', IN_PROGRESS) b3
   in bd_pending b4 = [] \<and> \<not> bd_stale b4 \<and> map li_status (bd_items b4) = [IN_PROGRESS, NEW]
      \<and> length (bd_toasts b4) = 1"
  by code_simp

text \<open>
  A card moved twice before the first answer, both requests refused: the rollback puts the card
  where the first move had it.
\<close>

lemma overlapping_rollbacks_leave_a_phantom:
  "let b1 = moveIssue demo_me (demo_card ''i1'') IN_PROGRESS demo_board;
       c1 = hd (bd_items b1);
       b2 = moveIssue demo_me c1 ON_HOLD b1;
       b3 = move_failed offline (0, demo_card ''i1'', IN_PROGRESS) b2;
       b4 = move_failed offline (1, c1, ON_HOLD) b3
   in bd_pending b4 = [] \<and> \<not> bd_stale b4 \<and> map li_status (bd_items b4) = [IN_PROGRESS, NEW]"
  by code_simp

text \<open>
  A refetch in between makes it no better. The board is fetched again (another issue has
  changed) while the first move is under way, so the card shows its old status; it is moved a
  second time, the first request is accepted, a refetch shows it, and the second request fails
  for want of a network: the rollback puts the card to the status before both moves.
\<close>

lemma refetch_mid_move_leaves_a_phantom:
  "let b1 = moveIssue demo_me (demo_card ''i1'') IN_PROGRESS demo_board;
       i2' = (demo_card ''i2'')\<lparr>li_version := 2\<rparr>;
       b2 = resync ([demo_card ''i1'', i2'], 2) b1;
       b3 = moveIssue demo_me (demo_card ''i1'') IN_PROGRESS b2;
       b4 = move_succeeded (0, demo_card ''i1'', IN_PROGRESS) b3;
       b5 = resync ([(demo_card ''i1'')\<lparr>li_status := IN_PROGRESS, li_version := 2\<rparr>, i2'], 2) b4;
       b6 = move_failed offline (1, demo_card ''i1'', IN_PROGRESS) b5
   in length (bd_pending b3) = 2 \<and> bd_pending b6 = [] \<and> \<not> bd_stale b6 \<and> map li_status (bd_items b6) = [NEW, NEW]"
  by code_simp

text \<open>And a refetch that brings nothing new does not put a phantom right.\<close>

lemma phantom_survives_an_equal_answer:
  "let b1 = moveIssue demo_me (demo_card ''i1'') IN_PROGRESS demo_board;
       b2 = moveIssue demo_me (demo_card ''i2'') IN_PROGRESS b1;
       b3 = move_failed offline (0, demo_card ''i1'', IN_PROGRESS) b2;
       b4 = move_failed offline (1, demo_card ''i2'', IN_PROGRESS) b3;
       b5 = resync ([demo_card ''i1'', demo_card ''i2''], 2) (b4\<lparr>bd_stale := True\<rparr>)
   in map li_status (bd_items b5) = [IN_PROGRESS, NEW]"
  by code_simp

text \<open>Two assignments in a row: the refusal of the first is never shown.\<close>

lemma superseded_assignment_is_lost:
  "let b1 = assignToMe demo_me (demo_card ''i1'') demo_board;
       b2 = assignToMe demo_me (demo_card ''i2'') b1;
       b3 = assign_failed offline (0, demo_card ''i1'') b2;
       b4 = assign_succeeded (1, demo_card ''i2'') b3
   in map (map_option fst \<circ> li_assignee) (bd_items b3) = [map_option me_id demo_me, map_option me_id demo_me]
      \<and> bd_toasts b3 = [] \<and> bd_stale b4"
  by code_simp

section \<open>Columns and swimlanes\<close>

definition columns :: "list_item list \<Rightarrow> (issue_status \<times> list_item list) list" where
  "columns items = map (\<lambda>st. (st, filter (\<lambda>c. li_status c = st) items)) BOARD_STATUS_ORDER"

definition WIP_LIMITS :: "issue_status \<Rightarrow> nat option" where
  "WIP_LIMITS st = (case st of IN_PROGRESS \<Rightarrow> Some 6 | ON_HOLD \<Rightarrow> Some 4 | _ \<Rightarrow> None)"

text \<open>The badge of a column is red at its limit; the compact columns of a swimlane have none.\<close>

definition over_limit :: "bool \<Rightarrow> issue_status \<Rightarrow> list_item list \<Rightarrow> bool" where
  "over_limit is_compact st cs =
     (case (if is_compact then None else WIP_LIMITS st) of None \<Rightarrow> False | Some n \<Rightarrow> n \<le> length cs)"

datatype group_by = GROUP_NONE | GROUP_ASSIGNEE | GROUP_PRIORITY

record lane =
  ln_key :: string
  ln_label :: string
  ln_cards :: "list_item list"

definition UNASSIGNED_LANE :: string where
  "UNASSIGNED_LANE = ''__none__''"

definition laneOf :: "group_by \<Rightarrow> list_item \<Rightarrow> string \<times> string" where
  "laneOf g c =
     (if g = GROUP_PRIORITY then (priority_name (li_priority c), priority_name (li_priority c))
      else (case li_assignee c of
              Some (i, n) \<Rightarrow> (i, n)
            | None \<Rightarrow> (UNASSIGNED_LANE, ''Unassigned'')))"

text \<open>One turn of the loop: the map keeps its keys in the order of insertion.\<close>

fun into_lane :: "string \<times> string \<Rightarrow> list_item \<Rightarrow> lane list \<Rightarrow> lane list" where
  "into_lane kl c [] = [\<lparr>ln_key = fst kl, ln_label = snd kl, ln_cards = [c]\<rparr>]"
| "into_lane kl c (l # ls) =
     (if ln_key l = fst kl then l\<lparr>ln_cards := ln_cards l @ [c]\<rparr> # ls else l # into_lane kl c ls)"

definition byLane :: "group_by \<Rightarrow> list_item list \<Rightarrow> lane list" where
  "byLane g items = fold (\<lambda>c ls. into_lane (laneOf g c) c ls) items []"

definition PRIORITY_LANES :: "string list" where
  "PRIORITY_LANES = map priority_name [CRITICAL, HIGH, MEDIUM, LOW]"

text \<open>
  The order of the lanes: by priority, or by label with the unassigned lane last;
  \<^verbatim>\<open>collate\<close> stands for the collation of \<^verbatim>\<open>localeCompare\<close>.
\<close>

definition lanes :: "(string \<Rightarrow> nat) \<Rightarrow> group_by \<Rightarrow> list_item list \<Rightarrow> lane list option" where
  "lanes collate g items =
     (case g of
        GROUP_NONE \<Rightarrow> None
      | GROUP_PRIORITY \<Rightarrow> Some (sort_key (\<lambda>l. index_of (ln_key l) PRIORITY_LANES) (byLane g items))
      | GROUP_ASSIGNEE \<Rightarrow> Some (sort_key (\<lambda>l. if ln_key l = UNASSIGNED_LANE then (1, 0) else (0::nat, collate (ln_label l)))
          (byLane g items)))"

lemma into_lane_cards: "mset (concat (map ln_cards (into_lane kl c ls))) = add_mset c (mset (concat (map ln_cards ls)))"
  by (induction ls) auto

lemma byLane_append: "byLane g (items @ [c]) = into_lane (laneOf g c) c (byLane g items)"
  by (simp add: byLane_def)

lemma byLane_cards: "mset (concat (map ln_cards (byLane g items))) = mset items"
  by (induction items rule: rev_induct) (simp_all add: byLane_append into_lane_cards, simp add: byLane_def)

lemma into_lane_keys: "ln_key ` set (into_lane kl c ls) = insert (fst kl) (ln_key ` set ls)"
  by (induction ls) auto

lemma into_lane_distinct: "distinct (map ln_key ls) \<Longrightarrow> distinct (map ln_key (into_lane kl c ls))"
proof (induction ls)
  case (Cons l ls)
  then show ?case by (cases "ln_key l = fst kl") (simp_all add: into_lane_keys)
qed simp

lemma byLane_distinct: "distinct (map ln_key (byLane g items))"
  by (induction items rule: rev_induct) (simp_all add: byLane_append into_lane_distinct, simp add: byLane_def)

definition lane_ok :: "group_by \<Rightarrow> lane \<Rightarrow> bool" where
  "lane_ok g l = (ln_cards l \<noteq> [] \<and> (\<forall>c \<in> set (ln_cards l). fst (laneOf g c) = ln_key l))"

lemma into_lane_ok: "\<forall>l \<in> set ls. lane_ok g l \<Longrightarrow> \<forall>l \<in> set (into_lane (laneOf g c) c ls). lane_ok g l"
proof (induction ls)
  case Nil
  show ?case by (simp add: lane_ok_def)
next
  case (Cons l ls)
  have "lane_ok g (l\<lparr>ln_cards := ln_cards l @ [c]\<rparr>)" if "ln_key l = fst (laneOf g c)"
    using Cons.prems that by (auto simp: lane_ok_def)
  with Cons show ?case by (cases "ln_key l = fst (laneOf g c)") simp_all
qed

lemma byLane_ok: "\<forall>l \<in> set (byLane g items). lane_ok g l"
proof (induction items rule: rev_induct)
  case Nil
  show ?case by (simp add: byLane_def)
next
  case (snoc c items)
  then show ?case unfolding byLane_append by (rule into_lane_ok)
qed

lemma columns_partition: "mset (concat (map snd (columns items))) = mset items"
proof (induction items)
  case Nil
  show ?case by (simp add: columns_def BOARD_STATUS_ORDER_def)
next
  case (Cons c items)
  then show ?case by (cases "li_status c") (simp_all add: columns_def BOARD_STATUS_ORDER_def)
qed

lemma mset_concat_sort_key: "mset (concat (map f (sort_key k xs))) = mset (concat (map f xs))"
proof -
  have "mset (concat (map f ys)) = sum_mset (image_mset (mset \<circ> f) (mset ys))" for ys
    by (induction ys) auto
  then show ?thesis by simp
qed

text \<open>
  The swimlanes show every card of the board exactly once, whatever
  the grouping: no lane is empty, no two lanes have the same key, every card is in the lane
  of its key, and within a lane it is in exactly one column.
\<close>

theorem every_card_in_one_lane:
  assumes "lanes collate g items = Some ls"
  shows "mset (concat (map ln_cards ls)) = mset items \<and> distinct (map ln_key ls)
    \<and> (\<forall>l \<in> set ls. lane_ok g l \<and> mset (concat (map snd (columns (ln_cards l)))) = mset (ln_cards l))"
proof -
  from assms obtain k :: "lane \<Rightarrow> nat \<times> nat" where ls: "ls = sort_key k (byLane g items) \<or>
      ls = sort_key (\<lambda>l. index_of (ln_key l) PRIORITY_LANES) (byLane g items)"
    by (cases g) (auto simp: lanes_def)
  have d: "distinct (map ln_key ls) \<and> mset (concat (map ln_cards ls)) = mset items \<and> set ls = set (byLane g items)"
    using ls
  proof
    assume l: "ls = sort_key k (byLane g items)"
    have "mset (map ln_key ls) = mset (map ln_key (byLane g items))" by (simp add: l)
    then have "distinct (map ln_key ls)" using byLane_distinct mset_eq_imp_distinct_iff by blast
    then show ?thesis by (simp add: l mset_concat_sort_key byLane_cards)
  next
    assume l: "ls = sort_key (\<lambda>l. index_of (ln_key l) PRIORITY_LANES) (byLane g items)"
    have "mset (map ln_key ls) = mset (map ln_key (byLane g items))" by (simp add: l)
    then have "distinct (map ln_key ls)" using byLane_distinct mset_eq_imp_distinct_iff by blast
    then show ?thesis by (simp add: l mset_concat_sort_key byLane_cards)
  qed
  with byLane_ok [of g items] columns_partition show ?thesis by blast
qed

theorem every_card_in_one_lane_witness:
  "mset (concat (map ln_cards (the (lanes length GROUP_PRIORITY
      [card_of (sample_issue ''a'' ''p1'' NEW), card_of (sample_issue ''b'' ''p1'' CLOSED)]))))
   = mset [card_of (sample_issue ''a'' ''p1'' NEW), card_of (sample_issue ''b'' ''p1'' CLOSED)]"
proof -
  let ?cs = "[card_of (sample_issue ''a'' ''p1'' NEW), card_of (sample_issue ''b'' ''p1'' CLOSED)]"
  obtain ls where "lanes length GROUP_PRIORITY ?cs = Some ls" by (simp add: lanes_def)
  with every_card_in_one_lane [OF this] show ?thesis by simp
qed

section \<open>The triage queue\<close>

text \<open>The position is a JavaScript number; the open issue is clamped to the queue.\<close>

definition triage_current :: "list_item list \<Rightarrow> int \<Rightarrow> list_item option" where
  "triage_current items index =
     (if items = [] then None
      else Some (items ! nat (min index (max (int (length items) - 1) 0))))"

datatype triage_action =
    GoNext
  | GoPrevious
  | ToggleKeys
  | SetPriority priority
  | SetStatus issue_status
  | AssignToMe

definition triage_assignable :: "staff_me option \<Rightarrow> (ident \<times> string \<times> string) list option \<Rightarrow> list_item \<Rightarrow> bool" where
  "triage_assignable me assignees c =
     (case (me, assignees) of
        (Some m, Some as) \<Rightarrow> list_ex (\<lambda>a. fst a = me_id m) as \<and> map_option fst (li_assignee c) \<noteq> Some (me_id m)
      | _ \<Rightarrow> False)"

definition PRIORITIES :: "priority list" where
  "PRIORITIES = [LOW, MEDIUM, HIGH, CRITICAL]"

text \<open>
  The keys of the page for the loaded detail; reading keys work for everybody, the others
  need write access and no request under way.
\<close>

definition hotkeys ::
  "staff_me option \<Rightarrow> (ident \<times> string \<times> string) list option \<Rightarrow> bool \<Rightarrow> list_item option \<Rightarrow> (string \<times> triage_action) list" where
  "hotkeys me assignees busy detail =
     (case detail of
        None \<Rightarrow> []
      | Some c \<Rightarrow>
          [(''j'', GoNext), (''arrowright'', GoNext), (''k'', GoPrevious), (''arrowleft'', GoPrevious), (''?'', ToggleKeys)]
          @ (if \<not> canWriteOn me (card_platform c) \<or> busy then []
             else zip [''1'', ''2'', ''3'', ''4''] (map SetPriority PRIORITIES)
               @ (case CLIENT_TRANSITIONS (li_status c) of t # _ \<Rightarrow> [(''s'', SetStatus t)] | [] \<Rightarrow> [])
               @ (if triage_assignable me assignees c then [(''a'', AssignToMe)] else [])))"

fun triage_move :: "nat \<Rightarrow> triage_action \<Rightarrow> int \<Rightarrow> int" where
  "triage_move n GoNext index = min (index + 1) (int n - 1)"
| "triage_move n GoPrevious index = max (index - 1) 0"
| "triage_move n _ index = index"

lemma triage_move_range:
  "0 < n \<Longrightarrow> 0 \<le> index \<Longrightarrow> index < int n \<Longrightarrow> 0 \<le> triage_move n a index \<and> triage_move n a index < int n"
  by (cases a) auto

lemma triage_current_in: "items \<noteq> [] \<Longrightarrow> 0 \<le> index \<Longrightarrow> \<exists>c. triage_current items index = Some c \<and> c \<in> set items"
proof -
  assume "items \<noteq> []" and "0 \<le> index"
  then have "nat (min index (max (int (length items) - 1) 0)) < length items"
    by (cases items) auto
  with \<open>items \<noteq> []\<close> show ?thesis by (simp add: triage_current_def)
qed

text \<open>A watcher's keys only read.\<close>

lemma watcher_keys_only_read:
  "\<not> canWriteOn me (card_platform c) \<Longrightarrow> (k, a) \<in> set (hotkeys me assignees busy (Some c)) \<Longrightarrow>
   a \<in> {GoNext, GoPrevious, ToggleKeys}"
  by (auto simp: hotkeys_def)

text \<open>
  The position is not clamped when the queue shrinks: after the last of two issues is
  completed, the key for the previous one shows the same issue again.
\<close>

lemma previous_key_is_swallowed:
  "let old = [card_of (sample_issue ''a'' ''p1'' NEW), card_of (sample_issue ''b'' ''p1'' NEW), card_of (sample_issue ''c'' ''p1'' NEW)];
       index = triage_move 3 GoNext (triage_move 3 GoNext 0);
       shrunk = take 2 old
   in map_option li_id (triage_current old index) = Some ''c''
      \<and> map_option li_id (triage_current shrunk index) = Some ''b''
      \<and> map_option li_id (triage_current shrunk (triage_move 2 GoPrevious index)) = Some ''b''"
  by code_simp

text \<open>The status key of the triage page is the first move of the board's menu.\<close>

lemma status_key_is_board_move:
  "(''s'', SetStatus t) \<in> set (hotkeys me assignees busy (Some c)) \<Longrightarrow> t \<in> set (board_moves me c)"
  by (cases "CLIENT_TRANSITIONS (li_status c)") (auto simp: hotkeys_def board_moves_def canMove_def PRIORITIES_def split: if_splits)

end
