(* ===== verification/ClientForms.thy ===== *)
theory ClientForms
  imports ClientAccess Accounts Catalog Uploads
begin

text \<open>
  Lists and forms of the browser, each next to what the server does with its input: the
  paginator (\<^verbatim>\<open>frontend/src/components/Pager.tsx\<close>), filters and selection of the issue list
  (\<^verbatim>\<open>staff/IssuesListPage.tsx\<close>), the confirmation dialog
  (\<^verbatim>\<open>components/ConfirmDialog.tsx\<close>), the account and policy dialogs
  (\<^verbatim>\<open>staff/AdminPage.tsx\<close>), the label box and the link form
  (\<^verbatim>\<open>staff/IssueExtras.tsx\<close>), and the intake form of the reporter
  (\<^verbatim>\<open>reporter/NewIssuePage.tsx\<close>).
\<close>

section \<open>The paginator\<close>

datatype page_mark = Page nat | Gap

definition pageRange :: "nat \<Rightarrow> nat \<Rightarrow> page_mark list" where
  "pageRange page lastp =
     (if lastp \<le> 7 then map Page [1..<Suc lastp]
      else (let start = max 2 (page - 1); stop = min (lastp - 1) (page + 1) in
        [Page 1] @ (if 2 < start then [Gap] else []) @ map Page [start..<Suc stop]
          @ (if stop < lastp - 1 then [Gap] else []) @ [Page lastp]))"

text \<open>First and last row of the summary line; nothing is shown for a single page.\<close>

definition pager_summary :: "nat \<Rightarrow> nat \<Rightarrow> nat \<Rightarrow> nat \<Rightarrow> (nat \<times> nat) option" where
  "pager_summary page npages pageSize nrows =
     (if npages \<le> 1 then None else Some ((page - 1) * pageSize + 1, min (page * pageSize) nrows))"

text \<open>\<^verbatim>\<open>Math.max(1, Math.ceil(total / pageSize))\<close>.\<close>

definition totalPages :: "nat \<Rightarrow> nat \<Rightarrow> nat" where
  "totalPages nrows pageSize = max 1 ((nrows + pageSize - 1) div pageSize)"

definition shown_pages :: "page_mark list \<Rightarrow> nat list" where
  "shown_pages ms = List.map_filter (\<lambda>m. case m of Page p \<Rightarrow> Some p | Gap \<Rightarrow> None) ms"

lemma shown_pages_simps [simp]:
  "shown_pages [] = []" "shown_pages (Page p # ms) = p # shown_pages ms" "shown_pages (Gap # ms) = shown_pages ms"
  "shown_pages (ms @ ns) = shown_pages ms @ shown_pages ns" "shown_pages (map Page ps) = ps"
proof -
  show "shown_pages (ms @ ns) = shown_pages ms @ shown_pages ns"
    by (induction ms) (simp_all add: shown_pages_def List.map_filter_simps split: page_mark.split)
  show "shown_pages (map Page ps) = ps"
    by (induction ps) (simp_all add: shown_pages_def List.map_filter_simps)
qed (simp_all add: shown_pages_def List.map_filter_simps)

lemma pages_window:
  assumes "7 < lastp" and "1 \<le> page" and "page \<le> lastp"
  shows "shown_pages (pageRange page lastp) = 1 # [max 2 (page - 1)..<Suc (min (lastp - 1) (page + 1))] @ [lastp]"
  using assms by (simp add: pageRange_def Let_def)

lemma window_length:
  assumes "7 < lastp" and "1 \<le> page" and "page \<le> lastp"
  shows "length (pageRange page lastp) \<le> 7"
proof -
  have l: "length (pageRange page lastp) = 2 + (if 2 < max 2 (page - 1) then 1 else 0)
      + (Suc (min (lastp - 1) (page + 1)) - max 2 (page - 1)) + (if min (lastp - 1) (page + 1) < lastp - 1 then 1 else 0)"
    using assms(1) by (simp add: pageRange_def Let_def del: upt_Suc)
  show ?thesis unfolding l using assms by (auto simp: max_def min_def)
qed

text \<open>
  The paginator lists pages in ascending order, without repetition and within
  the range, always the first, the last and the current one, in at most seven marks; and its
  summary counts exactly the rows of the page the server returns.
\<close>

theorem pager_is_sound:
  assumes "1 \<le> page" and "page \<le> totalPages (length rows) ps" and "0 < ps" and "rows \<noteq> []"
  shows "sorted_wrt (<) (shown_pages (pageRange page (totalPages (length rows) ps)))
    \<and> {1, page, totalPages (length rows) ps} \<subseteq> set (shown_pages (pageRange page (totalPages (length rows) ps)))
    \<and> set (shown_pages (pageRange page (totalPages (length rows) ps))) \<subseteq> {1..totalPages (length rows) ps}
    \<and> length (pageRange page (totalPages (length rows) ps)) \<le> 7
    \<and> (\<forall>a b. pager_summary page (totalPages (length rows) ps) ps (length rows) = Some (a, b)
        \<longrightarrow> length (page_of page ps rows) = Suc b - a)"
proof -
  let ?n = "totalPages (length rows) ps"
  let ?s = "shown_pages (pageRange page ?n)"
  have marks: "sorted_wrt (<) ?s \<and> {1, page, ?n} \<subseteq> set ?s \<and> set ?s \<subseteq> {1..?n} \<and> length (pageRange page ?n) \<le> 7"
  proof (cases "?n \<le> 7")
    case True
    then have r: "pageRange page ?n = map Page [1..<Suc ?n]" by (simp add: pageRange_def)
    have "?s = [1..<Suc ?n]" unfolding r by (rule shown_pages_simps(5))
    with assms True r show ?thesis by (auto simp: sorted_wrt_upt simp del: upt_Suc)
  next
    case False
    then have n: "7 < ?n" by simp
    note w = pages_window [OF n assms(1,2)]
    have "length (pageRange page ?n) \<le> 7"
      using n assms(1,2) by (rule window_length)
    moreover have "sorted_wrt (<) ?s" using n assms(1,2) unfolding w
      by (auto simp: sorted_wrt_append sorted_wrt_upt simp del: upt_Suc)
    moreover have "{1, page, ?n} \<subseteq> set ?s" using n assms(1,2) unfolding w by auto
    moreover have "set ?s \<subseteq> {1..?n}" using n assms(1,2) unfolding w by auto
    ultimately show ?thesis by blast
  qed
  have "page * ps - (page - 1) * ps = ps"
    using assms(1) by (simp add: diff_mult_distrib)
  then have "length (page_of page ps rows) = min (page * ps) (length rows) - (page - 1) * ps"
    using assms(1) by (auto simp: page_of_def min_def)
  then have "\<forall>a b. pager_summary page ?n ps (length rows) = Some (a, b) \<longrightarrow> length (page_of page ps rows) = Suc b - a"
    by (simp add: pager_summary_def)
  with marks show ?thesis by blast
qed

theorem pager_is_sound_witness:
  "pager_summary 2 (totalPages (length [1, 2, 3, 4, 5::nat]) 3) 3 (length [1, 2, 3, 4, 5::nat]) = Some (4, 5)
   \<and> length (page_of 2 3 [1, 2, 3, 4, 5::nat]) = Suc 5 - 4"
proof -
  have s: "pager_summary 2 (totalPages (length [1, 2, 3, 4, 5::nat]) 3) 3 (length [1, 2, 3, 4, 5::nat]) = Some (4, 5)"
    by (simp add: pager_summary_def totalPages_def)
  have "(1::nat) \<le> 2" "2 \<le> totalPages (length [1, 2, 3, 4, 5::nat]) 3" "0 < (3::nat)" "[1, 2, 3, 4, 5::nat] \<noteq> []"
    by (simp_all add: totalPages_def)
  from pager_is_sound [OF this] s show ?thesis by (metis (no_types))
qed

section \<open>Filters and selection of the issue list\<close>

record filters =
  fl_status :: string
  fl_priority :: string
  fl_q :: string
  fl_jql :: string
  fl_assignedToMe :: bool
  fl_platformId :: string
  fl_from :: string
  fl_to :: string
  fl_sort :: string
  fl_order :: string

definition DEFAULT_FILTERS :: filters where
  "DEFAULT_FILTERS = \<lparr>fl_status = [], fl_priority = [], fl_q = [], fl_jql = [], fl_assignedToMe = False,
     fl_platformId = [], fl_from = [], fl_to = [], fl_sort = ''createdAt'', fl_order = ''DESC''\<rparr>"

text \<open>
  The query parameters, absent ones left out; \<^verbatim>\<open>toISO\<close> is the platform's
  \<^verbatim>\<open>new Date(day).toISOString()\<close>.
\<close>

definition listParams :: "(string \<Rightarrow> string) \<Rightarrow> filters \<Rightarrow> ident option \<Rightarrow> (string \<times> string) list" where
  "listParams toISO f myId =
     List.map_filter (\<lambda>(k, v). map_option (Pair k) v)
       [(''status'', truthy (Some (fl_status f))), (''priority'', truthy (Some (fl_priority f))),
        (''q'', truthy (Some (fl_q f))), (''jql'', truthy (Some (fl_jql f))),
        (''assigneeId'', if fl_assignedToMe f then myId else None),
        (''platformId'', truthy (Some (fl_platformId f))),
        (''from'', map_option toISO (truthy (Some (fl_from f)))),
        (''to'', map_option (\<lambda>d. toISO (d @ ''T23:59:59'')) (truthy (Some (fl_to f)))),
        (''sort'', Some (fl_sort f)), (''order'', Some (fl_order f))]"

definition activeFilterCount :: "filters \<Rightarrow> nat" where
  "activeFilterCount f =
     length (filter id [fl_status f \<noteq> [], fl_priority f \<noteq> [], fl_q f \<noteq> [], fl_jql f \<noteq> [], fl_assignedToMe f,
       fl_platformId f \<noteq> [], fl_from f \<noteq> [] \<or> fl_to f \<noteq> []])"

record list_page =
  lp_filters :: filters
  lp_page :: nat
  lp_selected :: "ident list"
  lp_rows :: "ident list"

text \<open>The effect on \<^verbatim>\<open>[filters, page]\<close> drops the selection whenever one of them is set anew.\<close>

definition patch :: "(filters \<Rightarrow> filters) \<Rightarrow> list_page \<Rightarrow> list_page" where
  "patch p l = l\<lparr>lp_filters := p (lp_filters l), lp_page := 1, lp_selected := []\<rparr>"

definition setPage :: "nat \<Rightarrow> list_page \<Rightarrow> list_page" where
  "setPage n l = (if n = lp_page l then l else l\<lparr>lp_page := n, lp_selected := []\<rparr>)"

definition toggleRow :: "ident \<Rightarrow> list_page \<Rightarrow> list_page" where
  "toggleRow i l =
     l\<lparr>lp_selected := (if i \<in> set (lp_selected l) then remove1 i (lp_selected l) else lp_selected l @ [i])\<rparr>"

definition allOnPageSelected :: "list_page \<Rightarrow> bool" where
  "allOnPageSelected l = (lp_rows l \<noteq> [] \<and> list_all (\<lambda>i. i \<in> set (lp_selected l)) (lp_rows l))"

definition toggleAll :: "list_page \<Rightarrow> list_page" where
  "toggleAll l = l\<lparr>lp_selected := (if allOnPageSelected l then [] else lp_rows l)\<rparr>"

text \<open>The rows of the current filters and page, from the first answer or a refetch.\<close>

definition rows_arrive :: "ident list \<Rightarrow> list_page \<Rightarrow> list_page" where
  "rows_arrive rows l = l\<lparr>lp_rows := rows\<rparr>"

definition runBulk :: "bulk_op \<Rightarrow> string \<Rightarrow> list_page \<Rightarrow> bulk_dto" where
  "runBulk op v l = \<lparr>blk_ids = lp_selected l, blk_op = op, blk_value = Some v\<rparr>"

definition sort_by :: "string \<Rightarrow> list_page \<Rightarrow> list_page" where
  "sort_by field l =
     patch (\<lambda>f. f\<lparr>fl_sort := field,
        fl_order := (if fl_sort f = field \<and> fl_order f = ''DESC'' then ''ASC'' else ''DESC'')\<rparr>) l"

text \<open>The split view keeps a valid row selected.\<close>

definition split_selection :: "ident list \<Rightarrow> ident option \<Rightarrow> ident option" where
  "split_selection rows sel =
     (case rows of
        [] \<Rightarrow> None
      | r # _ \<Rightarrow> (case truthy sel of Some i \<Rightarrow> (if i \<in> set rows then Some i else Some r) | None \<Rightarrow> Some r))"

lemma split_selection_valid: "split_selection rows sel = Some i \<Longrightarrow> i \<in> set rows"
  by (auto simp: split_selection_def split: list.splits option.splits if_splits)

lemma selection_starts_empty: "lp_selected (patch p l) = [] \<and> (n \<noteq> lp_page l \<longrightarrow> lp_selected (setPage n l) = [])"
  by (simp add: patch_def setPage_def)

lemma sort_toggles: "lp_filters (sort_by f (sort_by f l)) = (lp_filters l)\<lparr>fl_sort := f,
    fl_order := (if fl_sort (lp_filters l) = f \<and> fl_order (lp_filters l) = ''DESC'' then ''DESC'' else ''ASC'')\<rparr>"
  by (simp add: sort_by_def patch_def)

text \<open>
  Until filters or page change a row can be selected only while it is shown; but a refetch of
  the same page keeps the selection, and the bulk request then names a row no longer shown.
\<close>

lemma bulk_names_a_hidden_row:
  "let l = toggleRow ''a'' (rows_arrive [''a'', ''b''] \<lparr>lp_filters = DEFAULT_FILTERS, lp_page = 1, lp_selected = [], lp_rows = []\<rparr>);
       l' = rows_arrive [''b'', ''c''] l
   in blk_ids (runBulk OP_STATUS ''CLOSED'' l') = [''a''] \<and> ''a'' \<notin> set (lp_rows l')"
  by code_simp

section \<open>The confirmation dialog\<close>

record confirm_dialog =
  cd_open :: bool
  cd_typed :: string

datatype confirm_event =
    ParentOpens
  | TriggerClicked
  | Dismissed
  | Typed string

definition onOpenChange :: "bool \<Rightarrow> confirm_dialog \<Rightarrow> confirm_dialog" where
  "onOpenChange nxt d = (if nxt then d\<lparr>cd_typed := [], cd_open := True\<rparr> else d\<lparr>cd_open := False\<rparr>)"

text \<open>In controlled mode the parent opens the dialog through the property alone.\<close>

fun confirm_step :: "confirm_event \<Rightarrow> confirm_dialog \<Rightarrow> confirm_dialog" where
  "confirm_step ParentOpens d = d\<lparr>cd_open := True\<rparr>"
| "confirm_step TriggerClicked d = onOpenChange True d"
| "confirm_step Dismissed d = onOpenChange False d"
| "confirm_step (Typed s) d = (if cd_open d then d\<lparr>cd_typed := s\<rparr> else d)"

definition armed :: "bool \<Rightarrow> string \<Rightarrow> confirm_dialog \<Rightarrow> bool" where
  "armed disabled phrase d = (\<not> disabled \<and> (phrase = [] \<or> cd_typed d = phrase))"

definition closed_dialog :: confirm_dialog where
  "closed_dialog = \<lparr>cd_open = False, cd_typed = []\<rparr>"

text \<open>A dialog with a trigger of its own is never armed by an earlier attempt.\<close>

lemma triggered_dialog_is_disarmed:
  "phrase \<noteq> [] \<Longrightarrow> \<not> armed disabled phrase (confirm_step TriggerClicked d)"
  by (simp add: armed_def onOpenChange_def)

text \<open>One opened by its parent is: the phrase of a cancelled attempt is still there.\<close>

lemma controlled_dialog_is_prearmed:
  "armed False ''a@x'' (fold confirm_step [ParentOpens, Typed ''a@x'', Dismissed, ParentOpens] closed_dialog)"
  by code_simp

section \<open>Accounts\<close>

definition is_active_admin :: "staff_row_view \<Rightarrow> bool" where
  "is_active_admin r = (sr_status r = ACCOUNT_ACTIVE \<and> list_ex (\<lambda>(_, rl, _, _). rl = ADMIN) (sr_roles r))"

definition activeAdmins :: "staff_row_view list \<Rightarrow> nat" where
  "activeAdmins rows = length (filter is_active_admin rows)"

text \<open>Whether the row's actions to disable and delete the account are locked.\<close>

definition lockedOut :: "staff_me option \<Rightarrow> staff_row_view list \<Rightarrow> staff_row_view \<Rightarrow> bool" where
  "lockedOut me rows r =
     (map_option me_id me = Some (sr_id r) \<or> (activeAdmins rows = 1 \<and> is_active_admin r))"

text \<open>The rows the search box leaves.\<close>

definition visible_staff :: "string \<Rightarrow> staff_row_view list \<Rightarrow> staff_row_view list" where
  "visible_staff q0 rows =
     (let q = js_lower (js_trim q0) in
      if q = [] then rows
      else filter (\<lambda>r. has_sub q (js_lower (sr_name r)) \<or> has_sub q (js_lower (sr_email r))) rows)"

text \<open>The dialog that grants a role: what it sends, and when its button works.\<close>

definition assign_payload :: "role \<Rightarrow> ident \<Rightarrow> role \<times> ident option" where
  "assign_payload r platformId = (r, if r = ADMIN then None else truthy (Some platformId))"

definition assign_enabled :: "role \<Rightarrow> ident \<Rightarrow> bool" where
  "assign_enabled r platformId = (\<not> (r = FOCAL_POINT \<and> platformId = []))"

text \<open>The identity dialog sends what changed; the comparison of the address ignores case.\<close>

definition edit_payload :: "string \<Rightarrow> string \<Rightarrow> string \<Rightarrow> string \<Rightarrow> string option \<times> string option" where
  "edit_payload old_name old_email nm email =
     (if nm \<noteq> old_name then Some nm else None, if js_lower email \<noteq> old_email then Some email else None)"

definition edit_enabled :: "string \<Rightarrow> string \<Rightarrow> string \<Rightarrow> string \<Rightarrow> bool" where
  "edit_enabled old_name old_email nm email = ((nm \<noteq> old_name \<or> js_lower email \<noteq> old_email) \<and> js_trim nm \<noteq> [])"

lemma edit_sends_something:
  "edit_enabled on oe nm em \<Longrightarrow> edit_payload on oe nm em \<noteq> (None, None)"
  by (auto simp: edit_enabled_def edit_payload_def)

lemma row_of_staff:
  "u \<in> set (t_staff s) \<Longrightarrow> \<exists>r \<in> set (listStaff s). sr_id r = su_id u \<and> sr_status r = su_status u
     \<and> sr_roles r = map (\<lambda>g. (upr_id g, upr_role g, upr_platform g,
          (case upr_platform g of None \<Rightarrow> None | Some p \<Rightarrow> map_option plat_key (find_platform p s))))
        (filter (\<lambda>g. upr_staff_user g = su_id u) (t_roles s))"
  by (auto simp: listStaff_def)

lemma listStaff_ids: "distinct (map su_id (t_staff s)) \<Longrightarrow> distinct (map sr_id (listStaff s))"
proof -
  assume "distinct (map su_id (t_staff s))"
  moreover have "mset (map su_id (sort_key su_created_at (t_staff s))) = mset (map su_id (t_staff s))" by simp
  ultimately have "distinct (map su_id (sort_key su_created_at (t_staff s)))" by (metis mset_eq_imp_distinct_iff)
  then show ?thesis by (simp add: listStaff_def comp_def)
qed

lemma two_in_filter:
  "distinct xs \<Longrightarrow> a \<in> set xs \<Longrightarrow> b \<in> set xs \<Longrightarrow> a \<noteq> b \<Longrightarrow> P a \<Longrightarrow> P b \<Longrightarrow> 2 \<le> length (filter P xs)"
proof -
  assume "distinct xs" "a \<in> set xs" "b \<in> set xs" "a \<noteq> b" "P a" "P b"
  then have "card {a, b} \<le> card (set (filter P xs))" by (intro card_mono) auto
  also have "\<dots> \<le> length (filter P xs)" by (rule card_length)
  finally show ?thesis using \<open>a \<noteq> b\<close> by simp
qed

text \<open>
  For an active administrator at the screen, the actions to
  disable or delete an account are locked exactly when the server would refuse them: on the
  administrator's own row, and nowhere else.
\<close>

theorem admin_menu_matches_the_server:
  assumes "distinct (map su_id (t_staff s))" and "find_staff (st_id admin) s = Some u"
    and "su_status u = ACCOUNT_ACTIVE"
    and "g \<in> set (t_roles s)" and "upr_staff_user g = st_id admin" and "upr_role g = ADMIN"
    and "r \<in> set (listStaff s)" and "sr_status r \<noteq> ACCOUNT_DISABLED"
  shows "(lockedOut (Some (staff_profile e admin)) (listStaff s) r \<longleftrightarrow> \<not> is_ok (deleteStaff e admin (sr_id r) s))
    \<and> (lockedOut (Some (staff_profile e admin)) (listStaff s) r \<longleftrightarrow>
        \<not> is_ok (prepareUpdateStaff admin (sr_id r)
             \<lparr>us_name = None, us_email = None, us_status = Some ACCOUNT_DISABLED, us_fields = [''status'']\<rparr> s))"
proof -
  have uid: "su_id u = st_id admin" and uin: "u \<in> set (t_staff s)"
    using assms(2) by (auto simp: find_staff_def dest: by_key_SomeD)
  obtain v where v: "v \<in> set (t_staff s)" "sr_id r = su_id v" "sr_status r = su_status v"
    using assms(7) by (auto simp: listStaff_def)
  have fv: "find_staff (sr_id r) s = Some v"
    using by_key_member [OF assms(1) v(1)] v(2) by (simp add: find_staff_def)
  have adm: "active_admin_grant g s" using assms(2,3,5,6) by (simp add: active_admin_grant_def)
  have ok: "assertNotLastAdmin (sr_id r) act s = Inr ()" if "sr_id r \<noteq> st_id admin" for act
    using adm assms(4,5) that by (auto simp: assertNotLastAdmin_def require_def filter_empty_conv)
  have server1: "is_ok (deleteStaff e admin (sr_id r) s) \<longleftrightarrow> sr_id r \<noteq> st_id admin"
    using fv v(2) ok by (auto simp: deleteStaff_def require_def is_ok_def split: sum.splits)
  have server2: "is_ok (prepareUpdateStaff admin (sr_id r)
      \<lparr>us_name = None, us_email = None, us_status = Some ACCOUNT_DISABLED, us_fields = [''status'']\<rparr> s)
      \<longleftrightarrow> sr_id r \<noteq> st_id admin"
    using fv v(2,3) assms(8) ok
    by (auto simp: prepareUpdateStaff_def require_def is_ok_def rekey_staff_def set_if_def split: sum.splits)
  obtain a where a: "a \<in> set (listStaff s)" "sr_id a = st_id admin" "is_active_admin a"
    using row_of_staff [OF uin] assms(3-6) uid by (fastforce simp: is_active_admin_def list_ex_iff)
  have "activeAdmins (listStaff s) \<noteq> 1" if "sr_id r \<noteq> st_id admin" "is_active_admin r"
  proof -
    have "distinct (listStaff s)" using listStaff_ids [OF assms(1)] by (simp add: distinct_map)
    moreover have "r \<noteq> a" using that a by auto
    ultimately have "2 \<le> activeAdmins (listStaff s)"
      unfolding activeAdmins_def using assms(7) a that by (intro two_in_filter [of _ r a]) auto
    then show ?thesis by simp
  qed
  then have "lockedOut (Some (staff_profile e admin)) (listStaff s) r \<longleftrightarrow> sr_id r = st_id admin"
    by (auto simp: lockedOut_def staff_profile_def)
  with server1 server2 show ?thesis by blast
qed

section \<open>Grants and policies\<close>

text \<open>What the role dialog can send never breaks the scope rules of the server.\<close>

lemma role_dialog_respects_scope:
  assumes "assign_enabled r p" and "assignRole e admin uid (fst (assign_payload r p)) (snd (assign_payload r p)) s = Inl err"
  shows "\<forall>m. err \<noteq> BadRequest m"
  using assms
  by (auto simp: assign_enabled_def assign_payload_def assignRole_def require_def truthy_def db_error_def Let_def
      split: if_splits option.splits)

definition SLA_PRIORITIES :: "string list" where
  "SLA_PRIORITIES = map priority_name [CRITICAL, HIGH, MEDIUM, LOW]"

text \<open>\<^verbatim>\<open>Number(v)\<close> reads the fields; \<^verbatim>\<open>None\<close> is not a number.\<close>

definition sla_invalid :: "(string \<Rightarrow> string) \<Rightarrow> bool" where
  "sla_invalid hours =
     list_ex (\<lambda>p. js_trim (hours p) \<noteq> []
        \<and> (case js_number (js_trim (hours p)) of None \<Rightarrow> True | Some h \<Rightarrow> h \<le> 0 \<or> h > 8760)) SLA_PRIORITIES"

definition sla_payload :: "(string \<Rightarrow> string) \<Rightarrow> sla_policy" where
  "sla_payload hours =
     (let pol = List.map_filter (\<lambda>p. if js_trim (hours p) = [] then None
            else map_option (\<lambda>h. (p, JNum h)) (js_number (js_trim (hours p)))) SLA_PRIORITIES
      in if pol = [] then None else Some pol)"

lemma validate_entries_valid:
  "list_all (\<lambda>(k, v). k \<in> set (map priority_name all_priorities) \<and> (\<exists>h. v = JNum h \<and> 0 < h \<and> h \<le> 8760)) m \<Longrightarrow>
   validate_entries m = Inr m"
  by (induction m rule: validate_entries.induct) auto

lemma sla_dialog_is_accepted:
  assumes "\<not> sla_invalid hours"
  shows "validateSlaPolicy (sla_payload hours) = Inr (sla_payload hours)"
proof -
  let ?pol = "List.map_filter (\<lambda>p. if js_trim (hours p) = [] then None
            else map_option (\<lambda>h. (p, JNum h)) (js_number (js_trim (hours p)))) SLA_PRIORITIES"
  have "set SLA_PRIORITIES = set (map priority_name all_priorities)"
    by (auto simp: SLA_PRIORITIES_def all_priorities_def)
  with assms have "list_all (\<lambda>(k, v). k \<in> set (map priority_name all_priorities) \<and> (\<exists>h. v = JNum h \<and> 0 < h \<and> h \<le> 8760)) ?pol"
    unfolding list_all_iff set_map_filter sla_invalid_def list_ex_iff
    by (fastforce split: if_splits option.splits)
  then have "validate_entries ?pol = Inr ?pol" by (rule validate_entries_valid)
  then show ?thesis
    by (cases ?pol) (simp_all add: sla_payload_def validateSlaPolicy_def Let_def)
qed

section \<open>Labels and links\<close>

datatype label_action = AddExisting ident | CreateNew string | JustClear

definition submitNew :: "(ident \<times> string \<times> string) list \<Rightarrow> ident list \<Rightarrow> string \<Rightarrow> label_action option" where
  "submitNew catalog appliedIds newName =
     (let nm = js_trim newName in
      if nm = [] then None
      else (case List.find (\<lambda>(_, n, _). js_lower n = js_lower nm) catalog of
          Some (i, _, _) \<Rightarrow> Some (if i \<in> set appliedIds then JustClear else AddExisting i)
        | None \<Rightarrow> Some (CreateNew nm)))"

text \<open>A name the box decides to create is free on the platform.\<close>

lemma new_label_never_conflicts:
  assumes "submitNew (map (\<lambda>l. (lab_id l, lab_name l, lab_color l)) (filter (\<lambda>l. lab_platform l = p) (t_labels s))) ap n
      = Some (CreateNew nm)" and "l \<in> set (t_labels s)" and "lab_platform l = p"
  shows "lab_name l \<noteq> nm"
proof
  assume "lab_name l = nm"
  let ?cat = "map (\<lambda>l. (lab_id l, lab_name l, lab_color l)) (filter (\<lambda>l. lab_platform l = p) (t_labels s))"
  from assms(1) have "List.find (\<lambda>(_, n, _). js_lower n = js_lower nm) ?cat = None"
    by (auto simp: submitNew_def Let_def split: if_splits option.splits)
  with assms(2,3) \<open>lab_name l = nm\<close> show False by (auto simp: find_None_iff)
qed

text \<open>
  A link is created by reference: the row of the search whose reference is the text typed, or an
  error made to look like the server's.
\<close>

definition link_target :: "list_item list \<Rightarrow> string \<Rightarrow> axios_error + ident" where
  "link_target rows typed =
     (let q = js_trim typed in
      case List.find (\<lambda>c. js_lower (li_reference_no c) = js_lower q) rows of
        Some c \<Rightarrow> Inr (li_id c)
      | None \<Rightarrow> Inl (Some (404, Some (One (''No issue '' @ [CHR 0x22] @ q @ [CHR 0x22] @ '' you can access.'')))))"

lemma mistyped_reference_is_explained:
  "link_target rows ''SUP-9'' = Inl err \<Longrightarrow>
   toastApiError err = [''No issue '' @ [CHR 0x22] @ ''SUP-9'' @ [CHR 0x22] @ '' you can access.'']"
proof -
  assume "link_target rows ''SUP-9'' = Inl err"
  moreover have "js_trim ''SUP-9'' = ''SUP-9''" by code_simp
  ultimately have e: "err = Some (404, Some (One (''No issue '' @ [CHR 0x22] @ ''SUP-9'' @ [CHR 0x22] @ '' you can access.'')))"
    by (auto simp: link_target_def Let_def split: option.splits)
  have "toastApiError (Some (404, Some (One (''No issue '' @ [CHR 0x22] @ ''SUP-9'' @ [CHR 0x22] @ '' you can access.''))))
      = [''No issue '' @ [CHR 0x22] @ ''SUP-9'' @ [CHR 0x22] @ '' you can access.'']" by code_simp
  with e show ?thesis by simp
qed

section \<open>The intake form\<close>

record browser_file =
  bf_name :: string
  bf_type :: string
  bf_size :: nat

datatype form_error = TooManyFiles | BadType string | TooLarge string

fun check_files :: "browser_file list \<Rightarrow> form_error option" where
  "check_files [] = None"
| "check_files (f # fs) =
     (if bf_type f \<noteq> [] \<and> bf_type f \<notin> set ALLOWED_MIME_TYPES then Some (BadType (bf_name f))
      else if MAX_FILE_BYTES < bf_size f then Some (TooLarge (bf_name f))
      else check_files fs)"

definition form_error_of :: "browser_file list \<Rightarrow> form_error option" where
  "form_error_of fs =
     (if fs = [] then None
      else if MAX_FILES < length fs then Some TooManyFiles else check_files fs)"

definition MIN_DESCRIPTION :: nat where
  "MIN_DESCRIPTION = 10"

definition submit_enabled :: "bool \<Rightarrow> string \<Rightarrow> browser_file list \<Rightarrow> bool" where
  "submit_enabled is_pending description fs =
     (\<not> (is_pending \<or> length description < MIN_DESCRIPTION \<or> form_error_of fs \<noteq> None))"

text \<open>The screenshot of the diagnostics joins the files while there is room.\<close>

definition files_sent :: "'a list \<Rightarrow> 'a option \<Rightarrow> 'a list" where
  "files_sent fs shot =
     (case shot of Some x \<Rightarrow> (if length fs < MAX_FILES then fs @ [x] else fs) | None \<Rightarrow> fs)"

definition as_browser_file :: "upload \<Rightarrow> browser_file" where
  "as_browser_file f = \<lparr>bf_name = up_name f, bf_type = up_mimetype f, bf_size = up_size f\<rparr>"

definition genuine :: "upload \<Rightarrow> bool" where
  "genuine f = (\<exists>t \<in> set ALLOWED_MIME_TYPES. sniffAllowedMime (up_buffer f) = Some t)"

lemma check_files_sizes: "check_files (map as_browser_file fs) = None \<Longrightarrow> list_all (\<lambda>f. up_size f \<le> MAX_FILE_BYTES) fs"
  by (induction fs) (auto simp: as_browser_file_def split: if_splits)

lemma genuine_files_pass:
  "list_all (\<lambda>f. up_size f \<le> MAX_FILE_BYTES) fs \<Longrightarrow> list_all genuine fs \<Longrightarrow> \<exists>ts. validate_each fs = Inr ts"
  by (induction fs) (auto simp: genuine_def)

text \<open>
  Files the intake form lets through, screenshot included, are accepted
  by the server as soon as their content is what one of the allowed types looks like: the
  limits on number and size never differ.
\<close>

theorem intake_form_is_accepted:
  assumes "submit_enabled is_pending description (map as_browser_file fs)"
    and "list_all genuine (files_sent fs shot)"
    and "case shot of Some x \<Rightarrow> up_size x \<le> MAX_FILE_BYTES | None \<Rightarrow> True"
  shows "\<exists>ts. Uploads.validateFiles (files_sent fs shot) = Inr ts"
proof -
  have e: "form_error_of (map as_browser_file fs) = None" using assms(1) by (simp add: submit_enabled_def)
  then have n: "length fs \<le> MAX_FILES" by (auto simp: form_error_of_def split: if_splits)
  have "list_all (\<lambda>f. up_size f \<le> MAX_FILE_BYTES) fs"
    using e check_files_sizes [of fs] by (cases "fs = []") (auto simp: form_error_of_def split: if_splits)
  with assms(3) have "list_all (\<lambda>f. up_size f \<le> MAX_FILE_BYTES) (files_sent fs shot)"
    by (simp add: files_sent_def split: option.splits)
  from genuine_files_pass [OF this assms(2)] obtain ts where ts: "validate_each (files_sent fs shot) = Inr ts" by blast
  have "length (files_sent fs shot) \<le> MAX_FILES"
    using n by (simp add: files_sent_def split: option.split)
  with ts show ?thesis by (simp add: Uploads.validateFiles_def)
qed

definition demo_pdf :: upload where
  "demo_pdf = \<lparr>up_name = ''a.pdf'', up_size = 5, up_buffer = [0x25, 0x50, 0x44, 0x46, 0x2d], up_mimetype = []\<rparr>"

theorem intake_form_is_accepted_witness:
  "\<exists>ts. Uploads.validateFiles (files_sent [demo_pdf] (Some demo_pdf)) = Inr ts"
proof -
  have "submit_enabled False ''It does not print.'' (map as_browser_file [demo_pdf])"
    by (simp add: submit_enabled_def form_error_of_def MIN_DESCRIPTION_def MAX_FILES_def MAX_FILE_BYTES_def
        as_browser_file_def demo_pdf_def)
  moreover have "sniffAllowedMime (up_buffer demo_pdf) = Some ''application/pdf''" by code_simp
  then have "list_all genuine (files_sent [demo_pdf] (Some demo_pdf))"
    by (simp add: files_sent_def genuine_def ALLOWED_MIME_TYPES_def MAX_FILES_def)
  moreover have "case Some demo_pdf of Some x \<Rightarrow> up_size x \<le> MAX_FILE_BYTES | None \<Rightarrow> True"
    by (simp add: demo_pdf_def MAX_FILE_BYTES_def)
  ultimately show ?thesis by (rule intake_form_is_accepted)
qed

end
