(* ===== verification/Seeding.thy ===== *)
theory Seeding
  imports Reporter Accounts "HOL-Library.Sublist"
begin

text \<open>
  The operator's scripts (\<^verbatim>\<open>scripts/seed-prod.ts\<close>, \<^verbatim>\<open>scripts/seed.ts\<close>,
  \<^verbatim>\<open>scripts/seed-demo.ts\<close>): configuration from the process environment, the guarded
  wipe, the first platform, administrator and watcher, what is printed and what is written to
  files, and the rows the demonstration data consists of. A script runs outside any
  transaction: what was saved before a failure stays.
\<close>

section \<open>The world of a script\<close>

text \<open>A line on the console, by the values it interpolates.\<close>

datatype console_line =
    Connected
  | Wiped nat
  | CreatedPlatform string string
  | SecretWrittenTo string
  | PlatformExists string
  | PlatformReset bool bool
  | CreatedAccount role string string "string option"
  | AccountExists role string
  | SeedComplete
  | LoginLine string
  | WatcherLine string
  | PlatformLine string

record seed_world =
  sw_db :: db
  sw_files :: "(string \<times> string) list"
  sw_out :: "console_line list"

type_synonym 'a seeding = "seed_world \<Rightarrow> 'a res \<times> seed_world"

definition and_then :: "'a seeding \<Rightarrow> ('a \<Rightarrow> 'b seeding) \<Rightarrow> 'b seeding" where
  "and_then m f w = (case m w of (Inl e, v) \<Rightarrow> (Inl e, v) | (Inr x, v) \<Rightarrow> f x v)"

definition say :: "console_line list \<Rightarrow> seed_world \<Rightarrow> seed_world" where
  "say ls w = w\<lparr>sw_out := sw_out w @ ls\<rparr>"

section \<open>Configuration\<close>

datatype seed_exit =
    MissingEnv string
  | ShortAdminPassword
  | NoWatcherPassword
  | ShortWatcherPassword
  | WrongSentinel
  | SeedFailed http_error

record seed_config =
  cfg_admin_name :: string
  cfg_admin_email :: string
  cfg_admin_password :: string
  cfg_platform_key :: string
  cfg_platform_name :: string
  cfg_handoff_secret :: string
  cfg_watcher_email :: "string option"
  cfg_watcher_password :: "string option"
  cfg_watcher_name :: string
  cfg_watcher_global :: bool
  cfg_wipe :: bool

definition required_var :: "env \<Rightarrow> string \<Rightarrow> seed_exit + string" where
  "required_var e key = (case truthy (process_env e key) of None \<Rightarrow> Inl (MissingEnv key) | Some v \<Rightarrow> Inr v)"

definition optional_var :: "env \<Rightarrow> string \<Rightarrow> string \<Rightarrow> string" where
  "optional_var e key fallback = (case truthy (process_env e key) of None \<Rightarrow> fallback | Some v \<Rightarrow> v)"

definition SENTINEL :: string where
  "SENTINEL = ''YES_DELETE_ALL_DATA''"

text \<open>\<^verbatim>\<open>random\<close> is the generated secret.\<close>

definition read_config :: "env \<Rightarrow> string \<Rightarrow> seed_exit + seed_config" where
  "read_config e random =
     bind_res (required_var e ''ADMIN_PASSWORD'') (\<lambda>password.
       let watcher_email = truthy (process_env e ''WATCHER_EMAIL'');
           watcher_password = truthy (process_env e ''WATCHER_PASSWORD'');
           wipe = truthy (process_env e ''WIPE_DATA'')
       in require (8 \<le> length password) ShortAdminPassword
         (require (\<not> (watcher_email \<noteq> None \<and> watcher_password = None)) NoWatcherPassword
         (require (case watcher_password of None \<Rightarrow> True | Some p \<Rightarrow> 8 \<le> length p) ShortWatcherPassword
         (require (wipe = None \<or> wipe = Some SENTINEL) WrongSentinel
           (Inr \<lparr>cfg_admin_name = optional_var e ''ADMIN_NAME'' ''Admin'',
                 cfg_admin_email = optional_var e ''ADMIN_EMAIL'' ''admin@cimp.local'',
                 cfg_admin_password = password,
                 cfg_platform_key = optional_var e ''PLATFORM_KEY'' ''portal-a'',
                 cfg_platform_name = optional_var e ''PLATFORM_NAME'' ''Portal A'',
                 cfg_handoff_secret = optional_var e ''HANDOFF_SECRET'' random,
                 cfg_watcher_email = watcher_email, cfg_watcher_password = watcher_password,
                 cfg_watcher_name = optional_var e ''WATCHER_NAME'' ''Watcher'',
                 cfg_watcher_global = (process_env e ''WATCHER_GLOBAL'' = Some ''true''),
                 cfg_wipe = (wipe = Some SENTINEL)\<rparr>)))))"

section \<open>Steps\<close>

text \<open>Truncating the tables the catalogue lists (every one but the ledger of migrations).\<close>

definition truncate_all :: "db \<Rightarrow> db" where
  "truncate_all s = s\<lparr>t_platforms := [], t_staff := [], t_roles := [], t_reporters := [], t_issues := [],
     t_comments := [], t_attachments := [], t_audit := [], t_labels := [], t_issue_labels := [],
     t_links := [], t_watchers := [], t_rules := [], t_views := [], t_csat := [], t_subs := [],
     t_notifs := [], t_tokens := [], t_hooks := [], t_saved_views := [], t_canned := [],
     t_components := [], t_incidents := [], t_updates := []\<rparr>"

definition wipe_all :: "nat \<Rightarrow> seed_world \<Rightarrow> seed_world" where
  "wipe_all n w = (if n = 0 then w else say [Wiped n] (w\<lparr>sw_db := truncate_all (sw_db w)\<rparr>))"

definition fresh_platform :: "env \<Rightarrow> string \<Rightarrow> string \<Rightarrow> string \<Rightarrow> db \<Rightarrow> platform" where
  "fresh_platform e key nm secret s =
     \<lparr>plat_id = fresh_id s, plat_key = key, plat_name = nm, plat_status = PLATFORM_ACTIVE,
      plat_jira_project_key = None, plat_jira_enabled = False, plat_sla_policy = None,
      plat_handoff_secret = secret, plat_created_at = now e\<rparr>"

definition insert_platform :: "env \<Rightarrow> string \<Rightarrow> string \<Rightarrow> string \<Rightarrow> db \<Rightarrow> (platform \<times> db) res" where
  "insert_platform e key nm secret s =
     require (find_platform (fresh_id s) s = None) db_error
       (let p = fresh_platform e key nm secret s
        in Inr (p, draw_id (t_platforms_update (\<lambda>ps. ps @ [p]) s)))"

definition secret_file :: "string \<Rightarrow> string" where
  "secret_file key = ''handoff-secret-'' @ key @ ''.txt''"

definition seed_platform :: "env \<Rightarrow> seed_config \<Rightarrow> platform seeding" where
  "seed_platform e c w =
     (case find_platform_by_key (cfg_platform_key c) (sw_db w) of
        Some p \<Rightarrow> (Inr p, say [PlatformExists (cfg_platform_key c)] w)
      | None \<Rightarrow>
         (case insert_platform e (cfg_platform_key c) (cfg_platform_name c) (cfg_handoff_secret c) (sw_db w) of
            Inl er \<Rightarrow> (Inl er, w)
          | Inr (p, s1) \<Rightarrow>
              (Inr p, say [CreatedPlatform (cfg_platform_name c) (cfg_platform_key c), SecretWrittenTo (secret_file (cfg_platform_key c))]
                (w\<lparr>sw_db := s1, sw_files := sw_files w @ [(secret_file (cfg_platform_key c), cfg_handoff_secret c @ [CHR 0x0A])]\<rparr>))))"

text \<open>The scripts prefix the address as it stands, the administration its lower case.\<close>

definition seed_subject :: "string \<Rightarrow> string" where
  "seed_subject email = ''local:'' @ email"

definition find_seeded :: "string \<Rightarrow> db \<Rightarrow> staff_user option" where
  "find_seeded email s = List.find (\<lambda>u. su_email u = email \<or> su_idp_subject u = seed_subject email) (t_staff s)"

definition insert_grant :: "env \<Rightarrow> ident \<Rightarrow> ident option \<Rightarrow> role \<Rightarrow> db \<Rightarrow> db res" where
  "insert_grant e uid pid r s =
     require (by_key upr_id (fresh_id s) (t_roles s) = None) db_error
       (Inr (draw_id (t_roles_update (\<lambda>gs. gs @ [\<lparr>upr_id = fresh_id s, upr_staff_user = uid, upr_platform = pid,
          upr_role = r, upr_created_at = now e\<rparr>]) s)))"

text \<open>Account and grant are two saves; a failure between them leaves the account.\<close>

definition seed_account :: "env \<Rightarrow> string \<Rightarrow> string \<Rightarrow> string \<Rightarrow> ident option \<Rightarrow> role \<Rightarrow> string option \<Rightarrow> unit seeding" where
  "seed_account e email nm hash pid r where_shown w =
     (case find_seeded email (sw_db w) of
        Some u \<Rightarrow> (Inr (), say [AccountExists r email] w)
      | None \<Rightarrow>
         (case insert_staff e (seed_subject email) nm email (Some hash) (sw_db w) of
            Inl er \<Rightarrow> (Inl er, w)
          | Inr (u, s1) \<Rightarrow>
             (case insert_grant e (su_id u) pid r s1 of
                Inl er \<Rightarrow> (Inl er, w\<lparr>sw_db := s1\<rparr>)
              | Inr s2 \<Rightarrow> (Inr (), say [CreatedAccount r nm email where_shown] (w\<lparr>sw_db := s2\<rparr>)))))"

definition seed_watcher :: "env \<Rightarrow> (string \<Rightarrow> string) \<Rightarrow> seed_config \<Rightarrow> platform \<Rightarrow> unit seeding" where
  "seed_watcher e hash c p w =
     (case (cfg_watcher_email c, cfg_watcher_password c) of
        (Some m, Some pw) \<Rightarrow>
          seed_account e m (cfg_watcher_name c) (hash pw) (if cfg_watcher_global c then None else Some (plat_id p)) WATCHER
            (if cfg_watcher_global c then None else Some (cfg_platform_key c)) w
      | _ \<Rightarrow> (Inr (), w))"

definition summary :: "seed_config \<Rightarrow> console_line list" where
  "summary c = [SeedComplete, LoginLine (cfg_admin_email c)]
     @ (case cfg_watcher_email c of None \<Rightarrow> [] | Some m \<Rightarrow> [WatcherLine m]) @ [PlatformLine (cfg_platform_key c)]"

definition seed_run :: "env \<Rightarrow> (string \<Rightarrow> string) \<Rightarrow> nat \<Rightarrow> seed_config \<Rightarrow> unit seeding" where
  "seed_run e hash tables c w0 =
     (let w1 = say [Connected] w0;
          w2 = (if cfg_wipe c then wipe_all tables w1 else w1)
      in and_then (seed_platform e c) (\<lambda>p.
         and_then (seed_account e (cfg_admin_email c) (cfg_admin_name c) (hash (cfg_admin_password c)) None ADMIN None) (\<lambda>_.
         and_then (seed_watcher e hash c p) (\<lambda>_ w. (Inr (), say (summary c) w)))) w2)"

definition seed_prod :: "env \<Rightarrow> (string \<Rightarrow> string) \<Rightarrow> nat \<Rightarrow> string \<Rightarrow> seed_world \<Rightarrow> seed_exit option \<times> seed_world" where
  "seed_prod e hash tables random w =
     (case read_config e random of
        Inl x \<Rightarrow> (Some x, w)
      | Inr c \<Rightarrow> (case seed_run e hash tables c w of
                    (Inl er, v) \<Rightarrow> (Some (SeedFailed er), v)
                  | (Inr _, v) \<Rightarrow> (None, v)))"

section \<open>What the scripts keep\<close>

locale script_order =
  fixes keeps :: "seed_world \<Rightarrow> seed_world \<Rightarrow> bool"
  assumes keeps_refl: "keeps w w"
    and keeps_trans: "keeps u v \<Longrightarrow> keeps v w \<Longrightarrow> keeps u w"
begin

lemma and_then_keeps:
  assumes "keeps w (snd (m w))" and "\<And>x v. keeps v (snd (f x v))"
  shows "keeps w (snd (and_then m f w))"
proof (cases "m w")
  case (Pair r v)
  with assms keeps_trans show ?thesis by (cases r) (auto simp: and_then_def)
qed

end

text \<open>Rows are only appended, and only to three tables.\<close>

definition rows_grow :: "db \<Rightarrow> db \<Rightarrow> bool" where
  "rows_grow s t \<longleftrightarrow> prefix (t_platforms s) (t_platforms t) \<and> prefix (t_staff s) (t_staff t) \<and> prefix (t_roles s) (t_roles t)
     \<and> t\<lparr>t_platforms := [], t_staff := [], t_roles := [], uuid_drawn := 0\<rparr>
       = s\<lparr>t_platforms := [], t_staff := [], t_roles := [], uuid_drawn := 0\<rparr>"

lemma rows_grow_refl: "rows_grow s s"
  by (simp add: rows_grow_def)

lemma rows_grow_trans: "rows_grow s t \<Longrightarrow> rows_grow t u \<Longrightarrow> rows_grow s u"
  by (auto simp: rows_grow_def intro: prefix_order.trans)

definition grows :: "seed_world \<Rightarrow> seed_world \<Rightarrow> bool" where
  "grows w v \<longleftrightarrow> rows_grow (sw_db w) (sw_db v) \<and> prefix (sw_files w) (sw_files v) \<and> prefix (sw_out w) (sw_out v)"

interpretation world_growth: script_order grows
  by unfold_locales (auto simp: grows_def intro: rows_grow_refl rows_grow_trans prefix_order.trans)

lemma say_simps [simp]:
  "sw_db (say ls w) = sw_db w" "sw_files (say ls w) = sw_files w" "sw_out (say ls w) = sw_out w @ ls"
  by (simp_all add: say_def)

lemma grows_say: "grows w v \<Longrightarrow> grows w (say ls v)"
  by (simp add: grows_def prefix_append)

lemma insert_platform_grows: "insert_platform e k nm sec s = Inr (p, t) \<Longrightarrow> rows_grow s t"
  by (auto simp: insert_platform_def require_Inr_iff Let_def rows_grow_def draw_id_def)

lemma insert_staff_grows: "insert_staff e sub nm m h s = Inr (u, t) \<Longrightarrow> rows_grow s t"
  by (auto simp: insert_staff_def require_Inr_iff Let_def rows_grow_def draw_id_def)

lemma insert_grant_grows: "insert_grant e u p r s = Inr t \<Longrightarrow> rows_grow s t"
  by (auto simp: insert_grant_def require_Inr_iff rows_grow_def draw_id_def)

lemma seed_platform_grows: "grows w (snd (seed_platform e c w))"
  using insert_platform_grows
  by (auto simp: seed_platform_def grows_def rows_grow_refl split: option.splits sum.splits)

lemma seed_account_grows: "grows w (snd (seed_account e m nm h p r sh w))"
proof (cases "insert_staff e (seed_subject m) nm m (Some h) (sw_db w)")
  case (Inl er)
  then show ?thesis
    by (auto simp: seed_account_def grows_def rows_grow_refl split: option.split)
next
  case (Inr us)
  obtain u s1 where us: "us = (u, s1)" by (cases us)
  with Inr insert_staff_grows have g: "rows_grow (sw_db w) s1" by blast
  show ?thesis
  proof (cases "insert_grant e (su_id u) p r s1")
    case (Inl er)
    with Inr us g show ?thesis
      by (auto simp: seed_account_def grows_def rows_grow_refl split: option.split)
  next
    case (Inr s2)
    with insert_grant_grows g rows_grow_trans have "rows_grow (sw_db w) s2" by blast
    with Inr \<open>insert_staff e (seed_subject m) nm m (Some h) (sw_db w) = Inr us\<close> us show ?thesis
      by (auto simp: seed_account_def grows_def rows_grow_refl split: option.split)
  qed
qed

lemma seed_watcher_grows: "grows w (snd (seed_watcher e hash c p w))"
  using seed_account_grows world_growth.keeps_refl
  by (simp add: seed_watcher_def split: option.splits)

lemma seed_run_grows: "\<not> cfg_wipe c \<Longrightarrow> grows w (snd (seed_run e hash n c w))"
proof -
  assume "\<not> cfg_wipe c"
  moreover have "grows (say [Connected] w) (snd (and_then (seed_platform e c) (\<lambda>p.
         and_then (seed_account e (cfg_admin_email c) (cfg_admin_name c) (hash (cfg_admin_password c)) None ADMIN None) (\<lambda>_.
         and_then (seed_watcher e hash c p) (\<lambda>_ w. (Inr (), say (summary c) w)))) (say [Connected] w)))"
    by (intro world_growth.and_then_keeps seed_platform_grows seed_account_grows seed_watcher_grows)
      (simp add: grows_say world_growth.keeps_refl)
  moreover have "grows w (say [Connected] w)" by (simp add: grows_say world_growth.keeps_refl)
  ultimately show ?thesis unfolding seed_run_def Let_def using world_growth.keeps_trans by auto
qed

lemma read_config_wipe: "read_config e random = Inr c \<Longrightarrow> cfg_wipe c \<longleftrightarrow> process_env e ''WIPE_DATA'' = Some SENTINEL"
  by (auto simp: read_config_def res_iffs Let_def truthy_def SENTINEL_def split: if_splits)

text \<open>
  Unless \<^verbatim>\<open>WIPE_DATA\<close> is exactly the sentinel, the
  production script deletes and changes nothing, however it ends: every row and file is still
  there in its place, rows are appended to platforms, staff and grants alone; and an
  environment it refuses leaves the world as it was, whatever the variable says.
\<close>

theorem seed_deletes_only_on_the_sentinel:
  assumes "seed_prod e hash n random w = (r, v)"
    and "process_env e ''WIPE_DATA'' \<noteq> Some SENTINEL \<or> (\<exists>x. read_config e random = Inl x)"
  shows "grows w v \<and> (\<forall>x. read_config e random = Inl x \<longrightarrow> r = Some x \<and> v = w)"
proof (cases "read_config e random")
  case (Inl x)
  with assms(1) show ?thesis by (simp add: seed_prod_def world_growth.keeps_refl)
next
  case (Inr c)
  with assms(2) read_config_wipe have "\<not> cfg_wipe c" by auto
  from seed_run_grows [OF this, of w e hash n] Inr assms(1) show ?thesis
    by (auto simp: seed_prod_def split: prod.splits sum.splits)
qed

definition operator_env :: "(string \<times> string) list \<Rightarrow> env" where
  "operator_env kvs = plain_env\<lparr>process_env := map_of kvs\<rparr>"

definition start_world :: "db \<Rightarrow> seed_world" where
  "start_world s = \<lparr>sw_db = s, sw_files = [], sw_out = []\<rparr>"

theorem seed_deletes_only_on_the_sentinel_witness:
  "seed_prod (operator_env [(''ADMIN_PASSWORD'', ''long enough''), (''WIPE_DATA'', ''yes'')]) id 24 ''0f'' (start_world two_admins)
   = (Some WrongSentinel, start_world two_admins)"
proof -
  let ?e = "operator_env [(''ADMIN_PASSWORD'', ''long enough''), (''WIPE_DATA'', ''yes'')]"
  have c: "read_config ?e ''0f'' = Inl WrongSentinel" by code_simp
  obtain r v where "seed_prod ?e id 24 ''0f'' (start_world two_admins) = (r, v)" by (cases "seed_prod ?e id 24 ''0f'' (start_world two_admins)") simp
  with seed_deletes_only_on_the_sentinel [OF this] c show ?thesis by simp
qed

section \<open>Running it again\<close>

lemma find_prefix: "prefix xs ys \<Longrightarrow> List.find p xs = Some x \<Longrightarrow> List.find p ys = Some x"
  by (auto simp: prefix_def find_append)

lemma grown_platform: "grows w v \<Longrightarrow> find_platform_by_key k (sw_db w) = Some p \<Longrightarrow> find_platform_by_key k (sw_db v) = Some p"
  unfolding find_platform_by_key_def by_key_def by (erule find_prefix [rotated]) (simp add: grows_def rows_grow_def)

lemma grown_account: "grows w v \<Longrightarrow> find_seeded m (sw_db w) = Some u \<Longrightarrow> find_seeded m (sw_db v) = Some u"
  unfolding find_seeded_def by (erule find_prefix [rotated]) (simp add: grows_def rows_grow_def)

lemma seed_platform_found: "seed_platform e c w = (Inr p, v) \<Longrightarrow> find_platform_by_key (cfg_platform_key c) (sw_db v) = Some p"
  by (auto simp: seed_platform_def insert_platform_def require_Inr_iff Let_def fresh_platform_def draw_id_def
      find_platform_by_key_def by_key_append by_key_Cons split: option.splits sum.splits)

lemma seed_account_found: "seed_account e m nm h p r sh w = (Inr (), v) \<Longrightarrow> \<exists>u. find_seeded m (sw_db v) = Some u"
  by (auto simp: seed_account_def insert_staff_def insert_grant_def require_Inr_iff Let_def draw_id_def
      find_seeded_def find_append split: option.splits sum.splits)

text \<open>What a script that has run leaves to find.\<close>

definition seeded :: "seed_config \<Rightarrow> seed_world \<Rightarrow> bool" where
  "seeded c w \<longleftrightarrow> find_platform_by_key (cfg_platform_key c) (sw_db w) \<noteq> None \<and> find_seeded (cfg_admin_email c) (sw_db w) \<noteq> None
     \<and> (case (cfg_watcher_email c, cfg_watcher_password c) of (Some m, Some _) \<Rightarrow> find_seeded m (sw_db w) \<noteq> None | _ \<Rightarrow> True)"

lemma and_then_InrE:
  assumes "and_then m f w = (Inr y, v)"
  obtains x u where "m w = (Inr x, u)" and "f x u = (Inr y, v)"
  using assms by (auto simp: and_then_def split: prod.splits sum.splits)

lemma seed_run_seeded:
  assumes "seed_run e hash n c w = (Inr (), v)"
  shows "seeded c v"
proof -
  let ?a = "seed_account e (cfg_admin_email c) (cfg_admin_name c) (hash (cfg_admin_password c)) None ADMIN None"
  from assms obtain w2 where "and_then (seed_platform e c) (\<lambda>p. and_then ?a (\<lambda>_.
      and_then (seed_watcher e hash c p) (\<lambda>_ w. (Inr (), say (summary c) w)))) w2 = (Inr (), v)"
    unfolding seed_run_def Let_def by blast
  then obtain p w3 w4 w5 where p: "seed_platform e c w2 = (Inr p, w3)" and a: "?a w3 = (Inr (), w4)"
    and wt: "seed_watcher e hash c p w4 = (Inr (), w5)" and v: "v = say (summary c) w5"
    by (elim and_then_InrE) auto
  have g: "grows w3 w4" "grows w4 w5"
    using seed_account_grows [of w3 e] a seed_watcher_grows [of w4 e hash c p] wt by (metis snd_conv)+
  have "find_platform_by_key (cfg_platform_key c) (sw_db v) = Some p"
    using grown_platform [OF g(2) grown_platform [OF g(1) seed_platform_found [OF p]]] by (simp add: v)
  moreover have "find_seeded (cfg_admin_email c) (sw_db v) \<noteq> None"
    using seed_account_found [OF a] grown_account [OF g(2)] by (auto simp: v)
  moreover have "find_seeded m (sw_db v) \<noteq> None" if "cfg_watcher_email c = Some m" "cfg_watcher_password c = Some pw" for m pw
    using wt that seed_account_found by (fastforce simp: seed_watcher_def v)
  ultimately show ?thesis by (simp add: seeded_def split: option.splits)
qed

lemma seed_run_again:
  assumes "seeded c w" and "\<not> cfg_wipe c"
  shows "fst (seed_run e hash n c w) = Inr () \<and> sw_db (snd (seed_run e hash n c w)) = sw_db w
    \<and> sw_files (snd (seed_run e hash n c w)) = sw_files w"
proof -
  from assms(1) obtain p u where "find_platform_by_key (cfg_platform_key c) (sw_db w) = Some p"
    "find_seeded (cfg_admin_email c) (sw_db w) = Some u" by (auto simp: seeded_def)
  with assms show ?thesis
    by (auto simp: seed_run_def Let_def and_then_def seed_platform_def seed_account_def seed_watcher_def seeded_def
        split: option.splits)
qed

text \<open>
  After a run that ended well, a run with the same names and
  addresses and without the wipe, under any clock, secret and passwords, ends well and leaves
  the database and the files as they are.
\<close>

theorem seeding_again_changes_nothing:
  assumes "seed_prod e hash n random w = (None, v)"
    and "read_config e random = Inr c" and "read_config e' random' = Inr c'" and "\<not> cfg_wipe c'"
    and "cfg_platform_key c' = cfg_platform_key c" and "cfg_admin_email c' = cfg_admin_email c"
    and "cfg_watcher_email c' = cfg_watcher_email c" and "(cfg_watcher_password c' = None) = (cfg_watcher_password c = None)"
  shows "fst (seed_prod e' hash' n' random' v) = None \<and> sw_db (snd (seed_prod e' hash' n' random' v)) = sw_db v
    \<and> sw_files (snd (seed_prod e' hash' n' random' v)) = sw_files v"
proof -
  from assms(1,2) have "seed_run e hash n c w = (Inr (), v)"
    by (auto simp: seed_prod_def split: prod.splits sum.splits)
  from seed_run_seeded [OF this] assms(5-8) have "seeded c' v"
    by (auto simp: seeded_def split: option.splits)
  from seed_run_again [OF this assms(4), of e' hash' n'] assms(3) show ?thesis
    by (auto simp: seed_prod_def split: prod.splits sum.splits)
qed

theorem seeding_again_changes_nothing_witness:
  "let e = operator_env [(''ADMIN_PASSWORD'', ''long enough'')];
       e' = operator_env [(''ADMIN_PASSWORD'', ''another one''), (''PLATFORM_NAME'', ''Renamed'')];
       v = snd (seed_prod e id 24 ''0f'' (start_world empty_db))
   in sw_db (snd (seed_prod e' id 24 ''1e'' v)) = sw_db v"
proof -
  let ?e = "operator_env [(''ADMIN_PASSWORD'', ''long enough'')]"
  let ?e' = "operator_env [(''ADMIN_PASSWORD'', ''another one''), (''PLATFORM_NAME'', ''Renamed'')]"
  let ?r = "seed_prod ?e id 24 ''0f'' (start_world empty_db)"
  obtain c where c: "read_config ?e ''0f'' = Inr c" "cfg_platform_key c = ''portal-a''" "cfg_admin_email c = ''admin@cimp.local''"
    "cfg_watcher_email c = None" "cfg_watcher_password c = None"
    by (simp add: read_config_def required_var_def optional_var_def operator_env_def plain_env_def truthy_def Let_def)
  obtain c' where c': "read_config ?e' ''1e'' = Inr c'" "cfg_platform_key c' = ''portal-a''" "cfg_admin_email c' = ''admin@cimp.local''"
    "cfg_watcher_email c' = None" "cfg_watcher_password c' = None" "\<not> cfg_wipe c'"
    by (simp add: read_config_def required_var_def optional_var_def operator_env_def plain_env_def truthy_def Let_def)
  have "fst ?r = None" by code_simp
  then have "?r = (None, snd ?r)" by (simp add: prod_eq_iff)
  from seeding_again_changes_nothing [OF this c(1) c'(1), of id 24] c c' show ?thesis by (simp add: Let_def)
qed

section \<open>What is printed\<close>

text \<open>The database without what must stay secret.\<close>

definition hide_platform :: "platform \<Rightarrow> platform" where
  "hide_platform p = p\<lparr>plat_handoff_secret := ''''\<rparr>"

definition hide_staff :: "staff_user \<Rightarrow> staff_user" where
  "hide_staff u = u\<lparr>su_password_hash := None\<rparr>"

definition blind :: "db \<Rightarrow> db" where
  "blind s = s\<lparr>t_platforms := map hide_platform (t_platforms s), t_staff := map hide_staff (t_staff s)\<rparr>"

definition alike :: "seed_world \<Rightarrow> seed_world \<Rightarrow> bool" where
  "alike w v \<longleftrightarrow> blind (sw_db w) = blind (sw_db v) \<and> sw_out w = sw_out v"

lemma hide_staff_simps [simp]:
  "su_id (hide_staff u) = su_id u" "su_email (hide_staff u) = su_email u" "su_idp_subject (hide_staff u) = su_idp_subject u"
  by (simp_all add: hide_staff_def)

lemma hide_platform_simps [simp]: "plat_id (hide_platform p) = plat_id p" "plat_key (hide_platform p) = plat_key p"
  by (simp_all add: hide_platform_def)

lemma blindD:
  assumes "blind s = blind t"
  shows "map hide_platform (t_platforms s) = map hide_platform (t_platforms t)"
    and "map hide_staff (t_staff s) = map hide_staff (t_staff t)" and "t_roles s = t_roles t"
    and "fresh_id s = fresh_id t"
proof -
  have "t_platforms (blind s) = t_platforms (blind t)" "t_staff (blind s) = t_staff (blind t)"
    "t_roles (blind s) = t_roles (blind t)" "uuid_gen (blind s) (uuid_drawn (blind s)) = uuid_gen (blind t) (uuid_drawn (blind t))"
    by (simp_all add: assms)
  then show "map hide_platform (t_platforms s) = map hide_platform (t_platforms t)"
    "map hide_staff (t_staff s) = map hide_staff (t_staff t)" "t_roles s = t_roles t" "fresh_id s = fresh_id t"
    by (simp_all add: blind_def fresh_id_def)
qed

lemma find_map_None: "(\<And>x. p (f x) = p x) \<Longrightarrow> List.find p (map f xs) = map_option f (List.find p xs)"
  by (induction xs) auto

lemma list_ex_map_same: "(\<And>x. p (f x) = p x) \<Longrightarrow> list_ex p (map f xs) = list_ex p xs"
  by (induction xs) auto

lemma blind_finds:
  assumes "blind s = blind t"
  shows "map_option hide_platform (find_platform_by_key k s) = map_option hide_platform (find_platform_by_key k t)"
    and "(find_platform i s = None) = (find_platform i t = None)"
    and "(find_seeded m s = None) = (find_seeded m t = None)"
    and "(find_staff i s = None) = (find_staff i t = None)"
proof -
  have b: "map_option hide_platform (by_key plat_key k ps) = by_key plat_key k (map hide_platform ps)"
    "map_option hide_platform (by_key plat_id i ps) = by_key plat_id i (map hide_platform ps)" for ps k i
    by (simp_all add: by_key_def find_map_None)
  show "map_option hide_platform (find_platform_by_key k s) = map_option hide_platform (find_platform_by_key k t)"
    by (simp add: find_platform_by_key_def b blindD(1) [OF assms])
  have "map_option hide_platform (find_platform i s) = map_option hide_platform (find_platform i t)"
    by (simp add: find_platform_def b blindD(1) [OF assms])
  then show "(find_platform i s = None) = (find_platform i t = None)" by (metis map_option_is_None)
  have "map_option hide_staff (find_seeded m r) = List.find (\<lambda>u. su_email u = m \<or> su_idp_subject u = seed_subject m) (map hide_staff (t_staff r))"
    "map_option hide_staff (find_staff i r) = List.find (\<lambda>u. su_id u = i) (map hide_staff (t_staff r))" for r
    by (simp_all add: find_seeded_def find_staff_def by_key_def find_map_None)
  then have f: "map_option hide_staff (find_seeded m s) = map_option hide_staff (find_seeded m t)"
    "map_option hide_staff (find_staff i s) = map_option hide_staff (find_staff i t)"
    by (simp_all only: blindD(2) [OF assms])
  show "(find_seeded m s = None) = (find_seeded m t = None)"
    using f(1) by (cases "find_seeded m s"; cases "find_seeded m t") simp_all
  show "(find_staff i s = None) = (find_staff i t = None)"
    using f(2) by (cases "find_staff i s"; cases "find_staff i t") simp_all
qed

lemma blind_clash:
  assumes "blind s = blind t" and "hide_staff u = hide_staff v"
  shows "staff_clash u s = staff_clash v t"
proof -
  have uv: "su_id u = su_id v" "su_email u = su_email v" "su_idp_subject u = su_idp_subject v"
    using assms(2) by (metis hide_staff_simps)+
  let ?c = "\<lambda>x. su_id x \<noteq> su_id v \<and> (su_idp_subject x = su_idp_subject v \<or> su_email x = su_email v)"
  have "list_ex ?c (map hide_staff (t_staff r)) = list_ex ?c (t_staff r)" for r
    by (rule list_ex_map_same) simp
  from this [of s] this [of t] blindD(2) [OF assms(1)] show ?thesis
    by (simp add: staff_clash_def uv)
qed

lemma insert_staff_blind:
  assumes "blind s = blind t"
  shows "rel_sum (=) (\<lambda>x y. su_id (fst x) = su_id (fst y) \<and> blind (snd x) = blind (snd y))
    (insert_staff e sub nm m h s) (insert_staff e sub nm m h' t)"
proof -
  let ?row = "\<lambda>i h. \<lparr>su_id = i, su_idp_subject = sub, su_name = nm, su_email = m, su_password_hash = h,
      su_status = ACCOUNT_ACTIVE, su_token_version = 1, su_created_at = now e\<rparr>"
  have f: "fresh_id s = fresh_id t" by (rule blindD(4) [OF assms])
  have h: "hide_staff (?row i h) = hide_staff (?row i h')" for i by (simp add: hide_staff_def)
  have "blind (draw_id (t_staff_update (\<lambda>us. us @ [?row (fresh_id t) h]) s))
      = blind (draw_id (t_staff_update (\<lambda>us. us @ [?row (fresh_id t) h']) t))"
  proof -
    have "blind (draw_id (t_staff_update (\<lambda>us. us @ [u]) r)) = draw_id (t_staff_update (\<lambda>us. us @ [hide_staff u]) (blind r))" for u r
      by (simp add: blind_def draw_id_def)
    with assms h show ?thesis by simp
  qed
  with f blind_clash [OF assms h] blind_finds(4) [OF assms] show ?thesis
    by (simp add: insert_staff_def require_def Let_def)
qed

lemma insert_grant_blind:
  assumes "blind s = blind t"
  shows "rel_sum (=) (\<lambda>x y. blind x = blind y) (insert_grant e u p r s) (insert_grant e u p r t)"
proof -
  have "blind (draw_id (t_roles_update f q)) = draw_id (t_roles_update f (blind q))" for f q
    by (simp add: blind_def draw_id_def)
  with assms blindD(3,4) [OF assms] show ?thesis by (simp add: insert_grant_def require_def)
qed

lemma insert_platform_blind:
  assumes "blind s = blind t"
  shows "rel_sum (=) (\<lambda>x y. plat_id (fst x) = plat_id (fst y) \<and> blind (snd x) = blind (snd y))
    (insert_platform e k nm sec s) (insert_platform e k nm sec' t)"
proof -
  have "blind (draw_id (t_platforms_update (\<lambda>ps. ps @ [p]) r)) = draw_id (t_platforms_update (\<lambda>ps. ps @ [hide_platform p]) (blind r))" for p r
    by (simp add: blind_def draw_id_def)
  moreover have "hide_platform (fresh_platform e k nm sec s) = hide_platform (fresh_platform e k nm sec' t)"
    by (simp add: hide_platform_def fresh_platform_def blindD(4) [OF assms])
  ultimately show ?thesis using assms blind_finds(2) [OF assms, of "fresh_id t"] blindD(4) [OF assms]
    by (simp add: insert_platform_def require_def Let_def fresh_platform_def)
qed

lemma and_then_alike:
  assumes "rel_prod (rel_sum (=) Q) alike (m w) (m' v)"
    and "\<And>x y w v. Q x y \<Longrightarrow> alike w v \<Longrightarrow> rel_prod (rel_sum (=) R) alike (f x w) (g y v)"
  shows "rel_prod (rel_sum (=) R) alike (and_then m f w) (and_then m' g v)"
  using assms by (cases "m w"; cases "m' v"; cases "fst (m w)"; cases "fst (m' v)") (auto simp: and_then_def)

lemma seed_platform_alike:
  assumes "alike w v" and "cfg_platform_key c' = cfg_platform_key c" and "cfg_platform_name c' = cfg_platform_name c"
  shows "rel_prod (rel_sum (=) (\<lambda>p q. plat_id p = plat_id q)) alike (seed_platform e c w) (seed_platform e c' v)"
proof -
  have b: "blind (sw_db w) = blind (sw_db v)" using assms(1) by (simp add: alike_def)
  have f: "map_option hide_platform (find_platform_by_key (cfg_platform_key c) (sw_db w))
      = map_option hide_platform (find_platform_by_key (cfg_platform_key c) (sw_db v))"
    by (rule blind_finds(1) [OF b])
  show ?thesis
  proof (cases "find_platform_by_key (cfg_platform_key c) (sw_db w)")
    case None
    with f have v: "find_platform_by_key (cfg_platform_key c) (sw_db v) = None" by simp
    from insert_platform_blind [OF b, of e "cfg_platform_key c" "cfg_platform_name c" "cfg_handoff_secret c" "cfg_handoff_secret c'"]
    show ?thesis
    proof (cases rule: rel_sum.cases)
      case (1 er er')
      with None v assms show ?thesis by (simp add: seed_platform_def)
    next
      case (2 ps qs)
      then show ?thesis using None v assms by (cases ps; cases qs) (simp add: seed_platform_def alike_def)
    qed
  next
    case (Some p)
    with f obtain q where q: "find_platform_by_key (cfg_platform_key c) (sw_db v) = Some q" "hide_platform p = hide_platform q"
      by (cases "find_platform_by_key (cfg_platform_key c) (sw_db v)") simp_all
    then have "plat_id p = plat_id q" by (metis hide_platform_simps(1))
    with Some q assms show ?thesis by (simp add: seed_platform_def alike_def)
  qed
qed

lemma seed_account_alike:
  assumes "alike w v"
  shows "rel_prod (rel_sum (=) (=)) alike (seed_account e m nm h p r sh w) (seed_account e m nm h' p r sh v)"
proof -
  have b: "blind (sw_db w) = blind (sw_db v)" using assms by (simp add: alike_def)
  show ?thesis
  proof (cases "find_seeded m (sw_db w)")
    case None
    with blind_finds(3) [OF b] have v: "find_seeded m (sw_db v) = None" by simp
    from insert_staff_blind [OF b, of e "seed_subject m" nm m "Some h" "Some h'"] show ?thesis
    proof (cases rule: rel_sum.cases)
      case (1 er er')
      with None v assms show ?thesis by (simp add: seed_account_def)
    next
      case (2 us us')
      then obtain u s1 u' t1 where us: "us = (u, s1)" "us' = (u', t1)" "su_id u = su_id u'" "blind s1 = blind t1"
        by (cases us; cases us') auto
      from insert_grant_blind [OF us(4), of e "su_id u" p r] show ?thesis
        using 2 us None v assms by (auto simp: seed_account_def alike_def elim!: rel_sum.cases)
    qed
  next
    case (Some u)
    with blind_finds(3) [OF b] obtain u' where "find_seeded m (sw_db v) = Some u'" by (metis not_None_eq)
    with Some assms show ?thesis by (simp add: seed_account_def alike_def)
  qed
qed

lemma seed_watcher_alike:
  assumes "alike w v" and "plat_id p = plat_id q" and "(wp = None) = (cfg_watcher_password c = None)"
  shows "rel_prod (rel_sum (=) (=)) alike (seed_watcher e hash c p w)
    (seed_watcher e hash' (c\<lparr>cfg_admin_password := ap, cfg_handoff_secret := hs, cfg_watcher_password := wp\<rparr>) q v)"
  using assms seed_account_alike [OF assms(1)]
  by (cases "cfg_watcher_email c"; cases "cfg_watcher_password c"; cases wp) (simp_all add: seed_watcher_def)

lemma alike_say: "alike w v \<Longrightarrow> alike (say ls w) (say ls v)"
  by (simp add: alike_def)

lemma seed_run_alike:
  assumes "alike w v" and "(wp = None) = (cfg_watcher_password c = None)"
  shows "rel_prod (rel_sum (=) (=)) alike (seed_run e hash n c w)
    (seed_run e hash' n (c\<lparr>cfg_admin_password := ap, cfg_handoff_secret := hs, cfg_watcher_password := wp\<rparr>) v)"
proof -
  let ?c = "c\<lparr>cfg_admin_password := ap, cfg_handoff_secret := hs, cfg_watcher_password := wp\<rparr>"
  have t: "blind (truncate_all s) = truncate_all (blind s)" for s by (simp add: blind_def truncate_all_def)
  have w: "alike (if cfg_wipe c then wipe_all n (say [Connected] w) else say [Connected] w)
      (if cfg_wipe c then wipe_all n (say [Connected] v) else say [Connected] v)"
    using assms(1) by (simp add: wipe_all_def alike_def t)
  have "summary ?c = summary c" by (simp add: summary_def)
  then have f: "rel_prod (rel_sum (=) (=)) alike (Inr (), say (summary c) w') (Inr (), say (summary ?c) v')"
    if "alike w' v'" for w' v' using that by (simp add: alike_say)
  show ?thesis
    unfolding seed_run_def Let_def seed_config.select_convs seed_config.update_convs
    apply (rule and_then_alike)
     apply (rule seed_platform_alike)
    using w apply simp
    apply simp
    apply simp
    apply (rule and_then_alike)
     apply simp
     apply (erule seed_account_alike)
    apply (rule and_then_alike)
    apply (erule seed_watcher_alike, assumption, rule assms(2))
    using f apply simp
    done
qed

lemma seed_prod_out:
  "read_config e random = Inr c \<Longrightarrow>
   seed_prod e hash n random w = (case seed_run e hash n c w of (Inl er, v) \<Rightarrow> (Some (SeedFailed er), v) | (Inr _, v) \<Rightarrow> (None, v))"
  by (simp add: seed_prod_def)

text \<open>
  What the production script prints does not depend on the
  administrator's and the watcher's password, on the signing secret, given or generated, nor on
  their hashes: two runs that differ in nothing else print the same lines and end the same way.
\<close>

theorem output_tells_no_secret:
  assumes "read_config e random = Inr c"
    and "read_config e' random' = Inr (c\<lparr>cfg_admin_password := ap, cfg_handoff_secret := hs, cfg_watcher_password := wp\<rparr>)"
    and "(wp = None) = (cfg_watcher_password c = None)" and "now e' = now e"
  shows "sw_out (snd (seed_prod e hash n random w)) = sw_out (snd (seed_prod e' hash' n random' w))
    \<and> fst (seed_prod e hash n random w) = fst (seed_prod e' hash' n random' w)"
proof -
  have "seed_run e' hash' n d = seed_run e hash' n d" for d
  proof -
    have i: "insert_staff e' = insert_staff e" "insert_grant e' = insert_grant e" "insert_platform e' = insert_platform e"
      by (intro ext, simp add: insert_staff_def insert_grant_def insert_platform_def fresh_platform_def assms(4))+
    have p: "seed_platform e' = seed_platform e" unfolding seed_platform_def [abs_def] i by (rule refl)
    have a: "seed_account e' = seed_account e" unfolding seed_account_def [abs_def] i by (rule refl)
    have w: "seed_watcher e' = seed_watcher e" unfolding seed_watcher_def [abs_def] a by (rule refl)
    show ?thesis unfolding seed_run_def [abs_def] p a w by (rule refl)
  qed
  moreover have "alike w w" by (simp add: alike_def)
  from seed_run_alike [OF this assms(3), of e hash n hash' hs ap] show ?thesis
    unfolding seed_prod_out [OF assms(1)] seed_prod_out [OF assms(2)] calculation
    by (cases rule: rel_prod.cases) (auto simp: alike_def elim!: rel_sum.cases)
qed

theorem output_tells_no_secret_witness:
  "let e = operator_env [(''ADMIN_PASSWORD'', ''long enough'')];
       e' = operator_env [(''ADMIN_PASSWORD'', ''another one''), (''HANDOFF_SECRET'', ''known'')]
   in sw_out (snd (seed_prod e id 24 ''0f'' (start_world empty_db))) = sw_out (snd (seed_prod e' rev 24 ''1e'' (start_world empty_db)))"
proof -
  let ?e = "operator_env [(''ADMIN_PASSWORD'', ''long enough'')]"
  let ?e' = "operator_env [(''ADMIN_PASSWORD'', ''another one''), (''HANDOFF_SECRET'', ''known'')]"
  obtain c where c: "read_config ?e ''0f'' = Inr c" "cfg_watcher_password c = None"
    "read_config ?e' ''1e'' = Inr (c\<lparr>cfg_admin_password := ''another one'', cfg_handoff_secret := ''known'', cfg_watcher_password := None\<rparr>)"
    by (simp add: read_config_def required_var_def optional_var_def operator_env_def plain_env_def truthy_def Let_def)
  show ?thesis
    using output_tells_no_secret [OF c(1) c(3), of id 24 "start_world empty_db" rev] c(2)
    by (simp add: operator_env_def)
qed

section \<open>A fresh workspace\<close>

lemma truncate_all_simps [simp]:
  "t_platforms (truncate_all s) = []" "t_staff (truncate_all s) = []" "t_roles (truncate_all s) = []"
  by (simp_all add: truncate_all_def)

lemma seed_account_rows:
  assumes "seed_account e m nm h p r sh w = (Inr (), v)"
  shows "find_seeded m (sw_db w) \<noteq> None \<and> sw_db v = sw_db w
    \<or> (\<exists>u g. find_seeded m (sw_db w) = None
       \<and> t_staff (sw_db v) = t_staff (sw_db w) @ [u] \<and> t_roles (sw_db v) = t_roles (sw_db w) @ [g]
       \<and> t_platforms (sw_db v) = t_platforms (sw_db w)
       \<and> su_email u = m \<and> su_status u = ACCOUNT_ACTIVE \<and> su_password_hash u = Some h
       \<and> upr_staff_user g = su_id u \<and> upr_role g = r \<and> upr_platform g = p \<and> upr_id g \<notin> upr_id ` set (t_roles (sw_db w)))"
proof (cases "find_seeded m (sw_db w)")
  case None
  with assms obtain u s1 s2 where u: "insert_staff e (seed_subject m) nm m (Some h) (sw_db w) = Inr (u, s1)"
    and g: "insert_grant e (su_id u) p r s1 = Inr s2" and v: "sw_db v = s2"
    by (auto simp: seed_account_def split: sum.splits)
  from u have "t_staff s1 = t_staff (sw_db w) @ [u]" "t_roles s1 = t_roles (sw_db w)" "t_platforms s1 = t_platforms (sw_db w)"
    "su_email u = m" "su_status u = ACCOUNT_ACTIVE" "su_password_hash u = Some h"
    by (auto simp: insert_staff_def require_Inr_iff Let_def draw_id_def)
  moreover obtain x where "t_roles s2 = t_roles s1 @ [x]" "t_staff s2 = t_staff s1" "t_platforms s2 = t_platforms s1"
    "upr_staff_user x = su_id u" "upr_role x = r" "upr_platform x = p" "upr_id x \<notin> upr_id ` set (t_roles s1)"
    using g by (fastforce simp: insert_grant_def require_Inr_iff draw_id_def by_key_None_iff)
  ultimately show ?thesis using v None by auto
next
  case (Some u)
  with assms show ?thesis by (auto simp: seed_account_def)
qed

lemma seed_watcher_rows:
  assumes "seed_watcher e hash c p w = (Inr (), v)"
  shows "\<exists>us gs. t_staff (sw_db v) = t_staff (sw_db w) @ us \<and> t_roles (sw_db v) = t_roles (sw_db w) @ gs
    \<and> t_platforms (sw_db v) = t_platforms (sw_db w)
    \<and> (\<forall>g \<in> set gs. upr_role g = WATCHER \<and> upr_id g \<notin> upr_id ` set (t_roles (sw_db w))) \<and> length gs \<le> 1"
proof -
  have "v = w \<or> (\<exists>m h q sh. seed_account e m (cfg_watcher_name c) h q WATCHER sh w = (Inr (), v))"
    using assms by (cases "cfg_watcher_email c"; cases "cfg_watcher_password c") (simp_all add: seed_watcher_def, blast)
  then show ?thesis
  proof
    assume "\<exists>m h q sh. seed_account e m (cfg_watcher_name c) h q WATCHER sh w = (Inr (), v)"
    then obtain m h q sh where "seed_account e m (cfg_watcher_name c) h q WATCHER sh w = (Inr (), v)" by blast
    from seed_account_rows [OF this] show ?thesis by fastforce
  qed simp
qed

text \<open>
  After a wipe the production script, when it ends well,
  leaves a database with an administrator in which the printed login works with the chosen
  password, and only the portal it names.
\<close>

theorem fresh_seed_opens_the_workspace:
  assumes "seed_prod e hash n random w = (None, v)" and "read_config e random = Inr c"
    and "cfg_wipe c" and "0 < n"
    and "\<And>p. compare p (hash p) \<and> hash p \<noteq> ''''" and "truthy jwt_secret \<noteq> None"
  shows "admin_inv (sw_db v) \<and> is_ok (login sign compare jwt_secret (cfg_admin_email c) (cfg_admin_password c) (sw_db v))
    \<and> map plat_key (t_platforms (sw_db v)) = [cfg_platform_key c]"
proof -
  let ?a = "seed_account e (cfg_admin_email c) (cfg_admin_name c) (hash (cfg_admin_password c)) None ADMIN None"
  let ?w2 = "wipe_all n (say [Connected] w)"
  have z: "t_platforms (sw_db ?w2) = []" "t_staff (sw_db ?w2) = []" "t_roles (sw_db ?w2) = []"
    using assms(4) by (simp_all add: wipe_all_def)
  from assms(1,2) have "seed_run e hash n c w = (Inr (), v)"
    by (auto simp: seed_prod_def split: prod.splits sum.splits)
  then have "and_then (seed_platform e c) (\<lambda>p. and_then ?a (\<lambda>_.
      and_then (seed_watcher e hash c p) (\<lambda>_ w. (Inr (), say (summary c) w)))) ?w2 = (Inr (), v)"
    using assms(3) by (simp add: seed_run_def)
  then obtain p w3 w4 w5 where p: "seed_platform e c ?w2 = (Inr p, w3)" and a: "?a w3 = (Inr (), w4)"
    and wt: "seed_watcher e hash c p w4 = (Inr (), w5)" and v: "sw_db v = sw_db w5"
    by (elim and_then_InrE) auto
  from p z have 3: "map plat_key (t_platforms (sw_db w3)) = [cfg_platform_key c]" "t_staff (sw_db w3) = []" "t_roles (sw_db w3) = []"
    by (auto simp: seed_platform_def insert_platform_def find_platform_by_key_def find_platform_def require_def Let_def
        fresh_platform_def draw_id_def split: option.splits)
  from 3 have "find_seeded (cfg_admin_email c) (sw_db w3) = None" by (simp add: find_seeded_def)
  with seed_account_rows [OF a] 3 obtain u g where 4: "t_staff (sw_db w4) = [u]" "t_roles (sw_db w4) = [g]"
    "t_platforms (sw_db w4) = t_platforms (sw_db w3)"
    "su_email u = cfg_admin_email c" "su_status u = ACCOUNT_ACTIVE" "su_password_hash u = Some (hash (cfg_admin_password c))"
    "upr_staff_user g = su_id u" "upr_role g = ADMIN" "upr_platform g = None"
    by auto
  from seed_watcher_rows [OF wt] 4 obtain us gs where 5: "t_staff (sw_db w5) = u # us" "t_roles (sw_db w5) = g # gs"
    "\<forall>x \<in> set gs. upr_role x = WATCHER \<and> upr_id x \<noteq> upr_id g" "length gs \<le> 1"
    and pl: "t_platforms (sw_db w5) = t_platforms (sw_db w4)"
    by auto
  from 5(4) have "distinct (map upr_id gs)" by (cases gs) auto
  with 5 4 have "admin_inv (sw_db w5)"
    by (auto simp: admin_inv_def list_all_iff active_admin_grant_def find_staff_def by_key_Cons)
  moreover have "is_ok (login sign compare jwt_secret (cfg_admin_email c) (cfg_admin_password c) (sw_db w5))"
    using 5 4 assms(5) [of "cfg_admin_password c"] assms(6) by (auto simp: login_def truthy_def)
  ultimately show ?thesis using 3 4 pl v by simp
qed

theorem fresh_seed_opens_the_workspace_witness:
  "let e = operator_env [(''ADMIN_PASSWORD'', ''long enough''), (''WIPE_DATA'', SENTINEL)];
       v = snd (seed_prod e (\<lambda>p. CHR ''#'' # p) 24 ''0f'' (start_world two_admins))
   in is_ok (login (\<lambda>_. ''jwt'') (\<lambda>p h. h = CHR ''#'' # p) (Some ''k'') ''admin@cimp.local'' ''long enough'' (sw_db v))
      \<and> map plat_key (t_platforms (sw_db v)) = [''portal-a'']"
proof -
  let ?e = "operator_env [(''ADMIN_PASSWORD'', ''long enough''), (''WIPE_DATA'', SENTINEL)]"
  let ?r = "seed_prod ?e (\<lambda>p. CHR ''#'' # p) 24 ''0f'' (start_world two_admins)"
  obtain c where c: "read_config ?e ''0f'' = Inr c" "cfg_platform_key c = ''portal-a''" "cfg_admin_email c = ''admin@cimp.local''"
    "cfg_admin_password c = ''long enough''" "cfg_wipe c"
    by (simp add: read_config_def required_var_def optional_var_def operator_env_def plain_env_def truthy_def Let_def SENTINEL_def)
  have "fst ?r = None" by code_simp
  then have r: "?r = (None, snd ?r)" by (simp add: prod_eq_iff)
  from fresh_seed_opens_the_workspace [OF r c(1,5), of "\<lambda>p h. h = CHR ''#'' # p" "Some ''k''" "\<lambda>_. ''jwt''"] c
  show ?thesis by (simp add: truthy_def Let_def)
qed

section \<open>What it does not repair\<close>

text \<open>
  Account and grant are separate saves. If the script dies between them, the account exists and
  no run adds the grant: every later run ends well, prints the login and leaves nobody who may
  administer.
\<close>

definition interrupted :: "env \<Rightarrow> db \<Rightarrow> db" where
  "interrupted e s = (case insert_staff e (seed_subject ''admin@cimp.local'') ''Admin'' ''admin@cimp.local'' (Some ''hash'') s of
     Inr (_, t) \<Rightarrow> t | Inl _ \<Rightarrow> s)"

lemma interrupted_seed_never_heals:
  "let e = operator_env [(''ADMIN_PASSWORD'', ''long enough'')];
       (r, v) = seed_prod e id 24 ''0f'' (start_world (interrupted e empty_db))
   in r = None \<and> LoginLine ''admin@cimp.local'' \<in> set (sw_out v) \<and> t_roles (sw_db v) = []"
  by code_simp

text \<open>
  The address is not put in lower case. The administration, which does that, later creates a
  second account for the same address; the login, which compares without case, finds one of
  them.
\<close>

lemma mixed_case_address_is_doubled:
  "let e = operator_env [(''ADMIN_PASSWORD'', ''long enough''), (''ADMIN_EMAIL'', ''Ann@X.org'')];
       s = sw_db (snd (seed_prod e (\<lambda>p. CHR ''#'' # p) 24 ''0f'' (start_world empty_db)))
   in case createStaff e (\<lambda>p. CHR ''#'' # p) (admin_staff ''ann'') ''Ann'' ''ann@x.org'' ''my own password'' s of
        Inl _ \<Rightarrow> False
      | Inr (_, t) \<Rightarrow> map (js_lower \<circ> su_email) (t_staff t) = [''ann@x.org'', ''ann@x.org'']
          \<and> \<not> is_ok (login (\<lambda>_. ''jwt'') (\<lambda>p h. h = CHR ''#'' # p) (Some ''k'') ''ann@x.org'' ''my own password'' t)"
  by code_simp

section \<open>The development portal\<close>

definition DEV_SECRET :: string where
  "DEV_SECRET = ''dev-secret-portal-a''"

definition DEV_KEY :: string where
  "DEV_KEY = ''portal-a''"

text \<open>An existing portal is put back to the secret the helpers know, and enabled.\<close>

definition repaired :: "platform \<Rightarrow> platform" where
  "repaired p = p\<lparr>plat_handoff_secret := DEV_SECRET, plat_status := PLATFORM_ACTIVE\<rparr>"

definition dev_platform :: "env \<Rightarrow> platform seeding" where
  "dev_platform e w =
     (case find_platform_by_key DEV_KEY (sw_db w) of
        None \<Rightarrow>
         (case insert_platform e DEV_KEY ''Portal A'' DEV_SECRET (sw_db w) of
            Inl er \<Rightarrow> (Inl er, w)
          | Inr (p, s1) \<Rightarrow> (Inr p, say [CreatedPlatform DEV_KEY (plat_id p)] (w\<lparr>sw_db := s1\<rparr>)))
      | Some p \<Rightarrow>
         (let w1 = say [PlatformExists DEV_KEY] w;
              secret_off = (plat_handoff_secret p \<noteq> DEV_SECRET); status_off = (plat_status p \<noteq> PLATFORM_ACTIVE)
          in if secret_off \<or> status_off
             then (Inr (repaired p), say [PlatformReset secret_off status_off]
                     (w1\<lparr>sw_db := t_platforms_update (replace_row plat_id (repaired p)) (sw_db w1)\<rparr>))
             else (Inr p, w1)))"

text \<open>\<^verbatim>\<open>sign claims secret seconds\<close> is the signing with an expiry; the token is the last line printed.\<close>

definition dev_claims :: handoff_claims where
  "dev_claims = \<lparr>hc_platform_key = Some DEV_KEY, hc_portal_user_id = Some ''u-1001'', hc_name = Some ''Asha Rao'',
     hc_email = Some ''asha@example.org'', hc_locale = None, hc_exp = None\<rparr>"

definition seed_dev :: "env \<Rightarrow> (string \<Rightarrow> string) \<Rightarrow> (handoff_claims \<Rightarrow> string \<Rightarrow> nat \<Rightarrow> string) \<Rightarrow> string seeding" where
  "seed_dev e hash sign =
     and_then (dev_platform e) (\<lambda>p.
     and_then (seed_account e ''admin@cimp.dev'' ''Demo Admin'' (hash ''Password123!'') None ADMIN None) (\<lambda>_.
     and_then (seed_account e ''watcher@cimp.dev'' ''Demo Watcher'' (hash ''Password123!'') (Some (plat_id p)) WATCHER (Some DEV_KEY))
       (\<lambda>_ w. (Inr (sign dev_claims DEV_SECRET 300), say [LoginLine ''admin@cimp.dev'', WatcherLine ''watcher@cimp.dev''] w))))"

text \<open>\<^verbatim>\<open>make-token.ts\<close>: a token for given arguments, with the same defaults.\<close>

definition nth_arg :: "string list \<Rightarrow> nat \<Rightarrow> string \<Rightarrow> string" where
  "nth_arg args n d = (if n < length args then args ! n else d)"

definition make_token :: "(handoff_claims \<Rightarrow> string \<Rightarrow> nat \<Rightarrow> string) \<Rightarrow> string list \<Rightarrow> string" where
  "make_token sign args =
     sign \<lparr>hc_platform_key = Some (nth_arg args 0 ''portal-a''), hc_portal_user_id = Some (nth_arg args 2 ''u-1001''),
           hc_name = Some (nth_arg args 3 ''Asha Rao''), hc_email = Some (nth_arg args 4 ''asha@example.org''),
           hc_locale = None, hc_exp = None\<rparr> (nth_arg args 1 ''dev-secret-portal-a'') 300"

lemma make_token_default: "make_token sign [] = sign dev_claims DEV_SECRET 300"
  by (simp add: make_token_def nth_arg_def dev_claims_def DEV_KEY_def DEV_SECRET_def)

lemma by_key_repaired:
  "by_key plat_key k ps = Some p \<Longrightarrow> by_key plat_key k (replace_row plat_id (repaired p) ps) = Some (repaired p)"
  by (induction ps) (auto simp: by_key_Cons replace_row_def repaired_def split: if_splits)

lemma dev_platform_ready:
  assumes "dev_platform e w = (Inr p, v)"
  shows "\<exists>q. find_platform_by_key DEV_KEY (sw_db v) = Some q \<and> plat_status q = PLATFORM_ACTIVE \<and> plat_handoff_secret q = DEV_SECRET
    \<and> plat_key q = DEV_KEY"
proof (cases "find_platform_by_key DEV_KEY (sw_db w)")
  case None
  with assms show ?thesis
    by (auto simp: dev_platform_def insert_platform_def require_Inr_iff Let_def fresh_platform_def draw_id_def
        find_platform_by_key_def by_key_append by_key_Cons split: sum.splits)
next
  case (Some q)
  then have k: "plat_key q = DEV_KEY" by (auto simp: find_platform_by_key_def dest: by_key_SomeD)
  show ?thesis
  proof (cases "plat_handoff_secret q \<noteq> DEV_SECRET \<or> plat_status q \<noteq> PLATFORM_ACTIVE")
    case True
    with assms Some have "sw_db v = t_platforms_update (replace_row plat_id (repaired q)) (sw_db w)"
      by (auto simp: dev_platform_def Let_def)
    with Some by_key_repaired have "find_platform_by_key DEV_KEY (sw_db v) = Some (repaired q)"
      by (simp add: find_platform_by_key_def)
    then show ?thesis using k by (simp add: repaired_def)
  next
    case False
    with assms Some k show ?thesis by (auto simp: dev_platform_def Let_def)
  qed
qed

text \<open>
  Whatever was done to the development portal before, secret
  rotated or portal disabled, after the development script has ended well the token it prints
  is accepted by the hand-off check for that portal, with the identity it names.
\<close>

theorem dev_token_opens_the_portal:
  assumes "seed_dev e hash sign w = (Inr tok, v)"
    and "decode (sign dev_claims DEV_SECRET 300) = Some (dev_claims\<lparr>hc_exp := Some (JNum x)\<rparr>)"
    and "check (sign dev_claims DEV_SECRET 300) DEV_SECRET = Some (dev_claims\<lparr>hc_exp := Some (JNum x)\<rparr>)"
    and "sign dev_claims DEV_SECRET 300 \<noteq> ''''"
  shows "\<exists>h. verify decode check tok (sw_db v) = Inr h \<and> ho_platform_key h = DEV_KEY
    \<and> ho_portal_user_id h = ''u-1001'' \<and> ho_name h = ''Asha Rao''"
proof -
  let ?a = "seed_account e ''admin@cimp.dev'' ''Demo Admin'' (hash ''Password123!'') None ADMIN None"
  let ?b = "\<lambda>p. seed_account e ''watcher@cimp.dev'' ''Demo Watcher'' (hash ''Password123!'') (Some (plat_id p)) WATCHER (Some DEV_KEY)"
  from assms(1) obtain p w1 w2 w3 where p: "dev_platform e w = (Inr p, w1)" and a: "?a w1 = (Inr (), w2)"
    and b: "?b p w2 = (Inr (), w3)" and v: "sw_db v = sw_db w3" and tok: "tok = sign dev_claims DEV_SECRET 300"
    unfolding seed_dev_def by (elim and_then_InrE) auto
  have "grows w1 w2" "grows w2 w3"
    using seed_account_grows [of w1 e] seed_account_grows [of w2 e] a b by (metis snd_conv)+
  with dev_platform_ready [OF p] grown_platform obtain q where q: "find_platform_by_key DEV_KEY (sw_db v) = Some q"
    "plat_status q = PLATFORM_ACTIVE" "plat_handoff_secret q = DEV_SECRET" "plat_key q = DEV_KEY"
    unfolding v by metis
  with assms(2-4) show ?thesis
    by (simp add: verify_def tok dev_claims_def truthy_def) (simp add: DEV_KEY_def)
qed

definition rotated_portal :: db where
  "rotated_portal = empty_db\<lparr>t_platforms := [(sample_platform ''p1'' DEV_KEY)\<lparr>plat_status := PLATFORM_DISABLED\<rparr>]\<rparr>"

theorem dev_token_opens_the_portal_witness:
  "\<exists>h. verify (\<lambda>_. Some (dev_claims\<lparr>hc_exp := Some (JNum 300)\<rparr>)) (\<lambda>_ _. Some (dev_claims\<lparr>hc_exp := Some (JNum 300)\<rparr>)) ''jwt''
      (sw_db (snd (seed_dev plain_env id (\<lambda>_ _ _. ''jwt'') (start_world rotated_portal)))) = Inr h \<and> ho_name h = ''Asha Rao''"
proof -
  let ?r = "seed_dev plain_env id (\<lambda>_ _ _. ''jwt'') (start_world rotated_portal)"
  have "fst ?r = Inr ''jwt''" by code_simp
  then have "?r = (Inr ''jwt'', snd ?r)" by (simp add: prod_eq_iff)
  from dev_token_opens_the_portal [OF this, of "\<lambda>_. Some (dev_claims\<lparr>hc_exp := Some (JNum 300)\<rparr>)" 300
      "\<lambda>_ _. Some (dev_claims\<lparr>hc_exp := Some (JNum 300)\<rparr>)"] show ?thesis by auto
qed

section \<open>Demonstration data\<close>

text \<open>
  One row of \<^verbatim>\<open>seed-demo.ts\<close>. The draws are parameters: days and hours of jitter
  for the creation, the resolution and the closing; a time of day so many days ago.
\<close>

definition daysAgo :: "env \<Rightarrow> nat \<Rightarrow> nat \<Rightarrow> time" where
  "daysAgo e d h = now e - int d * 86400000 - int h * 3600000"

record demo_draw =
  dr_status :: issue_status
  dr_priority :: priority
  dr_assignee :: "ident option"
  dr_description :: string
  dr_created :: "nat \<times> nat"
  dr_resolved :: "nat \<times> nat"
  dr_closed :: "nat \<times> nat"

definition demo_issue :: "env \<Rightarrow> demo_draw \<Rightarrow> string \<Rightarrow> ident \<Rightarrow> ident \<Rightarrow> ident \<Rightarrow> issue" where
  "demo_issue e d ref p rep i =
     (let st = dr_status d; createdAt = daysAgo e (fst (dr_created d)) (snd (dr_created d)) in
      \<lparr>iss_id = i, iss_reference_no = ref, iss_platform = p, iss_reporter = rep,
       iss_assignee = (if st = NEW then None else dr_assignee d), iss_description = dr_description d,
       iss_publicly_visible = False, iss_public_title = None, iss_context = None, iss_status = st,
       iss_priority = dr_priority d, iss_duplicate_of = None, iss_jira_issue_key = None,
       iss_jira_sync_status = NOT_SYNCED, iss_version = 1, iss_created_at = createdAt,
       iss_sla_started_at = createdAt, iss_sla_breached_at = None, iss_updated_at = createdAt,
       iss_resolved_at = (if st = RESOLVED \<or> st = CLOSED
          then Some (daysAgo e (fst (dr_resolved d)) (snd (dr_resolved d))) else None),
       iss_closed_at = (if st = CLOSED then Some (daysAgo e (fst (dr_closed d)) (snd (dr_closed d))) else None)\<rparr>)"

text \<open>The ranges the script draws from.\<close>

definition drawn :: "demo_draw \<Rightarrow> bool" where
  "drawn d \<longleftrightarrow> 1 \<le> fst (dr_created d) \<and> fst (dr_created d) \<le> 28 \<and> snd (dr_created d) \<le> 23
     \<and> snd (dr_resolved d) \<le> 23 \<and> snd (dr_closed d) \<le> 23 \<and> fst (dr_closed d) \<le> fst (dr_created d) - 1
     \<and> (if dr_status d = CLOSED then 1 \<le> fst (dr_resolved d) \<and> fst (dr_resolved d) \<le> fst (dr_created d)
        else fst (dr_resolved d) \<le> fst (dr_created d) - 1)"

text \<open>Every row obeys the invariant of the lifecycle, with the SLA clock at its creation.\<close>

lemma demo_rows_are_consistent:
  "lifecycle_ok (demo_issue e d ref p rep i)
   \<and> iss_sla_started_at (demo_issue e d ref p rep i) = iss_created_at (demo_issue e d ref p rep i)"
  by (cases "dr_status d") (simp_all add: lifecycle_ok_def demo_issue_def Let_def)

lemma demo_resolution_after_creation:
  assumes "drawn d" and "dr_status d = RESOLVED" and "iss_resolved_at (demo_issue e d ref p rep i) = Some r"
  shows "iss_created_at (demo_issue e d ref p rep i) < r \<and> r \<le> now e"
proof -
  from assms(1,2) have "int (fst (dr_resolved d)) + 1 \<le> int (fst (dr_created d))" "int (snd (dr_resolved d)) \<le> 23"
    by (auto simp: drawn_def)
  with assms(2,3) show ?thesis by (auto simp: demo_issue_def Let_def daysAgo_def)
qed

text \<open>A closed row can be resolved before it was created: the day of the creation is among the draws.\<close>

lemma demo_resolved_before_created:
  "let d = \<lparr>dr_status = CLOSED, dr_priority = LOW, dr_assignee = None, dr_description = ''x'',
              dr_created = (1, 0), dr_resolved = (1, 23), dr_closed = (0, 0)\<rparr>;
       r = demo_issue plain_env d ''SUP-1001'' ''p'' ''r'' ''i''
   in drawn d \<and> (case iss_resolved_at r of Some t \<Rightarrow> t < iss_created_at r | None \<Rightarrow> False)"
  by code_simp

end
