(* ===== verification/Spec2Isabelle.thy ===== *)
theory Spec2Isabelle
  imports Config IssuesQuery Lifecycle Csv StatusPage Webhooks Realtime ApiTokens SavedViews SelfSupport Notifications
  JiraOutbound Deflection Translation Dashboard Storage Api Failures ClientSession ClientAccess ClientText
  ClientBoard ClientForms Seeding
begin

text \<open>
  CIMP is a support platform: portals hand their users over with a signed token, the users report
  issues, staff of several platforms (tenants) work on them. This library models the backend
  (\<^verbatim>\<open>src/*/*.service.ts\<close>) and the logic of its browser client
  (\<^verbatim>\<open>frontend/src\<close>), and proves what makes them correct.

  Foundations. \<^verbatim>\<open>Prelude\<close>: exceptions of the HTTP layer as values (\<^verbatim>\<open>http_error\<close>),
  fallible operations (\<^verbatim>\<open>'a res\<close>), keyed tables, and the locales \<^verbatim>\<open>table\<close> (what a
  repository's findOne, save and remove promise) and \<^verbatim>\<open>transition_system\<close> (a step relation
  with an invariant), interpreted on the model's own tables and operations wherever they are
  used. \<^verbatim>\<open>JsString\<close>, \<^verbatim>\<open>JsNumber\<close>: the string and number functions of JavaScript, on
  units below 256. \<^verbatim>\<open>Enums\<close>, \<^verbatim>\<open>Entities\<close>: \<^verbatim>\<open>src/common/enums.ts\<close>,
  \<^verbatim>\<open>src/common/constants.ts\<close>, \<^verbatim>\<open>src/entities\<close> and \<^verbatim>\<open>src/events\<close>; the database is the
  record \<^verbatim>\<open>db\<close> of the tables, with the events emitted so far (\<^verbatim>\<open>outbox\<close>) and the
  supply of generated ids. \<^verbatim>\<open>Store\<close>: saving an issue through the ORM, the other form of
  update, the audit trail (\<^verbatim>\<open>src/audit/audit.service.ts\<close>).

  Rights. \<^verbatim>\<open>Authz\<close>: \<^verbatim>\<open>src/authz\<close>; the locale \<^verbatim>\<open>scope_policy\<close> states the contract
  between the scope used in queries and the access check used in handlers.

  Issues. \<^verbatim>\<open>StatusMachine\<close>: the transition table and its bookkeeping. \<^verbatim>\<open>Sla\<close>: the
  SLA clock in JavaScript and in SQL, the sweep. \<^verbatim>\<open>Issues\<close>: single and bulk mutations of
  \<^verbatim>\<open>src/issues/issues.service.ts\<close>; \<^verbatim>\<open>IssuesQuery\<close>, \<^verbatim>\<open>Jql\<close>, \<^verbatim>\<open>SearchTerms\<close>:
  its queries and the query language. \<^verbatim>\<open>Catalog\<close>: labels and canned responses (locale
  \<^verbatim>\<open>tenant_catalog\<close>). \<^verbatim>\<open>Annotations\<close>: watchers and links. \<^verbatim>\<open>Merge\<close>: duplicates.
  \<^verbatim>\<open>Automation\<close>: rules and their engine. \<^verbatim>\<open>Comments\<close>: comments by staff.
  \<^verbatim>\<open>JiraInbound\<close>: status changes from Jira.

  Portal. \<^verbatim>\<open>Uploads\<close>: signatures, intake limits, download header. \<^verbatim>\<open>Scanning\<close>: virus
  scans, their retry, the gated download. \<^verbatim>\<open>Sanitizer\<close>: the diagnostics a portal attaches.
  \<^verbatim>\<open>Reporter\<close>: hand-off tokens, intake, and what a reporter may read and write.

  Across the writers of issues. \<^verbatim>\<open>Lifecycle\<close>: one step relation over the operations
  that write an issue (staff, merge, rules, Jira both ways, publishing, portal, sweep, the removal
  of an account), and the invariant of the rows under any order of them. \<^verbatim>\<open>Csat\<close>: ratings.

  Accounts. \<^verbatim>\<open>Accounts\<close>: \<^verbatim>\<open>src/auth\<close>, \<^verbatim>\<open>src/admin\<close>: login, tokens, staff and grants, with
  the requests as one step relation. \<^verbatim>\<open>ApiTokens\<close>: \<^verbatim>\<open>src/integrations\<close>.
  \<^verbatim>\<open>SelfSupport\<close>: hand-off tokens for staff. \<^verbatim>\<open>SavedViews\<close>: stored filters.

  Outwards. \<^verbatim>\<open>StatusPage\<close>: components, incidents, the public page. \<^verbatim>\<open>Webhooks\<close>: target
  check, retries, circuit breaker. \<^verbatim>\<open>Csv\<close>: the export, against a reader of its format.
  \<^verbatim>\<open>Realtime\<close>: the event stream, its slots and its re-authorization.

  Listeners. \<^verbatim>\<open>Notifications\<close>: who is told of an event, the bell, the weekly digest.
  \<^verbatim>\<open>JiraOutbound\<close>: tickets, attachments and echoes pushed to Jira, concurrent pushes as
  interleaved processes. \<^verbatim>\<open>Translation\<close>: the cache of machine translations (locale
  \<^verbatim>\<open>translation_provider\<close>). \<^verbatim>\<open>Deflection\<close>: suggestions for a draft report, followers, the
  public list of known issues.

  Reports and files. \<^verbatim>\<open>Dashboard\<close>: \<^verbatim>\<open>src/dashboard\<close>. \<^verbatim>\<open>Storage\<close>: the two drivers of
  \<^verbatim>\<open>src/storage\<close> (locale \<^verbatim>\<open>object_store\<close>).

  Edges. \<^verbatim>\<open>Config\<close>: boot validation. \<^verbatim>\<open>Api\<close>: the controllers of the staff API, every
  writing route from the bearer guard to the service; the locale \<^verbatim>\<open>isolation\<close> (steps taken by
  those who may not touch an owner leave its view alone) is interpreted on the requests of
  outsiders of a platform.

  Browser. \<^verbatim>\<open>Failures\<close>: the exception filter of the server and what the client makes of
  its answers. \<^verbatim>\<open>ClientSession\<close>: the two tokens, the diagnostics fragment, the client of the
  event stream. \<^verbatim>\<open>ClientAccess\<close>: rights as the client sees them and what it offers, against
  the handlers that decide. \<^verbatim>\<open>ClientText\<close>: mentions, reply templates, formats.
  \<^verbatim>\<open>ClientBoard\<close>: optimistic moves as a step relation with the server's state beside it,
  swimlanes, the triage queue. \<^verbatim>\<open>ClientForms\<close>: pager, list, dialogs and forms, against the
  validation on the server.

  Operations. \<^verbatim>\<open>Seeding\<close>: \<^verbatim>\<open>src/scripts\<close>: the guarded wipe, the seeds and what a second run
  leaves (locale \<^verbatim>\<open>script_order\<close>), the development token, the rows of the demonstration.

  Services interact in two ways, both kept: one transaction writes several tables (the operations
  return the new database), and events are appended to the outbox, from which listeners are run.

  Parameters of the model, because the sources do not contain them: the clock, environment and
  the ORM's version check (fields of \<^verbatim>\<open>env\<close>), text search, ranking and collation of the
  database (\<^verbatim>\<open>engine\<close>), date and URL parsing, digests, signing and checking of tokens, the mail
  server, the object store and the network, class-validator's decorators.

  Recursion is structural or has a measure everywhere. The one loop the code bounds itself is the
  retry of intake (the pushes to Jira retry by a measure): its fuel is the code's own \<^verbatim>\<open>MAX_ATTEMPTS\<close>, and running out of it is the
  code's failure.

  Not modelled: the framework's wiring (declarative), the migrations (SQL schema; the search
  vector one of them maintains is in \<^verbatim>\<open>Deflection\<close>), rendering and the pages of the user
  interface that only show what the server answers. What the client's libraries do
  (React's state, the query cache, the mutations) enters as their documented behaviour: the
  order in which answers arrive is left open.
\<close>

end
